(* ===== verification/Prelude.thy ===== *)
theory Prelude
  imports Main "HOL-Library.Word" "HOL-Library.List_Lexorder" "HOL-Library.Char_ord"
    "HOL-Library.Sublist" "HOL-Library.Multiset"
begin

text \<open>
  Shared vocabulary of the development: the error spine of the desktop core
  (\<^verbatim>\<open>src/src-tauri/src/error.rs\<close>), the result type every fallible operation returns,
  the identifiers and clock values the components share, the string primitives of the Rust
  standard library that the code calls (\<^verbatim>\<open>str::trim\<close>, \<^verbatim>\<open>str::is_empty\<close>), lower-case
  hexadecimal encoding, and the list lemmas and rule collections the component theories use.
  A Rust \<^verbatim>\<open>String\<close> is the list of its UTF-8 bytes, so \<open>length\<close> is \<^verbatim>\<open>str::len\<close> and the
  lexicographic order of \<open>List_Lexorder\<close> and \<open>Char_ord\<close> is Rust's byte order.
\<close>

section \<open>Types shared by the components\<close>

type_synonym uuid = "128 word"
type_synonym u8 = "8 word"

text \<open>A \<^verbatim>\<open>DateTime<Utc>\<close> is its signed distance from the Unix epoch in nanoseconds.\<close>

type_synonym datetime = int

text \<open>
  \<^verbatim>\<open>AppError\<close>. The values that come from third-party crates (driver, parser, keychain, I/O
  and serde errors) carry their rendered message.
\<close>

datatype app_error =
    Db string
  | Mongo string
  | Agent_error string
  | Network string
  | Safety string
  | Parse string
  | Keychain string
  | Io string
  | Serialization string
  | Config string
  | NotFound string
  | Blocked string
  | OutcomeUnknown_error string

text \<open>The stable discriminant that the frontend switches on.\<close>

fun app_error_kind :: "app_error \<Rightarrow> string" where
  "app_error_kind (Db _) = ''db''"
| "app_error_kind (Mongo _) = ''db''"
| "app_error_kind (Agent_error _) = ''agent''"
| "app_error_kind (Network _) = ''network''"
| "app_error_kind (Safety _) = ''safety''"
| "app_error_kind (Parse _) = ''parse''"
| "app_error_kind (Keychain _) = ''keychain''"
| "app_error_kind (Io _) = ''io''"
| "app_error_kind (Serialization _) = ''serialization''"
| "app_error_kind (Config _) = ''config''"
| "app_error_kind (NotFound _) = ''notFound''"
| "app_error_kind (Blocked _) = ''blocked''"
| "app_error_kind (OutcomeUnknown_error _) = ''outcomeUnknown''"

type_synonym 'a app_result = "app_error + 'a"

section \<open>Limits of one control message\<close>

definition max_request_bytes :: nat where
  "max_request_bytes = 1024 * 1024"

definition max_response_bytes :: nat where
  "max_response_bytes = 8 * 1024 * 1024"

definition max_json_depth :: nat where
  "max_json_depth = 32"

definition max_collection_items :: nat where
  "max_collection_items = 10000"

definition max_json_values :: nat where
  "max_json_values = 10000"

definition max_string_bytes :: nat where
  "max_string_bytes = 256 * 1024"

section \<open>Results: the question mark operator\<close>

text \<open>\<open>rbind r f\<close> is \<^verbatim>\<open>f(r?)\<close>: the first error ends the function.\<close>

definition rbind :: "'e + 'a \<Rightarrow> ('a \<Rightarrow> 'e + 'b) \<Rightarrow> 'e + 'b" where
  "rbind r f = (case r of Inl e \<Rightarrow> Inl e | Inr x \<Rightarrow> f x)"

text \<open>\<open>guard c e\<close> is \<^verbatim>\<open>if c { return Err(e) }\<close>.\<close>

definition guard :: "bool \<Rightarrow> 'e \<Rightarrow> 'e + unit" where
  "guard c e = (if c then Inl e else Inr ())"

text \<open>\<open>ok_or o e\<close> is \<^verbatim>\<open>o.ok_or(e)\<close>.\<close>

definition ok_or :: "'a option \<Rightarrow> 'e \<Rightarrow> 'e + 'a" where
  "ok_or opt e = (case opt of None \<Rightarrow> Inl e | Some x \<Rightarrow> Inr x)"

text \<open>\<open>transpose_opt f o\<close> is \<^verbatim>\<open>o.map(f).transpose()\<close>.\<close>

definition transpose_opt :: "('a \<Rightarrow> 'e + 'b) \<Rightarrow> 'a option \<Rightarrow> 'e + 'b option" where
  "transpose_opt f opt = (case opt of None \<Rightarrow> Inr None
     | Some x \<Rightarrow> (case f x of Inl e \<Rightarrow> Inl e | Inr y \<Rightarrow> Inr (Some y)))"

text \<open>\<open>collect_results f xs\<close> is \<^verbatim>\<open>xs.iter().map(f).collect::<Result<Vec<_>,_>>()\<close>.\<close>

fun collect_results :: "('a \<Rightarrow> 'e + 'b) \<Rightarrow> 'a list \<Rightarrow> 'e + 'b list" where
  "collect_results f [] = Inr []"
| "collect_results f (x # xs) =
     rbind (f x) (\<lambda>y. rbind (collect_results f xs) (\<lambda>ys. Inr (y # ys)))"

named_theorems result_simps \<open>rewriting of the question mark operator\<close>

lemma rbind_Inl [simp, result_simps]: "rbind (Inl e) f = Inl e"
  by (simp add: rbind_def)

lemma rbind_Inr [simp, result_simps]: "rbind (Inr x) f = f x"
  by (simp add: rbind_def)

lemma rbind_eq_Inr [result_simps]: "rbind r f = Inr y \<longleftrightarrow> (\<exists>x. r = Inr x \<and> f x = Inr y)"
  by (cases r) simp_all

lemma rbind_eq_Inl [result_simps]:
  "rbind r f = Inl e \<longleftrightarrow> r = Inl e \<or> (\<exists>x. r = Inr x \<and> f x = Inl e)"
  by (cases r) auto

lemma guard_eq_Inr [simp, result_simps]: "guard c e = Inr u \<longleftrightarrow> \<not> c"
  by (simp add: guard_def)

lemma guard_eq_Inl [simp, result_simps]: "guard c e = Inl e' \<longleftrightarrow> c \<and> e' = e"
  by (auto simp: guard_def)

lemma guard_False [simp]: "guard False e = Inr ()"
  by (simp add: guard_def)

lemma guard_True [simp]: "guard True e = Inl e"
  by (simp add: guard_def)

lemma ok_or_eq_Inr [simp, result_simps]: "ok_or opt e = Inr x \<longleftrightarrow> opt = Some x"
  by (cases opt) (auto simp: ok_or_def)

lemma ok_or_Some [simp]: "ok_or (Some x) e = Inr x"
  by (simp add: ok_or_def)

lemma ok_or_None [simp]: "ok_or None e = Inl e"
  by (simp add: ok_or_def)

lemma transpose_opt_None [simp]: "transpose_opt f None = Inr None"
  by (simp add: transpose_opt_def)

lemma transpose_opt_Some [simp]:
  "transpose_opt f (Some x) = (case f x of Inl e \<Rightarrow> Inl e | Inr y \<Rightarrow> Inr (Some y))"
  by (simp add: transpose_opt_def)

lemma collect_results_append:
  "collect_results f (xs @ ys) =
     rbind (collect_results f xs) (\<lambda>us. rbind (collect_results f ys) (\<lambda>vs. Inr (us @ vs)))"
  by (induction xs) (auto simp: rbind_def split: sum.splits)

lemma collect_results_Inr:
  "list_all2 (\<lambda>x y. f x = Inr y) xs ys \<Longrightarrow> collect_results f xs = Inr ys"
  by (induction rule: list_all2_induct) auto

lemma collect_results_list_all2:
  "collect_results f xs = Inr ys \<Longrightarrow> list_all2 (\<lambda>x y. f x = Inr y) xs ys"
  by (induction xs arbitrary: ys) (auto simp: rbind_eq_Inr)

section \<open>Rust string primitives\<close>

text \<open>
  \<^verbatim>\<open>str::trim\<close> removes the characters with the Unicode property White\_Space. These are
  their UTF-8 encodings: six ASCII characters, then U+0085, U+00A0, U+1680, U+2000 to U+200A,
  U+2028, U+2029, U+202F, U+205F and U+3000.
\<close>

definition white_space :: "string list" where
  "white_space =
     [[CHR 0x09], [CHR 0x0A], [CHR 0x0B], [CHR 0x0C], [CHR 0x0D], [CHR 0x20],
      [CHR 0xC2, CHR 0x85], [CHR 0xC2, CHR 0xA0], [CHR 0xE1, CHR 0x9A, CHR 0x80],
      [CHR 0xE2, CHR 0x80, CHR 0x80], [CHR 0xE2, CHR 0x80, CHR 0x81],
      [CHR 0xE2, CHR 0x80, CHR 0x82], [CHR 0xE2, CHR 0x80, CHR 0x83],
      [CHR 0xE2, CHR 0x80, CHR 0x84], [CHR 0xE2, CHR 0x80, CHR 0x85],
      [CHR 0xE2, CHR 0x80, CHR 0x86], [CHR 0xE2, CHR 0x80, CHR 0x87],
      [CHR 0xE2, CHR 0x80, CHR 0x88], [CHR 0xE2, CHR 0x80, CHR 0x89],
      [CHR 0xE2, CHR 0x80, CHR 0x8A], [CHR 0xE2, CHR 0x80, CHR 0xA8],
      [CHR 0xE2, CHR 0x80, CHR 0xA9], [CHR 0xE2, CHR 0x80, CHR 0xAF],
      [CHR 0xE2, CHR 0x81, CHR 0x9F], [CHR 0xE3, CHR 0x80, CHR 0x80]]"

text \<open>Drop every leading element of \<open>ws\<close>; the bound \<open>n\<close> is the length of the string.\<close>

fun strip_tokens :: "nat \<Rightarrow> string list \<Rightarrow> string \<Rightarrow> string" where
  "strip_tokens 0 ws s = s"
| "strip_tokens (Suc n) ws s =
     (case find (\<lambda>w. prefix w s) ws of
        None \<Rightarrow> s
      | Some w \<Rightarrow> strip_tokens n ws (drop (length w) s))"

definition trim_start :: "string \<Rightarrow> string" where
  "trim_start s = strip_tokens (length s) white_space s"

definition trim_end :: "string \<Rightarrow> string" where
  "trim_end s = rev (strip_tokens (length s) (map rev white_space) (rev s))"

definition trim :: "string \<Rightarrow> string" where
  "trim s = trim_end (trim_start s)"

text \<open>\<^verbatim>\<open>s.trim().is_empty()\<close>\<close>

definition blank :: "string \<Rightarrow> bool" where
  "blank s \<longleftrightarrow> trim s = []"

lemma blank_Nil [simp]: "blank []"
  by (simp add: blank_def trim_def trim_start_def trim_end_def)

lemma not_blank_nonempty: "\<not> blank s \<Longrightarrow> s \<noteq> []"
  by auto

text \<open>\<^verbatim>\<open>u8::to_ascii_lowercase\<close> and \<^verbatim>\<open>str::eq_ignore_ascii_case\<close>\<close>

definition ascii_lower :: "char \<Rightarrow> char" where
  "ascii_lower c = (if 65 \<le> (of_char c :: nat) \<and> (of_char c :: nat) \<le> 90 then char_of ((of_char c :: nat) + 32) else c)"

definition eq_ignore_ascii_case :: "string \<Rightarrow> string \<Rightarrow> bool" where
  "eq_ignore_ascii_case a b \<longleftrightarrow> map ascii_lower a = map ascii_lower b"

section \<open>Lower-case hexadecimal\<close>

definition hex_digit :: "nat \<Rightarrow> char" where
  "hex_digit n = ''0123456789abcdef'' ! n"

definition hex_chars :: "char set" where
  "hex_chars = set ''0123456789abcdef''"

text \<open>
  \<^verbatim>\<open>lower_hex\<close> of the operations module: two digits per byte, the high nibble first.
\<close>

definition byte_hex :: "u8 \<Rightarrow> string" where
  "byte_hex b = [hex_digit (unat (drop_bit 4 b)), hex_digit (unat (and b 15))]"

definition lower_hex :: "u8 list \<Rightarrow> string" where
  "lower_hex bs = concat (map byte_hex bs)"

lemma length_lower_hex [simp]: "length (lower_hex bs) = 2 * length bs"
  by (induction bs) (simp_all add: lower_hex_def byte_hex_def)

lemma hex_digit_hex_chars: "n < 16 \<Longrightarrow> hex_digit n \<in> hex_chars"
  unfolding hex_digit_def hex_chars_def by (rule nth_mem) simp

lemma nibble_bounds: "unat (drop_bit 4 (b :: u8)) < 16" "unat (and (b :: u8) 15) < 16"
proof -
  have "unat b < 256" using unsigned_less [of b] by simp
  then show "unat (drop_bit 4 b) < 16"
    by (simp add: unat_drop_bit_eq div_less_dividend less_mult_imp_div_less drop_bit_nat_def
        flip: drop_bit_eq_div)
  have "and b 15 \<le> (15 :: u8)" by (rule word_and_le1)
  then show "unat (and b 15) < 16"
    by (simp add: word_le_nat_alt)
qed

lemma lower_hex_chars: "set (lower_hex bs) \<subseteq> hex_chars"
  by (induction bs)
    (auto simp: lower_hex_def byte_hex_def intro: hex_digit_hex_chars nibble_bounds)

section \<open>Generic lemmas on lists\<close>

lemma find_Some_set: "find P xs = Some x \<Longrightarrow> x \<in> set xs \<and> P x"
  by (induction xs) (auto split: if_splits)

lemma find_map_if:
  "(\<And>x. P (f x) = P x) \<Longrightarrow> find P (map f xs) = map_option f (find P xs)"
  by (induction xs) auto

lemma filter_map_if_other:
  "(\<And>x. x \<in> set xs \<Longrightarrow> Q x \<Longrightarrow> \<not> P x) \<Longrightarrow>
   (\<And>x. x \<in> set xs \<Longrightarrow> P x \<Longrightarrow> Q (f x) = Q x) \<Longrightarrow>
   filter Q (map (\<lambda>x. if P x then f x else x) xs) = filter Q xs"
  by (induction xs) auto

lemma length_filter_one_iff:
  assumes "distinct (map k xs)" "x \<in> set xs"
  shows "filter (\<lambda>y. k y = k x) xs = [x]"
  using assms
proof (induction xs)
  case Nil
  then show ?case by simp
next
  case (Cons a xs)
  show ?case
  proof (cases "a = x")
    case True
    with Cons.prems have "filter (\<lambda>y. k y = k x) xs = []"
      by (auto simp: filter_empty_conv) (metis image_eqI)
    with True show ?thesis by simp
  next
    case False
    with Cons.prems have "x \<in> set xs" "k a \<noteq> k x" by auto
    with Cons show ?thesis by simp
  qed
qed

lemma find_snoc: "find P (xs @ [x]) = (case find P xs of Some y \<Rightarrow> Some y | None \<Rightarrow> if P x then Some x else None)"
  by (induction xs) auto

lemma find_distinct_key:
  assumes "distinct (map k xs)" "x \<in> set xs"
  shows "find (\<lambda>y. k y = k x) xs = Some x"
  using assms by (induction xs) auto

end
