(* ===== verification/Operation_State.thy ===== *)
theory Operation_State
  imports Prelude
begin

text \<open>
  The operation lifecycle: the vocabulary of \<^verbatim>\<open>src/dopedb-protocol/src/operation.rs\<close>, the
  transition table and the restart policy of
  \<^verbatim>\<open>src/src-tauri/src/operations/state_machine.rs\<close>, the text codecs of
  \<^verbatim>\<open>src/src-tauri/src/operations/model.rs\<close> that map each enum to its SQLite text, and the
  version negotiation of \<^verbatim>\<open>src/dopedb-protocol/src/version.rs\<close>. The codecs are instances of
  the interface \<open>text_codec\<close>; the transition table is an instance of \<open>lifecycle\<close>, whose
  lemmas bound every run of the machine.
\<close>

section \<open>Vocabulary\<close>

datatype operation_kind =
    ReadQuery | DocumentRead | WriteSql | Ddl_op | Privilege_op | SqlScript | TableDataChange
  | SchemaChange | Import | Export | Migration | DashboardCreate | PluginAction | ProviderAction

fun is_read :: "operation_kind \<Rightarrow> bool" where
  "is_read ReadQuery = True"
| "is_read DocumentRead = True"
| "is_read _ = False"

fun is_resumable_job :: "operation_kind \<Rightarrow> bool" where
  "is_resumable_job Import = True"
| "is_resumable_job Export = True"
| "is_resumable_job _ = False"

text \<open>Whether an interrupted execution may already have changed the target database.\<close>

fun may_mutate_target :: "operation_kind \<Rightarrow> bool" where
  "may_mutate_target WriteSql = True"
| "may_mutate_target Ddl_op = True"
| "may_mutate_target Privilege_op = True"
| "may_mutate_target SqlScript = True"
| "may_mutate_target TableDataChange = True"
| "may_mutate_target SchemaChange = True"
| "may_mutate_target Import = True"
| "may_mutate_target Migration = True"
| "may_mutate_target PluginAction = True"
| "may_mutate_target ProviderAction = True"
| "may_mutate_target _ = False"

datatype actor_kind = LocalUser | WorkspaceUser | Agent | Plugin | System

datatype operation_state =
    Planned | PendingApproval | Ready | Approved | Rejected | Expired | Cancelled | Executing
  | Succeeded | Failed | OutcomeUnknown

fun is_terminal :: "operation_state \<Rightarrow> bool" where
  "is_terminal Rejected = True"
| "is_terminal Expired = True"
| "is_terminal Cancelled = True"
| "is_terminal Succeeded = True"
| "is_terminal Failed = True"
| "is_terminal OutcomeUnknown = True"
| "is_terminal _ = False"

datatype event_kind =
    Ev_Proposed | Ev_Planned | Ev_ApprovalRequested | Ev_Approved | Ev_Rejected
  | Ev_ExecutionStarted | Ev_Progress | Ev_Succeeded | Ev_Failed | Ev_Cancelled
  | Ev_OutcomeUnknown | Ev_Expired

datatype op_risk_level = Risk_Low | Risk_Medium | Risk_High | Risk_Critical

datatype approval_decision = Decision_Approved | Decision_Rejected

section \<open>The transition table\<close>

record transition_error =
  te_from :: operation_state
  te_to :: operation_state

definition transition_allowed :: "operation_state \<Rightarrow> operation_state \<Rightarrow> bool" where
  "transition_allowed s t =
     (case s of
        Planned \<Rightarrow> t \<in> {PendingApproval, Ready, Cancelled, Expired}
      | PendingApproval \<Rightarrow> t \<in> {Approved, Rejected, Cancelled, Expired}
      | Ready \<Rightarrow> t \<in> {Executing, Cancelled, Expired}
      | Approved \<Rightarrow> t \<in> {Executing, Cancelled, Expired}
      | Executing \<Rightarrow> t \<in> {Succeeded, Failed, Cancelled, OutcomeUnknown}
      | _ \<Rightarrow> False)"

definition ensure_transition ::
  "operation_state \<Rightarrow> operation_state \<Rightarrow> transition_error + unit" where
  "ensure_transition s t =
     (if transition_allowed s t then Inr () else Inl \<lparr>te_from = s, te_to = t\<rparr>)"

datatype restart_recovery_action =
  KeepTerminal | Expire | MarkFailed | MarkOutcomeUnknown | ValidateJobCheckpoint

definition restart_recovery :: "operation_kind \<Rightarrow> operation_state \<Rightarrow> restart_recovery_action" where
  "restart_recovery k s =
     (if is_terminal s then KeepTerminal
      else if s \<noteq> Executing then Expire
      else if is_resumable_job k then ValidateJobCheckpoint
      else if may_mutate_target k then MarkOutcomeUnknown
      else MarkFailed)"

lemma ensure_transition_Inr [simp]: "ensure_transition s t = Inr u \<longleftrightarrow> transition_allowed s t"
  by (simp add: ensure_transition_def)

lemma transition_allowed_not_terminal: "transition_allowed s t \<Longrightarrow> \<not> is_terminal s"
  by (cases s) (simp_all add: transition_allowed_def)

lemma transition_to_Executing:
  "transition_allowed s Executing \<longleftrightarrow> s = Ready \<or> s = Approved"
  by (cases s) (simp_all add: transition_allowed_def)

lemma transition_from_Executing:
  "transition_allowed Executing t \<longleftrightarrow> t \<in> {Succeeded, Failed, Cancelled, OutcomeUnknown}"
  by (simp add: transition_allowed_def)

lemma transition_irrefl: "transition_allowed s t \<Longrightarrow> s \<noteq> t"
  by (cases s) (auto simp: transition_allowed_def)

lemma transition_not_Planned: "\<not> transition_allowed s Planned"
  by (cases s) (simp_all add: transition_allowed_def)

subsection \<open>The interface of a lifecycle\<close>

text \<open>
  What the ledger relies on: a relation between states, a set of final states with no way
  out, and a rank every step raises. A run of such a machine cannot revisit a state, and its
  length is bounded by the rank of its end.
\<close>

locale lifecycle =
  fixes step :: "'s \<Rightarrow> 's \<Rightarrow> bool"
    and final :: "'s \<Rightarrow> bool"
    and rank :: "'s \<Rightarrow> nat"
  assumes final_stuck: "final s \<Longrightarrow> \<not> step s t"
    and rank_step: "step s t \<Longrightarrow> rank s < rank t"
begin

lemma run_rank: "step\<^sup>+\<^sup>+ s t \<Longrightarrow> rank s < rank t"
  by (induction rule: tranclp_induct) (auto dest: rank_step)

lemma run_acyclic: "\<not> step\<^sup>+\<^sup>+ s s"
  using run_rank [of s s] by auto

lemma run_final: "final s \<Longrightarrow> step\<^sup>*\<^sup>* s t \<Longrightarrow> t = s"
  by (erule converse_rtranclpE) (auto dest: final_stuck)

lemma relpowp_rank: "(step ^^ n) s t \<Longrightarrow> rank s + n \<le> rank t"
proof (induction n arbitrary: t)
  case 0
  then show ?case by simp
next
  case (Suc n)
  then obtain u where "(step ^^ n) s u" "step u t" by auto
  then show ?case using Suc.IH [of u] rank_step [of u t] by simp
qed

end

fun lifecycle_rank :: "operation_state \<Rightarrow> nat" where
  "lifecycle_rank Planned = 0"
| "lifecycle_rank PendingApproval = 1"
| "lifecycle_rank Ready = 2"
| "lifecycle_rank Approved = 2"
| "lifecycle_rank Executing = 3"
| "lifecycle_rank _ = 4"

interpretation op_life: lifecycle transition_allowed is_terminal lifecycle_rank
proof
  show "\<not> transition_allowed s t" if "is_terminal s" for s t
    using that transition_allowed_not_terminal by blast
  show "lifecycle_rank s < lifecycle_rank t" if "transition_allowed s t" for s t
    using that by (cases s; cases t) (simp_all add: transition_allowed_def)
qed

section \<open>Text codecs\<close>

text \<open>
  A codec writes every value as text and reads back exactly the texts it writes; the
  component that stores the text relies on nothing else.
\<close>

locale text_codec =
  fixes to_text :: "'a \<Rightarrow> string"
    and of_text :: "string \<Rightarrow> 'a option"
  assumes of_to: "of_text (to_text x) = Some x"
    and to_of: "of_text s = Some x \<Longrightarrow> to_text x = s"
begin

lemma of_text_iff: "of_text s = Some x \<longleftrightarrow> s = to_text x"
  using of_to to_of by auto

lemma to_text_inject: "to_text x = to_text y \<longleftrightarrow> x = y"
  using of_to by (metis option.inject)

lemma of_text_inject: "of_text s = Some x \<Longrightarrow> of_text t = Some x \<Longrightarrow> s = t"
  using to_of by blast

end

fun actor_kind_str :: "actor_kind \<Rightarrow> string" where
  "actor_kind_str LocalUser = ''local_user''"
| "actor_kind_str WorkspaceUser = ''workspace_user''"
| "actor_kind_str Agent = ''agent''"
| "actor_kind_str Plugin = ''plugin''"
| "actor_kind_str System = ''system''"

definition parse_actor_kind :: "string \<Rightarrow> actor_kind option" where
  "parse_actor_kind v =
     (if v = ''local_user'' then Some LocalUser
      else if v = ''workspace_user'' then Some WorkspaceUser
      else if v = ''agent'' then Some Agent
      else if v = ''plugin'' then Some Plugin
      else if v = ''system'' then Some System
      else None)"

fun approval_decision_str :: "approval_decision \<Rightarrow> string" where
  "approval_decision_str Decision_Approved = ''approved''"
| "approval_decision_str Decision_Rejected = ''rejected''"

definition parse_approval_decision :: "string \<Rightarrow> approval_decision option" where
  "parse_approval_decision v =
     (if v = ''approved'' then Some Decision_Approved
      else if v = ''rejected'' then Some Decision_Rejected
      else None)"

fun operation_kind_str :: "operation_kind \<Rightarrow> string" where
  "operation_kind_str ReadQuery = ''read_query''"
| "operation_kind_str DocumentRead = ''document_read''"
| "operation_kind_str WriteSql = ''write_sql''"
| "operation_kind_str Ddl_op = ''ddl''"
| "operation_kind_str Privilege_op = ''privilege''"
| "operation_kind_str SqlScript = ''sql_script''"
| "operation_kind_str TableDataChange = ''table_data_change''"
| "operation_kind_str SchemaChange = ''schema_change''"
| "operation_kind_str Import = ''import''"
| "operation_kind_str Export = ''export''"
| "operation_kind_str Migration = ''migration''"
| "operation_kind_str DashboardCreate = ''dashboard_create''"
| "operation_kind_str PluginAction = ''plugin_action''"
| "operation_kind_str ProviderAction = ''provider_action''"

definition parse_operation_kind :: "string \<Rightarrow> operation_kind option" where
  "parse_operation_kind v =
     (if v = ''read_query'' then Some ReadQuery
      else if v = ''document_read'' then Some DocumentRead
      else if v = ''write_sql'' then Some WriteSql
      else if v = ''ddl'' then Some Ddl_op
      else if v = ''privilege'' then Some Privilege_op
      else if v = ''sql_script'' then Some SqlScript
      else if v = ''table_data_change'' then Some TableDataChange
      else if v = ''schema_change'' then Some SchemaChange
      else if v = ''import'' then Some Import
      else if v = ''export'' then Some Export
      else if v = ''migration'' then Some Migration
      else if v = ''dashboard_create'' then Some DashboardCreate
      else if v = ''plugin_action'' then Some PluginAction
      else if v = ''provider_action'' then Some ProviderAction
      else None)"

fun risk_level_str :: "op_risk_level \<Rightarrow> string" where
  "risk_level_str Risk_Low = ''low''"
| "risk_level_str Risk_Medium = ''medium''"
| "risk_level_str Risk_High = ''high''"
| "risk_level_str Risk_Critical = ''critical''"

definition parse_risk_level :: "string \<Rightarrow> op_risk_level option" where
  "parse_risk_level v =
     (if v = ''low'' then Some Risk_Low
      else if v = ''medium'' then Some Risk_Medium
      else if v = ''high'' then Some Risk_High
      else if v = ''critical'' then Some Risk_Critical
      else None)"

fun state_str :: "operation_state \<Rightarrow> string" where
  "state_str Planned = ''planned''"
| "state_str PendingApproval = ''pending_approval''"
| "state_str Ready = ''ready''"
| "state_str Approved = ''approved''"
| "state_str Rejected = ''rejected''"
| "state_str Expired = ''expired''"
| "state_str Cancelled = ''cancelled''"
| "state_str Executing = ''executing''"
| "state_str Succeeded = ''succeeded''"
| "state_str Failed = ''failed''"
| "state_str OutcomeUnknown = ''outcome_unknown''"

definition parse_state :: "string \<Rightarrow> operation_state option" where
  "parse_state v =
     (if v = ''planned'' then Some Planned
      else if v = ''pending_approval'' then Some PendingApproval
      else if v = ''ready'' then Some Ready
      else if v = ''approved'' then Some Approved
      else if v = ''rejected'' then Some Rejected
      else if v = ''expired'' then Some Expired
      else if v = ''cancelled'' then Some Cancelled
      else if v = ''executing'' then Some Executing
      else if v = ''succeeded'' then Some Succeeded
      else if v = ''failed'' then Some Failed
      else if v = ''outcome_unknown'' then Some OutcomeUnknown
      else None)"

fun event_kind_str :: "event_kind \<Rightarrow> string" where
  "event_kind_str Ev_Proposed = ''proposed''"
| "event_kind_str Ev_Planned = ''planned''"
| "event_kind_str Ev_ApprovalRequested = ''approval_requested''"
| "event_kind_str Ev_Approved = ''approved''"
| "event_kind_str Ev_Rejected = ''rejected''"
| "event_kind_str Ev_ExecutionStarted = ''execution_started''"
| "event_kind_str Ev_Progress = ''progress''"
| "event_kind_str Ev_Succeeded = ''succeeded''"
| "event_kind_str Ev_Failed = ''failed''"
| "event_kind_str Ev_Cancelled = ''cancelled''"
| "event_kind_str Ev_OutcomeUnknown = ''outcome_unknown''"
| "event_kind_str Ev_Expired = ''expired''"

definition parse_event_kind :: "string \<Rightarrow> event_kind option" where
  "parse_event_kind v =
     (if v = ''proposed'' then Some Ev_Proposed
      else if v = ''planned'' then Some Ev_Planned
      else if v = ''approval_requested'' then Some Ev_ApprovalRequested
      else if v = ''approved'' then Some Ev_Approved
      else if v = ''rejected'' then Some Ev_Rejected
      else if v = ''execution_started'' then Some Ev_ExecutionStarted
      else if v = ''progress'' then Some Ev_Progress
      else if v = ''succeeded'' then Some Ev_Succeeded
      else if v = ''failed'' then Some Ev_Failed
      else if v = ''cancelled'' then Some Ev_Cancelled
      else if v = ''outcome_unknown'' then Some Ev_OutcomeUnknown
      else if v = ''expired'' then Some Ev_Expired
      else None)"

interpretation actor_codec: text_codec actor_kind_str parse_actor_kind
proof
  show "parse_actor_kind (actor_kind_str x) = Some x" for x
    by (cases x) (simp_all add: parse_actor_kind_def)
  show "parse_actor_kind s = Some x \<Longrightarrow> actor_kind_str x = s" for s x
    by (auto simp: parse_actor_kind_def split: if_splits)
qed

interpretation decision_codec: text_codec approval_decision_str parse_approval_decision
proof
  show "parse_approval_decision (approval_decision_str x) = Some x" for x
    by (cases x) (simp_all add: parse_approval_decision_def)
  show "parse_approval_decision s = Some x \<Longrightarrow> approval_decision_str x = s" for s x
    by (auto simp: parse_approval_decision_def split: if_splits)
qed

interpretation kind_codec: text_codec operation_kind_str parse_operation_kind
proof
  show "parse_operation_kind (operation_kind_str x) = Some x" for x
    by (cases x) (simp_all add: parse_operation_kind_def)
  show "parse_operation_kind s = Some x \<Longrightarrow> operation_kind_str x = s" for s x
    by (auto simp: parse_operation_kind_def split: if_splits)
qed

interpretation risk_codec: text_codec risk_level_str parse_risk_level
proof
  show "parse_risk_level (risk_level_str x) = Some x" for x
    by (cases x) (simp_all add: parse_risk_level_def)
  show "parse_risk_level s = Some x \<Longrightarrow> risk_level_str x = s" for s x
    by (auto simp: parse_risk_level_def split: if_splits)
qed

interpretation state_codec: text_codec state_str parse_state
proof
  show "parse_state (state_str x) = Some x" for x
    by (cases x) (simp_all add: parse_state_def)
  show "parse_state s = Some x \<Longrightarrow> state_str x = s" for s x
    by (auto simp: parse_state_def split: if_splits)
qed

interpretation event_codec: text_codec event_kind_str parse_event_kind
proof
  show "parse_event_kind (event_kind_str x) = Some x" for x
    by (cases x) (simp_all add: parse_event_kind_def)
  show "parse_event_kind s = Some x \<Longrightarrow> event_kind_str x = s" for s x
    by (auto simp: parse_event_kind_def split: if_splits)
qed

lemmas codec_simps [simp] =
  actor_codec.of_to decision_codec.of_to kind_codec.of_to risk_codec.of_to state_codec.of_to
  event_codec.of_to
  actor_codec.to_text_inject decision_codec.to_text_inject kind_codec.to_text_inject
  risk_codec.to_text_inject state_codec.to_text_inject event_codec.to_text_inject

section \<open>Protocol version negotiation\<close>

record protocol_version_mismatch =
  runtime_min :: nat
  runtime_max :: nat
  client_min :: nat
  client_max :: nat

definition negotiate_protocol ::
  "nat \<Rightarrow> nat \<Rightarrow> nat \<Rightarrow> nat \<Rightarrow> protocol_version_mismatch + nat" where
  "negotiate_protocol rmin rmax cmin cmax =
     (let lower = max rmin cmin; upper = min rmax cmax
      in if lower \<le> upper then Inr upper
         else Inl \<lparr>runtime_min = rmin, runtime_max = rmax, client_min = cmin, client_max = cmax\<rparr>)"

text \<open>
  Version negotiation returns exactly the highest version in both ranges, and fails
  exactly when the two ranges share no version.
\<close>

theorem negotiate_protocol_correct:
  "(negotiate_protocol rmin rmax cmin cmax = Inr v \<longleftrightarrow>
      v \<in> {rmin..rmax} \<inter> {cmin..cmax} \<and> (\<forall>w \<in> {rmin..rmax} \<inter> {cmin..cmax}. w \<le> v)) \<and>
   (isl (negotiate_protocol rmin rmax cmin cmax) \<longleftrightarrow> {rmin..rmax} \<inter> {cmin..cmax} = {})"
proof (cases "max rmin cmin \<le> min rmax cmax")
  case True
  then have eq: "negotiate_protocol rmin rmax cmin cmax = Inr (min rmax cmax)"
    by (simp add: negotiate_protocol_def)
  have mem: "min rmax cmax \<in> {rmin..rmax} \<inter> {cmin..cmax}"
    using True by auto
  have top: "w \<le> min rmax cmax" if "w \<in> {rmin..rmax} \<inter> {cmin..cmax}" for w
    using that by auto
  show ?thesis
  proof (intro conjI iffI)
    assume "negotiate_protocol rmin rmax cmin cmax = Inr v"
    with eq have "v = min rmax cmax" by simp
    with mem top show "v \<in> {rmin..rmax} \<inter> {cmin..cmax}"
      and "\<forall>w\<in>{rmin..rmax} \<inter> {cmin..cmax}. w \<le> v" by auto
  next
    assume "v \<in> {rmin..rmax} \<inter> {cmin..cmax} \<and> (\<forall>w\<in>{rmin..rmax} \<inter> {cmin..cmax}. w \<le> v)"
    with mem top have "v = min rmax cmax" by (meson le_antisym)
    with eq show "negotiate_protocol rmin rmax cmin cmax = Inr v" by simp
  qed (use eq mem in auto)
next
  case False
  then have "negotiate_protocol rmin rmax cmin cmax =
      Inl \<lparr>runtime_min = rmin, runtime_max = rmax, client_min = cmin, client_max = cmax\<rparr>"
    by (simp add: negotiate_protocol_def Let_def)
  moreover have "{rmin..rmax} \<inter> {cmin..cmax} = {}" using False by auto
  ultimately show ?thesis by auto
qed

theorem negotiate_protocol_correct_witness:
  "negotiate_protocol 1 3 2 5 = Inr 3 \<and> isl (negotiate_protocol 1 2 3 4)"
  using negotiate_protocol_correct [of 1 3 2 5 3] negotiate_protocol_correct [of 1 2 3 4 0] by auto

text \<open>
  Every operation settles: a run of the lifecycle has at most four transitions from any
  state, and one that starts planned and is as long as any ends in a final state.
\<close>

theorem lifecycle_runs_are_short:
  assumes "(transition_allowed ^^ n) s t"
  shows "n \<le> 4 \<and> (n = 4 \<longrightarrow> s = Planned \<and> is_terminal t)"
proof -
  have "lifecycle_rank s + n \<le> lifecycle_rank t" using assms by (rule op_life.relpowp_rank)
  moreover have "lifecycle_rank t \<le> 4" by (cases t) simp_all
  moreover have "lifecycle_rank s = 0 \<Longrightarrow> s = Planned" by (cases s) simp_all
  moreover have "lifecycle_rank t = 4 \<Longrightarrow> is_terminal t" by (cases t) simp_all
  ultimately show ?thesis by auto
qed

theorem lifecycle_runs_are_short_witness:
  "(transition_allowed ^^ 4) Planned Succeeded \<and> is_terminal Succeeded"
proof -
  have "transition_allowed Planned PendingApproval" "transition_allowed PendingApproval Approved"
    "transition_allowed Approved Executing" "transition_allowed Executing Succeeded"
    by (simp_all add: transition_allowed_def)
  then have run: "(transition_allowed ^^ 4) Planned Succeeded"
    unfolding numeral_eq_Suc pred_numeral_simps BitM.simps relpowp.simps by auto
  then show ?thesis using lifecycle_runs_are_short [OF run] by blast
qed

end
