(* ===== verification/Json.thy ===== *)
theory Json
  imports Prelude
begin

text \<open>
  JSON values as \<^verbatim>\<open>serde_json::Value\<close> holds them, and the canonical encoding of
  \<^verbatim>\<open>src/src-tauri/src/operations/canonicalize.rs\<close>. The repository builds
  \<^verbatim>\<open>serde_json\<close> with insertion-ordered maps, so an object is an association list and
  two objects are equal when they hold equal values at the same keys in any order. The text
  encoder, the text decoder, SHA-256, and the text forms of UUIDs and timestamps belong to
  third-party crates: they are the fields of the parameter \<open>env\<close>, and \<open>env_ok\<close> names the
  documented behaviour the ledger relies on.
\<close>

section \<open>Values\<close>

text \<open>
  \<^verbatim>\<open>serde_json::Number\<close>: an unsigned integer, a negative integer, or the bits of a
  double (two doubles are compared by their bits, which separates the two zeros).
\<close>

datatype jnumber = PosInt nat | NegInt int | Float "64 word"

datatype json =
    JNull
  | JBool bool
  | JNumber jnumber
  | JString string
  | JArray "json list"
  | JObject "(string \<times> json) list"

text \<open>Every object of a \<^verbatim>\<open>Value\<close> is a map: its keys are distinct.\<close>

fun json_wf :: "json \<Rightarrow> bool" where
  "json_wf (JArray vs) = list_all json_wf vs"
| "json_wf (JObject kvs) = (distinct (map fst kvs) \<and> list_all (\<lambda>kv. json_wf (snd kv)) kvs)"
| "json_wf _ = True"

text \<open>
  \<^verbatim>\<open>Value::eq\<close>: arrays elementwise, objects as maps, numbers of one kind by value. A double
  is its bit pattern; the two zeros are equal, and a \<^verbatim>\<open>Value\<close> holds no NaN.
\<close>

definition negative_zero :: "64 word" where
  "negative_zero = 0x8000000000000000"

fun number_eq :: "jnumber \<Rightarrow> jnumber \<Rightarrow> bool" where
  "number_eq (PosInt m) (PosInt n) = (m = n)"
| "number_eq (NegInt i) (NegInt j) = (i = j)"
| "number_eq (Float a) (Float b) =
     (a = b \<or> a \<in> {0, negative_zero} \<and> b \<in> {0, negative_zero})"
| "number_eq _ _ = False"

fun json_eq :: "json \<Rightarrow> json \<Rightarrow> bool" where
  "json_eq (JArray vs) (JArray ws) = list_all2 json_eq vs ws"
| "json_eq (JObject kvs) (JObject lws) =
     (length kvs = length lws \<and>
      list_all (\<lambda>kv. case map_of lws (fst kv) of None \<Rightarrow> False | Some w \<Rightarrow> json_eq (snd kv) w) kvs)"
| "json_eq JNull JNull = True"
| "json_eq (JBool a) (JBool b) = (a = b)"
| "json_eq (JNumber a) (JNumber b) = number_eq a b"
| "json_eq (JString a) (JString b) = (a = b)"
| "json_eq _ _ = False"

text \<open>No negative zero, whose text differs from the zero it equals.\<close>

fun one_zero :: "json \<Rightarrow> bool" where
  "one_zero (JArray vs) = list_all one_zero vs"
| "one_zero (JObject kvs) = list_all (\<lambda>kv. one_zero (snd kv)) kvs"
| "one_zero (JNumber (Float a)) = (a \<noteq> negative_zero)"
| "one_zero _ = True"

fun json_depth :: "json \<Rightarrow> nat" where
  "json_depth (JArray vs) = Suc (foldr (\<lambda>v n. max (json_depth v) n) vs 0)"
| "json_depth (JObject kvs) = Suc (foldr (\<lambda>kv n. max (json_depth (snd kv)) n) kvs 0)"
| "json_depth _ = 1"

text \<open>No floating-point number anywhere, and integers in the ranges of u64 and i64.\<close>

fun json_integral :: "json \<Rightarrow> bool" where
  "json_integral (JArray vs) = list_all json_integral vs"
| "json_integral (JObject kvs) = list_all (\<lambda>kv. json_integral (snd kv)) kvs"
| "json_integral (JNumber (Float _)) = False"
| "json_integral (JNumber (PosInt n)) = (n < 2 ^ 64)"
| "json_integral (JNumber (NegInt i)) = (- (2 ^ 63) \<le> i \<and> i < 0)"
| "json_integral _ = True"

text \<open>
  The values whose text the decoder reads back exactly: maps with distinct keys, nesting
  below the decoder's recursion limit of 128, and integral numbers (the text of a double may
  be read back as a neighbouring double).
\<close>

definition json_plain :: "json \<Rightarrow> bool" where
  "json_plain v \<longleftrightarrow> json_wf v \<and> json_depth v < 128 \<and> json_integral v"

section \<open>Canonical values\<close>

fun canonical_value :: "json \<Rightarrow> json" where
  "canonical_value (JArray vs) = JArray (map canonical_value vs)"
| "canonical_value (JObject kvs) =
     JObject (sort_key fst (map (\<lambda>kv. (fst kv, canonical_value (snd kv))) kvs))"
| "canonical_value v = v"

lemma map_fst_sort_key [simp]: "map fst (sort_key fst xs) = sort (map fst xs)"
  for xs :: "('a::linorder \<times> 'b) list"
proof -
  have "sorted (map fst (sort_key fst xs))" by simp
  moreover have "mset (map fst (sort_key fst xs)) = mset (map fst xs)" by simp
  ultimately show ?thesis by (metis properties_for_sort)
qed

lemma map_of_sort_key:
  assumes "distinct (map fst xs)"
  shows "map_of (sort_key fst xs) = map_of (xs :: ('a::linorder \<times> 'b) list)"
proof -
  have "set (sort_key fst xs) = set xs" by simp
  moreover have "distinct (map fst (sort_key fst xs))" using assms by simp
  ultimately show ?thesis using assms by (metis map_of_inject_set)
qed

lemma sorted_assoc_unique:
  fixes xs ys :: "('a::linorder \<times> 'b) list"
  assumes "sorted (map fst xs)" "distinct (map fst xs)"
    and "sorted (map fst ys)" "distinct (map fst ys)" "map_of xs = map_of ys"
  shows "xs = ys"
proof (rule map_sorted_distinct_set_unique)
  show sets: "set xs = set ys"
    using assms(2,4,5) by (metis map_of_inject_set)
  show "inj_on fst (set xs \<union> set ys)"
    using assms(2) sets by (simp add: distinct_map)
qed (use assms in simp_all)

abbreviation canonical_entry :: "string \<times> json \<Rightarrow> string \<times> json" where
  "canonical_entry kv \<equiv> (fst kv, canonical_value (snd kv))"

lemma map_fst_canonical_entry [simp]: "map fst (map canonical_entry kvs) = map fst kvs"
  by (simp add: comp_def)

lemma map_of_canonical_entry:
  "map_of (map canonical_entry kvs) k = map_option canonical_value (map_of kvs k)"
  by (induction kvs) auto

lemma json_wf_canonical [simp]: "json_wf v \<Longrightarrow> json_wf (canonical_value v)"
  by (induction v rule: json_wf.induct) (auto simp: list_all_iff comp_def)

lemma json_integral_canonical [simp]: "json_integral (canonical_value v) = json_integral v"
  by (induction v rule: json_integral.induct) (auto simp: list_all_iff)

lemma foldr_max_le: "foldr (\<lambda>v n. max (f v) n) xs (0::nat) \<le> b \<longleftrightarrow> (\<forall>x\<in>set xs. f x \<le> b)"
  by (induction xs) auto

lemma foldr_max_set_eq:
  "set xs = set ys \<Longrightarrow> foldr (\<lambda>v n. max (f v) n) xs (0::nat) = foldr (\<lambda>v n. max (f v) n) ys 0"
  by (rule antisym) (metis foldr_max_le order_refl)+

lemma foldr_max_cong:
  "(\<And>x. x \<in> set xs \<Longrightarrow> f (g x) = h x) \<Longrightarrow>
   foldr (\<lambda>v n. max (f v) n) (map g xs) (0::nat) = foldr (\<lambda>v n. max (h v) n) xs 0"
  by (induction xs) auto

lemma json_depth_canonical [simp]: "json_depth (canonical_value v) = json_depth v"
proof (induction v rule: json_depth.induct)
  case (1 vs)
  then show ?case by (simp add: foldr_max_cong [where h = json_depth])
next
  case (2 kvs)
  have "foldr (\<lambda>kv. max (json_depth (snd kv))) (sort_key fst (map canonical_entry kvs)) 0
      = foldr (\<lambda>kv. max (json_depth (snd kv))) (map canonical_entry kvs) 0"
    by (rule foldr_max_set_eq) simp
  also have "\<dots> = foldr (\<lambda>kv. max (json_depth (snd kv))) kvs 0"
    using 2 by (intro foldr_max_cong) auto
  finally show ?case by simp
qed simp_all

lemma json_plain_canonical [simp]: "json_plain v \<Longrightarrow> json_plain (canonical_value v)"
  by (simp add: json_plain_def)

lemma json_plain_wf [simp]: "json_plain v \<Longrightarrow> json_wf v"
  by (simp add: json_plain_def)

lemma canonical_idem [simp]: "canonical_value (canonical_value v) = canonical_value v"
proof (induction v rule: canonical_value.induct)
  case (1 vs)
  then show ?case by simp
next
  case (2 kvs)
  let ?s = "sort_key fst (map canonical_entry kvs)"
  have "map canonical_entry ?s = ?s"
    by (rule map_idI) (use 2 in auto)
  then show ?case
    by (simp add: sort_key_id_if_sorted del: map_map)
qed simp_all

lemma map_of_canonical_object:
  assumes "distinct (map fst kvs)"
  shows "map_of (sort_key fst (map canonical_entry kvs)) k = map_option canonical_value (map_of kvs k)"
proof -
  have "distinct (map fst (map canonical_entry kvs))"
    using assms by (simp only: map_fst_canonical_entry)
  then show ?thesis by (simp only: map_of_sort_key map_of_canonical_entry)
qed

lemma canonical_object_eq_iff:
  assumes "distinct (map fst kvs)" "distinct (map fst lws)"
  shows "canonical_value (JObject kvs) = canonical_value (JObject lws) \<longleftrightarrow>
    (\<forall>k. map_option canonical_value (map_of kvs k) = map_option canonical_value (map_of lws k))"
    (is "_ \<longleftrightarrow> ?R")
proof
  let ?c = "\<lambda>m. sort_key fst (map canonical_entry m)"
  assume "canonical_value (JObject kvs) = canonical_value (JObject lws)"
  then have "?c kvs = ?c lws" by simp
  then show ?R using map_of_canonical_object [OF assms(1)] map_of_canonical_object [OF assms(2)]
    by (simp only:) metis
next
  let ?c = "\<lambda>m. sort_key fst (map canonical_entry m)"
  assume ?R
  then have maps: "map_of (?c kvs) = map_of (?c lws)"
    by (intro ext) (simp only: map_of_canonical_object [OF assms(1)] map_of_canonical_object [OF assms(2)])
  have "?c kvs = ?c lws"
  proof (rule sorted_assoc_unique [OF _ _ _ _ maps])
    show "distinct (map fst (?c kvs))" "distinct (map fst (?c lws))"
      using assms by (simp_all add: comp_def)
  qed simp_all
  then show "canonical_value (JObject kvs) = canonical_value (JObject lws)" by simp
qed

lemma json_eq_object_iff:
  assumes dk: "distinct (map fst kvs)" and dl: "distinct (map fst lws)"
    and IH: "\<And>k v w. map_of kvs k = Some v \<Longrightarrow> map_of lws k = Some w \<Longrightarrow>
      json_eq v w \<longleftrightarrow> canonical_value v = canonical_value w"
  shows "json_eq (JObject kvs) (JObject lws) \<longleftrightarrow>
    canonical_value (JObject kvs) = canonical_value (JObject lws)"
proof -
  let ?P = "\<lambda>k v. \<exists>w. map_of lws k = Some w \<and> canonical_value v = canonical_value w"
  have entry: "(case map_of lws k of None \<Rightarrow> False | Some w \<Rightarrow> json_eq v w) \<longleftrightarrow> ?P k v"
    if "map_of kvs k = Some v" for k v
    using IH [OF that] by (cases "map_of lws k") simp_all
  have sub: "list_all (\<lambda>kv. case map_of lws (fst kv) of None \<Rightarrow> False | Some w \<Rightarrow> json_eq (snd kv) w) kvs
    \<longleftrightarrow> (\<forall>k v. map_of kvs k = Some v \<longrightarrow> ?P k v)"
  proof -
    have "(\<forall>kv\<in>set kvs. case map_of lws (fst kv) of None \<Rightarrow> False | Some w \<Rightarrow> json_eq (snd kv) w)
      \<longleftrightarrow> (\<forall>k v. map_of kvs k = Some v \<longrightarrow>
            (case map_of lws k of None \<Rightarrow> False | Some w \<Rightarrow> json_eq v w))"
      by (simp add: map_of_eq_Some_iff [OF dk] Ball_def split_paired_All cong: option.case_cong)
    then show ?thesis using entry by (simp add: list_all_iff)
  qed
  have cards: "card (dom (map_of kvs)) = length kvs" "card (dom (map_of lws)) = length lws"
    using dk dl by (metis dom_map_of_conv_image_fst distinct_card length_map set_map)+
  have "length kvs = length lws \<and> (\<forall>k v. map_of kvs k = Some v \<longrightarrow> ?P k v) \<longleftrightarrow>
    (\<forall>k. map_option canonical_value (map_of kvs k) = map_option canonical_value (map_of lws k))"
    (is "?len \<and> ?all \<longleftrightarrow> ?Q")
  proof
    assume lp: "?len \<and> ?all"
    then have "dom (map_of kvs) \<subseteq> dom (map_of lws)" by fastforce
    then have dom: "dom (map_of kvs) = dom (map_of lws)"
      using lp cards by (metis card_subset_eq finite_dom_map_of)
    show ?Q
    proof
      fix k
      show "map_option canonical_value (map_of kvs k) = map_option canonical_value (map_of lws k)"
      proof (cases "map_of kvs k")
        case None
        then have "map_of lws k = None" using dom by (metis domIff)
        with None show ?thesis by simp
      next
        case (Some v)
        then have "?P k v" using lp by blast
        with Some show ?thesis by auto
      qed
    qed
  next
    assume q: ?Q
    have "map_of kvs k = None \<longleftrightarrow> map_of lws k = None" for k
      using spec [OF q, of k] by (cases "map_of kvs k"; cases "map_of lws k") simp_all
    then have "dom (map_of kvs) = dom (map_of lws)" by (auto simp: dom_def)
    then have ?len using cards by simp
    moreover have "?P k v" if "map_of kvs k = Some v" for k v
      using spec [OF q, of k] that by (cases "map_of lws k") simp_all
    ultimately show "?len \<and> ?all" by blast
  qed
  then show ?thesis using sub canonical_object_eq_iff [OF dk dl] by simp
qed

lemma number_eq_iff:
  "one_zero (JNumber a) \<Longrightarrow> one_zero (JNumber b) \<Longrightarrow> number_eq a b \<longleftrightarrow> a = b"
  by (cases a; cases b) auto

lemma json_eq_iff_canonical:
  assumes "json_wf a" "json_wf b" "one_zero a" "one_zero b"
  shows "json_eq a b \<longleftrightarrow> canonical_value a = canonical_value b"
  using assms
proof (induction a b rule: json_eq.induct)
  case (1 vs ws)
  then show ?case
    by (auto simp: list_all_iff list_all2_conv_all_nth list_eq_iff_nth_eq)
next
  case (2 kvs lws)
  show ?case
  proof (rule json_eq_object_iff)
    fix k v w
    assume kv: "map_of kvs k = Some v" "map_of lws k = Some w"
    then have "(k, v) \<in> set kvs" "(k, w) \<in> set lws" by (auto dest: map_of_SomeD)
    with 2 kv show "json_eq v w \<longleftrightarrow> canonical_value v = canonical_value w"
      by (force simp: list_all_iff)
  qed (use 2 in auto)
qed (auto simp: number_eq_iff split: json.splits)

lemma json_integral_one_zero: "json_integral v \<Longrightarrow> one_zero v"
  by (induction v rule: json_integral.induct) (auto simp: list_all_iff)

lemma json_eq_canonical:
  assumes "json_plain v" shows "json_eq (canonical_value v) v"
proof -
  have "one_zero v" "one_zero (canonical_value v)"
    using assms json_integral_one_zero by (auto simp: json_plain_def)
  then show ?thesis using assms json_eq_iff_canonical [of "canonical_value v" v] by simp
qed

text \<open>
  Canonicalisation decides map equality: two values with distinct object keys (and no
  negative zero) are equal as maps exactly when their canonical forms are the same value, so
  semantically identical requests are encoded, and hashed, identically, and different ones
  are not identified.
\<close>

theorem canonical_value_decides_equality:
  assumes "json_wf a" and "json_wf b" and "one_zero a" and "one_zero b"
  shows "json_eq a b \<longleftrightarrow> canonical_value a = canonical_value b"
  by (rule json_eq_iff_canonical [OF assms])

theorem canonical_value_decides_equality_witness:
  "json_eq (JObject [(''b'', JNull), (''a'', JBool True)]) (JObject [(''a'', JBool True), (''b'', JNull)])
   \<and> canonical_value (JObject [(''b'', JNull), (''a'', JBool True)])
     = canonical_value (JObject [(''a'', JBool True), (''b'', JNull)])"
proof -
  let ?a = "JObject [(''b'', JNull), (''a'', JBool True)]"
    and ?b = "JObject [(''a'', JBool True), (''b'', JNull)]"
  have "json_wf ?a" "json_wf ?b" "one_zero ?a" "one_zero ?b" "json_eq ?a ?b" by simp_all
  then show ?thesis using canonical_value_decides_equality [of ?a ?b] by blast
qed

section \<open>The third-party environment\<close>

text \<open>
  The crates the ledger calls: the compact JSON writer and reader of \<^verbatim>\<open>serde_json\<close>,
  \<^verbatim>\<open>Sha256::digest\<close>, \<^verbatim>\<open>Uuid::to_string\<close> and \<^verbatim>\<open>Uuid::parse_str\<close>,
  \<^verbatim>\<open>DateTime::to_rfc3339_opts(Nanos, true)\<close> and \<^verbatim>\<open>DateTime::parse_from_rfc3339\<close>, and
  SQLite's \<^verbatim>\<open>json_valid\<close>.
\<close>

record env =
  to_json_string :: "json \<Rightarrow> string"
  from_json_str :: "string \<Rightarrow> json option"
  sha256_digest :: "string \<Rightarrow> u8 list"
  uuid_to_string :: "uuid \<Rightarrow> string"
  uuid_parse_str :: "string \<Rightarrow> uuid option"
  to_rfc3339_nanos :: "datetime \<Rightarrow> string"
  parse_from_rfc3339 :: "string \<Rightarrow> datetime option"
  sqlite_json_valid :: "string \<Rightarrow> bool"

text \<open>
  RFC 3339 has four-digit years: the instants of the years 0 to 9999 are the ones whose text
  the parser accepts, and the fixed width makes their texts sort chronologically.
\<close>

definition rfc3339_range :: "datetime \<Rightarrow> bool" where
  "rfc3339_range t \<longleftrightarrow> - 62167219200000000000 \<le> t \<and> t < 253402300800000000000"

definition json_laws :: "env \<Rightarrow> bool" where
  "json_laws E \<longleftrightarrow>
     (\<forall>v. json_plain v \<longrightarrow> from_json_str E (to_json_string E v) = Some v) \<and>
     (\<forall>s v. from_json_str E s = Some v \<longrightarrow> json_wf v) \<and>
     (\<forall>v. sqlite_json_valid E (to_json_string E v))"

definition uuid_laws :: "env \<Rightarrow> bool" where
  "uuid_laws E \<longleftrightarrow> (\<forall>u. uuid_parse_str E (uuid_to_string E u) = Some u)"

definition time_laws :: "env \<Rightarrow> bool" where
  "time_laws E \<longleftrightarrow>
     (\<forall>t. rfc3339_range t \<longrightarrow> parse_from_rfc3339 E (to_rfc3339_nanos E t) = Some t) \<and>
     (\<forall>s t. rfc3339_range s \<longrightarrow> rfc3339_range t \<longrightarrow>
        (to_rfc3339_nanos E s < to_rfc3339_nanos E t \<longleftrightarrow> s < t))"

definition sha_laws :: "env \<Rightarrow> bool" where
  "sha_laws E \<longleftrightarrow> (\<forall>s. length (sha256_digest E s) = 32)"

definition env_ok :: "env \<Rightarrow> bool" where
  "env_ok E \<longleftrightarrow> json_laws E \<and> uuid_laws E \<and> time_laws E \<and> sha_laws E"

lemma env_ok_json [simp]: "env_ok E \<Longrightarrow> json_plain v \<Longrightarrow> from_json_str E (to_json_string E v) = Some v"
  by (simp add: env_ok_def json_laws_def)

lemma env_ok_uuid [simp]: "env_ok E \<Longrightarrow> uuid_parse_str E (uuid_to_string E u) = Some u"
  by (simp add: env_ok_def uuid_laws_def)

lemma env_ok_time [simp]:
  "env_ok E \<Longrightarrow> rfc3339_range t \<Longrightarrow> parse_from_rfc3339 E (to_rfc3339_nanos E t) = Some t"
  by (simp add: env_ok_def time_laws_def)

lemma env_ok_time_less:
  "env_ok E \<Longrightarrow> rfc3339_range s \<Longrightarrow> rfc3339_range t \<Longrightarrow>
   to_rfc3339_nanos E s < to_rfc3339_nanos E t \<longleftrightarrow> s < t"
  by (simp add: env_ok_def time_laws_def)

lemma env_ok_wf: "env_ok E \<Longrightarrow> from_json_str E s = Some v \<Longrightarrow> json_wf v"
  by (auto simp: env_ok_def json_laws_def)

lemma env_ok_uuid_inject [simp]:
  "env_ok E \<Longrightarrow> uuid_to_string E u = uuid_to_string E v \<longleftrightarrow> u = v"
  by (metis env_ok_uuid option.inject)

lemma env_ok_plain_inject:
  "env_ok E \<Longrightarrow> json_plain v \<Longrightarrow> json_plain w \<Longrightarrow>
   to_json_string E v = to_json_string E w \<longleftrightarrow> v = w"
  by (metis env_ok_json option.inject)

section \<open>Canonical JSON text and its digest\<close>

text \<open>The lower-case SHA-256 of the bytes of a string.\<close>

definition sha256_hex :: "env \<Rightarrow> string \<Rightarrow> string" where
  "sha256_hex E s = lower_hex (sha256_digest E s)"

lemma length_sha256_hex [simp]: "env_ok E \<Longrightarrow> length (sha256_hex E s) = 64"
  by (simp add: sha256_hex_def env_ok_def sha_laws_def)

record canonical_json_value =
  cj_json :: string
  cj_sha256 :: string

text \<open>\<^verbatim>\<open>serde_json::to_string\<close> cannot fail on a \<^verbatim>\<open>Value\<close>: its keys are strings.\<close>

definition canonical_from_value :: "env \<Rightarrow> json \<Rightarrow> canonical_json_value" where
  "canonical_from_value E v =
     (let json = to_json_string E (canonical_value v)
      in \<lparr>cj_json = json, cj_sha256 = sha256_hex E json\<rparr>)"

definition err_json :: app_error where
  "err_json = Serialization ''invalid JSON''"

definition err_payload_integrity :: app_error where
  "err_payload_integrity = Config ''stored operation payload failed canonical integrity validation''"

definition parse_json :: "env \<Rightarrow> string \<Rightarrow> json app_result" where
  "parse_json E s = ok_or (from_json_str E s) err_json"

definition canonical_from_stored :: "env \<Rightarrow> string \<Rightarrow> string \<Rightarrow> canonical_json_value app_result" where
  "canonical_from_stored E json expected_sha256 =
     rbind (parse_json E json) (\<lambda>value.
       let canonical = canonical_from_value E value
       in if cj_json canonical \<noteq> json \<or> cj_sha256 canonical \<noteq> expected_sha256
          then Inl err_payload_integrity
          else Inr canonical)"

definition canonical_into_value :: "env \<Rightarrow> canonical_json_value \<Rightarrow> json app_result" where
  "canonical_into_value E c = parse_json E (cj_json c)"

definition canonical_json :: "env \<Rightarrow> json \<Rightarrow> string" where
  "canonical_json E v = cj_json (canonical_from_value E v)"

definition canonical_hash :: "env \<Rightarrow> json \<Rightarrow> string" where
  "canonical_hash E v = cj_sha256 (canonical_from_value E v)"

lemma canonical_json_eq: "canonical_json E v = to_json_string E (canonical_value v)"
  by (simp add: canonical_json_def canonical_from_value_def Let_def)

lemma canonical_hash_eq: "canonical_hash E v = sha256_hex E (canonical_json E v)"
  by (simp add: canonical_json_def canonical_hash_def canonical_from_value_def Let_def)

lemma parse_json_Inr [simp]: "parse_json E s = Inr v \<longleftrightarrow> from_json_str E s = Some v"
  by (simp add: parse_json_def)

lemma canonical_from_stored_Inr:
  "canonical_from_stored E json h = Inr c \<longleftrightarrow>
     (\<exists>v. from_json_str E json = Some v \<and> c = canonical_from_value E v \<and>
          json = canonical_json E v \<and> h = sha256_hex E json)"
  by (auto simp: canonical_from_stored_def rbind_eq_Inr Let_def canonical_json_eq
      canonical_from_value_def)

lemma canonical_stored_value:
  "canonical_from_stored E json h = Inr c \<Longrightarrow> canonical_into_value E c = Inr v \<Longrightarrow>
   from_json_str E json = Some v \<and> json = canonical_json E v \<and> h = sha256_hex E json"
  by (auto simp: canonical_from_stored_Inr canonical_into_value_def canonical_from_value_def
      canonical_json_eq Let_def)

end
