(* ===== verification/Operation_Model.thy ===== *)
theory Operation_Model
  imports Json Operation_State
begin

text \<open>
  The durable operation models of \<^verbatim>\<open>src/src-tauri/src/operations/model.rs\<close>, the SQLite
  rows of \<^verbatim>\<open>src/src-tauri/src/store/migrations.rs\<close> that hold them, with their CHECK
  constraints and triggers, and the row readers and validators of
  \<^verbatim>\<open>src/src-tauri/src/operations/repository.rs\<close>. A row holds text and integer columns; a
  record holds the parsed values. Field names carry a prefix per record, since Isabelle's
  selectors are global: \<open>n_\<close> new operation, \<open>o_\<close> operation record, \<open>ev_\<close> event
  record, \<open>ap_\<close> approval record, and \<open>r_\<close>, \<open>er_\<close>, \<open>ar_\<close> for their rows.
\<close>

section \<open>Records\<close>

record actor_provenance =
  local_account_id :: "string option"
  workspace_account_id :: "string option"
  agent_provider :: "string option"
  agent_model :: "string option"
  plugin_id :: "string option"
  plugin_version :: "string option"
  client_protocol_version :: "nat option"
  origin_surface :: string

record operation_actor =
  actor_kind :: actor_kind
  actor_id :: string
  actor_provenance :: actor_provenance

record new_operation =
  n_id :: uuid
  n_workspace_id :: uuid
  n_account_scope :: string
  n_connection_id :: uuid
  n_connection_revision :: int
  n_terminal_session_id :: "uuid option"
  n_actor :: operation_actor
  n_kind :: operation_kind
  n_payload_schema_version :: nat
  n_payload :: json
  n_schema_fingerprint :: "string option"
  n_risk_level :: op_risk_level
  n_preview :: json
  n_policy_snapshot :: json
  n_policy_revision :: string
  n_single_use :: bool
  n_idempotency_key :: string
  n_expires_at :: "datetime option"

record operation_approver =
  approver_kind :: actor_kind
  approver_id :: string

record approval_command =
  c_operation_id :: uuid
  c_runtime_id :: uuid
  c_expected_payload_hash :: string
  c_approver :: operation_approver
  c_decision :: approval_decision
  c_reason :: "string option"
  c_current_policy_revision :: string
  c_now :: datetime

record approval_record =
  ap_id :: uuid
  ap_operation_id :: uuid
  ap_payload_hash :: string
  ap_approver :: operation_approver
  ap_decision :: approval_decision
  ap_reason :: "string option"
  ap_policy_revision :: string
  ap_created_at :: datetime
  ap_expires_at :: "datetime option"

record operation_record =
  o_id :: uuid
  o_runtime_id :: uuid
  o_workspace_id :: uuid
  o_account_scope :: string
  o_connection_id :: uuid
  o_connection_revision :: int
  o_terminal_session_id :: "uuid option"
  o_actor :: operation_actor
  o_kind :: operation_kind
  o_payload_schema_version :: nat
  o_payload :: json
  o_payload_hash :: string
  o_schema_fingerprint :: "string option"
  o_risk_level :: op_risk_level
  o_preview :: json
  o_policy_snapshot :: json
  o_policy_revision :: string
  o_state :: operation_state
  o_single_use :: bool
  o_idempotency_key :: string
  o_expires_at :: "datetime option"
  o_started_at :: "datetime option"
  o_finished_at :: "datetime option"
  o_created_at :: datetime
  o_updated_at :: datetime

record event_record =
  ev_id :: uuid
  ev_operation_id :: uuid
  ev_sequence :: int
  ev_kind :: event_kind
  ev_state :: operation_state
  ev_details :: json
  ev_created_at :: datetime
  ev_prev_hash :: "string option"
  ev_hash :: string

record recovery_report =
  rr_expired :: "uuid list"
  rr_failed :: "uuid list"
  rr_outcome_unknown :: "uuid list"
  rr_checkpoint_validation_required :: "uuid list"

definition empty_report :: recovery_report where
  "empty_report = \<lparr>rr_expired = [], rr_failed = [], rr_outcome_unknown = [],
     rr_checkpoint_validation_required = []\<rparr>"

section \<open>Tables\<close>

record operation_row =
  r_id :: string
  r_runtime_id :: string
  r_workspace_id :: string
  r_account_scope :: string
  r_connection_id :: string
  r_connection_revision :: int
  r_terminal_session_id :: "string option"
  r_actor_kind :: string
  r_actor_id :: string
  r_actor_provenance_json :: string
  r_operation_kind :: string
  r_payload_schema_version :: int
  r_payload_json :: string
  r_payload_hash :: string
  r_schema_fingerprint :: "string option"
  r_risk_level :: string
  r_preview_json :: string
  r_policy_snapshot_json :: string
  r_policy_revision :: string
  r_state :: string
  r_single_use :: int
  r_idempotency_key :: string
  r_expires_at :: "string option"
  r_started_at :: "string option"
  r_finished_at :: "string option"
  r_created_at :: string
  r_updated_at :: string

record approval_row =
  ar_id :: string
  ar_operation_id :: string
  ar_payload_hash :: string
  ar_approver_kind :: string
  ar_approver_id :: string
  ar_decision :: string
  ar_reason :: "string option"
  ar_policy_revision :: string
  ar_created_at :: string
  ar_expires_at :: "string option"

record event_row =
  er_id :: string
  er_operation_id :: string
  er_sequence :: int
  er_event_kind :: string
  er_state :: string
  er_event_json :: string
  er_created_at :: string
  er_prev_hash :: "string option"
  er_hash :: string

record ledger =
  db_operations :: "operation_row list"
  db_approvals :: "approval_row list"
  db_events :: "event_row list"

definition empty_ledger :: ledger where
  "empty_ledger = \<lparr>db_operations = [], db_approvals = [], db_events = []\<rparr>"

text \<open>\<^verbatim>\<open>length(x) = 64 AND x NOT GLOB '*[^0-9a-f]*'\<close>\<close>

definition hex64 :: "string \<Rightarrow> bool" where
  "hex64 s \<longleftrightarrow> length s = 64 \<and> list_all (\<lambda>c. c \<in> set ''0123456789abcdef'') s"

text \<open>The CHECK constraints of table \<^verbatim>\<open>operations\<close>.\<close>

definition operation_row_checks :: "env \<Rightarrow> operation_row \<Rightarrow> bool" where
  "operation_row_checks E r \<longleftrightarrow>
     parse_actor_kind (r_actor_kind r) \<noteq> None \<and>
     r_actor_id r \<noteq> '''' \<and>
     sqlite_json_valid E (r_actor_provenance_json r) \<and>
     parse_operation_kind (r_operation_kind r) \<noteq> None \<and>
     0 < r_payload_schema_version r \<and>
     sqlite_json_valid E (r_payload_json r) \<and>
     hex64 (r_payload_hash r) \<and>
     (case r_schema_fingerprint r of None \<Rightarrow> True | Some f \<Rightarrow> hex64 f) \<and>
     parse_risk_level (r_risk_level r) \<noteq> None \<and>
     sqlite_json_valid E (r_preview_json r) \<and>
     sqlite_json_valid E (r_policy_snapshot_json r) \<and>
     r_policy_revision r \<noteq> '''' \<and>
     parse_state (r_state r) \<noteq> None \<and>
     r_single_use r \<in> {0, 1} \<and>
     r_idempotency_key r \<noteq> ''''"

text \<open>The unique index \<^verbatim>\<open>idx_operations_idempotency\<close>.\<close>

definition idempotency_index :: "operation_row \<Rightarrow> string \<times> string \<times> string \<times> string" where
  "idempotency_index r =
     (r_workspace_id r, r_actor_kind r, r_actor_id r, r_idempotency_key r)"

text \<open>
  The condition of trigger \<^verbatim>\<open>operations_reject_immutable_update\<close>: some column other than
  the state, the primary key and the lifecycle timestamps differs.
\<close>

definition immutable_columns_differ :: "operation_row \<Rightarrow> operation_row \<Rightarrow> bool" where
  "immutable_columns_differ old new \<longleftrightarrow>
     r_runtime_id old \<noteq> r_runtime_id new \<or>
     r_workspace_id old \<noteq> r_workspace_id new \<or>
     r_account_scope old \<noteq> r_account_scope new \<or>
     r_connection_id old \<noteq> r_connection_id new \<or>
     r_connection_revision old \<noteq> r_connection_revision new \<or>
     r_terminal_session_id old \<noteq> r_terminal_session_id new \<or>
     r_actor_kind old \<noteq> r_actor_kind new \<or>
     r_actor_id old \<noteq> r_actor_id new \<or>
     r_actor_provenance_json old \<noteq> r_actor_provenance_json new \<or>
     r_operation_kind old \<noteq> r_operation_kind new \<or>
     r_payload_schema_version old \<noteq> r_payload_schema_version new \<or>
     r_payload_json old \<noteq> r_payload_json new \<or>
     r_payload_hash old \<noteq> r_payload_hash new \<or>
     r_schema_fingerprint old \<noteq> r_schema_fingerprint new \<or>
     r_risk_level old \<noteq> r_risk_level new \<or>
     r_preview_json old \<noteq> r_preview_json new \<or>
     r_policy_snapshot_json old \<noteq> r_policy_snapshot_json new \<or>
     r_policy_revision old \<noteq> r_policy_revision new \<or>
     r_single_use old \<noteq> r_single_use new \<or>
     r_idempotency_key old \<noteq> r_idempotency_key new \<or>
     r_expires_at old \<noteq> r_expires_at new \<or>
     r_created_at old \<noteq> r_created_at new"

definition approval_row_checks :: "approval_row \<Rightarrow> bool" where
  "approval_row_checks r \<longleftrightarrow>
     hex64 (ar_payload_hash r) \<and>
     ar_approver_kind r \<in> {''local_user'', ''workspace_user''} \<and>
     ar_approver_id r \<noteq> '''' \<and>
     ar_decision r \<in> {''approved'', ''rejected''} \<and>
     ar_policy_revision r \<noteq> ''''"

definition event_row_checks :: "env \<Rightarrow> event_row \<Rightarrow> bool" where
  "event_row_checks E r \<longleftrightarrow>
     0 < er_sequence r \<and>
     parse_event_kind (er_event_kind r) \<noteq> None \<and>
     parse_state (er_state r) \<noteq> None \<and>
     sqlite_json_valid E (er_event_json r) \<and>
     (case er_prev_hash r of None \<Rightarrow> True | Some h \<Rightarrow> hex64 h) \<and>
     hex64 (er_hash r)"

definition err_constraint :: app_error where
  "err_constraint = Db ''constraint failed''"

text \<open>INSERT into each table: the CHECK, UNIQUE and foreign-key constraints decide.\<close>

definition insert_operation_row :: "env \<Rightarrow> operation_row \<Rightarrow> ledger \<Rightarrow> ledger app_result" where
  "insert_operation_row E r db =
     (if operation_row_checks E r \<and>
         r_id r \<notin> set (map r_id (db_operations db)) \<and>
         idempotency_index r \<notin> set (map idempotency_index (db_operations db))
      then Inr (db\<lparr>db_operations := db_operations db @ [r]\<rparr>)
      else Inl err_constraint)"

definition insert_approval_row :: "approval_row \<Rightarrow> ledger \<Rightarrow> ledger app_result" where
  "insert_approval_row r db =
     (if approval_row_checks r \<and>
         ar_id r \<notin> set (map ar_id (db_approvals db)) \<and>
         ar_operation_id r \<in> set (map r_id (db_operations db))
      then Inr (db\<lparr>db_approvals := db_approvals db @ [r]\<rparr>)
      else Inl err_constraint)"

definition insert_event_row :: "env \<Rightarrow> event_row \<Rightarrow> ledger \<Rightarrow> ledger app_result" where
  "insert_event_row E r db =
     (if event_row_checks E r \<and>
         er_id r \<notin> set (map er_id (db_events db)) \<and>
         er_operation_id r \<in> set (map r_id (db_operations db)) \<and>
         (er_operation_id r, er_sequence r)
           \<notin> set (map (\<lambda>e. (er_operation_id e, er_sequence e)) (db_events db))
      then Inr (db\<lparr>db_events := db_events db @ [r]\<rparr>)
      else Inl err_constraint)"

section \<open>The provenance encoding\<close>

text \<open>
  \<^verbatim>\<open>OperationActorProvenance\<close> derives its serde encoding: camelCase names in declaration
  order, absent options skipped.
\<close>

definition opt_field :: "string \<Rightarrow> string option \<Rightarrow> (string \<times> json) list" where
  "opt_field k v = (case v of None \<Rightarrow> [] | Some s \<Rightarrow> [(k, JString s)])"

definition provenance_entries :: "actor_provenance \<Rightarrow> (string \<times> json) list" where
  "provenance_entries p =
     (opt_field ''localAccountId'' (local_account_id p) @
      opt_field ''workspaceAccountId'' (workspace_account_id p) @
      opt_field ''agentProvider'' (agent_provider p) @
      opt_field ''agentModel'' (agent_model p) @
      opt_field ''pluginId'' (plugin_id p) @
      opt_field ''pluginVersion'' (plugin_version p) @
      (case client_protocol_version p of None \<Rightarrow> []
       | Some n \<Rightarrow> [(''clientProtocolVersion'', JNumber (PosInt n))]) @
      [(''originSurface'', JString (origin_surface p))])"

definition provenance_to_value :: "actor_provenance \<Rightarrow> json" where
  "provenance_to_value p = JObject (provenance_entries p)"

definition provenance_fields :: "string list" where
  "provenance_fields =
     [''localAccountId'', ''workspaceAccountId'', ''agentProvider'', ''agentModel'',
      ''pluginId'', ''pluginVersion'', ''clientProtocolVersion'', ''originSurface'']"

fun opt_string_of :: "json \<Rightarrow> string option app_result" where
  "opt_string_of JNull = Inr None"
| "opt_string_of (JString s) = Inr (Some s)"
| "opt_string_of _ = Inl err_json"

fun opt_u16_of :: "json \<Rightarrow> nat option app_result" where
  "opt_u16_of JNull = Inr None"
| "opt_u16_of (JNumber (PosInt n)) = (if n < 65536 then Inr (Some n) else Inl err_json)"
| "opt_u16_of _ = Inl err_json"

fun string_of :: "json \<Rightarrow> string app_result" where
  "string_of (JString s) = Inr s"
| "string_of _ = Inl err_json"

definition provenance_of_values ::
  "json \<Rightarrow> json \<Rightarrow> json \<Rightarrow> json \<Rightarrow> json \<Rightarrow> json \<Rightarrow> json \<Rightarrow> json \<Rightarrow> actor_provenance app_result" where
  "provenance_of_values a b c d e f g h =
     rbind (opt_string_of a) (\<lambda>la.
     rbind (opt_string_of b) (\<lambda>wa.
     rbind (opt_string_of c) (\<lambda>ap.
     rbind (opt_string_of d) (\<lambda>am.
     rbind (opt_string_of e) (\<lambda>pi.
     rbind (opt_string_of f) (\<lambda>pv.
     rbind (opt_u16_of g) (\<lambda>cp.
     rbind (string_of h) (\<lambda>os.
     Inr \<lparr>local_account_id = la, workspace_account_id = wa, agent_provider = ap,
          agent_model = am, plugin_id = pi, plugin_version = pv,
          client_protocol_version = cp, origin_surface = os\<rparr>))))))))"

text \<open>
  The derived decoder accepts the object form, where unknown names are denied and absent
  options read as null, and serde's sequence form with all eight fields in order.
\<close>

fun provenance_from_value :: "json \<Rightarrow> actor_provenance app_result" where
  "provenance_from_value (JObject kvs) =
     (let get = (\<lambda>k. case map_of kvs k of None \<Rightarrow> JNull | Some v \<Rightarrow> v)
      in if list_all (\<lambda>kv. fst kv \<in> set provenance_fields) kvs
         then provenance_of_values (get ''localAccountId'') (get ''workspaceAccountId'')
                (get ''agentProvider'') (get ''agentModel'') (get ''pluginId'')
                (get ''pluginVersion'') (get ''clientProtocolVersion'') (get ''originSurface'')
         else Inl err_json)"
| "provenance_from_value (JArray [a, b, c, d, e, f, g, h]) = provenance_of_values a b c d e f g h"
| "provenance_from_value _ = Inl err_json"

section \<open>Reading rows\<close>

definition err_not_canonical :: app_error where
  "err_not_canonical = Config ''stored operation JSON is not canonical''"

definition parse_canonical_json :: "env \<Rightarrow> string \<Rightarrow> json app_result" where
  "parse_canonical_json E json =
     rbind (parse_json E json) (\<lambda>v.
       if canonical_json E v \<noteq> json then Inl err_not_canonical else Inr v)"

definition err_field :: "string \<Rightarrow> app_error" where
  "err_field f = Config (''invalid '' @ f)"

definition parse_uuid :: "env \<Rightarrow> string \<Rightarrow> string \<Rightarrow> uuid app_result" where
  "parse_uuid E v f = ok_or (uuid_parse_str E v) (err_field f)"

definition parse_bool :: "int \<Rightarrow> string \<Rightarrow> bool app_result" where
  "parse_bool v f = (if v = 0 then Inr False else if v = 1 then Inr True else Inl (err_field f))"

definition parse_timestamp :: "env \<Rightarrow> string \<Rightarrow> string \<Rightarrow> datetime app_result" where
  "parse_timestamp E v f = ok_or (parse_from_rfc3339 E v) (err_field f)"

definition parse_optional_timestamp ::
  "env \<Rightarrow> string option \<Rightarrow> string \<Rightarrow> datetime option app_result" where
  "parse_optional_timestamp E v f = transpose_opt (\<lambda>s. parse_timestamp E s f) v"

text \<open>\<^verbatim>\<open>u32::try_from\<close> of an i64 column\<close>

definition u32_of_i64 :: "int \<Rightarrow> nat option" where
  "u32_of_i64 v = (if 0 \<le> v \<and> v < 2 ^ 32 then Some (nat v) else None)"

definition row_to_operation :: "env \<Rightarrow> operation_row \<Rightarrow> operation_record app_result" where
  "row_to_operation E row =
     rbind (canonical_from_stored E (r_payload_json row) (r_payload_hash row)) (\<lambda>cj.
     rbind (canonical_into_value E cj) (\<lambda>payload.
     rbind (parse_canonical_json E (r_actor_provenance_json row)) (\<lambda>provenance_value.
     rbind (provenance_from_value provenance_value) (\<lambda>provenance.
     rbind (parse_canonical_json E (r_preview_json row)) (\<lambda>preview.
     rbind (parse_canonical_json E (r_policy_snapshot_json row)) (\<lambda>policy_snapshot.
     rbind (parse_uuid E (r_id row) ''operation id'') (\<lambda>id.
     rbind (parse_uuid E (r_runtime_id row) ''operation runtime id'') (\<lambda>runtime_id.
     rbind (parse_uuid E (r_workspace_id row) ''operation workspace id'') (\<lambda>workspace_id.
     rbind (parse_uuid E (r_connection_id row) ''operation connection id'') (\<lambda>connection_id.
     rbind (transpose_opt (\<lambda>v. parse_uuid E v ''operation terminal session id'')
              (r_terminal_session_id row)) (\<lambda>terminal_session_id.
     rbind (ok_or (parse_actor_kind (r_actor_kind row)) (err_field ''actor kind'')) (\<lambda>actor_kind.
     rbind (ok_or (parse_operation_kind (r_operation_kind row)) (err_field ''kind'')) (\<lambda>kind.
     rbind (ok_or (u32_of_i64 (r_payload_schema_version row))
              (err_field ''payload schema version'')) (\<lambda>payload_schema_version.
     rbind (ok_or (parse_risk_level (r_risk_level row)) (err_field ''risk level'')) (\<lambda>risk_level.
     rbind (ok_or (parse_state (r_state row)) (err_field ''state'')) (\<lambda>state.
     rbind (parse_bool (r_single_use row) ''operation single_use'') (\<lambda>single_use.
     rbind (parse_optional_timestamp E (r_expires_at row) ''operation expiry'') (\<lambda>expires_at.
     rbind (parse_optional_timestamp E (r_started_at row) ''operation start'') (\<lambda>started_at.
     rbind (parse_optional_timestamp E (r_finished_at row) ''operation finish'') (\<lambda>finished_at.
     rbind (parse_timestamp E (r_created_at row) ''operation creation'') (\<lambda>created_at.
     rbind (parse_timestamp E (r_updated_at row) ''operation update'') (\<lambda>updated_at.
     Inr \<lparr>o_id = id, o_runtime_id = runtime_id, o_workspace_id = workspace_id,
          o_account_scope = r_account_scope row, o_connection_id = connection_id,
          o_connection_revision = r_connection_revision row,
          o_terminal_session_id = terminal_session_id,
          o_actor = \<lparr>actor_kind = actor_kind, actor_id = r_actor_id row,
                     actor_provenance = provenance\<rparr>,
          o_kind = kind, o_payload_schema_version = payload_schema_version,
          o_payload = payload, o_payload_hash = r_payload_hash row,
          o_schema_fingerprint = r_schema_fingerprint row, o_risk_level = risk_level,
          o_preview = preview, o_policy_snapshot = policy_snapshot,
          o_policy_revision = r_policy_revision row, o_state = state,
          o_single_use = single_use, o_idempotency_key = r_idempotency_key row,
          o_expires_at = expires_at, o_started_at = started_at, o_finished_at = finished_at,
          o_created_at = created_at, o_updated_at = updated_at\<rparr>))))))))))))))))))))))"

definition row_to_approval :: "env \<Rightarrow> approval_row \<Rightarrow> approval_record app_result" where
  "row_to_approval E row =
     rbind (parse_uuid E (ar_id row) ''operation approval id'') (\<lambda>id.
     rbind (parse_uuid E (ar_operation_id row) ''operation approval operation id'') (\<lambda>operation_id.
     rbind (ok_or (parse_actor_kind (ar_approver_kind row)) (err_field ''approver kind'')) (\<lambda>kind.
     rbind (ok_or (parse_approval_decision (ar_decision row)) (err_field ''decision'')) (\<lambda>decision.
     rbind (parse_timestamp E (ar_created_at row) ''operation approval creation'') (\<lambda>created_at.
     rbind (parse_optional_timestamp E (ar_expires_at row) ''operation approval expiry'') (\<lambda>expires_at.
     Inr \<lparr>ap_id = id, ap_operation_id = operation_id, ap_payload_hash = ar_payload_hash row,
          ap_approver = \<lparr>approver_kind = kind, approver_id = ar_approver_id row\<rparr>,
          ap_decision = decision, ap_reason = ar_reason row,
          ap_policy_revision = ar_policy_revision row,
          ap_created_at = created_at, ap_expires_at = expires_at\<rparr>))))))"

definition row_to_event :: "env \<Rightarrow> event_row \<Rightarrow> event_record app_result" where
  "row_to_event E row =
     rbind (parse_uuid E (er_id row) ''operation event id'') (\<lambda>id.
     rbind (parse_uuid E (er_operation_id row) ''operation event operation id'') (\<lambda>operation_id.
     rbind (ok_or (parse_event_kind (er_event_kind row)) (err_field ''event kind'')) (\<lambda>kind.
     rbind (ok_or (parse_state (er_state row)) (err_field ''event state'')) (\<lambda>state.
     rbind (parse_canonical_json E (er_event_json row)) (\<lambda>details.
     rbind (parse_timestamp E (er_created_at row) ''operation event creation'') (\<lambda>created_at.
     Inr \<lparr>ev_id = id, ev_operation_id = operation_id, ev_sequence = er_sequence row,
          ev_kind = kind, ev_state = state, ev_details = details, ev_created_at = created_at,
          ev_prev_hash = er_prev_hash row, ev_hash = er_hash row\<rparr>))))))"

subsection \<open>What a successful read says\<close>

lemma parse_canonical_json_Inr [result_simps]:
  "parse_canonical_json E json = Inr v \<longleftrightarrow> from_json_str E json = Some v \<and> canonical_json E v = json"
  by (auto simp: parse_canonical_json_def rbind_eq_Inr)

lemma parse_uuid_Inr [simp, result_simps]: "parse_uuid E v f = Inr u \<longleftrightarrow> uuid_parse_str E v = Some u"
  by (simp add: parse_uuid_def)

lemma parse_timestamp_Inr [simp, result_simps]:
  "parse_timestamp E v f = Inr t \<longleftrightarrow> parse_from_rfc3339 E v = Some t"
  by (simp add: parse_timestamp_def)

lemma transpose_opt_Inr:
  "transpose_opt f v = Inr w \<longleftrightarrow>
     (case v of None \<Rightarrow> w = None | Some x \<Rightarrow> \<exists>y. f x = Inr y \<and> w = Some y)"
  by (auto simp: transpose_opt_def split: option.splits sum.splits)

lemma row_to_operation_fields:
  assumes "row_to_operation E row = Inr rec"
  shows "uuid_parse_str E (r_id row) = Some (o_id rec)"
    and "uuid_parse_str E (r_runtime_id row) = Some (o_runtime_id rec)"
    and "parse_state (r_state row) = Some (o_state rec)"
    and "parse_operation_kind (r_operation_kind row) = Some (o_kind rec)"
    and "o_payload_hash rec = r_payload_hash row"
    and "o_policy_revision rec = r_policy_revision row"
    and "r_payload_json row = canonical_json E (o_payload rec)"
    and "r_payload_hash row = sha256_hex E (r_payload_json row)"
    and "from_json_str E (r_payload_json row) = Some (o_payload rec)"
    and "parse_optional_timestamp E (r_expires_at row) ''operation expiry'' = Inr (o_expires_at rec)"
  using assms unfolding row_to_operation_def
  by (auto simp: rbind_eq_Inr dest: canonical_stored_value)

lemma row_to_operation_state [simp]:
  "row_to_operation E row = Inr rec \<Longrightarrow> r_state row = state_str (o_state rec)"
  using row_to_operation_fields(3) state_codec.to_of by force

lemma row_to_operation_kind [simp]:
  "row_to_operation E row = Inr rec \<Longrightarrow> r_operation_kind row = operation_kind_str (o_kind rec)"
  using row_to_operation_fields(4) kind_codec.to_of by force

end
