(* ===== verification/Operation_Repository.thy ===== *)
theory Operation_Repository
  imports Operation_Model "HOL-Library.Product_Lexorder"
begin

text \<open>
  The SQLite repository of operations, \<^verbatim>\<open>src/src-tauri/src/operations/repository.rs\<close>. The
  state is a \<open>ledger\<close>: the three tables in insertion order. A step inside a transaction
  maps a ledger to an error or to a value and the changed ledger; \<open>run_tx\<close> commits it, or
  drops it and leaves the ledger as it was, as a dropped \<^verbatim>\<open>Transaction\<close> rolls back. Every
  writer holds \<^verbatim>\<open>write_lock\<close> around its transaction, so the public operations are the atomic
  steps. What the code draws from outside is an argument: the clock reading (\<open>now\<close>) and the
  fresh \<^verbatim>\<open>Uuid::new_v4\<close> identifiers.
\<close>

section \<open>Errors and transactions\<close>

definition operation_conflict :: "string \<Rightarrow> app_error" where
  "operation_conflict reason = Blocked reason"

definition err_idempotency :: app_error where
  "err_idempotency = operation_conflict ''the idempotency key is already bound to a different immutable operation''"

definition err_not_found :: "env \<Rightarrow> uuid \<Rightarrow> app_error" where
  "err_not_found E u = NotFound (''operation '' @ uuid_to_string E u)"

definition err_claim_only :: app_error where
  "err_claim_only = Config ''execution must be entered through the atomic claim API''"

definition err_not_executable :: app_error where
  "err_not_executable = operation_conflict ''the operation is not in an executable state''"

definition err_needs_approval :: app_error where
  "err_needs_approval = operation_conflict ''a target-mutating operation cannot execute without exact approval''"

definition err_expired :: app_error where
  "err_expired = operation_conflict ''the operation has expired''"

definition err_no_exact_approval :: app_error where
  "err_no_exact_approval = operation_conflict ''the operation has no current exact approval''"

definition err_approver :: app_error where
  "err_approver = operation_conflict ''only an identified local or workspace user can approve an operation''"

definition err_reason_too_long :: app_error where
  "err_reason_too_long = Config ''operation approval reason exceeds the local control-message limit''"

definition err_not_pending :: app_error where
  "err_not_pending = operation_conflict ''the operation is not awaiting an approval decision''"

definition err_hash_mismatch :: app_error where
  "err_hash_mismatch = operation_conflict ''the reviewed payload hash does not match the stored operation''"

definition err_policy_changed :: app_error where
  "err_policy_changed = operation_conflict ''the active safety policy changed after the operation was planned''"

definition err_progress_state :: app_error where
  "err_progress_state = operation_conflict ''progress can only be recorded for an executing operation''"

definition err_state_changed :: app_error where
  "err_state_changed = operation_conflict ''the operation state changed before it could be updated''"

definition err_event_too_large :: app_error where
  "err_event_too_large = Config ''operation event details exceed the local control-message limit''"

definition err_sequence_overflow :: app_error where
  "err_sequence_overflow = Config ''operation event sequence overflowed''"

definition err_payload_too_large :: app_error where
  "err_payload_too_large = Config ''operation payload exceeds the local control-message limit''"

definition err_metadata_too_large :: app_error where
  "err_metadata_too_large = Config ''operation metadata exceeds the local control-message limit''"

definition err_previous_runtime :: app_error where
  "err_previous_runtime = operation_conflict ''the operation belongs to a previous application runtime''"

definition err_trigger :: app_error where
  "err_trigger = Db ''operation immutable fields cannot be changed''"

definition err_transition :: "transition_error \<Rightarrow> app_error" where
  "err_transition e = operation_conflict
     (''operation cannot transition from '' @ state_str (te_from e) @ '' to '' @ state_str (te_to e))"

text \<open>
  A transaction body returns \<open>Inl e\<close> when it ends before \<^verbatim>\<open>commit\<close> and \<open>Inr (r, db')\<close>
  when it commits \<open>db'\<close> and the function then returns \<open>r\<close>, which may itself be an error.
\<close>

definition run_tx :: "('a app_result \<times> ledger) app_result \<Rightarrow> ledger \<Rightarrow> 'a app_result \<times> ledger" where
  "run_tx body db = (case body of Inl e \<Rightarrow> (Inl e, db) | Inr (r, db') \<Rightarrow> (r, db'))"

section \<open>Preparing a new operation\<close>

definition lower_hex_digit :: "char \<Rightarrow> bool" where
  "lower_hex_digit c \<longleftrightarrow> c \<in> set ''0123456789'' \<or> (CHR ''a'' \<le> c \<and> c \<le> CHR ''f'')"

definition validate_new_operation :: "new_operation \<Rightarrow> unit app_result" where
  "validate_new_operation n =
     (case find (\<lambda>(name, value). blank value)
             [(''account scope'', n_account_scope n),
              (''actor id'', actor_id (n_actor n)),
              (''actor origin surface'', origin_surface (actor_provenance (n_actor n))),
              (''policy revision'', n_policy_revision n),
              (''idempotency key'', n_idempotency_key n)] of
        Some (name, _) \<Rightarrow> Inl (Config (''operation '' @ name @ '' cannot be empty''))
      | None \<Rightarrow>
          if n_connection_revision n < 1
          then Inl (Config ''operation connection revision must be positive'')
          else if n_payload_schema_version n = 0
          then Inl (Config ''operation payload schema version must be positive'')
          else if (case n_schema_fingerprint n of None \<Rightarrow> False
                   | Some v \<Rightarrow> length v \<noteq> 64 \<or> \<not> list_all lower_hex_digit v)
          then Inl (Config ''operation schema fingerprint must be lowercase SHA-256'')
          else Inr ())"

record prepared_operation =
  p_runtime_id :: uuid
  p_operation :: new_operation
  p_payload :: canonical_json_value
  p_actor_provenance_json :: string
  p_preview_json :: string
  p_policy_snapshot_json :: string

definition prepare_operation :: "env \<Rightarrow> uuid \<Rightarrow> new_operation \<Rightarrow> prepared_operation app_result" where
  "prepare_operation E runtime_id n =
     rbind (validate_new_operation n) (\<lambda>_.
     let payload = canonical_from_value E (n_payload n);
         provenance_json = canonical_json E (provenance_to_value (actor_provenance (n_actor n)));
         preview_json = canonical_json E (n_preview n);
         policy_snapshot_json = canonical_json E (n_policy_snapshot n)
     in rbind (guard (max_request_bytes < length (cj_json payload)) err_payload_too_large) (\<lambda>_.
        rbind (guard (max_response_bytes <
                 length provenance_json + length preview_json + length policy_snapshot_json)
               err_metadata_too_large) (\<lambda>_.
        Inr \<lparr>p_runtime_id = runtime_id, p_operation = n, p_payload = payload,
             p_actor_provenance_json = provenance_json, p_preview_json = preview_json,
             p_policy_snapshot_json = policy_snapshot_json\<rparr>)))"

definition prepared_matches :: "prepared_operation \<Rightarrow> operation_record \<Rightarrow> bool" where
  "prepared_matches p existing \<longleftrightarrow>
     (let n = p_operation p in
      o_runtime_id existing = p_runtime_id p \<and>
      o_workspace_id existing = n_workspace_id n \<and>
      o_account_scope existing = n_account_scope n \<and>
      o_connection_id existing = n_connection_id n \<and>
      o_connection_revision existing = n_connection_revision n \<and>
      o_terminal_session_id existing = n_terminal_session_id n \<and>
      o_actor existing = n_actor n \<and>
      o_kind existing = n_kind n \<and>
      o_payload_schema_version existing = n_payload_schema_version n \<and>
      o_payload_hash existing = cj_sha256 (p_payload p) \<and>
      o_schema_fingerprint existing = n_schema_fingerprint n \<and>
      o_risk_level existing = n_risk_level n \<and>
      json_eq (o_preview existing) (n_preview n) \<and>
      json_eq (o_policy_snapshot existing) (n_policy_snapshot n) \<and>
      o_policy_revision existing = n_policy_revision n \<and>
      o_single_use existing = n_single_use n \<and>
      o_idempotency_key existing = n_idempotency_key n \<and>
      o_expires_at existing = n_expires_at n)"

section \<open>The event ledger\<close>

text \<open>\<^verbatim>\<open>json!\<close> of an i64\<close>

definition json_i64 :: "int \<Rightarrow> json" where
  "json_i64 i = JNumber (if 0 \<le> i then PosInt (nat i) else NegInt i)"

definition json_opt_string :: "string option \<Rightarrow> json" where
  "json_opt_string v = (case v of None \<Rightarrow> JNull | Some s \<Rightarrow> JString s)"

record event_hash_input =
  hi_event_id :: uuid
  hi_operation_id :: uuid
  hi_sequence :: int
  hi_kind :: event_kind
  hi_state :: operation_state
  hi_event_json :: string
  hi_created_at :: datetime
  hi_prev_hash :: "string option"

definition event_hash_object :: "env \<Rightarrow> event_hash_input \<Rightarrow> json" where
  "event_hash_object E i = JObject
     [(''createdAt'', JString (to_rfc3339_nanos E (hi_created_at i))),
      (''eventId'', JString (uuid_to_string E (hi_event_id i))),
      (''eventJson'', JString (hi_event_json i)),
      (''eventKind'', JString (event_kind_str (hi_kind i))),
      (''operationId'', JString (uuid_to_string E (hi_operation_id i))),
      (''prevHash'', json_opt_string (hi_prev_hash i)),
      (''sequence'', json_i64 (hi_sequence i)),
      (''state'', JString (state_str (hi_state i)))]"

definition event_hash :: "env \<Rightarrow> event_hash_input \<Rightarrow> string" where
  "event_hash E i = sha256_hex E (canonical_json E (event_hash_object E i))"

definition op_events :: "ledger \<Rightarrow> string \<Rightarrow> event_row list" where
  "op_events db opid = filter (\<lambda>e. er_operation_id e = opid) (db_events db)"

text \<open>\<^verbatim>\<open>ORDER BY sequence DESC LIMIT 1\<close>\<close>

definition tail_event :: "ledger \<Rightarrow> string \<Rightarrow> event_row option" where
  "tail_event db opid =
     (case rev (sort_key er_sequence (op_events db opid)) of [] \<Rightarrow> None | e # _ \<Rightarrow> Some e)"

definition append_event_tx ::
  "env \<Rightarrow> uuid \<Rightarrow> event_kind \<Rightarrow> operation_state \<Rightarrow> json \<Rightarrow> datetime \<Rightarrow> uuid \<Rightarrow> ledger
     \<Rightarrow> (event_record \<times> ledger) app_result" where
  "append_event_tx E operation_id kind state details created_at event_id db =
     (let details_json = canonical_json E details;
          opid = uuid_to_string E operation_id in
      rbind (guard (max_response_bytes < length details_json) err_event_too_large) (\<lambda>_.
      rbind (case tail_event db opid of
               Some row \<Rightarrow>
                 (if er_sequence row = 2 ^ 63 - 1 then Inl err_sequence_overflow
                  else Inr (er_sequence row + 1, Some (er_hash row)))
             | None \<Rightarrow> Inr (1, None)) (\<lambda>(sequence, prev_hash).
      let hash = event_hash E \<lparr>hi_event_id = event_id, hi_operation_id = operation_id,
                   hi_sequence = sequence, hi_kind = kind, hi_state = state,
                   hi_event_json = details_json, hi_created_at = created_at,
                   hi_prev_hash = prev_hash\<rparr>;
          row = \<lparr>er_id = uuid_to_string E event_id, er_operation_id = opid,
                 er_sequence = sequence, er_event_kind = event_kind_str kind,
                 er_state = state_str state, er_event_json = details_json,
                 er_created_at = to_rfc3339_nanos E created_at,
                 er_prev_hash = prev_hash, er_hash = hash\<rparr>
      in rbind (insert_event_row E row db) (\<lambda>db'.
         rbind (parse_json E details_json) (\<lambda>stored.
         Inr (\<lparr>ev_id = event_id, ev_operation_id = operation_id, ev_sequence = sequence,
               ev_kind = kind, ev_state = state, ev_details = stored,
               ev_created_at = created_at, ev_prev_hash = prev_hash, ev_hash = hash\<rparr>, db'))))))"

section \<open>Reading and updating operations\<close>

definition find_operation_row :: "env \<Rightarrow> uuid \<Rightarrow> ledger \<Rightarrow> operation_row option" where
  "find_operation_row E operation_id db =
     find (\<lambda>r. r_id r = uuid_to_string E operation_id) (db_operations db)"

definition find_operation :: "env \<Rightarrow> uuid \<Rightarrow> ledger \<Rightarrow> operation_record option app_result" where
  "find_operation E operation_id db =
     transpose_opt (row_to_operation E) (find_operation_row E operation_id db)"

definition get_operation :: "env \<Rightarrow> uuid \<Rightarrow> ledger \<Rightarrow> operation_record app_result" where
  "get_operation E operation_id db =
     rbind (find_operation E operation_id db) (\<lambda>r. ok_or r (err_not_found E operation_id))"

definition fetch_operation_tx :: "env \<Rightarrow> uuid \<Rightarrow> ledger \<Rightarrow> operation_record app_result" where
  "fetch_operation_tx E operation_id db =
     rbind (ok_or (find_operation_row E operation_id db) (err_not_found E operation_id))
       (row_to_operation E)"

definition ensure_runtime :: "operation_record \<Rightarrow> uuid \<Rightarrow> unit app_result" where
  "ensure_runtime op runtime_id =
     (if o_runtime_id op = runtime_id then Inr () else Inl err_previous_runtime)"

fun transition_event_kind :: "operation_state \<Rightarrow> event_kind" where
  "transition_event_kind Planned = Ev_Planned"
| "transition_event_kind Ready = Ev_Planned"
| "transition_event_kind PendingApproval = Ev_ApprovalRequested"
| "transition_event_kind Approved = Ev_Approved"
| "transition_event_kind Rejected = Ev_Rejected"
| "transition_event_kind Expired = Ev_Expired"
| "transition_event_kind Cancelled = Ev_Cancelled"
| "transition_event_kind Executing = Ev_ExecutionStarted"
| "transition_event_kind Succeeded = Ev_Succeeded"
| "transition_event_kind Failed = Ev_Failed"
| "transition_event_kind OutcomeUnknown = Ev_OutcomeUnknown"

text \<open>
  \<^verbatim>\<open>UPDATE operations SET ... WHERE ...\<close>: the rows that satisfy the condition are changed,
  the trigger and the CHECK constraints may abort, and the number of changed rows is returned.
\<close>

definition update_operations ::
  "env \<Rightarrow> (operation_row \<Rightarrow> bool) \<Rightarrow> (operation_row \<Rightarrow> operation_row) \<Rightarrow> ledger
     \<Rightarrow> (nat \<times> ledger) app_result" where
  "update_operations E P f db =
     (if list_ex (\<lambda>r. P r \<and> immutable_columns_differ r (f r)) (db_operations db)
      then Inl err_trigger
      else if list_ex (\<lambda>r. P r \<and> \<not> operation_row_checks E (f r)) (db_operations db)
      then Inl err_constraint
      else Inr (length (filter P (db_operations db)),
                db\<lparr>db_operations := map (\<lambda>r. if P r then f r else r) (db_operations db)\<rparr>))"

definition set_lifecycle :: "operation_state \<Rightarrow> string \<Rightarrow> operation_row \<Rightarrow> operation_row" where
  "set_lifecycle target now_text r = r\<lparr>
     r_state := state_str target,
     r_updated_at := now_text,
     r_started_at := (if state_str target = ''executing'' then Some now_text else r_started_at r),
     r_finished_at := (if is_terminal target then Some now_text else r_finished_at r)\<rparr>"

definition transition_tx ::
  "env \<Rightarrow> operation_record \<Rightarrow> operation_state \<Rightarrow> json \<Rightarrow> datetime \<Rightarrow> uuid \<Rightarrow> ledger
     \<Rightarrow> (operation_record \<times> ledger) app_result" where
  "transition_tx E current target details now event_id db =
     rbind (case ensure_transition (o_state current) target of
              Inl e \<Rightarrow> Inl (err_transition e) | Inr u \<Rightarrow> Inr u) (\<lambda>_.
     let now_text = to_rfc3339_nanos E now in
     rbind (update_operations E
              (\<lambda>r. r_id r = uuid_to_string E (o_id current) \<and>
                   r_state r = state_str (o_state current) \<and>
                   r_payload_hash r = o_payload_hash current \<and>
                   (state_str target \<noteq> ''executing'' \<or>
                    (case r_expires_at r of None \<Rightarrow> True | Some e \<Rightarrow> now_text < e)))
              (set_lifecycle target now_text) db) (\<lambda>(rows_affected, db').
     rbind (guard (rows_affected \<noteq> 1) err_state_changed) (\<lambda>_.
     rbind (append_event_tx E (o_id current) (transition_event_kind target) target details now
              event_id db') (\<lambda>(_, db'').
     rbind (fetch_operation_tx E (o_id current) db'') (\<lambda>updated.
     Inr (updated, db''))))))"

section \<open>The repository's operations\<close>

definition operation_row_of :: "env \<Rightarrow> prepared_operation \<Rightarrow> datetime \<Rightarrow> operation_row" where
  "operation_row_of E p created_at =
     (let n = p_operation p; now_text = to_rfc3339_nanos E created_at in
      \<lparr>r_id = uuid_to_string E (n_id n),
       r_runtime_id = uuid_to_string E (p_runtime_id p),
       r_workspace_id = uuid_to_string E (n_workspace_id n),
       r_account_scope = n_account_scope n,
       r_connection_id = uuid_to_string E (n_connection_id n),
       r_connection_revision = n_connection_revision n,
       r_terminal_session_id = map_option (uuid_to_string E) (n_terminal_session_id n),
       r_actor_kind = actor_kind_str (actor_kind (n_actor n)),
       r_actor_id = actor_id (n_actor n),
       r_actor_provenance_json = p_actor_provenance_json p,
       r_operation_kind = operation_kind_str (n_kind n),
       r_payload_schema_version = int (n_payload_schema_version n),
       r_payload_json = cj_json (p_payload p),
       r_payload_hash = cj_sha256 (p_payload p),
       r_schema_fingerprint = n_schema_fingerprint n,
       r_risk_level = risk_level_str (n_risk_level n),
       r_preview_json = p_preview_json p,
       r_policy_snapshot_json = p_policy_snapshot_json p,
       r_policy_revision = n_policy_revision n,
       r_state = ''planned'',
       r_single_use = (if n_single_use n then 1 else 0),
       r_idempotency_key = n_idempotency_key n,
       r_expires_at = map_option (to_rfc3339_nanos E) (n_expires_at n),
       r_started_at = None,
       r_finished_at = None,
       r_created_at = now_text,
       r_updated_at = now_text\<rparr>)"

definition planned_details :: "prepared_operation \<Rightarrow> json" where
  "planned_details p = JObject
     [(''payloadHash'', JString (cj_sha256 (p_payload p))),
      (''riskLevel'', JString (risk_level_str (n_risk_level (p_operation p))))]"

definition insert_planned ::
  "env \<Rightarrow> uuid \<Rightarrow> new_operation \<Rightarrow> datetime \<Rightarrow> uuid \<Rightarrow> ledger
     \<Rightarrow> operation_record app_result \<times> ledger" where
  "insert_planned E runtime_id n created_at event_id db =
     (case prepare_operation E runtime_id n of
        Inl e \<Rightarrow> (Inl e, db)
      | Inr p \<Rightarrow> run_tx
          (case find (\<lambda>r. r_workspace_id r = uuid_to_string E (n_workspace_id n) \<and>
                          r_actor_kind r = actor_kind_str (actor_kind (n_actor n)) \<and>
                          r_actor_id r = actor_id (n_actor n) \<and>
                          r_idempotency_key r = n_idempotency_key n) (db_operations db) of
             Some row \<Rightarrow>
               rbind (row_to_operation E row) (\<lambda>existing.
                 if prepared_matches p existing then Inr (Inr existing, db)
                 else Inl err_idempotency)
           | None \<Rightarrow>
               rbind (insert_operation_row E (operation_row_of E p created_at) db) (\<lambda>db1.
               rbind (append_event_tx E (n_id n) Ev_Planned Planned (planned_details p)
                        created_at event_id db1) (\<lambda>(_, db2).
               rbind (fetch_operation_tx E (n_id n) db2) (\<lambda>record.
               Inr (Inr record, db2)))))
          db)"

definition transition ::
  "env \<Rightarrow> uuid \<Rightarrow> uuid \<Rightarrow> operation_state \<Rightarrow> json \<Rightarrow> datetime \<Rightarrow> uuid \<Rightarrow> ledger
     \<Rightarrow> operation_record app_result \<times> ledger" where
  "transition E operation_id runtime_id target details now event_id db =
     (if target = Executing then (Inl err_claim_only, db)
      else run_tx
        (rbind (fetch_operation_tx E operation_id db) (\<lambda>current.
         rbind (ensure_runtime current runtime_id) (\<lambda>_.
         rbind (transition_tx E current target details now event_id db) (\<lambda>(updated, db').
         Inr (Inr updated, db'))))) db)"

definition expired_at :: "datetime option \<Rightarrow> datetime \<Rightarrow> bool" where
  "expired_at expires_at now = (case expires_at of None \<Rightarrow> False | Some e \<Rightarrow> e \<le> now)"

definition has_exact_approval :: "env \<Rightarrow> operation_record \<Rightarrow> datetime \<Rightarrow> ledger \<Rightarrow> bool" where
  "has_exact_approval E current now db \<longleftrightarrow>
     list_ex (\<lambda>a. ar_operation_id a = uuid_to_string E (o_id current) \<and>
                  ar_payload_hash a = o_payload_hash current \<and>
                  ar_decision a = ''approved'' \<and>
                  ar_policy_revision a = o_policy_revision current \<and>
                  (case ar_expires_at a of None \<Rightarrow> True
                   | Some e \<Rightarrow> to_rfc3339_nanos E now < e)) (db_approvals db)"

definition reason_details :: "string \<Rightarrow> json" where
  "reason_details r = JObject [(''reason'', JString r)]"

definition claim_details :: "operation_record \<Rightarrow> json" where
  "claim_details current = JObject [(''payloadHash'', JString (o_payload_hash current))]"

definition claim_execution ::
  "env \<Rightarrow> uuid \<Rightarrow> uuid \<Rightarrow> datetime \<Rightarrow> uuid \<Rightarrow> ledger \<Rightarrow> operation_record app_result \<times> ledger" where
  "claim_execution E operation_id runtime_id now event_id db = run_tx
     (rbind (fetch_operation_tx E operation_id db) (\<lambda>current.
      rbind (ensure_runtime current runtime_id) (\<lambda>_.
      rbind (guard (o_state current \<notin> {Ready, Approved}) err_not_executable) (\<lambda>_.
      rbind (guard (o_state current = Ready \<and> may_mutate_target (o_kind current))
              err_needs_approval) (\<lambda>_.
      if expired_at (o_expires_at current) now
      then rbind (transition_tx E current Expired (reason_details ''operation_expired'') now
                    event_id db) (\<lambda>(_, db'). Inr (Inl err_expired, db'))
      else
        rbind (guard (o_state current = Approved \<and> \<not> has_exact_approval E current now db)
                err_no_exact_approval) (\<lambda>_.
        rbind (transition_tx E current Executing (claim_details current) now event_id db)
          (\<lambda>(updated, db'). Inr (Inr updated, db')))))))) db"

definition approval_row_of :: "env \<Rightarrow> operation_record \<Rightarrow> approval_command \<Rightarrow> uuid \<Rightarrow> approval_row" where
  "approval_row_of E current c approval_id =
     \<lparr>ar_id = uuid_to_string E approval_id,
      ar_operation_id = uuid_to_string E (o_id current),
      ar_payload_hash = o_payload_hash current,
      ar_approver_kind = actor_kind_str (approver_kind (c_approver c)),
      ar_approver_id = approver_id (c_approver c),
      ar_decision = approval_decision_str (c_decision c),
      ar_reason = c_reason c,
      ar_policy_revision = o_policy_revision current,
      ar_created_at = to_rfc3339_nanos E (c_now c),
      ar_expires_at = map_option (to_rfc3339_nanos E) (o_expires_at current)\<rparr>"

definition approval_details :: "env \<Rightarrow> operation_record \<Rightarrow> approval_command \<Rightarrow> uuid \<Rightarrow> json" where
  "approval_details E current c approval_id = JObject
     [(''approvalId'', JString (uuid_to_string E approval_id)),
      (''approverId'', JString (approver_id (c_approver c))),
      (''approverKind'', JString (actor_kind_str (approver_kind (c_approver c)))),
      (''payloadHash'', JString (o_payload_hash current)),
      (''policyRevision'', JString (o_policy_revision current))]"

fun decision_state :: "approval_decision \<Rightarrow> operation_state" where
  "decision_state Decision_Approved = Approved"
| "decision_state Decision_Rejected = Rejected"

definition decide_approval ::
  "env \<Rightarrow> approval_command \<Rightarrow> uuid \<Rightarrow> uuid \<Rightarrow> ledger \<Rightarrow> operation_record app_result \<times> ledger" where
  "decide_approval E c approval_id event_id db =
     (if approver_kind (c_approver c) \<notin> {LocalUser, WorkspaceUser} \<or>
         blank (approver_id (c_approver c))
      then (Inl err_approver, db)
      else if (case c_reason c of None \<Rightarrow> False | Some r \<Rightarrow> max_request_bytes < length r)
      then (Inl err_reason_too_long, db)
      else run_tx
        (rbind (fetch_operation_tx E (c_operation_id c) db) (\<lambda>current.
         rbind (ensure_runtime current (c_runtime_id c)) (\<lambda>_.
         rbind (guard (o_state current \<noteq> PendingApproval) err_not_pending) (\<lambda>_.
         rbind (guard (o_payload_hash current \<noteq> c_expected_payload_hash c) err_hash_mismatch) (\<lambda>_.
         rbind (guard (o_policy_revision current \<noteq> c_current_policy_revision c)
                 err_policy_changed) (\<lambda>_.
         if expired_at (o_expires_at current) (c_now c)
         then rbind (transition_tx E current Expired (reason_details ''approval_expired'')
                       (c_now c) event_id db) (\<lambda>(_, db'). Inr (Inl err_expired, db'))
         else
           rbind (insert_approval_row (approval_row_of E current c approval_id) db) (\<lambda>db1.
           rbind (transition_tx E current (decision_state (c_decision c))
                    (approval_details E current c approval_id) (c_now c) event_id db1)
             (\<lambda>(updated, db2). Inr (Inr updated, db2))))))))) db)"

definition approvals :: "env \<Rightarrow> uuid \<Rightarrow> ledger \<Rightarrow> approval_record list app_result" where
  "approvals E operation_id db = collect_results (row_to_approval E)
     (sort_key (\<lambda>a. (ar_created_at a, ar_id a))
       (filter (\<lambda>a. ar_operation_id a = uuid_to_string E operation_id) (db_approvals db)))"

definition append_progress ::
  "env \<Rightarrow> uuid \<Rightarrow> uuid \<Rightarrow> json \<Rightarrow> datetime \<Rightarrow> uuid \<Rightarrow> ledger \<Rightarrow> event_record app_result \<times> ledger" where
  "append_progress E operation_id runtime_id details now event_id db = run_tx
     (rbind (fetch_operation_tx E operation_id db) (\<lambda>current.
      rbind (ensure_runtime current runtime_id) (\<lambda>_.
      rbind (guard (o_state current \<noteq> Executing) err_progress_state) (\<lambda>_.
      rbind (append_event_tx E operation_id Ev_Progress (o_state current) details now event_id db)
        (\<lambda>(event, db'). Inr (Inr event, db')))))) db"

definition events :: "env \<Rightarrow> uuid \<Rightarrow> ledger \<Rightarrow> event_record list app_result" where
  "events E operation_id db = collect_results (row_to_event E)
     (sort_key er_sequence (op_events db (uuid_to_string E operation_id)))"

definition event_hash_of :: "env \<Rightarrow> event_record \<Rightarrow> string" where
  "event_hash_of E e = event_hash E
     \<lparr>hi_event_id = ev_id e, hi_operation_id = ev_operation_id e, hi_sequence = ev_sequence e,
      hi_kind = ev_kind e, hi_state = ev_state e, hi_event_json = canonical_json E (ev_details e),
      hi_created_at = ev_created_at e, hi_prev_hash = ev_prev_hash e\<rparr>"

text \<open>The loop of \<^verbatim>\<open>verify_event_chain\<close>, from the event at \<open>index\<close> on.\<close>

fun verify_events :: "env \<Rightarrow> nat \<Rightarrow> string option \<Rightarrow> event_record list \<Rightarrow> bool" where
  "verify_events E index previous_hash [] = True"
| "verify_events E index previous_hash (e # es) =
     (if ev_sequence e \<noteq> int index + 1 \<or> ev_prev_hash e \<noteq> previous_hash \<or>
         (index = 0 \<and> (ev_kind e \<noteq> Ev_Planned \<or> ev_state e \<noteq> Planned))
      then False
      else if event_hash_of E e \<noteq> ev_hash e then False
      else verify_events E (Suc index) (Some (ev_hash e)) es)"

definition verify_event_chain :: "env \<Rightarrow> uuid \<Rightarrow> ledger \<Rightarrow> bool app_result" where
  "verify_event_chain E operation_id db =
     rbind (get_operation E operation_id db) (\<lambda>projection.
     rbind (events E operation_id db) (\<lambda>evs.
     if evs = [] then Inr False
     else if \<not> verify_events E 0 None evs then Inr False
     else Inr (ev_state (last evs) = o_state projection)))"

section \<open>Restart recovery\<close>

definition recoverable_rows :: "env \<Rightarrow> uuid \<Rightarrow> ledger \<Rightarrow> operation_row list" where
  "recoverable_rows E current_runtime_id db =
     sort_key (\<lambda>r. (r_created_at r, r_id r))
       (filter (\<lambda>r. r_runtime_id r \<noteq> uuid_to_string E current_runtime_id \<and>
                    r_state r \<notin> {''rejected'', ''expired'', ''cancelled'', ''succeeded'', ''failed'',
                                   ''outcome_unknown''}) (db_operations db))"

text \<open>
  One turn of the recovery loop. \<open>now\<close> and \<open>event_id\<close> are the clock and the identifier
  drawn in this turn.
\<close>

definition recover_row ::
  "env \<Rightarrow> operation_row \<Rightarrow> datetime \<Rightarrow> uuid \<Rightarrow> recovery_report \<times> ledger
     \<Rightarrow> (recovery_report \<times> ledger) app_result" where
  "recover_row E row now event_id = (\<lambda>(report, db).
     rbind (row_to_operation E row) (\<lambda>operation.
     case restart_recovery (o_kind operation) (o_state operation) of
       KeepTerminal \<Rightarrow> Inr (report, db)
     | Expire \<Rightarrow>
         rbind (transition_tx E operation Expired (reason_details ''runtime_restarted'') now
                  event_id db) (\<lambda>(_, db').
         Inr (report\<lparr>rr_expired := rr_expired report @ [o_id operation]\<rparr>, db'))
     | MarkFailed \<Rightarrow>
         rbind (transition_tx E operation Failed
                  (reason_details ''runtime_interrupted_before_receipt'') now event_id db) (\<lambda>(_, db').
         Inr (report\<lparr>rr_failed := rr_failed report @ [o_id operation]\<rparr>, db'))
     | MarkOutcomeUnknown \<Rightarrow>
         rbind (transition_tx E operation OutcomeUnknown
                  (reason_details ''target_commit_status_unknown_after_restart'') now event_id db)
           (\<lambda>(_, db').
         Inr (report\<lparr>rr_outcome_unknown := rr_outcome_unknown report @ [o_id operation]\<rparr>, db'))
     | ValidateJobCheckpoint \<Rightarrow>
         Inr (report\<lparr>rr_checkpoint_validation_required :=
                rr_checkpoint_validation_required report @ [o_id operation]\<rparr>, db)))"

fun recover_rows ::
  "env \<Rightarrow> (nat \<Rightarrow> datetime) \<Rightarrow> (nat \<Rightarrow> uuid) \<Rightarrow> nat \<Rightarrow> operation_row list \<Rightarrow> recovery_report \<times> ledger
     \<Rightarrow> (recovery_report \<times> ledger) app_result" where
  "recover_rows E clock ids i [] acc = Inr acc"
| "recover_rows E clock ids i (row # rows) acc =
     rbind (recover_row E row (clock i) (ids i) acc) (recover_rows E clock ids (Suc i) rows)"

definition recover_previous_runtimes ::
  "env \<Rightarrow> uuid \<Rightarrow> (nat \<Rightarrow> datetime) \<Rightarrow> (nat \<Rightarrow> uuid) \<Rightarrow> ledger
     \<Rightarrow> recovery_report app_result \<times> ledger" where
  "recover_previous_runtimes E current_runtime_id clock ids db = run_tx
     (rbind (recover_rows E clock ids 0 (recoverable_rows E current_runtime_id db)
               (empty_report, db)) (\<lambda>(report, db').
      Inr (Inr report, db'))) db"

end
