(* ===== verification/Ledger_Steps.thy ===== *)
theory Ledger_Steps
  imports Operation_Repository
begin

text \<open>
  What the repository's transactions do to the ledger. \<open>append_event_tx\<close> and
  \<open>transition_tx\<close> get exact specifications; \<open>ledger_step\<close> is the step relation they
  induce, one rule per kind of change (a planned operation with its first event, a state
  change with its event, an approval row, a progress event), each with the guards of the
  code; and every public operation of the repository is shown to be a sequence of such steps.
  Invariants are then proved once, over four rules.
\<close>

section \<open>Specifications of the transaction bodies\<close>

definition next_sequence :: "ledger \<Rightarrow> string \<Rightarrow> int" where
  "next_sequence db opid = (case tail_event db opid of None \<Rightarrow> 1 | Some r \<Rightarrow> er_sequence r + 1)"

definition next_prev_hash :: "ledger \<Rightarrow> string \<Rightarrow> string option" where
  "next_prev_hash db opid = map_option er_hash (tail_event db opid)"

text \<open>The row that \<open>append_event_tx\<close> inserts.\<close>

definition new_event_row ::
  "env \<Rightarrow> uuid \<Rightarrow> event_kind \<Rightarrow> operation_state \<Rightarrow> json \<Rightarrow> datetime \<Rightarrow> uuid \<Rightarrow> ledger \<Rightarrow> event_row" where
  "new_event_row E operation_id kind state details created_at event_id db =
     (let opid = uuid_to_string E operation_id;
          sequence = next_sequence db opid;
          prev_hash = next_prev_hash db opid in
      \<lparr>er_id = uuid_to_string E event_id, er_operation_id = opid, er_sequence = sequence,
       er_event_kind = event_kind_str kind, er_state = state_str state,
       er_event_json = canonical_json E details,
       er_created_at = to_rfc3339_nanos E created_at, er_prev_hash = prev_hash,
       er_hash = event_hash E \<lparr>hi_event_id = event_id, hi_operation_id = operation_id,
         hi_sequence = sequence, hi_kind = kind, hi_state = state,
         hi_event_json = canonical_json E details, hi_created_at = created_at,
         hi_prev_hash = prev_hash\<rparr>\<rparr>)"

abbreviation add_event :: "event_row \<Rightarrow> ledger \<Rightarrow> ledger" where
  "add_event row db \<equiv> db\<lparr>db_events := db_events db @ [row]\<rparr>"

definition event_insertable :: "env \<Rightarrow> event_row \<Rightarrow> ledger \<Rightarrow> bool" where
  "event_insertable E row db \<longleftrightarrow> insert_event_row E row db = Inr (add_event row db)"

lemma insert_event_row_Inr [result_simps]:
  "insert_event_row E row db = Inr db' \<longleftrightarrow> event_insertable E row db \<and> db' = add_event row db"
  by (auto simp: event_insertable_def insert_event_row_def split: if_splits)

lemma event_insertable_operation:
  "event_insertable E row db \<Longrightarrow> er_operation_id row \<in> r_id ` set (db_operations db)"
  by (auto simp: event_insertable_def insert_event_row_def split: if_splits)

lemma append_event_tx_Inr:
  assumes "append_event_tx E op k s details t evid db = Inr (ev, db')"
  shows "db' = add_event (new_event_row E op k s details t evid db) db"
    and "event_insertable E (new_event_row E op k s details t evid db) db"
    and "from_json_str E (canonical_json E details) \<noteq> None"
  using assms
  by (auto simp: append_event_tx_def new_event_row_def next_sequence_def next_prev_hash_def
      Let_def rbind_eq_Inr insert_event_row_Inr split: option.splits if_splits)

abbreviation set_row :: "operation_row \<Rightarrow> operation_row \<Rightarrow> ledger \<Rightarrow> ledger" where
  "set_row row row' db \<equiv> db\<lparr>db_operations :=
     map (\<lambda>r. if r_id r = r_id row then row' else r) (db_operations db)\<rparr>"

lemma find_operation_row_Some:
  assumes "find_operation_row E u db = Some row"
  shows "row \<in> set (db_operations db)" "r_id row = uuid_to_string E u"
  using find_Some_set [OF assms [unfolded find_operation_row_def]] by simp_all

lemma fetch_operation_tx_Inr:
  "fetch_operation_tx E u db = Inr rec \<longleftrightarrow>
     (\<exists>row. find_operation_row E u db = Some row \<and> row_to_operation E row = Inr rec)"
  by (auto simp: fetch_operation_tx_def rbind_eq_Inr)

lemma find_operation_row_distinct:
  assumes "distinct (map r_id (db_operations db))" "row \<in> set (db_operations db)"
    and "r_id row = uuid_to_string E u"
  shows "find_operation_row E u db = Some row"
  using find_distinct_key [OF assms(1,2)] assms(3) by (simp add: find_operation_row_def)

lemma set_lifecycle_simps [simp]:
  "r_id (set_lifecycle t s r) = r_id r"
  "r_state (set_lifecycle t s r) = state_str t"
  "r_payload_hash (set_lifecycle t s r) = r_payload_hash r"
  "r_payload_json (set_lifecycle t s r) = r_payload_json r"
  "r_operation_kind (set_lifecycle t s r) = r_operation_kind r"
  "r_runtime_id (set_lifecycle t s r) = r_runtime_id r"
  "r_policy_revision (set_lifecycle t s r) = r_policy_revision r"
  "r_expires_at (set_lifecycle t s r) = r_expires_at r"
  "idempotency_index (set_lifecycle t s r) = idempotency_index r"
  "\<not> immutable_columns_differ r (set_lifecycle t s r)"
  by (simp_all add: set_lifecycle_def idempotency_index_def immutable_columns_differ_def)

text \<open>
  A state change touches one row: the one with the identifier, the state and the payload hash
  of the record it was decided on.
\<close>

lemma transition_tx_Inr:
  assumes tx: "transition_tx E cur target details now evid db = Inr (upd, db')"
    and dist: "distinct (map r_id (db_operations db))"
    and row: "row \<in> set (db_operations db)" "row_to_operation E row = Inr cur"
    and id: "r_id row = uuid_to_string E (o_id cur)"
  defines "row' \<equiv> set_lifecycle target (to_rfc3339_nanos E now) row"
  shows "transition_allowed (o_state cur) target"
    and "row_to_operation E row' = Inr upd"
    and "operation_row_checks E row'"
    and "db' = add_event (new_event_row E (o_id cur) (transition_event_kind target) target details
           now evid (set_row row row' db)) (set_row row row' db)"
    and "event_insertable E (new_event_row E (o_id cur) (transition_event_kind target) target
           details now evid (set_row row row' db)) (set_row row row' db)"
    and "from_json_str E (canonical_json E details) \<noteq> None"
proof -
  let ?P = "\<lambda>r. r_id r = uuid_to_string E (o_id cur) \<and> r_state r = state_str (o_state cur) \<and>
    r_payload_hash r = o_payload_hash cur \<and>
    (state_str target \<noteq> ''executing'' \<or>
      (case r_expires_at r of None \<Rightarrow> True | Some e \<Rightarrow> to_rfc3339_nanos E now < e))"
  let ?f = "set_lifecycle target (to_rfc3339_nanos E now)"
  let ?db1 = "db\<lparr>db_operations := map (\<lambda>r. if ?P r then ?f r else r) (db_operations db)\<rparr>"
  from tx obtain ev where
    allowed: "transition_allowed (o_state cur) target"
    and checks: "\<not> list_ex (\<lambda>r. ?P r \<and> \<not> operation_row_checks E (?f r)) (db_operations db)"
    and one: "length (filter ?P (db_operations db)) = 1"
    and app: "append_event_tx E (o_id cur) (transition_event_kind target) target details now evid
                ?db1 = Inr (ev, db')"
    and fetch: "fetch_operation_tx E (o_id cur) db' = Inr upd"
    unfolding transition_tx_def
    by (auto simp: rbind_eq_Inr Let_def update_operations_def split: sum.splits if_splits)
  from one have "filter ?P (db_operations db) \<noteq> []" by force
  then obtain r where "r \<in> set (filter ?P (db_operations db))" using hd_in_set by blast
  then have r: "r \<in> set (db_operations db)" "?P r" by auto
  have same: "r = row"
    using r row(1) id dist by (metis find_distinct_key option.inject)
  have only: "?P q \<longleftrightarrow> r_id q = r_id row" if "q \<in> set (db_operations db)" for q
    using that r(2) same id dist row(1) by (metis find_distinct_key option.inject)
  have db1: "?db1 = set_row row (?f row) db"
  proof -
    have "map (\<lambda>r. if ?P r then ?f r else r) (db_operations db)
        = map (\<lambda>r. if r_id r = r_id row then ?f row else r) (db_operations db)"
    proof (rule map_cong [OF refl])
      fix q assume q: "q \<in> set (db_operations db)"
      show "(if ?P q then ?f q else q) = (if r_id q = r_id row then ?f row else q)"
      proof (cases "r_id q = r_id row")
        case True
        then have "q = row" using q row(1) dist by (metis find_distinct_key option.inject)
        then show ?thesis using only [OF q] by simp
      next
        case False
        then show ?thesis using only [OF q] by auto
      qed
    qed
    then show ?thesis by simp
  qed
  note app' = append_event_tx_Inr [OF app [unfolded db1]]
  show "transition_allowed (o_state cur) target" by (rule allowed)
  show "operation_row_checks E row'"
    using checks r same by (auto simp: list_ex_iff row'_def)
  show "db' = add_event (new_event_row E (o_id cur) (transition_event_kind target) target details
           now evid (set_row row row' db)) (set_row row row' db)"
    unfolding row'_def by (rule app'(1))
  show "event_insertable E (new_event_row E (o_id cur) (transition_event_kind target) target
           details now evid (set_row row row' db)) (set_row row row' db)"
    unfolding row'_def by (rule app'(2))
  show "from_json_str E (canonical_json E details) \<noteq> None" by (rule app'(3))
  have ops': "db_operations db' = map (\<lambda>r. if r_id r = r_id row then row' else r) (db_operations db)"
    unfolding row'_def by (simp add: app'(1))
  have "map r_id (db_operations db') = map r_id (db_operations db)"
    unfolding ops' by (simp add: row'_def comp_def)
  moreover have "row' \<in> set (db_operations db')"
    using ops' row(1) by force
  ultimately have "find_operation_row E (o_id cur) db' = Some row'"
    using dist id by (intro find_operation_row_distinct) (simp_all add: row'_def)
  with fetch show "row_to_operation E row' = Inr upd"
    by (simp add: fetch_operation_tx_Inr)
qed

section \<open>The step relation\<close>

text \<open>The guards of \<open>claim_execution\<close>, as a predicate on the record read in the transaction.\<close>

definition claimable :: "env \<Rightarrow> operation_record \<Rightarrow> datetime \<Rightarrow> ledger \<Rightarrow> bool" where
  "claimable E cur now db \<longleftrightarrow>
     o_state cur \<in> {Ready, Approved} \<and>
     \<not> (o_state cur = Ready \<and> may_mutate_target (o_kind cur)) \<and>
     \<not> expired_at (o_expires_at cur) now \<and>
     (o_state cur = Approved \<longrightarrow> has_exact_approval E cur now db)"

text \<open>The guards of \<open>decide_approval\<close>.\<close>

definition decidable_by :: "operation_record \<Rightarrow> approval_command \<Rightarrow> bool" where
  "decidable_by cur c \<longleftrightarrow>
     approver_kind (c_approver c) \<in> {LocalUser, WorkspaceUser} \<and>
     \<not> blank (approver_id (c_approver c)) \<and>
     (case c_reason c of None \<Rightarrow> True | Some r \<Rightarrow> length r \<le> max_request_bytes) \<and>
     o_runtime_id cur = c_runtime_id c \<and>
     o_state cur = PendingApproval \<and>
     o_payload_hash cur = c_expected_payload_hash c \<and>
     o_policy_revision cur = c_current_policy_revision c \<and>
     \<not> expired_at (o_expires_at cur) (c_now c)"

text \<open>The expiry column holds the text of an instant that RFC 3339 can write.\<close>

definition row_expiry_ok :: "env \<Rightarrow> operation_row \<Rightarrow> bool" where
  "row_expiry_ok E row \<longleftrightarrow>
     r_expires_at row = None \<or>
     (\<exists>t. rfc3339_range t \<and> r_expires_at row = Some (to_rfc3339_nanos E t))"

inductive ledger_step :: "env \<Rightarrow> ledger \<Rightarrow> ledger \<Rightarrow> bool" for E where
  plan: "\<lbrakk>insert_operation_row E row db = Inr db1; row_to_operation E row = Inr rec;
          r_id row = uuid_to_string E (o_id rec); o_state rec = Planned; row_expiry_ok E row;
          json_plain details; rfc3339_range now;
          e = new_event_row E (o_id rec) Ev_Planned Planned details now evid db1;
          event_insertable E e db1\<rbrakk>
      \<Longrightarrow> ledger_step E db (add_event e db1)"
| advance: "\<lbrakk>row \<in> set (db_operations db); row_to_operation E row = Inr cur;
          transition_allowed (o_state cur) target;
          target = Executing \<Longrightarrow> claimable E cur now db;
          row' = set_lifecycle target (to_rfc3339_nanos E now) row;
          row_to_operation E row' = Inr upd; operation_row_checks E row';
          json_plain details; rfc3339_range now;
          e = new_event_row E (o_id cur) (transition_event_kind target) target details now evid
                (set_row row row' db);
          event_insertable E e (set_row row row' db)\<rbrakk>
      \<Longrightarrow> ledger_step E db (add_event e (set_row row row' db))"
| approve: "\<lbrakk>row \<in> set (db_operations db); row_to_operation E row = Inr cur; decidable_by cur c;
          insert_approval_row (approval_row_of E cur c aid) db = Inr db'\<rbrakk>
      \<Longrightarrow> ledger_step E db db'"
| progress: "\<lbrakk>row \<in> set (db_operations db); row_to_operation E row = Inr cur;
          o_state cur = Executing; json_plain details; rfc3339_range now;
          e = new_event_row E (o_id cur) Ev_Progress Executing details now evid db;
          event_insertable E e db\<rbrakk>
      \<Longrightarrow> ledger_step E db (add_event e db)"

inductive_cases ledger_stepE: "ledger_step E db db'"

section \<open>Every operation of the repository is a sequence of steps\<close>

text \<open>
  What the steps keep of the operations table, as far as the refinement needs it: identifiers
  are unique, and every row is read and carries its own identifier.
\<close>

definition rows_ok :: "env \<Rightarrow> ledger \<Rightarrow> bool" where
  "rows_ok E db \<longleftrightarrow> distinct (map r_id (db_operations db)) \<and>
     (\<forall>row \<in> set (db_operations db).
        \<exists>rec. row_to_operation E row = Inr rec \<and> r_id row = uuid_to_string E (o_id rec))"

lemma rows_ok_find:
  assumes "rows_ok E db" "find_operation_row E u db = Some row" "row_to_operation E row = Inr rec"
  shows "row \<in> set (db_operations db)" "r_id row = uuid_to_string E (o_id rec)"
proof -
  show "row \<in> set (db_operations db)" using find_operation_row_Some [OF assms(2)] by simp
  then show "r_id row = uuid_to_string E (o_id rec)"
    using assms(1,3) unfolding rows_ok_def by fastforce
qed

lemma rows_ok_set_row:
  assumes ok: "rows_ok E db" and row: "row \<in> set (db_operations db)"
    and upd: "row_to_operation E row' = Inr upd" and id: "r_id row' = r_id row"
    and cur: "row_to_operation E row = Inr cur" and env: "env_ok E"
  shows "rows_ok E (set_row row row' db)"
proof -
  have ids: "map r_id (map (\<lambda>r. if r_id r = r_id row then row' else r) (db_operations db))
      = map r_id (db_operations db)"
    using id by simp
  have new: "r_id row = uuid_to_string E (o_id upd)"
  proof -
    have "r_id row = uuid_to_string E (o_id cur)"
      using ok row cur unfolding rows_ok_def by fastforce
    moreover have "o_id upd = o_id cur"
      using row_to_operation_fields(1) [OF upd] row_to_operation_fields(1) [OF cur] id by simp
    ultimately show ?thesis by simp
  qed
  show ?thesis
    unfolding rows_ok_def
  proof
    show "distinct (map r_id (db_operations (set_row row row' db)))"
      using ok ids by (simp add: rows_ok_def del: map_map)
    show "\<forall>r\<in>set (db_operations (set_row row row' db)).
        \<exists>rec. row_to_operation E r = Inr rec \<and> r_id r = uuid_to_string E (o_id rec)"
      using ok upd id new by (auto simp: rows_ok_def)
  qed
qed

lemma rows_ok_events [simp]: "rows_ok E (db\<lparr>db_events := es\<rparr>) = rows_ok E db"
  by (simp add: rows_ok_def)

lemma insert_operation_row_Inr [result_simps]:
  "insert_operation_row E r db = Inr db' \<longleftrightarrow>
     operation_row_checks E r \<and> r_id r \<notin> r_id ` set (db_operations db) \<and>
     idempotency_index r \<notin> idempotency_index ` set (db_operations db) \<and>
     db' = db\<lparr>db_operations := db_operations db @ [r]\<rparr>"
  by (auto simp: insert_operation_row_def)

lemma insert_approval_row_Inr [result_simps]:
  "insert_approval_row r db = Inr db' \<longleftrightarrow>
     approval_row_checks r \<and> ar_id r \<notin> ar_id ` set (db_approvals db) \<and>
     ar_operation_id r \<in> r_id ` set (db_operations db) \<and>
     db' = db\<lparr>db_approvals := db_approvals db @ [r]\<rparr>"
  by (auto simp: insert_approval_row_def)

lemma ledger_step_rows_ok:
  assumes "ledger_step E db db'" "rows_ok E db" "env_ok E"
  shows "rows_ok E db'"
  using assms(1)
proof (cases rule: ledger_step.cases)
  case (plan row db1 rec details now e evid)
  then have "rows_ok E db1"
    using assms(2) by (auto simp: rows_ok_def insert_operation_row_Inr)
  with plan show ?thesis by simp
next
  case (advance row cur target now row' upd details e evid)
  then show ?thesis
    using rows_ok_set_row [OF assms(2) advance(2) advance(7) _ advance(3) assms(3)] by simp
next
  case (approve row cur c aid)
  then show ?thesis using assms(2) by (auto simp: rows_ok_def insert_approval_row_Inr)
next
  case (progress row cur details now e evid)
  with assms(2) show ?thesis by simp
qed

lemma ledger_steps_rows_ok:
  "(ledger_step E)\<^sup>*\<^sup>* db db' \<Longrightarrow> rows_ok E db \<Longrightarrow> env_ok E \<Longrightarrow> rows_ok E db'"
  by (induction rule: rtranclp_induct) (auto intro: ledger_step_rows_ok)

lemma transition_tx_step:
  assumes tx: "transition_tx E cur target details now evid db = Inr (upd, db')"
    and ok: "rows_ok E db" and row: "row \<in> set (db_operations db)" "row_to_operation E row = Inr cur"
    and claim: "target = Executing \<Longrightarrow> claimable E cur now db"
    and details: "json_plain details" and now: "rfc3339_range now"
  shows "ledger_step E db db'"
proof -
  have id: "r_id row = uuid_to_string E (o_id cur)"
    using ok row unfolding rows_ok_def by fastforce
  have dist: "distinct (map r_id (db_operations db))" using ok by (simp add: rows_ok_def)
  note spec = transition_tx_Inr [OF tx dist row id]
  show ?thesis
    unfolding spec(4)
    by (rule ledger_step.advance [OF row spec(1) claim refl spec(2,3) details now refl spec(5)])
qed

lemma run_tx_ledger:
  "snd (run_tx body db) = db' \<Longrightarrow> db' = db \<or> (\<exists>r. body = Inr (r, db'))"
  by (auto simp: run_tx_def split: sum.splits prod.splits)

text \<open>The calls of the repository, with their arguments; \<open>exec_call\<close> runs one.\<close>

datatype repo_call =
    Call_insert_planned uuid new_operation datetime uuid
  | Call_transition uuid uuid operation_state json datetime uuid
  | Call_claim_execution uuid uuid datetime uuid
  | Call_decide_approval approval_command uuid uuid
  | Call_append_progress uuid uuid json datetime uuid
  | Call_recover uuid "nat \<Rightarrow> datetime" "nat \<Rightarrow> uuid"

fun exec_call :: "env \<Rightarrow> repo_call \<Rightarrow> ledger \<Rightarrow> ledger" where
  "exec_call E (Call_insert_planned rt n now ev) db = snd (insert_planned E rt n now ev db)"
| "exec_call E (Call_transition op rt target details now ev) db =
     snd (transition E op rt target details now ev db)"
| "exec_call E (Call_claim_execution op rt now ev) db = snd (claim_execution E op rt now ev db)"
| "exec_call E (Call_decide_approval c aid ev) db = snd (decide_approval E c aid ev db)"
| "exec_call E (Call_append_progress op rt details now ev) db =
     snd (append_progress E op rt details now ev db)"
| "exec_call E (Call_recover rt clock ids) db = snd (recover_previous_runtimes E rt clock ids db)"

text \<open>
  The side conditions on a call: event details that the JSON text carries faithfully, and
  clock readings and deadlines within the years of RFC 3339.
\<close>

definition expiry_in_range :: "datetime option \<Rightarrow> bool" where
  "expiry_in_range x = (case x of None \<Rightarrow> True | Some t \<Rightarrow> rfc3339_range t)"

fun call_ok :: "repo_call \<Rightarrow> bool" where
  "call_ok (Call_insert_planned rt n now ev) =
     (rfc3339_range now \<and> expiry_in_range (n_expires_at n))"
| "call_ok (Call_transition op rt target details now ev) = (json_plain details \<and> rfc3339_range now)"
| "call_ok (Call_claim_execution op rt now ev) = rfc3339_range now"
| "call_ok (Call_decide_approval c aid ev) = rfc3339_range (c_now c)"
| "call_ok (Call_append_progress op rt details now ev) = (json_plain details \<and> rfc3339_range now)"
| "call_ok (Call_recover rt clock ids) = (\<forall>i. rfc3339_range (clock i))"

lemma json_plain_details [simp]:
  "json_plain (reason_details r)" "json_plain (claim_details cur)" "json_plain (planned_details p)"
  "json_plain (approval_details E cur c aid)"
  by (simp_all add: json_plain_def reason_details_def claim_details_def planned_details_def
      approval_details_def)

lemma fetch_row:
  assumes "rows_ok E db" "fetch_operation_tx E u db = Inr cur"
  obtains row where "row \<in> set (db_operations db)" "row_to_operation E row = Inr cur"
    "r_id row = uuid_to_string E (o_id cur)" "r_id row = uuid_to_string E u"
proof -
  obtain row where row: "find_operation_row E u db = Some row" "row_to_operation E row = Inr cur"
    using assms(2) by (auto simp: fetch_operation_tx_Inr)
  then show thesis
    using that rows_ok_find [OF assms(1) row] find_operation_row_Some [OF row(1)] by blast
qed

lemma insert_planned_steps:
  assumes "rows_ok E db" "env_ok E" "rfc3339_range now" and expiry: "expiry_in_range (n_expires_at n)"
    and "db' = snd (insert_planned E rt n now ev db)"
  shows "(ledger_step E)\<^sup>*\<^sup>* db db'"
proof (cases "db' = db")
  case False
  then obtain p db1 rec er where
    prep: "prepare_operation E rt n = Inr p" and
    ins: "insert_operation_row E (operation_row_of E p now) db = Inr db1" and
    app: "append_event_tx E (n_id n) Ev_Planned Planned (planned_details p) now ev db1 = Inr (er, db')" and
    fetch: "fetch_operation_tx E (n_id n) db' = Inr rec"
    using assms(5) unfolding insert_planned_def
    by (auto simp: run_tx_def rbind_eq_Inr split: sum.splits prod.splits option.splits if_splits)
  let ?row = "operation_row_of E p now"
  have n: "p_operation p = n"
    using prep by (auto simp: prepare_operation_def rbind_eq_Inr Let_def)
  note spec = append_event_tx_Inr [OF app]
  have ops: "db_operations db' = db_operations db @ [?row]"
    using ins spec(1) by (auto simp: insert_operation_row_Inr)
  have id: "r_id ?row = uuid_to_string E (n_id n)"
    by (simp add: operation_row_of_def Let_def n)
  have "find_operation_row E (n_id n) db' = Some ?row"
    using ins assms(1) id ops
    by (intro find_operation_row_distinct) (auto simp: rows_ok_def insert_operation_row_Inr)
  with fetch have parse: "row_to_operation E ?row = Inr rec"
    by (simp add: fetch_operation_tx_Inr)
  have oid: "o_id rec = n_id n"
    using row_to_operation_fields(1) [OF parse] assms(2) id by simp
  have "r_state ?row = state_str Planned" by (simp add: operation_row_of_def Let_def)
  then have planned: "o_state rec = Planned"
    using row_to_operation_state [OF parse] state_codec.to_text_inject by metis
  have deadline: "row_expiry_ok E ?row"
    using expiry
    by (cases "n_expires_at n")
      (auto simp: row_expiry_ok_def operation_row_of_def Let_def n expiry_in_range_def)
  have "ledger_step E db db'"
    unfolding spec(1)
    by (rule ledger_step.plan [OF ins parse _ planned deadline _ assms(3) _ spec(2),
          of "planned_details p" ev])
      (use oid id in simp_all)
  then show ?thesis by simp
qed simp

lemma fetched_transition_step:
  assumes "rows_ok E db" "fetch_operation_tx E op db = Inr cur"
    and "transition_tx E cur target details now ev db = Inr (upd, db')"
    and "target = Executing \<Longrightarrow> claimable E cur now db"
    and "json_plain details" "rfc3339_range now"
  shows "(ledger_step E)\<^sup>*\<^sup>* db db'"
proof -
  obtain row where "row \<in> set (db_operations db)" "row_to_operation E row = Inr cur"
    using fetch_row [OF assms(1,2)] by blast
  then show ?thesis
    using transition_tx_step [OF assms(3,1) _ _ assms(4,5,6)] by blast
qed

lemma transition_steps:
  assumes "rows_ok E db" "json_plain details" "rfc3339_range now"
    and "db' = snd (transition E op rt target details now ev db)"
  shows "(ledger_step E)\<^sup>*\<^sup>* db db'"
proof (cases "db' = db")
  case False
  then obtain cur upd where
    "target \<noteq> Executing" and fetch: "fetch_operation_tx E op db = Inr cur" and
    tx: "transition_tx E cur target details now ev db = Inr (upd, db')"
    using assms(4) unfolding transition_def
    by (auto simp: run_tx_def rbind_eq_Inr split: sum.splits prod.splits if_splits)
  then show ?thesis using fetched_transition_step [OF assms(1) fetch tx _ assms(2,3)] by simp
qed simp

lemma claim_execution_steps:
  assumes "rows_ok E db" "rfc3339_range now"
    and "db' = snd (claim_execution E op rt now ev db)"
  shows "(ledger_step E)\<^sup>*\<^sup>* db db'"
proof (cases "db' = db")
  case False
  then obtain r where "rbind (fetch_operation_tx E op db) (\<lambda>current.
      rbind (ensure_runtime current rt) (\<lambda>_.
      rbind (guard (o_state current \<notin> {Ready, Approved}) err_not_executable) (\<lambda>_.
      rbind (guard (o_state current = Ready \<and> may_mutate_target (o_kind current))
              err_needs_approval) (\<lambda>_.
      if expired_at (o_expires_at current) now
      then rbind (transition_tx E current Expired (reason_details ''operation_expired'') now ev db)
             (\<lambda>(_, db'). Inr (Inl err_expired, db'))
      else
        rbind (guard (o_state current = Approved \<and> \<not> has_exact_approval E current now db)
                err_no_exact_approval) (\<lambda>_.
        rbind (transition_tx E current Executing (claim_details current) now ev db)
          (\<lambda>(updated, db'). Inr (Inr updated, db'))))))) = Inr (r, db')"
    using run_tx_ledger [OF assms(3) [symmetric, unfolded claim_execution_def]] by auto
  then consider
    (expired) cur u where "fetch_operation_tx E op db = Inr cur"
      "transition_tx E cur Expired (reason_details ''operation_expired'') now ev db = Inr (u, db')"
  | (claimed) cur u where "fetch_operation_tx E op db = Inr cur" "claimable E cur now db"
      "transition_tx E cur Executing (claim_details cur) now ev db = Inr (u, db')"
    by (auto simp: rbind_eq_Inr claimable_def split: prod.splits if_splits)
  then show ?thesis
  proof cases
    case expired
    then show ?thesis using fetched_transition_step [OF assms(1) expired _ _ assms(2)] by simp
  next
    case claimed
    then show ?thesis
      using fetched_transition_step [OF assms(1) claimed(1,3) _ _ assms(2)] by simp
  qed
qed simp

lemma append_progress_steps:
  assumes "rows_ok E db" "env_ok E" "json_plain details" "rfc3339_range now"
    and "db' = snd (append_progress E op rt details now ev db)"
  shows "(ledger_step E)\<^sup>*\<^sup>* db db'"
proof (cases "db' = db")
  case False
  then obtain cur e where
    fetch: "fetch_operation_tx E op db = Inr cur" and ex: "o_state cur = Executing" and
    app: "append_event_tx E op Ev_Progress (o_state cur) details now ev db = Inr (e, db')"
    using assms(5) unfolding append_progress_def
    by (auto simp: run_tx_def rbind_eq_Inr split: sum.splits prod.splits if_splits)
  obtain row where row: "row \<in> set (db_operations db)" "row_to_operation E row = Inr cur"
    and id: "r_id row = uuid_to_string E (o_id cur)" "r_id row = uuid_to_string E op"
    using fetch_row [OF assms(1) fetch] by blast
  have op: "op = o_id cur" using id assms(2) by simp
  note spec = append_event_tx_Inr [OF app [unfolded ex op]]
  show ?thesis
    unfolding spec(1)
    by (rule r_into_rtranclp) (rule ledger_step.progress [OF row ex assms(3,4) refl spec(2)])
qed simp

lemma decide_approval_steps:
  assumes "rows_ok E db" "env_ok E" "rfc3339_range (c_now c)"
    and "db' = snd (decide_approval E c aid ev db)"
  shows "(ledger_step E)\<^sup>*\<^sup>* db db'"
proof (cases "db' = db")
  case False
  have who: "\<not> (approver_kind (c_approver c) \<notin> {LocalUser, WorkspaceUser} \<or>
        blank (approver_id (c_approver c)))" (is "\<not> ?who")
  proof
    assume w: ?who
    show False using False assms(4) unfolding decide_approval_def if_P [OF w] snd_conv by contradiction
  qed
  have why: "\<not> (case c_reason c of None \<Rightarrow> False | Some r \<Rightarrow> max_request_bytes < length r)"
    (is "\<not> ?why")
  proof
    assume w: ?why
    show False
      using False assms(4) unfolding decide_approval_def if_not_P [OF who] if_P [OF w] snd_conv
      by contradiction
  qed
  have guards: "approver_kind (c_approver c) \<in> {LocalUser, WorkspaceUser}"
      "\<not> blank (approver_id (c_approver c))"
      "case c_reason c of None \<Rightarrow> True | Some r \<Rightarrow> length r \<le> max_request_bytes"
    using who why by (auto split: option.splits)
  note committed = assms(4) [unfolded decide_approval_def if_not_P [OF who] if_not_P [OF why],
      symmetric]
  obtain r where "rbind (fetch_operation_tx E (c_operation_id c) db) (\<lambda>current.
         rbind (ensure_runtime current (c_runtime_id c)) (\<lambda>_.
         rbind (guard (o_state current \<noteq> PendingApproval) err_not_pending) (\<lambda>_.
         rbind (guard (o_payload_hash current \<noteq> c_expected_payload_hash c) err_hash_mismatch) (\<lambda>_.
         rbind (guard (o_policy_revision current \<noteq> c_current_policy_revision c)
                 err_policy_changed) (\<lambda>_.
         if expired_at (o_expires_at current) (c_now c)
         then rbind (transition_tx E current Expired (reason_details ''approval_expired'')
                       (c_now c) ev db) (\<lambda>(_, db'). Inr (Inl err_expired, db'))
         else
           rbind (insert_approval_row (approval_row_of E current c aid) db) (\<lambda>db1.
           rbind (transition_tx E current (decision_state (c_decision c))
                    (approval_details E current c aid) (c_now c) ev db1)
             (\<lambda>(updated, db2). Inr (Inr updated, db2)))))))) = Inr (r, db')"
    using run_tx_ledger [OF committed] False by blast
  then consider
    (expired) cur u where "fetch_operation_tx E (c_operation_id c) db = Inr cur"
      "transition_tx E cur Expired (reason_details ''approval_expired'') (c_now c) ev db
         = Inr (u, db')"
  | (decided) cur db1 u where "fetch_operation_tx E (c_operation_id c) db = Inr cur"
      "decidable_by cur c" "insert_approval_row (approval_row_of E cur c aid) db = Inr db1"
      "transition_tx E cur (decision_state (c_decision c)) (approval_details E cur c aid) (c_now c)
         ev db1 = Inr (u, db')"
    using guards
    by (auto simp: rbind_eq_Inr decidable_by_def ensure_runtime_def split: prod.splits if_splits)
  then show ?thesis
  proof cases
    case expired
    then show ?thesis using fetched_transition_step [OF assms(1) expired _ _ assms(3)] by simp
  next
    case decided
    obtain row where row: "row \<in> set (db_operations db)" "row_to_operation E row = Inr cur"
      using fetch_row [OF assms(1) decided(1)] by blast
    have step: "ledger_step E db db1" by (rule ledger_step.approve [OF row decided(2,3)])
    have ok: "rows_ok E db1" by (rule ledger_step_rows_ok [OF step assms(1,2)])
    have "row \<in> set (db_operations db1)" using decided(3) row(1) by (auto simp: insert_approval_row_Inr)
    then have "ledger_step E db1 db'"
      using transition_tx_step [OF decided(4) ok _ row(2) _ _ assms(3)]
      by (cases "c_decision c") simp_all
    with step show ?thesis by (meson converse_rtranclp_into_rtranclp r_into_rtranclp)
  qed
qed simp

subsection \<open>The recovery loop\<close>

text \<open>The state that recovery moves an operation to, if it moves it.\<close>

fun recovery_target :: "restart_recovery_action \<Rightarrow> operation_state option" where
  "recovery_target KeepTerminal = None"
| "recovery_target Expire = Some Expired"
| "recovery_target MarkFailed = Some Failed"
| "recovery_target MarkOutcomeUnknown = Some OutcomeUnknown"
| "recovery_target ValidateJobCheckpoint = None"

lemma recover_row_Inr:
  assumes "recover_row E row now ev (rep, db) = Inr (rep', db')"
  obtains rec where "row_to_operation E row = Inr rec"
    and "recovery_target (restart_recovery (o_kind rec) (o_state rec)) = None \<Longrightarrow> db' = db"
    and "\<And>t. recovery_target (restart_recovery (o_kind rec) (o_state rec)) = Some t \<Longrightarrow>
       \<exists>reason u. transition_tx E rec t (reason_details reason) now ev db = Inr (u, db')"
proof -
  obtain rec where rec: "row_to_operation E row = Inr rec"
    using assms by (auto simp: recover_row_def rbind_eq_Inr)
  show thesis
  proof (cases "restart_recovery (o_kind rec) (o_state rec)")
    case KeepTerminal
    with assms rec have "db' = db" by (simp add: recover_row_def)
    then show thesis using that [OF rec] KeepTerminal by simp
  next
    case Expire
    with assms rec have "\<exists>reason u. transition_tx E rec Expired (reason_details reason) now ev db
        = Inr (u, db')"
      by (auto simp: recover_row_def rbind_eq_Inr)
    then show thesis using that [OF rec] Expire by simp
  next
    case MarkFailed
    with assms rec have "\<exists>reason u. transition_tx E rec Failed (reason_details reason) now ev db
        = Inr (u, db')"
      by (auto simp: recover_row_def rbind_eq_Inr)
    then show thesis using that [OF rec] MarkFailed by simp
  next
    case MarkOutcomeUnknown
    with assms rec have "\<exists>reason u. transition_tx E rec OutcomeUnknown (reason_details reason) now ev db
        = Inr (u, db')"
      by (auto simp: recover_row_def rbind_eq_Inr)
    then show thesis using that [OF rec] MarkOutcomeUnknown by simp
  next
    case ValidateJobCheckpoint
    with assms rec have "db' = db" by (simp add: recover_row_def)
    then show thesis using that [OF rec] ValidateJobCheckpoint by simp
  qed
qed

lemma recovery_target_not_executing:
  "recovery_target a \<noteq> Some Executing"
  by (cases a) simp_all

text \<open>One turn is at most one step, and leaves the other rows as they were.\<close>

lemma recover_row_step:
  assumes "recover_row E row now ev (rep, db) = Inr (rep', db')"
    and ok: "rows_ok E db" and row: "row \<in> set (db_operations db)" and now: "rfc3339_range now"
  shows "(ledger_step E)\<^sup>*\<^sup>* db db'"
    and "\<And>r. r \<in> set (db_operations db) \<Longrightarrow> r_id r \<noteq> r_id row \<Longrightarrow> r \<in> set (db_operations db')"
proof -
  obtain rec where rec: "row_to_operation E row = Inr rec"
    and none: "recovery_target (restart_recovery (o_kind rec) (o_state rec)) = None \<Longrightarrow> db' = db"
    and some: "\<And>t. recovery_target (restart_recovery (o_kind rec) (o_state rec)) = Some t \<Longrightarrow>
       \<exists>reason u. transition_tx E rec t (reason_details reason) now ev db = Inr (u, db')"
    using recover_row_Inr [OF assms(1)] by blast
  have id: "r_id row = uuid_to_string E (o_id rec)"
    using ok row rec unfolding rows_ok_def by fastforce
  have dist: "distinct (map r_id (db_operations db))" using ok by (simp add: rows_ok_def)
  let ?g = "(ledger_step E)\<^sup>*\<^sup>* db db' \<and>
    (\<forall>r \<in> set (db_operations db). r_id r \<noteq> r_id row \<longrightarrow> r \<in> set (db_operations db'))"
  have ?g
  proof (cases "recovery_target (restart_recovery (o_kind rec) (o_state rec))")
    case None
    then show ?thesis using none by simp
  next
    case (Some t)
    then obtain reason u where
      tx: "transition_tx E rec t (reason_details reason) now ev db = Inr (u, db')"
      using some by blast
    have "t \<noteq> Executing" using Some recovery_target_not_executing by metis
    then have "ledger_step E db db'"
      using transition_tx_step [OF tx ok row rec _ _ now] by simp
    moreover have "\<forall>r \<in> set (db_operations db). r_id r \<noteq> r_id row \<longrightarrow> r \<in> set (db_operations db')"
      using transition_tx_Inr(4) [OF tx dist row rec id] by auto
    ultimately show ?thesis by blast
  qed
  then show "(ledger_step E)\<^sup>*\<^sup>* db db'"
    and "\<And>r. r \<in> set (db_operations db) \<Longrightarrow> r_id r \<noteq> r_id row \<Longrightarrow> r \<in> set (db_operations db')"
    by blast+
qed

lemma recover_rows_steps:
  assumes "recover_rows E clock ids i rows (rep, db) = Inr (rep', db')"
    and "rows_ok E db" "env_ok E" "\<And>i. rfc3339_range (clock i)"
    and "set rows \<subseteq> set (db_operations db)" "distinct (map r_id rows)"
  shows "(ledger_step E)\<^sup>*\<^sup>* db db'"
  using assms
proof (induction rows arbitrary: i rep db)
  case (Cons row rows)
  obtain rep1 db1 where
    turn: "recover_row E row (clock i) (ids i) (rep, db) = Inr (rep1, db1)" and
    rest: "recover_rows E clock ids (Suc i) rows (rep1, db1) = Inr (rep', db')"
    using Cons.prems(1) by (auto simp: rbind_eq_Inr)
  have mem: "row \<in> set (db_operations db)" using Cons.prems(5) by simp
  note step = recover_row_step [OF turn Cons.prems(2) mem Cons.prems(4)]
  have "rows_ok E db1" by (rule ledger_steps_rows_ok [OF step(1) Cons.prems(2,3)])
  moreover have "set rows \<subseteq> set (db_operations db1)"
  proof
    fix r assume r: "r \<in> set rows"
    then have "r_id r \<noteq> r_id row"
      using Cons.prems(6) imageI [OF r, of r_id] by (cases "r_id r = r_id row") simp_all
    then show "r \<in> set (db_operations db1)" using step(2) Cons.prems(5) r by auto
  qed
  ultimately have "(ledger_step E)\<^sup>*\<^sup>* db1 db'"
    using Cons.IH [OF rest _ Cons.prems(3,4)] Cons.prems(6) by simp
  with step(1) show ?case by (rule rtranclp_trans)
qed simp

lemma recoverable_rows_set:
  "set (recoverable_rows E rt db) = {r \<in> set (db_operations db).
     r_runtime_id r \<noteq> uuid_to_string E rt \<and>
     r_state r \<notin> {''rejected'', ''expired'', ''cancelled'', ''succeeded'', ''failed'', ''outcome_unknown''}}"
  by (auto simp: recoverable_rows_def)

lemma recoverable_rows_distinct:
  assumes "rows_ok E db"
  shows "distinct (map r_id (recoverable_rows E rt db))"
proof -
  have "distinct (map r_id (filter P (db_operations db)))" for P
    using assms by (simp add: rows_ok_def distinct_map_filter)
  then have "distinct (filter P (db_operations db)) \<and> inj_on r_id (set (filter P (db_operations db)))" for P
    unfolding distinct_map by blast
  then show ?thesis
    unfolding distinct_map recoverable_rows_def by simp
qed

lemma recover_steps:
  assumes "rows_ok E db" "env_ok E" "\<And>i. rfc3339_range (clock i)"
    and "db' = snd (recover_previous_runtimes E rt clock ids db)"
  shows "(ledger_step E)\<^sup>*\<^sup>* db db'"
proof (cases "db' = db")
  case False
  then obtain rep where
    "recover_rows E clock ids 0 (recoverable_rows E rt db) (empty_report, db) = Inr (rep, db')"
    using assms(4) unfolding recover_previous_runtimes_def
    by (auto simp: run_tx_def rbind_eq_Inr split: sum.splits prod.splits)
  then show ?thesis
    using recover_rows_steps assms(1,2,3) recoverable_rows_set recoverable_rows_distinct
    by (metis (no_types, lifting) mem_Collect_eq subsetI)
qed simp

text \<open>Every call of the repository refines to the steps.\<close>

lemma exec_call_steps:
  assumes "rows_ok E db" "env_ok E" "call_ok call"
  shows "(ledger_step E)\<^sup>*\<^sup>* db (exec_call E call db)"
proof (cases call)
  case (Call_insert_planned rt n now ev)
  then show ?thesis using assms insert_planned_steps by simp
next
  case (Call_transition op rt target details now ev)
  then show ?thesis using assms transition_steps [OF assms(1)] by simp
next
  case (Call_claim_execution op rt now ev)
  then show ?thesis using assms claim_execution_steps by simp
next
  case (Call_decide_approval c aid ev)
  then show ?thesis using assms decide_approval_steps by simp
next
  case (Call_append_progress op rt details now ev)
  then show ?thesis using assms append_progress_steps [OF assms(1,2)] by simp
next
  case (Call_recover rt clock ids)
  then show ?thesis using assms recover_steps [OF assms(1,2)] by simp
qed

end
