(* ===== verification/Ledger_Invariant.thy ===== *)
theory Ledger_Invariant
  imports Ledger_Steps
begin

text \<open>
  The invariant of the operation ledger, proved over the four rules of \<open>ledger_step\<close> and
  carried to every sequence of repository calls. \<open>history\<close> is the abstract specification of
  the event log of one operation: numbered from one, chained by the hash of the previous
  event, each hash recomputed from its own fields, and moving along the transition table.
\<close>

section \<open>The abstract history of an operation\<close>

definition event_sealed :: "env \<Rightarrow> uuid \<Rightarrow> event_record list \<Rightarrow> event_record \<Rightarrow> bool" where
  "event_sealed E u evs e \<longleftrightarrow>
     ev_operation_id e = u \<and>
     ev_sequence e = int (length evs) + 1 \<and>
     ev_prev_hash e = (if evs = [] then None else Some (ev_hash (last evs))) \<and>
     ev_hash e = event_hash_of E e"

inductive history :: "env \<Rightarrow> uuid \<Rightarrow> event_record list \<Rightarrow> operation_state \<Rightarrow> bool"
  for E u where
  first: "\<lbrakk>event_sealed E u [] e; ev_kind e = Ev_Planned; ev_state e = Planned\<rbrakk>
    \<Longrightarrow> history E u [e] Planned"
| moved: "\<lbrakk>history E u evs s; transition_allowed s t; event_sealed E u evs e;
    ev_kind e = transition_event_kind t; ev_state e = t\<rbrakk> \<Longrightarrow> history E u (evs @ [e]) t"
| progressed: "\<lbrakk>history E u evs Executing; event_sealed E u evs e;
    ev_kind e = Ev_Progress; ev_state e = Executing\<rbrakk> \<Longrightarrow> history E u (evs @ [e]) Executing"

inductive_cases history_snocE: "history E u (evs @ [e]) s"

lemma history_last:
  "history E u evs s \<Longrightarrow> evs \<noteq> [] \<and> ev_state (last evs) = s"
  by (induction rule: history.induct) simp_all

lemma history_sequences:
  "history E u evs s \<Longrightarrow> map ev_sequence evs = map (\<lambda>i. int i + 1) [0..<length evs]"
  by (induction rule: history.induct) (simp_all add: event_sealed_def)

lemma history_first:
  "history E u evs s \<Longrightarrow> ev_kind (hd evs) = Ev_Planned \<and> ev_state (hd evs) = Planned"
  by (induction rule: history.induct) (auto dest: history_last simp: hd_append)

text \<open>Only a state the table reaches after a start has seen the start.\<close>

lemma history_started:
  "history E u evs s \<Longrightarrow> s \<in> {Executing, Succeeded, Failed, OutcomeUnknown} \<Longrightarrow>
     Ev_ExecutionStarted \<in> ev_kind ` set evs"
proof (induction rule: history.induct)
  case (moved evs s t e)
  show ?case
  proof (cases "t = Executing")
    case False
    then have "s = Executing" using moved by (cases s) (auto simp: transition_allowed_def)
    then show ?thesis using moved.IH by simp
  qed (simp add: moved)
qed simp_all

text \<open>Before the start no event is a start; after it, the state stays past it.\<close>

lemma history_not_started:
  "history E u evs s \<Longrightarrow> s \<in> {Planned, PendingApproval, Ready, Approved} \<Longrightarrow>
     filter (\<lambda>e. ev_kind e = Ev_ExecutionStarted) evs = []"
proof (induction rule: history.induct)
  case (moved evs s t e)
  then have "s \<in> {Planned, PendingApproval, Ready, Approved}" "t \<noteq> Executing"
    by (auto simp: transition_allowed_def split: operation_state.splits)
  then show ?case using moved by (cases t) auto
qed simp_all

lemma history_one_start:
  "history E u evs s \<Longrightarrow> length (filter (\<lambda>e. ev_kind e = Ev_ExecutionStarted) evs) \<le> 1"
proof (induction rule: history.induct)
  case (moved evs s t e)
  show ?case
  proof (cases "t = Executing")
    case True
    then have "s \<in> {Planned, PendingApproval, Ready, Approved}"
      using moved(2) by (auto simp: transition_to_Executing)
    then have "filter (\<lambda>e. ev_kind e = Ev_ExecutionStarted) evs = []"
      by (rule history_not_started [OF moved(1)])
    then show ?thesis by simp
  next
    case False
    then have "ev_kind e \<noteq> Ev_ExecutionStarted" using moved(4) by (cases t) simp_all
    then show ?thesis using moved.IH by simp
  qed
qed simp_all

text \<open>A history passes the check the code runs over it.\<close>

lemma verify_events_append:
  "verify_events E i p (xs @ ys) \<longleftrightarrow> verify_events E i p xs \<and>
     verify_events E (i + length xs) (if xs = [] then p else Some (ev_hash (last xs))) ys"
  by (induction xs arbitrary: i p) auto

lemma history_verifies: "history E u evs s \<Longrightarrow> verify_events E 0 None evs"
proof (induction rule: history.induct)
  case (first e)
  then show ?case by (simp add: event_sealed_def)
next
  case (moved evs s t e)
  then show ?case
    using history_last [OF moved(1)] by (auto simp: verify_events_append event_sealed_def)
next
  case (progressed evs e)
  then show ?case
    using history_last [OF progressed(1)] by (auto simp: verify_events_append event_sealed_def)
qed

section \<open>Stored event rows\<close>

text \<open>The rows of an operation read back as \<open>evs\<close>.\<close>

abbreviation reads :: "env \<Rightarrow> event_row list \<Rightarrow> event_record list \<Rightarrow> bool" where
  "reads E rows evs \<equiv> list_all2 (\<lambda>row e. row_to_event E row = Inr e) rows evs"

lemma row_to_event_columns:
  "row_to_event E row = Inr e \<Longrightarrow> ev_sequence e = er_sequence row \<and> ev_hash e = er_hash row \<and>
     ev_prev_hash e = er_prev_hash row \<and> er_event_kind row = event_kind_str (ev_kind e) \<and>
     er_state row = state_str (ev_state e)"
  unfolding row_to_event_def
  by (auto simp: rbind_eq_Inr event_codec.to_of state_codec.to_of)

lemma reads_columns:
  assumes "reads E rows evs"
  shows "map er_sequence rows = map ev_sequence evs" "map er_hash rows = map ev_hash evs"
    "map er_event_kind rows = map (event_kind_str \<circ> ev_kind) evs"
    "map er_state rows = map (state_str \<circ> ev_state) evs"
  using assms by (induction rule: list_all2_induct) (auto dest: row_to_event_columns)

lemma reads_last:
  assumes "reads E rows evs" "evs \<noteq> []"
  shows "rows \<noteq> []" "row_to_event E (last rows) = Inr (last evs)"
proof -
  have len: "length rows = length evs" using assms(1) by (rule list_all2_lengthD)
  then show ne: "rows \<noteq> []" using assms(2) by auto
  show "row_to_event E (last rows) = Inr (last evs)"
    using list_all2_nthD2 [OF assms(1), of "length evs - 1"] len ne assms(2)
    by (simp add: last_conv_nth)
qed

lemma reads_sorted:
  assumes "reads E rows evs" "history E u evs s"
  shows "sort_key er_sequence rows = rows"
proof -
  have "sorted (map er_sequence rows)"
    unfolding reads_columns(1) [OF assms(1)] history_sequences [OF assms(2)]
    by (simp add: sorted_iff_nth_mono)
  then show ?thesis by (simp add: sort_key_id_if_sorted)
qed

lemma next_event:
  assumes "reads E (op_events db opid) evs" "history E u evs s"
  shows "next_sequence db opid = int (length evs) + 1"
    and "next_prev_hash db opid = Some (ev_hash (last evs))"
proof -
  have ne: "evs \<noteq> []" using history_last [OF assms(2)] by simp
  note last = reads_last [OF assms(1) ne]
  have tail: "tail_event db opid = Some (last (op_events db opid))"
    using reads_sorted [OF assms] last(1)
    by (cases "op_events db opid" rule: rev_cases) (simp_all add: tail_event_def)
  have "ev_sequence (last evs) = int (length evs)"
    using arg_cong [OF history_sequences [OF assms(2)], of last] ne
    by (simp add: last_map of_nat_diff Suc_le_eq)
  then show "next_sequence db opid = int (length evs) + 1"
    and "next_prev_hash db opid = Some (ev_hash (last evs))"
    using tail row_to_event_columns [OF last(2)]
    by (simp_all add: next_sequence_def next_prev_hash_def)
qed

lemma no_event:
  assumes "op_events db opid = []"
  shows "next_sequence db opid = 1" "next_prev_hash db opid = None"
  using assms by (simp_all add: next_sequence_def next_prev_hash_def tail_event_def)

text \<open>The event a new row reads back as.\<close>

definition new_event ::
  "env \<Rightarrow> uuid \<Rightarrow> event_kind \<Rightarrow> operation_state \<Rightarrow> json \<Rightarrow> datetime \<Rightarrow> uuid \<Rightarrow> ledger \<Rightarrow> event_record" where
  "new_event E u k s details now evid db =
     (let row = new_event_row E u k s details now evid db in
      \<lparr>ev_id = evid, ev_operation_id = u, ev_sequence = er_sequence row, ev_kind = k,
       ev_state = s, ev_details = canonical_value details, ev_created_at = now,
       ev_prev_hash = er_prev_hash row, ev_hash = er_hash row\<rparr>)"

lemma new_event_fields [simp]:
  "ev_kind (new_event E u k s details now evid db) = k"
  "ev_state (new_event E u k s details now evid db) = s"
  "ev_operation_id (new_event E u k s details now evid db) = u"
  by (simp_all add: new_event_def Let_def)

lemma new_event_row_operation [simp]:
  "er_operation_id (new_event_row E u k s details now evid db) = uuid_to_string E u"
  by (simp add: new_event_row_def Let_def)

lemma new_event_row_reads:
  assumes "env_ok E" "json_plain details" "rfc3339_range now"
  shows "row_to_event E (new_event_row E u k s details now evid db)
    = Inr (new_event E u k s details now evid db)"
proof -
  have "parse_canonical_json E (canonical_json E details) = Inr (canonical_value details)"
    using assms by (simp add: parse_canonical_json_Inr canonical_json_eq)
  then show ?thesis
    using assms
    by (simp add: row_to_event_def new_event_row_def new_event_def Let_def parse_uuid_def
        parse_timestamp_def event_codec.of_to state_codec.of_to)
qed

lemma new_event_hash:
  "ev_hash (new_event E u k s details now evid db)
     = event_hash_of E (new_event E u k s details now evid db)"
  by (simp add: new_event_def new_event_row_def event_hash_of_def Let_def canonical_json_eq)

lemma new_event_sealed:
  assumes "reads E (op_events db (uuid_to_string E u)) evs" "history E u evs s'"
  shows "event_sealed E u evs (new_event E u k s details now evid db)"
proof -
  have "evs \<noteq> []" using history_last [OF assms(2)] by simp
  then show ?thesis
    using next_event [OF assms] new_event_hash
    by (simp add: event_sealed_def) (simp add: new_event_def new_event_row_def Let_def)
qed

lemma new_event_sealed_first:
  assumes "op_events db (uuid_to_string E u) = []"
  shows "event_sealed E u [] (new_event E u k s details now evid db)"
  using no_event [OF assms] new_event_hash
  by (simp add: event_sealed_def) (simp add: new_event_def new_event_row_def Let_def)

section \<open>The invariant\<close>

text \<open>A human decision recorded for exactly this payload under exactly this policy.\<close>

definition approved_by_user :: "ledger \<Rightarrow> operation_row \<Rightarrow> bool" where
  "approved_by_user db row \<longleftrightarrow>
     list_ex (\<lambda>a. ar_operation_id a = r_id row \<and> ar_payload_hash a = r_payload_hash row \<and>
        ar_policy_revision a = r_policy_revision row \<and> ar_decision a = ''approved'' \<and>
        ar_approver_kind a \<in> {''local_user'', ''workspace_user''} \<and> \<not> blank (ar_approver_id a))
       (db_approvals db)"

definition approvals_ok :: "ledger \<Rightarrow> bool" where
  "approvals_ok db \<longleftrightarrow>
     (\<forall>a \<in> set (db_approvals db).
        ar_approver_kind a \<in> {''local_user'', ''workspace_user''} \<and> \<not> blank (ar_approver_id a))"

definition events_owned :: "ledger \<Rightarrow> bool" where
  "events_owned db \<longleftrightarrow> (\<forall>e \<in> set (db_events db). er_operation_id e \<in> r_id ` set (db_operations db))"

definition rows_checked :: "env \<Rightarrow> ledger \<Rightarrow> bool" where
  "rows_checked E db \<longleftrightarrow>
     (\<forall>row \<in> set (db_operations db). operation_row_checks E row \<and> row_expiry_ok E row)"

definition operation_ok :: "env \<Rightarrow> ledger \<Rightarrow> operation_row \<Rightarrow> bool" where
  "operation_ok E db row \<longleftrightarrow>
     (\<forall>rec. row_to_operation E row = Inr rec \<longrightarrow>
       (\<exists>evs. reads E (op_events db (r_id row)) evs \<and> history E (o_id rec) evs (o_state rec) \<and>
          (may_mutate_target (o_kind rec) \<and> Ev_ExecutionStarted \<in> ev_kind ` set evs \<longrightarrow>
             approved_by_user db row)))"

definition ledger_ok :: "env \<Rightarrow> ledger \<Rightarrow> bool" where
  "ledger_ok E db \<longleftrightarrow> rows_ok E db \<and> rows_checked E db \<and> events_owned db \<and> approvals_ok db \<and>
     (\<forall>row \<in> set (db_operations db). operation_ok E db row)"

lemma ledger_ok_empty: "ledger_ok E empty_ledger"
  by (simp add: ledger_ok_def rows_ok_def rows_checked_def events_owned_def approvals_ok_def
      empty_ledger_def)

lemma op_events_add [simp]:
  "op_events (add_event e db) i = op_events db i @ (if er_operation_id e = i then [e] else [])"
  by (simp add: op_events_def)

lemma op_events_update [simp]:
  "op_events (db\<lparr>db_operations := os\<rparr>) i = op_events db i"
  "op_events (db\<lparr>db_approvals := as\<rparr>) i = op_events db i"
  by (simp_all add: op_events_def)

lemma op_events_unowned:
  assumes "events_owned db" "i \<notin> r_id ` set (db_operations db)"
  shows "op_events db i = []"
proof -
  have "er_operation_id x \<noteq> i" if "x \<in> set (db_events db)" for x
    using assms that unfolding events_owned_def by metis
  then show ?thesis by (simp add: op_events_def filter_empty_conv)
qed

lemma approved_by_user_cong:
  "db_approvals db' = db_approvals db \<Longrightarrow> r_id row' = r_id row \<Longrightarrow>
   r_payload_hash row' = r_payload_hash row \<Longrightarrow> r_policy_revision row' = r_policy_revision row \<Longrightarrow>
   approved_by_user db' row' = approved_by_user db row"
  by (simp add: approved_by_user_def)

lemma operation_ok_cong:
  assumes "op_events db' (r_id row) = op_events db (r_id row)"
    and "set (db_approvals db) \<subseteq> set (db_approvals db')" "operation_ok E db row"
  shows "operation_ok E db' row"
proof -
  have "approved_by_user db row \<Longrightarrow> approved_by_user db' row"
    using assms(2) by (auto simp: approved_by_user_def list_ex_iff)
  then show ?thesis using assms(1,3) unfolding operation_ok_def by metis
qed

lemma events_owned_add:
  assumes "events_owned db" "event_insertable E e db"
  shows "events_owned (add_event e db)"
  using assms event_insertable_operation [OF assms(2)] by (auto simp: events_owned_def)

lemma row_unique:
  "rows_ok E db \<Longrightarrow> row \<in> set (db_operations db) \<Longrightarrow> r \<in> set (db_operations db) \<Longrightarrow>
   r_id r = r_id row \<Longrightarrow> r = row"
  by (auto simp: rows_ok_def distinct_map inj_on_def)

lemma set_row_set:
  assumes "rows_ok E db" "row \<in> set (db_operations db)"
  shows "set (db_operations (set_row row row' db)) = insert row' (set (db_operations db) - {row})"
  using row_unique [OF assms] assms(2) by auto

lemma rows_ok_id:
  "rows_ok E db \<Longrightarrow> row \<in> set (db_operations db) \<Longrightarrow> row_to_operation E row = Inr rec \<Longrightarrow>
   r_id row = uuid_to_string E (o_id rec)"
  unfolding rows_ok_def by fastforce

subsection \<open>Preservation, rule by rule\<close>

lemma plan_ok:
  assumes env: "env_ok E" and ok: "ledger_ok E db"
    and ins: "insert_operation_row E row db = Inr db1" and rec: "row_to_operation E row = Inr rec"
    and id: "r_id row = uuid_to_string E (o_id rec)" and st: "o_state rec = Planned"
    and deadline: "row_expiry_ok E row" and d: "json_plain details" "rfc3339_range now"
    and e: "e = new_event_row E (o_id rec) Ev_Planned Planned details now evid db1"
    and fits: "event_insertable E e db1"
  shows "ledger_ok E (add_event e db1)"
proof -
  let ?ev = "new_event E (o_id rec) Ev_Planned Planned details now evid db1"
  have db1: "db1 = db\<lparr>db_operations := db_operations db @ [row]\<rparr>"
    and fresh: "r_id row \<notin> r_id ` set (db_operations db)"
    using ins by (auto simp: insert_operation_row_Inr)
  have none: "op_events db1 (r_id row) = []"
    using op_events_unowned [OF _ fresh] ok by (simp add: ledger_ok_def db1)
  have step: "ledger_step E db (add_event e db1)"
    by (rule ledger_step.plan [OF ins rec id st deadline d e fits])
  have "operation_ok E (add_event e db1) row"
  proof -
    have "reads E (op_events (add_event e db1) (r_id row)) [?ev]"
      using none id new_event_row_reads [OF env d] by (simp add: e)
    moreover have "history E (o_id rec) [?ev] Planned"
      using new_event_sealed_first [of db1 E "o_id rec"] none id by (intro history.first) simp_all
    ultimately show ?thesis using rec st unfolding operation_ok_def by force
  qed
  moreover have "operation_ok E (add_event e db1) r" if "r \<in> set (db_operations db)" for r
  proof (rule operation_ok_cong [where db = db])
    show "op_events (add_event e db1) (r_id r) = op_events db (r_id r)"
      using that fresh id by (auto simp: db1 e image_iff op_events_def)
    show "operation_ok E db r" using ok that by (simp add: ledger_ok_def)
  qed (simp add: db1)
  moreover have "rows_ok E (add_event e db1)"
    using ledger_step_rows_ok [OF step _ env] ok by (simp add: ledger_ok_def)
  moreover have "events_owned (add_event e db1)"
    using ok fits by (intro events_owned_add) (auto simp: ledger_ok_def events_owned_def db1)
  moreover have "rows_checked E (add_event e db1)"
    using ok ins deadline by (auto simp: ledger_ok_def rows_checked_def db1 insert_operation_row_Inr)
  ultimately show ?thesis using ok by (auto simp: ledger_ok_def approvals_ok_def db1)
qed

lemma same_row_extended:
  assumes env: "env_ok E" and ok: "ledger_ok E db" and row: "row \<in> set (db_operations db)"
    and cur: "row_to_operation E row = Inr cur" and upd: "row_to_operation E row' = Inr upd"
    and same: "r_id row' = r_id row" "r_operation_kind row' = r_operation_kind row"
      "r_payload_hash row' = r_payload_hash row" "r_policy_revision row' = r_policy_revision row"
    and db': "db_events db' = db_events db" "db_approvals db' = db_approvals db"
    and d: "json_plain details" "rfc3339_range now"
    and e: "e = new_event_row E (o_id cur) k t details now evid db'"
    and t: "o_state upd = t"
    and grow: "\<And>evs ev. history E (o_id cur) evs (o_state cur) \<Longrightarrow>
       event_sealed E (o_id cur) evs ev \<Longrightarrow> ev_kind ev = k \<Longrightarrow> ev_state ev = t \<Longrightarrow>
       history E (o_id cur) (evs @ [ev]) t"
    and start: "k = Ev_ExecutionStarted \<Longrightarrow> may_mutate_target (o_kind cur) \<Longrightarrow> approved_by_user db row"
  shows "operation_ok E (add_event e db') row'"
proof -
  let ?ev = "new_event E (o_id cur) k t details now evid db'"
  have id: "r_id row = uuid_to_string E (o_id cur)"
    using rows_ok_id [OF _ row cur] ok by (simp add: ledger_ok_def)
  have evs': "op_events db' i = op_events db i" for i by (simp add: op_events_def db'(1))
  obtain evs where evs: "reads E (op_events db (r_id row)) evs" "history E (o_id cur) evs (o_state cur)"
    and appr: "may_mutate_target (o_kind cur) \<and> Ev_ExecutionStarted \<in> ev_kind ` set evs \<longrightarrow>
      approved_by_user db row"
    using ok row cur unfolding ledger_ok_def operation_ok_def by blast
  have "reads E (op_events (add_event e db') (r_id row')) (evs @ [?ev])"
    using evs(1) id same(1) new_event_row_reads [OF env d]
    by (simp add: e evs' list_all2_appendI)
  moreover have "event_sealed E (o_id cur) evs ?ev"
    using new_event_sealed [OF _ evs(2), of db'] evs(1) id by (simp add: evs')
  then have "history E (o_id cur) (evs @ [?ev]) t"
    by (intro grow [OF evs(2)]) simp_all
  moreover have "o_id upd = o_id cur" "o_kind upd = o_kind cur"
    using row_to_operation_fields(1,4) [OF upd] row_to_operation_fields(1,4) [OF cur] same(1,2)
    by simp_all
  moreover have "approved_by_user (add_event e db') row' = approved_by_user db row"
    using same db' by (intro approved_by_user_cong) simp_all
  moreover have "may_mutate_target (o_kind cur) \<and> Ev_ExecutionStarted \<in> ev_kind ` set (evs @ [?ev]) \<longrightarrow>
      approved_by_user db row"
    using appr start by auto
  ultimately show ?thesis using upd t unfolding operation_ok_def by (metis sum.inject(2))
qed

lemma claimable_approved:
  assumes "claimable E cur now db" "approvals_ok db" "may_mutate_target (o_kind cur)"
    and "row_to_operation E row = Inr cur" "r_id row = uuid_to_string E (o_id cur)"
  shows "approved_by_user db row"
proof -
  have "has_exact_approval E cur now db"
    using assms(1,3) by (auto simp: claimable_def)
  then show ?thesis
    using assms(2,5) row_to_operation_fields(5,6) [OF assms(4)]
    by (auto simp: has_exact_approval_def approved_by_user_def list_ex_iff approvals_ok_def)
qed

lemma advance_ok:
  assumes env: "env_ok E" and ok: "ledger_ok E db" and row: "row \<in> set (db_operations db)"
    and cur: "row_to_operation E row = Inr cur" and allowed: "transition_allowed (o_state cur) target"
    and claim: "target = Executing \<Longrightarrow> claimable E cur now db"
    and row': "row' = set_lifecycle target (to_rfc3339_nanos E now) row"
    and upd: "row_to_operation E row' = Inr upd" and checks: "operation_row_checks E row'"
    and d: "json_plain details" "rfc3339_range now"
    and e: "e = new_event_row E (o_id cur) (transition_event_kind target) target details now evid
                  (set_row row row' db)"
    and fits: "event_insertable E e (set_row row row' db)"
  shows "ledger_ok E (add_event e (set_row row row' db))"
proof -
  have rows: "rows_ok E db" and appr: "approvals_ok db" using ok by (simp_all add: ledger_ok_def)
  have id: "r_id row = uuid_to_string E (o_id cur)" by (rule rows_ok_id [OF rows row cur])
  have t: "o_state upd = target"
    using row_to_operation_state [OF upd] by (simp add: row' state_codec.to_text_inject)
  have step: "ledger_step E db (add_event e (set_row row row' db))"
    by (rule ledger_step.advance [OF row cur allowed claim row' upd checks d e fits])
  have "operation_ok E (add_event e (set_row row row' db)) row'"
  proof (rule same_row_extended [OF env ok row cur upd _ _ _ _ _ _ d e t])
    show "history E (o_id cur) (evs @ [ev]) target"
      if "history E (o_id cur) evs (o_state cur)" "event_sealed E (o_id cur) evs ev"
        "ev_kind ev = transition_event_kind target" "ev_state ev = target" for evs ev
      by (rule history.moved [OF that(1) allowed that(2-4)])
    show "approved_by_user db row"
      if "transition_event_kind target = Ev_ExecutionStarted" "may_mutate_target (o_kind cur)"
      using that claimable_approved [OF claim appr that(2) cur id] by (cases target) simp_all
  qed (simp_all add: row')
  moreover have "operation_ok E (add_event e (set_row row row' db)) r"
    if r: "r \<in> set (db_operations db)" "r \<noteq> row" for r
  proof (rule operation_ok_cong [where db = db])
    have "r_id r \<noteq> r_id row" using row_unique [OF rows row r(1)] r(2) by blast
    then show "op_events (add_event e (set_row row row' db)) (r_id r) = op_events db (r_id r)"
      using id by (simp add: e op_events_def)
    show "operation_ok E db r" using ok r by (simp add: ledger_ok_def)
  qed simp
  moreover have "rows_ok E (add_event e (set_row row row' db))"
    by (rule ledger_step_rows_ok [OF step rows env])
  moreover have "events_owned (add_event e (set_row row row' db))"
  proof (rule events_owned_add [OF _ fits])
    have "map r_id (db_operations (set_row row row' db)) = map r_id (db_operations db)"
      by (simp add: row')
    then have "r_id ` set (db_operations (set_row row row' db)) = r_id ` set (db_operations db)"
      by (metis set_map)
    then show "events_owned (set_row row row' db)"
      using ok unfolding ledger_ok_def events_owned_def by simp
  qed
  moreover have "rows_checked E (add_event e (set_row row row' db))"
    using ok checks row set_row_set [OF rows row, of row']
    by (simp add: ledger_ok_def rows_checked_def) (simp add: row_expiry_ok_def row')
  ultimately show ?thesis
    using appr set_row_set [OF rows row]
    unfolding ledger_ok_def by (simp add: approvals_ok_def)
qed

lemma approve_ok:
  assumes ok: "ledger_ok E db" and env: "env_ok E" and "ledger_step E db db'"
    and dec: "decidable_by cur c"
    and ins: "insert_approval_row (approval_row_of E cur c aid) db = Inr db'"
  shows "ledger_ok E db'"
proof -
  have db': "db' = db\<lparr>db_approvals := db_approvals db @ [approval_row_of E cur c aid]\<rparr>"
    using ins by (simp add: insert_approval_row_Inr)
  have "approvals_ok db'"
    using ok dec unfolding ledger_ok_def
    by (auto simp: approvals_ok_def db' approval_row_of_def decidable_by_def)
  moreover have "operation_ok E db' r" if "r \<in> set (db_operations db)" for r
    using ok that by (intro operation_ok_cong [where db = db and db' = db'])
      (auto simp: db' ledger_ok_def)
  moreover have "rows_ok E db'"
    using ledger_step_rows_ok [OF assms(3) _ env] ok by (simp add: ledger_ok_def)
  ultimately show ?thesis using ok by (auto simp: ledger_ok_def db' events_owned_def rows_checked_def)
qed

lemma progress_ok:
  assumes env: "env_ok E" and ok: "ledger_ok E db" and row: "row \<in> set (db_operations db)"
    and cur: "row_to_operation E row = Inr cur" and st: "o_state cur = Executing"
    and d: "json_plain details" "rfc3339_range now"
    and e: "e = new_event_row E (o_id cur) Ev_Progress Executing details now evid db"
    and fits: "event_insertable E e db"
  shows "ledger_ok E (add_event e db)"
proof -
  have rows: "rows_ok E db" using ok by (simp add: ledger_ok_def)
  have id: "r_id row = uuid_to_string E (o_id cur)" by (rule rows_ok_id [OF rows row cur])
  have "operation_ok E (add_event e db) row"
    by (rule same_row_extended [OF env ok row cur cur _ _ _ _ _ _ d e st])
      (simp_all add: st history.progressed)
  moreover have "operation_ok E (add_event e db) r"
    if r: "r \<in> set (db_operations db)" "r \<noteq> row" for r
  proof (rule operation_ok_cong [where db = db])
    have "r_id r \<noteq> r_id row" using row_unique [OF rows row r(1)] r(2) by blast
    then show "op_events (add_event e db) (r_id r) = op_events db (r_id r)"
      using id by (simp add: e)
    show "operation_ok E db r" using ok r by (simp add: ledger_ok_def)
  qed simp
  ultimately have "\<forall>r \<in> set (db_operations db). operation_ok E (add_event e db) r" by blast
  then show ?thesis
    using ok events_owned_add [OF _ fits] by (simp add: ledger_ok_def approvals_ok_def rows_checked_def)
qed

lemma ledger_step_ok:
  assumes "ledger_step E db db'" "ledger_ok E db" "env_ok E"
  shows "ledger_ok E db'"
  using assms(1)
proof (cases rule: ledger_step.cases)
  case (plan row db1 rec details now e evid)
  then show ?thesis using plan_ok [OF assms(3,2) plan(2-10)] by simp
next
  case (advance row cur target now row' upd details e evid)
  then show ?thesis using advance_ok [OF assms(3,2) advance(2-12)] by simp
next
  case (approve row cur c aid)
  then show ?thesis using approve_ok [OF assms(2,3,1)] by blast
next
  case (progress row cur details now e evid)
  then show ?thesis using progress_ok [OF assms(3,2) progress(2-8)] by simp
qed

lemma ledger_steps_ok:
  "(ledger_step E)\<^sup>*\<^sup>* db db' \<Longrightarrow> ledger_ok E db \<Longrightarrow> env_ok E \<Longrightarrow> ledger_ok E db'"
  by (induction rule: rtranclp_induct) (auto intro: ledger_step_ok)

end
