(* ===== verification/Ledger_Progress.thy ===== *)
theory Ledger_Progress
  imports Ledger_Invariant
begin

text \<open>
  When the repository's transactions succeed. Each lemma lists what the transaction needs
  (a state the table allows, a fresh event identifier, event details within the size limit, a
  sequence number left) and gives the record it returns and the ledger it commits.
\<close>

section \<open>Rows of changed state\<close>

lemma hex64_iff: "hex64 s \<longleftrightarrow> length s = 64 \<and> set s \<subseteq> hex_chars"
  unfolding hex64_def hex_chars_def list_all_iff subset_iff Ball_def by (rule refl)

lemma hex64_sha256 [simp]: "env_ok E \<Longrightarrow> hex64 (sha256_hex E s)"
  by (simp add: hex64_iff) (simp add: sha256_hex_def lower_hex_chars)

definition moved_record :: "operation_state \<Rightarrow> datetime \<Rightarrow> operation_record \<Rightarrow> operation_record" where
  "moved_record t now rec = rec\<lparr>o_state := t, o_updated_at := now,
     o_started_at := (if t = Executing then Some now else o_started_at rec),
     o_finished_at := (if is_terminal t then Some now else o_finished_at rec)\<rparr>"

lemma moved_record_simps [simp]:
  "o_state (moved_record t now rec) = t"
  "o_id (moved_record t now rec) = o_id rec"
  "o_kind (moved_record t now rec) = o_kind rec"
  "o_runtime_id (moved_record t now rec) = o_runtime_id rec"
  "o_payload_hash (moved_record t now rec) = o_payload_hash rec"
  "o_policy_revision (moved_record t now rec) = o_policy_revision rec"
  "o_expires_at (moved_record t now rec) = o_expires_at rec"
  by (simp_all add: moved_record_def)

lemma state_str_executing [simp]: "state_str t = ''executing'' \<longleftrightarrow> t = Executing"
  by (cases t) simp_all

lemma row_to_operation_set_lifecycle:
  assumes "row_to_operation E row = Inr rec" "parse_from_rfc3339 E s = Some now"
  shows "row_to_operation E (set_lifecycle t s row) = Inr (moved_record t now rec)"
proof -
  have stamp: "parse_optional_timestamp E (Some s) f = Inr (Some now)" for f
    using assms(2) by (simp add: parse_optional_timestamp_def parse_timestamp_def)
  have executing: "parse_state ''executing'' = Some Executing"
    using state_codec.of_to [of Executing] by simp
  show ?thesis
    using assms(1) unfolding row_to_operation_def rbind_eq_Inr
    by (cases "t = Executing"; cases "is_terminal t";
        clarsimp simp: set_lifecycle_def moved_record_def state_codec.of_to executing stamp assms(2))
qed

lemma operation_row_checks_set_lifecycle [simp]:
  "operation_row_checks E row \<Longrightarrow> operation_row_checks E (set_lifecycle t s row)"
  by (simp add: operation_row_checks_def set_lifecycle_def state_codec.of_to)

section \<open>Appending an event\<close>

text \<open>What \<open>append_event_tx\<close> needs of the ledger.\<close>

definition event_fits :: "env \<Rightarrow> uuid \<Rightarrow> json \<Rightarrow> uuid \<Rightarrow> ledger \<Rightarrow> bool" where
  "event_fits E u details evid db \<longleftrightarrow>
     json_plain details \<and>
     length (canonical_json E details) \<le> max_response_bytes \<and>
     uuid_to_string E evid \<notin> er_id ` set (db_events db) \<and>
     int (length (op_events db (uuid_to_string E u))) < 2 ^ 63 - 1"

lemma sequence_unused:
  assumes "reads E (op_events db opid) evs" "history E u evs s" "int (length evs) < i"
  shows "(opid, i) \<notin> (\<lambda>e. (er_operation_id e, er_sequence e)) ` set (db_events db)"
proof
  assume "(opid, i) \<in> (\<lambda>e. (er_operation_id e, er_sequence e)) ` set (db_events db)"
  then have "i \<in> set (map er_sequence (op_events db opid))" by (auto simp: op_events_def)
  then show False
    using assms(3) unfolding reads_columns(1) [OF assms(1)] history_sequences [OF assms(2)] by auto
qed

lemma append_event_tx_succeeds:
  assumes env: "env_ok E" and fits: "event_fits E u details evid db"
    and op: "uuid_to_string E u \<in> r_id ` set (db_operations db)"
    and evs: "op_events db (uuid_to_string E u) = [] \<or>
      (\<exists>evs s. reads E (op_events db (uuid_to_string E u)) evs \<and> history E u evs s)"
  shows "\<exists>ev. append_event_tx E u k t details now evid db
    = Inr (ev, add_event (new_event_row E u k t details now evid db) db)"
proof -
  let ?opid = "uuid_to_string E u" and ?row = "new_event_row E u k t details now evid db"
  have json: "from_json_str E (canonical_json E details) = Some (canonical_value details)"
    using env fits by (simp add: event_fits_def canonical_json_eq)
  have nxt: "next_sequence db ?opid \<noteq> 2 ^ 63 \<and> 0 < next_sequence db ?opid \<and>
      (?opid, next_sequence db ?opid) \<notin> (\<lambda>e. (er_operation_id e, er_sequence e)) ` set (db_events db) \<and>
      (case next_prev_hash db ?opid of None \<Rightarrow> True | Some h \<Rightarrow> hex64 h)"
    using evs
  proof
    assume none: "op_events db ?opid = []"
    then show ?thesis using no_event [OF none] by (auto simp: op_events_def filter_empty_conv)
  next
    assume "\<exists>evs s. reads E (op_events db ?opid) evs \<and> history E u evs s"
    then obtain evs s where h: "reads E (op_events db ?opid) evs" "history E u evs s" by blast
    have len: "length (op_events db ?opid) = length evs" using h(1) by (rule list_all2_lengthD)
    have "hex64 (ev_hash (last evs))"
    proof -
      have "\<forall>e \<in> set evs. ev_hash e = event_hash_of E e"
        using h(2) by (induction rule: history.induct) (auto simp: event_sealed_def)
      then show ?thesis
        using history_last [OF h(2)] env
        by (simp add: event_hash_of_def event_hash_def)
    qed
    then show ?thesis
      using next_event [OF h] sequence_unused [OF h] fits len by (simp add: event_fits_def)
  qed
  then have "event_row_checks E ?row"
    using env fits
    by (simp add: event_row_checks_def new_event_row_def Let_def event_codec.of_to state_codec.of_to
        canonical_json_eq event_hash_def env_ok_def json_laws_def)
  moreover have "er_id ?row = uuid_to_string E evid" "er_operation_id ?row = ?opid"
      "er_sequence ?row = next_sequence db ?opid"
    by (simp_all add: new_event_row_def Let_def)
  ultimately have "insert_event_row E ?row db = Inr (add_event ?row db)"
    using nxt op fits unfolding insert_event_row_def event_fits_def set_map by simp
  moreover have "(case tail_event db ?opid of
               Some row \<Rightarrow>
                 (if er_sequence row = 2 ^ 63 - 1 then Inl err_sequence_overflow
                  else Inr (er_sequence row + 1, Some (er_hash row)))
             | None \<Rightarrow> Inr (1, None)) = Inr (next_sequence db ?opid, next_prev_hash db ?opid)"
    using nxt by (auto simp: next_sequence_def next_prev_hash_def split: option.splits)
  ultimately show ?thesis
    using fits json
    by (simp add: append_event_tx_def event_fits_def Let_def new_event_row_def parse_json_def
        guard_def)
qed

section \<open>A state change succeeds\<close>

text \<open>
  The condition of the conditional \<^verbatim>\<open>UPDATE\<close> on the expiry column, which compares texts.
\<close>

definition start_in_time :: "env \<Rightarrow> operation_row \<Rightarrow> operation_state \<Rightarrow> datetime \<Rightarrow> bool" where
  "start_in_time E row target now \<longleftrightarrow> target \<noteq> Executing \<or>
     (case r_expires_at row of None \<Rightarrow> True | Some e \<Rightarrow> to_rfc3339_nanos E now < e)"

lemma ledger_ok_history:
  assumes "ledger_ok E db" "row \<in> set (db_operations db)" "row_to_operation E row = Inr rec"
  obtains evs where "reads E (op_events db (r_id row)) evs"
    "history E (o_id rec) evs (o_state rec)"
    "may_mutate_target (o_kind rec) \<Longrightarrow> Ev_ExecutionStarted \<in> ev_kind ` set evs \<Longrightarrow>
       approved_by_user db row"
  using assms unfolding ledger_ok_def operation_ok_def by blast

lemma ledger_ok_rows [simp]: "ledger_ok E db \<Longrightarrow> rows_ok E db"
  by (simp add: ledger_ok_def)

lemma transition_tx_succeeds:
  assumes env: "env_ok E" and ok: "ledger_ok E db"
    and row: "row \<in> set (db_operations db)" "row_to_operation E row = Inr cur"
    and allowed: "transition_allowed (o_state cur) target"
    and time: "start_in_time E row target now" "rfc3339_range now"
    and fits: "event_fits E (o_id cur) details evid db"
  defines "row' \<equiv> set_lifecycle target (to_rfc3339_nanos E now) row"
  defines "db1 \<equiv> set_row row row' db"
  shows "transition_tx E cur target details now evid db = Inr (moved_record target now cur,
    add_event (new_event_row E (o_id cur) (transition_event_kind target) target details now evid db1)
      db1)"
proof -
  have rows: "rows_ok E db" using ok by simp
  have id: "r_id row = uuid_to_string E (o_id cur)" by (rule rows_ok_id [OF rows row])
  define P where "P = (\<lambda>r :: operation_row. r_id r = uuid_to_string E (o_id cur) \<and>
    r_state r = state_str (o_state cur) \<and> r_payload_hash r = o_payload_hash cur \<and>
    (state_str target \<noteq> ''executing'' \<or>
      (case r_expires_at r of None \<Rightarrow> True | Some e \<Rightarrow> to_rfc3339_nanos E now < e)))"
  let ?f = "set_lifecycle target (to_rfc3339_nanos E now)"
  have P: "P r \<longleftrightarrow> r = row" if "r \<in> set (db_operations db)" for r
    using row_unique [OF rows row(1) that] id time(1) row_to_operation_state [OF row(2)]
      row_to_operation_fields(5) [OF row(2)]
    by (auto simp: start_in_time_def P_def split: option.splits)
  have checks: "operation_row_checks E row"
    using ok row(1) by (simp add: ledger_ok_def rows_checked_def)
  have dist: "distinct (db_operations db)"
    using rows by (auto simp: rows_ok_def distinct_map)
  have "filter P (db_operations db) = filter (\<lambda>r. r = row) (db_operations db)"
    using P by (intro filter_cong) simp_all
  also have "length \<dots> = 1"
    using length_filter_one_iff [of "\<lambda>r. r" "db_operations db" row] dist row(1) by simp
  finally have one: "length (filter P (db_operations db)) = 1" .
  have "map (\<lambda>r. if P r then ?f r else r) (db_operations db) =
      map (\<lambda>r. if r_id r = r_id row then row' else r) (db_operations db)"
    using P row_unique [OF rows row(1)] by (intro map_cong) (auto simp: row'_def)
  moreover have "\<not> list_ex (\<lambda>r. P r \<and> immutable_columns_differ r (?f r)) (db_operations db)"
    by (simp add: list_ex_iff)
  moreover have "\<not> list_ex (\<lambda>r. P r \<and> \<not> operation_row_checks E (?f r)) (db_operations db)"
    using P checks by (auto simp: list_ex_iff)
  ultimately have upd: "update_operations E P ?f db = Inr (1, db1)"
    using one by (simp add: update_operations_def db1_def)
  have evs1: "op_events db1 i = op_events db i" for i by (simp add: db1_def op_events_def)
  have fits1: "event_fits E (o_id cur) details evid db1"
    using fits by (simp add: event_fits_def evs1) (simp add: db1_def)
  have ids: "map r_id (db_operations db1) = map r_id (db_operations db)"
    by (simp add: db1_def row'_def)
  have mem: "row' \<in> set (db_operations db1)"
    using row(1) by (auto simp: db1_def)
  then have mem1: "uuid_to_string E (o_id cur) \<in> r_id ` set (db_operations db1)"
    using id by (metis imageI row'_def set_lifecycle_simps(1))
  obtain evs where "reads E (op_events db1 (uuid_to_string E (o_id cur))) evs"
      "history E (o_id cur) evs (o_state cur)"
    using ledger_ok_history [OF ok row] id evs1 by metis
  then obtain ev where app: "append_event_tx E (o_id cur) (transition_event_kind target)
      target details now evid db1 = Inr (ev, add_event (new_event_row E (o_id cur)
        (transition_event_kind target) target details now evid db1) db1)"
    using append_event_tx_succeeds [OF env fits1 mem1] by blast
  have "row_to_operation E row' = Inr (moved_record target now cur)"
    unfolding row'_def using row_to_operation_set_lifecycle [OF row(2)] env time(2) by simp
  moreover have "find_operation_row E (o_id cur) (add_event e db1) = Some row'" for e
    using ids mem rows id by (intro find_operation_row_distinct) (simp_all add: rows_ok_def row'_def)
  ultimately have "fetch_operation_tx E (o_id cur) (add_event e db1) = Inr (moved_record target now cur)"
    for e by (simp add: fetch_operation_tx_Inr)
  then show ?thesis
    using allowed upd [unfolded P_def] app
    by (simp add: transition_tx_def Let_def ensure_transition_def)
qed

section \<open>The public operations succeed\<close>

lemma fetch_of_row:
  assumes "rows_ok E db" "row \<in> set (db_operations db)" "row_to_operation E row = Inr cur"
  shows "fetch_operation_tx E (o_id cur) db = Inr cur"
  using find_operation_row_distinct [of db row E "o_id cur"] rows_ok_id [OF assms] assms
  by (simp add: fetch_operation_tx_Inr rows_ok_def)

lemma start_in_time_not_expired:
  assumes "env_ok E" "ledger_ok E db" "row \<in> set (db_operations db)"
    and "row_to_operation E row = Inr cur" "rfc3339_range now" "\<not> expired_at (o_expires_at cur) now"
  shows "start_in_time E row target now"
proof (cases "r_expires_at row")
  case None
  then show ?thesis by (simp add: start_in_time_def)
next
  case (Some x)
  have "row_expiry_ok E row" using assms(2,3) by (simp add: ledger_ok_def rows_checked_def)
  then obtain t where t: "rfc3339_range t" "x = to_rfc3339_nanos E t"
    using Some by (auto simp: row_expiry_ok_def)
  then have "o_expires_at cur = Some t"
    using row_to_operation_fields(10) [OF assms(4)] Some assms(1)
    by (simp add: parse_optional_timestamp_def parse_timestamp_def)
  then show ?thesis
    using assms(6) t Some env_ok_time_less [OF assms(1,5) t(1)]
    by (simp add: start_in_time_def expired_at_def)
qed

definition moved_ledger ::
  "env \<Rightarrow> operation_row \<Rightarrow> operation_record \<Rightarrow> operation_state \<Rightarrow> json \<Rightarrow> datetime \<Rightarrow> uuid \<Rightarrow> ledger \<Rightarrow> ledger"
where
  "moved_ledger E row cur target details now evid db =
     (let row' = set_lifecycle target (to_rfc3339_nanos E now) row; db1 = set_row row row' db
      in add_event (new_event_row E (o_id cur) (transition_event_kind target) target details now
           evid db1) db1)"

lemma transition_succeeds:
  assumes "env_ok E" "ledger_ok E db" "row \<in> set (db_operations db)"
    and "row_to_operation E row = Inr cur" "o_runtime_id cur = rt"
    and "transition_allowed (o_state cur) target" "target \<noteq> Executing"
    and "rfc3339_range now" "event_fits E (o_id cur) details evid db"
  shows "transition E (o_id cur) rt target details now evid db
    = (Inr (moved_record target now cur), moved_ledger E row cur target details now evid db)"
  using transition_tx_succeeds [OF assms(1-4,6) _ assms(8,9)] fetch_of_row [OF _ assms(3,4)]
    assms(2,5,7)
  by (simp add: transition_def run_tx_def ensure_runtime_def moved_ledger_def Let_def
      start_in_time_def)

lemma claim_succeeds:
  assumes "env_ok E" "ledger_ok E db" "row \<in> set (db_operations db)"
    and "row_to_operation E row = Inr cur" "o_runtime_id cur = rt" "claimable E cur now db"
    and "rfc3339_range now" "event_fits E (o_id cur) (claim_details cur) evid db"
  shows "claim_execution E (o_id cur) rt now evid db
    = (Inr (moved_record Executing now cur),
       moved_ledger E row cur Executing (claim_details cur) now evid db)"
proof -
  have "transition_allowed (o_state cur) Executing"
    using assms(6) by (auto simp: claimable_def transition_to_Executing)
  moreover have "start_in_time E row Executing now"
    using start_in_time_not_expired [OF assms(1-4,7)] assms(6) by (simp add: claimable_def)
  ultimately have tx: "transition_tx E cur Executing (claim_details cur) now evid db
      = Inr (moved_record Executing now cur,
         moved_ledger E row cur Executing (claim_details cur) now evid db)"
    using transition_tx_succeeds [OF assms(1-4) _ _ assms(7,8)]
    by (simp add: moved_ledger_def Let_def)
  have guards: "guard (o_state cur \<notin> {Ready, Approved}) err_not_executable = Inr ()"
    "guard (o_state cur = Ready \<and> may_mutate_target (o_kind cur)) err_needs_approval = Inr ()"
    "\<not> expired_at (o_expires_at cur) now"
    "guard (o_state cur = Approved \<and> \<not> has_exact_approval E cur now db) err_no_exact_approval = Inr ()"
    using assms(6) unfolding claimable_def guard_def by auto
  show ?thesis
    unfolding claim_execution_def fetch_of_row [OF ledger_ok_rows [OF assms(2)] assms(3,4)]
      rbind_Inr guards tx if_not_P [OF guards(3)]
    using assms(5) by (simp add: ensure_runtime_def run_tx_def)
qed

lemma decide_succeeds:
  assumes env: "env_ok E" and ok: "ledger_ok E db"
    and row: "row \<in> set (db_operations db)" "row_to_operation E row = Inr cur"
    and op: "c_operation_id c = o_id cur" and dec: "decidable_by cur c"
    and ins: "insert_approval_row (approval_row_of E cur c aid) db = Inr db1"
    and now: "rfc3339_range (c_now c)"
    and fits: "event_fits E (o_id cur) (approval_details E cur c aid) evid db"
  shows "decide_approval E c aid evid db
    = (Inr (moved_record (decision_state (c_decision c)) (c_now c) cur),
       moved_ledger E row cur (decision_state (c_decision c)) (approval_details E cur c aid)
         (c_now c) evid db1)"
proof -
  have step: "ledger_step E db db1" by (rule ledger_step.approve [OF row dec ins])
  have ok1: "ledger_ok E db1" by (rule ledger_step_ok [OF step ok env])
  have same: "db_operations db1 = db_operations db" "db_events db1 = db_events db"
    using ins by (auto simp: insert_approval_row_Inr)
  have fits1: "event_fits E (o_id cur) (approval_details E cur c aid) evid db1"
    using fits by (simp add: event_fits_def op_events_def same)
  have row1: "row \<in> set (db_operations db1)" using row(1) same by simp
  have tx: "transition_tx E cur (decision_state (c_decision c)) (approval_details E cur c aid)
      (c_now c) evid db1 = Inr (moved_record (decision_state (c_decision c)) (c_now c) cur,
       moved_ledger E row cur (decision_state (c_decision c)) (approval_details E cur c aid)
         (c_now c) evid db1)"
    using transition_tx_succeeds [OF env ok1 row1 row(2) _ _ now fits1] dec
    by (cases "c_decision c")
      (simp_all add: moved_ledger_def Let_def start_in_time_def decidable_by_def transition_allowed_def)
  have who: "\<not> (approver_kind (c_approver c) \<notin> {LocalUser, WorkspaceUser} \<or>
      blank (approver_id (c_approver c)))"
    and why: "\<not> (case c_reason c of None \<Rightarrow> False | Some r \<Rightarrow> max_request_bytes < length r)"
    using dec by (auto simp: decidable_by_def split: option.splits)
  show ?thesis
    unfolding decide_approval_def if_not_P [OF who] if_not_P [OF why] op
      fetch_of_row [OF ledger_ok_rows [OF ok] row] rbind_Inr
    using dec ins tx by (simp add: decidable_by_def ensure_runtime_def run_tx_def)
qed

section \<open>Planning succeeds\<close>

lemma subseq_subset: "subseq xs ys \<Longrightarrow> set xs \<subseteq> set ys"
  by (metis subseq_conv_nths set_nths_subset)

lemma subseq_distinct: "subseq xs ys \<Longrightarrow> distinct ys \<Longrightarrow> distinct xs"
  by (metis subseq_conv_nths distinct_nthsI)

lemma opt_field_names: "subseq (map fst (opt_field k v)) [k]"
  by (cases v) (simp_all add: opt_field_def)

lemma map_of_opt_field [simp]:
  "map_of (opt_field k v) = (\<lambda>j. if j = k then map_option JString v else None)"
  by (cases v) (auto simp: opt_field_def)

lemma provenance_entries_fields: "subseq (map fst (provenance_entries p)) provenance_fields"
proof -
  have version: "subseq (map fst (case client_protocol_version p of None \<Rightarrow> []
       | Some n \<Rightarrow> [(''clientProtocolVersion'', JNumber (PosInt n))])) [''clientProtocolVersion'']"
    by (simp split: option.split)
  have "subseq (map fst (provenance_entries p)) ([''localAccountId''] @ [''workspaceAccountId''] @
      [''agentProvider''] @ [''agentModel''] @ [''pluginId''] @ [''pluginVersion''] @
      [''clientProtocolVersion''] @ [''originSurface''])"
    unfolding provenance_entries_def map_append
    by (intro list_emb_append_mono opt_field_names version) simp
  then show ?thesis by (simp only: provenance_fields_def append_Cons append_Nil)
qed

lemma provenance_entries_distinct: "distinct (map fst (provenance_entries p))"
  using provenance_entries_fields by (rule subseq_distinct) (simp add: provenance_fields_def)

text \<open>\<^verbatim>\<open>client_protocol_version\<close> is a u16.\<close>

definition version_ok :: "actor_provenance \<Rightarrow> bool" where
  "version_ok p = (case client_protocol_version p of None \<Rightarrow> True | Some v \<Rightarrow> v < 65536)"

lemma json_plain_provenance:
  assumes "version_ok p"
  shows "json_plain (provenance_to_value p)"
proof -
  let ?ok = "\<lambda>kv :: string \<times> json.
    json_wf (snd kv) \<and> json_integral (snd kv) \<and> json_depth (snd kv) \<le> 1"
  have opt: "list_all ?ok (opt_field k v)" for k v by (cases v) (simp_all add: opt_field_def)
  have "list_all ?ok (provenance_entries p)"
    using assms unfolding provenance_entries_def list_all_append
    by (intro conjI opt) (simp_all add: version_ok_def split: option.splits)
  then have "json_depth (JObject (provenance_entries p)) \<le> 2"
    by (simp add: foldr_max_le list_all_iff)
  then show ?thesis
    using \<open>list_all ?ok (provenance_entries p)\<close> provenance_entries_distinct
    by (simp add: json_plain_def provenance_to_value_def list_all_iff)
qed

lemma provenance_round_trip:
  assumes "version_ok p"
  shows "provenance_from_value (canonical_value (provenance_to_value p)) = Inr p"
proof -
  let ?kvs = "provenance_entries p"
  have "set (map fst ?kvs) \<subseteq> set provenance_fields"
    by (rule subseq_subset [OF provenance_entries_fields])
  then have names: "list_all (\<lambda>kv. fst kv \<in> set provenance_fields)
      (sort_key fst (map canonical_entry ?kvs))"
    by (auto simp: list_all_iff)
  define field where
    "field k = (case map_of ?kvs k of None \<Rightarrow> JNull | Some v \<Rightarrow> canonical_value v)" for k
  have field: "(case map_of (sort_key fst (map canonical_entry ?kvs)) k of None \<Rightarrow> JNull
      | Some v \<Rightarrow> v) = field k" for k
    unfolding map_of_canonical_object [OF provenance_entries_distinct] field_def
    by (simp split: option.split)
  have version: "map_of (case client_protocol_version p of None \<Rightarrow> []
      | Some n \<Rightarrow> [(''clientProtocolVersion'', JNumber (PosInt n))]) =
        (\<lambda>j. if j = ''clientProtocolVersion''
          then map_option (\<lambda>n. JNumber (PosInt n)) (client_protocol_version p) else None)"
    by (auto split: option.split)
  let ?opt = "\<lambda>v. case v of None \<Rightarrow> JNull | Some s \<Rightarrow> JString s"
  have opt: "opt_string_of (?opt v) = Inr v" for v
    by (cases v) simp_all
  have fields: "field ''localAccountId'' = ?opt (local_account_id p)"
    "field ''workspaceAccountId'' = ?opt (workspace_account_id p)"
    "field ''agentProvider'' = ?opt (agent_provider p)"
    "field ''agentModel'' = ?opt (agent_model p)"
    "field ''pluginId'' = ?opt (plugin_id p)"
    "field ''pluginVersion'' = ?opt (plugin_version p)"
    "field ''clientProtocolVersion'' =
       (case client_protocol_version p of None \<Rightarrow> JNull | Some n \<Rightarrow> JNumber (PosInt n))"
    "field ''originSurface'' = JString (origin_surface p)"
    by (simp_all add: field_def provenance_entries_def map_add_def version split: option.split)
  show ?thesis
    using assms names
    unfolding provenance_to_value_def canonical_value.simps provenance_from_value.simps Let_def
      field fields provenance_of_values_def opt version_ok_def
    by (cases "client_protocol_version p") simp_all
qed

lemma lower_hex_digit_iff: "lower_hex_digit c \<longleftrightarrow> c \<in> hex_chars"
proof -
  have "c \<in> set ''abcdef''" if "97 \<le> (of_char c :: nat)" "of_char c \<le> (102 :: nat)"
  proof -
    have "of_char c \<in> {97, 98, 99, 100, 101, 102 :: nat}" using that by auto
    also have "{97, 98, 99, 100, 101, 102 :: nat} = of_char ` set ''abcdef''" by simp
    finally show ?thesis by (simp only: inj_image_mem_iff [OF inj_of_char])
  qed
  then have "CHR ''a'' \<le> c \<and> c \<le> CHR ''f'' \<longleftrightarrow> c \<in> set ''abcdef''"
    by (auto simp: less_eq_char_def)
  then show ?thesis by (auto simp: lower_hex_digit_def hex_chars_def)
qed

text \<open>
  The values of an operation that its text columns carry faithfully, with the machine widths of
  \<^verbatim>\<open>client_protocol_version\<close> (u16) and \<^verbatim>\<open>payload_schema_version\<close> (u32).
\<close>

definition plain_operation :: "new_operation \<Rightarrow> bool" where
  "plain_operation n \<longleftrightarrow>
     json_plain (n_payload n) \<and> json_plain (n_preview n) \<and> json_plain (n_policy_snapshot n) \<and>
     version_ok (actor_provenance (n_actor n)) \<and>
     n_payload_schema_version n < 2 ^ 32 \<and> expiry_in_range (n_expires_at n)"

definition planned_record :: "env \<Rightarrow> uuid \<Rightarrow> new_operation \<Rightarrow> datetime \<Rightarrow> operation_record" where
  "planned_record E rt n now =
     \<lparr>o_id = n_id n, o_runtime_id = rt, o_workspace_id = n_workspace_id n,
      o_account_scope = n_account_scope n, o_connection_id = n_connection_id n,
      o_connection_revision = n_connection_revision n,
      o_terminal_session_id = n_terminal_session_id n, o_actor = n_actor n, o_kind = n_kind n,
      o_payload_schema_version = n_payload_schema_version n,
      o_payload = canonical_value (n_payload n), o_payload_hash = canonical_hash E (n_payload n),
      o_schema_fingerprint = n_schema_fingerprint n, o_risk_level = n_risk_level n,
      o_preview = canonical_value (n_preview n),
      o_policy_snapshot = canonical_value (n_policy_snapshot n),
      o_policy_revision = n_policy_revision n, o_state = Planned, o_single_use = n_single_use n,
      o_idempotency_key = n_idempotency_key n, o_expires_at = n_expires_at n,
      o_started_at = None, o_finished_at = None, o_created_at = now, o_updated_at = now\<rparr>"

lemma prepare_operation_Inr:
  assumes "prepare_operation E rt n = Inr p"
  shows "p_runtime_id p = rt" "p_operation p = n"
    "p_payload p = canonical_from_value E (n_payload n)"
    "p_actor_provenance_json p = canonical_json E (provenance_to_value (actor_provenance (n_actor n)))"
    "p_preview_json p = canonical_json E (n_preview n)"
    "p_policy_snapshot_json p = canonical_json E (n_policy_snapshot n)"
    "validate_new_operation n = Inr ()"
proof -
  show "p_runtime_id p = rt" "p_operation p = n"
    "p_payload p = canonical_from_value E (n_payload n)"
    "p_actor_provenance_json p = canonical_json E (provenance_to_value (actor_provenance (n_actor n)))"
    "p_preview_json p = canonical_json E (n_preview n)"
    "p_policy_snapshot_json p = canonical_json E (n_policy_snapshot n)"
    "validate_new_operation n = Inr ()"
    using assms unfolding prepare_operation_def Let_def rbind_eq_Inr by force+
qed


lemma canonical_text_reads:
  assumes "env_ok E" "json_plain v"
  shows "parse_canonical_json E (canonical_json E v) = Inr (canonical_value v)"
  using assms by (simp add: parse_canonical_json_Inr canonical_json_eq)

lemma canonical_payload_reads:
  assumes "env_ok E" "json_plain v"
  defines "c \<equiv> canonical_from_value E v"
  shows "canonical_from_stored E (cj_json c) (cj_sha256 c) = Inr c"
    and "canonical_into_value E c = Inr (canonical_value v)"
  using assms(1,2)
  by (simp_all add: c_def canonical_from_stored_def canonical_into_value_def canonical_from_value_def
      Let_def parse_json_def)

lemma row_of_planned:
  assumes env: "env_ok E" and prep: "prepare_operation E rt n = Inr p"
    and plain: "plain_operation n" and now: "rfc3339_range now"
  shows "row_to_operation E (operation_row_of E p now) = Inr (planned_record E rt n now)"
proof -
  note p = prepare_operation_Inr [OF prep]
  have n: "json_plain (n_payload n)" "json_plain (n_preview n)" "json_plain (n_policy_snapshot n)"
    "version_ok (actor_provenance (n_actor n))" "n_payload_schema_version n < 2 ^ 32"
    using plain by (simp_all add: plain_operation_def)
  note texts = canonical_text_reads [OF env n(2)] canonical_text_reads [OF env n(3)]
    canonical_text_reads [OF env json_plain_provenance [OF n(4)]] provenance_round_trip [OF n(4)]
    canonical_payload_reads [OF env n(1)]
  have session: "transpose_opt (\<lambda>v. ok_or (uuid_parse_str E v) f) (map_option (uuid_to_string E) x)
      = Inr x" for f x
    using env by (cases x) simp_all
  have actor: "\<lparr>actor_kind = actor_kind a, actor_id = actor_id a,
      actor_provenance = actor_provenance a\<rparr> = a" for a :: operation_actor
    by simp
  have expiry: "parse_optional_timestamp E (map_option (to_rfc3339_nanos E) (n_expires_at n)) f
      = Inr (n_expires_at n)" for f
    using env plain
    by (cases "n_expires_at n")
      (simp_all add: parse_optional_timestamp_def parse_timestamp_def plain_operation_def expiry_in_range_def)
  have none: "parse_optional_timestamp E None f = Inr None" for f
    by (simp add: parse_optional_timestamp_def)
  have version: "u32_of_i64 (int (n_payload_schema_version n)) = Some (n_payload_schema_version n)"
    using n(5) by (simp add: u32_of_i64_def)
  have bool: "parse_bool (if b then 1 else 0) f = Inr b" for b f
    by (simp add: parse_bool_def)
  have planned: "parse_state ''planned'' = Some Planned"
    using state_codec.of_to [of Planned] by simp
  show ?thesis
    using env now
    by (simp add: row_to_operation_def operation_row_of_def Let_def p texts session expiry none
        version bool planned parse_uuid_def parse_timestamp_def actor_codec.of_to kind_codec.of_to
        risk_codec.of_to planned_record_def canonical_hash_def actor)
qed

lemma row_checks_of_planned:
  assumes env: "env_ok E" and prep: "prepare_operation E rt n = Inr p"
  shows "operation_row_checks E (operation_row_of E p now)"
proof -
  note p = prepare_operation_Inr [OF prep]
  have valid: "sqlite_json_valid E (canonical_json E v)" for v
    using env by (simp add: canonical_json_eq env_ok_def json_laws_def)
  have payload: "sqlite_json_valid E (cj_json (canonical_from_value E v))"
    "hex64 (cj_sha256 (canonical_from_value E v))" for v
    using env by (simp_all add: canonical_from_value_def Let_def env_ok_def json_laws_def
        hex64_sha256 [OF env])
  have planned: "parse_state ''planned'' = Some Planned"
    using state_codec.of_to [of Planned] by simp
  have "\<not> blank (actor_id (n_actor n)) \<and> \<not> blank (n_policy_revision n) \<and>
      \<not> blank (n_idempotency_key n) \<and> n_payload_schema_version n \<noteq> 0 \<and>
      (case n_schema_fingerprint n of None \<Rightarrow> True | Some f \<Rightarrow> hex64 f)"
    using p(7) unfolding validate_new_operation_def
    by (auto simp: hex64_iff list_all_iff lower_hex_digit_iff split: if_splits option.splits prod.splits)
  then show ?thesis
    by (simp add: operation_row_checks_def operation_row_of_def Let_def p valid payload planned
        actor_codec.of_to kind_codec.of_to risk_codec.of_to not_blank_nonempty)
qed

text \<open>A fresh plan: neither the identifier nor the idempotency key is in use.\<close>

definition planned_ledger :: "env \<Rightarrow> prepared_operation \<Rightarrow> datetime \<Rightarrow> uuid \<Rightarrow> ledger \<Rightarrow> ledger" where
  "planned_ledger E p now evid db =
     (let db1 = db\<lparr>db_operations := db_operations db @ [operation_row_of E p now]\<rparr>
      in add_event (new_event_row E (n_id (p_operation p)) Ev_Planned Planned (planned_details p)
           now evid db1) db1)"

definition same_key :: "env \<Rightarrow> new_operation \<Rightarrow> operation_row \<Rightarrow> bool" where
  "same_key E n r \<longleftrightarrow> r_workspace_id r = uuid_to_string E (n_workspace_id n) \<and>
     r_actor_kind r = actor_kind_str (actor_kind (n_actor n)) \<and>
     r_actor_id r = actor_id (n_actor n) \<and> r_idempotency_key r = n_idempotency_key n"

lemma insert_planned_succeeds:
  assumes env: "env_ok E" and ok: "ledger_ok E db" and prep: "prepare_operation E rt n = Inr p"
    and plain: "plain_operation n" and now: "rfc3339_range now"
    and fresh: "uuid_to_string E (n_id n) \<notin> r_id ` set (db_operations db)"
      "\<not> list_ex (same_key E n) (db_operations db)"
    and fits: "event_fits E (n_id n) (planned_details p) evid db"
  shows "insert_planned E rt n now evid db
    = (Inr (planned_record E rt n now), planned_ledger E p now evid db)"
proof -
  let ?row = "operation_row_of E p now"
  define db1 where "db1 = db\<lparr>db_operations := db_operations db @ [?row]\<rparr>"
  note p = prepare_operation_Inr [OF prep]
  have cols: "r_id ?row = uuid_to_string E (n_id n)" "same_key E n ?row"
    by (simp_all add: operation_row_of_def Let_def p same_key_def)
  have key: "idempotency_index r = idempotency_index ?row \<longleftrightarrow> same_key E n r" for r
    by (auto simp: idempotency_index_def operation_row_of_def Let_def p same_key_def)
  have ins: "insert_operation_row E ?row db = Inr db1"
    using row_checks_of_planned [OF env prep] cols fresh key
    by (auto simp: insert_operation_row_Inr db1_def list_ex_iff) metis
  have none: "find (same_key E n) (db_operations db) = None"
    using fresh(2) by (simp add: find_None_iff list_ex_iff)
  have "op_events db (uuid_to_string E (n_id n)) = []"
    using ok fresh(1) by (intro op_events_unowned) (simp_all add: ledger_ok_def)
  then have "op_events db1 (uuid_to_string E (n_id n)) = []" by (simp add: db1_def)
  moreover have "event_fits E (n_id n) (planned_details p) evid db1"
    using fits by (simp add: event_fits_def op_events_def db1_def)
  moreover have "uuid_to_string E (n_id n) \<in> r_id ` set (db_operations db1)"
    using cols by (simp add: db1_def)
  ultimately obtain ev where app: "append_event_tx E (n_id n) Ev_Planned Planned (planned_details p)
      now evid db1 = Inr (ev, planned_ledger E p now evid db)"
    using append_event_tx_succeeds [OF env, of "n_id n" "planned_details p" evid db1]
    unfolding planned_ledger_def Let_def db1_def p(2) by blast
  have "distinct (map r_id (db_operations (planned_ledger E p now evid db)))"
    using ok fresh(1) cols(1) by (simp add: planned_ledger_def Let_def ledger_ok_def rows_ok_def)
  then have "find_operation_row E (n_id n) (planned_ledger E p now evid db) = Some ?row"
    using cols(1) by (intro find_operation_row_distinct) (simp_all add: planned_ledger_def Let_def)
  then have fetch: "fetch_operation_tx E (n_id n) (planned_ledger E p now evid db)
      = Inr (planned_record E rt n now)"
    using row_of_planned [OF env prep plain now] by (simp add: fetch_operation_tx_Inr)
  show ?thesis
    using prep none ins app fetch
    by (simp add: insert_planned_def run_tx_def same_key_def [abs_def])
qed

text \<open>Planning the same operation again finds it.\<close>

lemma insert_planned_replays:
  assumes env: "env_ok E" and prep: "prepare_operation E rt n = Inr p"
    and row: "find (same_key E n) (db_operations db) = Some row"
    and rec: "row_to_operation E row = Inr rec" and same: "prepared_matches p rec"
  shows "insert_planned E rt n now evid db = (Inr rec, db)"
  using prep row rec same by (simp add: insert_planned_def run_tx_def same_key_def [abs_def])

lemma planned_record_matches:
  assumes "prepare_operation E rt n = Inr p" "plain_operation n"
  shows "prepared_matches p (planned_record E rt n now)"
  using assms(2) json_eq_canonical
  by (simp add: prepared_matches_def planned_record_def Let_def prepare_operation_Inr [OF assms(1)]
      canonical_hash_def plain_operation_def)

end
