(* ===== verification/Reference_Env.thy ===== *)
theory Reference_Env
  imports Json
begin

text \<open>
  A concrete environment that satisfies \<open>env_ok\<close>: a self-delimiting text form of JSON
  values with its parser, base-256 texts of UUIDs, and nine-byte big-endian timestamps whose
  byte order is chronological. It is no model of the crates behind \<open>env\<close>. It shows that
  the behaviour \<open>env_ok\<close> asks of them can be met, and the witnesses of the development
  evaluate the ledger in it.
\<close>

section \<open>Numbers and strings\<close>

fun digits_le :: "nat \<Rightarrow> string" where
  "digits_le n = (if n = 0 then [] else char_of (n mod 256) # digits_le (n div 256))"

declare digits_le.simps [simp del]

fun undigits_le :: "string \<Rightarrow> nat" where
  "undigits_le [] = 0"
| "undigits_le (c # cs) = of_char c + 256 * undigits_le cs"

lemma undigits_digits_le [simp]: "undigits_le (digits_le n) = n"
proof (induction n rule: digits_le.induct)
  case (1 n)
  show ?case
  proof (cases "n = 0")
    case True
    then show ?thesis by (simp add: digits_le.simps [of 0])
  next
    case False
    then have "undigits_le (digits_le (n div 256)) = n div 256" by (rule "1.IH")
    with False show ?thesis by (simp add: digits_le.simps [of n])
  qed
qed

fun enc_str :: "string \<Rightarrow> string" where
  "enc_str [] = ''.''"
| "enc_str (c # cs) = CHR ''x'' # c # enc_str cs"

fun dec_str :: "string \<Rightarrow> (string \<times> string) option" where
  "dec_str [] = None"
| "dec_str [t] = (if t = CHR ''.'' then Some ([], []) else None)"
| "dec_str (t # c # r) =
     (if t = CHR ''.'' then Some ([], c # r)
      else (case dec_str r of None \<Rightarrow> None | Some (s, r') \<Rightarrow> Some (c # s, r')))"

lemma dec_enc_str [simp]: "dec_str (enc_str s @ r) = Some (s, r)"
proof (induction s)
  case Nil
  then show ?case by (cases r) simp_all
next
  case (Cons c s)
  then show ?case by simp
qed

lemma enc_str_nonempty [simp]: "0 < length (enc_str s)"
  by (cases s) simp_all

section \<open>JSON\<close>

fun enc_num :: "jnumber \<Rightarrow> string" where
  "enc_num (PosInt n) = CHR ''p'' # enc_str (digits_le n)"
| "enc_num (NegInt i) = CHR ''m'' # enc_str (digits_le (nat (- i)))"
| "enc_num (Float w) = CHR ''d'' # enc_str (digits_le (unat w))"

fun enc :: "json \<Rightarrow> string"
  and enc_arr :: "json list \<Rightarrow> string"
  and enc_obj :: "(string \<times> json) list \<Rightarrow> string" where
  "enc JNull = ''n''"
| "enc (JBool b) = (if b then ''t'' else ''f'')"
| "enc (JNumber n) = enc_num n"
| "enc (JString s) = CHR ''s'' # enc_str s"
| "enc (JArray vs) = CHR ''a'' # enc_arr vs"
| "enc (JObject kvs) = CHR ''o'' # enc_obj kvs"
| "enc_arr [] = ''.''"
| "enc_arr (v # vs) = CHR ''x'' # enc v @ enc_arr vs"
| "enc_obj [] = ''.''"
| "enc_obj ((k, v) # kvs) = CHR ''x'' # enc_str k @ enc v @ enc_obj kvs"

definition dec_num :: "(nat \<Rightarrow> jnumber) \<Rightarrow> string \<Rightarrow> (json \<times> string) option" where
  "dec_num f r = map_option (\<lambda>(s, r'). (JNumber (f (undigits_le s)), r')) (dec_str r)"

fun dec :: "nat \<Rightarrow> string \<Rightarrow> (json \<times> string) option"
  and dec_arr :: "nat \<Rightarrow> string \<Rightarrow> (json list \<times> string) option"
  and dec_obj :: "nat \<Rightarrow> string \<Rightarrow> ((string \<times> json) list \<times> string) option" where
  "dec 0 s = None"
| "dec (Suc n) [] = None"
| "dec (Suc n) (c # r) =
     (if c = CHR ''n'' then Some (JNull, r)
      else if c = CHR ''t'' then Some (JBool True, r)
      else if c = CHR ''f'' then Some (JBool False, r)
      else if c = CHR ''p'' then dec_num PosInt r
      else if c = CHR ''m'' then dec_num (\<lambda>k. NegInt (- int k)) r
      else if c = CHR ''d'' then dec_num (\<lambda>k. Float (of_nat k)) r
      else if c = CHR ''s'' then map_option (\<lambda>(s, r'). (JString s, r')) (dec_str r)
      else if c = CHR ''a'' then map_option (\<lambda>(vs, r'). (JArray vs, r')) (dec_arr n r)
      else if c = CHR ''o'' then map_option (\<lambda>(kvs, r'). (JObject kvs, r')) (dec_obj n r)
      else None)"
| "dec_arr 0 s = None"
| "dec_arr (Suc n) [] = None"
| "dec_arr (Suc n) (c # r) =
     (if c = CHR ''.'' then Some ([], r)
      else (case dec n r of None \<Rightarrow> None
            | Some (v, r') \<Rightarrow> map_option (\<lambda>(vs, r''). (v # vs, r'')) (dec_arr n r')))"
| "dec_obj 0 s = None"
| "dec_obj (Suc n) [] = None"
| "dec_obj (Suc n) (c # r) =
     (if c = CHR ''.'' then Some ([], r)
      else (case dec_str r of None \<Rightarrow> None
            | Some (k, r') \<Rightarrow>
               (case dec n r' of None \<Rightarrow> None
                | Some (v, r'') \<Rightarrow> map_option (\<lambda>(kvs, q). ((k, v) # kvs, q)) (dec_obj n r''))))"

lemma dec_num_enc [simp]: "dec_num f (enc_str (digits_le k) @ r) = Some (JNumber (f k), r)"
  by (simp add: dec_num_def)

lemma dec_enc:
  "json_integral v \<Longrightarrow> length (enc v) \<le> n \<Longrightarrow> dec n (enc v @ r) = Some (v, r)"
  "list_all json_integral vs \<Longrightarrow> length (enc_arr vs) \<le> n \<Longrightarrow> dec_arr n (enc_arr vs @ r) = Some (vs, r)"
  "list_all (\<lambda>kv. json_integral (snd kv)) kvs \<Longrightarrow> length (enc_obj kvs) \<le> n \<Longrightarrow>
     dec_obj n (enc_obj kvs @ r) = Some (kvs, r)"
proof (induction v and vs and kvs arbitrary: n r and n r and n r rule: enc_enc_arr_enc_obj.induct)
  case 1
  then show ?case by (cases n) simp_all
next
  case (2 b)
  then show ?case by (cases n; cases b) simp_all
next
  case (3 num)
  then obtain m where "n = Suc m" by (cases n; cases num) simp_all
  with 3 show ?case by (cases num) simp_all
next
  case (4 s)
  then show ?case by (cases n) simp_all
next
  case (5 vs)
  then show ?case by (cases n) simp_all
next
  case (6 kvs)
  then show ?case by (cases n) simp_all
next
  case 7
  then show ?case by (cases n) simp_all
next
  case (8 v vs)
  then show ?case by (cases n) simp_all
next
  case 9
  then show ?case by (cases n) simp_all
next
  case (10 k v kvs)
  then show ?case by (cases n) simp_all
qed

section \<open>Timestamps\<close>

fun big_endian :: "nat \<Rightarrow> nat \<Rightarrow> string" where
  "big_endian 0 n = []"
| "big_endian (Suc k) n = char_of (n div 256 ^ k) # big_endian k (n mod 256 ^ k)"

fun from_big_endian :: "string \<Rightarrow> nat" where
  "from_big_endian [] = 0"
| "from_big_endian (c # cs) = of_char c * 256 ^ length cs + from_big_endian cs"

lemma length_big_endian [simp]: "length (big_endian k n) = k"
  by (induction k arbitrary: n) simp_all

lemma from_big_endian_inverse: "n < 256 ^ k \<Longrightarrow> from_big_endian (big_endian k n) = n"
proof (induction k arbitrary: n)
  case 0
  then show ?case by simp
next
  case (Suc k)
  have "n div 256 ^ k < 256" using Suc.prems by (simp add: less_mult_imp_div_less mult.commute)
  then have "from_big_endian (big_endian (Suc k) n) = n div 256 ^ k * 256 ^ k + n mod 256 ^ k"
    using Suc.IH [of "n mod 256 ^ k"] by simp
  then show ?case by (simp only: div_mult_mod_eq)
qed

lemma big_endian_less:
  "m < 256 ^ k \<Longrightarrow> n < 256 ^ k \<Longrightarrow> big_endian k m < big_endian k n \<longleftrightarrow> m < n"
proof (induction k arbitrary: m n)
  case 0
  then show ?case by simp
next
  case (Suc k)
  let ?b = "256 ^ k :: nat"
  have hi: "m div ?b < 256" "n div ?b < 256"
    using Suc.prems by (simp_all add: less_mult_imp_div_less mult.commute)
  have order: "char_of a < (char_of b :: char) \<longleftrightarrow> a < b" if "a < 256" "b < 256" for a b :: nat
    using that by (simp add: less_char_def)
  have inj: "char_of a = (char_of b :: char) \<longleftrightarrow> a = b" if "a < 256" "b < 256" for a b :: nat
    using that by (metis of_char_of mod_less)
  have IH: "big_endian k (m mod ?b) < big_endian k (n mod ?b) \<longleftrightarrow> m mod ?b < n mod ?b"
    by (rule Suc.IH) simp_all
  have "big_endian (Suc k) m < big_endian (Suc k) n \<longleftrightarrow>
      m div ?b < n div ?b \<or> (m div ?b = n div ?b \<and> m mod ?b < n mod ?b)"
    using order [OF hi] inj [OF hi] IH by (simp only: big_endian.simps Cons_less_Cons)
  also have "\<dots> \<longleftrightarrow> m < n"
  proof
    assume "m < n"
    then have "m div ?b \<le> n div ?b" by (simp add: div_le_mono)
    moreover have "m mod ?b < n mod ?b" if "m div ?b = n div ?b"
      using \<open>m < n\<close> that by (metis div_mult_mod_eq nat_add_left_cancel_less)
    ultimately show "m div ?b < n div ?b \<or> (m div ?b = n div ?b \<and> m mod ?b < n mod ?b)"
      by linarith
  next
    assume "m div ?b < n div ?b \<or> (m div ?b = n div ?b \<and> m mod ?b < n mod ?b)"
    then show "m < n"
    proof
      assume "m div ?b < n div ?b"
      then show "m < n" by (meson div_le_mono not_less)
    next
      assume "m div ?b = n div ?b \<and> m mod ?b < n mod ?b"
      then show "m < n" by (metis div_mult_mod_eq nat_add_left_cancel_less)
    qed
  qed
  finally show ?case .
qed

section \<open>The environment\<close>

definition epoch_offset :: int where
  "epoch_offset = 62167219200000000000"

definition ref_env :: env where
  "ref_env = \<lparr>
     to_json_string = enc,
     from_json_str = (\<lambda>s. case dec (length s) s of
        Some (v, []) \<Rightarrow> if json_wf v then Some v else None | _ \<Rightarrow> None),
     sha256_digest = (\<lambda>s. replicate 32 (of_nat (length s))),
     uuid_to_string = (\<lambda>u. digits_le (unat u)),
     uuid_parse_str = (\<lambda>s. Some (of_nat (undigits_le s))),
     to_rfc3339_nanos = (\<lambda>t. big_endian 9 (nat (t + epoch_offset))),
     parse_from_rfc3339 = (\<lambda>s. Some (int (from_big_endian s) - epoch_offset)),
     sqlite_json_valid = (\<lambda>_. True)\<rparr>"

lemma rfc3339_range_nat:
  "rfc3339_range t \<Longrightarrow> nat (t + epoch_offset) < 256 ^ 9 \<and> 0 \<le> t + epoch_offset"
  by (simp add: rfc3339_range_def epoch_offset_def nat_less_iff)

lemma env_ok_ref_env: "env_ok ref_env"
proof -
  have "json_laws ref_env"
    using dec_enc(1) [where r = "[]"]
    by (auto simp: json_laws_def ref_env_def json_plain_def split: option.splits prod.splits list.splits
        if_splits)
  moreover have "uuid_laws ref_env"
    by (simp add: uuid_laws_def ref_env_def)
  moreover have "time_laws ref_env"
  proof -
    have "nat (s + epoch_offset) < nat (t + epoch_offset) \<longleftrightarrow> s < t"
      if "rfc3339_range s" "rfc3339_range t" for s t
      using rfc3339_range_nat [OF that(1)] rfc3339_range_nat [OF that(2)] by linarith
    then show ?thesis
      using rfc3339_range_nat
      by (simp add: time_laws_def ref_env_def from_big_endian_inverse big_endian_less)
  qed
  moreover have "sha_laws ref_env"
    by (simp add: sha_laws_def ref_env_def)
  ultimately show ?thesis by (simp add: env_ok_def)
qed

section \<open>Lengths of texts\<close>

lemma length_enc_str [simp]: "length (enc_str s) = 2 * length s + 1"
  by (induction s) simp_all

lemma length_digits_le: "length (digits_le n) \<le> n"
proof (induction n rule: digits_le.induct)
  case (1 n)
  show ?case
  proof (cases "n = 0")
    case False
    then have "length (digits_le (n div 256)) \<le> n div 256" by (rule "1.IH")
    then show ?thesis using False by (simp add: digits_le.simps [of n])
  qed (simp add: digits_le.simps)
qed

lemma length_enc_arr: "length (enc_arr vs) = 1 + sum_list (map (\<lambda>v. length (enc v) + 1) vs)"
  by (induction vs) simp_all

lemma length_enc_obj:
  "length (enc_obj kvs) = 1 + sum_list (map (\<lambda>kv. 2 * length (fst kv) + 2 + length (enc (snd kv))) kvs)"
  by (induction kvs) auto

lemma sum_list_sort_key [simp]: "sum_list (map f (sort_key k xs)) = (sum_list (map f xs) :: nat)"
  by (metis mset_map mset_sort sum_mset_sum_list)

lemma length_enc_canonical [simp]: "length (enc (canonical_value v)) = length (enc v)"
proof (induction v rule: canonical_value.induct)
  case (1 vs)
  then show ?case
    by (simp add: length_enc_arr comp_def cong: map_cong)
next
  case (2 kvs)
  then have "map (\<lambda>kv. 2 * length (fst kv) + 2 + length (enc (snd kv))) (map canonical_entry kvs)
      = map (\<lambda>kv. 2 * length (fst kv) + 2 + length (enc (snd kv))) kvs"
    by auto
  then show ?case by (simp add: length_enc_obj del: map_map map_eq_conv)
qed simp_all

lemma length_canonical_json [simp]: "length (canonical_json ref_env v) = length (enc v)"
  by (simp add: canonical_json_eq) (simp add: ref_env_def)

lemma length_ref_uuid: "length (uuid_to_string ref_env u) \<le> unat u"
  by (simp add: ref_env_def length_digits_le)

end
