(* ===== verification/Ledger_Demo.thy ===== *)
theory Ledger_Demo
  imports Ledger_Progress Reference_Env
begin

text \<open>
  One concrete run of the ledger: an agent's write is planned, submitted for approval,
  approved by the local user and claimed for execution. The ledgers between the calls,
  \<open>demo_planned\<close>, \<open>demo_pending\<close>, \<open>demo_approved\<close> and \<open>demo_executing\<close>, are the
  inputs at which the theorems about reachable ledgers are applied.
\<close>

section \<open>What a state change leaves\<close>

lemma moved_ledger_events:
  "map er_id (db_events (moved_ledger E row cur t details now evid db))
     = map er_id (db_events db) @ [uuid_to_string E evid]"
  by (simp add: moved_ledger_def Let_def new_event_row_def)

lemma moved_ledger_operations:
  "db_operations (moved_ledger E row cur t details now evid db)
     = map (\<lambda>r. if r_id r = r_id row then set_lifecycle t (to_rfc3339_nanos E now) row else r)
         (db_operations db)"
  by (simp add: moved_ledger_def Let_def)

lemma moved_ledger_approvals [simp]:
  "db_approvals (moved_ledger E row cur t details now evid db) = db_approvals db"
  by (simp add: moved_ledger_def Let_def)

lemma length_op_events_le: "length (op_events db i) \<le> length (db_events db)"
  by (simp add: op_events_def)

section \<open>The operation\<close>

definition demo_operation :: new_operation where
  "demo_operation = \<lparr>n_id = 1, n_workspace_id = 2, n_account_scope = ''local'', n_connection_id = 3,
     n_connection_revision = 1, n_terminal_session_id = None,
     n_actor = \<lparr>actor_kind = Agent, actor_id = ''a'', actor_provenance =
        \<lparr>local_account_id = None, workspace_account_id = None, agent_provider = None,
         agent_model = None, plugin_id = None, plugin_version = None,
         client_protocol_version = None, origin_surface = ''cli''\<rparr>\<rparr>,
     n_kind = WriteSql, n_payload_schema_version = 1,
     n_payload = JObject [(''sql'', JString ''DELETE FROM t'')],
     n_schema_fingerprint = None, n_risk_level = Risk_High, n_preview = JNull,
     n_policy_snapshot = JNull, n_policy_revision = ''p'', n_single_use = True,
     n_idempotency_key = ''k'', n_expires_at = Some 900\<rparr>"

definition demo_prepared :: prepared_operation where
  "demo_prepared = \<lparr>p_runtime_id = 9, p_operation = demo_operation,
     p_payload = canonical_from_value ref_env (n_payload demo_operation),
     p_actor_provenance_json = canonical_json ref_env
       (provenance_to_value (actor_provenance (n_actor demo_operation))),
     p_preview_json = canonical_json ref_env JNull,
     p_policy_snapshot_json = canonical_json ref_env JNull\<rparr>"

lemma not_blank_demo: "\<not> blank ''local''" "\<not> blank ''a''" "\<not> blank ''cli''" "\<not> blank ''p''"
    "\<not> blank ''k''" "\<not> blank ''u''"
  by code_simp+

lemma demo_valid: "validate_new_operation demo_operation = Inr ()"
  by (simp add: validate_new_operation_def demo_operation_def not_blank_demo)

lemma demo_prepare: "prepare_operation ref_env 9 demo_operation = Inr demo_prepared"
proof -
  have "cj_json (canonical_from_value ref_env v) = canonical_json ref_env v" for v
    by (simp add: canonical_json_def)
  then show ?thesis
    by (simp add: prepare_operation_def demo_valid demo_prepared_def Let_def guard_def
        max_request_bytes_def max_response_bytes_def)
      (simp add: demo_operation_def provenance_to_value_def provenance_entries_def opt_field_def)
qed

lemma demo_plain: "plain_operation demo_operation"
  by (simp add: plain_operation_def demo_operation_def json_plain_def version_ok_def
      expiry_in_range_def rfc3339_range_def)

abbreviation demo_rec :: "operation_state \<Rightarrow> datetime \<Rightarrow> operation_record" where
  "demo_rec s t \<equiv> moved_record s t (planned_record ref_env 9 demo_operation 0)"

lemma demo_record_simps [simp]:
  "o_id (planned_record ref_env 9 demo_operation t) = 1"
  "o_kind (planned_record ref_env 9 demo_operation t) = WriteSql"
  "o_runtime_id (planned_record ref_env 9 demo_operation t) = 9"
  "o_state (planned_record ref_env 9 demo_operation t) = Planned"
  "o_policy_revision (planned_record ref_env 9 demo_operation t) = ''p''"
  "o_expires_at (planned_record ref_env 9 demo_operation t) = Some 900"
  by (simp_all add: planned_record_def demo_operation_def)

lemma length_demo_hash [simp]:
  "length (o_payload_hash (planned_record ref_env 9 demo_operation t)) = 64"
  by (simp add: planned_record_def canonical_hash_eq env_ok_ref_env)

lemma demo_fits:
  assumes "json_plain d" "length (enc d) \<le> 1000"
    and "uuid_to_string ref_env e \<notin> er_id ` set (db_events db)" "length (db_events db) < 100"
  shows "event_fits ref_env u d e db"
proof -
  have "length (op_events db (uuid_to_string ref_env u)) < 100"
    using length_op_events_le [of db "uuid_to_string ref_env u"] assms(4) by linarith
  then show ?thesis
    using assms by (simp add: event_fits_def max_response_bytes_def)
qed

section \<open>The run\<close>

definition demo_planned :: ledger where
  "demo_planned = exec_call ref_env (Call_insert_planned 9 demo_operation 0 101) empty_ledger"

definition demo_pending :: ledger where
  "demo_pending = exec_call ref_env (Call_transition 1 9 PendingApproval JNull 1 102) demo_planned"

definition demo_decision :: approval_command where
  "demo_decision = \<lparr>c_operation_id = 1, c_runtime_id = 9,
     c_expected_payload_hash = canonical_hash ref_env (n_payload demo_operation),
     c_approver = \<lparr>approver_kind = LocalUser, approver_id = ''u''\<rparr>,
     c_decision = Decision_Approved, c_reason = None, c_current_policy_revision = ''p'', c_now = 2\<rparr>"

definition demo_approved :: ledger where
  "demo_approved = exec_call ref_env (Call_decide_approval demo_decision 201 103) demo_pending"

definition demo_executing :: ledger where
  "demo_executing = exec_call ref_env (Call_claim_execution 1 9 3 104) demo_approved"

text \<open>What is known of a ledger of the run: one operation row, and the events' identifiers.\<close>

definition demo_at :: "ledger \<Rightarrow> operation_record \<Rightarrow> uuid list \<Rightarrow> bool" where
  "demo_at db rec ids \<longleftrightarrow> ledger_ok ref_env db \<and>
     (\<exists>row. db_operations db = [row] \<and> row_to_operation ref_env row = Inr rec) \<and>
     map er_id (db_events db) = map (uuid_to_string ref_env) ids"

lemma demo_at_planned:
  "insert_planned ref_env 9 demo_operation 0 101 empty_ledger
     = (Inr (planned_record ref_env 9 demo_operation 0), demo_planned)"
  "demo_at demo_planned (planned_record ref_env 9 demo_operation 0) [101]"
proof -
  have now: "rfc3339_range 0" by (simp add: rfc3339_range_def)
  have fits: "event_fits ref_env (n_id demo_operation) (planned_details demo_prepared) 101 empty_ledger"
  proof (rule demo_fits)
    show "length (enc (planned_details demo_prepared)) \<le> 1000"
      by (simp add: planned_details_def length_enc_obj demo_prepared_def canonical_from_value_def
          Let_def env_ok_ref_env) (simp add: demo_operation_def)
  qed (simp_all add: empty_ledger_def)
  have run: "insert_planned ref_env 9 demo_operation 0 101 empty_ledger
     = (Inr (planned_record ref_env 9 demo_operation 0),
        planned_ledger ref_env demo_prepared 0 101 empty_ledger)"
    by (rule insert_planned_succeeds [OF env_ok_ref_env ledger_ok_empty demo_prepare demo_plain now
          _ _ fits]) (simp_all add: empty_ledger_def)
  then show "insert_planned ref_env 9 demo_operation 0 101 empty_ledger
     = (Inr (planned_record ref_env 9 demo_operation 0), demo_planned)"
    by (simp add: demo_planned_def)
  have "ledger_ok ref_env demo_planned"
    unfolding demo_planned_def
    by (rule ledger_steps_ok [OF exec_call_steps ledger_ok_empty env_ok_ref_env])
      (simp_all add: env_ok_ref_env now ledger_ok_empty,
       simp add: demo_operation_def expiry_in_range_def rfc3339_range_def)
  moreover have eq: "demo_planned = planned_ledger ref_env demo_prepared 0 101 empty_ledger"
    by (simp add: demo_planned_def run)
  have "db_operations demo_planned = [operation_row_of ref_env demo_prepared 0]"
    "map er_id (db_events demo_planned) = [uuid_to_string ref_env 101]"
    by (simp_all add: eq planned_ledger_def Let_def empty_ledger_def new_event_row_def)
  ultimately show "demo_at demo_planned (planned_record ref_env 9 demo_operation 0) [101]"
    using row_of_planned [OF env_ok_ref_env demo_prepare demo_plain now]
    by (simp add: demo_at_def)
qed

lemma demo_at_fits:
  assumes "demo_at db rec ids" "json_plain d" "length (enc d) \<le> 1000"
    and "e \<notin> set ids" "length ids < 100"
  shows "event_fits ref_env u d e db"
proof (rule demo_fits [OF assms(2,3)])
  have ids: "map er_id (db_events db) = map (uuid_to_string ref_env) ids"
    using assms(1) by (simp add: demo_at_def)
  show "uuid_to_string ref_env e \<notin> er_id ` set (db_events db)"
    using assms(4) unfolding set_map [symmetric] ids by (auto simp: env_ok_ref_env)
  show "length (db_events db) < 100"
    using assms(5) arg_cong [OF ids, of length] by simp
qed

lemma demo_at_moved:
  assumes "demo_at db rec ids" "db_operations db = [row]" "row_to_operation ref_env row = Inr rec"
    and "rfc3339_range now"
    and "ledger_ok ref_env (moved_ledger ref_env row rec t d now e db')"
    and "db_operations db' = db_operations db" "db_events db' = db_events db"
  shows "demo_at (moved_ledger ref_env row rec t d now e db') (moved_record t now rec) (ids @ [e])"
  using assms row_to_operation_set_lifecycle [OF assms(3), of "to_rfc3339_nanos ref_env now" now t]
  by (simp add: demo_at_def moved_ledger_operations moved_ledger_events env_ok_ref_env)

lemma exec_call_ok:
  assumes "env_ok E" "ledger_ok E db" "call_ok call"
  shows "ledger_ok E (exec_call E call db)"
  by (rule ledger_steps_ok [OF exec_call_steps]) (use assms in simp_all)

lemma demo_at_pending:
  "transition ref_env 1 9 PendingApproval JNull 1 102 demo_planned
     = (Inr (demo_rec PendingApproval 1), demo_pending)"
  "demo_at demo_pending (demo_rec PendingApproval 1) [101, 102]"
proof -
  obtain row where row: "db_operations demo_planned = [row]"
    "row_to_operation ref_env row = Inr (planned_record ref_env 9 demo_operation 0)"
    and ok: "ledger_ok ref_env demo_planned"
    using demo_at_planned(2) by (auto simp: demo_at_def)
  have now: "rfc3339_range 1" by (simp add: rfc3339_range_def)
  have fits: "event_fits ref_env 1 JNull 102 demo_planned"
    by (rule demo_at_fits [OF demo_at_planned(2)]) (simp_all add: json_plain_def)
  have run: "transition ref_env 1 9 PendingApproval JNull 1 102 demo_planned
     = (Inr (demo_rec PendingApproval 1), moved_ledger ref_env row
         (planned_record ref_env 9 demo_operation 0) PendingApproval JNull 1 102 demo_planned)"
    using transition_succeeds [OF env_ok_ref_env ok _ row(2) _ _ _ now, of 9 PendingApproval JNull 102]
      row(1) fits
    by (simp add: transition_allowed_def)
  then show "transition ref_env 1 9 PendingApproval JNull 1 102 demo_planned
     = (Inr (demo_rec PendingApproval 1), demo_pending)"
    by (simp add: demo_pending_def)
  have ok': "ledger_ok ref_env demo_pending"
    unfolding demo_pending_def
    by (rule exec_call_ok [OF env_ok_ref_env ok]) (simp add: now json_plain_def)
  have eq: "demo_pending = moved_ledger ref_env row
         (planned_record ref_env 9 demo_operation 0) PendingApproval JNull 1 102 demo_planned"
    by (simp add: demo_pending_def run)
  show "demo_at demo_pending (demo_rec PendingApproval 1) [101, 102]"
    using demo_at_moved [OF demo_at_planned(2) row now ok' [unfolded eq]] by (simp add: eq)
qed

lemma demo_decidable: "decidable_by (demo_rec PendingApproval 1) demo_decision"
  by (simp add: decidable_by_def demo_decision_def not_blank_demo expired_at_def)
    (simp add: planned_record_def)

lemma demo_at_approved:
  "decide_approval ref_env demo_decision 201 103 demo_pending
     = (Inr (moved_record Approved 2 (demo_rec PendingApproval 1)), demo_approved)"
  "demo_at demo_approved (moved_record Approved 2 (demo_rec PendingApproval 1)) [101, 102, 103]"
  "db_approvals demo_approved = [approval_row_of ref_env (demo_rec PendingApproval 1) demo_decision 201]"
proof -
  let ?rec = "demo_rec PendingApproval 1"
  let ?a = "approval_row_of ref_env ?rec demo_decision 201"
  obtain row where row: "db_operations demo_pending = [row]" "row_to_operation ref_env row = Inr ?rec"
    and ok: "ledger_ok ref_env demo_pending"
    using demo_at_pending(2) by (auto simp: demo_at_def)
  have none: "db_approvals demo_pending = []"
  proof -
    have "db_approvals demo_planned = []"
      by (simp add: demo_planned_def insert_planned_def run_tx_def demo_prepare empty_ledger_def
          insert_operation_row_def append_event_tx_def insert_event_row_def Let_def rbind_def
          split: sum.split option.split)
    then show ?thesis
      by (simp add: demo_pending_def transition_def run_tx_def transition_tx_def append_event_tx_def
          insert_event_row_def update_operations_def Let_def rbind_def
          split: sum.split option.split prod.split)
  qed
  have id: "r_id row = uuid_to_string ref_env 1"
    using rows_ok_id [of ref_env demo_pending row ?rec] ok row by simp
  have now: "rfc3339_range 2" by (simp add: rfc3339_range_def)
  have checks: "approval_row_checks ?a"
    by (simp add: approval_row_checks_def approval_row_of_def demo_decision_def)
      (simp add: planned_record_def canonical_hash_eq env_ok_ref_env)
  have ins: "insert_approval_row ?a demo_pending = Inr (demo_pending\<lparr>db_approvals := [?a]\<rparr>)"
    using row(1) checks none id by (simp add: insert_approval_row_def) (simp add: approval_row_of_def)
  have fits: "event_fits ref_env 1 (approval_details ref_env ?rec demo_decision 201) 103 demo_pending"
  proof (rule demo_at_fits [OF demo_at_pending(2)])
    show "length (enc (approval_details ref_env ?rec demo_decision 201)) \<le> 1000"
      using length_ref_uuid [of 201]
      by (simp add: approval_details_def length_enc_obj demo_decision_def)
  qed simp_all
  have run: "decide_approval ref_env demo_decision 201 103 demo_pending
     = (Inr (moved_record Approved 2 ?rec), moved_ledger ref_env row ?rec Approved
         (approval_details ref_env ?rec demo_decision 201) 2 103 (demo_pending\<lparr>db_approvals := [?a]\<rparr>))"
    using decide_succeeds [OF env_ok_ref_env ok _ row(2) _ demo_decidable ins, of 103] fits row(1) now
    by (simp add: demo_decision_def)
  then show "decide_approval ref_env demo_decision 201 103 demo_pending
     = (Inr (moved_record Approved 2 ?rec), demo_approved)"
    by (simp add: demo_approved_def)
  have ok': "ledger_ok ref_env demo_approved"
    unfolding demo_approved_def
    by (rule exec_call_ok [OF env_ok_ref_env ok]) (simp add: demo_decision_def now)
  have eq: "demo_approved = moved_ledger ref_env row ?rec Approved
         (approval_details ref_env ?rec demo_decision 201) 2 103 (demo_pending\<lparr>db_approvals := [?a]\<rparr>)"
    by (simp add: demo_approved_def run)
  show "demo_at demo_approved (moved_record Approved 2 ?rec) [101, 102, 103]"
    using demo_at_moved [OF demo_at_pending(2) row now ok' [unfolded eq]] by (simp add: eq)
  show "db_approvals demo_approved = [?a]" by (simp add: eq)
qed

lemma demo_claimable:
  "claimable ref_env (moved_record Approved 2 (demo_rec PendingApproval 1)) 3 demo_approved"
proof -
  have "to_rfc3339_nanos ref_env 3 < to_rfc3339_nanos ref_env 900"
    by (simp add: env_ok_time_less [OF env_ok_ref_env] rfc3339_range_def)
  then show ?thesis
    by (simp add: claimable_def expired_at_def has_exact_approval_def demo_at_approved(3)
        approval_row_of_def) (simp add: demo_decision_def)
qed

lemma demo_at_executing:
  "claim_execution ref_env 1 9 3 104 demo_approved
     = (Inr (moved_record Executing 3 (moved_record Approved 2 (demo_rec PendingApproval 1))),
        demo_executing)"
  "demo_at demo_executing (moved_record Executing 3 (moved_record Approved 2 (demo_rec PendingApproval 1)))
     [101, 102, 103, 104]"
proof -
  let ?rec = "moved_record Approved 2 (demo_rec PendingApproval 1)"
  obtain row where row: "db_operations demo_approved = [row]" "row_to_operation ref_env row = Inr ?rec"
    and ok: "ledger_ok ref_env demo_approved"
    using demo_at_approved(2) by (auto simp: demo_at_def)
  have now: "rfc3339_range 3" by (simp add: rfc3339_range_def)
  have fits: "event_fits ref_env 1 (claim_details ?rec) 104 demo_approved"
  proof (rule demo_at_fits [OF demo_at_approved(2)])
    show "length (enc (claim_details ?rec)) \<le> 1000"
      by (simp add: claim_details_def length_enc_obj)
  qed simp_all
  have run: "claim_execution ref_env 1 9 3 104 demo_approved
     = (Inr (moved_record Executing 3 ?rec),
        moved_ledger ref_env row ?rec Executing (claim_details ?rec) 3 104 demo_approved)"
    using claim_succeeds [OF env_ok_ref_env ok _ row(2) _ demo_claimable now, of 9 104] fits row(1)
    by simp
  then show "claim_execution ref_env 1 9 3 104 demo_approved
     = (Inr (moved_record Executing 3 ?rec), demo_executing)"
    by (simp add: demo_executing_def)
  have ok': "ledger_ok ref_env demo_executing"
    unfolding demo_executing_def by (rule exec_call_ok [OF env_ok_ref_env ok]) (simp add: now)
  have eq: "demo_executing = moved_ledger ref_env row ?rec Executing (claim_details ?rec) 3 104 demo_approved"
    by (simp add: demo_executing_def run)
  show "demo_at demo_executing (moved_record Executing 3 ?rec) [101, 102, 103, 104]"
    using demo_at_moved [OF demo_at_approved(2) row now ok' [unfolded eq]] by (simp add: eq)
qed

end
