(* ===== verification/Ledger_Evolution.thy ===== *)
theory Ledger_Evolution
  imports Ledger_Invariant
begin

text \<open>
  How a ledger changes over time: rows are never removed, only their lifecycle columns move,
  and they move along the transition table; approvals and events are only appended; an
  operation in a final state is never touched again.
\<close>

section \<open>One row over time\<close>

definition row_evolves :: "env \<Rightarrow> operation_row \<Rightarrow> operation_row \<Rightarrow> bool" where
  "row_evolves E row row' \<longleftrightarrow> r_id row' = r_id row \<and> \<not> immutable_columns_differ row row' \<and>
     (\<forall>rec. row_to_operation E row = Inr rec \<longrightarrow>
        (\<exists>rec'. row_to_operation E row' = Inr rec' \<and>
           transition_allowed\<^sup>*\<^sup>* (o_state rec) (o_state rec')))"

lemma row_evolves_refl [simp]: "row_evolves E row row"
  by (auto simp: row_evolves_def immutable_columns_differ_def)

lemma row_evolves_trans: "row_evolves E a b \<Longrightarrow> row_evolves E b c \<Longrightarrow> row_evolves E a c"
  unfolding row_evolves_def
  by (fastforce simp: immutable_columns_differ_def intro: rtranclp_trans)

text \<open>A row in a final state does not evolve; after a claim it is never claimable again.\<close>

lemma row_evolves_state:
  assumes "row_evolves E row row'" "row_to_operation E row = Inr rec"
  obtains rec' where "row_to_operation E row' = Inr rec'"
    "transition_allowed\<^sup>*\<^sup>* (o_state rec) (o_state rec')"
  using assms unfolding row_evolves_def by blast

lemma started_not_claimable:
  assumes "transition_allowed\<^sup>*\<^sup>* Executing s"
  shows "s \<notin> {Ready, Approved}"
proof -
  have "Executing = s \<or> transition_allowed\<^sup>+\<^sup>+ Executing s"
    using assms by (metis rtranclpD)
  then have "lifecycle_rank Executing \<le> lifecycle_rank s"
    using op_life.run_rank [of Executing s] by auto
  then show ?thesis by auto
qed

section \<open>One step\<close>

text \<open>
  What a step keeps: the rows present evolve, and a row in a final state and its events stay
  as they are.
\<close>

definition ledger_extends :: "env \<Rightarrow> ledger \<Rightarrow> ledger \<Rightarrow> bool" where
  "ledger_extends E db db' \<longleftrightarrow>
     prefix (db_approvals db) (db_approvals db') \<and>
     prefix (db_events db) (db_events db') \<and>
     length (db_operations db) \<le> length (db_operations db') \<and>
     (\<forall>i < length (db_operations db). row_evolves E (db_operations db ! i) (db_operations db' ! i))"

lemma ledger_extends_refl [simp]: "ledger_extends E db db"
  by (simp add: ledger_extends_def)

lemma ledger_extends_trans:
  assumes "ledger_extends E a b" "ledger_extends E b c"
  shows "ledger_extends E a c"
  using assms unfolding ledger_extends_def
  by (auto intro: prefix_order.trans row_evolves_trans [of E _ "db_operations b ! _"])

lemma set_lifecycle_evolves:
  assumes "row_to_operation E row = Inr cur" "transition_allowed (o_state cur) t"
    and "row_to_operation E (set_lifecycle t s row) = Inr upd"
  shows "row_evolves E row (set_lifecycle t s row)"
proof -
  have "o_state upd = t"
    using row_to_operation_state [OF assms(3)] by (simp add: state_codec.to_text_inject)
  then show ?thesis using assms by (auto simp: row_evolves_def)
qed

lemma ledger_step_extends:
  assumes "ledger_step E db db'" "rows_ok E db"
  shows "ledger_extends E db db'"
  using assms(1)
proof (cases rule: ledger_step.cases)
  case (plan row db1 rec details now e evid)
  then show ?thesis
    by (auto simp: ledger_extends_def insert_operation_row_Inr nth_append)
next
  case (advance row cur target now row' upd details e evid)
  have "row_evolves E row row'"
    using set_lifecycle_evolves [OF advance(3,4)] advance(6,7) by simp
  moreover have "r = row" if "r \<in> set (db_operations db)" "r_id r = r_id row" for r
    using row_unique [OF assms(2) advance(2) that] .
  ultimately have "row_evolves E r (if r_id r = r_id row then row' else r)"
    if "r \<in> set (db_operations db)" for r
    using that by auto
  then show ?thesis
    unfolding ledger_extends_def advance(1) by simp
next
  case (approve row cur c aid)
  then show ?thesis by (auto simp: ledger_extends_def insert_approval_row_Inr)
next
  case (progress row cur details now e evid)
  then show ?thesis by (auto simp: ledger_extends_def)
qed

lemma ledger_steps_extends:
  "(ledger_step E)\<^sup>*\<^sup>* db db' \<Longrightarrow> rows_ok E db \<Longrightarrow> env_ok E \<Longrightarrow> ledger_extends E db db'"
proof (induction rule: rtranclp_induct)
  case (step y z)
  then show ?case
    using ledger_steps_rows_ok [OF step.hyps(1)] ledger_step_extends [OF step.hyps(2)]
      ledger_extends_trans by blast
qed simp

lemma ledger_extends_row:
  assumes "ledger_extends E db db'" "row \<in> set (db_operations db)"
  obtains row' where "row' \<in> set (db_operations db')" "row_evolves E row row'"
proof -
  obtain i where "i < length (db_operations db)" "db_operations db ! i = row"
    using assms(2) by (metis in_set_conv_nth)
  then show thesis
    using assms(1) that [of "db_operations db' ! i"] unfolding ledger_extends_def by auto
qed

lemma ledger_step_final:
  assumes "ledger_step E db db'" "rows_ok E db" "row \<in> set (db_operations db)"
    and "row_to_operation E row = Inr rec" "is_terminal (o_state rec)"
  shows "row \<in> set (db_operations db') \<and> op_events db' (r_id row) = op_events db (r_id row)"
  using assms(1)
proof (cases rule: ledger_step.cases)
  case (plan r db1 rec' details now e evid)
  then have "r_id r \<noteq> r_id row" using assms(3) by (auto simp: insert_operation_row_Inr)
  then show ?thesis
    using plan assms(3) by (auto simp: insert_operation_row_Inr op_events_def)
next
  case (advance r cur target now row' upd details e evid)
  have "\<not> is_terminal (o_state cur)" using advance(4) transition_allowed_not_terminal by blast
  then have "r \<noteq> row" using advance(3) assms(4,5) by auto
  then have ne: "r_id r \<noteq> r_id row" using row_unique [OF assms(2) advance(2) assms(3)] by auto
  have "r_id r = uuid_to_string E (o_id cur)" by (rule rows_ok_id [OF assms(2) advance(2,3)])
  then show ?thesis
    using advance(1,11) ne assms(3) by (auto simp: op_events_def image_iff)
next
  case (approve r cur c aid)
  then show ?thesis using assms(3) by (auto simp: insert_approval_row_Inr)
next
  case (progress r cur details now e evid)
  then have "r \<noteq> row" using assms(4,5) by auto
  then have ne: "r_id r \<noteq> r_id row" using row_unique [OF assms(2) progress(2) assms(3)] by auto
  have "r_id r = uuid_to_string E (o_id cur)" by (rule rows_ok_id [OF assms(2) progress(2,3)])
  then show ?thesis using progress ne assms(3) by (auto simp: op_events_def)
qed

lemma ledger_steps_final:
  assumes "(ledger_step E)\<^sup>*\<^sup>* db db'" "rows_ok E db" "env_ok E" "row \<in> set (db_operations db)"
    and "row_to_operation E row = Inr rec" "is_terminal (o_state rec)"
  shows "row \<in> set (db_operations db') \<and> op_events db' (r_id row) = op_events db (r_id row)"
  using assms(1)
proof (induction rule: rtranclp_induct)
  case (step y z)
  have "rows_ok E y" by (rule ledger_steps_rows_ok [OF step.hyps(1) assms(2,3)])
  then show ?case using ledger_step_final [OF step.hyps(2) _ _ assms(5,6)] step.IH by simp
qed (simp add: assms(4))

end
