(* ===== verification/Ledger_Recovery.thy ===== *)
theory Ledger_Recovery
  imports Ledger_Evolution
begin

text \<open>
  The effect of the restart recovery: every operation of an older runtime is moved as
  \<open>restart_recovery\<close> says, every other row stays, and the report lists the operations by the
  action taken, in the order of the rows.
\<close>

section \<open>The report\<close>

abbreviation action_of :: "operation_record \<Rightarrow> restart_recovery_action" where
  "action_of rec \<equiv> restart_recovery (o_kind rec) (o_state rec)"

definition ids_with :: "restart_recovery_action \<Rightarrow> operation_record list \<Rightarrow> uuid list" where
  "ids_with a recs = map o_id (filter (\<lambda>rec. action_of rec = a) recs)"

definition report_of :: "operation_record list \<Rightarrow> recovery_report" where
  "report_of recs = \<lparr>rr_expired = ids_with Expire recs, rr_failed = ids_with MarkFailed recs,
     rr_outcome_unknown = ids_with MarkOutcomeUnknown recs,
     rr_checkpoint_validation_required = ids_with ValidateJobCheckpoint recs\<rparr>"

lemma recover_row_report:
  assumes "recover_row E row now ev (report_of recs, db) = Inr (rep', db')"
  shows "\<exists>rec. row_to_operation E row = Inr rec \<and> rep' = report_of (recs @ [rec])"
proof -
  obtain rec where rec: "row_to_operation E row = Inr rec"
    using assms by (auto simp: recover_row_def rbind_eq_Inr)
  have "rep' = report_of (recs @ [rec])"
    using assms rec
    by (cases "action_of rec")
      (auto simp: recover_row_def rbind_eq_Inr report_of_def ids_with_def)
  with rec show ?thesis by blast
qed

lemma recover_rows_report:
  assumes "recover_rows E clock ids i rows (report_of recs, db) = Inr (rep', db')"
  shows "\<exists>recs'. collect_results (row_to_operation E) rows = Inr recs' \<and>
    rep' = report_of (recs @ recs')"
  using assms
proof (induction rows arbitrary: i recs db)
  case (Cons row rows)
  obtain rep1 db1 where
    turn: "recover_row E row (clock i) (ids i) (report_of recs, db) = Inr (rep1, db1)" and
    rest: "recover_rows E clock ids (Suc i) rows (rep1, db1) = Inr (rep', db')"
    using Cons.prems by (auto simp: rbind_eq_Inr)
  obtain rec where rec: "row_to_operation E row = Inr rec" "rep1 = report_of (recs @ [rec])"
    using recover_row_report [OF turn] by blast
  obtain recs' where "collect_results (row_to_operation E) rows = Inr recs'"
      "rep' = report_of ((recs @ [rec]) @ recs')"
    using Cons.IH [OF rest [unfolded rec(2)]] by blast
  then show ?case using rec(1) by simp
qed simp

section \<open>The rows\<close>

definition recovered_as :: "env \<Rightarrow> operation_row \<Rightarrow> operation_row \<Rightarrow> bool" where
  "recovered_as E row row' \<longleftrightarrow> r_id row' = r_id row \<and> r_runtime_id row' = r_runtime_id row \<and>
     (\<exists>rec rec'. row_to_operation E row = Inr rec \<and> row_to_operation E row' = Inr rec' \<and>
        o_kind rec' = o_kind rec \<and>
        o_state rec' = (case recovery_target (action_of rec) of None \<Rightarrow> o_state rec | Some t \<Rightarrow> t))"

lemma recover_row_effect:
  assumes turn: "recover_row E row now ev (rep, db) = Inr (rep', db')"
    and ok: "rows_ok E db" and row: "row \<in> set (db_operations db)"
  shows "\<exists>row' \<in> set (db_operations db'). recovered_as E row row'"
    and "map r_id (db_operations db') = map r_id (db_operations db)"
    and "\<And>r. r \<in> set (db_operations db) \<Longrightarrow> r_id r \<noteq> r_id row \<Longrightarrow> r \<in> set (db_operations db')"
proof -
  obtain rec where rec: "row_to_operation E row = Inr rec"
    and none: "recovery_target (action_of rec) = None \<Longrightarrow> db' = db"
    and some: "\<And>t. recovery_target (action_of rec) = Some t \<Longrightarrow>
       \<exists>reason u. transition_tx E rec t (reason_details reason) now ev db = Inr (u, db')"
    using recover_row_Inr [OF turn] by blast
  have id: "r_id row = uuid_to_string E (o_id rec)" by (rule rows_ok_id [OF ok row rec])
  have dist: "distinct (map r_id (db_operations db))" using ok by (simp add: rows_ok_def)
  have "(\<exists>row' \<in> set (db_operations db'). recovered_as E row row') \<and>
    map r_id (db_operations db') = map r_id (db_operations db) \<and>
    (\<forall>r \<in> set (db_operations db). r_id r \<noteq> r_id row \<longrightarrow> r \<in> set (db_operations db'))"
  proof (cases "recovery_target (action_of rec)")
    case None
    then have "recovered_as E row row" using rec by (simp add: recovered_as_def)
    then show ?thesis using none [OF None] row by auto
  next
    case (Some t)
    then obtain reason u where
      tx: "transition_tx E rec t (reason_details reason) now ev db = Inr (u, db')"
      using some by blast
    let ?row' = "set_lifecycle t (to_rfc3339_nanos E now) row"
    note spec = transition_tx_Inr [OF tx dist row rec id]
    have "o_state u = t"
      using row_to_operation_state [OF spec(2)] by (simp add: state_codec.to_text_inject)
    moreover have "o_kind u = o_kind rec"
      using row_to_operation_kind [OF spec(2)] row_to_operation_kind [OF rec]
      by (simp add: kind_codec.to_text_inject)
    ultimately have "recovered_as E row ?row'"
      using rec spec(2) Some by (simp add: recovered_as_def)
    moreover have "?row' \<in> set (db_operations db')" using spec(4) row by auto
    moreover have "map r_id (db_operations db') = map r_id (db_operations db)"
      by (simp add: spec(4))
    ultimately show ?thesis using spec(4) by auto
  qed
  then show "\<exists>row' \<in> set (db_operations db'). recovered_as E row row'"
    and "map r_id (db_operations db') = map r_id (db_operations db)"
    and "\<And>r. r \<in> set (db_operations db) \<Longrightarrow> r_id r \<noteq> r_id row \<Longrightarrow> r \<in> set (db_operations db')"
    by blast+
qed

lemma recover_rows_effect:
  assumes "recover_rows E clock ids i rows (rep, db) = Inr (rep', db')"
    and "rows_ok E db" "env_ok E" "\<And>i. rfc3339_range (clock i)"
    and "set rows \<subseteq> set (db_operations db)" "distinct (map r_id rows)"
  shows "(\<forall>r \<in> set rows. \<exists>row' \<in> set (db_operations db'). recovered_as E r row') \<and>
    map r_id (db_operations db') = map r_id (db_operations db) \<and>
    (\<forall>r \<in> set (db_operations db). r_id r \<notin> r_id ` set rows \<longrightarrow> r \<in> set (db_operations db'))"
  using assms
proof (induction rows arbitrary: i rep db)
  case (Cons row rows)
  obtain rep1 db1 where
    turn: "recover_row E row (clock i) (ids i) (rep, db) = Inr (rep1, db1)" and
    rest: "recover_rows E clock ids (Suc i) rows (rep1, db1) = Inr (rep', db')"
    using Cons.prems(1) by (auto simp: rbind_eq_Inr)
  have mem: "row \<in> set (db_operations db)" using Cons.prems(5) by simp
  note eff = recover_row_effect [OF turn Cons.prems(2) mem]
  have ok1: "rows_ok E db1"
    by (rule ledger_steps_rows_ok [OF recover_row_step(1) [OF turn Cons.prems(2) mem Cons.prems(4)]
          Cons.prems(2,3)])
  have apart: "r_id r \<noteq> r_id row" if "r \<in> set rows" for r
    using Cons.prems(6) imageI [OF that, of r_id] by (cases "r_id r = r_id row") simp_all
  have sub: "set rows \<subseteq> set (db_operations db1)"
    using eff(3) apart Cons.prems(5) by auto
  have IH: "(\<forall>r \<in> set rows. \<exists>row' \<in> set (db_operations db'). recovered_as E r row') \<and>
    map r_id (db_operations db') = map r_id (db_operations db1) \<and>
    (\<forall>r \<in> set (db_operations db1). r_id r \<notin> r_id ` set rows \<longrightarrow> r \<in> set (db_operations db'))"
    using Cons.IH [OF rest ok1 Cons.prems(3,4) sub] Cons.prems(6) by simp
  obtain row' where row': "row' \<in> set (db_operations db1)" "recovered_as E row row'"
    using eff(1) by blast
  have "row' \<in> set (db_operations db')"
    using IH row' apart by (auto simp: recovered_as_def)
  then show ?case using IH row'(2) eff(2,3) by auto
qed simp

lemma recoverable_states:
  "state_str s \<notin> {''rejected'', ''expired'', ''cancelled'', ''succeeded'', ''failed'', ''outcome_unknown''}
     \<longleftrightarrow> \<not> is_terminal s"
  by (cases s) simp_all

lemma recovery_target_final:
  assumes "recovery_target (action_of rec) = Some t" shows "is_terminal t"
  using assms by (cases "action_of rec") auto

lemma recovery_target_none:
  assumes "recovery_target (action_of rec) = None"
  shows "is_terminal (o_state rec) \<or> (o_state rec = Executing \<and> is_resumable_job (o_kind rec))"
  using assms by (auto simp: restart_recovery_def split: if_splits)

lemma recovered_as_settled:
  assumes "recovered_as E row row'" "row_to_operation E row' = Inr rec'"
  shows "is_terminal (o_state rec') \<or> (o_state rec' = Executing \<and> is_resumable_job (o_kind rec'))"
proof -
  obtain rec where "o_kind rec' = o_kind rec"
    "o_state rec' = (case recovery_target (action_of rec) of None \<Rightarrow> o_state rec | Some t \<Rightarrow> t)"
    using assms unfolding recovered_as_def by auto
  then show ?thesis
    using recovery_target_final [of rec] recovery_target_none [of rec]
    by (cases "recovery_target (action_of rec)") auto
qed

text \<open>The recovery as a whole.\<close>

lemma recover_previous_runtimes_Inr:
  assumes "recover_previous_runtimes E rt clock ids db = (Inr rep, db')"
  shows "recover_rows E clock ids 0 (recoverable_rows E rt db) (report_of [], db) = Inr (rep, db')"
  using assms
  by (auto simp: recover_previous_runtimes_def run_tx_def rbind_eq_Inr empty_report_def report_of_def
      ids_with_def rbind_eq_Inl split: sum.splits prod.splits)

lemma recovery_settles:
  assumes env: "env_ok E" and ok: "rows_ok E db" and clock: "\<And>i. rfc3339_range (clock i)"
    and run: "recover_previous_runtimes E rt clock ids db = (Inr rep, db')"
    and row': "row' \<in> set (db_operations db')" and rec': "row_to_operation E row' = Inr rec'"
    and old: "r_runtime_id row' \<noteq> uuid_to_string E rt"
  shows "is_terminal (o_state rec') \<or> (o_state rec' = Executing \<and> is_resumable_job (o_kind rec'))"
proof -
  let ?rows = "recoverable_rows E rt db"
  have sub: "set ?rows \<subseteq> set (db_operations db)" by (auto simp: recoverable_rows_set)
  note inr = recover_previous_runtimes_Inr [OF run]
  note eff = recover_rows_effect [OF inr ok env clock sub recoverable_rows_distinct [OF ok]]
  have ok': "rows_ok E db'"
    by (rule ledger_steps_rows_ok [OF recover_rows_steps [OF inr ok env clock sub
            recoverable_rows_distinct [OF ok]] ok env])
  have "r_id ` set (db_operations db') = r_id ` set (db_operations db)"
    using eff by (metis set_map)
  then obtain r where r: "r \<in> set (db_operations db)" "r_id r = r_id row'"
    using row' by (metis imageE imageI)
  show ?thesis
  proof (cases "r_id r \<in> r_id ` set ?rows")
    case True
    then obtain q where q: "q \<in> set ?rows" "r_id q = r_id r" by force
    then obtain q' where q': "q' \<in> set (db_operations db')" "recovered_as E q q'" using eff by blast
    then have "q' = row'"
      using row_unique [OF ok' row' q'(1)] q(2) r(2) by (simp add: recovered_as_def)
    then show ?thesis using recovered_as_settled q'(2) rec' by blast
  next
    case False
    then have mem: "r \<in> set (db_operations db')" using eff r(1) by blast
    then have "r = row'" using row_unique [OF ok' row' mem r(2)] by simp
    moreover from False have "r \<notin> set ?rows" by blast
    ultimately have "\<not> r_state row' \<notin> {''rejected'', ''expired'', ''cancelled'', ''succeeded'',
        ''failed'', ''outcome_unknown''}"
      using r(1) old unfolding recoverable_rows_set by blast
    then show ?thesis
      unfolding row_to_operation_state [OF rec'] recoverable_states by simp
  qed
qed

lemma recovery_report_exact:
  assumes "recover_previous_runtimes E rt clock ids db = (Inr rep, db')"
  shows "\<exists>recs. collect_results (row_to_operation E) (recoverable_rows E rt db) = Inr recs \<and>
    rep = report_of recs"
  using recover_rows_report [OF recover_previous_runtimes_Inr [OF assms]] by simp

end
