(* ===== verification/Ledger_Properties.thy ===== *)
theory Ledger_Properties
  imports Ledger_Demo Ledger_Recovery
begin

text \<open>
  The properties of the operation ledger, over every ledger that repository calls reach from
  the empty database. Each rests on the invariant (\<open>Ledger_Invariant\<close>), the evolution of rows
  (\<open>Ledger_Evolution\<close>), the success lemmas (\<open>Ledger_Progress\<close>) or the recovery
  (\<open>Ledger_Recovery\<close>); each witness applies it to the run of \<open>Ledger_Demo\<close>.
\<close>

inductive reachable :: "env \<Rightarrow> ledger \<Rightarrow> bool" for E where
  init: "reachable E empty_ledger"
| call: "reachable E db \<Longrightarrow> call_ok c \<Longrightarrow> reachable E (exec_call E c db)"

lemma reachable_ok: "reachable E db \<Longrightarrow> env_ok E \<Longrightarrow> ledger_ok E db"
  by (induction rule: reachable.induct) (auto intro: ledger_ok_empty exec_call_ok)

lemma reachable_rows: "reachable E db \<Longrightarrow> env_ok E \<Longrightarrow> rows_ok E db"
  using reachable_ok by simp

lemma exec_call_extends:
  "env_ok E \<Longrightarrow> rows_ok E db \<Longrightarrow> call_ok c \<Longrightarrow> ledger_extends E db (exec_call E c db)"
  by (rule ledger_steps_extends [OF exec_call_steps])

lemma exec_calls_extend:
  assumes "env_ok E" "list_all call_ok calls" "rows_ok E db"
  shows "ledger_extends E db (fold (exec_call E) calls db) \<and> rows_ok E (fold (exec_call E) calls db)"
  using assms(2,3)
proof (induction calls arbitrary: db)
  case (Cons c calls)
  have "rows_ok E (exec_call E c db)"
    using ledger_steps_rows_ok [OF exec_call_steps] Cons.prems assms(1) by simp
  then show ?case
    using Cons.IH [of "exec_call E c db"] exec_call_extends [OF assms(1), of db c] Cons.prems
      ledger_extends_trans by auto
qed simp

lemma get_operation_of_row:
  assumes "rows_ok E db" "row \<in> set (db_operations db)" "row_to_operation E row = Inr rec"
    and "r_id row = uuid_to_string E u"
  shows "get_operation E u db = Inr rec"
  using find_operation_row_distinct [of db row E u] assms
  by (simp add: get_operation_def find_operation_def rows_ok_def)

lemma demo_reachable:
  "reachable ref_env demo_planned" "reachable ref_env demo_pending"
  "reachable ref_env demo_approved" "reachable ref_env demo_executing"
proof -
  have now: "rfc3339_range 0" "rfc3339_range 1" "rfc3339_range 2" "rfc3339_range 3"
    by (simp_all add: rfc3339_range_def)
  show p: "reachable ref_env demo_planned"
    unfolding demo_planned_def
    by (rule reachable.call [OF reachable.init])
      (simp add: now demo_operation_def expiry_in_range_def rfc3339_range_def)
  show q: "reachable ref_env demo_pending"
    unfolding demo_pending_def by (rule reachable.call [OF p]) (simp add: now json_plain_def)
  show a: "reachable ref_env demo_approved"
    unfolding demo_approved_def by (rule reachable.call [OF q]) (simp add: now demo_decision_def)
  show "reachable ref_env demo_executing"
    unfolding demo_executing_def by (rule reachable.call [OF a]) (simp add: now)
qed

abbreviation demo_executing_record :: operation_record where
  "demo_executing_record \<equiv>
     moved_record Executing 3 (moved_record Approved 2 (demo_rec PendingApproval 1))"

lemma demo_executing_row:
  obtains row where "db_operations demo_executing = [row]"
    "row_to_operation ref_env row = Inr demo_executing_record" "r_id row = uuid_to_string ref_env 1"
proof -
  obtain row where row: "db_operations demo_executing = [row]"
    "row_to_operation ref_env row = Inr demo_executing_record"
    using demo_at_executing(2) by (auto simp: demo_at_def)
  moreover have "r_id row = uuid_to_string ref_env 1"
    using rows_ok_id [of ref_env demo_executing row demo_executing_record] row
      reachable_rows [OF demo_reachable(4) env_ok_ref_env] by simp
  ultimately show thesis by (rule that)
qed

lemma operation_history:
  assumes "env_ok E" "reachable E db" "row \<in> set (db_operations db)" "row_to_operation E row = Inr rec"
  obtains evs where "reads E (op_events db (r_id row)) evs"
    "history E (o_id rec) evs (o_state rec)"
    "may_mutate_target (o_kind rec) \<Longrightarrow> Ev_ExecutionStarted \<in> ev_kind ` set evs \<Longrightarrow>
       approved_by_user db row"
  using ledger_ok_history [OF reachable_ok [OF assms(2,1)] assms(3,4)] that by blast

lemma started_event_kind:
  assumes "reads E rows evs" "e \<in> set rows" "er_event_kind e = ''execution_started''"
  shows "Ev_ExecutionStarted \<in> ev_kind ` set evs"
proof -
  have "''execution_started'' \<in> set (map er_event_kind rows)" using assms(2,3) by force
  then obtain v where v: "v \<in> set evs" "event_kind_str (ev_kind v) = event_kind_str Ev_ExecutionStarted"
    unfolding reads_columns(3) [OF assms(1)] by auto
  then have "ev_kind v = Ev_ExecutionStarted" by (simp only: event_codec.to_text_inject)
  with v(1) show ?thesis by force
qed

section \<open>Approval before execution\<close>

text \<open>
  C1. No mutation without approval: in every reachable ledger, an operation that may change the
  target database and whose log shows that its execution started has an approval row by an
  identified local or workspace user, for exactly the stored payload hash and exactly the
  stored policy revision.
\<close>

theorem no_unapproved_execution:
  assumes "env_ok E" "reachable E db" "row \<in> set (db_operations db)"
    and "row_to_operation E row = Inr rec" "may_mutate_target (o_kind rec)"
    and "e \<in> set (db_events db)" "er_operation_id e = r_id row"
    and "er_event_kind e = ''execution_started''"
  shows "\<exists>a \<in> set (db_approvals db). ar_operation_id a = r_id row \<and>
    ar_payload_hash a = r_payload_hash row \<and> ar_policy_revision a = r_policy_revision row \<and>
    ar_decision a = ''approved'' \<and> ar_approver_kind a \<in> {''local_user'', ''workspace_user''} \<and>
    \<not> blank (ar_approver_id a)"
proof -
  obtain evs where evs: "reads E (op_events db (r_id row)) evs"
    "Ev_ExecutionStarted \<in> ev_kind ` set evs \<Longrightarrow> approved_by_user db row"
    using operation_history [OF assms(1-4)] assms(5) by metis
  have "e \<in> set (op_events db (r_id row))" using assms(6,7) by (simp add: op_events_def)
  then show ?thesis
    using evs(2) started_event_kind [OF evs(1) _ assms(8)]
    by (auto simp: approved_by_user_def list_ex_iff)
qed

lemma demo_started:
  obtains e where "e \<in> set (db_events demo_executing)" "er_operation_id e = uuid_to_string ref_env 1"
    "er_event_kind e = ''execution_started''"
proof -
  obtain row where row: "db_operations demo_executing = [row]"
    "row_to_operation ref_env row = Inr demo_executing_record" "r_id row = uuid_to_string ref_env 1"
    by (rule demo_executing_row)
  obtain evs where evs: "reads ref_env (op_events demo_executing (r_id row)) evs"
    "history ref_env 1 evs Executing"
    using operation_history [OF env_ok_ref_env demo_reachable(4) _ row(2)] row(1) by auto
  have "Ev_ExecutionStarted \<in> ev_kind ` set evs" using history_started [OF evs(2)] by simp
  then have "event_kind_str Ev_ExecutionStarted \<in> event_kind_str ` ev_kind ` set evs" by (rule imageI)
  then have "''execution_started'' \<in> set (map er_event_kind (op_events demo_executing (r_id row)))"
    unfolding reads_columns(3) [OF evs(1)] by (simp add: image_comp)
  then show thesis using that row(3) by (auto simp: op_events_def)
qed

theorem no_unapproved_execution_witness:
  "\<exists>row \<in> set (db_operations demo_executing). \<exists>a \<in> set (db_approvals demo_executing).
     ar_operation_id a = r_id row \<and> ar_payload_hash a = r_payload_hash row \<and>
     ar_decision a = ''approved''"
proof -
  obtain row where row: "db_operations demo_executing = [row]"
    "row_to_operation ref_env row = Inr demo_executing_record" "r_id row = uuid_to_string ref_env 1"
    by (rule demo_executing_row)
  obtain e where e: "e \<in> set (db_events demo_executing)"
    "er_operation_id e = r_id row" "er_event_kind e = ''execution_started''"
    using demo_started row(3) by metis
  show ?thesis
    using no_unapproved_execution [OF env_ok_ref_env demo_reachable(4) _ row(2) _ e] row(1) by auto
qed

section \<open>The event log\<close>

lemma events_of_history:
  assumes "reads E (op_events db (uuid_to_string E u)) evs" "history E v evs s"
  shows "events E u db = Inr evs"
  using assms reads_sorted [OF assms] by (simp add: events_def collect_results_Inr)

text \<open>
  C28. The log of every stored operation, read with \<open>events\<close>, is a lawful history: numbered
  from one without gaps, every event carrying the hash of its predecessor and its own
  recomputable hash, every state change allowed by the transition table and named by the
  matching event kind, progress only while executing, and ending in the stored state.
\<close>

theorem reachable_log_is_history:
  assumes "env_ok E" "reachable E db" "row \<in> set (db_operations db)"
    and "row_to_operation E row = Inr rec" "r_id row = uuid_to_string E u"
  shows "\<exists>evs. events E u db = Inr evs \<and> history E u evs (o_state rec)"
proof -
  obtain evs where evs: "reads E (op_events db (r_id row)) evs" "history E (o_id rec) evs (o_state rec)"
    using operation_history [OF assms(1-4)] by metis
  have "o_id rec = u"
    using rows_ok_id [OF reachable_rows [OF assms(2,1)] assms(3,4)] assms(1,5) by simp
  then show ?thesis using evs events_of_history assms(5) by metis
qed

theorem reachable_log_is_history_witness:
  "\<exists>evs. events ref_env 1 demo_executing = Inr evs \<and> history ref_env 1 evs Executing"
proof -
  obtain row where "db_operations demo_executing = [row]"
    "row_to_operation ref_env row = Inr demo_executing_record" "r_id row = uuid_to_string ref_env 1"
    by (rule demo_executing_row)
  then show ?thesis
    using reachable_log_is_history [OF env_ok_ref_env demo_reachable(4), of row demo_executing_record 1]
    by simp
qed

text \<open>
  C26. Verification accepts every honest log: in every reachable ledger \<open>verify_event_chain\<close>
  returns true for every stored operation.
\<close>

theorem reachable_chain_verifies:
  assumes "env_ok E" "reachable E db" "row \<in> set (db_operations db)" "r_id row = uuid_to_string E u"
  shows "verify_event_chain E u db = Inr True"
proof -
  have rows: "rows_ok E db" by (rule reachable_rows [OF assms(2,1)])
  then obtain rec where rec: "row_to_operation E row = Inr rec"
    using assms(3) unfolding rows_ok_def by blast
  obtain evs where evs: "reads E (op_events db (r_id row)) evs" "history E (o_id rec) evs (o_state rec)"
    using operation_history [OF assms(1-3) rec] by metis
  have "events E u db = Inr evs" using events_of_history evs assms(4) by metis
  then show ?thesis
    using get_operation_of_row [OF rows assms(3) rec assms(4)] history_last [OF evs(2)]
      history_verifies [OF evs(2)]
    by (simp add: verify_event_chain_def)
qed

theorem reachable_chain_verifies_witness: "verify_event_chain ref_env 1 demo_executing = Inr True"
proof -
  obtain row where "db_operations demo_executing = [row]" "r_id row = uuid_to_string ref_env 1"
    by (rule demo_executing_row)
  then show ?thesis
    using reachable_chain_verifies [OF env_ok_ref_env demo_reachable(4), of row 1] by simp
qed

lemma length_filter_map_id: "length (filter P xs) = length (filter id (map P xs))"
  by (induction xs) simp_all

text \<open>No operation starts executing twice: its log holds at most one start event.\<close>

theorem execution_starts_once:
  assumes "env_ok E" "reachable E db" "row \<in> set (db_operations db)"
  shows "length (filter (\<lambda>e. er_event_kind e = ''execution_started'') (op_events db (r_id row))) \<le> 1"
proof -
  obtain rec where rec: "row_to_operation E row = Inr rec"
    using reachable_rows [OF assms(2,1)] assms(3) unfolding rows_ok_def by blast
  obtain evs where evs: "reads E (op_events db (r_id row)) evs" "history E (o_id rec) evs (o_state rec)"
    using operation_history [OF assms rec] by metis
  have "map (\<lambda>e. er_event_kind e = ''execution_started'') (op_events db (r_id row))
      = map (\<lambda>e. ev_kind e = Ev_ExecutionStarted) evs"
    using arg_cong [OF reads_columns(3) [OF evs(1)], of "map (\<lambda>k. k = event_kind_str Ev_ExecutionStarted)"]
    unfolding map_map comp_def event_codec.to_text_inject by simp
  then have "length (filter (\<lambda>e. er_event_kind e = ''execution_started'') (op_events db (r_id row)))
      = length (filter (\<lambda>e. ev_kind e = Ev_ExecutionStarted) evs)"
    unfolding length_filter_map_id [of "\<lambda>e. er_event_kind e = ''execution_started''"]
      length_filter_map_id [of "\<lambda>e. ev_kind e = Ev_ExecutionStarted"] by (rule arg_cong)
  then show ?thesis using history_one_start [OF evs(2)] by simp
qed

theorem execution_starts_once_witness:
  "\<exists>row \<in> set (db_operations demo_executing).
     length (filter (\<lambda>e. er_event_kind e = ''execution_started'') (op_events demo_executing (r_id row))) \<le> 1"
proof -
  obtain row where "db_operations demo_executing = [row]" by (rule demo_executing_row)
  then show ?thesis
    using execution_starts_once [OF env_ok_ref_env demo_reachable(4), of row] by simp
qed

section \<open>Evolution\<close>

text \<open>
  The ledger only grows: a repository call keeps every approval and every event in place
  and appends to them, removes no operation, changes none of the columns that the trigger
  declares immutable, and moves each operation's state only along the transition table.
\<close>

theorem calls_append_only:
  assumes "env_ok E" "reachable E db" "call_ok c"
  defines "db' \<equiv> exec_call E c db"
  shows "prefix (db_approvals db) (db_approvals db') \<and> prefix (db_events db) (db_events db') \<and>
    length (db_operations db) \<le> length (db_operations db') \<and>
    (\<forall>i < length (db_operations db).
       r_id (db_operations db' ! i) = r_id (db_operations db ! i) \<and>
       \<not> immutable_columns_differ (db_operations db ! i) (db_operations db' ! i) \<and>
       (\<exists>rec rec'. row_to_operation E (db_operations db ! i) = Inr rec \<and>
          row_to_operation E (db_operations db' ! i) = Inr rec' \<and>
          transition_allowed\<^sup>*\<^sup>* (o_state rec) (o_state rec')))"
proof -
  have rows: "rows_ok E db" by (rule reachable_rows [OF assms(2,1)])
  have ext: "ledger_extends E db db'"
    unfolding db'_def by (rule exec_call_extends [OF assms(1) rows assms(3)])
  have "\<exists>rec. row_to_operation E (db_operations db ! i) = Inr rec" if "i < length (db_operations db)" for i
    using rows that unfolding rows_ok_def by (meson nth_mem)
  then show ?thesis
    using ext unfolding ledger_extends_def row_evolves_def by blast
qed

theorem calls_append_only_witness:
  "prefix (db_events demo_approved) (db_events demo_executing) \<and>
   length (db_operations demo_approved) \<le> length (db_operations demo_executing)"
  using calls_append_only [OF env_ok_ref_env demo_reachable(3), of "Call_claim_execution 1 9 3 104"]
  by (simp add: demo_executing_def rfc3339_range_def)

text \<open>
  A finished operation is finished: once an operation is in a final state, no repository
  call changes its row or adds an event to its log.
\<close>

theorem final_operation_frozen:
  assumes "env_ok E" "reachable E db" "call_ok c" "row \<in> set (db_operations db)"
    and "row_to_operation E row = Inr rec" "is_terminal (o_state rec)"
  shows "row \<in> set (db_operations (exec_call E c db)) \<and>
    op_events (exec_call E c db) (r_id row) = op_events db (r_id row)"
  by (rule ledger_steps_final [OF exec_call_steps])
    (use assms reachable_rows [OF assms(2,1)] in auto)

definition demo_cancelled :: ledger where
  "demo_cancelled = exec_call ref_env (Call_transition 1 9 Cancelled JNull 4 105) demo_executing"

lemma demo_at_cancelled:
  "demo_at demo_cancelled (moved_record Cancelled 4 demo_executing_record) [101, 102, 103, 104, 105]"
  "reachable ref_env demo_cancelled"
proof -
  obtain row where row: "db_operations demo_executing = [row]"
    "row_to_operation ref_env row = Inr demo_executing_record" "r_id row = uuid_to_string ref_env 1"
    by (rule demo_executing_row)
  have ok: "ledger_ok ref_env demo_executing" by (rule reachable_ok [OF demo_reachable(4) env_ok_ref_env])
  have now: "rfc3339_range 4" by (simp add: rfc3339_range_def)
  show "reachable ref_env demo_cancelled"
    unfolding demo_cancelled_def
    by (rule reachable.call [OF demo_reachable(4)]) (simp add: now json_plain_def)
  then have ok': "ledger_ok ref_env demo_cancelled" by (rule reachable_ok [OF _ env_ok_ref_env])
  have fits: "event_fits ref_env 1 JNull 105 demo_executing"
    by (rule demo_at_fits [OF demo_at_executing(2)]) (simp_all add: json_plain_def)
  have eq: "demo_cancelled = moved_ledger ref_env row demo_executing_record Cancelled JNull 4 105 demo_executing"
    using transition_succeeds [OF env_ok_ref_env ok _ row(2) _ _ _ now, of 9 Cancelled JNull 105]
      row(1) fits
    by (simp add: demo_cancelled_def transition_from_Executing)
  show "demo_at demo_cancelled (moved_record Cancelled 4 demo_executing_record) [101, 102, 103, 104, 105]"
    using demo_at_moved [OF demo_at_executing(2) row(1,2) now ok' [unfolded eq]] by (simp add: eq)
qed

theorem final_operation_frozen_witness:
  "\<exists>row \<in> set (db_operations demo_cancelled).
     row \<in> set (db_operations (exec_call ref_env (Call_claim_execution 1 9 5 106) demo_cancelled))"
proof -
  obtain row where row: "db_operations demo_cancelled = [row]"
    "row_to_operation ref_env row = Inr (moved_record Cancelled 4 demo_executing_record)"
    using demo_at_cancelled(1) by (auto simp: demo_at_def)
  then show ?thesis
    using final_operation_frozen [OF env_ok_ref_env demo_at_cancelled(2), of "Call_claim_execution 1 9 5 106"
        row "moved_record Cancelled 4 demo_executing_record"]
    by (simp add: rfc3339_range_def)
qed

text \<open>
  C29. A claim is single-use: after a successful claim, whatever calls follow, another claim of
  the same operation by the same runtime is refused as not executable and changes nothing.
\<close>

theorem claim_is_single_use:
  assumes "env_ok E" "reachable E db" "rfc3339_range now"
    and "claim_execution E op rt now ev db = (Inr rec, db1)"
    and "list_all call_ok calls"
  shows "claim_execution E op rt now' ev' (fold (exec_call E) calls db1)
    = (Inl err_not_executable, fold (exec_call E) calls db1)"
proof -
  let ?db2 = "fold (exec_call E) calls db1"
  have rows: "rows_ok E db" by (rule reachable_rows [OF assms(2,1)])
  have db1: "db1 = exec_call E (Call_claim_execution op rt now ev) db" using assms(4) by simp
  have reach1: "rows_ok E db1"
    unfolding db1
    by (rule ledger_steps_rows_ok [OF exec_call_steps [OF rows assms(1)] rows assms(1)])
      (simp add: assms(3))
  obtain cur where cur: "fetch_operation_tx E op db = Inr cur" "ensure_runtime cur rt = Inr ()"
    "transition_tx E cur Executing (claim_details cur) now ev db = Inr (rec, db1)"
    using assms(4) unfolding claim_execution_def run_tx_def
    by (auto simp: rbind_eq_Inr rbind_eq_Inl split: sum.splits prod.splits if_splits)
  obtain row where row: "row \<in> set (db_operations db)" "row_to_operation E row = Inr cur"
    "r_id row = uuid_to_string E (o_id cur)" "r_id row = uuid_to_string E op"
    by (rule fetch_row [OF rows cur(1)])
  have dist: "distinct (map r_id (db_operations db))" using rows by (simp add: rows_ok_def)
  let ?row1 = "set_lifecycle Executing (to_rfc3339_nanos E now) row"
  note spec = transition_tx_Inr [OF cur(3) dist row(1-3)]
  have "?row1 \<in> set (db_operations db1)" using spec(4) row(1) by auto
  moreover have "o_state rec = Executing"
    using row_to_operation_state [OF spec(2)] state_codec.to_text_inject [of "o_state rec" Executing]
    by simp
  ultimately obtain row2 rec2 where row2: "row2 \<in> set (db_operations ?db2)" "row_evolves E ?row1 row2"
    and rec2: "row_to_operation E row2 = Inr rec2" "transition_allowed\<^sup>*\<^sup>* Executing (o_state rec2)"
    using ledger_extends_row exec_calls_extend [OF assms(1,5) reach1] row_evolves_state [OF _ spec(2)]
    by metis
  have ok2: "rows_ok E ?db2" using exec_calls_extend [OF assms(1,5) reach1] by simp
  have same: "r_id row2 = r_id row" "r_runtime_id row2 = r_runtime_id row"
    using row2(2) by (auto simp: row_evolves_def immutable_columns_differ_def)
  have "find_operation_row E op ?db2 = Some row2"
    using ok2 row2(1) same(1) row(4) by (intro find_operation_row_distinct) (auto simp: rows_ok_def)
  then have fetch: "fetch_operation_tx E op ?db2 = Inr rec2"
    using rec2(1) by (simp add: fetch_operation_tx_Inr)
  have "o_runtime_id rec2 = o_runtime_id cur"
    using row_to_operation_fields(2) [OF rec2(1)] row_to_operation_fields(2) [OF row(2)] same(2) by simp
  then have "ensure_runtime rec2 rt = Inr ()" using cur(2) by (simp add: ensure_runtime_def)
  moreover have "o_state rec2 \<notin> {Ready, Approved}" by (rule started_not_claimable [OF rec2(2)])
  ultimately show ?thesis
    unfolding claim_execution_def fetch run_tx_def by (simp add: guard_def)
qed

theorem claim_is_single_use_witness:
  "claim_execution ref_env 1 9 5 106 demo_cancelled = (Inl err_not_executable, demo_cancelled)"
  using claim_is_single_use [OF env_ok_ref_env demo_reachable(3) _ demo_at_executing(1),
      of "[Call_transition 1 9 Cancelled JNull 4 105]" 5 106]
  by (simp add: rfc3339_range_def json_plain_def demo_cancelled_def)

section \<open>Claims\<close>

text \<open>
  C12. A claim that meets its conditions starts: if the operation belongs to the runtime, is
  ready (and not mutating) or approved with an exact, unexpired approval, has not expired, and
  an event can be appended, \<open>claim_execution\<close> returns the operation in state executing with
  its start time, and commits that state together with one start event.
\<close>

theorem claim_starts:
  assumes "env_ok E" "reachable E db" "row \<in> set (db_operations db)"
    and "row_to_operation E row = Inr cur" "o_runtime_id cur = rt"
    and "claimable E cur now db" "rfc3339_range now"
    and "event_fits E (o_id cur) (claim_details cur) evid db"
  shows "claim_execution E (o_id cur) rt now evid db
    = (Inr (cur\<lparr>o_state := Executing, o_started_at := Some now, o_updated_at := now\<rparr>),
       moved_ledger E row cur Executing (claim_details cur) now evid db)"
  using claim_succeeds [OF assms(1) reachable_ok [OF assms(2,1)] assms(3-8)]
  by (simp add: moved_record_def)

theorem claim_starts_witness:
  "\<exists>row. fst (claim_execution ref_env 1 9 3 104 demo_approved) = Inr demo_executing_record \<and>
     snd (claim_execution ref_env 1 9 3 104 demo_approved)
     = moved_ledger ref_env row (moved_record Approved 2 (demo_rec PendingApproval 1)) Executing
         (claim_details (moved_record Approved 2 (demo_rec PendingApproval 1))) 3 104 demo_approved"
proof -
  let ?rec = "moved_record Approved 2 (demo_rec PendingApproval 1)"
  obtain row where row: "db_operations demo_approved = [row]" "row_to_operation ref_env row = Inr ?rec"
    using demo_at_approved(2) by (auto simp: demo_at_def)
  have fits: "event_fits ref_env 1 (claim_details ?rec) 104 demo_approved"
  proof (rule demo_at_fits [OF demo_at_approved(2)])
    show "length (enc (claim_details ?rec)) \<le> 1000" by (simp add: claim_details_def length_enc_obj)
  qed simp_all
  then show ?thesis
    using claim_starts [OF env_ok_ref_env demo_reachable(3) _ row(2) _ demo_claimable, of 9 104] row(1)
      demo_at_executing(1)
    by (auto simp: rfc3339_range_def)
qed

text \<open>
  An expired operation is never started: claiming a ready or approved operation at or
  after its deadline returns the expiry error and commits the state expired with its event.
\<close>

theorem expired_claim_expires:
  assumes "env_ok E" "reachable E db" "row \<in> set (db_operations db)"
    and "row_to_operation E row = Inr cur" "o_runtime_id cur = rt"
    and "o_state cur = Approved \<or> o_state cur = Ready \<and> \<not> may_mutate_target (o_kind cur)"
    and "o_expires_at cur = Some deadline" "deadline \<le> now" "rfc3339_range now"
    and "event_fits E (o_id cur) (reason_details ''operation_expired'') evid db"
  shows "claim_execution E (o_id cur) rt now evid db
    = (Inl err_expired,
       moved_ledger E row cur Expired (reason_details ''operation_expired'') now evid db)"
proof -
  note ok = reachable_ok [OF assms(2,1)]
  have "transition_allowed (o_state cur) Expired" using assms(6) by (auto simp: transition_allowed_def)
  then have tx: "transition_tx E cur Expired (reason_details ''operation_expired'') now evid db
      = Inr (moved_record Expired now cur,
         moved_ledger E row cur Expired (reason_details ''operation_expired'') now evid db)"
    using transition_tx_succeeds [OF assms(1) ok assms(3,4) _ _ assms(9,10)]
    by (simp add: moved_ledger_def Let_def start_in_time_def)
  have late: "expired_at (o_expires_at cur) now" using assms(7,8) by (simp add: expired_at_def)
  have guards: "guard (o_state cur \<notin> {Ready, Approved}) err_not_executable = Inr ()"
    "guard (o_state cur = Ready \<and> may_mutate_target (o_kind cur)) err_needs_approval = Inr ()"
    using assms(6) by (auto simp: guard_def)
  show ?thesis
    unfolding claim_execution_def fetch_of_row [OF ledger_ok_rows [OF ok] assms(3,4)] rbind_Inr guards
      if_P [OF late] tx
    using assms(5) by (simp add: ensure_runtime_def run_tx_def)
qed

theorem expired_claim_expires_witness:
  "fst (claim_execution ref_env 1 9 900 104 demo_approved) = Inl err_expired"
proof -
  let ?rec = "moved_record Approved 2 (demo_rec PendingApproval 1)"
  obtain row where row: "db_operations demo_approved = [row]" "row_to_operation ref_env row = Inr ?rec"
    using demo_at_approved(2) by (auto simp: demo_at_def)
  have fits: "event_fits ref_env 1 (reason_details ''operation_expired'') 104 demo_approved"
  proof (rule demo_at_fits [OF demo_at_approved(2)])
    show "length (enc (reason_details ''operation_expired'')) \<le> 1000"
      by (simp add: reason_details_def length_enc_obj)
  qed simp_all
  then show ?thesis
    using expired_claim_expires [OF env_ok_ref_env demo_reachable(3) _ row(2), of 9 900 900 104] row(1)
    by (simp add: rfc3339_range_def)
qed

end
