(* ===== verification/Ledger_Contracts.thy ===== *)
theory Ledger_Contracts
  imports Ledger_Properties
begin

text \<open>
  The contracts of single repository operations over reachable ledgers: what a decision
  records and what makes it fail, replay and conflict of planning, the stored row of a plan,
  integrity of stored payloads, and the recovery of older runtimes.
\<close>

section \<open>Decisions\<close>

text \<open>What a successful decision read, checked, inserted and wrote.\<close>

lemma decide_approval_Inr:
  assumes "decide_approval E c aid evid db = (Inr rec, db')"
  obtains cur db1 where "fetch_operation_tx E (c_operation_id c) db = Inr cur"
    and "ensure_runtime cur (c_runtime_id c) = Inr ()" "o_state cur = PendingApproval"
      "o_payload_hash cur = c_expected_payload_hash c"
      "o_policy_revision cur = c_current_policy_revision c"
      "\<not> expired_at (o_expires_at cur) (c_now c)"
      "approver_kind (c_approver c) \<in> {LocalUser, WorkspaceUser}" "\<not> blank (approver_id (c_approver c))"
    and "insert_approval_row (approval_row_of E cur c aid) db = Inr db1"
    and "transition_tx E cur (decision_state (c_decision c)) (approval_details E cur c aid) (c_now c)
      evid db1 = Inr (rec, db')"
  using assms unfolding decide_approval_def run_tx_def
  by (auto simp: rbind_eq_Inr rbind_eq_Inl split: sum.splits prod.splits if_splits)





section \<open>Planning\<close>

text \<open>
  The row of a planned operation reads back as the operation: every field as given, JSON
  fields in canonical form, the payload hash the digest of the canonical payload, in state
  planned.
\<close>

theorem planned_row_round_trip:
  assumes "env_ok E" "prepare_operation E rt n = Inr p" "plain_operation n" "rfc3339_range now"
  shows "row_to_operation E (operation_row_of E p now) = Inr (planned_record E rt n now)"
  by (rule row_of_planned [OF assms])

theorem planned_row_round_trip_witness:
  "row_to_operation ref_env (operation_row_of ref_env demo_prepared 0)
     = Inr (planned_record ref_env 9 demo_operation 0)"
  by (rule planned_row_round_trip [OF env_ok_ref_env demo_prepare demo_plain])
    (simp add: rfc3339_range_def)

text \<open>
  Planning is idempotent: planning a fresh operation returns its record and stores it; the
  same request planned again, at any time and with any event identifier, returns that very
  record and leaves the ledger unchanged.
\<close>

theorem planning_is_idempotent:
  assumes "env_ok E" "reachable E db" "prepare_operation E rt n = Inr p" "plain_operation n"
    and "rfc3339_range now" "uuid_to_string E (n_id n) \<notin> r_id ` set (db_operations db)"
    and "\<not> list_ex (same_key E n) (db_operations db)"
    and "event_fits E (n_id n) (planned_details p) evid db"
  shows "\<exists>db'. insert_planned E rt n now evid db = (Inr (planned_record E rt n now), db') \<and>
    insert_planned E rt n now' evid' db' = (Inr (planned_record E rt n now), db')"
proof -
  let ?db' = "planned_ledger E p now evid db" and ?row = "operation_row_of E p now"
  have first: "insert_planned E rt n now evid db = (Inr (planned_record E rt n now), ?db')"
    by (rule insert_planned_succeeds [OF assms(1) reachable_ok [OF assms(2,1)] assms(3-8)])
  have "same_key E n ?row"
    by (simp add: same_key_def operation_row_of_def Let_def prepare_operation_Inr [OF assms(3)])
  moreover have "find (same_key E n) (db_operations db) = None"
    using assms(7) by (simp add: find_None_iff list_ex_iff)
  ultimately have "find (same_key E n) (db_operations ?db') = Some ?row"
    by (simp add: planned_ledger_def Let_def find_snoc)
  then have "insert_planned E rt n now' evid' ?db' = (Inr (planned_record E rt n now), ?db')"
    by (rule insert_planned_replays [OF assms(1,3) _ row_of_planned [OF assms(1,3-5)]
          planned_record_matches [OF assms(3,4)]])
  with first show ?thesis by blast
qed

lemma demo_planned_fits:
  "event_fits ref_env (n_id demo_operation) (planned_details demo_prepared) 101 empty_ledger"
proof (rule demo_fits)
  show "length (enc (planned_details demo_prepared)) \<le> 1000"
    by (simp add: planned_details_def length_enc_obj demo_prepared_def canonical_from_value_def
        Let_def env_ok_ref_env) (simp add: demo_operation_def)
qed (simp_all add: empty_ledger_def)

theorem planning_is_idempotent_witness:
  "\<exists>db'. insert_planned ref_env 9 demo_operation 0 101 empty_ledger
       = (Inr (planned_record ref_env 9 demo_operation 0), db') \<and>
     insert_planned ref_env 9 demo_operation 7 999 db'
       = (Inr (planned_record ref_env 9 demo_operation 0), db')"
  by (rule planning_is_idempotent [OF env_ok_ref_env reachable.init demo_prepare demo_plain _ _ _
        demo_planned_fits]) (simp_all add: rfc3339_range_def empty_ledger_def)

text \<open>
  An idempotency key is bound to its operation: planning a different payload or kind, or by
  a different runtime, under a key already in use is refused with the idempotency conflict, and
  the ledger is unchanged.
\<close>

theorem idempotency_conflict:
  assumes "prepare_operation E rt n = Inr p"
    and "find (same_key E n) (db_operations db) = Some row" "row_to_operation E row = Inr rec"
    and "o_payload_hash rec \<noteq> canonical_hash E (n_payload n) \<or> o_kind rec \<noteq> n_kind n \<or> o_runtime_id rec \<noteq> rt"
  shows "insert_planned E rt n now evid db = (Inl err_idempotency, db)"
proof -
  have "\<not> prepared_matches p rec"
    using assms(4) by (auto simp: prepared_matches_def Let_def prepare_operation_Inr [OF assms(1)]
        canonical_hash_def)
  then show ?thesis
    using assms(1-3) by (simp add: insert_planned_def run_tx_def same_key_def [abs_def])
qed

theorem idempotency_conflict_witness:
  "insert_planned ref_env 9 (demo_operation\<lparr>n_kind := ReadQuery\<rparr>) 7 999 demo_planned
     = (Inl err_idempotency, demo_planned)"
proof -
  let ?n = "demo_operation\<lparr>n_kind := ReadQuery\<rparr>"
  have valid: "validate_new_operation ?n = Inr ()"
    by (simp add: validate_new_operation_def demo_operation_def not_blank_demo)
  obtain p where p: "prepare_operation ref_env 9 ?n = Inr p"
    using demo_prepare valid
    by (auto simp: prepare_operation_def Let_def demo_valid guard_def split: if_splits)
  obtain row where row: "db_operations demo_planned = [row]"
    "row_to_operation ref_env row = Inr (planned_record ref_env 9 demo_operation 0)"
    using demo_at_planned(2) by (auto simp: demo_at_def)
  have "row = operation_row_of ref_env demo_prepared 0"
  proof -
    have eq: "demo_planned = planned_ledger ref_env demo_prepared 0 101 empty_ledger"
      using demo_at_planned(1) insert_planned_succeeds [OF env_ok_ref_env ledger_ok_empty demo_prepare
          demo_plain _ _ _ demo_planned_fits, of 0]
      by (simp add: rfc3339_range_def empty_ledger_def)
    show ?thesis using row(1) unfolding eq by (simp add: planned_ledger_def Let_def empty_ledger_def)
  qed
  then have "same_key ref_env ?n row"
    by (simp add: same_key_def operation_row_of_def Let_def demo_prepared_def)
  then show ?thesis
    using idempotency_conflict [OF p, of demo_planned row] row by simp
qed

section \<open>Stored payloads\<close>

text \<open>
  A stored payload that reads is authentic: its text is the canonical encoding of the value
  returned and its stored hash is the digest of that text. Replacing the payload text by any
  other text whose digest differs makes the read fail.
\<close>

theorem stored_payload_integrity:
  assumes "row_to_operation E row = Inr rec"
  shows "r_payload_json row = canonical_json E (o_payload rec) \<and>
    r_payload_hash row = sha256_hex E (r_payload_json row) \<and>
    (\<forall>other. sha256_hex E other \<noteq> sha256_hex E (r_payload_json row) \<longrightarrow>
       (\<forall>rec'. row_to_operation E (row\<lparr>r_payload_json := other\<rparr>) \<noteq> Inr rec'))"
proof -
  note f = row_to_operation_fields [OF assms]
  have "row_to_operation E (row\<lparr>r_payload_json := other\<rparr>) \<noteq> Inr rec'"
    if "sha256_hex E other \<noteq> sha256_hex E (r_payload_json row)" for other rec'
    using that f(8) row_to_operation_fields(8) [of E "row\<lparr>r_payload_json := other\<rparr>"] by auto
  then show ?thesis using f(7,8) by blast
qed

lemma ref_digest: "sha256_hex ref_env s \<noteq> sha256_hex ref_env t"
  if "length s < 256" "length t < 256" "length s \<noteq> length t"
proof
  have digit: "hex_digit m = hex_digit n \<longleftrightarrow> m = n" if "m < 16" "n < 16" for m n
    unfolding hex_digit_def using that by (intro nth_eq_iff_index_eq) simp_all
  have low: "and n 15 = n mod 16" for n :: nat
    using take_bit_eq_mask [of 4 n] by (simp add: take_bit_eq_mod mask_eq_exp_minus_1)
  assume "sha256_hex ref_env s = sha256_hex ref_env t"
  moreover have "sha256_hex ref_env u = byte_hex (of_nat (length u)) @ lower_hex (replicate 31 (of_nat (length u)))"
    for u
    using replicate_Suc [of 31 "of_nat (length u) :: u8"]
    by (simp only: sha256_hex_def ref_env_def lower_hex_def) simp
  ultimately have "byte_hex (of_nat (length s)) = byte_hex (of_nat (length t))"
    by (simp add: append_eq_append_conv byte_hex_def)
  then have "unat (drop_bit 4 (of_nat (length s) :: u8)) = unat (drop_bit 4 (of_nat (length t) :: u8))"
    "unat (and (of_nat (length s) :: u8) 15) = unat (and (of_nat (length t) :: u8) 15)"
    using digit nibble_bounds by (simp_all add: byte_hex_def)
  then have "length s div 16 = length t div 16" "length s mod 16 = length t mod 16"
    using that
    by (simp_all add: unat_drop_bit_eq drop_bit_nat_def unsigned_and_eq unat_of_nat take_bit_eq_mod low)
  then have "length s = length t" by (metis div_mult_mod_eq)
  with that(3) show False by simp
qed

theorem stored_payload_integrity_witness:
  "(\<forall>rec'. row_to_operation ref_env
      ((operation_row_of ref_env demo_prepared 0)\<lparr>r_payload_json := []\<rparr>) \<noteq> Inr rec')"
proof -
  have payload: "r_payload_json (operation_row_of ref_env demo_prepared 0)
      = canonical_json ref_env (n_payload demo_operation)"
    by (simp add: operation_row_of_def Let_def demo_prepared_def canonical_json_def)
  have "0 < length (canonical_json ref_env (n_payload demo_operation))"
    "length (canonical_json ref_env (n_payload demo_operation)) < 256"
    by (simp_all add: demo_operation_def)
  then have "sha256_hex ref_env [] \<noteq> sha256_hex ref_env (canonical_json ref_env (n_payload demo_operation))"
    by (intro ref_digest) simp_all
  then show ?thesis
    using stored_payload_integrity [OF row_of_planned [OF env_ok_ref_env demo_prepare demo_plain, of 0]]
    unfolding payload by (simp add: rfc3339_range_def)
qed

section \<open>Refinement and recovery\<close>

text \<open>
  C35. Every repository call is a sequence of atomic ledger steps: whatever the arguments and
  whether it succeeds or fails, the ledger after the call is reached from the one before by the
  four rules of \<open>ledger_step\<close>, each with its guards.
\<close>

theorem repository_refines_steps:
  assumes "env_ok E" "reachable E db" "call_ok c"
  shows "(ledger_step E)\<^sup>*\<^sup>* db (exec_call E c db)"
  by (rule exec_call_steps [OF reachable_rows [OF assms(2,1)] assms(1,3)])

theorem repository_refines_steps_witness:
  "(ledger_step ref_env)\<^sup>*\<^sup>* demo_pending demo_approved"
  using repository_refines_steps [OF env_ok_ref_env demo_reachable(2),
      of "Call_decide_approval demo_decision 201 103"]
  by (simp add: demo_approved_def) (simp add: demo_decision_def rfc3339_range_def)

text \<open>
  After a restart nothing of an older runtime is left open. When recovery succeeds: every
  recoverable row is stored in the state the policy prescribes (outcome unknown for an
  interrupted mutation, failed for an interrupted read, expired for one that never started);
  every operation of another runtime is in a final state, or is an import or export that was
  executing and awaits the validation of its checkpoint; and the report lists exactly the
  recovered operations by action, in the order they were read.
\<close>

theorem recovery_settles_older_runtimes:
  assumes "env_ok E" "reachable E db" "\<And>i. rfc3339_range (clock i)"
    and "recover_previous_runtimes E rt clock ids db = (Inr rep, db')"
  shows "(\<forall>row \<in> set (recoverable_rows E rt db). \<exists>row' \<in> set (db_operations db').
      recovered_as E row row') \<and>
    (\<forall>row \<in> set (db_operations db'). \<forall>rec. row_to_operation E row = Inr rec \<longrightarrow>
      o_runtime_id rec \<noteq> rt \<longrightarrow>
      is_terminal (o_state rec) \<or> (o_state rec = Executing \<and> is_resumable_job (o_kind rec))) \<and>
    (\<exists>recs. collect_results (row_to_operation E) (recoverable_rows E rt db) = Inr recs \<and>
      rep = report_of recs)"
proof (intro conjI)
  have rows: "rows_ok E db" by (rule reachable_rows [OF assms(2,1)])
  show "\<forall>row \<in> set (db_operations db'). \<forall>rec. row_to_operation E row = Inr rec \<longrightarrow>
      o_runtime_id rec \<noteq> rt \<longrightarrow>
      is_terminal (o_state rec) \<or> (o_state rec = Executing \<and> is_resumable_job (o_kind rec))"
  proof (intro ballI allI impI)
    fix row rec
    assume row: "row \<in> set (db_operations db')" "row_to_operation E row = Inr rec" "o_runtime_id rec \<noteq> rt"
    then have "r_runtime_id row \<noteq> uuid_to_string E rt"
      using row_to_operation_fields(2) [OF row(2)] assms(1) by auto
    then show "is_terminal (o_state rec) \<or> (o_state rec = Executing \<and> is_resumable_job (o_kind rec))"
      using recovery_settles [OF assms(1) rows assms(3,4) row(1,2)] by simp
  qed
  show "\<exists>recs. collect_results (row_to_operation E) (recoverable_rows E rt db) = Inr recs \<and>
      rep = report_of recs"
    by (rule recovery_report_exact [OF assms(4)])
  have sub: "set (recoverable_rows E rt db) \<subseteq> set (db_operations db)"
    by (auto simp: recoverable_rows_set)
  show "\<forall>row \<in> set (recoverable_rows E rt db). \<exists>row' \<in> set (db_operations db'). recovered_as E row row'"
    using recover_rows_effect [OF recover_previous_runtimes_Inr [OF assms(4)] rows assms(1,3) sub
        recoverable_rows_distinct [OF rows]] by blast
qed

lemma demo_recovery:
  "\<exists>rep db'. recover_previous_runtimes ref_env 8 (\<lambda>_. 5) (\<lambda>_. 107) demo_executing = (Inr rep, db')"
proof -
  obtain row where row: "db_operations demo_executing = [row]"
    "row_to_operation ref_env row = Inr demo_executing_record" "r_id row = uuid_to_string ref_env 1"
    by (rule demo_executing_row)
  have ok: "ledger_ok ref_env demo_executing" by (rule reachable_ok [OF demo_reachable(4) env_ok_ref_env])
  have fits: "event_fits ref_env 1 (reason_details r) 107 demo_executing" if "length r < 100" for r
  proof (rule demo_at_fits [OF demo_at_executing(2)])
    show "length (enc (reason_details r)) \<le> 1000"
      using that by (simp add: reason_details_def length_enc_obj)
  qed simp_all
  have "row \<in> set (db_operations demo_executing)" using row(1) by simp
  then have tx: "transition_tx ref_env demo_executing_record OutcomeUnknown
      (reason_details ''target_commit_status_unknown_after_restart'') 5 107 demo_executing
      = Inr (moved_record OutcomeUnknown 5 demo_executing_record,
         moved_ledger ref_env row demo_executing_record OutcomeUnknown
           (reason_details ''target_commit_status_unknown_after_restart'') 5 107 demo_executing)"
    using transition_tx_succeeds [OF env_ok_ref_env ok _ row(2), of OutcomeUnknown 5
        "reason_details ''target_commit_status_unknown_after_restart''" 107] fits
    by (simp add: moved_ledger_def Let_def start_in_time_def transition_allowed_def rfc3339_range_def)
  have "recoverable_rows ref_env 8 demo_executing = [] \<or> recoverable_rows ref_env 8 demo_executing = [row]"
    unfolding recoverable_rows_def row(1) by simp
  then show ?thesis
    using row(2) tx
    by (auto simp: recover_previous_runtimes_def run_tx_def recover_row_def restart_recovery_def)
qed

theorem recovery_settles_older_runtimes_witness:
  "\<exists>rep db'. recover_previous_runtimes ref_env 8 (\<lambda>_. 5) (\<lambda>_. 107) demo_executing = (Inr rep, db') \<and>
     (\<forall>row \<in> set (db_operations db'). \<forall>rec. row_to_operation ref_env row = Inr rec \<longrightarrow>
        o_runtime_id rec \<noteq> 8 \<longrightarrow>
        is_terminal (o_state rec) \<or> (o_state rec = Executing \<and> is_resumable_job (o_kind rec)))"
proof -
  obtain rep db' where
    run: "recover_previous_runtimes ref_env 8 (\<lambda>_. 5) (\<lambda>_. 107) demo_executing = (Inr rep, db')"
    using demo_recovery by blast
  then show ?thesis
    using recovery_settles_older_runtimes [OF env_ok_ref_env demo_reachable(4) _ run]
    by (auto simp: rfc3339_range_def)
qed

end
