(* ===== verification/Hash_Chain.thy ===== *)
theory Hash_Chain
  imports Prelude
begin

text \<open>
  The interface of a hash chain, as the operation events and the audit log both implement it:
  a link holds the hash of its predecessor, a body, and the hash of a message made of the two.
  The provider promises that a message determines the predecessor's hash and the body, up to
  a normal form of bodies. The client's result is tamper evidence: two chains that verify and
  end in the same hash have the same bodies, or exhibit a collision of the digest.
\<close>

record 'b link =
  link_prev :: "string option"
  link_body :: 'b
  link_hash :: string

fun chain_ok :: "('m \<Rightarrow> string) \<Rightarrow> (string option \<Rightarrow> 'b \<Rightarrow> 'm) \<Rightarrow> string option \<Rightarrow> 'b link list \<Rightarrow> bool" where
  "chain_ok H msg p [] = True"
| "chain_ok H msg p (l # ls) =
     (link_prev l = p \<and> link_hash l = H (msg p (link_body l)) \<and> chain_ok H msg (Some (link_hash l)) ls)"

abbreviation link_message :: "(string option \<Rightarrow> 'b \<Rightarrow> 'm) \<Rightarrow> 'b link \<Rightarrow> 'm" where
  "link_message msg l \<equiv> msg (link_prev l) (link_body l)"

definition collision ::
  "('m \<Rightarrow> string) \<Rightarrow> (string option \<Rightarrow> 'b \<Rightarrow> 'm) \<Rightarrow> 'b link list \<Rightarrow> 'b link list \<Rightarrow> bool" where
  "collision H msg ls ks \<longleftrightarrow> (\<exists>l \<in> set ls. \<exists>k \<in> set ks.
     link_message msg l \<noteq> link_message msg k \<and> H (link_message msg l) = H (link_message msg k))"

lemma chain_ok_snoc:
  "chain_ok H msg p (ls @ [l]) \<longleftrightarrow> chain_ok H msg p ls \<and>
     link_prev l = (if ls = [] then p else Some (link_hash (last ls))) \<and>
     link_hash l = H (link_message msg l)"
  by (induction ls arbitrary: p) auto

lemma collision_mono:
  "collision H msg ls ks \<Longrightarrow> set ls \<subseteq> set ls' \<Longrightarrow> set ks \<subseteq> set ks' \<Longrightarrow> collision H msg ls' ks'"
  unfolding collision_def by blast

locale hash_chain =
  fixes laws :: bool
    and H :: "'m \<Rightarrow> string"
    and msg :: "string option \<Rightarrow> 'b \<Rightarrow> 'm"
    and admissible :: "'b \<Rightarrow> bool"
    and norm :: "'b \<Rightarrow> 'c"
  assumes msg_inject:
    "\<lbrakk>laws; p = None \<or> (\<exists>m. p = Some (H m)); q = None \<or> (\<exists>m. q = Some (H m));
      admissible b; admissible c; msg p b = msg q c\<rbrakk> \<Longrightarrow> p = q \<and> norm b = norm c"
begin

lemma chain_prev:
  assumes "chain_ok H msg None (ls @ [l])"
  shows "link_prev l = None \<or> (\<exists>m. link_prev l = Some (H m))"
proof (cases ls rule: rev_cases)
  case Nil
  then show ?thesis using assms by (simp add: chain_ok_snoc)
next
  case (snoc ks k)
  then have "chain_ok H msg None (ks @ [k])" "link_prev l = Some (link_hash k)"
    using assms chain_ok_snoc [of H msg None ls l] by simp_all
  then show ?thesis by (auto simp: chain_ok_snoc)
qed

lemma tamper_evident:
  assumes "laws"
  shows "\<lbrakk>chain_ok H msg None ls; chain_ok H msg None ks;
      list_all (admissible \<circ> link_body) ls; list_all (admissible \<circ> link_body) ks;
      map_option link_hash (if ls = [] then None else Some (last ls))
        = map_option link_hash (if ks = [] then None else Some (last ks))\<rbrakk>
    \<Longrightarrow> map (norm \<circ> link_body) ls = map (norm \<circ> link_body) ks \<or> collision H msg ls ks"
proof (induction ls arbitrary: ks rule: rev_induct)
  case Nil
  then show ?case by (simp split: if_splits)
next
  case (snoc l ls)
  then obtain ks' k where ks: "ks = ks' @ [k]"
    by (cases ks rule: rev_cases) auto
  have same: "link_hash l = link_hash k" using snoc.prems(5) by (simp add: ks)
  have okl: "chain_ok H msg None (ls @ [l])" and okk: "chain_ok H msg None (ks' @ [k])"
    using snoc.prems(1,2) by (simp_all add: ks)
  show ?case
  proof (cases "link_message msg l = link_message msg k")
    case True
    have inj: "link_prev l = link_prev k \<and> norm (link_body l) = norm (link_body k)"
      by (rule msg_inject [OF assms chain_prev [OF okl] chain_prev [OF okk] _ _ True])
        (use snoc.prems(3,4) in \<open>simp_all add: ks\<close>)
    have "map_option link_hash (if ls = [] then None else Some (last ls))
        = map_option link_hash (if ks' = [] then None else Some (last ks'))"
      using okl okk inj by (auto simp: chain_ok_snoc split: if_splits)
    then have "map (norm \<circ> link_body) ls = map (norm \<circ> link_body) ks' \<or> collision H msg ls ks'"
      using snoc.IH [of ks'] okl okk snoc.prems(3,4) by (simp add: ks chain_ok_snoc comp_def)
    then show ?thesis
      using inj collision_mono [of H msg ls ks' "ls @ [l]" ks]
      by (auto simp: ks comp_def)
  next
    case False
    have "H (link_message msg l) = H (link_message msg k)"
      using same okl okk by (simp add: chain_ok_snoc)
    with False show ?thesis by (auto simp: collision_def ks)
  qed
qed

lemma tamper_evident_last:
  assumes "laws" "chain_ok H msg None ls" "chain_ok H msg None ks"
    and "list_all (admissible \<circ> link_body) ls" "list_all (admissible \<circ> link_body) ks"
    and "ls \<noteq> []" "ks \<noteq> []" "link_hash (last ls) = link_hash (last ks)"
  shows "map (norm \<circ> link_body) ls = map (norm \<circ> link_body) ks \<or> collision H msg ls ks"
  by (rule tamper_evident [OF assms(1-5)]) (use assms(6-8) in simp)

end

end
