(* ===== verification/Ledger_Chain.thy ===== *)
theory Ledger_Chain
  imports Ledger_Contracts Hash_Chain
begin

text \<open>
  The operation events as a hash chain: the message of an event is the canonical text of its
  hash input, and \<open>hash_chain\<close> is interpreted on it.
\<close>

text \<open>What an event's hash protects, apart from the predecessor's hash.\<close>

record event_body =
  eb_id :: uuid
  eb_operation_id :: uuid
  eb_sequence :: int
  eb_kind :: event_kind
  eb_state :: operation_state
  eb_json :: string
  eb_created_at :: datetime

definition event_body_of :: "env \<Rightarrow> event_record \<Rightarrow> event_body" where
  "event_body_of E e = \<lparr>eb_id = ev_id e, eb_operation_id = ev_operation_id e,
     eb_sequence = ev_sequence e, eb_kind = ev_kind e, eb_state = ev_state e,
     eb_json = canonical_json E (ev_details e), eb_created_at = ev_created_at e\<rparr>"

definition event_message :: "env \<Rightarrow> string option \<Rightarrow> event_body \<Rightarrow> string" where
  "event_message E prev b = canonical_json E (event_hash_object E
     \<lparr>hi_event_id = eb_id b, hi_operation_id = eb_operation_id b, hi_sequence = eb_sequence b,
      hi_kind = eb_kind b, hi_state = eb_state b, hi_event_json = eb_json b,
      hi_created_at = eb_created_at b, hi_prev_hash = prev\<rparr>)"

definition event_link :: "env \<Rightarrow> event_record \<Rightarrow> event_body link" where
  "event_link E e = \<lparr>link_prev = ev_prev_hash e, link_body = event_body_of E e, link_hash = ev_hash e\<rparr>"

definition event_body_ok :: "event_body \<Rightarrow> bool" where
  "event_body_ok b \<longleftrightarrow> rfc3339_range (eb_created_at b) \<and> - (2 ^ 63) \<le> eb_sequence b \<and> eb_sequence b < 2 ^ 63"

lemma json_opt_string_plain [simp]:
  "json_wf (json_opt_string v)" "json_depth (json_opt_string v) = 1" "json_integral (json_opt_string v)"
  "one_zero (json_opt_string v)"
  by (cases v; simp add: json_opt_string_def)+

lemma json_i64_plain:
  "- (2 ^ 63) \<le> i \<Longrightarrow> i < 2 ^ 63 \<Longrightarrow> json_integral (json_i64 i)"
  "json_wf (json_i64 i)" "json_depth (json_i64 i) = 1" "one_zero (json_i64 i)"
  by (simp_all add: json_i64_def nat_less_iff)

lemma json_opt_string_eq [simp]: "json_eq (json_opt_string v) (json_opt_string w) \<longleftrightarrow> v = w"
  by (cases v; cases w) (simp_all add: json_opt_string_def)

lemma json_i64_eq [simp]: "json_eq (json_i64 i) (json_i64 j) \<longleftrightarrow> i = j"
  by (auto simp: json_i64_def)

lemma event_message_inject:
  assumes "env_ok E" "event_body_ok b" "event_body_ok c" "event_message E p b = event_message E q c"
  shows "p = q \<and> b = c"
proof -
  let ?o = "\<lambda>p b. event_hash_object E
     \<lparr>hi_event_id = eb_id b, hi_operation_id = eb_operation_id b, hi_sequence = eb_sequence b,
      hi_kind = eb_kind b, hi_state = eb_state b, hi_event_json = eb_json b,
      hi_created_at = eb_created_at b, hi_prev_hash = p\<rparr>"
  have plain: "json_plain (?o p b)" "one_zero (?o p b)" if "event_body_ok b" for p b
    using that by (simp_all add: json_plain_def event_hash_object_def event_body_ok_def json_i64_plain)
  have "canonical_value (?o p b) = canonical_value (?o q c)"
    using assms(4) env_ok_plain_inject [OF assms(1) json_plain_canonical [OF plain(1) [OF assms(2)]]
        json_plain_canonical [OF plain(1) [OF assms(3)]], of p q]
    by (simp add: event_message_def canonical_json_eq)
  then have "json_eq (?o p b) (?o q c)"
    using json_eq_iff_canonical [of "?o p b" "?o q c"] plain assms(2,3) by simp
  then have eq: "p = q" "eb_id b = eb_id c" "eb_operation_id b = eb_operation_id c"
    "eb_sequence b = eb_sequence c" "eb_kind b = eb_kind c" "eb_state b = eb_state c"
    "eb_json b = eb_json c"
    and time: "to_rfc3339_nanos E (eb_created_at b) = to_rfc3339_nanos E (eb_created_at c)"
    using assms(1)
    by (simp_all add: event_hash_object_def event_codec.to_text_inject state_codec.to_text_inject)
  have "eb_created_at b = eb_created_at c"
    using time assms(1-3) by (metis env_ok_time event_body_ok_def option.inject)
  with eq show ?thesis by simp
qed

interpretation event_chain: hash_chain "env_ok E" "sha256_hex E" "event_message E" event_body_ok
    "\<lambda>b. b" for E
  by unfold_locales (use event_message_inject in blast)

lemma verify_events_chain:
  "verify_events E i p evs \<Longrightarrow> chain_ok (sha256_hex E) (event_message E) p (map (event_link E) evs)"
proof (induction evs arbitrary: i p)
  case (Cons e evs)
  then have "event_hash_of E e = ev_hash e" "ev_prev_hash e = p"
    "verify_events E (Suc i) (Some (ev_hash e)) evs"
    by (simp_all split: if_splits)
  then show ?case
    using Cons.IH
    by (simp add: event_link_def event_message_def event_body_of_def event_hash_of_def event_hash_def)
qed simp

text \<open>
  The event log is tamper-evident: two logs that both pass the code's verification and end
  in the same hash record the same events (identifiers, sequence, kinds, states, details and
  times), unless they exhibit two different texts with the same SHA-256 digest.
\<close>

theorem event_log_tamper_evident:
  assumes "env_ok E" "verify_events E 0 None xs" "verify_events E 0 None ys"
    and "list_all (\<lambda>e. event_body_ok (event_body_of E e)) xs"
    and "list_all (\<lambda>e. event_body_ok (event_body_of E e)) ys"
    and "xs \<noteq> []" "ys \<noteq> []" "ev_hash (last xs) = ev_hash (last ys)"
  shows "map (event_body_of E) xs = map (event_body_of E) ys \<or>
    collision (sha256_hex E) (event_message E) (map (event_link E) xs) (map (event_link E) ys)"
proof -
  have "map ((\<lambda>b. b) \<circ> link_body) (map (event_link E) xs) = map ((\<lambda>b. b) \<circ> link_body) (map (event_link E) ys) \<or>
    collision (sha256_hex E) (event_message E) (map (event_link E) xs) (map (event_link E) ys)"
  proof (rule event_chain.tamper_evident_last [OF assms(1)])
    show "chain_ok (sha256_hex E) (event_message E) None (map (event_link E) xs)"
      "chain_ok (sha256_hex E) (event_message E) None (map (event_link E) ys)"
      using verify_events_chain assms(2,3) by blast+
    show "list_all (event_body_ok \<circ> link_body) (map (event_link E) xs)"
      "list_all (event_body_ok \<circ> link_body) (map (event_link E) ys)"
      using assms(4,5) by (simp_all add: list_all_iff event_link_def)
    show "link_hash (last (map (event_link E) xs)) = link_hash (last (map (event_link E) ys))"
      using assms(6-8) by (simp add: last_map event_link_def)
  qed (use assms(6,7) in simp_all)
  then show ?thesis by (simp add: event_link_def comp_def)
qed

definition demo_event :: event_record where
  "demo_event = (let e = \<lparr>ev_id = 101, ev_operation_id = 1, ev_sequence = 1, ev_kind = Ev_Planned,
       ev_state = Planned, ev_details = JNull, ev_created_at = 0, ev_prev_hash = None, ev_hash = []\<rparr>
     in e\<lparr>ev_hash := event_hash_of ref_env e\<rparr>)"

theorem event_log_tamper_evident_witness:
  "map (event_body_of ref_env) [demo_event] = map (event_body_of ref_env) [demo_event] \<or>
   collision (sha256_hex ref_env) (event_message ref_env)
     (map (event_link ref_env) [demo_event]) (map (event_link ref_env) [demo_event])"
  by (rule event_log_tamper_evident [OF env_ok_ref_env])
    (simp_all add: demo_event_def Let_def event_hash_of_def event_body_of_def event_body_ok_def
      rfc3339_range_def)

end
