(* ===== verification/Database_Model.thy ===== *)
theory Database_Model
  imports Operation_State
begin

text \<open>
  The vocabulary of \<^verbatim>\<open>src/src-tauri/src/model.rs\<close> that the safety layers, the executor and
  the audit log share, with its text codecs from \<^verbatim>\<open>src/src-tauri/src/store/mod.rs\<close>, and the
  decimal text of integers.
\<close>

section \<open>Engines, query kinds and classifications\<close>

datatype engine = Postgres | Mysql | Sqlite | Mongodb

fun is_document :: "engine \<Rightarrow> bool" where
  "is_document Mongodb = True"
| "is_document _ = False"

datatype query_kind = Read | Write | Ddl | Privilege

datatype risk_level = Low | Medium | High

record classification =
  cl_kind :: query_kind
  cl_risk :: risk_level
  cl_statement_count :: nat
  cl_no_where :: bool
  cl_tables :: "string list"
  cl_notes :: "string list"
  cl_rollback_safe :: bool

fun engine_str :: "engine \<Rightarrow> string" where
  "engine_str Postgres = ''postgres''"
| "engine_str Mysql = ''mysql''"
| "engine_str Sqlite = ''sqlite''"
| "engine_str Mongodb = ''mongodb''"

definition parse_engine :: "string \<Rightarrow> engine app_result" where
  "parse_engine s =
     (if s = ''postgres'' then Inr Postgres
      else if s = ''mysql'' then Inr Mysql
      else if s = ''sqlite'' then Inr Sqlite
      else if s = ''mongodb'' then Inr Mongodb
      else Inl (Config (''unknown engine '' @ s)))"

fun kind_str :: "query_kind \<Rightarrow> string" where
  "kind_str Read = ''read''"
| "kind_str Write = ''write''"
| "kind_str Ddl = ''ddl''"
| "kind_str Privilege = ''privilege''"

definition parse_kind :: "string \<Rightarrow> query_kind app_result" where
  "parse_kind s =
     (if s = ''read'' then Inr Read
      else if s = ''write'' then Inr Write
      else if s = ''ddl'' then Inr Ddl
      else if s = ''privilege'' then Inr Privilege
      else Inl (Config (''unknown query kind '' @ s)))"

definition result_option :: "'e + 'a \<Rightarrow> 'a option" where
  "result_option r = (case r of Inl _ \<Rightarrow> None | Inr x \<Rightarrow> Some x)"

interpretation engine_codec: text_codec engine_str "\<lambda>s. result_option (parse_engine s)"
proof
  show "result_option (parse_engine (engine_str x)) = Some x" for x
    by (cases x) (simp_all add: parse_engine_def result_option_def)
  show "engine_str x = s" if "result_option (parse_engine s) = Some x" for s x
    using that by (auto simp: parse_engine_def result_option_def split: if_splits)
qed

interpretation query_kind_codec: text_codec kind_str "\<lambda>s. result_option (parse_kind s)"
proof
  show "result_option (parse_kind (kind_str x)) = Some x" for x
    by (cases x) (simp_all add: parse_kind_def result_option_def)
  show "kind_str x = s" if "result_option (parse_kind s) = Some x" for s x
    using that by (auto simp: parse_kind_def result_option_def split: if_splits)
qed

section \<open>Decimal text\<close>

definition digit_char :: "nat \<Rightarrow> char" where
  "digit_char n = ''0123456789'' ! n"

fun dec_nat :: "nat \<Rightarrow> string" where
  "dec_nat n = (if n < 10 then [digit_char n] else dec_nat (n div 10) @ [digit_char (n mod 10)])"

declare dec_nat.simps [simp del]

text \<open>\<^verbatim>\<open>i64::to_string\<close>\<close>

definition dec_int :: "int \<Rightarrow> string" where
  "dec_int i = (if i < 0 then CHR ''-'' # dec_nat (nat (- i)) else dec_nat (nat i))"

lemma digit_char_inject: "m < 10 \<Longrightarrow> n < 10 \<Longrightarrow> digit_char m = digit_char n \<longleftrightarrow> m = n"
  unfolding digit_char_def by (intro nth_eq_iff_index_eq) simp_all

definition decimal_chars :: "char set" where
  "decimal_chars = set ''0123456789''"

lemma digit_char_decimal: "n < 10 \<Longrightarrow> digit_char n \<in> decimal_chars"
  unfolding digit_char_def decimal_chars_def by (rule nth_mem) simp

lemma dec_nat_digits: "set (dec_nat n) \<subseteq> decimal_chars"
proof (induction n rule: dec_nat.induct)
  case (1 n)
  then show ?case by (simp add: dec_nat.simps [of n] digit_char_decimal)
qed

lemma dec_nat_nonempty [simp]: "dec_nat n \<noteq> []" "[] \<noteq> dec_nat n"
  by (simp_all add: dec_nat.simps [of n])

lemma dec_nat_inject: "dec_nat m = dec_nat n \<longleftrightarrow> m = n"
proof (induction m arbitrary: n rule: dec_nat.induct)
  case (1 m)
  show ?case
  proof (cases "m < 10")
    case True
    then show ?thesis
      using digit_char_inject [OF True, of n]
      by (auto simp: dec_nat.simps [of m] dec_nat.simps [of n])
  next
    case False
    show ?thesis
    proof (cases "n < 10")
      case True
      with False show ?thesis by (auto simp: dec_nat.simps [of m] dec_nat.simps [of n])
    next
      case big: False
      have "dec_nat m = dec_nat n \<longleftrightarrow> m div 10 = n div 10 \<and> m mod 10 = n mod 10"
        using False big "1.IH" [OF False, of "n div 10"] digit_char_inject [of "m mod 10" "n mod 10"]
        by (simp add: dec_nat.simps [of m] dec_nat.simps [of n])
      then show ?thesis by (metis div_mult_mod_eq)
    qed
  qed
qed

lemma dec_int_inject: "dec_int i = dec_int j \<longleftrightarrow> i = j"
proof -
  have no_sign: "dec_nat n \<noteq> CHR ''-'' # s" for n s
    using dec_nat_digits [of n] by (auto simp: decimal_chars_def)
  show ?thesis
    using no_sign [symmetric] no_sign by (auto simp: dec_int_def dec_nat_inject)
qed

end
