(* ===== verification/Audit_Log.thy ===== *)
theory Audit_Log
  imports Database_Model Hash_Chain Reference_Env
begin

text \<open>
  The append-only audit log of \<^verbatim>\<open>src/src-tauri/src/audit\<close>: the row serialisation and hash of
  \<^verbatim>\<open>chain.rs\<close>, and recording, snapshot and verification of \<^verbatim>\<open>mod.rs\<close>. The state is the
  table in rowid order; \<^verbatim>\<open>record\<close> runs under the chain lock, so it is one atomic step. The
  chain of one connection is an instance of \<open>hash_chain\<close>. \<open>fmt\<close> stands for
  \<^verbatim>\<open>DateTime::to_rfc3339\<close>, of which only injectivity is used.
\<close>

section \<open>Row serialisation and hash\<close>

record audit_fields =
  af_connection_id :: uuid
  af_ts :: datetime
  af_engine :: engine
  af_agent_prompt :: "string option"
  af_sql :: string
  af_kind :: query_kind
  af_action :: string
  af_approved_by :: "string option"
  af_affected_estimate :: "int option"
  af_error :: "string option"

definition unwrap_or_empty :: "string option \<Rightarrow> string" where
  "unwrap_or_empty v = (case v of None \<Rightarrow> [] | Some s \<Rightarrow> s)"

text \<open>\<open>push_field\<close> is the closure \<^verbatim>\<open>field\<close>: byte length, colon, bytes.\<close>

definition push_field :: "string \<Rightarrow> string" where
  "push_field s = dec_nat (length s) @ '':'' @ s"

definition audit_field_texts :: "env \<Rightarrow> (datetime \<Rightarrow> string) \<Rightarrow> audit_fields \<Rightarrow> string list" where
  "audit_field_texts E fmt f =
     [uuid_to_string E (af_connection_id f), fmt (af_ts f), engine_str (af_engine f),
      unwrap_or_empty (af_agent_prompt f), af_sql f, kind_str (af_kind f), af_action f,
      unwrap_or_empty (af_approved_by f),
      (case af_affected_estimate f of None \<Rightarrow> [] | Some n \<Rightarrow> dec_int n),
      unwrap_or_empty (af_error f)]"

definition canonical_row :: "env \<Rightarrow> (datetime \<Rightarrow> string) \<Rightarrow> audit_fields \<Rightarrow> string" where
  "canonical_row E fmt f = concat (map push_field (audit_field_texts E fmt f))"

definition audit_message :: "env \<Rightarrow> (datetime \<Rightarrow> string) \<Rightarrow> string option \<Rightarrow> audit_fields \<Rightarrow> string" where
  "audit_message E fmt prev_hash f = unwrap_or_empty prev_hash @ [CHR 0x1E] @ canonical_row E fmt f"

definition compute_hash :: "env \<Rightarrow> (datetime \<Rightarrow> string) \<Rightarrow> string option \<Rightarrow> audit_fields \<Rightarrow> string" where
  "compute_hash E fmt prev_hash f = sha256_hex E (audit_message E fmt prev_hash f)"

section \<open>The log\<close>

record audit_row =
  al_id :: string
  al_connection_id :: string
  al_ts :: datetime
  al_engine :: string
  al_agent_prompt :: "string option"
  al_sql :: string
  al_kind :: string
  al_action :: string
  al_approved_by :: "string option"
  al_affected_estimate :: "int option"
  al_error :: "string option"
  al_prev_hash :: "string option"
  al_hash :: string

type_synonym audit_log = "audit_row list"

record audit_entry =
  ae_id :: uuid
  ae_fields :: audit_fields
  ae_prev_hash :: "string option"
  ae_hash :: string

text \<open>\<open>record_args\<close> is \<^verbatim>\<open>RecordArgs\<close>: the audited fields but the time.\<close>

record record_args =
  ra_connection_id :: uuid
  ra_engine :: engine
  ra_agent_prompt :: "string option"
  ra_sql :: string
  ra_kind :: query_kind
  ra_action :: string
  ra_approved_by :: "string option"
  ra_affected_estimate :: "int option"
  ra_error :: "string option"

definition args_fields :: "record_args \<Rightarrow> datetime \<Rightarrow> audit_fields" where
  "args_fields a ts = \<lparr>af_connection_id = ra_connection_id a, af_ts = ts, af_engine = ra_engine a,
     af_agent_prompt = ra_agent_prompt a, af_sql = ra_sql a, af_kind = ra_kind a,
     af_action = ra_action a, af_approved_by = ra_approved_by a,
     af_affected_estimate = ra_affected_estimate a, af_error = ra_error a\<rparr>"

definition audit_rows_of :: "string \<Rightarrow> audit_log \<Rightarrow> audit_row list" where
  "audit_rows_of conn log = filter (\<lambda>r. al_connection_id r = conn) log"

text \<open>\<^verbatim>\<open>ORDER BY rowid DESC LIMIT 1\<close>\<close>

definition audit_tail :: "string \<Rightarrow> audit_log \<Rightarrow> string option" where
  "audit_tail conn log = (case rev (audit_rows_of conn log) of [] \<Rightarrow> None | r # _ \<Rightarrow> Some (al_hash r))"

definition audit_row_of :: "env \<Rightarrow> uuid \<Rightarrow> audit_fields \<Rightarrow> string option \<Rightarrow> string \<Rightarrow> audit_row" where
  "audit_row_of E entry_id f prev_hash hash =
     \<lparr>al_id = uuid_to_string E entry_id, al_connection_id = uuid_to_string E (af_connection_id f),
      al_ts = af_ts f, al_engine = engine_str (af_engine f), al_agent_prompt = af_agent_prompt f,
      al_sql = af_sql f, al_kind = kind_str (af_kind f), al_action = af_action f,
      al_approved_by = af_approved_by f, al_affected_estimate = af_affected_estimate f,
      al_error = af_error f, al_prev_hash = prev_hash, al_hash = hash\<rparr>"

definition audit_record ::
  "env \<Rightarrow> (datetime \<Rightarrow> string) \<Rightarrow> record_args \<Rightarrow> uuid \<Rightarrow> datetime \<Rightarrow> audit_log
     \<Rightarrow> audit_entry app_result \<times> audit_log" where
  "audit_record E fmt a entry_id ts log =
     (let prev_hash = audit_tail (uuid_to_string E (ra_connection_id a)) log;
          fields = args_fields a ts;
          hash = compute_hash E fmt prev_hash fields;
          row = audit_row_of E entry_id fields prev_hash hash
      in if al_id row \<in> set (map al_id log) then (Inl (Db ''UNIQUE constraint failed''), log)
         else (Inr \<lparr>ae_id = entry_id, ae_fields = fields, ae_prev_hash = prev_hash, ae_hash = hash\<rparr>,
               log @ [row]))"

definition store_parse_uuid :: "env \<Rightarrow> string \<Rightarrow> uuid app_result" where
  "store_parse_uuid E s = ok_or (uuid_parse_str E s) (Config (''bad uuid '' @ s))"

definition row_to_audit :: "env \<Rightarrow> audit_row \<Rightarrow> audit_entry app_result" where
  "row_to_audit E r =
     rbind (store_parse_uuid E (al_id r)) (\<lambda>id.
     rbind (store_parse_uuid E (al_connection_id r)) (\<lambda>connection_id.
     rbind (parse_engine (al_engine r)) (\<lambda>engine.
     rbind (parse_kind (al_kind r)) (\<lambda>kind.
     Inr \<lparr>ae_id = id,
          ae_fields = \<lparr>af_connection_id = connection_id, af_ts = al_ts r, af_engine = engine,
            af_agent_prompt = al_agent_prompt r, af_sql = al_sql r, af_kind = kind,
            af_action = al_action r, af_approved_by = al_approved_by r,
            af_affected_estimate = al_affected_estimate r, af_error = al_error r\<rparr>,
          ae_prev_hash = al_prev_hash r, ae_hash = al_hash r\<rparr>))))"

fun verify_entries_from ::
  "env \<Rightarrow> (datetime \<Rightarrow> string) \<Rightarrow> nat \<Rightarrow> string option \<Rightarrow> audit_entry list \<Rightarrow> bool \<times> nat option" where
  "verify_entries_from E fmt i expected_prev [] = (True, None)"
| "verify_entries_from E fmt i expected_prev (e # es) =
     (if ae_prev_hash e \<noteq> expected_prev then (False, Some i)
      else if compute_hash E fmt (ae_prev_hash e) (ae_fields e) \<noteq> ae_hash e then (False, Some i)
      else verify_entries_from E fmt (Suc i) (Some (ae_hash e)) es)"

definition verify_entries :: "env \<Rightarrow> (datetime \<Rightarrow> string) \<Rightarrow> audit_entry list \<Rightarrow> bool \<times> nat option" where
  "verify_entries E fmt es = verify_entries_from E fmt 0 None es"

definition audit_entries :: "env \<Rightarrow> uuid \<Rightarrow> audit_log \<Rightarrow> audit_entry list app_result" where
  "audit_entries E connection_id log =
     collect_results (row_to_audit E) (audit_rows_of (uuid_to_string E connection_id) log)"

definition audit_snapshot ::
  "env \<Rightarrow> (datetime \<Rightarrow> string) \<Rightarrow> uuid \<Rightarrow> audit_log \<Rightarrow> (audit_entry list \<times> bool \<times> nat option) app_result" where
  "audit_snapshot E fmt connection_id log =
     rbind (audit_entries E connection_id log) (\<lambda>entries.
       let (ok, first_bad_index) = verify_entries E fmt entries
       in Inr (rev entries, ok, first_bad_index))"

definition audit_verify_chain ::
  "env \<Rightarrow> (datetime \<Rightarrow> string) \<Rightarrow> uuid \<Rightarrow> audit_log \<Rightarrow> (bool \<times> nat option) app_result" where
  "audit_verify_chain E fmt connection_id log =
     rbind (audit_entries E connection_id log) (\<lambda>entries. Inr (verify_entries E fmt entries))"

section \<open>The serialisation is unambiguous\<close>

lemma push_field_inject:
  assumes "push_field s @ r = push_field t @ q"
  shows "s = t \<and> r = q"
proof -
  have split: "takeWhile (\<lambda>c. c \<noteq> CHR '':'') (push_field s @ r) = dec_nat (length s)" for s r
  proof -
    have "\<forall>c \<in> set (dec_nat (length s)). c \<noteq> CHR '':''"
      using dec_nat_digits [of "length s"] by (auto simp: decimal_chars_def)
    then show ?thesis by (simp add: push_field_def takeWhile_append2)
  qed
  have "length s = length t"
    using split [of s r] split [of t q] assms by (simp add: dec_nat_inject)
  then show ?thesis using assms by (simp add: push_field_def)
qed

lemma push_fields_inject:
  "length ss = length ts \<Longrightarrow> concat (map push_field ss) = concat (map push_field ts) \<Longrightarrow> ss = ts"
  by (induction ss ts rule: list_induct2) (auto dest: push_field_inject)

text \<open>An absent text and the empty text have one serialisation.\<close>

definition audit_norm :: "audit_fields \<Rightarrow> audit_fields" where
  "audit_norm f = f\<lparr>af_agent_prompt := Some (unwrap_or_empty (af_agent_prompt f)),
     af_approved_by := Some (unwrap_or_empty (af_approved_by f)),
     af_error := Some (unwrap_or_empty (af_error f))\<rparr>"

definition time_text_laws :: "(datetime \<Rightarrow> string) \<Rightarrow> bool" where
  "time_text_laws fmt \<longleftrightarrow> inj fmt"

lemma dec_int_nonempty [simp]: "dec_int i \<noteq> []" "[] \<noteq> dec_int i"
  by (simp_all add: dec_int_def)

lemma canonical_row_inject:
  assumes "env_ok E" "time_text_laws fmt"
  shows "canonical_row E fmt f = canonical_row E fmt g \<longleftrightarrow> audit_norm f = audit_norm g"
proof
  assume "canonical_row E fmt f = canonical_row E fmt g"
  then have "audit_field_texts E fmt f = audit_field_texts E fmt g"
    unfolding canonical_row_def
    by (intro push_fields_inject) (simp add: audit_field_texts_def)
  then show "audit_norm f = audit_norm g"
    using assms
    by (auto simp: audit_field_texts_def audit_norm_def engine_codec.to_text_inject
        query_kind_codec.to_text_inject dec_int_inject time_text_laws_def inj_eq split: option.splits)
next
  assume eq: "audit_norm f = audit_norm g"
  have norm: "audit_field_texts E fmt (audit_norm h) = audit_field_texts E fmt h" for h
    by (simp add: audit_field_texts_def audit_norm_def unwrap_or_empty_def)
  show "canonical_row E fmt f = canonical_row E fmt g"
    using norm [of f] norm [of g] eq by (simp add: canonical_row_def)
qed

lemma audit_message_inject:
  assumes "env_ok E" "time_text_laws fmt"
    and "p = None \<or> (\<exists>m. p = Some (sha256_hex E m))" "q = None \<or> (\<exists>m. q = Some (sha256_hex E m))"
    and "audit_message E fmt p f = audit_message E fmt q g"
  shows "p = q \<and> audit_norm f = audit_norm g"
proof -
  have no_sep: "CHR 0x1E \<notin> set (unwrap_or_empty p)"
    if "p = None \<or> (\<exists>m. p = Some (sha256_hex E m))" for p
    using that lower_hex_chars by (auto simp: unwrap_or_empty_def sha256_hex_def hex_chars_def)
  have split: "takeWhile (\<lambda>c. c \<noteq> CHR 0x1E) (audit_message E fmt p f) = unwrap_or_empty p"
    if "p = None \<or> (\<exists>m. p = Some (sha256_hex E m))" for p f
  proof -
    have "\<forall>c \<in> set (unwrap_or_empty p). c \<noteq> CHR 0x1E" using no_sep [OF that] by auto
    then show ?thesis by (simp add: audit_message_def takeWhile_append2)
  qed
  have prev: "unwrap_or_empty p = unwrap_or_empty q"
    using split [OF assms(3), of f] split [OF assms(4), of g] assms(5) by simp
  have "length (sha256_hex E m) = 64" for m using assms(1) by simp
  then have "p = q"
    using prev assms(3,4) by (auto simp: unwrap_or_empty_def) (metis list.size(3) zero_neq_numeral)+
  then show ?thesis
    using assms(5) canonical_row_inject [OF assms(1,2)] by (simp add: audit_message_def)
qed

interpretation audit_chain: hash_chain "env_ok E \<and> time_text_laws fmt" "sha256_hex E"
    "audit_message E fmt" "\<lambda>_. True" audit_norm for E fmt
  by unfold_locales (use audit_message_inject in blast)

section \<open>Verification\<close>

lemma verify_entries_from_append:
  "fst (verify_entries_from E fmt i p (xs @ [x])) \<longleftrightarrow> fst (verify_entries_from E fmt i p xs) \<and>
     ae_prev_hash x = (if xs = [] then p else Some (ae_hash (last xs))) \<and>
     compute_hash E fmt (ae_prev_hash x) (ae_fields x) = ae_hash x"
  by (induction xs arbitrary: i p) auto

lemma verify_entries_from_True: "fst (verify_entries_from E fmt i p es) \<longleftrightarrow>
    verify_entries_from E fmt i p es = (True, None)"
  by (induction es arbitrary: i p) auto

lemma audit_row_reads:
  assumes "env_ok E"
  shows "row_to_audit E (audit_row_of E entry_id f prev h)
    = Inr \<lparr>ae_id = entry_id, ae_fields = f, ae_prev_hash = prev, ae_hash = h\<rparr>"
proof -
  have "parse_engine (engine_str e) = Inr e" "parse_kind (kind_str k) = Inr k" for e k
    by (cases e; simp add: parse_engine_def) (cases k; simp add: parse_kind_def)
  then show ?thesis
    using assms by (simp add: row_to_audit_def audit_row_of_def store_parse_uuid_def)
qed

text \<open>The invariant of the table: the rows of every connection read back and verify.\<close>

definition audit_ok :: "env \<Rightarrow> (datetime \<Rightarrow> string) \<Rightarrow> audit_log \<Rightarrow> bool" where
  "audit_ok E fmt log \<longleftrightarrow> (\<forall>c. \<exists>es. audit_entries E c log = Inr es \<and> fst (verify_entries E fmt es) \<and>
     map ae_hash es = map al_hash (audit_rows_of (uuid_to_string E c) log))"

lemma audit_ok_Nil: "audit_ok E fmt []"
  by (simp add: audit_ok_def audit_entries_def audit_rows_of_def verify_entries_def)

lemma audit_record_ok:
  assumes env: "env_ok E" and ok: "audit_ok E fmt log"
  shows "audit_ok E fmt (snd (audit_record E fmt a entry_id ts log))"
proof (cases "uuid_to_string E entry_id \<in> set (map al_id log)")
  case True
  then show ?thesis using ok by (simp add: audit_record_def Let_def audit_row_of_def)
next
  case False
  let ?c = "ra_connection_id a" and ?f = "args_fields a ts"
  let ?prev = "audit_tail (uuid_to_string E ?c) log"
  let ?h = "compute_hash E fmt ?prev ?f"
  let ?row = "audit_row_of E entry_id ?f ?prev ?h"
  let ?e = "\<lparr>ae_id = entry_id, ae_fields = ?f, ae_prev_hash = ?prev, ae_hash = ?h\<rparr>"
  have log': "snd (audit_record E fmt a entry_id ts log) = log @ [?row]"
    using False by (simp add: audit_record_def Let_def audit_row_of_def)
  have conn: "al_connection_id ?row = uuid_to_string E ?c"
    by (simp add: audit_row_of_def args_fields_def)
  have "\<exists>es. audit_entries E d (log @ [?row]) = Inr es \<and> fst (verify_entries E fmt es) \<and>
     map ae_hash es = map al_hash (audit_rows_of (uuid_to_string E d) (log @ [?row]))" for d
  proof -
    obtain es where es: "audit_entries E d log = Inr es" "fst (verify_entries E fmt es)"
      "map ae_hash es = map al_hash (audit_rows_of (uuid_to_string E d) log)"
      using ok unfolding audit_ok_def by blast
    show ?thesis
    proof (cases "d = ?c")
      case True
      have prev: "?prev = (if es = [] then None else Some (ae_hash (last es)))"
        using es(3) True
        by (cases "audit_rows_of (uuid_to_string E d) log" rule: rev_cases; cases es rule: rev_cases)
          (simp_all add: audit_tail_def)
      have "audit_entries E d (log @ [?row]) = Inr (es @ [?e])"
        using es(1) True conn audit_row_reads [OF env]
        by (simp add: audit_entries_def audit_rows_of_def collect_results_append)
      moreover have "fst (verify_entries E fmt (es @ [?e]))"
        unfolding verify_entries_def verify_entries_from_append
        using es(2) prev by (simp add: verify_entries_def)
      moreover have "map ae_hash (es @ [?e]) =
          map al_hash (audit_rows_of (uuid_to_string E d) (log @ [?row]))"
        using es(3) True conn by (simp add: audit_rows_of_def) (simp add: audit_row_of_def)
      ultimately show ?thesis by blast
    next
      case other: False
      then have "uuid_to_string E d \<noteq> uuid_to_string E ?c" using env by simp
      then have "audit_rows_of (uuid_to_string E d) (log @ [?row]) = audit_rows_of (uuid_to_string E d) log"
        using conn by (simp add: audit_rows_of_def)
      then show ?thesis using es by (simp add: audit_entries_def)
    qed
  qed
  then show ?thesis unfolding audit_ok_def log' by blast
qed

type_synonym audit_call = "record_args \<times> uuid \<times> datetime"

definition audit_step :: "env \<Rightarrow> (datetime \<Rightarrow> string) \<Rightarrow> audit_call \<Rightarrow> audit_log \<Rightarrow> audit_log" where
  "audit_step E fmt call log = (case call of (a, entry_id, ts) \<Rightarrow> snd (audit_record E fmt a entry_id ts log))"

lemma audit_steps_ok: "env_ok E \<Longrightarrow> audit_ok E fmt log \<Longrightarrow> audit_ok E fmt (fold (audit_step E fmt) calls log)"
  by (induction calls arbitrary: log) (auto simp: audit_step_def audit_record_ok split: prod.split)

text \<open>
  C34. The audit log verifies: whatever is recorded, in whatever order and for whatever
  connections, the chain of every connection passes \<open>audit_verify_chain\<close>.
\<close>

theorem recorded_audit_log_verifies:
  assumes "env_ok E"
  shows "audit_verify_chain E fmt connection (fold (audit_step E fmt) calls []) = Inr (True, None)"
proof -
  obtain es where "audit_entries E connection (fold (audit_step E fmt) calls []) = Inr es"
    "fst (verify_entries E fmt es)"
    using audit_steps_ok [OF assms audit_ok_Nil] unfolding audit_ok_def by blast
  then show ?thesis
    by (simp add: audit_verify_chain_def verify_entries_def verify_entries_from_True)
qed

definition ref_fmt :: "datetime \<Rightarrow> string" where
  "ref_fmt t = dec_int t"

lemma ref_fmt_laws: "time_text_laws ref_fmt"
  by (simp add: time_text_laws_def ref_fmt_def inj_on_def dec_int_inject)

definition demo_args :: record_args where
  "demo_args = \<lparr>ra_connection_id = 3, ra_engine = Postgres, ra_agent_prompt = None,
     ra_sql = ''SELECT 1'', ra_kind = Read, ra_action = ''execute'', ra_approved_by = None,
     ra_affected_estimate = None, ra_error = None\<rparr>"

theorem recorded_audit_log_verifies_witness:
  "audit_verify_chain ref_env ref_fmt 3
     (fold (audit_step ref_env ref_fmt) [(demo_args, 1, 0), (demo_args, 2, 5)] []) = Inr (True, None)"
  by (rule recorded_audit_log_verifies [OF env_ok_ref_env])

lemma verify_entries_from_bad:
  "verify_entries_from E fmt i p es = (False, Some k) \<longleftrightarrow>
     i \<le> k \<and> k - i < length es \<and> fst (verify_entries_from E fmt i p (take (k - i) es)) \<and>
     (let e = es ! (k - i); prev = (if k = i then p else Some (ae_hash (es ! (k - i - 1))))
      in ae_prev_hash e \<noteq> prev \<or> compute_hash E fmt (ae_prev_hash e) (ae_fields e) \<noteq> ae_hash e)"
proof (induction es arbitrary: i p)
  case (Cons e es)
  let ?good = "ae_prev_hash e = p \<and> compute_hash E fmt (ae_prev_hash e) (ae_fields e) = ae_hash e"
  show ?case
  proof (cases "?good \<and> i < k")
    case True
    then obtain d where d: "k = Suc (i + d)" using less_imp_Suc_add by blast
    then show ?thesis
      using True Cons.IH [of "Suc i" "Some (ae_hash e)"] by (cases d) (auto simp: Let_def)
  next
    case False
    then show ?thesis
    proof (cases ?good)
      case good: True
      then have "k \<le> i" using False by auto
      then have "verify_entries_from E fmt (Suc i) (Some (ae_hash e)) es \<noteq> (False, Some k)"
        using Cons.IH [of "Suc i" "Some (ae_hash e)"] by simp
      then show ?thesis using good \<open>k \<le> i\<close> by (auto simp: Let_def)
    next
      case bad: False
      then have "\<not> fst (verify_entries_from E fmt i p (take (k - i) (e # es)))" if "i < k"
        using that by (cases "k - i") auto
      then show ?thesis
        using bad by (cases "i < k"; cases "k = i") (auto simp: Let_def)
    qed
  qed
qed simp

text \<open>
  Verification reports the first bad link: the index returned is the position of the first
  entry whose stored predecessor hash or own hash does not fit, and everything before it
  verifies.
\<close>

theorem audit_first_bad_index:
  "verify_entries E fmt es = (False, Some k) \<longleftrightarrow>
     k < length es \<and> verify_entries E fmt (take k es) = (True, None) \<and>
     (ae_prev_hash (es ! k) \<noteq> (if k = 0 then None else Some (ae_hash (es ! (k - 1)))) \<or>
      compute_hash E fmt (ae_prev_hash (es ! k)) (ae_fields (es ! k)) \<noteq> ae_hash (es ! k))"
  unfolding verify_entries_def verify_entries_from_bad verify_entries_from_True [symmetric]
  by (simp add: Let_def)

section \<open>Tamper evidence\<close>

definition audit_link :: "audit_entry \<Rightarrow> audit_fields link" where
  "audit_link e = \<lparr>link_prev = ae_prev_hash e, link_body = ae_fields e, link_hash = ae_hash e\<rparr>"

lemma verify_entries_chain:
  "fst (verify_entries_from E fmt i p es) \<Longrightarrow>
     chain_ok (sha256_hex E) (audit_message E fmt) p (map audit_link es)"
  by (induction es arbitrary: i p) (auto simp: audit_link_def compute_hash_def split: if_splits)


definition demo_entry :: audit_entry where
  "demo_entry = \<lparr>ae_id = 1, ae_fields = args_fields demo_args 0, ae_prev_hash = None,
     ae_hash = compute_hash ref_env ref_fmt None (args_fields demo_args 0)\<rparr>"


theorem audit_first_bad_index_witness:
  "verify_entries ref_env ref_fmt
     [demo_entry, demo_entry\<lparr>ae_prev_hash := Some (ae_hash demo_entry), ae_hash := []\<rparr>] = (False, Some 1)"
proof -
  have "sha256_hex ref_env m \<noteq> []" for m using length_sha256_hex [OF env_ok_ref_env, of m] by force
  then show ?thesis
    unfolding audit_first_bad_index by (simp add: demo_entry_def verify_entries_def compute_hash_def)
qed

text \<open>
  Two rows have one serialisation exactly when they agree up to absent texts: no shift of
  characters between fields goes unnoticed, but an absent prompt, approver or error and an
  empty one are hashed alike.
\<close>

theorem audit_serialisation_unambiguous:
  assumes "env_ok E" "time_text_laws fmt"
  shows "canonical_row E fmt f = canonical_row E fmt g \<longleftrightarrow>
    af_connection_id f = af_connection_id g \<and> af_ts f = af_ts g \<and> af_engine f = af_engine g \<and>
    unwrap_or_empty (af_agent_prompt f) = unwrap_or_empty (af_agent_prompt g) \<and>
    af_sql f = af_sql g \<and> af_kind f = af_kind g \<and> af_action f = af_action g \<and>
    unwrap_or_empty (af_approved_by f) = unwrap_or_empty (af_approved_by g) \<and>
    af_affected_estimate f = af_affected_estimate g \<and>
    unwrap_or_empty (af_error f) = unwrap_or_empty (af_error g)"
  unfolding canonical_row_inject [OF assms]
  by (cases f; cases g) (auto simp: audit_norm_def)

theorem audit_serialisation_unambiguous_witness:
  "canonical_row ref_env ref_fmt (args_fields demo_args 0)
     = canonical_row ref_env ref_fmt ((args_fields demo_args 0)\<lparr>af_error := Some []\<rparr>)"
  unfolding audit_serialisation_unambiguous [OF env_ok_ref_env ref_fmt_laws]
  by (simp add: args_fields_def demo_args_def unwrap_or_empty_def)

end
