(* ===== verification/Frame.thy ===== *)
theory Frame
  imports Reference_Env
begin

text \<open>
  The length-prefixed control frames of \<^verbatim>\<open>src/dopedb-protocol/src/frame.rs\<close>: the length
  prefix, the bounded writer, the structural limits (an explicit stack, as in the code, shown
  equal to a declarative bound on the value), encoding and decoding. The JSON text codec is a
  parameter: \<open>wire_chunks\<close> are the pieces \<^verbatim>\<open>serde_json::to_writer\<close> hands to the writer, and
  \<open>wire_parse\<close> is \<^verbatim>\<open>serde_json::from_slice\<close>, whose errors carry a line and a column. Sizes
  are those of a 64-bit \<^verbatim>\<open>usize\<close>, as natural numbers.
\<close>

datatype frame_error =
    MissingLengthPrefix
  | EmptyPayload
  | PayloadTooLarge nat nat
  | LengthMismatch nat nat
  | JsonDepth nat
  | CollectionTooLarge nat nat
  | ItemBudgetExceeded nat
  | StringTooLarge nat nat
  | InvalidJson nat nat
  | InvalidSchema

type_synonym 'a frame_result = "frame_error + 'a"

section \<open>The length prefix\<close>

text \<open>\<^verbatim>\<open>u32::from_be_bytes\<close> and \<^verbatim>\<open>u32::to_be_bytes\<close>\<close>

definition from_be_bytes :: "u8 \<Rightarrow> u8 \<Rightarrow> u8 \<Rightarrow> u8 \<Rightarrow> 32 word" where
  "from_be_bytes a b c d =
     word_of_int (((uint a * 256 + uint b) * 256 + uint c) * 256 + uint d)"

definition to_be_bytes :: "32 word \<Rightarrow> u8 list" where
  "to_be_bytes w = [ucast (drop_bit 24 w), ucast (drop_bit 16 w), ucast (drop_bit 8 w), ucast w]"

definition length_prefix_bytes :: nat where
  "length_prefix_bytes = 4"

definition parse_frame_length :: "32 word \<Rightarrow> nat \<Rightarrow> nat frame_result" where
  "parse_frame_length header maximum =
     (let len = unat header in
      if len = 0 then Inl EmptyPayload
      else if maximum < len then Inl (PayloadTooLarge len maximum)
      else Inr len)"

section \<open>Structural limits\<close>

definition validate_collection_len :: "nat \<Rightarrow> unit frame_result" where
  "validate_collection_len actual =
     (if max_collection_items < actual then Inl (CollectionTooLarge actual max_collection_items)
      else Inr ())"

definition validate_string :: "string \<Rightarrow> unit frame_result" where
  "validate_string s =
     (if max_string_bytes < length s then Inl (StringTooLarge (length s) max_string_bytes) else Inr ())"

fun validate_keys :: "(string \<times> json) list \<Rightarrow> unit frame_result" where
  "validate_keys [] = Inr ()"
| "validate_keys ((k, v) # kvs) = rbind (validate_string k) (\<lambda>_. validate_keys kvs)"

fun json_nodes :: "json \<Rightarrow> nat" where
  "json_nodes (JArray vs) = Suc (sum_list (map json_nodes vs))"
| "json_nodes (JObject kvs) = Suc (sum_list (map (\<lambda>kv. json_nodes (snd kv)) kvs))"
| "json_nodes _ = 1"

text \<open>
  The loop, with the stack's top at the head of the list: the code pushes the children in
  reverse and pops from the end, and checks an object's keys in that reverse order too.
\<close>

function validate_loop :: "nat \<Rightarrow> (json \<times> nat) list \<Rightarrow> unit frame_result" where
  "validate_loop item_budget [] = Inr ()"
| "validate_loop item_budget ((v, depth) # pending) =
     (if max_json_depth < depth then Inl (JsonDepth max_json_depth)
      else if max_json_values < item_budget + 1 then Inl (ItemBudgetExceeded max_json_values)
      else (case v of
          JString s \<Rightarrow>
            rbind (validate_string s) (\<lambda>_. validate_loop (item_budget + 1) pending)
        | JArray vs \<Rightarrow>
            rbind (validate_collection_len (length vs)) (\<lambda>_.
              validate_loop (item_budget + 1) (map (\<lambda>w. (w, depth + 1)) vs @ pending))
        | JObject kvs \<Rightarrow>
            rbind (validate_collection_len (length kvs)) (\<lambda>_.
            rbind (validate_keys (rev kvs)) (\<lambda>_.
              validate_loop (item_budget + 1) (map (\<lambda>kv. (snd kv, depth + 1)) kvs @ pending)))
        | _ \<Rightarrow> validate_loop (item_budget + 1) pending))"
  by pat_completeness auto
termination
  by (relation "measure (\<lambda>(_, pending). sum_list (map (json_nodes \<circ> fst) pending))")
    (auto simp: comp_def)

definition validate_json_limits :: "json \<Rightarrow> unit frame_result" where
  "validate_json_limits v = validate_loop 0 [(v, 1)]"

subsection \<open>The declarative bound\<close>

fun json_small :: "json \<Rightarrow> bool" where
  "json_small (JString s) = (length s \<le> max_string_bytes)"
| "json_small (JArray vs) = (length vs \<le> max_collection_items \<and> list_all json_small vs)"
| "json_small (JObject kvs) = (length kvs \<le> max_collection_items \<and>
     list_all (\<lambda>kv. length (fst kv) \<le> max_string_bytes \<and> json_small (snd kv)) kvs)"
| "json_small _ = True"

definition within_limits :: "json \<Rightarrow> bool" where
  "within_limits v \<longleftrightarrow>
     json_depth v \<le> max_json_depth \<and> json_nodes v \<le> max_json_values \<and> json_small v"

lemma validate_keys_Inr:
  "validate_keys kvs = Inr u \<longleftrightarrow> list_all (\<lambda>kv. length (fst kv) \<le> max_string_bytes) kvs"
  by (induction kvs rule: validate_keys.induct) (auto simp: validate_string_def rbind_def)

lemma json_depth_pos: "0 < json_depth v"
  by (cases v) simp_all

lemma json_nodes_pos: "0 < json_nodes v"
  by (cases v) simp_all

definition stack_nodes :: "(json \<times> nat) list \<Rightarrow> nat" where
  "stack_nodes pending = sum_list (map (json_nodes \<circ> fst) pending)"

definition stack_ok :: "json \<times> nat \<Rightarrow> bool" where
  "stack_ok = (\<lambda>(v, d). d + json_depth v \<le> max_json_depth + 1 \<and> json_small v)"

lemma stack_nodes_simps [simp]:
  "stack_nodes [] = 0"
  "stack_nodes ((v, d) # pending) = json_nodes v + stack_nodes pending"
  "stack_nodes (p @ q) = stack_nodes p + stack_nodes q"
  by (simp_all add: stack_nodes_def)

lemma validate_loop_Inr:
  "validate_loop n pending = Inr () \<longleftrightarrow>
     (\<forall>x \<in> set pending. stack_ok x) \<and> (pending = [] \<or> n + stack_nodes pending \<le> max_json_values)"
proof (induction n pending rule: validate_loop.induct)
  case (2 n v depth pending)
  show ?case
  proof (cases "max_json_depth < depth \<or> max_json_values < n + 1")
    case True
    then show ?thesis using json_depth_pos [of v] json_nodes_pos [of v] by (auto simp: stack_ok_def)
  next
    case False
    then have go: "\<not> max_json_depth < depth" "\<not> max_json_values < n + 1" by simp_all
    have budget: "(p = [] \<or> n + 1 + stack_nodes p \<le> max_json_values) \<longleftrightarrow>
        n + 1 + stack_nodes p \<le> max_json_values" for p
      using go(2) by (cases p) simp_all
    note IH = "2.IH" [OF go, unfolded budget]
    have "validate_loop n ((v, depth) # pending) = Inr () \<longleftrightarrow>
        stack_ok (v, depth) \<and> (\<forall>x \<in> set pending. stack_ok x) \<and>
        n + json_nodes v + stack_nodes pending \<le> max_json_values"
    proof (cases v)
      case (JString s)
      then show ?thesis
        using IH(4) [OF JString] go by (auto simp: validate_string_def stack_ok_def)
    next
      case (JArray vs)
      let ?new = "map (\<lambda>w. (w, depth + 1)) vs"
      have "validate_loop n ((v, depth) # pending) = Inr () \<longleftrightarrow>
          length vs \<le> max_collection_items \<and> validate_loop (n + 1) (?new @ pending) = Inr ()"
        using go by (auto simp: JArray validate_collection_len_def)
      moreover have "stack_nodes (?new @ pending) = sum_list (map json_nodes vs) + stack_nodes pending"
        by (simp add: stack_nodes_def comp_def)
      moreover have "stack_ok (v, depth) \<longleftrightarrow> length vs \<le> max_collection_items \<and> (\<forall>x \<in> set ?new. stack_ok x)"
        using go(1) foldr_max_le [of json_depth vs "max_json_depth - depth"]
        by (auto simp: stack_ok_def JArray list_all_iff)
      ultimately show ?thesis
        using IH(5) [OF JArray] by (auto simp: JArray ball_Un)
    next
      case (JObject kvs)
      let ?new = "map (\<lambda>kv. (snd kv, depth + 1)) kvs"
      have "validate_loop n ((v, depth) # pending) = Inr () \<longleftrightarrow>
          length kvs \<le> max_collection_items \<and> list_all (\<lambda>kv. length (fst kv) \<le> max_string_bytes) kvs \<and>
          validate_loop (n + 1) (?new @ pending) = Inr ()"
        using go validate_keys_Inr [of "rev kvs"]
        by (auto simp: JObject validate_collection_len_def rbind_eq_Inr list_all_iff)
      moreover have "stack_nodes (?new @ pending) = sum_list (map (\<lambda>kv. json_nodes (snd kv)) kvs) + stack_nodes pending"
        by (simp add: stack_nodes_def comp_def)
      moreover have "stack_ok (v, depth) \<longleftrightarrow> length kvs \<le> max_collection_items \<and>
          list_all (\<lambda>kv. length (fst kv) \<le> max_string_bytes) kvs \<and> (\<forall>x \<in> set ?new. stack_ok x)"
        using go(1) foldr_max_le [of "\<lambda>kv. json_depth (snd kv)" kvs "max_json_depth - depth"]
        by (auto simp: stack_ok_def JObject list_all_iff)
      ultimately show ?thesis
        using IH(6) [OF JObject] by (auto simp: JObject ball_Un)
    qed (use IH go in \<open>auto simp: stack_ok_def\<close>)
    then show ?thesis by (simp add: add.assoc)
  qed
qed simp

section \<open>The bounded writer\<close>

record bounded_writer =
  bw_bytes :: "u8 list"
  bw_overflowed :: bool

definition bounded_writer_new :: bounded_writer where
  "bounded_writer_new = \<lparr>bw_bytes = [], bw_overflowed = False\<rparr>"

text \<open>One \<^verbatim>\<open>write\<close>: whether it succeeded, and the writer after it.\<close>

definition bounded_write :: "nat \<Rightarrow> u8 list \<Rightarrow> bounded_writer \<Rightarrow> bool \<times> bounded_writer" where
  "bounded_write maximum bytes w =
     (let remaining = maximum - length (bw_bytes w) in
      if remaining < length bytes
      then (False, \<lparr>bw_bytes = bw_bytes w @ take remaining bytes, bw_overflowed = True\<rparr>)
      else (True, w\<lparr>bw_bytes := bw_bytes w @ bytes\<rparr>))"

text \<open>\<^verbatim>\<open>to_writer\<close> writes piece after piece and stops at the first error.\<close>

fun write_chunks :: "nat \<Rightarrow> u8 list list \<Rightarrow> bounded_writer \<Rightarrow> bool \<times> bounded_writer" where
  "write_chunks maximum [] w = (True, w)"
| "write_chunks maximum (c # cs) w =
     (case bounded_write maximum c w of
        (False, w') \<Rightarrow> (False, w') | (True, w') \<Rightarrow> write_chunks maximum cs w')"

lemma write_chunks_from:
  "length bs \<le> maximum \<Longrightarrow>
   write_chunks maximum cs \<lparr>bw_bytes = bs, bw_overflowed = False\<rparr> =
     (if length bs + length (concat cs) \<le> maximum
      then (True, \<lparr>bw_bytes = bs @ concat cs, bw_overflowed = False\<rparr>)
      else (False, \<lparr>bw_bytes = take maximum (bs @ concat cs), bw_overflowed = True\<rparr>))"
proof (induction cs arbitrary: bs)
  case (Cons c cs)
  show ?case
  proof (cases "maximum - length bs < length c")
    case True
    then show ?thesis using Cons.prems by (simp add: bounded_write_def)
  next
    case False
    then show ?thesis using Cons.IH [of "bs @ c"] Cons.prems by (simp add: bounded_write_def)
  qed
qed simp

text \<open>
  The bounded writer keeps its bound whatever the pieces: it accepts exactly the outputs of
  at most the maximum length, whole, and otherwise stops with the overflow flag set and the
  first maximum bytes written.
\<close>

theorem bounded_writer_exact:
  "write_chunks maximum cs bounded_writer_new =
     (if length (concat cs) \<le> maximum
      then (True, \<lparr>bw_bytes = concat cs, bw_overflowed = False\<rparr>)
      else (False, \<lparr>bw_bytes = take maximum (concat cs), bw_overflowed = True\<rparr>))"
  using write_chunks_from [of "[]" maximum cs] by (simp add: bounded_writer_new_def)

lemma write_chunks_new:
  "write_chunks maximum cs bounded_writer_new =
     (if length (concat cs) \<le> maximum
      then (True, \<lparr>bw_bytes = concat cs, bw_overflowed = False\<rparr>)
      else (False, \<lparr>bw_bytes = take maximum (concat cs), bw_overflowed = True\<rparr>))"
  using write_chunks_from [of "[]" maximum cs] by (simp add: bounded_writer_new_def)

section \<open>Encoding and decoding\<close>

record wire =
  wire_chunks :: "json \<Rightarrow> u8 list list"
  wire_parse :: "u8 list \<Rightarrow> (nat \<times> nat) + json"

definition safe_json_error :: "(nat \<times> nat) + 'a \<Rightarrow> 'a frame_result" where
  "safe_json_error r = (case r of Inl (l, c) \<Rightarrow> Inl (InvalidJson l c) | Inr v \<Rightarrow> Inr v)"

text \<open>
  \<open>preflight\<close> is the result of \<^verbatim>\<open>validate_before_encode\<close> of the payload and \<open>v\<close> the value
  its serde encoding denotes. A \<^verbatim>\<open>Value\<close>'s serialisation fails only when the writer refuses.
\<close>

definition encode_frame :: "wire \<Rightarrow> unit frame_result \<Rightarrow> json \<Rightarrow> nat \<Rightarrow> u8 list frame_result" where
  "encode_frame W preflight v max_len =
     rbind preflight (\<lambda>_.
     let maximum = min max_len (2 ^ 32 - 1);
         (written, writer) = write_chunks maximum (wire_chunks W v) bounded_writer_new;
         payload = bw_bytes writer
     in if \<not> written then Inl (PayloadTooLarge (maximum + 1) maximum)
        else if payload = [] then Inl EmptyPayload
        else rbind (safe_json_error (wire_parse W payload)) (\<lambda>json.
             rbind (validate_json_limits json) (\<lambda>_.
             if maximum < length payload then Inl (PayloadTooLarge (length payload) maximum)
             else Inr (to_be_bytes (of_nat (length payload)) @ payload))))"

definition decode_frame :: "wire \<Rightarrow> (json \<Rightarrow> 'a option) \<Rightarrow> u8 list \<Rightarrow> nat \<Rightarrow> 'a frame_result" where
  "decode_frame W from_value frame maximum =
     (if length frame < length_prefix_bytes then Inl MissingLengthPrefix
      else
        let header = from_be_bytes (frame ! 0) (frame ! 1) (frame ! 2) (frame ! 3);
            payload = drop length_prefix_bytes frame
        in rbind (parse_frame_length header maximum) (\<lambda>declared.
           if declared \<noteq> length payload then Inl (LengthMismatch declared (length payload))
           else rbind (safe_json_error (wire_parse W payload)) (\<lambda>v.
                rbind (validate_json_limits v) (\<lambda>_.
                ok_or (from_value v) InvalidSchema))))"

text \<open>The preflight of each payload type.\<close>

definition value_preflight :: "json \<Rightarrow> unit frame_result" where
  "value_preflight v = validate_json_limits v"

definition request_preflight :: "json \<Rightarrow> string option \<Rightarrow> unit frame_result" where
  "request_preflight arguments token =
     rbind (validate_json_limits arguments) (\<lambda>_.
       case token of None \<Rightarrow> Inr () | Some t \<Rightarrow> validate_string t)"

definition response_preflight :: "json option \<Rightarrow> string option \<Rightarrow> unit frame_result" where
  "response_preflight result error_message =
     rbind (case result of None \<Rightarrow> Inr () | Some v \<Rightarrow> validate_json_limits v) (\<lambda>_.
       case error_message of None \<Rightarrow> Inr () | Some m \<Rightarrow> validate_string m)"

definition request_limit :: nat where
  "request_limit = max_request_bytes"

definition response_limit :: nat where
  "response_limit = max_response_bytes"

definition wire_laws :: "wire \<Rightarrow> bool" where
  "wire_laws W \<longleftrightarrow> (\<forall>v. json_plain v \<longrightarrow> wire_parse W (concat (wire_chunks W v)) = Inr v)"

lemma be_digits:
  fixes n :: int
  assumes "0 \<le> n" "n < 4294967296"
  shows "((n div 16777216 mod 256 * 256 + n div 65536 mod 256) * 256 + n div 256 mod 256) * 256
    + n mod 256 = n"
proof -
  define a b c where "a = n div 256" and "b = a div 256" and "c = b div 256"
  have "n div 65536 = n div (256 * 256)" by simp
  also have "\<dots> = b" unfolding a_def b_def by (rule zdiv_zmult2_eq) simp
  finally have b: "n div 65536 = b" .
  have "n div 16777216 = n div (65536 * 256)" by simp
  also have "\<dots> = n div 65536 div 256" by (rule zdiv_zmult2_eq) simp
  finally have c: "n div 16777216 = c" unfolding b c_def .
  have "0 \<le> c" "c < 256"
    using assms unfolding c [symmetric] by (simp_all add: pos_imp_zdiv_nonneg_iff div_less_iff_less_mult)
  then have "c mod 256 = c" by simp
  moreover have "c * 256 + b mod 256 = b" "b * 256 + a mod 256 = a" "a * 256 + n mod 256 = n"
    unfolding c_def b_def a_def by (rule div_mult_mod_eq)+
  ultimately show ?thesis by (simp only: b c a_def [symmetric])
qed

lemma from_to_be_bytes:
  "from_be_bytes (to_be_bytes w ! 0) (to_be_bytes w ! 1) (to_be_bytes w ! 2) (to_be_bytes w ! 3) = w"
proof -
  let ?n = "uint w"
  have bounds: "0 \<le> ?n" "?n < 4294967296" using uint_lt2p [of w] by simp_all
  have b: "uint (ucast (drop_bit k w) :: u8) = ?n div 2 ^ k mod 256" for k
  proof -
    have "uint (drop_bit k w) = ?n div 2 ^ k"
      using bounds
      by (simp add: unsigned_drop_bit_eq drop_bit_eq_div [where 'a = int] take_bit_int_eq_self)
    then show ?thesis by (simp add: unsigned_ucast_eq take_bit_eq_mod)
  qed
  have "from_be_bytes (to_be_bytes w ! 0) (to_be_bytes w ! 1) (to_be_bytes w ! 2) (to_be_bytes w ! 3)
      = word_of_int (((?n div 2 ^ 24 mod 256 * 256 + ?n div 2 ^ 16 mod 256) * 256
          + ?n div 2 ^ 8 mod 256) * 256 + ?n div 2 ^ 0 mod 256)"
    unfolding from_be_bytes_def b [symmetric] by (simp add: to_be_bytes_def)
  also have "\<dots> = word_of_int ?n"
  proof -
    have "(2 :: int) ^ 24 = 16777216" "(2 :: int) ^ 16 = 65536" "(2 :: int) ^ 8 = 256" "(2 :: int) ^ 0 = 1"
      by simp_all
    then show ?thesis by (simp only: div_by_1 be_digits [OF bounds])
  qed
  finally show ?thesis by simp
qed

section \<open>Properties\<close>

lemma within_limits_iff: "validate_json_limits v = Inr () \<longleftrightarrow> within_limits v"
  unfolding validate_json_limits_def validate_loop_Inr
  by (auto simp: within_limits_def stack_ok_def)

text \<open>
  C33. The explicit-stack check decides the declarative limits: it accepts a value exactly when
  its nesting is at most 32, it has at most 10000 values in total, every string and key has at
  most 256 KiB, and every array and object at most 10000 members.
\<close>

theorem json_limits_exact:
  "validate_json_limits v = Inr () \<longleftrightarrow>
     json_depth v \<le> 32 \<and> json_nodes v \<le> 10000 \<and> json_small v"
  using within_limits_iff [of v] by (simp add: within_limits_def max_json_depth_def max_json_values_def)

lemma encode_frame_Inr:
  assumes "encode_frame W preflight v max_len = Inr frame"
  obtains payload json where "preflight = Inr ()" "payload = concat (wire_chunks W v)"
    "frame = to_be_bytes (of_nat (length payload)) @ payload" "payload \<noteq> []"
    "length payload \<le> min max_len (2 ^ 32 - 1)" "wire_parse W payload = Inr json" "within_limits json"
proof (rule that [of "concat (wire_chunks W v)" "projr (wire_parse W (concat (wire_chunks W v)))"])
  have len: "length (concat (wire_chunks W v)) \<le> min max_len (2 ^ 32 - 1)"
    using assms unfolding encode_frame_def write_chunks_new
    by (auto simp: rbind_eq_Inr Let_def split: if_splits)
  have w: "write_chunks (min max_len (2 ^ 32 - 1)) (wire_chunks W v) bounded_writer_new
      = (True, \<lparr>bw_bytes = concat (wire_chunks W v), bw_overflowed = False\<rparr>)"
    unfolding write_chunks_new if_P [OF len] by (rule refl)
  note run = assms [unfolded encode_frame_def Let_def w, simplified]
  show "length (concat (wire_chunks W v)) \<le> min max_len (2 ^ 32 - 1)" by (rule len)
  show "preflight = Inr ()" using run by (auto simp: rbind_eq_Inr)
  show "concat (wire_chunks W v) \<noteq> []" using run by (auto simp: rbind_eq_Inr split: if_splits)
  show "frame = to_be_bytes (of_nat (length (concat (wire_chunks W v)))) @ concat (wire_chunks W v)"
    using run by (auto simp: rbind_eq_Inr split: if_splits)
  show "wire_parse W (concat (wire_chunks W v)) = Inr (projr (wire_parse W (concat (wire_chunks W v))))"
    "within_limits (projr (wire_parse W (concat (wire_chunks W v))))"
    using run
    by (auto simp: rbind_eq_Inr safe_json_error_def within_limits_iff split: if_splits sum.splits)
qed auto


definition ref_wire :: wire where
  "ref_wire = \<lparr>wire_chunks = (\<lambda>v. [map (\<lambda>c. of_nat (of_char c)) (enc v)]),
     wire_parse = (\<lambda>bs. case from_json_str ref_env (map (\<lambda>b. char_of (unat b)) bs) of
        None \<Rightarrow> Inl (1, 1) | Some v \<Rightarrow> Inr v)\<rparr>"

lemma ref_wire_laws: "wire_laws ref_wire"
proof -
  have byte: "unat (of_nat (of_char c) :: u8) = of_char c" for c
    by (simp add: unat_of_nat)
  have "map (\<lambda>b. char_of (unat b)) (map (\<lambda>c. of_nat (of_char c) :: u8) s) = s" for s
    by (simp add: comp_def byte)
  moreover have "from_json_str ref_env (enc v) = Some v" if "json_plain v" for v
    using env_ok_json [OF env_ok_ref_env that] by (simp add: ref_env_def)
  ultimately show ?thesis by (simp add: wire_laws_def ref_wire_def del: map_map)
qed

lemma ref_wire_true:
  "json_plain (JBool True)" "wire_chunks ref_wire (JBool True) = [[116]]"
  "wire_parse ref_wire [116] = Inr (JBool True)" "validate_json_limits (JBool True) = Inr ()"
proof -
  show plain: "json_plain (JBool True)" by (simp add: json_plain_def)
  show chunks: "wire_chunks ref_wire (JBool True) = [[116]]" by (simp add: ref_wire_def)
  show "wire_parse ref_wire [116] = Inr (JBool True)"
    using ref_wire_laws plain chunks unfolding wire_laws_def by fastforce
  show "validate_json_limits (JBool True) = Inr ()"
    by (simp add: within_limits_iff within_limits_def max_json_depth_def max_json_values_def)
qed


text \<open>
  Only well-formed frames are accepted: a decoded frame has a four-byte prefix that states
  exactly the length of the rest, which is positive and within the limit, and the JSON value
  decoded respects the structural limits.
\<close>

theorem decode_frame_accepts:
  assumes "decode_frame W from_value frame maximum = Inr x"
  shows "\<exists>v. length frame = 4 + unat (from_be_bytes (frame ! 0) (frame ! 1) (frame ! 2) (frame ! 3)) \<and>
    4 < length frame \<and> length frame \<le> 4 + maximum \<and>
    wire_parse W (drop 4 frame) = Inr v \<and> within_limits v \<and> from_value v = Some x"
proof -
  have "\<not> length frame < length_prefix_bytes"
    using assms unfolding decode_frame_def by (auto split: if_splits)
  then show ?thesis
    using assms unfolding decode_frame_def Let_def parse_frame_length_def length_prefix_bytes_def
    by (auto simp: rbind_eq_Inr safe_json_error_def within_limits_iff split: if_splits sum.splits)
qed

theorem decode_frame_accepts_witness:
  "\<exists>frame x. decode_frame ref_wire Some frame 200 = Inr x \<and> 4 < length frame \<and> length frame \<le> 204"
proof -
  have "decode_frame ref_wire Some [0, 0, 0, 1, 116] 200 = Inr (JBool True)"
    by (simp add: ref_wire_true decode_frame_def Let_def length_prefix_bytes_def from_be_bytes_def
        parse_frame_length_def safe_json_error_def)
  then show ?thesis
    using decode_frame_accepts [of ref_wire Some "[0, 0, 0, 1, 116]" 200 "JBool True"] by fastforce
qed

end
