(* ===== verification/Pinned_Connection.thy ===== *)
theory Pinned_Connection
  imports Database_Model Json
begin

text \<open>
  The data a request pins before it acts: the active scope and connection of
  \<^verbatim>\<open>src/src-tauri/src/store/mod.rs\<close> with the profile and safety settings of
  \<^verbatim>\<open>src/src-tauri/src/model.rs\<close>, and the Terminal authority of
  \<^verbatim>\<open>src/src-tauri/src/services/terminal_authority.rs\<close>. Workspace access carries the derived
  order of the source.
\<close>

datatype account_scope = Personal_scope | WorkspaceUser_scope string

fun storage_key :: "account_scope \<Rightarrow> string" where
  "storage_key Personal_scope = ''personal''"
| "storage_key (WorkspaceUser_scope user_id) = user_id"

datatype workspace_kind = Personal_workspace | Team_workspace

record active_resource_scope =
  sc_workspace_id :: uuid
  sc_workspace_kind :: workspace_kind
  sc_selected_account_id :: "string option"
  sc_account_scope :: account_scope
  sc_generation :: int

datatype catalog_cache_policy = Persistent | EphemeralOnly

datatype workspace_connection_access =
  View_access | Read_access | Write_access | Manage_access | Local_access

fun can_read :: "workspace_connection_access \<Rightarrow> bool" where
  "can_read a = (a \<in> {Read_access, Write_access, Manage_access, Local_access})"

fun can_write :: "workspace_connection_access \<Rightarrow> bool" where
  "can_write a = (a \<in> {Write_access, Manage_access, Local_access})"

fun can_manage :: "workspace_connection_access \<Rightarrow> bool" where
  "can_manage a = (a \<in> {Manage_access, Local_access})"

text \<open>The derived order: declaration order.\<close>

fun access_rank :: "workspace_connection_access \<Rightarrow> nat" where
  "access_rank View_access = 0"
| "access_rank Read_access = 1"
| "access_rank Write_access = 2"
| "access_rank Manage_access = 3"
| "access_rank Local_access = 4"

instantiation workspace_connection_access :: linorder
begin

definition less_eq_workspace_connection_access ::
  "workspace_connection_access \<Rightarrow> workspace_connection_access \<Rightarrow> bool" where
  "less_eq_workspace_connection_access a b \<longleftrightarrow> access_rank a \<le> access_rank b"

definition less_workspace_connection_access ::
  "workspace_connection_access \<Rightarrow> workspace_connection_access \<Rightarrow> bool" where
  "less_workspace_connection_access a b \<longleftrightarrow> access_rank a < access_rank b"

instance
proof
  fix a b c :: workspace_connection_access
  show "a < b \<longleftrightarrow> a \<le> b \<and> \<not> b \<le> a"
    by (auto simp: less_eq_workspace_connection_access_def less_workspace_connection_access_def)
  show "a \<le> a" by (simp add: less_eq_workspace_connection_access_def)
  show "a \<le> b \<Longrightarrow> b \<le> c \<Longrightarrow> a \<le> c" by (simp add: less_eq_workspace_connection_access_def)
  show "a \<le> b \<Longrightarrow> b \<le> a \<Longrightarrow> a = b"
    by (cases a; cases b) (simp_all add: less_eq_workspace_connection_access_def)
  show "a \<le> b \<or> b \<le> a" by (auto simp: less_eq_workspace_connection_access_def)
qed

end

text \<open>More access never grants less.\<close>

lemma access_mono:
  assumes "a \<le> b"
  shows "can_read a \<longrightarrow> can_read b" "can_write a \<longrightarrow> can_write b" "can_manage a \<longrightarrow> can_manage b"
  using assms by (cases a; cases b; simp add: less_eq_workspace_connection_access_def)+

fun workspace_access_str :: "workspace_connection_access \<Rightarrow> string" where
  "workspace_access_str View_access = ''view''"
| "workspace_access_str Read_access = ''read''"
| "workspace_access_str Write_access = ''write''"
| "workspace_access_str Manage_access = ''manage''"
| "workspace_access_str Local_access = ''local''"

datatype workspace_credential_mode = Local_credential | MemberLocal_credential | Managed_credential

fun credential_mode_str :: "workspace_credential_mode \<Rightarrow> string" where
  "credential_mode_str Local_credential = ''local''"
| "credential_mode_str MemberLocal_credential = ''memberLocal''"
| "credential_mode_str Managed_credential = ''managed''"

datatype provider = Auto_provider | Generic | Neon | PlanetScale | GcpCloudSql

record connection_profile =
  cp_id :: uuid
  cp_name :: string
  cp_engine :: engine
  cp_provider :: provider
  cp_driver_id :: "string option"
  cp_host :: string
  cp_port :: "16 word"
  cp_database :: string
  cp_username :: string
  cp_sslmode :: string
  cp_extra_params :: "(string \<times> string) list"
  cp_readonly_default :: bool
  cp_allow_writes :: bool
  cp_secret_ref :: "string option"
  cp_env :: "string option"
  cp_schema_group :: "string option"
  cp_workspace_access :: workspace_connection_access
  cp_credential_mode :: workspace_credential_mode

record pinned_connection =
  pin_scope :: active_resource_scope
  pin_connection_id :: uuid
  pin_connection_revision :: int
  pin_binding_revision :: int
  pin_binding_updated_at :: string
  pin_profile :: connection_profile
  pin_requires_remote_rbac :: bool
  pin_catalog_cache_policy :: catalog_cache_policy

definition pin_account_scope :: "pinned_connection \<Rightarrow> account_scope" where
  "pin_account_scope pin = sc_account_scope (pin_scope pin)"

definition pin_workspace_id :: "pinned_connection \<Rightarrow> uuid" where
  "pin_workspace_id pin = sc_workspace_id (pin_scope pin)"

record safety_settings =
  ss_require_approval :: bool
  ss_allow_writes :: bool
  ss_wrap_writes_in_tx :: bool
  ss_explain_preview :: bool
  ss_auto_run_reads :: bool
  ss_max_rows :: nat
  ss_exec_preview_row_limit :: int

definition default_safety :: safety_settings where
  "default_safety = \<lparr>ss_require_approval = True, ss_allow_writes = False, ss_wrap_writes_in_tx = True,
     ss_explain_preview = True, ss_auto_run_reads = True, ss_max_rows = 1000,
     ss_exec_preview_row_limit = 50000\<rparr>"

record terminal_authority =
  ta_terminal_session_id :: uuid
  ta_workspace_id :: uuid
  ta_account_scope :: string
  ta_connection_id :: uuid
  ta_connection_revision :: int
  ta_client_protocol_version :: "16 word"

definition ensure_pin :: "terminal_authority \<Rightarrow> pinned_connection \<Rightarrow> unit app_result" where
  "ensure_pin ta pin =
     (if pin_workspace_id pin = ta_workspace_id ta \<and>
         storage_key (pin_account_scope pin) = ta_account_scope ta \<and>
         pin_connection_id pin = ta_connection_id ta \<and>
         pin_connection_revision pin = ta_connection_revision ta
      then Inr () else Inl (Blocked ''Terminal connection authority is no longer current''))"

section \<open>A concrete pin\<close>

text \<open>The local user's connection 3 in workspace 2, used by the witnesses.\<close>

definition demo_profile :: connection_profile where
  "demo_profile = \<lparr>cp_id = 3, cp_name = ''db'', cp_engine = Postgres, cp_provider = Auto_provider,
     cp_driver_id = None, cp_host = ''h'', cp_port = 5432, cp_database = ''d'', cp_username = ''u'',
     cp_sslmode = ''require'', cp_extra_params = [], cp_readonly_default = True,
     cp_allow_writes = True, cp_secret_ref = None, cp_env = Some ''dev'', cp_schema_group = None,
     cp_workspace_access = Local_access, cp_credential_mode = Local_credential\<rparr>"

definition demo_pin :: pinned_connection where
  "demo_pin = \<lparr>pin_scope = \<lparr>sc_workspace_id = 2, sc_workspace_kind = Personal_workspace,
       sc_selected_account_id = None, sc_account_scope = Personal_scope, sc_generation = 1\<rparr>,
     pin_connection_id = 3, pin_connection_revision = 1, pin_binding_revision = 1,
     pin_binding_updated_at = ''t'', pin_profile = demo_profile, pin_requires_remote_rbac = False,
     pin_catalog_cache_policy = Persistent\<rparr>"

end
