(* ===== verification/Broker_Session.thy ===== *)
theory Broker_Session
  imports Pinned_Connection
begin

text \<open>
  The in-memory Terminal session capabilities of \<^verbatim>\<open>src/src-tauri/src/broker/session.rs\<close>. The
  registry maps session identifiers to their metadata and secret token; each operation is one
  atomic step on it (the map is a \<^verbatim>\<open>DashMap\<close>). Drawn from outside: the clock (\<open>now\<close>), the
  32 random bytes (\<open>None\<close> when the system source fails), and the hexadecimal decoder of the
  \<^verbatim>\<open>hex\<close> crate. An instant is an unbounded integer: a sum beyond the range of
  \<^verbatim>\<open>chrono\<close>, which panics, is outside the model.
\<close>

datatype broker_capability =
    ConnectionRead | ConnectionTest | CatalogRead | QueryPlan | QueryRun | SqlPropose
  | OperationRead | OperationCancel

definition all_capabilities :: "broker_capability list" where
  "all_capabilities = [ConnectionRead, ConnectionTest, CatalogRead, QueryPlan, QueryRun, SqlPropose,
     OperationRead, OperationCancel]"

fun capability_rank :: "broker_capability \<Rightarrow> nat" where
  "capability_rank ConnectionRead = 0"
| "capability_rank ConnectionTest = 1"
| "capability_rank CatalogRead = 2"
| "capability_rank QueryPlan = 3"
| "capability_rank QueryRun = 4"
| "capability_rank SqlPropose = 5"
| "capability_rank OperationRead = 6"
| "capability_rank OperationCancel = 7"

instantiation broker_capability :: linorder
begin

definition less_eq_broker_capability :: "broker_capability \<Rightarrow> broker_capability \<Rightarrow> bool" where
  "less_eq_broker_capability a b \<longleftrightarrow> capability_rank a \<le> capability_rank b"

definition less_broker_capability :: "broker_capability \<Rightarrow> broker_capability \<Rightarrow> bool" where
  "less_broker_capability a b \<longleftrightarrow> capability_rank a < capability_rank b"

instance
proof
  fix a b c :: broker_capability
  show "a < b \<longleftrightarrow> a \<le> b \<and> \<not> b \<le> a"
    by (auto simp: less_eq_broker_capability_def less_broker_capability_def)
  show "a \<le> a" by (simp add: less_eq_broker_capability_def)
  show "a \<le> b \<Longrightarrow> b \<le> c \<Longrightarrow> a \<le> c" by (simp add: less_eq_broker_capability_def)
  show "a \<le> b \<Longrightarrow> b \<le> a \<Longrightarrow> a = b"
    by (cases a; cases b) (simp_all add: less_eq_broker_capability_def)
  show "a \<le> b \<or> b \<le> a" by (auto simp: less_eq_broker_capability_def)
qed

end

lemma all_capabilities_complete: "set all_capabilities = UNIV" "sorted all_capabilities"
proof -
  have "c \<in> set all_capabilities" for c by (cases c) (simp_all add: all_capabilities_def)
  then show "set all_capabilities = UNIV" by blast
  show "sorted all_capabilities" by (simp add: all_capabilities_def less_eq_broker_capability_def)
qed

record authenticated_session =
  as_terminal_session_id :: uuid
  as_runtime_id :: uuid
  as_workspace_id :: uuid
  as_account_scope :: string
  as_connection_id :: uuid
  as_connection_revision :: int
  as_capabilities :: "broker_capability set"
  as_expires_at :: datetime

definition require_capability :: "authenticated_session \<Rightarrow> broker_capability \<Rightarrow> unit app_result" where
  "require_capability s c =
     (if c \<in> as_capabilities s then Inr ()
      else Inl (Blocked ''terminal session does not have the required broker capability''))"

record session_record =
  sr_metadata :: authenticated_session
  sr_token :: "u8 list"

record issued_session_capability =
  is_terminal_session_id :: uuid
  is_token :: string
  is_expires_at :: datetime

record session_registry =
  reg_runtime_id :: uuid
  reg_sessions :: "(uuid \<times> session_record) list"

text \<open>The sessions as an association list with distinct keys, newest first.\<close>

definition find_session :: "uuid \<Rightarrow> session_registry \<Rightarrow> session_record option" where
  "find_session sid reg = map_of (reg_sessions reg) sid"

definition remove_session :: "uuid \<Rightarrow> session_registry \<Rightarrow> session_registry" where
  "remove_session sid reg = reg\<lparr>reg_sessions := filter (\<lambda>kv. fst kv \<noteq> sid) (reg_sessions reg)\<rparr>"

definition insert_session :: "uuid \<Rightarrow> session_record \<Rightarrow> session_registry \<Rightarrow> session_registry" where
  "insert_session sid r reg =
     reg\<lparr>reg_sessions := (sid, r) # filter (\<lambda>kv. fst kv \<noteq> sid) (reg_sessions reg)\<rparr>"

definition new_registry :: "uuid \<Rightarrow> session_registry" where
  "new_registry runtime_id = \<lparr>reg_runtime_id = runtime_id, reg_sessions = []\<rparr>"

text \<open>The longest \<^verbatim>\<open>chrono::Duration\<close>: \<open>2 ^ 63 - 1\<close> milliseconds, in nanoseconds.\<close>

definition chrono_duration_max :: int where
  "chrono_duration_max = (2 ^ 63 - 1) * 1000000"

definition issue_session ::
  "uuid \<Rightarrow> pinned_connection \<Rightarrow> broker_capability set \<Rightarrow> int \<Rightarrow> u8 list option \<Rightarrow> datetime
     \<Rightarrow> session_registry \<Rightarrow> issued_session_capability app_result \<times> session_registry" where
  "issue_session sid pin capabilities ttl random now reg =
     (if ttl = 0 then (Inl (Config ''terminal session capability TTL must be positive''), reg)
      else case random of
        None \<Rightarrow> (Inl (Config ''operating system random source is unavailable''), reg)
      | Some token \<Rightarrow>
          if chrono_duration_max < ttl then (Inl (Config ''terminal session TTL is too large''), reg)
          else
            let expires_at = now + ttl;
                metadata = \<lparr>as_terminal_session_id = sid, as_runtime_id = reg_runtime_id reg,
                  as_workspace_id = pin_workspace_id pin,
                  as_account_scope = storage_key (pin_account_scope pin),
                  as_connection_id = pin_connection_id pin,
                  as_connection_revision = pin_connection_revision pin,
                  as_capabilities = capabilities, as_expires_at = expires_at\<rparr>
            in (Inr \<lparr>is_terminal_session_id = sid, is_token = lower_hex token,
                     is_expires_at = expires_at\<rparr>,
                insert_session sid \<lparr>sr_metadata = metadata, sr_token = token\<rparr> reg))"

definition authentication_denied :: app_error where
  "authentication_denied = Blocked ''terminal session authentication was denied''"

text \<open>\<open>decode\<close> is \<^verbatim>\<open>hex::decode_to_slice\<close> into 32 bytes, \<open>None\<close> its error.\<close>

definition authenticate ::
  "(string \<Rightarrow> u8 list option) \<Rightarrow> uuid \<Rightarrow> string \<Rightarrow> datetime \<Rightarrow> session_registry
     \<Rightarrow> authenticated_session app_result \<times> session_registry" where
  "authenticate decode sid supplied now reg =
     (case find_session sid reg of
        None \<Rightarrow> (Inl authentication_denied, reg)
      | Some r \<Rightarrow>
          if as_runtime_id (sr_metadata r) \<noteq> reg_runtime_id reg \<or> as_expires_at (sr_metadata r) \<le> now
          then (Inl authentication_denied, remove_session sid reg)
          else (case decode supplied of
                  None \<Rightarrow> (Inl authentication_denied, reg)
                | Some bytes \<Rightarrow>
                    if sr_token r \<noteq> bytes then (Inl authentication_denied, reg)
                    else (Inr (sr_metadata r), reg)))"

definition revoke_session :: "uuid \<Rightarrow> session_registry \<Rightarrow> bool \<times> session_registry" where
  "revoke_session sid reg = (find_session sid reg \<noteq> None, remove_session sid reg)"

definition revoke_connection :: "uuid \<Rightarrow> session_registry \<Rightarrow> nat \<times> session_registry" where
  "revoke_connection connection_id reg =
     (let ids = map fst (filter (\<lambda>kv. as_connection_id (sr_metadata (snd kv)) = connection_id)
                  (reg_sessions reg))
      in (length ids, fold remove_session ids reg))"

definition revoke_all :: "session_registry \<Rightarrow> session_registry" where
  "revoke_all reg = reg\<lparr>reg_sessions := []\<rparr>"

section \<open>The map\<close>

lemma map_of_other: "map_of (filter (\<lambda>kv. fst kv \<noteq> j) kvs) i = (if i = j then None else map_of kvs i)"
  by (induction kvs) auto

lemma find_insert_session [simp]:
  "find_session i (insert_session j r reg) = (if i = j then Some r else find_session i reg)"
  by (simp add: find_session_def insert_session_def map_of_other)

lemma find_remove_session [simp]:
  "find_session i (remove_session j reg) = (if i = j then None else find_session i reg)"
  by (simp add: find_session_def remove_session_def map_of_other)

lemma remove_session_runtime [simp]:
  "reg_runtime_id (remove_session i reg) = reg_runtime_id reg"
  "reg_runtime_id (insert_session i r reg) = reg_runtime_id reg"
  by (simp_all add: remove_session_def insert_session_def)

lemma find_remove_sessions:
  "find_session i (fold remove_session ids reg) = (if i \<in> set ids then None else find_session i reg)"
  by (induction ids arbitrary: reg) auto

text \<open>
  The invariant: one entry per identifier, each record filed under its own identifier, and
  issued by this runtime.
\<close>

definition registry_ok :: "session_registry \<Rightarrow> bool" where
  "registry_ok reg \<longleftrightarrow> distinct (map fst (reg_sessions reg)) \<and>
     (\<forall>(sid, r) \<in> set (reg_sessions reg). as_terminal_session_id (sr_metadata r) = sid \<and>
        as_runtime_id (sr_metadata r) = reg_runtime_id reg)"

lemma registry_ok_new: "registry_ok (new_registry rt)"
  by (simp add: registry_ok_def new_registry_def)

lemma distinct_keys_filter: "distinct (map fst kvs) \<Longrightarrow> distinct (map fst (filter P kvs))"
  by (induction kvs) (auto simp: image_iff)

lemma registry_ok_remove: "registry_ok reg \<Longrightarrow> registry_ok (remove_session sid reg)"
  by (auto simp: registry_ok_def remove_session_def distinct_keys_filter)

lemma registry_ok_insert:
  "registry_ok reg \<Longrightarrow> as_terminal_session_id (sr_metadata r) = sid \<Longrightarrow>
   as_runtime_id (sr_metadata r) = reg_runtime_id reg \<Longrightarrow> registry_ok (insert_session sid r reg)"
  by (auto simp: registry_ok_def insert_session_def distinct_keys_filter)

lemma registry_ok_removes: "registry_ok reg \<Longrightarrow> registry_ok (fold remove_session ids reg)"
  by (induction ids arbitrary: reg) (simp_all add: registry_ok_remove)

section \<open>Properties\<close>

text \<open>The operations of the registry with their arguments, and the state after one.\<close>

datatype session_call =
    Call_issue uuid pinned_connection "broker_capability set" int "u8 list option" datetime
  | Call_authenticate uuid string datetime
  | Call_revoke uuid
  | Call_revoke_connection uuid
  | Call_revoke_all

fun session_step :: "(string \<Rightarrow> u8 list option) \<Rightarrow> session_call \<Rightarrow> session_registry \<Rightarrow> session_registry" where
  "session_step decode (Call_issue sid pin caps ttl random now) reg =
     snd (issue_session sid pin caps ttl random now reg)"
| "session_step decode (Call_authenticate sid supplied now) reg =
     snd (authenticate decode sid supplied now reg)"
| "session_step decode (Call_revoke sid) reg = snd (revoke_session sid reg)"
| "session_step decode (Call_revoke_connection c) reg = snd (revoke_connection c reg)"
| "session_step decode Call_revoke_all reg = revoke_all reg"

lemma session_step_ok:
  assumes "registry_ok reg"
  shows "registry_ok (session_step decode call reg)"
proof (cases call)
  case (Call_issue sid pin caps ttl random now)
  then show ?thesis
    using assms by (auto simp: issue_session_def Let_def intro!: registry_ok_insert split: option.split)
next
  case (Call_authenticate sid supplied now)
  then show ?thesis
    using assms registry_ok_remove by (auto simp: authenticate_def split: option.split)
next
  case (Call_revoke sid)
  then show ?thesis using assms registry_ok_remove by (simp add: revoke_session_def)
next
  case (Call_revoke_connection c)
  then show ?thesis using assms registry_ok_removes by (simp add: revoke_connection_def Let_def)
next
  case Call_revoke_all
  then show ?thesis by (simp add: revoke_all_def registry_ok_def)
qed

definition run_sessions ::
  "(string \<Rightarrow> u8 list option) \<Rightarrow> uuid \<Rightarrow> session_call list \<Rightarrow> session_registry" where
  "run_sessions decode rt calls = fold (session_step decode) calls (new_registry rt)"

lemma run_sessions_ok: "registry_ok (run_sessions decode rt calls)"
proof -
  have "registry_ok (fold (session_step decode) calls reg)" if "registry_ok reg" for reg
    using that by (induction calls arbitrary: reg) (simp_all add: session_step_ok)
  then show ?thesis using registry_ok_new by (simp add: run_sessions_def)
qed

text \<open>
  C34. Authentication is sound: in any registry the operations reach, a session is authenticated
  exactly when it is registered under that identifier, was issued by this runtime, has not
  expired, and the supplied text decodes to exactly its 32-byte token; then its own metadata is
  returned and the registry is unchanged. Every refusal is the same error.
\<close>

theorem authentication_sound:
  fixes decode rt calls
  defines "reg \<equiv> run_sessions decode rt calls"
  shows "(fst (authenticate decode sid supplied now reg) = Inr s \<longleftrightarrow>
      (\<exists>r. find_session sid reg = Some r \<and> s = sr_metadata r \<and> now < as_expires_at s \<and>
         decode supplied = Some (sr_token r))) \<and>
    (fst (authenticate decode sid supplied now reg) = Inl e \<longrightarrow> e = authentication_denied) \<and>
    (fst (authenticate decode sid supplied now reg) = Inr s \<longrightarrow>
       snd (authenticate decode sid supplied now reg) = reg \<and> as_terminal_session_id s = sid \<and>
       as_runtime_id s = reg_runtime_id reg)"
proof -
  have ok: "registry_ok reg" unfolding reg_def by (rule run_sessions_ok)
  have own: "as_runtime_id (sr_metadata r) = reg_runtime_id reg \<and>
      as_terminal_session_id (sr_metadata r) = sid" if "find_session sid reg = Some r" for r
    using ok that unfolding registry_ok_def find_session_def by (auto dest!: map_of_SomeD)
  show ?thesis
  proof (cases "find_session sid reg")
    case None
    then show ?thesis by (auto simp: authenticate_def)
  next
    case (Some r)
    then show ?thesis using own [OF Some] by (auto simp: authenticate_def split: option.split)
  qed
qed

definition demo_token :: "u8 list" where
  "demo_token = replicate 32 7"

definition demo_issue :: session_call where
  "demo_issue = Call_issue 5 demo_pin {QueryRun} 60 (Some demo_token) 100"

theorem authentication_sound_witness:
  "\<exists>s. fst (authenticate (\<lambda>_. Some demo_token) 5 ''t'' 120
      (run_sessions (\<lambda>_. Some demo_token) 9 [demo_issue])) = Inr s \<and> as_capabilities s = {QueryRun}"
proof -
  obtain r where r: "find_session 5 (run_sessions (\<lambda>_. Some demo_token) 9 [demo_issue]) = Some r"
    "sr_token r = demo_token" "as_expires_at (sr_metadata r) = 160"
    "as_capabilities (sr_metadata r) = {QueryRun}"
    by (simp add: run_sessions_def demo_issue_def issue_session_def Let_def chrono_duration_max_def)
  then show ?thesis
    using authentication_sound [of "\<lambda>_. Some demo_token" 5 "''t''" 120 9 "[demo_issue]" "sr_metadata r"]
    by auto
qed

text \<open>
  An issued session lives exactly until its expiry: authenticating with the issued token
  text before the expiry returns the session with the pinned scope and the granted
  capabilities; from the expiry on it is refused and removed from the registry.
\<close>

theorem issued_session_life:
  assumes "\<And>bytes. length bytes = 32 \<Longrightarrow> decode (lower_hex bytes) = Some bytes"
    and "length token = 32" and "0 < ttl" and "ttl \<le> chrono_duration_max"
  shows "\<exists>cap reg'. issue_session sid pin caps ttl (Some token) now reg = (Inr cap, reg') \<and>
    is_expires_at cap = now + ttl \<and>
    (\<forall>t < now + ttl. \<exists>s. authenticate decode sid (is_token cap) t reg' = (Inr s, reg') \<and>
       as_capabilities s = caps \<and> as_connection_id s = pin_connection_id pin \<and>
       as_connection_revision s = pin_connection_revision pin \<and>
       as_workspace_id s = pin_workspace_id pin) \<and>
    (\<forall>t \<ge> now + ttl. authenticate decode sid (is_token cap) t reg'
       = (Inl authentication_denied, remove_session sid reg'))"
  using assms(1) [OF assms(2)] assms(3,4)
  by (simp add: issue_session_def Let_def authenticate_def)

fun hex_value :: "char \<Rightarrow> nat" where
  "hex_value c = (if c \<in> set ''0123456789'' then of_char c - 48 else of_char c - 87)"

fun demo_decode :: "string \<Rightarrow> u8 list" where
  "demo_decode (a # b # cs) = of_nat (16 * hex_value a + hex_value b) # demo_decode cs"
| "demo_decode _ = []"

lemma hex_value_digit: "n < 16 \<Longrightarrow> hex_value (hex_digit n) = n"
proof -
  have "\<forall>n < 16. hex_value (hex_digit n) = n" by code_simp
  then show "n < 16 \<Longrightarrow> hex_value (hex_digit n) = n" by blast
qed

lemma demo_decode_lower_hex: "demo_decode (lower_hex bytes) = bytes"
proof (induction bytes)
  case (Cons b bytes)
  have high: "unat (drop_bit 4 b) = unat b div 16"
    by (simp add: unat_drop_bit_eq drop_bit_nat_def)
  have low: "unat (and b 15) = unat b mod 16"
    using take_bit_eq_mask [of 4 "unat b"]
    by (simp add: unsigned_and_eq take_bit_eq_mod mask_eq_exp_minus_1)
  have digits: "byte_hex b = [hex_digit (unat b div 16), hex_digit (unat b mod 16)]"
    by (simp add: byte_hex_def high low)
  have "unat b < 256" using unsigned_less [of b] by simp
  then have "hex_value (hex_digit (unat b div 16)) = unat b div 16"
    "hex_value (hex_digit (unat b mod 16)) = unat b mod 16"
    by (simp_all add: hex_value_digit del: hex_value.simps)
  moreover have "16 * (unat b div 16) + unat b mod 16 = unat b" by simp
  ultimately have "demo_decode (byte_hex b @ lower_hex bytes) = of_nat (unat b) # demo_decode (lower_hex bytes)"
    by (simp only: digits append_Cons append_Nil demo_decode.simps)
  then have "demo_decode (byte_hex b @ lower_hex bytes) = b # demo_decode (lower_hex bytes)"
    by simp
  then show ?case using Cons by (simp add: lower_hex_def)
qed (simp add: lower_hex_def)

theorem issued_session_life_witness:
  "\<exists>cap reg'. issue_session 5 demo_pin {QueryRun} 60 (Some demo_token) 100 (new_registry 9) = (Inr cap, reg') \<and>
     is_expires_at cap = 160"
  using issued_session_life [of "\<lambda>s. Some (demo_decode s)" demo_token 60 5 demo_pin "{QueryRun}" 100
      "new_registry 9"]
  by (auto simp: demo_decode_lower_hex demo_token_def chrono_duration_max_def)

text \<open>
  Revoking a connection is complete and precise: it returns the number of its sessions,
  afterwards none of them authenticates, whatever token is supplied, and every session of
  another connection is untouched.
\<close>

theorem revoke_connection_exact:
  fixes decode rt calls and c :: uuid
  defines "reg \<equiv> run_sessions decode rt calls"
  defines "reg' \<equiv> snd (revoke_connection c reg)"
  shows "fst (revoke_connection c reg)
      = length (filter (\<lambda>kv. as_connection_id (sr_metadata (snd kv)) = c) (reg_sessions reg)) \<and>
    find_session sid reg' = (case find_session sid reg of None \<Rightarrow> None
      | Some r \<Rightarrow> if as_connection_id (sr_metadata r) = c then None else Some r)"
proof -
  have dist: "distinct (map fst (reg_sessions reg))"
    using run_sessions_ok by (simp add: reg_def registry_ok_def)
  let ?ids = "map fst (filter (\<lambda>kv. as_connection_id (sr_metadata (snd kv)) = c) (reg_sessions reg))"
  have "sid \<in> set ?ids \<longleftrightarrow> (\<exists>r. find_session sid reg = Some r \<and> as_connection_id (sr_metadata r) = c)"
    using dist unfolding find_session_def by (force simp: map_of_eq_Some_iff)
  then show ?thesis
    by (auto simp: reg'_def revoke_connection_def Let_def find_remove_sessions split: option.split)
qed

end
