(* ===== verification/Operation_Runtime.thy ===== *)
theory Operation_Runtime
  imports Ledger_Contracts
begin

text \<open>
  The runtime facade of \<^verbatim>\<open>src/src-tauri/src/operations/runtime.rs\<close> and the execution grant of
  \<^verbatim>\<open>execute.rs\<close>. A runtime is its identifier; the repository it owns is the ledger passed
  through. Every clock reading and fresh identifier a call draws is an argument, in the order
  the call draws them.
\<close>

section \<open>State\<close>

datatype plan_disposition = Plan_Ready | Plan_ApprovalRequired

fun disposition_str :: "plan_disposition \<Rightarrow> string" where
  "disposition_str Plan_Ready = ''ready''"
| "disposition_str Plan_ApprovalRequired = ''approval_required''"

record exact_approval_request =
  ea_operation_id :: uuid
  ea_expected_payload_hash :: string
  ea_approver :: operation_approver
  ea_current_policy_revision :: string
  ea_reason :: "string option"

record execution_grant =
  eg_operation_id :: uuid
  eg_payload_sha256 :: string
  eg_connection_id :: uuid

record claimed_operation =
  co_record :: operation_record
  co_grant :: execution_grant

record local_approval_authority =
  la_runtime_id :: uuid

record operation_runtime =
  rt_runtime_id :: uuid

definition new_runtime :: "uuid \<Rightarrow> operation_runtime \<times> local_approval_authority" where
  "new_runtime runtime_id = (\<lparr>rt_runtime_id = runtime_id\<rparr>, \<lparr>la_runtime_id = runtime_id\<rparr>)"

definition err_grant_unclaimed :: app_error where
  "err_grant_unclaimed = Config ''an execution grant requires an atomically claimed operation''"

definition issue_grant :: "operation_record \<Rightarrow> execution_grant app_result" where
  "issue_grant rec =
     (if o_state rec \<noteq> Executing then Inl err_grant_unclaimed
      else Inr \<lparr>eg_operation_id = o_id rec, eg_payload_sha256 = o_payload_hash rec,
                eg_connection_id = o_connection_id rec\<rparr>)"

section \<open>Operations\<close>

definition err_plan_needs_approval :: app_error where
  "err_plan_needs_approval = Blocked ''target-mutating operations always require an exact approval''"

definition err_foreign_authority :: app_error where
  "err_foreign_authority = Blocked ''approval authority belongs to a different application runtime''"

fun disposition_target :: "plan_disposition \<Rightarrow> operation_state" where
  "disposition_target Plan_Ready = Ready"
| "disposition_target Plan_ApprovalRequired = PendingApproval"

definition disposition_details :: "plan_disposition \<Rightarrow> json" where
  "disposition_details d = JObject [(''disposition'', JString (disposition_str d))]"

definition rt_plan ::
  "env \<Rightarrow> operation_runtime \<Rightarrow> new_operation \<Rightarrow> plan_disposition \<Rightarrow> datetime \<Rightarrow> uuid \<Rightarrow> datetime \<Rightarrow> uuid
     \<Rightarrow> ledger \<Rightarrow> operation_record app_result \<times> ledger" where
  "rt_plan E rt n disposition t1 ev1 t2 ev2 db =
     (if may_mutate_target (n_kind n) \<and> disposition \<noteq> Plan_ApprovalRequired
      then (Inl err_plan_needs_approval, db)
      else case insert_planned E (rt_runtime_id rt) n t1 ev1 db of
        (Inl e, db1) \<Rightarrow> (Inl e, db1)
      | (Inr planned, db1) \<Rightarrow>
          if o_state planned \<noteq> Planned then (Inr planned, db1)
          else transition E (o_id planned) (rt_runtime_id rt) (disposition_target disposition)
                 (disposition_details disposition) t2 ev2 db1)"

definition rt_get :: "env \<Rightarrow> uuid \<Rightarrow> ledger \<Rightarrow> operation_record app_result" where
  "rt_get E operation_id db = get_operation E operation_id db"

definition ensure_local_approval_authority ::
  "operation_runtime \<Rightarrow> local_approval_authority \<Rightarrow> unit app_result" where
  "ensure_local_approval_authority rt authority =
     (if la_runtime_id authority = rt_runtime_id rt then Inr () else Inl err_foreign_authority)"

definition decide_exact ::
  "env \<Rightarrow> operation_runtime \<Rightarrow> exact_approval_request \<Rightarrow> approval_decision \<Rightarrow> datetime \<Rightarrow> uuid \<Rightarrow> uuid
     \<Rightarrow> ledger \<Rightarrow> operation_record app_result \<times> ledger" where
  "decide_exact E rt q decision now aid ev db = decide_approval E
     \<lparr>c_operation_id = ea_operation_id q, c_runtime_id = rt_runtime_id rt,
      c_expected_payload_hash = ea_expected_payload_hash q, c_approver = ea_approver q,
      c_decision = decision, c_reason = ea_reason q,
      c_current_policy_revision = ea_current_policy_revision q, c_now = now\<rparr> aid ev db"

definition decide_with_authority ::
  "env \<Rightarrow> operation_runtime \<Rightarrow> local_approval_authority \<Rightarrow> approval_decision \<Rightarrow> exact_approval_request
     \<Rightarrow> datetime \<Rightarrow> uuid \<Rightarrow> uuid \<Rightarrow> ledger \<Rightarrow> operation_record app_result \<times> ledger" where
  "decide_with_authority E rt authority decision q now aid ev db =
     (case ensure_local_approval_authority rt authority of
        Inl e \<Rightarrow> (Inl e, db)
      | Inr _ \<Rightarrow> decide_exact E rt q decision now aid ev db)"

definition approve_exact ::
  "env \<Rightarrow> operation_runtime \<Rightarrow> local_approval_authority \<Rightarrow> exact_approval_request
     \<Rightarrow> datetime \<Rightarrow> uuid \<Rightarrow> uuid \<Rightarrow> ledger \<Rightarrow> operation_record app_result \<times> ledger" where
  "approve_exact E rt authority q now aid ev db =
     decide_with_authority E rt authority Decision_Approved q now aid ev db"

definition reject_exact ::
  "env \<Rightarrow> operation_runtime \<Rightarrow> local_approval_authority \<Rightarrow> exact_approval_request
     \<Rightarrow> datetime \<Rightarrow> uuid \<Rightarrow> uuid \<Rightarrow> ledger \<Rightarrow> operation_record app_result \<times> ledger" where
  "reject_exact E rt authority q now aid ev db =
     decide_with_authority E rt authority Decision_Rejected q now aid ev db"

definition rt_claim ::
  "env \<Rightarrow> operation_runtime \<Rightarrow> uuid \<Rightarrow> datetime \<Rightarrow> uuid \<Rightarrow> ledger \<Rightarrow> claimed_operation app_result \<times> ledger" where
  "rt_claim E rt operation_id now ev db =
     (case claim_execution E operation_id (rt_runtime_id rt) now ev db of
        (Inl e, db') \<Rightarrow> (Inl e, db')
      | (Inr rec, db') \<Rightarrow>
          (rbind (issue_grant rec) (\<lambda>grant. Inr \<lparr>co_record = rec, co_grant = grant\<rparr>), db'))"

definition rt_progress ::
  "env \<Rightarrow> operation_runtime \<Rightarrow> uuid \<Rightarrow> json \<Rightarrow> datetime \<Rightarrow> uuid \<Rightarrow> ledger \<Rightarrow> unit app_result \<times> ledger" where
  "rt_progress E rt operation_id details now ev db =
     (let (r, db') = append_progress E operation_id (rt_runtime_id rt) details now ev db
      in (rbind r (\<lambda>_. Inr ()), db'))"

definition rt_finish ::
  "env \<Rightarrow> operation_runtime \<Rightarrow> uuid \<Rightarrow> operation_state \<Rightarrow> json \<Rightarrow> datetime \<Rightarrow> uuid \<Rightarrow> ledger
     \<Rightarrow> operation_record app_result \<times> ledger" where
  "rt_finish E rt operation_id target details now ev db =
     transition E operation_id (rt_runtime_id rt) target details now ev db"

definition rt_succeed where
  "rt_succeed E rt operation_id details now ev db = rt_finish E rt operation_id Succeeded details now ev db"

definition rt_fail where
  "rt_fail E rt operation_id details now ev db = rt_finish E rt operation_id Failed details now ev db"

definition confirm_cancelled where
  "confirm_cancelled E rt operation_id details now ev db =
     rt_finish E rt operation_id Cancelled details now ev db"

definition cancel_before_execution where
  "cancel_before_execution E rt operation_id details now ev db =
     rt_finish E rt operation_id Cancelled details now ev db"

definition mark_outcome_unknown where
  "mark_outcome_unknown E rt operation_id details now ev db =
     rt_finish E rt operation_id OutcomeUnknown details now ev db"

definition rt_recover ::
  "env \<Rightarrow> operation_runtime \<Rightarrow> (nat \<Rightarrow> datetime) \<Rightarrow> (nat \<Rightarrow> uuid) \<Rightarrow> ledger
     \<Rightarrow> recovery_report app_result \<times> ledger" where
  "rt_recover E rt clock ids db = recover_previous_runtimes E (rt_runtime_id rt) clock ids db"

section \<open>The calls of the program\<close>

text \<open>What the rest of the program can do to the ledger: the runtime is its only writer.\<close>

datatype runtime_call =
    Rt_Plan new_operation plan_disposition datetime uuid datetime uuid
  | Rt_Approve local_approval_authority exact_approval_request datetime uuid uuid
  | Rt_Reject local_approval_authority exact_approval_request datetime uuid uuid
  | Rt_Claim uuid datetime uuid
  | Rt_Progress uuid json datetime uuid
  | Rt_Succeed uuid json datetime uuid
  | Rt_Fail uuid json datetime uuid
  | Rt_Cancel uuid json datetime uuid
  | Rt_Unknown uuid json datetime uuid
  | Rt_Recover "nat \<Rightarrow> datetime" "nat \<Rightarrow> uuid"

fun exec_runtime :: "env \<Rightarrow> operation_runtime \<Rightarrow> runtime_call \<Rightarrow> ledger \<Rightarrow> ledger" where
  "exec_runtime E rt (Rt_Plan n d t1 ev1 t2 ev2) db = snd (rt_plan E rt n d t1 ev1 t2 ev2 db)"
| "exec_runtime E rt (Rt_Approve a q now aid ev) db = snd (approve_exact E rt a q now aid ev db)"
| "exec_runtime E rt (Rt_Reject a q now aid ev) db = snd (reject_exact E rt a q now aid ev db)"
| "exec_runtime E rt (Rt_Claim op now ev) db = snd (rt_claim E rt op now ev db)"
| "exec_runtime E rt (Rt_Progress op d now ev) db = snd (rt_progress E rt op d now ev db)"
| "exec_runtime E rt (Rt_Succeed op d now ev) db = snd (rt_succeed E rt op d now ev db)"
| "exec_runtime E rt (Rt_Fail op d now ev) db = snd (rt_fail E rt op d now ev db)"
| "exec_runtime E rt (Rt_Cancel op d now ev) db = snd (confirm_cancelled E rt op d now ev db)"
| "exec_runtime E rt (Rt_Unknown op d now ev) db = snd (mark_outcome_unknown E rt op d now ev db)"
| "exec_runtime E rt (Rt_Recover clock ids) db = snd (rt_recover E rt clock ids db)"

fun runtime_call_ok :: "runtime_call \<Rightarrow> bool" where
  "runtime_call_ok (Rt_Plan n d t1 ev1 t2 ev2) =
     (rfc3339_range t1 \<and> rfc3339_range t2 \<and> expiry_in_range (n_expires_at n))"
| "runtime_call_ok (Rt_Approve a q now aid ev) = rfc3339_range now"
| "runtime_call_ok (Rt_Reject a q now aid ev) = rfc3339_range now"
| "runtime_call_ok (Rt_Claim op now ev) = rfc3339_range now"
| "runtime_call_ok (Rt_Progress op d now ev) = (json_plain d \<and> rfc3339_range now)"
| "runtime_call_ok (Rt_Succeed op d now ev) = (json_plain d \<and> rfc3339_range now)"
| "runtime_call_ok (Rt_Fail op d now ev) = (json_plain d \<and> rfc3339_range now)"
| "runtime_call_ok (Rt_Cancel op d now ev) = (json_plain d \<and> rfc3339_range now)"
| "runtime_call_ok (Rt_Unknown op d now ev) = (json_plain d \<and> rfc3339_range now)"
| "runtime_call_ok (Rt_Recover clock ids) = (\<forall>i. rfc3339_range (clock i))"

text \<open>The ledgers of a process history: runtimes come and go, each makes its calls.\<close>

inductive rt_reachable :: "env \<Rightarrow> ledger \<Rightarrow> bool" for E where
  init: "rt_reachable E empty_ledger"
| call: "rt_reachable E db \<Longrightarrow> runtime_call_ok c \<Longrightarrow> rt_reachable E (exec_runtime E rt c db)"

section \<open>The runtime keeps the ledger reachable\<close>

lemma disposition_details_plain [simp]: "json_plain (disposition_details d)"
  by (simp add: json_plain_def disposition_details_def)

lemma rt_plan_reachable:
  assumes "reachable E db" "rfc3339_range t1" "rfc3339_range t2" "expiry_in_range (n_expires_at n)"
  shows "reachable E (snd (rt_plan E rt n d t1 ev1 t2 ev2 db))"
proof -
  have one: "reachable E (snd (insert_planned E (rt_runtime_id rt) n t1 ev1 db))"
    using reachable.call [OF assms(1), of "Call_insert_planned (rt_runtime_id rt) n t1 ev1"] assms by simp
  have two: "reachable E (snd (transition E op (rt_runtime_id rt) target (disposition_details d) t2 ev2
      (snd (insert_planned E (rt_runtime_id rt) n t1 ev1 db))))" for op target
    using reachable.call [OF one,
        of "Call_transition op (rt_runtime_id rt) target (disposition_details d) t2 ev2"] assms
    by simp
  show ?thesis
    using assms(1) one two by (auto simp: rt_plan_def split: prod.split sum.split)
qed

lemma decide_with_authority_reachable:
  assumes "reachable E db" "rfc3339_range now"
  shows "reachable E (snd (decide_with_authority E rt a decision q now aid ev db))"
proof -
  have "reachable E (snd (decide_approval E c aid ev db))" if "rfc3339_range (c_now c)" for c
    using reachable.call [OF assms(1), of "Call_decide_approval c aid ev"] that by simp
  then show ?thesis
    using assms by (auto simp: decide_with_authority_def decide_exact_def split: sum.split)
qed

lemma rt_claim_ledger [simp]:
  "snd (rt_claim E rt op now ev db) = snd (claim_execution E op (rt_runtime_id rt) now ev db)"
  by (simp add: rt_claim_def split: prod.split sum.split)

lemma rt_progress_ledger [simp]:
  "snd (rt_progress E rt op d now ev db) = snd (append_progress E op (rt_runtime_id rt) d now ev db)"
  by (simp add: rt_progress_def split: prod.split)

lemmas rt_finish_defs =
  rt_succeed_def rt_fail_def confirm_cancelled_def cancel_before_execution_def
  mark_outcome_unknown_def rt_finish_def

lemma exec_runtime_reachable:
  assumes "reachable E db" "runtime_call_ok c"
  shows "reachable E (exec_runtime E rt c db)"
proof (cases c)
  case (Rt_Claim op now ev)
  then show ?thesis
    using reachable.call [OF assms(1), of "Call_claim_execution op (rt_runtime_id rt) now ev"] assms(2)
    by simp
next
  case (Rt_Progress op d now ev)
  then show ?thesis
    using reachable.call [OF assms(1), of "Call_append_progress op (rt_runtime_id rt) d now ev"] assms(2)
    by simp
next
  case (Rt_Recover clock ids)
  then show ?thesis
    using reachable.call [OF assms(1), of "Call_recover (rt_runtime_id rt) clock ids"] assms(2)
    by (simp add: rt_recover_def)
next
  case (Rt_Succeed op d now ev)
  then show ?thesis
    using reachable.call [OF assms(1), of "Call_transition op (rt_runtime_id rt) Succeeded d now ev"] assms(2)
    by (simp add: rt_finish_defs)
next
  case (Rt_Fail op d now ev)
  then show ?thesis
    using reachable.call [OF assms(1), of "Call_transition op (rt_runtime_id rt) Failed d now ev"] assms(2)
    by (simp add: rt_finish_defs)
next
  case (Rt_Cancel op d now ev)
  then show ?thesis
    using reachable.call [OF assms(1), of "Call_transition op (rt_runtime_id rt) Cancelled d now ev"] assms(2)
    by (simp add: rt_finish_defs)
next
  case (Rt_Unknown op d now ev)
  then show ?thesis
    using reachable.call [OF assms(1), of "Call_transition op (rt_runtime_id rt) OutcomeUnknown d now ev"] assms(2)
    by (simp add: rt_finish_defs)
qed (use assms in \<open>simp_all add: rt_plan_reachable decide_with_authority_reachable approve_exact_def
      reject_exact_def\<close>)

lemma rt_reachable_reachable: "rt_reachable E db \<Longrightarrow> reachable E db"
  by (induction rule: rt_reachable.induct) (auto intro: reachable.init exec_runtime_reachable)

section \<open>Mutations wait for an approval\<close>

text \<open>
  No row of a mutating kind is ever ready. The rows in state ready are followed through the
  text columns: only \<open>rt_plan\<close> moves a row there.
\<close>

definition ready_rows :: "ledger \<Rightarrow> operation_row set" where
  "ready_rows db = {r \<in> set (db_operations db). r_state r = ''ready''}"

definition ready_ok :: "ledger \<Rightarrow> bool" where
  "ready_ok db \<longleftrightarrow>
     (\<forall>r \<in> ready_rows db. \<exists>k. r_operation_kind r = operation_kind_str k \<and> \<not> may_mutate_target k)"

lemma ready_okI: "ready_ok db \<Longrightarrow> ready_rows db' \<subseteq> ready_rows db \<Longrightarrow> ready_ok db'"
  unfolding ready_ok_def by blast

lemma state_str_ready [simp]: "state_str t = ''ready'' \<longleftrightarrow> t = Ready"
  by (cases t) simp_all

lemma append_event_ready:
  "append_event_tx E op k s details t ev db = Inr (e, db') \<Longrightarrow> ready_rows db' = ready_rows db"
  by (drule append_event_tx_Inr(1)) (simp add: ready_rows_def)

lemma update_operations_ready:
  assumes "update_operations E P (set_lifecycle t s) db = Inr (n, db')" "r \<in> ready_rows db'"
  shows "r \<in> ready_rows db \<or> t = Ready \<and>
    (\<exists>r0 \<in> set (db_operations db). P r0 \<and> r_operation_kind r = r_operation_kind r0)"
proof -
  have "r \<in> set (map (\<lambda>r. if P r then set_lifecycle t s r else r) (db_operations db))" "r_state r = ''ready''"
    using assms by (auto simp: update_operations_def ready_rows_def split: if_splits)
  then obtain r0 where r0: "r0 \<in> set (db_operations db)" "r = (if P r0 then set_lifecycle t s r0 else r0)"
    by auto
  then show ?thesis
    using \<open>r_state r = ''ready''\<close> by (cases "P r0") (auto simp: ready_rows_def set_lifecycle_def)
qed

lemma transition_tx_ready:
  assumes "transition_tx E cur target details now ev db = Inr (upd, db')" "r \<in> ready_rows db'"
  shows "r \<in> ready_rows db \<or> target = Ready \<and>
    (\<exists>r0 \<in> set (db_operations db). r_id r0 = uuid_to_string E (o_id cur) \<and>
       r_operation_kind r = r_operation_kind r0)"
proof -
  let ?P = "\<lambda>r. r_id r = uuid_to_string E (o_id cur) \<and> r_state r = state_str (o_state cur) \<and>
    r_payload_hash r = o_payload_hash cur \<and>
    (state_str target \<noteq> ''executing'' \<or>
      (case r_expires_at r of None \<Rightarrow> True | Some e \<Rightarrow> to_rfc3339_nanos E now < e))"
  from assms(1) obtain n db1 e where
    upd: "update_operations E ?P (set_lifecycle target (to_rfc3339_nanos E now)) db = Inr (n, db1)"
    and app: "append_event_tx E (o_id cur) (transition_event_kind target) target details now ev db1
        = Inr (e, db')"
    unfolding transition_tx_def by (auto simp: rbind_eq_Inr Let_def)
  then show ?thesis
    using update_operations_ready [OF upd, of r] append_event_ready [OF app] assms(2) by blast
qed

lemma run_tx_ready:
  assumes "\<And>r db'. body = Inr (r, db') \<Longrightarrow> ready_rows db' \<subseteq> ready_rows db"
  shows "ready_rows (snd (run_tx body db)) \<subseteq> ready_rows db"
  using run_tx_ledger [OF refl, of body db] assms by auto

lemma transition_ready:
  assumes "target \<noteq> Ready"
  shows "ready_rows (snd (transition E op rt target d now ev db)) \<subseteq> ready_rows db"
proof (cases "target = Executing")
  case False
  then show ?thesis
    unfolding transition_def if_not_P [OF False] using assms
    by (intro run_tx_ready) (auto simp: rbind_eq_Inr dest: transition_tx_ready)
qed (simp add: transition_def)

lemma claim_execution_ready: "ready_rows (snd (claim_execution E op rt now ev db)) \<subseteq> ready_rows db"
  unfolding claim_execution_def
  by (rule run_tx_ready) (auto simp: rbind_eq_Inr dest: transition_tx_ready split: if_splits)

lemma decide_approval_ready: "ready_rows (snd (decide_approval E c aid ev db)) \<subseteq> ready_rows db"
proof -
  have ins: "ready_rows db1 = ready_rows db" if "insert_approval_row row db = Inr db1" for row db1
    using that by (auto simp: insert_approval_row_Inr ready_rows_def)
  have "decision_state d \<noteq> Ready" for d by (cases d) simp_all
  then have move: "ready_rows db' \<subseteq> ready_rows db1"
    if "transition_tx E cur (decision_state d) det t ev db1 = Inr (upd, db')" for cur d det t db1 upd db'
    using transition_tx_ready [OF that] by blast
  have expire: "ready_rows db' \<subseteq> ready_rows db1"
    if "transition_tx E cur Expired det t ev db1 = Inr (upd, db')" for cur det t db1 upd db'
    using transition_tx_ready [OF that] by blast
  show ?thesis
    unfolding decide_approval_def
    by (simp, intro impI run_tx_ready) (auto simp: rbind_eq_Inr split: if_split_asm dest!: ins move expire)
qed

lemma append_progress_ready: "ready_rows (snd (append_progress E op rt d now ev db)) \<subseteq> ready_rows db"
  unfolding append_progress_def
  by (rule run_tx_ready) (auto simp: rbind_eq_Inr append_event_ready)

lemma recover_rows_ready:
  "recover_rows E clock ids i rows (rep, db) = Inr (rep', db') \<Longrightarrow> ready_rows db' \<subseteq> ready_rows db"
proof (induction rows arbitrary: i rep db)
  case (Cons row rows)
  then obtain rep1 db1 where step: "recover_row E row (clock i) (ids i) (rep, db) = Inr (rep1, db1)"
    and rest: "recover_rows E clock ids (Suc i) rows (rep1, db1) = Inr (rep', db')"
    by (auto simp: rbind_eq_Inr)
  have "ready_rows db1 \<subseteq> ready_rows db"
  proof -
    obtain rec where same: "recovery_target (restart_recovery (o_kind rec) (o_state rec)) = None \<Longrightarrow> db1 = db"
      and move: "\<And>t. recovery_target (restart_recovery (o_kind rec) (o_state rec)) = Some t \<Longrightarrow>
        \<exists>reason u. transition_tx E rec t (reason_details reason) (clock i) (ids i) db = Inr (u, db1)"
      using step by (rule recover_row_Inr) (rule that, assumption+)
    have "recovery_target a \<noteq> Some Ready" for a by (cases a) simp_all
    then show ?thesis
      using same move transition_tx_ready
      by (cases "recovery_target (restart_recovery (o_kind rec) (o_state rec))") blast+
  qed
  then show ?case using Cons.IH [OF rest] by blast
qed simp

lemma recover_ready: "ready_rows (snd (recover_previous_runtimes E rt clock ids db)) \<subseteq> ready_rows db"
  unfolding recover_previous_runtimes_def
  by (rule run_tx_ready) (auto simp: rbind_eq_Inr dest: recover_rows_ready)

lemma insert_planned_ready: "ready_rows (snd (insert_planned E rt n now ev db)) \<subseteq> ready_rows db"
proof -
  have ins: "ready_rows db1 = ready_rows db"
    if "insert_operation_row E (operation_row_of E p now) db = Inr db1" for p db1
    using that by (auto simp: insert_operation_row_Inr ready_rows_def operation_row_of_def Let_def)
  show ?thesis
  proof (cases "prepare_operation E rt n")
    case (Inr p)
    show ?thesis
      unfolding insert_planned_def Inr sum.case
      by (rule run_tx_ready)
        (auto simp: rbind_eq_Inr split: option.split_asm if_split_asm dest!: ins append_event_ready)
  qed (simp add: insert_planned_def)
qed

text \<open>What \<open>insert_planned\<close> returns is stored, with the kind that was asked for.\<close>

lemma planned_new_row:
  assumes "insert_planned E rt n now ev db = (Inr planned, db1)" "rows_ok E db1"
    and "prepare_operation E rt n = Inr p" "find (same_key E n) (db_operations db) = None"
  shows "operation_row_of E p now \<in> set (db_operations db1)"
    and "row_to_operation E (operation_row_of E p now) = Inr planned"
    and "r_id (operation_row_of E p now) = uuid_to_string E (n_id n)"
proof -
  note n = prepare_operation_Inr [OF assms(3)]
  have body: "insert_planned E rt n now ev db = run_tx
      (rbind (insert_operation_row E (operation_row_of E p now) db) (\<lambda>db1.
       rbind (append_event_tx E (n_id n) Ev_Planned Planned (planned_details p) now ev db1) (\<lambda>(_, db2).
       rbind (fetch_operation_tx E (n_id n) db2) (\<lambda>record. Inr (Inr record, db2))))) db"
    using assms(3,4) by (simp add: insert_planned_def same_key_def [abs_def])
  obtain db0 e where ins: "insert_operation_row E (operation_row_of E p now) db = Inr db0"
    and app: "append_event_tx E (n_id n) Ev_Planned Planned (planned_details p) now ev db0 = Inr (e, db1)"
    and fetch: "fetch_operation_tx E (n_id n) db1 = Inr planned"
    using assms(1) unfolding body by (auto simp: run_tx_def rbind_eq_Inr split: sum.splits)
  obtain row where row: "row \<in> set (db_operations db1)" "row_to_operation E row = Inr planned"
      "r_id row = uuid_to_string E (n_id n)"
    using fetch_row [OF assms(2) fetch] by metis
  have this_row: "operation_row_of E p now \<in> set (db_operations db1)"
    "r_id (operation_row_of E p now) = uuid_to_string E (n_id n)"
    using ins append_event_tx_Inr(1) [OF app]
    by (auto simp: insert_operation_row_Inr operation_row_of_def Let_def n)
  then have "operation_row_of E p now = row" using row_unique [OF assms(2) row(1)] row(3) by simp
  then show "operation_row_of E p now \<in> set (db_operations db1)"
    and "row_to_operation E (operation_row_of E p now) = Inr planned"
    and "r_id (operation_row_of E p now) = uuid_to_string E (n_id n)"
    using row this_row by auto
qed

lemma planned_is_stored:
  assumes "insert_planned E rt n now ev db = (Inr planned, db1)" "rows_ok E db1"
  shows "\<exists>r \<in> set (db_operations db1). r_id r = uuid_to_string E (o_id planned) \<and>
    r_operation_kind r = operation_kind_str (n_kind n)"
proof -
  obtain p where p: "prepare_operation E rt n = Inr p"
    using assms(1) by (auto simp: insert_planned_def split: sum.splits)
  note n = prepare_operation_Inr [OF p]
  obtain row where row: "row \<in> set (db_operations db1)" "row_to_operation E row = Inr planned"
    and kind: "r_operation_kind row = operation_kind_str (n_kind n)"
  proof (cases "find (same_key E n) (db_operations db)")
    case (Some row)
    then have "db1 = db" "row_to_operation E row = Inr planned" "prepared_matches p planned"
      using assms(1) p by (auto simp: insert_planned_def run_tx_def rbind_eq_Inr same_key_def [abs_def]
          split: if_splits sum.splits)
    then show thesis
      using that [of row] find_Some_set [OF Some] row_to_operation_kind [of E row planned]
      by (simp add: prepared_matches_def Let_def n)
  next
    case None
    show thesis
      using that [OF planned_new_row(1,2) [OF assms p None]]
      by (auto simp: operation_row_of_def Let_def n)
  qed
  then show ?thesis using rows_ok_id [OF assms(2)] by blast
qed

lemma transitioned_row:
  assumes "env_ok E" "reachable E db" "json_plain details" "rfc3339_range now"
    and "transition E op rt target details now ev db = (Inr rec, db')"
  obtains cur where "get_operation E op db = Inr cur" "rec = moved_record target now cur"
    "get_operation E op db' = Inr rec"
proof -
  have rows: "rows_ok E db" by (rule reachable_rows [OF assms(2,1)])
  have rows': "rows_ok E db'"
    using reachable_rows [OF reachable.call [OF assms(2), of "Call_transition op rt target details now ev"] assms(1)]
      assms(3-5) by simp
  obtain cur where cur: "fetch_operation_tx E op db = Inr cur"
    and tx: "transition_tx E cur target details now ev db = Inr (rec, db')"
    using assms(5) unfolding transition_def run_tx_def
    by (auto simp: rbind_eq_Inr split: sum.splits prod.splits if_splits)
  obtain row where row: "row \<in> set (db_operations db)" "row_to_operation E row = Inr cur"
    "r_id row = uuid_to_string E (o_id cur)" "r_id row = uuid_to_string E op"
    by (rule fetch_row [OF rows cur])
  have dist: "distinct (map r_id (db_operations db))" using rows by (simp add: rows_ok_def)
  note spec = transition_tx_Inr [OF tx dist row(1-3)]
  let ?row1 = "set_lifecycle target (to_rfc3339_nanos E now) row"
  have "row_to_operation E ?row1 = Inr (moved_record target now cur)"
    by (rule row_to_operation_set_lifecycle [OF row(2)]) (simp add: assms(1,4))
  then have rec: "rec = moved_record target now cur" using spec(2) by simp
  have "?row1 \<in> set (db_operations db')" using spec(4) row(1) by auto
  then have "get_operation E op db' = Inr rec"
    using get_operation_of_row [OF rows' _ spec(2)] row(4) by simp
  with rec get_operation_of_row [OF rows row(1,2,4)] show thesis by (intro that)
qed

text \<open>A fresh operation that is planned has the asked record in the disposition's state.\<close>

lemma rt_plan_fresh:
  assumes env: "env_ok E" and db: "reachable E db" and plain: "plain_operation n"
    and now: "rfc3339_range t1" "rfc3339_range t2"
    and fresh: "\<not> list_ex (same_key E n) (db_operations db)"
    and run: "rt_plan E rt n d t1 ev1 t2 ev2 db = (Inr rec, db')"
  shows "rec = moved_record (disposition_target d) t2 (planned_record E (rt_runtime_id rt) n t1)"
    and "get_operation E (n_id n) db' = Inr rec" and "reachable E db'"
proof -
  obtain planned db1 where ins: "insert_planned E (rt_runtime_id rt) n t1 ev1 db = (Inr planned, db1)"
    using run by (auto simp: rt_plan_def split: if_splits sum.splits prod.splits)
  obtain p where p: "prepare_operation E (rt_runtime_id rt) n = Inr p"
    using ins by (auto simp: insert_planned_def split: sum.splits)
  have none: "find (same_key E n) (db_operations db) = None"
    using fresh by (auto simp: find_None_iff list_ex_iff)
  have r1: "reachable E db1"
    using reachable.call [OF db, of "Call_insert_planned (rt_runtime_id rt) n t1 ev1"] ins now plain
    by (simp add: plain_operation_def)
  note row = planned_new_row [OF ins reachable_rows [OF r1 env] p none]
  have planned: "planned = planned_record E (rt_runtime_id rt) n t1"
    using row(2) row_of_planned [OF env p plain now(1)] by simp
  have plain_d: "json_plain (disposition_details d)" by simp
  have move: "transition E (n_id n) (rt_runtime_id rt) (disposition_target d) (disposition_details d) t2 ev2 db1
      = (Inr rec, db')"
    using run ins planned by (auto simp: rt_plan_def planned_record_def split: if_splits)
  obtain cur where cur: "get_operation E (n_id n) db1 = Inr cur"
    "rec = moved_record (disposition_target d) t2 cur" "get_operation E (n_id n) db' = Inr rec"
    by (rule transitioned_row [OF env r1 plain_d now(2) move]) (rule that)
  then show "rec = moved_record (disposition_target d) t2 (planned_record E (rt_runtime_id rt) n t1)"
    and "get_operation E (n_id n) db' = Inr rec"
    using get_operation_of_row [OF reachable_rows [OF r1 env] row(1,2)] row(3)
      planned by auto
  show "reachable E db'"
    using reachable.call [OF r1, of "Call_transition (n_id n) (rt_runtime_id rt) (disposition_target d) (disposition_details d) t2 ev2"]
      move now plain_d by simp
qed

lemma rt_plan_ready:
  assumes env: "env_ok E" and db: "reachable E db" "ready_ok db" and call: "runtime_call_ok (Rt_Plan n d t1 ev1 t2 ev2)"
  shows "ready_ok (snd (rt_plan E rt n d t1 ev1 t2 ev2 db))"
proof (cases "may_mutate_target (n_kind n) \<and> d \<noteq> Plan_ApprovalRequired")
  case False
  obtain res db1 where ins: "insert_planned E (rt_runtime_id rt) n t1 ev1 db = (res, db1)" by (metis surj_pair)
  have ok1: "ready_ok db1" using ready_okI [OF db(2) insert_planned_ready] ins by (metis snd_conv)
  have "reachable E db1"
    using reachable.call [OF db(1), of "Call_insert_planned (rt_runtime_id rt) n t1 ev1"] call ins by simp
  then have rows: "rows_ok E db1" by (rule reachable_rows [OF _ env])
  have "ready_ok (snd (transition E (o_id planned) (rt_runtime_id rt) (disposition_target d)
      (disposition_details d) t2 ev2 db1))" if planned: "res = Inr planned" for planned
  proof (cases d)
    case Plan_ApprovalRequired
    then show ?thesis using ready_okI [OF ok1 transition_ready] by simp
  next
    case Plan_Ready
    with False have kind: "\<not> may_mutate_target (n_kind n)" by simp
    obtain r where r: "r \<in> set (db_operations db1)" "r_id r = uuid_to_string E (o_id planned)"
      "r_operation_kind r = operation_kind_str (n_kind n)"
      using planned_is_stored ins planned rows by blast
    let ?db2 = "snd (transition E (o_id planned) (rt_runtime_id rt) (disposition_target d)
      (disposition_details d) t2 ev2 db1)"
    have "?db2 = db1 \<or> (\<exists>cur upd. fetch_operation_tx E (o_id planned) db1 = Inr cur \<and>
        transition_tx E cur Ready (disposition_details d) t2 ev2 db1 = Inr (upd, ?db2))"
    proof -
      let ?body = "rbind (fetch_operation_tx E (o_id planned) db1) (\<lambda>current.
        rbind (ensure_runtime current (rt_runtime_id rt)) (\<lambda>_.
        rbind (transition_tx E current Ready (disposition_details d) t2 ev2 db1) (\<lambda>(updated, db').
        Inr (Inr updated :: operation_record app_result, db'))))"
      have "?db2 = snd (run_tx ?body db1)" using Plan_Ready by (simp add: transition_def)
      then show ?thesis
        using run_tx_ledger [OF refl, of ?body db1] by (auto simp: rbind_eq_Inr)
    qed
    then show ?thesis
    proof
      assume "\<exists>cur upd. fetch_operation_tx E (o_id planned) db1 = Inr cur \<and>
        transition_tx E cur Ready (disposition_details d) t2 ev2 db1 = Inr (upd, ?db2)"
      then obtain cur upd where cur: "fetch_operation_tx E (o_id planned) db1 = Inr cur"
        and tx: "transition_tx E cur Ready (disposition_details d) t2 ev2 db1 = Inr (upd, ?db2)" by blast
      have id: "uuid_to_string E (o_id cur) = uuid_to_string E (o_id planned)"
        using fetch_row [OF rows cur] by metis
      have "\<exists>k. r_operation_kind r' = operation_kind_str k \<and> \<not> may_mutate_target k"
        if "r' \<in> ready_rows ?db2" for r'
      proof -
        from that have r': "r' \<in> ready_rows ?db2" .
        consider "r' \<in> ready_rows db1" | r0 where "r0 \<in> set (db_operations db1)"
            "r_id r0 = uuid_to_string E (o_id cur)" "r_operation_kind r' = r_operation_kind r0"
          using transition_tx_ready [OF tx r'] by blast
        then show ?thesis
        proof cases
          case 1
          then show ?thesis using ok1 by (simp add: ready_ok_def)
        next
          case 2
          then have "r0 = r" using row_unique [OF rows r(1)] r(2) id by simp
          then show ?thesis using 2 r(3) kind by auto
        qed
      qed
      then show ?thesis by (simp add: ready_ok_def)
    qed (simp add: ok1)
  qed
  then show ?thesis
    using ok1 ins False by (auto simp: rt_plan_def split: sum.split)
qed (use db in \<open>simp add: rt_plan_def\<close>)

lemma exec_runtime_ready:
  assumes "env_ok E" "reachable E db" "ready_ok db" "runtime_call_ok c"
  shows "ready_ok (exec_runtime E rt c db)"
proof -
  have dec: "ready_rows (snd (decide_with_authority E rt a decision q now aid ev db)) \<subseteq> ready_rows db"
    for a decision q now aid ev
    using decide_approval_ready by (auto simp: decide_with_authority_def decide_exact_def split: sum.split)
  show ?thesis
    using assms
    by (cases c)
      (auto simp: rt_finish_defs rt_recover_def approve_exact_def reject_exact_def
        intro: rt_plan_ready ready_okI [OF assms(3) transition_ready] ready_okI [OF assms(3) claim_execution_ready]
          ready_okI [OF assms(3) append_progress_ready] ready_okI [OF assms(3) recover_ready]
          ready_okI [OF assms(3) dec])
qed

lemma rt_reachable_ready: "rt_reachable E db \<Longrightarrow> env_ok E \<Longrightarrow> ready_ok db"
proof (induction rule: rt_reachable.induct)
  case init
  then show ?case by (simp add: ready_ok_def ready_rows_def empty_ledger_def)
next
  case (call db c rt)
  then show ?case using exec_runtime_ready rt_reachable_reachable by blast
qed

section \<open>Planning succeeds\<close>

lemma rt_plan_succeeds:
  assumes env: "env_ok E" and db: "reachable E db" and prep: "prepare_operation E (rt_runtime_id rt) n = Inr p"
    and plain: "plain_operation n" and now: "rfc3339_range t1" "rfc3339_range t2"
    and fresh: "uuid_to_string E (n_id n) \<notin> r_id ` set (db_operations db)"
      "\<not> list_ex (same_key E n) (db_operations db)"
    and fits: "event_fits E (n_id n) (planned_details p) ev1 db"
      "event_fits E (n_id n) (disposition_details d) ev2 (planned_ledger E p t1 ev1 db)"
    and kind: "may_mutate_target (n_kind n) \<longrightarrow> d = Plan_ApprovalRequired"
  defines "rec \<equiv> planned_record E (rt_runtime_id rt) n t1"
  defines "db' \<equiv> moved_ledger E (operation_row_of E p t1) rec (disposition_target d) (disposition_details d)
    t2 ev2 (planned_ledger E p t1 ev1 db)"
  shows "rt_plan E rt n d t1 ev1 t2 ev2 db = (Inr (moved_record (disposition_target d) t2 rec), db')"
    and "get_operation E (n_id n) db' = Inr (moved_record (disposition_target d) t2 rec)"
proof -
  let ?db1 = "planned_ledger E p t1 ev1 db" and ?rec = "planned_record E (rt_runtime_id rt) n t1"
  let ?row = "operation_row_of E p t1"
  have ins: "insert_planned E (rt_runtime_id rt) n t1 ev1 db = (Inr ?rec, ?db1)"
    by (rule insert_planned_succeeds [OF env reachable_ok [OF db env] prep plain now(1) fresh fits(1)])
  have r1: "reachable E ?db1"
    using reachable.call [OF db, of "Call_insert_planned (rt_runtime_id rt) n t1 ev1"] ins now plain
    by (simp add: plain_operation_def)
  have row: "?row \<in> set (db_operations ?db1)" by (simp add: planned_ledger_def Let_def)
  have rec: "row_to_operation E ?row = Inr ?rec" by (rule row_of_planned [OF env prep plain now(1)])
  have simps: "o_id ?rec = n_id n" "o_runtime_id ?rec = rt_runtime_id rt" "o_state ?rec = Planned"
    by (simp_all add: planned_record_def)
  have allowed: "transition_allowed (o_state ?rec) (disposition_target d)" "disposition_target d \<noteq> Executing"
    by (cases d; simp add: simps transition_allowed_def)+
  let ?db2 = "moved_ledger E ?row ?rec (disposition_target d) (disposition_details d) t2 ev2 ?db1"
  have tr: "transition E (n_id n) (rt_runtime_id rt) (disposition_target d) (disposition_details d) t2 ev2 ?db1
      = (Inr (moved_record (disposition_target d) t2 ?rec), ?db2)"
    using transition_succeeds [OF env reachable_ok [OF r1 env] row rec simps(2) allowed now(2), of "disposition_details d" ev2]
      fits(2) by (simp add: simps)
  then have run: "rt_plan E rt n d t1 ev1 t2 ev2 db = (Inr (moved_record (disposition_target d) t2 ?rec), ?db2)"
    using kind by (simp add: rt_plan_def ins simps)
  have "reachable E ?db2"
    using rt_plan_reachable [OF db, of t1 t2 n rt d ev1 ev2] now plain run by (simp add: plain_operation_def)
  then have rows: "rows_ok E ?db2" by (rule reachable_rows [OF _ env])
  have "set_lifecycle (disposition_target d) (to_rfc3339_nanos E t2) ?row \<in> set (db_operations ?db2)"
    using row by (force simp: moved_ledger_def Let_def)
  moreover have "row_to_operation E (set_lifecycle (disposition_target d) (to_rfc3339_nanos E t2) ?row)
      = Inr (moved_record (disposition_target d) t2 ?rec)"
    using row_to_operation_set_lifecycle [OF rec] env now(2) by simp
  ultimately have "get_operation E (n_id n) ?db2 = Inr (moved_record (disposition_target d) t2 ?rec)"
    using get_operation_of_row [OF rows] rows_ok_id [OF rows] simps(1) by (metis moved_record_simps(2))
  with run show "rt_plan E rt n d t1 ev1 t2 ev2 db = (Inr (moved_record (disposition_target d) t2 rec), db')"
    "get_operation E (n_id n) db' = Inr (moved_record (disposition_target d) t2 rec)"
    by (simp_all add: rec_def db'_def)
qed

lemma demo_rt_plan:
  obtains db where "rt_plan ref_env \<lparr>rt_runtime_id = 9\<rparr> demo_operation Plan_ApprovalRequired 0 101 1 102 empty_ledger
      = (Inr (demo_rec PendingApproval 1), db)"
    "get_operation ref_env 1 db = Inr (demo_rec PendingApproval 1)" "rt_reachable ref_env db"
proof -
  let ?rt = "\<lparr>rt_runtime_id = 9\<rparr>"
  have planned: "planned_ledger ref_env demo_prepared 0 101 empty_ledger = demo_planned"
    using demo_at_planned(1) insert_planned_succeeds [OF env_ok_ref_env ledger_ok_empty demo_prepare
        demo_plain _ _ _ demo_planned_fits, of 0]
    by (simp add: rfc3339_range_def empty_ledger_def)
  have fits: "event_fits ref_env 1 (disposition_details Plan_ApprovalRequired) 102 demo_planned"
    by (rule demo_at_fits [OF demo_at_planned(2)])
      (simp_all, simp add: disposition_details_def length_enc_obj)
  obtain db where db: "rt_plan ref_env ?rt demo_operation Plan_ApprovalRequired 0 101 1 102 empty_ledger
      = (Inr (demo_rec PendingApproval 1), db)"
    "get_operation ref_env 1 db = Inr (demo_rec PendingApproval 1)"
    using rt_plan_succeeds [OF env_ok_ref_env reachable.init, of ?rt demo_operation demo_prepared 0 1 101
        Plan_ApprovalRequired 102] demo_prepare demo_plain demo_planned_fits fits planned
    by (auto simp: rfc3339_range_def empty_ledger_def demo_operation_def)
  have "rt_reachable ref_env db"
    using rt_reachable.call [OF rt_reachable.init, of "Rt_Plan demo_operation Plan_ApprovalRequired 0 101 1 102" ref_env ?rt] db(1)
    by (simp add: rfc3339_range_def expiry_in_range_def demo_operation_def)
  with db show thesis by (rule that)
qed

text \<open>
  Mutations wait for an approval: whatever calls the runtimes of a process history make, no
  operation that may change the target database is ever in the state ready, from which
  execution could start without an approval.
\<close>

theorem mutations_wait_for_approval:
  assumes "env_ok E" "rt_reachable E db" "row \<in> set (db_operations db)"
    and "row_to_operation E row = Inr rec" "may_mutate_target (o_kind rec)"
  shows "o_state rec \<noteq> Ready"
proof
  assume "o_state rec = Ready"
  then have "row \<in> ready_rows db" using assms(3,4) by (simp add: ready_rows_def)
  then obtain k where "r_operation_kind row = operation_kind_str k" "\<not> may_mutate_target k"
    using rt_reachable_ready [OF assms(2,1)] by (auto simp: ready_ok_def)
  then show False
    using row_to_operation_kind [OF assms(4)] kind_codec.to_text_inject assms(5) by metis
qed

theorem mutations_wait_for_approval_witness:
  "\<exists>db row rec. rt_reachable ref_env db \<and> row \<in> set (db_operations db) \<and>
     row_to_operation ref_env row = Inr rec \<and> may_mutate_target (o_kind rec) \<and> o_state rec \<noteq> Ready"
proof -
  obtain db where db: "get_operation ref_env 1 db = Inr (demo_rec PendingApproval 1)" "rt_reachable ref_env db"
    by (rule demo_rt_plan)
  obtain row where row: "row \<in> set (db_operations db)" "row_to_operation ref_env row = Inr (demo_rec PendingApproval 1)"
  proof -
    obtain r where "find_operation_row ref_env 1 db = Some r"
      "row_to_operation ref_env r = Inr (demo_rec PendingApproval 1)"
      using db(1) by (auto simp: get_operation_def find_operation_def transpose_opt_def rbind_eq_Inr
          ok_or_def split: option.splits sum.splits)
    then show thesis using that find_operation_row_Some(1) by blast
  qed
  have "may_mutate_target (o_kind (demo_rec PendingApproval 1))" by simp
  then show ?thesis
    using mutations_wait_for_approval [OF env_ok_ref_env db(2) row] db(2) row by blast
qed

text \<open>
  Planning does what it says: a valid, fresh request that fits its limits is stored and ends
  in the state its disposition names, ready or waiting for an approval, and reading the
  operation back returns the same record. Only a mutation planned as ready is refused.
\<close>

theorem plan_reaches_disposition:
  assumes "env_ok E" "reachable E db" "prepare_operation E (rt_runtime_id rt) n = Inr p"
    and "plain_operation n" "rfc3339_range t1" "rfc3339_range t2"
    and "uuid_to_string E (n_id n) \<notin> r_id ` set (db_operations db)"
      "\<not> list_ex (same_key E n) (db_operations db)"
    and "event_fits E (n_id n) (planned_details p) ev1 db"
      "event_fits E (n_id n) (disposition_details d) ev2 (planned_ledger E p t1 ev1 db)"
  defines "rec \<equiv> moved_record (disposition_target d) t2 (planned_record E (rt_runtime_id rt) n t1)"
  shows "if may_mutate_target (n_kind n) \<and> d = Plan_Ready
    then rt_plan E rt n d t1 ev1 t2 ev2 db = (Inl err_plan_needs_approval, db)
    else \<exists>db'. rt_plan E rt n d t1 ev1 t2 ev2 db = (Inr rec, db') \<and>
      get_operation E (n_id n) db' = Inr rec"
proof (cases "may_mutate_target (n_kind n) \<and> d = Plan_Ready")
  case False
  then have "may_mutate_target (n_kind n) \<longrightarrow> d = Plan_ApprovalRequired" by (cases d) auto
  then show ?thesis
    unfolding rec_def if_not_P [OF False] using rt_plan_succeeds [OF assms(1-10)] by blast
qed (simp add: rt_plan_def)

theorem plan_reaches_disposition_witness:
  "\<exists>db. rt_plan ref_env \<lparr>rt_runtime_id = 9\<rparr> demo_operation Plan_Ready 0 101 1 102 db
     = (Inl err_plan_needs_approval, db)"
proof -
  have fits: "event_fits ref_env (n_id demo_operation) (disposition_details Plan_Ready) 102
      (planned_ledger ref_env demo_prepared 0 101 empty_ledger)"
    by (rule demo_fits)
      (simp_all add: planned_ledger_def Let_def empty_ledger_def new_event_row_def env_ok_ref_env,
       simp add: disposition_details_def length_enc_obj)
  show ?thesis
    using plan_reaches_disposition [OF env_ok_ref_env reachable.init, of "\<lparr>rt_runtime_id = 9\<rparr>" demo_operation
        demo_prepared 0 1 101 Plan_Ready 102] demo_prepare demo_plain demo_planned_fits fits
    by (auto simp: rfc3339_range_def empty_ledger_def demo_operation_def)
qed

section \<open>Execution grants\<close>

lemma claimed_row:
  assumes "env_ok E" "reachable E db" "rfc3339_range now"
    and "claim_execution E op rt now ev db = (Inr rec, db1)"
  shows "reachable E db1"
    and "\<exists>row \<in> set (db_operations db1). row_to_operation E row = Inr rec \<and>
      r_id row = uuid_to_string E op \<and> o_state rec = Executing \<and> o_runtime_id rec = rt"
proof -
  have rows: "rows_ok E db" by (rule reachable_rows [OF assms(2,1)])
  show "reachable E db1"
    using reachable.call [OF assms(2), of "Call_claim_execution op rt now ev"] assms(3,4) by simp
  obtain cur where cur: "fetch_operation_tx E op db = Inr cur" "ensure_runtime cur rt = Inr ()"
    "transition_tx E cur Executing (claim_details cur) now ev db = Inr (rec, db1)"
    using assms(4) unfolding claim_execution_def run_tx_def
    by (auto simp: rbind_eq_Inr rbind_eq_Inl split: sum.splits prod.splits if_splits)
  obtain row where row: "row \<in> set (db_operations db)" "row_to_operation E row = Inr cur"
    "r_id row = uuid_to_string E (o_id cur)" "r_id row = uuid_to_string E op"
    by (rule fetch_row [OF rows cur(1)])
  have dist: "distinct (map r_id (db_operations db))" using rows by (simp add: rows_ok_def)
  let ?row1 = "set_lifecycle Executing (to_rfc3339_nanos E now) row"
  note spec = transition_tx_Inr [OF cur(3) dist row(1-3)]
  have "?row1 \<in> set (db_operations db1)" using spec(4) row(1) by auto
  moreover have "o_state rec = Executing"
    using row_to_operation_state [OF spec(2)] state_codec.to_text_inject [of "o_state rec" Executing] by simp
  moreover have "o_runtime_id rec = o_runtime_id cur"
    using row_to_operation_fields(2) [OF spec(2)] row_to_operation_fields(2) [OF row(2)]
    by (simp add: set_lifecycle_def)
  then have "o_runtime_id rec = rt" using cur(2) by (simp add: ensure_runtime_def split: if_splits)
  ultimately show "\<exists>row \<in> set (db_operations db1). row_to_operation E row = Inr rec \<and>
      r_id row = uuid_to_string E op \<and> o_state rec = Executing \<and> o_runtime_id rec = rt"
    using spec(2) row(4) by auto
qed

lemma claim_grants:
  assumes "env_ok E" "reachable E db" "rfc3339_range now"
    and "rt_claim E rt op now ev db = (Inr co, db')"
  shows "\<exists>row \<in> set (db_operations db'). row_to_operation E row = Inr (co_record co) \<and>
    r_id row = uuid_to_string E op \<and> o_state (co_record co) = Executing \<and>
    o_runtime_id (co_record co) = rt_runtime_id rt \<and>
    co_grant co = \<lparr>eg_operation_id = o_id (co_record co),
      eg_payload_sha256 = sha256_hex E (r_payload_json row),
      eg_connection_id = o_connection_id (co_record co)\<rparr> \<and>
    (may_mutate_target (o_kind (co_record co)) \<longrightarrow>
      (\<exists>a \<in> set (db_approvals db'). ar_operation_id a = r_id row \<and>
         ar_payload_hash a = eg_payload_sha256 (co_grant co) \<and> ar_decision a = ''approved'' \<and>
         ar_approver_kind a \<in> {''local_user'', ''workspace_user''} \<and> \<not> blank (ar_approver_id a)))"
proof -
  obtain rec where claim: "claim_execution E op (rt_runtime_id rt) now ev db = (Inr rec, db')"
    and co: "issue_grant rec = Inr (co_grant co)" "co_record co = rec"
    using assms(4) by (auto simp: rt_claim_def rbind_eq_Inr split: prod.splits sum.splits)
  obtain row where row: "row \<in> set (db_operations db')" "row_to_operation E row = Inr rec"
    "r_id row = uuid_to_string E op" "o_state rec = Executing" "o_runtime_id rec = rt_runtime_id rt"
    using claimed_row(2) [OF assms(1-3) claim] by blast
  note f = row_to_operation_fields [OF row(2)]
  have grant: "co_grant co = \<lparr>eg_operation_id = o_id rec, eg_payload_sha256 = sha256_hex E (r_payload_json row),
      eg_connection_id = o_connection_id rec\<rparr>"
    using co(1) row(4) f(5,8) by (simp add: issue_grant_def)
  obtain evs where evs: "history E (o_id rec) evs (o_state rec)"
    "may_mutate_target (o_kind rec) \<Longrightarrow> Ev_ExecutionStarted \<in> ev_kind ` set evs \<Longrightarrow> approved_by_user db' row"
    by (rule operation_history [OF assms(1) claimed_row(1) [OF assms(1-3) claim] row(1,2)]) (rule that)
  have "Ev_ExecutionStarted \<in> ev_kind ` set evs" using history_started [OF evs(1)] row(4) by simp
  then have "may_mutate_target (o_kind rec) \<Longrightarrow> approved_by_user db' row" using evs(2) by blast
  then show ?thesis
    using row grant co(2) f(8) by (intro bexI [OF _ row(1)]) (auto simp: approved_by_user_def list_ex_iff)
qed

text \<open>
  A grant is authorised: a claim yields a grant only for the operation it names, then stored
  as executing for this runtime; the grant carries that operation's connection and the digest
  of the very payload text stored; and when the operation may change the target database, the
  ledger holds an approval by an identified human for exactly that digest.
\<close>

theorem grant_is_authorised:
  assumes "env_ok E" "reachable E db" "rfc3339_range now"
    and "rt_claim E rt op now ev db = (Inr co, db')"
  shows "\<exists>row \<in> set (db_operations db'). row_to_operation E row = Inr (co_record co) \<and>
    r_id row = uuid_to_string E op \<and> o_state (co_record co) = Executing \<and>
    o_runtime_id (co_record co) = rt_runtime_id rt \<and>
    co_grant co = \<lparr>eg_operation_id = o_id (co_record co),
      eg_payload_sha256 = sha256_hex E (r_payload_json row),
      eg_connection_id = o_connection_id (co_record co)\<rparr> \<and>
    (may_mutate_target (o_kind (co_record co)) \<longrightarrow>
      (\<exists>a \<in> set (db_approvals db'). ar_operation_id a = r_id row \<and>
         ar_payload_hash a = eg_payload_sha256 (co_grant co) \<and> ar_decision a = ''approved'' \<and>
         ar_approver_kind a \<in> {''local_user'', ''workspace_user''} \<and> \<not> blank (ar_approver_id a)))"
  by (rule claim_grants [OF assms])

theorem grant_is_authorised_witness:
  "\<exists>co. rt_claim ref_env \<lparr>rt_runtime_id = 9\<rparr> 1 3 104 demo_approved = (Inr co, demo_executing) \<and>
     (\<exists>a \<in> set (db_approvals demo_executing). ar_payload_hash a = eg_payload_sha256 (co_grant co))"
proof -
  let ?rec = "moved_record Executing 3 (moved_record Approved 2 (demo_rec PendingApproval 1))"
  let ?co = "\<lparr>co_record = ?rec, co_grant = \<lparr>eg_operation_id = o_id ?rec, eg_payload_sha256 = o_payload_hash ?rec,
    eg_connection_id = o_connection_id ?rec\<rparr>\<rparr>"
  have run: "rt_claim ref_env \<lparr>rt_runtime_id = 9\<rparr> 1 3 104 demo_approved = (Inr ?co, demo_executing)"
    by (simp add: rt_claim_def demo_at_executing(1) issue_grant_def)
  have "may_mutate_target (o_kind (co_record ?co))" by simp
  then show ?thesis
    using grant_is_authorised [OF env_ok_ref_env demo_reachable(3) _ run] run
    by (force simp: rfc3339_range_def)
qed

end
