(* ===== verification/Cancel_Registry.thy ===== *)
theory Cancel_Registry
  imports Prelude
begin

text \<open>
  The cancellation registry and the wall-clock guard of
  \<^verbatim>\<open>src/src-tauri/src/executor/cancel.rs\<close>. A \<^verbatim>\<open>watch\<close> channel is a flag with a count
  of receivers; \<open>send\<close> stores the flag when a receiver is left. The registry is the process-wide
  map under its mutex, so each operation is one atomic step; the handles are owned by their
  holders and dropped at most once.
\<close>

section \<open>Watch channels\<close>

record watch_channel =
  wc_flag :: bool
  wc_receivers :: nat

definition watch_send :: "bool \<Rightarrow> watch_channel \<Rightarrow> watch_channel" where
  "watch_send v c = (if wc_receivers c = 0 then c else c\<lparr>wc_flag := v\<rparr>)"

section \<open>The registry\<close>

record cancel_slot =
  cs_sender :: nat
  cs_handles :: nat

record cancel_handle =
  ch_id :: uuid
  ch_rx :: nat

text \<open>Channels are never reused: a new one gets the next index.\<close>

record cancel_registry =
  cr_slots :: "uuid \<Rightarrow> cancel_slot option"
  cr_channels :: "watch_channel list"

definition empty_cancel_registry :: cancel_registry where
  "empty_cancel_registry = \<lparr>cr_slots = (\<lambda>_. None), cr_channels = []\<rparr>"

definition is_cancelled :: "cancel_registry \<Rightarrow> cancel_handle \<Rightarrow> bool" where
  "is_cancelled reg h = wc_flag (cr_channels reg ! ch_rx h)"

definition set_slot :: "uuid \<Rightarrow> cancel_slot option \<Rightarrow> cancel_registry \<Rightarrow> cancel_registry" where
  "set_slot i s reg = reg\<lparr>cr_slots := (cr_slots reg)(i := s)\<rparr>"

definition map_channel ::
  "nat \<Rightarrow> (watch_channel \<Rightarrow> watch_channel) \<Rightarrow> cancel_registry \<Rightarrow> cancel_registry" where
  "map_channel k f reg = reg\<lparr>cr_channels := (cr_channels reg)[k := f (cr_channels reg ! k)]\<rparr>"

definition register_slot :: "uuid \<Rightarrow> cancel_registry \<Rightarrow> cancel_handle \<times> cancel_registry" where
  "register_slot i reg =
     (case cr_slots reg i of
        Some slot \<Rightarrow>
          (\<lparr>ch_id = i, ch_rx = cs_sender slot\<rparr>,
           map_channel (cs_sender slot) (wc_receivers_update Suc)
             (set_slot i (Some (slot\<lparr>cs_handles := cs_handles slot + 1\<rparr>)) reg))
      | None \<Rightarrow>
          let k = length (cr_channels reg) in
          (\<lparr>ch_id = i, ch_rx = k\<rparr>,
           (set_slot i (Some \<lparr>cs_sender = k, cs_handles = 1\<rparr>) reg)
             \<lparr>cr_channels := cr_channels reg @ [\<lparr>wc_flag = False, wc_receivers = 1\<rparr>]\<rparr>))"

text \<open>\<^verbatim>\<open>Drop for CancelHandle\<close>, then the drop of its receiver\<close>

definition drop_handle :: "cancel_handle \<Rightarrow> cancel_registry \<Rightarrow> cancel_registry" where
  "drop_handle h reg =
     map_channel (ch_rx h) (wc_receivers_update (\<lambda>n. n - 1))
       (case cr_slots reg (ch_id h) of
          None \<Rightarrow> reg
        | Some slot \<Rightarrow>
            if 1 < cs_handles slot
            then set_slot (ch_id h) (Some (slot\<lparr>cs_handles := cs_handles slot - 1\<rparr>)) reg
            else set_slot (ch_id h) None reg)"

definition cancel_slot_of :: "uuid \<Rightarrow> cancel_registry \<Rightarrow> bool \<times> cancel_registry" where
  "cancel_slot_of i reg =
     (case cr_slots reg i of
        Some slot \<Rightarrow> (True, map_channel (cs_sender slot) (watch_send True) reg)
      | None \<Rightarrow> (False, reg))"

section \<open>The state of a process\<close>

text \<open>
  The registry together with the handles that are alive, newest first. The calls are the ones
  the program makes; a handle is dropped by its position among the live ones.
\<close>

datatype cancel_call = Cancel_register uuid | Cancel_signal uuid | Cancel_drop nat

fun cancel_step :: "cancel_call \<Rightarrow> cancel_handle list \<times> cancel_registry \<Rightarrow> cancel_handle list \<times> cancel_registry" where
  "cancel_step (Cancel_register i) (live, reg) =
     (let (h, reg') = register_slot i reg in (h # live, reg'))"
| "cancel_step (Cancel_signal i) (live, reg) = (live, snd (cancel_slot_of i reg))"
| "cancel_step (Cancel_drop k) (live, reg) =
     (if k < length live then (take k live @ drop (Suc k) live, drop_handle (live ! k) reg)
      else (live, reg))"

abbreviation handles_of :: "uuid \<Rightarrow> cancel_handle list \<Rightarrow> cancel_handle list" where
  "handles_of i live \<equiv> filter (\<lambda>h. ch_id h = i) live"

text \<open>
  The registry's invariant, one identifier at a time. A slot exists exactly while a handle of
  its identifier lives; its count is the number of those handles; they all listen on the slot's
  channel, whose receiver count is theirs. No two identifiers share a channel.
\<close>

definition slot_ok :: "cancel_handle list \<Rightarrow> cancel_registry \<Rightarrow> uuid \<Rightarrow> bool" where
  "slot_ok live reg i \<longleftrightarrow>
     (case cr_slots reg i of
        None \<Rightarrow> handles_of i live = []
      | Some slot \<Rightarrow>
          cs_handles slot = length (handles_of i live) \<and> handles_of i live \<noteq> [] \<and>
          cs_sender slot < length (cr_channels reg) \<and>
          wc_receivers (cr_channels reg ! cs_sender slot) = cs_handles slot \<and>
          (\<forall>h \<in> set live. ch_id h = i \<longrightarrow> ch_rx h = cs_sender slot))"

definition senders_distinct :: "cancel_registry \<Rightarrow> bool" where
  "senders_distinct reg \<longleftrightarrow>
     (\<forall>i j s t. cr_slots reg i = Some s \<longrightarrow> cr_slots reg j = Some t \<longrightarrow>
        cs_sender s = cs_sender t \<longrightarrow> i = j)"

definition cancel_ok :: "cancel_handle list \<times> cancel_registry \<Rightarrow> bool" where
  "cancel_ok st \<longleftrightarrow> (\<forall>i. slot_ok (fst st) (snd st) i) \<and> senders_distinct (snd st)"

lemma map_channel_simps [simp]:
  "cr_slots (map_channel k f reg) = cr_slots reg"
  "length (cr_channels (map_channel k f reg)) = length (cr_channels reg)"
  "j < length (cr_channels reg) \<Longrightarrow> cr_channels (map_channel k f reg) ! j =
     (if j = k then f (cr_channels reg ! k) else cr_channels reg ! j)"
  by (auto simp: map_channel_def nth_list_update)

lemma set_slot_simps [simp]:
  "cr_slots (set_slot i s reg) = (cr_slots reg)(i := s)"
  "cr_channels (set_slot i s reg) = cr_channels reg"
  by (simp_all add: set_slot_def)

lemma senders_distinct_mono:
  assumes "senders_distinct reg"
    and "\<And>j s. cr_slots reg' j = Some s \<Longrightarrow> \<exists>s0. cr_slots reg j = Some s0 \<and> cs_sender s = cs_sender s0"
  shows "senders_distinct reg'"
  unfolding senders_distinct_def by (metis assms senders_distinct_def)

lemma slot_okD:
  assumes "slot_ok live reg i" "h \<in> set live" "ch_id h = i"
  obtains slot where "cr_slots reg i = Some slot" "ch_rx h = cs_sender slot"
    "cs_sender slot < length (cr_channels reg)" "0 < wc_receivers (cr_channels reg ! cs_sender slot)"
  using assms by (auto simp: slot_ok_def filter_empty_conv split: option.splits)

lemma cancel_ok_register:
  assumes ok: "cancel_ok (live, reg)" and reg: "register_slot i reg = (h, reg')"
  shows "cancel_ok (h # live, reg')"
proof (cases "cr_slots reg i")
  case None
  then have h: "h = \<lparr>ch_id = i, ch_rx = length (cr_channels reg)\<rparr>"
    and slots: "cr_slots reg' = (cr_slots reg)(i \<mapsto> \<lparr>cs_sender = length (cr_channels reg), cs_handles = 1\<rparr>)"
    and chans: "cr_channels reg' = cr_channels reg @ [\<lparr>wc_flag = False, wc_receivers = 1\<rparr>]"
    using reg by (auto simp: register_slot_def Let_def)
  have old: "slot_ok live reg j" for j using ok by (simp add: cancel_ok_def)
  have below: "cs_sender s < length (cr_channels reg)" if "cr_slots reg j = Some s" for j s
    using old [of j] that by (simp add: slot_ok_def)
  have "slot_ok (h # live) reg' j" for j
    using old [of j] None
    by (auto simp: slot_ok_def slots chans h nth_append filter_empty_conv split: option.splits)
  moreover have "senders_distinct reg'"
    using ok by (auto simp: cancel_ok_def senders_distinct_def slots dest: below)
  ultimately show ?thesis by (simp add: cancel_ok_def)
next
  case (Some slot)
  then have h: "h = \<lparr>ch_id = i, ch_rx = cs_sender slot\<rparr>"
    and reg': "reg' = map_channel (cs_sender slot) (wc_receivers_update Suc)
             (set_slot i (Some (slot\<lparr>cs_handles := cs_handles slot + 1\<rparr>)) reg)"
    using reg by (auto simp: register_slot_def)
  have old: "slot_ok live reg j" for j using ok by (simp add: cancel_ok_def)
  have dist: "senders_distinct reg" using ok by (simp add: cancel_ok_def)
  have "slot_ok (h # live) reg' j" for j
    using old [of j] old [of i] dist Some
    by (auto simp: slot_ok_def senders_distinct_def reg' h split: option.splits)
  moreover have "senders_distinct reg'"
    using Some by (intro senders_distinct_mono [OF dist]) (auto simp: reg' split: if_splits)
  ultimately show ?thesis by (simp add: cancel_ok_def)
qed

lemma handles_of_delete:
  assumes "k < length live"
  shows "length (handles_of i (take k live @ drop (Suc k) live))
      = length (handles_of i live) - (if ch_id (live ! k) = i then 1 else 0)"
    and "set (take k live @ drop (Suc k) live) \<subseteq> set live"
proof -
  have split: "live = take k live @ live ! k # drop (Suc k) live"
    using assms by (simp add: id_take_nth_drop)
  have "length (handles_of i live) = length (handles_of i (take k live)) +
      (if ch_id (live ! k) = i then 1 else 0) + length (handles_of i (drop (Suc k) live))"
    by (subst split) simp
  then show "length (handles_of i (take k live @ drop (Suc k) live))
      = length (handles_of i live) - (if ch_id (live ! k) = i then 1 else 0)" by simp
  show "set (take k live @ drop (Suc k) live) \<subseteq> set live"
    using set_take_subset [of k live] set_drop_subset [of "Suc k" live] by auto
qed

lemma cancel_ok_drop:
  assumes ok: "cancel_ok (live, reg)" and k: "k < length live"
  shows "cancel_ok (take k live @ drop (Suc k) live, drop_handle (live ! k) reg)"
proof -
  let ?h = "live ! k" let ?live = "take k live @ drop (Suc k) live"
  have old: "slot_ok live reg j" for j using ok by (simp add: cancel_ok_def)
  have dist: "senders_distinct reg" using ok by (simp add: cancel_ok_def)
  obtain slot where slot: "cr_slots reg (ch_id ?h) = Some slot" "ch_rx ?h = cs_sender slot"
      "cs_sender slot < length (cr_channels reg)"
    using slot_okD [OF old nth_mem [OF k] refl] by blast
  note del = handles_of_delete [OF k]
  have "slot_ok live' (drop_handle ?h reg) j"
    if live': "\<And>i. length (handles_of i live') = length (handles_of i live) - (if ch_id ?h = i then 1 else 0)"
      "set live' \<subseteq> set live" for j live'
  proof (cases "cr_slots reg j")
    case None
    then have "j \<noteq> ch_id ?h" using slot(1) by auto
    moreover have "handles_of j live' = []"
      using old [of j] None live'(1) [of j] by (simp add: slot_ok_def)
    ultimately show ?thesis using slot(1) None by (simp add: slot_ok_def drop_handle_def)
  next
    case (Some t)
    have t: "cs_handles t = length (handles_of j live)" "handles_of j live \<noteq> []"
        "cs_sender t < length (cr_channels reg)"
        "wc_receivers (cr_channels reg ! cs_sender t) = cs_handles t"
      and rx: "\<And>h. h \<in> set live \<Longrightarrow> ch_id h = j \<Longrightarrow> ch_rx h = cs_sender t"
      using old [of j] Some by (simp_all add: slot_ok_def)
    have rx': "ch_rx h = cs_sender t" if "h \<in> set live'" "ch_id h = j" for h
      using rx that live'(2) by blast
    show ?thesis
    proof (cases "j = ch_id ?h")
      case True
      then have "t = slot" using slot(1) Some by simp
      moreover have "length (handles_of j live') = cs_handles t - 1"
        using live'(1) [of j] True t(1) by (simp only: refl if_True)
      then have "handles_of j live' = [] \<longleftrightarrow> \<not> 1 < cs_handles t"
        by (metis length_0_conv diff_is_0_eq not_less)
      ultimately show ?thesis
        using slot t(3,4) rx' \<open>length (handles_of j live') = cs_handles t - 1\<close> True
        by (simp add: slot_ok_def drop_handle_def)
    next
      case False
      then have "cs_sender t \<noteq> cs_sender slot"
        using dist slot(1) Some unfolding senders_distinct_def by blast
      then show ?thesis
        using slot t(3,4) rx' live'(1) [of j] t(1,2) False Some
        by (simp add: slot_ok_def drop_handle_def) (metis length_0_conv)
    qed
  qed
  from this [OF del] have "slot_ok ?live (drop_handle ?h reg) j" for j .
  moreover have "senders_distinct (drop_handle ?h reg)"
    using slot(1) by (intro senders_distinct_mono [OF dist]) (auto simp: drop_handle_def split: if_splits)
  ultimately show ?thesis by (simp add: cancel_ok_def)
qed

lemma cancel_ok_signal:
  assumes "cancel_ok (live, reg)"
  shows "cancel_ok (live, snd (cancel_slot_of i reg))"
proof -
  have slots: "cr_slots (snd (cancel_slot_of i reg)) = cr_slots reg"
    "length (cr_channels (snd (cancel_slot_of i reg))) = length (cr_channels reg)"
    by (simp_all add: cancel_slot_of_def split: option.split)
  have "wc_receivers (cr_channels (snd (cancel_slot_of i reg)) ! j) = wc_receivers (cr_channels reg ! j)"
    if "j < length (cr_channels reg)" for j
    using that by (auto simp: cancel_slot_of_def watch_send_def split: option.split)
  then have "slot_ok live (snd (cancel_slot_of i reg)) j" if "slot_ok live reg j" for j
    using that by (cases "cr_slots reg j") (simp_all add: slot_ok_def slots)
  then show ?thesis
    using assms by (simp add: cancel_ok_def senders_distinct_def slots)
qed

lemma cancel_ok_step: "cancel_ok st \<Longrightarrow> cancel_ok (cancel_step c st)"
  by (cases st; cases c)
    (auto intro: cancel_ok_register cancel_ok_drop cancel_ok_signal simp: split_beta)

definition run_cancel :: "cancel_call list \<Rightarrow> cancel_handle list \<times> cancel_registry" where
  "run_cancel calls = fold cancel_step calls ([], empty_cancel_registry)"

lemma run_cancel_ok: "cancel_ok (run_cancel calls)"
proof -
  have "cancel_ok (fold cancel_step calls st)" if "cancel_ok st" for st
    using that by (induction calls arbitrary: st) (auto simp: cancel_ok_step)
  moreover have "cancel_ok ([], empty_cancel_registry)"
    by (simp add: cancel_ok_def slot_ok_def senders_distinct_def empty_cancel_registry_def)
  ultimately show ?thesis by (simp add: run_cancel_def)
qed

section \<open>A cancellation is never lost\<close>

text \<open>Flags only rise, whatever is called.\<close>

lemma flag_stays:
  assumes "k < length (cr_channels reg)" "wc_flag (cr_channels reg ! k)"
  shows "k < length (cr_channels (snd (fold cancel_step calls (live, reg)))) \<and>
    wc_flag (cr_channels (snd (fold cancel_step calls (live, reg))) ! k)"
  using assms
proof (induction calls arbitrary: live reg)
  case (Cons c calls)
  obtain live' reg' where step: "cancel_step c (live, reg) = (live', reg')" by (metis surj_pair)
  have "k < length (cr_channels reg') \<and> wc_flag (cr_channels reg' ! k)"
    using step Cons.prems
    by (cases c)
      (auto simp: register_slot_def Let_def drop_handle_def cancel_slot_of_def watch_send_def
        nth_append split: option.splits if_splits)
  then show ?case using Cons.IH step by simp
qed simp

text \<open>
  C38. A cancellation is never lost: whatever was registered, signalled and dropped before,
  signalling an identifier reports whether one of its handles is alive; it cancels every live
  handle of that identifier, for as long as the handle lives and whatever is called meanwhile,
  and no handle of another identifier. A handle registered later joins the signal exactly when
  it shares the slot with a cancelled one.
\<close>

theorem cancel_never_lost:
  assumes "run_cancel calls = (live, reg)" "cancel_slot_of i reg = (found, reg')"
    and "register_slot i reg = (joined, reg'')"
  shows "(found \<longleftrightarrow> (\<exists>h \<in> set live. ch_id h = i)) \<and>
    (\<forall>h \<in> set live. is_cancelled reg' h \<longleftrightarrow> ch_id h = i \<or> is_cancelled reg h) \<and>
    (\<forall>h \<in> set live. ch_id h = i \<longrightarrow> is_cancelled (snd (fold cancel_step later (live, reg'))) h) \<and>
    (is_cancelled reg'' joined \<longleftrightarrow> (\<exists>h \<in> set live. ch_id h = i \<and> is_cancelled reg h))"
proof -
  have ok: "slot_ok live reg j" for j using run_cancel_ok [of calls] assms(1) by (simp add: cancel_ok_def)
  have dist: "senders_distinct reg" using run_cancel_ok [of calls] assms(1) by (simp add: cancel_ok_def)
  show ?thesis
  proof (cases "cr_slots reg i")
    case None
    then have "\<not> (\<exists>h \<in> set live. ch_id h = i)"
      using ok [of i] by (simp add: slot_ok_def filter_empty_conv)
    then show ?thesis
      using assms(2,3) None
      by (auto simp: cancel_slot_of_def register_slot_def is_cancelled_def Let_def)
  next
    case (Some slot)
    have slot: "handles_of i live \<noteq> []" "cs_sender slot < length (cr_channels reg)"
      "wc_receivers (cr_channels reg ! cs_sender slot) = length (handles_of i live)"
      using ok [of i] Some by (simp_all add: slot_ok_def)
    have rx: "ch_rx h = cs_sender slot" if "h \<in> set live" "ch_id h = i" for h
      using ok [of i] Some that by (simp add: slot_ok_def)
    obtain g where g: "g \<in> set live" "ch_id g = i" using slot(1) by (auto simp: filter_empty_conv)
    have reg': "found" "reg' = map_channel (cs_sender slot) (watch_send True) reg"
      using assms(2) Some by (simp_all add: cancel_slot_of_def)
    have flag: "wc_flag (cr_channels reg' ! cs_sender slot)"
      using slot by (simp add: reg' watch_send_def)
    have lasting: "is_cancelled (snd (fold cancel_step later (live, reg'))) h"
      if "h \<in> set live" "ch_id h = i" for h
      using flag_stays [OF _ flag] slot(2) rx [OF that] by (simp add: is_cancelled_def reg'(2))
    have other: "ch_rx h < length (cr_channels reg) \<and> ch_rx h \<noteq> cs_sender slot"
      if "h \<in> set live" "ch_id h \<noteq> i" for h
      using slot_okD [OF ok that(1) refl] dist Some that(2) unfolding senders_distinct_def by metis
    have here: "is_cancelled reg' h \<longleftrightarrow> ch_id h = i \<or> is_cancelled reg h" if "h \<in> set live" for h
    proof (cases "ch_id h = i")
      case True
      then show ?thesis using flag rx [OF that] by (simp add: is_cancelled_def)
    next
      case False
      then show ?thesis using other [OF that] by (simp add: is_cancelled_def reg'(2))
    qed
    have "is_cancelled reg'' joined \<longleftrightarrow> is_cancelled reg g"
      using assms(3) Some slot(2) rx [OF g] by (auto simp: register_slot_def is_cancelled_def)
    moreover have "is_cancelled reg h \<longleftrightarrow> is_cancelled reg g" if "h \<in> set live" "ch_id h = i" for h
      using rx [OF g] rx [OF that] by (simp add: is_cancelled_def)
    ultimately show ?thesis using reg'(1) g here lasting by blast
  qed
qed

theorem cancel_never_lost_witness:
  "\<exists>live reg. run_cancel [Cancel_register 7, Cancel_register 8, Cancel_register 7, Cancel_drop 0] = (live, reg) \<and>
     fst (cancel_slot_of 7 reg) \<and> fst (cancel_slot_of 8 reg)"
proof -
  let ?calls = "[Cancel_register 7, Cancel_register 8, Cancel_register 7, Cancel_drop 0]"
  obtain live reg where run: "run_cancel ?calls = (live, reg)" by (metis surj_pair)
  have "map ch_id (fst (run_cancel ?calls)) = [8, 7]"
    by (simp add: run_cancel_def empty_cancel_registry_def register_slot_def Let_def)
  then have "map ch_id live = [8, 7]" by (simp add: run)
  then have "\<exists>h \<in> set live. ch_id h = 7" "\<exists>h \<in> set live. ch_id h = 8" by auto
  then have "fst (cancel_slot_of 7 reg)" "fst (cancel_slot_of 8 reg)"
    using cancel_never_lost [OF run prod.collapse [symmetric] prod.collapse [symmetric]] by blast+
  with run show ?thesis by blast
qed

section \<open>The guard\<close>

text \<open>
  \<^verbatim>\<open>guard_registered\<close> polls, in this order, the cancellation and the query under its timeout;
  \<^verbatim>\<open>tokio::time::timeout\<close> polls the query before its own timer. One poll sees whether the
  handle (if any) is cancelled, the query's result if it is ready, and the nanoseconds elapsed.
\<close>

record 'a guard_poll =
  gp_cancelled :: bool
  gp_ready :: "'a app_result option"
  gp_elapsed :: nat

definition err_query_cancelled :: app_error where
  "err_query_cancelled = Safety ''query cancelled''"

definition query_timeout :: nat where
  "query_timeout = 300 * 1000000000"

definition err_query_timeout :: "(nat \<Rightarrow> string) \<Rightarrow> nat \<Rightarrow> app_error" where
  "err_query_timeout show_nat wall =
     Safety (''query timed out after '' @ show_nat (wall div 1000000000) @ ''s and was aborted'')"

definition guard_poll_result ::
  "(nat \<Rightarrow> string) \<Rightarrow> nat \<Rightarrow> bool \<Rightarrow> 'a guard_poll \<Rightarrow> 'a app_result option" where
  "guard_poll_result show_nat wall has_handle p =
     (if has_handle \<and> gp_cancelled p then Some (Inl err_query_cancelled)
      else case gp_ready p of
        Some inner \<Rightarrow> Some inner
      | None \<Rightarrow> if wall \<le> gp_elapsed p then Some (Inl (err_query_timeout show_nat wall)) else None)"

text \<open>The guard over the polls the executor makes; \<open>None\<close> while none of them ends it.\<close>

fun guard_registered ::
  "(nat \<Rightarrow> string) \<Rightarrow> nat \<Rightarrow> bool \<Rightarrow> 'a guard_poll list \<Rightarrow> 'a app_result option" where
  "guard_registered show_nat wall has_handle [] = None"
| "guard_registered show_nat wall has_handle (p # ps) =
     (case guard_poll_result show_nat wall has_handle p of
        Some r \<Rightarrow> Some r | None \<Rightarrow> guard_registered show_nat wall has_handle ps)"

lemma guard_registered_cases:
  "guard_registered show_nat wall has_handle (ps @ p # qs) = guard_poll_result show_nat wall has_handle p"
  if "\<forall>q \<in> set ps. guard_poll_result show_nat wall has_handle q = None"
    "guard_poll_result show_nat wall has_handle p \<noteq> None"
  using that by (induction ps) auto

lemma guard_registered_None:
  "guard_registered show_nat wall has_handle ps = None \<longleftrightarrow>
     (\<forall>p \<in> set ps. guard_poll_result show_nat wall has_handle p = None)"
  by (induction ps) (auto split: option.split)

text \<open>
  The guard always ends in time: as soon as one poll happens at or after the wall-clock
  limit the guard has a result, and its result is the query's own unless a cancellation or the
  limit was seen at a poll at which the query was not ready first.
\<close>

theorem guard_ends:
  assumes "p \<in> set ps" "wall \<le> gp_elapsed p"
  shows "\<exists>r qs q rs. guard_registered show_nat wall has_handle ps = Some r \<and> ps = qs @ q # rs \<and>
    (\<forall>q' \<in> set qs. gp_ready q' = None \<and> \<not> (has_handle \<and> gp_cancelled q') \<and> gp_elapsed q' < wall) \<and>
    (if has_handle \<and> gp_cancelled q then r = Inl err_query_cancelled
     else case gp_ready q of
       Some inner \<Rightarrow> r = inner
     | None \<Rightarrow> wall \<le> gp_elapsed q \<and> r = Inl (err_query_timeout show_nat wall))"
proof -
  let ?f = "guard_poll_result show_nat wall has_handle"
  have "\<exists>q \<in> set ps. ?f q \<noteq> None"
    using assms by (intro bexI [of _ p]) (auto simp: guard_poll_result_def split: option.split)
  then obtain qs q rs where ps: "ps = qs @ q # rs" "?f q \<noteq> None" "\<forall>q' \<in> set qs. \<not> ?f q' \<noteq> None"
    by (rule split_list_first_propE)
  then obtain r where r: "?f q = Some r" by blast
  have "guard_registered show_nat wall has_handle ps = Some r"
    using ps r by (simp add: guard_registered_cases)
  moreover have "\<forall>q' \<in> set qs. gp_ready q' = None \<and> \<not> (has_handle \<and> gp_cancelled q') \<and> gp_elapsed q' < wall"
    using ps(3) by (auto simp: guard_poll_result_def split: option.splits if_splits)
  moreover have "if has_handle \<and> gp_cancelled q then r = Inl err_query_cancelled
     else case gp_ready q of
       Some inner \<Rightarrow> r = inner
     | None \<Rightarrow> wall \<le> gp_elapsed q \<and> r = Inl (err_query_timeout show_nat wall)"
    using r by (auto simp: guard_poll_result_def split: option.splits if_splits)
  ultimately show ?thesis using ps(1) by blast
qed

theorem guard_ends_witness:
  "\<exists>r. guard_registered (\<lambda>_. []) 10 True
     [\<lparr>gp_cancelled = False, gp_ready = None :: nat app_result option, gp_elapsed = 3\<rparr>,
      \<lparr>gp_cancelled = False, gp_ready = None, gp_elapsed = 12\<rparr>] = Some r"
  using guard_ends [of "\<lparr>gp_cancelled = False, gp_ready = None :: nat app_result option, gp_elapsed = 12\<rparr>"
      "[\<lparr>gp_cancelled = False, gp_ready = None, gp_elapsed = 3\<rparr>,
        \<lparr>gp_cancelled = False, gp_ready = None, gp_elapsed = 12\<rparr>]" 10 "\<lambda>_. []" True]
  by (simp del: guard_registered.simps) blast

end
