(* ===== verification/Operation_Service.thy ===== *)
theory Operation_Service
  imports Operation_Runtime Pinned_Connection Cancel_Registry
begin

text \<open>
  The approval orchestration of \<^verbatim>\<open>src/src-tauri/src/services/operation_service.rs\<close>: local
  decisions over the current scope and policy, and the Terminal's view of its own operations.
  What the service reads from the connection manager and the store, the pin of a connection
  and its safety settings, is an argument, a \<open>policy_source\<close>.
\<close>

section \<open>The captured policy\<close>

text \<open>\<^verbatim>\<open>serde_json\<close> objects hold their keys in order.\<close>

definition safety_to_value :: "safety_settings \<Rightarrow> json" where
  "safety_to_value s = JObject
     [(''allowWrites'', JBool (ss_allow_writes s)),
      (''autoRunReads'', JBool (ss_auto_run_reads s)),
      (''execPreviewRowLimit'', json_i64 (ss_exec_preview_row_limit s)),
      (''explainPreview'', JBool (ss_explain_preview s)),
      (''maxRows'', json_i64 (int (ss_max_rows s))),
      (''requireApproval'', JBool (ss_require_approval s)),
      (''wrapWritesInTx'', JBool (ss_wrap_writes_in_tx s))]"

record captured_policy =
  po_snapshot :: json
  po_revision :: string

definition policy_snapshot_of :: "env \<Rightarrow> pinned_connection \<Rightarrow> safety_settings \<Rightarrow> json" where
  "policy_snapshot_of E pin settings = JObject
     [(''accountScope'', JString (storage_key (pin_account_scope pin))),
      (''bindingRevision'', json_i64 (pin_binding_revision pin)),
      (''bindingUpdatedAt'', JString (pin_binding_updated_at pin)),
      (''connectionRevision'', json_i64 (pin_connection_revision pin)),
      (''credentialMode'', JString (credential_mode_str (cp_credential_mode (pin_profile pin)))),
      (''environment'', json_opt_string (cp_env (pin_profile pin))),
      (''safety'', safety_to_value settings),
      (''scopeGeneration'', json_i64 (sc_generation (pin_scope pin))),
      (''workspaceAccess'', JString (workspace_access_str (cp_workspace_access (pin_profile pin)))),
      (''workspaceId'', JString (uuid_to_string E (pin_workspace_id pin)))]"

definition capture_policy :: "env \<Rightarrow> pinned_connection \<Rightarrow> safety_settings \<Rightarrow> captured_policy" where
  "capture_policy E pin settings =
     (let snapshot = policy_snapshot_of E pin settings
      in \<lparr>po_snapshot = snapshot, po_revision = canonical_hash E snapshot\<rparr>)"

section \<open>Actors and scopes\<close>

definition no_provenance :: actor_provenance where
  "no_provenance = \<lparr>local_account_id = None, workspace_account_id = None, agent_provider = None,
     agent_model = None, plugin_id = None, plugin_version = None, client_protocol_version = None,
     origin_surface = []\<rparr>"

definition actor_for_pin :: "pinned_connection \<Rightarrow> string \<Rightarrow> operation_actor" where
  "actor_for_pin pin surface =
     (case pin_account_scope pin of
        Personal_scope \<Rightarrow>
          \<lparr>actor_kind = LocalUser, actor_id = ''local-user'', actor_provenance =
             no_provenance\<lparr>local_account_id := Some ''local-user'', origin_surface := surface\<rparr>\<rparr>
      | WorkspaceUser_scope i \<Rightarrow>
          \<lparr>actor_kind = WorkspaceUser, actor_id = i, actor_provenance =
             no_provenance\<lparr>workspace_account_id := Some i, origin_surface := surface\<rparr>\<rparr>)"

definition agent_actor_for_pin :: "pinned_connection \<Rightarrow> string \<Rightarrow> string \<Rightarrow> operation_actor" where
  "agent_actor_for_pin pin aid surface =
     \<lparr>actor_kind = Agent, actor_id = aid, actor_provenance =
       (case pin_account_scope pin of
          Personal_scope \<Rightarrow> no_provenance\<lparr>local_account_id := Some ''local-user'', origin_surface := surface\<rparr>
        | WorkspaceUser_scope i \<Rightarrow> no_provenance\<lparr>workspace_account_id := Some i, origin_surface := surface\<rparr>)\<rparr>"

definition approver_for_pin :: "pinned_connection \<Rightarrow> operation_approver" where
  "approver_for_pin pin =
     (case pin_account_scope pin of
        Personal_scope \<Rightarrow> \<lparr>approver_kind = LocalUser, approver_id = ''local-user''\<rparr>
      | WorkspaceUser_scope i \<Rightarrow> \<lparr>approver_kind = WorkspaceUser, approver_id = i\<rparr>)"

definition err_scope_changed :: app_error where
  "err_scope_changed =
     Blocked ''operation scope or connection revision changed after the proposal was created''"

definition ensure_operation_scope :: "operation_record \<Rightarrow> pinned_connection \<Rightarrow> unit app_result" where
  "ensure_operation_scope rec pin =
     (if o_workspace_id rec = pin_workspace_id pin \<and>
         o_account_scope rec = storage_key (pin_account_scope pin) \<and>
         o_connection_id rec = pin_connection_id pin \<and>
         o_connection_revision rec = pin_connection_revision pin
      then Inr () else Inl err_scope_changed)"

definition err_terminal_scope :: app_error where
  "err_terminal_scope = Blocked ''operation belongs to a different Terminal or connection scope''"

definition ensure_terminal_scope :: "operation_record \<Rightarrow> terminal_authority \<Rightarrow> unit app_result" where
  "ensure_terminal_scope rec ta =
     (if o_terminal_session_id rec = Some (ta_terminal_session_id ta) \<and>
         o_workspace_id rec = ta_workspace_id ta \<and>
         o_account_scope rec = ta_account_scope ta \<and>
         o_connection_id rec = ta_connection_id ta \<and>
         o_connection_revision rec = ta_connection_revision ta
      then Inr () else Inl err_terminal_scope)"

section \<open>Confirmation phrases\<close>

fun json_get :: "string \<Rightarrow> json \<Rightarrow> json option" where
  "json_get k (JObject kvs) = map_of kvs k"
| "json_get k _ = None"

fun json_as_str :: "json \<Rightarrow> string option" where
  "json_as_str (JString s) = Some s"
| "json_as_str _ = None"

definition critical_confirmation :: string where
  "critical_confirmation = ''RUN CRITICAL''"

definition production_confirmation :: string where
  "production_confirmation = ''PROD''"

definition required_confirmation :: "operation_record \<Rightarrow> string option" where
  "required_confirmation rec =
     (if \<not> may_mutate_target (o_kind rec) then None
      else if o_risk_level rec = Risk_Critical then Some critical_confirmation
      else
        let production = (case Option.bind (json_get ''environment'' (o_policy_snapshot rec)) json_as_str of
              Some environment \<Rightarrow> eq_ignore_ascii_case environment ''prod'' | None \<Rightarrow> False)
        in if production then Some production_confirmation else None)"

definition err_confirmation :: "string \<Rightarrow> app_error" where
  "err_confirmation expected = Blocked (''type the exact confirmation phrase `'' @ expected @
     ''` before approving this operation'')"

section \<open>Local decisions\<close>

record policy_source =
  ps_pin_for_view :: "uuid \<Rightarrow> pinned_connection app_result"
  ps_get_safety :: "uuid \<Rightarrow> safety_settings app_result"

record operation_decision_request =
  dr_operation_id :: uuid
  dr_expected_payload_hash :: string
  dr_reason :: "string option"

record operation_decision_receipt =
  dc_operation_id :: uuid
  dc_payload_hash :: string
  dc_state :: operation_state

definition receipt_of :: "operation_record \<Rightarrow> operation_decision_receipt" where
  "receipt_of rec = \<lparr>dc_operation_id = o_id rec, dc_payload_hash = o_payload_hash rec, dc_state = o_state rec\<rparr>"

definition exact_request ::
  "env \<Rightarrow> policy_source \<Rightarrow> operation_decision_request \<Rightarrow> bool \<Rightarrow> ledger \<Rightarrow> exact_approval_request app_result" where
  "exact_request E src q validate_confirmation db =
     rbind (rt_get E (dr_operation_id q) db) (\<lambda>rec.
     rbind (case (if validate_confirmation then required_confirmation rec else None) of
              Some expected \<Rightarrow> guard (dr_reason q \<noteq> Some expected) (err_confirmation expected)
            | None \<Rightarrow> Inr ()) (\<lambda>_.
     rbind (ps_pin_for_view src (o_connection_id rec)) (\<lambda>pin.
     rbind (ensure_operation_scope rec pin) (\<lambda>_.
     rbind (ps_get_safety src (pin_connection_id pin)) (\<lambda>settings.
     Inr \<lparr>ea_operation_id = dr_operation_id q, ea_expected_payload_hash = dr_expected_payload_hash q,
          ea_approver = approver_for_pin pin,
          ea_current_policy_revision = po_revision (capture_policy E pin settings),
          ea_reason = dr_reason q\<rparr>)))))"

definition decide_local ::
  "env \<Rightarrow> operation_runtime \<Rightarrow> policy_source \<Rightarrow> approval_decision \<Rightarrow> local_approval_authority
     \<Rightarrow> operation_decision_request \<Rightarrow> datetime \<Rightarrow> uuid \<Rightarrow> uuid \<Rightarrow> ledger
     \<Rightarrow> operation_decision_receipt app_result \<times> ledger" where
  "decide_local E rt src decision authority q now aid ev db =
     (case exact_request E src q (decision = Decision_Approved) db of
        Inl e \<Rightarrow> (Inl e, db)
      | Inr exact \<Rightarrow>
          let (r, db') = decide_with_authority E rt authority decision exact now aid ev db
          in (rbind r (\<lambda>rec. Inr (receipt_of rec)), db'))"

definition approve_local where
  "approve_local E rt src = decide_local E rt src Decision_Approved"

definition reject_local where
  "reject_local E rt src = decide_local E rt src Decision_Rejected"

section \<open>The Terminal's operations\<close>

record operation_summary =
  os_operation_id :: uuid
  os_connection_id :: uuid
  os_kind :: operation_kind
  os_state :: operation_state
  os_risk_level :: op_risk_level
  os_payload_hash :: string
  os_expires_at :: "datetime option"
  os_started_at :: "datetime option"
  os_finished_at :: "datetime option"
  os_created_at :: datetime
  os_updated_at :: datetime

definition summary_of :: "operation_record \<Rightarrow> operation_summary" where
  "summary_of rec = \<lparr>os_operation_id = o_id rec, os_connection_id = o_connection_id rec,
     os_kind = o_kind rec, os_state = o_state rec, os_risk_level = o_risk_level rec,
     os_payload_hash = o_payload_hash rec, os_expires_at = o_expires_at rec,
     os_started_at = o_started_at rec, os_finished_at = o_finished_at rec,
     os_created_at = o_created_at rec, os_updated_at = o_updated_at rec\<rparr>"

definition show_terminal ::
  "env \<Rightarrow> terminal_authority \<Rightarrow> uuid \<Rightarrow> ledger \<Rightarrow> operation_summary app_result" where
  "show_terminal E ta operation_id db =
     rbind (rt_get E operation_id db) (\<lambda>rec.
     rbind (ensure_terminal_scope rec ta) (\<lambda>_. Inr (summary_of rec)))"

definition cancel_details :: "env \<Rightarrow> terminal_authority \<Rightarrow> json" where
  "cancel_details E ta = JObject
     [(''origin'', JString ''cli''),
      (''terminalSessionId'', JString (uuid_to_string E (ta_terminal_session_id ta)))]"

definition cancel_terminal ::
  "env \<Rightarrow> operation_runtime \<Rightarrow> terminal_authority \<Rightarrow> uuid \<Rightarrow> datetime \<Rightarrow> uuid
     \<Rightarrow> ledger \<times> cancel_registry \<Rightarrow> operation_summary app_result \<times> ledger \<times> cancel_registry" where
  "cancel_terminal E rt ta operation_id now ev = (\<lambda>(db, reg).
     case rbind (rt_get E operation_id db) (\<lambda>rec.
            rbind (ensure_terminal_scope rec ta) (\<lambda>_. Inr rec)) of
       Inl e \<Rightarrow> (Inl e, db, reg)
     | Inr rec \<Rightarrow>
         if is_terminal (o_state rec) then (Inr (summary_of rec), db, reg)
         else if o_state rec = Executing
         then (Inr (summary_of rec), db, snd (cancel_slot_of operation_id reg))
         else
           let (r, db') = cancel_before_execution E rt operation_id (cancel_details E ta) now ev db
           in (rbind r (\<lambda>cancelled. Inr (summary_of cancelled)), db', reg))"

text \<open>
  \<^verbatim>\<open>wait_terminal\<close> polls the ledger, which others change between the polls: the loop takes
  the successive observations, each the ledger and the monotonic clock (in nanoseconds) read
  after it. A loop that never ends is the value \<open>None\<close>.
\<close>

definition err_wait_timeout :: app_error where
  "err_wait_timeout = Safety ''operation wait timed out''"

partial_function (option) wait_loop ::
  "env \<Rightarrow> terminal_authority \<Rightarrow> uuid \<Rightarrow> nat \<Rightarrow> (nat \<Rightarrow> ledger \<times> nat) \<Rightarrow> nat \<Rightarrow> operation_summary app_result option" where
  "wait_loop E ta operation_id deadline obs k =
     (case show_terminal E ta operation_id (fst (obs k)) of
        Inl e \<Rightarrow> Some (Inl e)
      | Inr summary \<Rightarrow>
          if is_terminal (os_state summary) then Some (Inr summary)
          else if deadline \<le> snd (obs k) then Some (Inl err_wait_timeout)
          else wait_loop E ta operation_id deadline obs (Suc k))"

definition wait_terminal ::
  "env \<Rightarrow> terminal_authority \<Rightarrow> uuid \<Rightarrow> nat \<Rightarrow> nat \<Rightarrow> (nat \<Rightarrow> ledger \<times> nat) \<Rightarrow> operation_summary app_result option" where
  "wait_terminal E ta operation_id start timeout obs = wait_loop E ta operation_id (start + timeout) obs 0"

section \<open>The policy revision pins the policy\<close>

lemma json_i64_inject [simp]: "json_i64 a = json_i64 b \<longleftrightarrow> a = b"
  by (auto simp: json_i64_def split: if_splits)

lemma json_opt_string_inject [simp]: "json_opt_string a = json_opt_string b \<longleftrightarrow> a = b"
  by (cases a; cases b) (simp_all add: json_opt_string_def)

lemma credential_mode_str_inject [simp]: "credential_mode_str a = credential_mode_str b \<longleftrightarrow> a = b"
  by (cases a; cases b) simp_all

lemma workspace_access_str_inject [simp]: "workspace_access_str a = workspace_access_str b \<longleftrightarrow> a = b"
  by (cases a; cases b) simp_all

text \<open>The snapshot is in canonical form as it is built; its numbers are machine integers.\<close>

definition is_i64 :: "int \<Rightarrow> bool" where
  "is_i64 i \<longleftrightarrow> - (2 ^ 63) \<le> i \<and> i < 2 ^ 63"

definition policy_numbers_ok :: "pinned_connection \<Rightarrow> safety_settings \<Rightarrow> bool" where
  "policy_numbers_ok pin s \<longleftrightarrow> is_i64 (pin_binding_revision pin) \<and> is_i64 (pin_connection_revision pin) \<and>
     is_i64 (sc_generation (pin_scope pin)) \<and> is_i64 (ss_exec_preview_row_limit s) \<and> ss_max_rows s < 2 ^ 64"

lemma canonical_leaf [simp]:
  "canonical_value (json_i64 i) = json_i64 i" "canonical_value (json_opt_string v) = json_opt_string v"
  "json_wf (json_i64 i)" "json_wf (json_opt_string v)" "json_integral (json_opt_string v)"
  "json_depth (json_i64 i) = 1" "json_depth (json_opt_string v) = 1"
  by (simp_all add: json_i64_def json_opt_string_def split: option.split)

lemma json_integral_i64 [simp]:
  "is_i64 i \<Longrightarrow> json_integral (json_i64 i)" "n < 2 ^ 64 \<Longrightarrow> json_integral (json_i64 (int n))"
  by (auto simp: json_i64_def is_i64_def)

lemma canonical_policy_snapshot:
  "canonical_value (policy_snapshot_of E pin s) = policy_snapshot_of E pin s"
  by (simp add: policy_snapshot_of_def safety_to_value_def)

lemma policy_snapshot_plain:
  "policy_numbers_ok pin s \<Longrightarrow> json_plain (policy_snapshot_of E pin s)"
  unfolding policy_numbers_ok_def
  by (simp add: policy_snapshot_of_def safety_to_value_def json_plain_def del: power_strict_decreasing)

lemma policy_snapshot_inject:
  assumes "env_ok E" "policy_snapshot_of E p s = policy_snapshot_of E q t"
  shows "storage_key (pin_account_scope p) = storage_key (pin_account_scope q)"
    "pin_workspace_id p = pin_workspace_id q" "sc_generation (pin_scope p) = sc_generation (pin_scope q)"
    "pin_connection_revision p = pin_connection_revision q"
    "pin_binding_revision p = pin_binding_revision q" "pin_binding_updated_at p = pin_binding_updated_at q"
    "cp_credential_mode (pin_profile p) = cp_credential_mode (pin_profile q)"
    "cp_workspace_access (pin_profile p) = cp_workspace_access (pin_profile q)"
    "cp_env (pin_profile p) = cp_env (pin_profile q)" "s = t"
  using assms by (auto simp: policy_snapshot_of_def safety_to_value_def)

text \<open>
  The policy revision pins the policy: two captures with the same revision agree on the
  account, workspace and scope generation, on the connection's revision, binding, credential
  mode, access and environment, and on every safety setting, unless they exhibit two different
  texts with the same SHA-256 digest. So a change of any of them invalidates earlier plans.
\<close>

theorem policy_revision_exact:
  assumes "env_ok E" "policy_numbers_ok p s" "policy_numbers_ok q t"
    and "po_revision (capture_policy E p s) = po_revision (capture_policy E q t)"
  shows "storage_key (pin_account_scope p) = storage_key (pin_account_scope q) \<and>
      pin_workspace_id p = pin_workspace_id q \<and> sc_generation (pin_scope p) = sc_generation (pin_scope q) \<and>
      pin_connection_revision p = pin_connection_revision q \<and>
      pin_binding_revision p = pin_binding_revision q \<and> pin_binding_updated_at p = pin_binding_updated_at q \<and>
      cp_credential_mode (pin_profile p) = cp_credential_mode (pin_profile q) \<and>
      cp_workspace_access (pin_profile p) = cp_workspace_access (pin_profile q) \<and>
      cp_env (pin_profile p) = cp_env (pin_profile q) \<and> s = t \<or>
    (\<exists>a b. a \<noteq> b \<and> sha256_hex E a = sha256_hex E b)"
proof (cases "canonical_json E (policy_snapshot_of E p s) = canonical_json E (policy_snapshot_of E q t)")
  case True
  have reads: "parse_canonical_json E (canonical_json E (policy_snapshot_of E r u)) = Inr (policy_snapshot_of E r u)"
    if "policy_numbers_ok r u" for r u
    using canonical_text_reads [OF assms(1) policy_snapshot_plain [OF that, of E]]
    by (simp only: canonical_policy_snapshot)
  have "Inr (policy_snapshot_of E p s) = (Inr (policy_snapshot_of E q t) :: json app_result)"
    using reads [OF assms(2)] reads [OF assms(3)] by (simp only: True)
  then have "policy_snapshot_of E p s = policy_snapshot_of E q t" by (simp only: sum.inject)
  from policy_snapshot_inject [OF assms(1) this] show ?thesis by blast
next
  case False
  then show ?thesis
    using assms(4) by (auto simp: capture_policy_def Let_def canonical_hash_eq)
qed

lemma policy_numbers_demo: "policy_numbers_ok demo_pin default_safety"
  by (simp add: policy_numbers_ok_def is_i64_def demo_pin_def default_safety_def)

theorem policy_revision_exact_witness:
  "\<exists>t. policy_numbers_ok demo_pin t \<and>
     (t = default_safety \<or> (\<exists>a b. a \<noteq> b \<and> sha256_hex ref_env a = sha256_hex ref_env b))"
  using policy_revision_exact [OF env_ok_ref_env policy_numbers_demo policy_numbers_demo refl]
    policy_numbers_demo by blast

section \<open>Waiting ends\<close>

lemma wait_loop_ends:
  assumes "\<And>k. min deadline (snd (obs k) + 50000000) \<le> snd (obs (Suc k))"
    and "deadline \<le> snd (obs k) + n * 50000000"
  shows "\<exists>j r. k \<le> j \<and> j \<le> k + n \<and> wait_loop E ta op deadline obs k = Some r \<and>
    (r = show_terminal E ta op (fst (obs j)) \<and> (\<forall>s. r = Inr s \<longrightarrow> is_terminal (os_state s)) \<or>
     r = Inl err_wait_timeout \<and> deadline \<le> snd (obs j)) \<and>
    (\<forall>i \<in> {k..<j}. \<exists>s. show_terminal E ta op (fst (obs i)) = Inr s \<and> \<not> is_terminal (os_state s))"
  using assms(2)
proof (induction n arbitrary: k)
  case 0
  then show ?case
    by (intro exI [of _ k]) (auto simp: wait_loop.simps [of E ta op deadline obs k] split: sum.split)
next
  case (Suc n)
  consider e where "show_terminal E ta op (fst (obs k)) = Inl e"
    | s where "show_terminal E ta op (fst (obs k)) = Inr s" "is_terminal (os_state s) \<or> deadline \<le> snd (obs k)"
    | s where "show_terminal E ta op (fst (obs k)) = Inr s" "\<not> is_terminal (os_state s)" "snd (obs k) < deadline"
    by (cases "show_terminal E ta op (fst (obs k))") (auto simp: not_le [symmetric])
  then show ?case
  proof cases
    case (3 s)
    have "deadline \<le> snd (obs (Suc k)) + n * 50000000"
      using assms(1) [of k] Suc.prems 3(3) by (auto simp: min_def split: if_splits)
    from Suc.IH [OF this] obtain j r where j: "Suc k \<le> j" "j \<le> Suc k + n"
      "wait_loop E ta op deadline obs (Suc k) = Some r"
      "r = show_terminal E ta op (fst (obs j)) \<and> (\<forall>s. r = Inr s \<longrightarrow> is_terminal (os_state s)) \<or>
       r = Inl err_wait_timeout \<and> deadline \<le> snd (obs j)"
      "\<forall>i \<in> {Suc k..<j}. \<exists>s. show_terminal E ta op (fst (obs i)) = Inr s \<and> \<not> is_terminal (os_state s)"
      by blast
    have "wait_loop E ta op deadline obs k = Some r"
      using 3 j(3) by (simp add: wait_loop.simps [of E ta op deadline obs k])
    moreover have "\<forall>i \<in> {k..<j}. \<exists>s. show_terminal E ta op (fst (obs i)) = Inr s \<and> \<not> is_terminal (os_state s)"
      using j(5) 3(1,2) by (metis atLeastLessThan_iff le_antisym not_less_eq_eq)
    ultimately show ?thesis using j(1,2,4) by (intro exI [of _ j] exI [of _ r]) simp
  qed (rule exI [of _ k], auto simp: wait_loop.simps [of E ta op deadline obs k])+
qed


definition demo_authority :: terminal_authority where
  "demo_authority = \<lparr>ta_terminal_session_id = 5, ta_workspace_id = 2, ta_account_scope = ''local'',
     ta_connection_id = 3, ta_connection_revision = 1, ta_client_protocol_version = 1\<rparr>"


section \<open>Cancelling from the Terminal\<close>

text \<open>
  A Terminal cancels only what is its own, and the cancellation takes the form the state
  allows: an operation of another Terminal or scope gives an error and nothing changes; a
  finished one is reported as it is; an executing one is only signalled, through its
  cancellation slot; any other is moved to cancelled, and reads back as such.
\<close>

theorem terminal_cancel_outcome:
  assumes "env_ok E" "reachable E db" "rfc3339_range now"
    and "cancel_terminal E rt ta op now ev (db, reg) = (res, db', reg')"
  shows "case show_terminal E ta op db of
      Inl e \<Rightarrow> res = Inl e \<and> db' = db \<and> reg' = reg
    | Inr s \<Rightarrow>
        if is_terminal (os_state s) then res = Inr s \<and> db' = db \<and> reg' = reg
        else if os_state s = Executing
        then res = Inr s \<and> db' = db \<and> reg' = snd (cancel_slot_of op reg)
        else reg' = reg \<and> (\<forall>s'. res = Inr s' \<longrightarrow>
          os_state s' = Cancelled \<and> show_terminal E ta op db' = Inr s')"
proof (cases "rbind (rt_get E op db) (\<lambda>rec. rbind (ensure_terminal_scope rec ta) (\<lambda>_. Inr rec))")
  case (Inl e)
  then have "show_terminal E ta op db = Inl e"
    by (auto simp: show_terminal_def rbind_eq_Inl)
  moreover have "res = Inl e \<and> db' = db \<and> reg' = reg"
    using assms(4) Inl by (simp add: cancel_terminal_def)
  ultimately show ?thesis by simp
next
  case (Inr cur)
  then have cur: "get_operation E op db = Inr cur" and scope: "ensure_terminal_scope cur ta = Inr ()"
    by (auto simp: rbind_eq_Inr rt_get_def)
  then have shown: "show_terminal E ta op db = Inr (summary_of cur)"
    by (simp add: show_terminal_def rt_get_def)
  have state: "os_state (summary_of cur) = o_state cur" by (simp add: summary_of_def)
  have plain: "json_plain (cancel_details E ta)"
    by (simp add: json_plain_def cancel_details_def)
  show ?thesis
  proof (cases "is_terminal (o_state cur) \<or> o_state cur = Executing")
    case True
    then show ?thesis using assms(4) Inr shown state by (auto simp: cancel_terminal_def)
  next
    case False
    obtain r where tr: "transition E op (rt_runtime_id rt) Cancelled (cancel_details E ta) now ev db = (r, db')"
      and res: "res = rbind r (\<lambda>c. Inr (summary_of c))" "reg' = reg"
      using assms(4) Inr False by (auto simp: cancel_terminal_def rt_finish_defs split: prod.splits)
    have "os_state s' = Cancelled \<and> show_terminal E ta op db' = Inr s'" if ret: "res = Inr s'" for s'
    proof -
      obtain rec where rec: "r = Inr rec" "s' = summary_of rec" using ret unfolding res(1) rbind_eq_Inr by blast
      from transitioned_row [OF assms(1,2) plain assms(3) tr [unfolded rec(1)]]
      have "rec = moved_record Cancelled now cur" "get_operation E op db' = Inr rec"
        using cur by auto
      then show ?thesis
        using scope rec(2) by (simp add: show_terminal_def rt_get_def summary_of_def ensure_terminal_scope_def
            moved_record_def split: if_splits)
    qed
    then show ?thesis using shown state False res(2) by simp
  qed
qed

theorem terminal_cancel_outcome_witness:
  "\<exists>e. cancel_terminal ref_env \<lparr>rt_runtime_id = 9\<rparr> demo_authority 1 4 105 (demo_executing, empty_cancel_registry)
     = (Inl e, demo_executing, empty_cancel_registry)"
proof -
  obtain row where row: "db_operations demo_executing = [row]"
    "row_to_operation ref_env row = Inr demo_executing_record" "r_id row = uuid_to_string ref_env 1"
    by (rule demo_executing_row)
  have "get_operation ref_env 1 demo_executing = Inr demo_executing_record"
    using get_operation_of_row [OF reachable_rows [OF demo_reachable(4) env_ok_ref_env] _ row(2,3)] row(1) by simp
  moreover have "o_terminal_session_id demo_executing_record = None"
    by (simp add: moved_record_def planned_record_def demo_operation_def)
  ultimately have "show_terminal ref_env demo_authority 1 demo_executing = Inl err_terminal_scope"
    by (simp add: show_terminal_def rt_get_def ensure_terminal_scope_def)
  moreover obtain res db' reg' where run: "cancel_terminal ref_env \<lparr>rt_runtime_id = 9\<rparr> demo_authority 1 4 105
      (demo_executing, empty_cancel_registry) = (res, db', reg')"
    by (metis surj_pair)
  ultimately show ?thesis
    using terminal_cancel_outcome [OF env_ok_ref_env demo_reachable(4) _ run] by (simp add: rfc3339_range_def)
qed

section \<open>Local decisions are exact\<close>

text \<open>
  A local approval binds everything it was shown: when it succeeds, the operation awaited a
  decision in this runtime; the hash the user saw is the stored payload's; the typed phrase is
  the one its risk or environment demands; the scope and connection revision are still those
  it was planned in; and the policy captured now is the one it was planned under. The approver
  recorded is the active account's user.
\<close>

theorem local_approval_is_exact:
  assumes "env_ok E" "reachable E db"
    and "approve_local E rt src authority q now aid ev db = (Inr receipt, db')"
  shows "\<exists>rec pin settings. get_operation E (dr_operation_id q) db = Inr rec \<and>
    o_state rec = PendingApproval \<and> la_runtime_id authority = rt_runtime_id rt \<and>
    o_runtime_id rec = rt_runtime_id rt \<and> o_payload_hash rec = dr_expected_payload_hash q \<and>
    (\<forall>phrase. required_confirmation rec = Some phrase \<longrightarrow> dr_reason q = Some phrase) \<and>
    ps_pin_for_view src (o_connection_id rec) = Inr pin \<and> ensure_operation_scope rec pin = Inr () \<and>
    ps_get_safety src (pin_connection_id pin) = Inr settings \<and>
    o_policy_revision rec = po_revision (capture_policy E pin settings) \<and>
    dc_operation_id receipt = o_id rec \<and> dc_state receipt = Approved \<and>
    (\<exists>a. db_approvals db' = db_approvals db @ [a] \<and> ar_payload_hash a = dr_expected_payload_hash q \<and>
       ar_approver_id a = approver_id (approver_for_pin pin))"
proof -
  obtain exact rec' where ex: "exact_request E src q True db = Inr exact"
    and auth: "la_runtime_id authority = rt_runtime_id rt"
    and dec: "decide_exact E rt exact Decision_Approved now aid ev db = (Inr rec', db')"
    and receipt: "receipt = receipt_of rec'"
    using assms(3)
    by (auto simp: approve_local_def decide_local_def decide_with_authority_def rbind_eq_Inr
        ensure_local_approval_authority_def split: sum.splits prod.splits if_splits)
  obtain rec pin settings where rec: "get_operation E (dr_operation_id q) db = Inr rec"
    and conf: "\<forall>phrase. required_confirmation rec = Some phrase \<longrightarrow> dr_reason q = Some phrase"
    and pin: "ps_pin_for_view src (o_connection_id rec) = Inr pin" "ensure_operation_scope rec pin = Inr ()"
    and settings: "ps_get_safety src (pin_connection_id pin) = Inr settings"
    and exact: "exact = \<lparr>ea_operation_id = dr_operation_id q, ea_expected_payload_hash = dr_expected_payload_hash q,
          ea_approver = approver_for_pin pin,
          ea_current_policy_revision = po_revision (capture_policy E pin settings),
          ea_reason = dr_reason q\<rparr>"
    using ex by (auto simp: exact_request_def rbind_eq_Inr rt_get_def guard_def split: option.splits if_splits)
  let ?c = "\<lparr>c_operation_id = dr_operation_id q, c_runtime_id = rt_runtime_id rt,
      c_expected_payload_hash = dr_expected_payload_hash q, c_approver = approver_for_pin pin,
      c_decision = Decision_Approved, c_reason = dr_reason q,
      c_current_policy_revision = po_revision (capture_policy E pin settings), c_now = now\<rparr>"
  have run: "decide_approval E ?c aid ev db = (Inr rec', db')" using dec by (simp add: decide_exact_def exact)
  obtain cur db1 where cur: "fetch_operation_tx E (dr_operation_id q) db = Inr cur"
    and guards: "ensure_runtime cur (rt_runtime_id rt) = Inr ()" "o_state cur = PendingApproval"
      "o_payload_hash cur = dr_expected_payload_hash q"
      "o_policy_revision cur = po_revision (capture_policy E pin settings)"
    and ins: "insert_approval_row (approval_row_of E cur ?c aid) db = Inr db1"
    and tx: "transition_tx E cur Approved (approval_details E cur ?c aid) now ev db1 = Inr (rec', db')"
    using decide_approval_Inr [OF run] by (metis approval_command.select_convs decision_state.simps(1))
  have rows: "rows_ok E db" by (rule reachable_rows [OF assms(2,1)])
  obtain row where row: "row \<in> set (db_operations db)" "row_to_operation E row = Inr cur"
    "r_id row = uuid_to_string E (o_id cur)" "r_id row = uuid_to_string E (dr_operation_id q)"
    by (rule fetch_row [OF rows cur])
  have same: "cur = rec" using get_operation_of_row [OF rows row(1,2,4)] rec by simp
  have db1: "db1 = db\<lparr>db_approvals := db_approvals db @ [approval_row_of E cur ?c aid]\<rparr>"
    using ins by (simp add: insert_approval_row_Inr)
  have dist: "distinct (map r_id (db_operations db1))" using rows by (simp add: rows_ok_def db1)
  have mem: "row \<in> set (db_operations db1)" using row(1) by (simp add: db1)
  note spec = transition_tx_Inr [OF tx dist mem row(2,3)]
  have "o_state rec' = Approved"
    using row_to_operation_state [OF spec(2)] state_codec.to_text_inject [of Approved "o_state rec'"] by simp
  moreover have "o_id rec' = o_id cur"
    using row_to_operation_fields(1) [OF spec(2)] row_to_operation_fields(1) [OF row(2)] by simp
  moreover have "db_approvals db' = db_approvals db @ [approval_row_of E cur ?c aid]"
    by (simp add: spec(4) db1)
  moreover have "ar_payload_hash (approval_row_of E cur ?c aid) = dr_expected_payload_hash q"
    "ar_approver_id (approval_row_of E cur ?c aid) = approver_id (approver_for_pin pin)"
    using guards(3) by (simp_all add: approval_row_of_def)
  moreover have "o_runtime_id rec = rt_runtime_id rt"
    using guards(1) same by (simp add: ensure_runtime_def split: if_splits)
  ultimately show ?thesis
    using rec conf pin settings guards(2-4) auth receipt same
    by (intro exI [of _ rec] exI [of _ pin] exI [of _ settings]) (simp add: receipt_of_def)
qed

subsection \<open>A run of the service\<close>

text \<open>
  The write of the ledger's run, planned for the pinned connection under its captured policy
  with critical risk, and approved with the phrase this demands.
\<close>

definition demo_source :: policy_source where
  "demo_source = \<lparr>ps_pin_for_view = (\<lambda>_. Inr demo_pin), ps_get_safety = (\<lambda>_. Inr default_safety)\<rparr>"

definition demo_critical :: new_operation where
  "demo_critical = demo_operation\<lparr>n_account_scope := ''personal'', n_risk_level := Risk_Critical,
     n_policy_revision := po_revision (capture_policy ref_env demo_pin default_safety)\<rparr>"

definition demo_critical_request :: operation_decision_request where
  "demo_critical_request = \<lparr>dr_operation_id = 1,
     dr_expected_payload_hash = canonical_hash ref_env (n_payload demo_operation),
     dr_reason = Some critical_confirmation\<rparr>"

lemma strip_tokens_none:
  "list_all (\<lambda>w. w \<noteq> [] \<and> hd w \<notin> A) ws \<Longrightarrow> s \<noteq> [] \<Longrightarrow> hd s \<in> A \<Longrightarrow> strip_tokens n ws s = s"
proof (cases n)
  case (Suc m)
  assume ws: "list_all (\<lambda>w. w \<noteq> [] \<and> hd w \<notin> A) ws" and s: "s \<noteq> []" "hd s \<in> A"
  have "\<not> prefix w s" if "w \<in> set ws" for w
    using ws s that by (cases w; cases s) (auto simp: list_all_iff)
  then have "find (\<lambda>w. prefix w s) ws = None" by (auto simp: find_None_iff)
  then show ?thesis using Suc by simp
qed simp

lemma not_blank_hex:
  assumes "s \<noteq> []" "set s \<subseteq> hex_chars"
  shows "\<not> blank s"
proof -
  have white: "list_all (\<lambda>w. w \<noteq> [] \<and> hd w \<notin> hex_chars) white_space"
    "list_all (\<lambda>w. w \<noteq> [] \<and> hd w \<notin> hex_chars) (map rev white_space)"
    by (simp_all add: white_space_def hex_chars_def)
  have "hd s \<in> hex_chars" "hd (rev s) \<in> hex_chars" using assms by (auto simp: hd_rev subset_iff)
  then have "trim s = s"
    using assms(1) strip_tokens_none [OF white(1)] strip_tokens_none [OF white(2)]
    by (simp add: trim_def trim_start_def trim_end_def)
  then show ?thesis using assms(1) by (simp add: blank_def)
qed

lemma demo_revision:
  "\<not> blank (po_revision (capture_policy ref_env demo_pin default_safety))"
  "length (po_revision (capture_policy ref_env demo_pin default_safety)) = 64"
proof -
  have "po_revision (capture_policy ref_env demo_pin default_safety)
      = sha256_hex ref_env (canonical_json ref_env (policy_snapshot_of ref_env demo_pin default_safety))"
    by (simp add: capture_policy_def Let_def canonical_hash_eq)
  moreover have "set (sha256_hex ref_env m) \<subseteq> hex_chars" for m
    using lower_hex_chars by (simp add: sha256_hex_def)
  moreover have "length (sha256_hex ref_env m) = 64" for m using env_ok_ref_env by simp
  moreover have "sha256_hex ref_env m \<noteq> []" for m
    using length_sha256_hex [OF env_ok_ref_env, of m] by force
  ultimately show "\<not> blank (po_revision (capture_policy ref_env demo_pin default_safety))"
    "length (po_revision (capture_policy ref_env demo_pin default_safety)) = 64"
    using not_blank_hex by simp_all
qed

definition demo_critical_prepared :: prepared_operation where
  "demo_critical_prepared = demo_prepared\<lparr>p_operation := demo_critical\<rparr>"

lemma demo_critical_prepare: "prepare_operation ref_env 9 demo_critical = Inr demo_critical_prepared"
proof -
  have "\<not> blank ''personal''" by code_simp
  then have "validate_new_operation demo_critical = Inr ()"
    using demo_valid demo_revision(1)
    by (simp add: demo_critical_def validate_new_operation_def demo_operation_def not_blank_demo)
  moreover have "n_preview demo_operation = JNull" "n_policy_snapshot demo_operation = JNull"
    by (simp_all add: demo_operation_def)
  ultimately show ?thesis
    using demo_prepare demo_valid
    by (simp add: prepare_operation_def demo_critical_prepared_def demo_critical_def demo_prepared_def Let_def
        rbind_eq_Inr split: if_splits)
qed

lemma demo_critical_plain: "plain_operation demo_critical"
  using demo_plain by (simp add: plain_operation_def demo_critical_def)

abbreviation demo_critical_rec :: operation_record where
  "demo_critical_rec \<equiv> moved_record PendingApproval 1 (planned_record ref_env 9 demo_critical 0)"

definition demo_critical_planned :: ledger where
  "demo_critical_planned = planned_ledger ref_env demo_critical_prepared 0 101 empty_ledger"

definition demo_critical_pending :: ledger where
  "demo_critical_pending = moved_ledger ref_env (operation_row_of ref_env demo_critical_prepared 0)
     (planned_record ref_env 9 demo_critical 0) PendingApproval (disposition_details Plan_ApprovalRequired)
     1 102 demo_critical_planned"

lemma demo_critical_fields [simp]:
  "n_id demo_critical = 1" "n_kind demo_critical = WriteSql" "n_expires_at demo_critical = Some 900"
  "n_payload demo_critical = n_payload demo_operation" "n_policy_snapshot demo_critical = JNull"
  "n_workspace_id demo_critical = 2" "n_connection_id demo_critical = 3"
  "n_connection_revision demo_critical = 1" "n_account_scope demo_critical = ''personal''"
  "n_risk_level demo_critical = Risk_Critical"
  "n_policy_revision demo_critical = po_revision (capture_policy ref_env demo_pin default_safety)"
  by (simp_all add: demo_critical_def demo_operation_def)

lemma demo_critical_rec_fields [simp]:
  "o_id (planned_record ref_env 9 demo_critical 0) = 1"
  "o_workspace_id demo_critical_rec = 2" "o_account_scope demo_critical_rec = ''personal''"
  "o_connection_id demo_critical_rec = 3" "o_connection_revision demo_critical_rec = 1"
  "o_kind (planned_record ref_env 9 demo_critical 0) = WriteSql" "o_risk_level demo_critical_rec = Risk_Critical"
  "o_runtime_id (planned_record ref_env 9 demo_critical 0) = 9" "o_expires_at (planned_record ref_env 9 demo_critical 0) = Some 900"
  "o_payload_hash (planned_record ref_env 9 demo_critical 0) = canonical_hash ref_env (n_payload demo_operation)"
  "o_policy_revision (planned_record ref_env 9 demo_critical 0) = po_revision (capture_policy ref_env demo_pin default_safety)"
  by (simp_all add: moved_record_def planned_record_def)

lemma demo_pin_fields [simp]:
  "pin_workspace_id demo_pin = 2" "pin_account_scope demo_pin = Personal_scope"
  "pin_connection_id demo_pin = 3" "pin_connection_revision demo_pin = 1"
  "approver_for_pin demo_pin = \<lparr>approver_kind = LocalUser, approver_id = ''local-user''\<rparr>"
  by (simp_all add: demo_pin_def pin_workspace_id_def pin_account_scope_def approver_for_pin_def)

lemma demo_critical_events:
  "map er_id (db_events demo_critical_planned) = [uuid_to_string ref_env 101]"
  "map er_id (db_events demo_critical_pending) = [uuid_to_string ref_env 101, uuid_to_string ref_env 102]"
  "db_approvals demo_critical_pending = []"
  by (simp_all add: demo_critical_planned_def demo_critical_pending_def planned_ledger_def moved_ledger_def
      Let_def empty_ledger_def new_event_row_def)

lemma demo_critical_fits:
  assumes "json_plain d" "length (enc d) \<le> 1000" "e \<noteq> 101" "e \<noteq> 102"
    and "map er_id (db_events db) \<in> {[uuid_to_string ref_env 101], [uuid_to_string ref_env 101, uuid_to_string ref_env 102]}"
  shows "event_fits ref_env u d e db"
proof (rule demo_fits [OF assms(1,2)])
  have "set (map er_id (db_events db)) \<subseteq> {uuid_to_string ref_env 101, uuid_to_string ref_env 102}"
    using assms(5) by auto
  then show "uuid_to_string ref_env e \<notin> er_id ` set (db_events db)"
    using assms(3,4) by (auto simp: env_ok_ref_env)
  have "length (map er_id (db_events db)) \<le> 2" using assms(5) by auto
  then show "length (db_events db) < 100" by simp
qed

lemma demo_critical_run:
  "reachable ref_env demo_critical_pending"
  "get_operation ref_env 1 demo_critical_pending = Inr demo_critical_rec"
proof -
  let ?rt = "\<lparr>rt_runtime_id = 9\<rparr>"
  have fits1: "event_fits ref_env (n_id demo_critical) (planned_details demo_critical_prepared) 101 empty_ledger"
  proof (rule demo_fits)
    show "length (enc (planned_details demo_critical_prepared)) \<le> 1000"
      by (simp add: planned_details_def length_enc_obj demo_critical_prepared_def demo_prepared_def
          canonical_from_value_def Let_def env_ok_ref_env)
  qed (simp_all add: empty_ledger_def)
  have fits2: "event_fits ref_env (n_id demo_critical) (disposition_details Plan_ApprovalRequired) 102
      (planned_ledger ref_env demo_critical_prepared 0 101 empty_ledger)"
  proof (rule demo_fits)
    have "set (map er_id (db_events demo_critical_planned)) = {uuid_to_string ref_env 101}"
      by (simp only: demo_critical_events) simp
    then show "uuid_to_string ref_env 102 \<notin> er_id ` set (db_events (planned_ledger ref_env demo_critical_prepared 0 101 empty_ledger))"
      by (simp add: demo_critical_planned_def env_ok_ref_env)
    show "length (db_events (planned_ledger ref_env demo_critical_prepared 0 101 empty_ledger)) < 100"
      using arg_cong [OF demo_critical_events(1), of length] by (simp add: demo_critical_planned_def)
  qed (simp_all, simp add: disposition_details_def length_enc_obj)
  have prep: "prepare_operation ref_env (rt_runtime_id ?rt) demo_critical = Inr demo_critical_prepared"
    by (simp add: demo_critical_prepare)
  have now: "rfc3339_range 0" "rfc3339_range 1" by (simp_all add: rfc3339_range_def)
  note run = rt_plan_succeeds [OF env_ok_ref_env reachable.init prep demo_critical_plain now _ _ fits1 fits2]
  have plan: "rt_plan ref_env ?rt demo_critical Plan_ApprovalRequired 0 101 1 102 empty_ledger
      = (Inr demo_critical_rec, demo_critical_pending)"
    using run(1) by (simp add: demo_critical_pending_def demo_critical_planned_def empty_ledger_def)
  show "get_operation ref_env 1 demo_critical_pending = Inr demo_critical_rec"
    using run(2) by (simp add: demo_critical_pending_def demo_critical_planned_def empty_ledger_def)
  show "reachable ref_env demo_critical_pending"
    using rt_plan_reachable [OF reachable.init now, of demo_critical ref_env ?rt Plan_ApprovalRequired 101 102] plan
    by (simp add: expiry_in_range_def rfc3339_range_def)
qed

theorem local_approval_is_exact_witness:
  "\<exists>receipt db'. approve_local ref_env \<lparr>rt_runtime_id = 9\<rparr> demo_source \<lparr>la_runtime_id = 9\<rparr>
       demo_critical_request 2 201 103 demo_critical_pending = (Inr receipt, db') \<and> dc_state receipt = Approved"
proof -
  let ?rt = "\<lparr>rt_runtime_id = 9\<rparr>" and ?rec = demo_critical_rec
  let ?c = "\<lparr>c_operation_id = 1, c_runtime_id = 9,
      c_expected_payload_hash = canonical_hash ref_env (n_payload demo_operation),
      c_approver = approver_for_pin demo_pin, c_decision = Decision_Approved,
      c_reason = Some critical_confirmation,
      c_current_policy_revision = po_revision (capture_policy ref_env demo_pin default_safety), c_now = 2\<rparr>"
  have ok: "ledger_ok ref_env demo_critical_pending"
    by (rule reachable_ok [OF demo_critical_run(1) env_ok_ref_env])
  obtain row where row: "row \<in> set (db_operations demo_critical_pending)"
    "row_to_operation ref_env row = Inr ?rec"
  proof -
    have "fetch_operation_tx ref_env 1 demo_critical_pending = Inr ?rec"
      using demo_critical_run(2)
      by (auto simp: get_operation_def find_operation_def fetch_operation_tx_def transpose_opt_def
          rbind_eq_Inr ok_or_def split: option.splits sum.splits)
    then show thesis using fetch_row [OF ledger_ok_rows [OF ok]] that by metis
  qed
  have scope: "ensure_operation_scope ?rec demo_pin = Inr ()"
    by (simp add: ensure_operation_scope_def)
  have conf: "required_confirmation ?rec = Some critical_confirmation"
    by (simp add: required_confirmation_def)
  have exact: "exact_request ref_env demo_source demo_critical_request True demo_critical_pending
      = Inr \<lparr>ea_operation_id = 1, ea_expected_payload_hash = canonical_hash ref_env (n_payload demo_operation),
          ea_approver = approver_for_pin demo_pin,
          ea_current_policy_revision = po_revision (capture_policy ref_env demo_pin default_safety),
          ea_reason = Some critical_confirmation\<rparr>"
    using demo_critical_run(2) scope conf
    by (simp add: exact_request_def rt_get_def demo_source_def demo_critical_request_def guard_def)
  have "\<not> blank ''local-user''" by code_simp
  then have dec: "decidable_by ?rec ?c"
    by (simp add: decidable_by_def expired_at_def critical_confirmation_def max_request_bytes_def)
  have checks: "approval_row_checks (approval_row_of ref_env ?rec ?c 201)"
    using not_blank_nonempty [OF demo_revision(1)]
    by (simp add: approval_row_checks_def approval_row_of_def canonical_hash_eq env_ok_ref_env)
  have ins: "insert_approval_row (approval_row_of ref_env ?rec ?c 201) demo_critical_pending
      = Inr (demo_critical_pending\<lparr>db_approvals := [approval_row_of ref_env ?rec ?c 201]\<rparr>)"
    using checks rows_ok_id [OF ledger_ok_rows [OF ok] row] row(1)
    by (force simp: insert_approval_row_def demo_critical_events approval_row_of_def)
  have fits: "event_fits ref_env (o_id ?rec) (approval_details ref_env ?rec ?c 201) 103 demo_critical_pending"
  proof (rule demo_critical_fits)
    show "length (enc (approval_details ref_env ?rec ?c 201)) \<le> 1000"
      using length_ref_uuid [of 201] length_sha256_hex [OF env_ok_ref_env]
      by (simp add: approval_details_def length_enc_obj demo_revision canonical_hash_eq)
  qed (simp_all add: demo_critical_events)
  have "decide_approval ref_env ?c 201 103 demo_critical_pending
      = (Inr (moved_record Approved 2 ?rec), moved_ledger ref_env row ?rec Approved
         (approval_details ref_env ?rec ?c 201) 2 103
         (demo_critical_pending\<lparr>db_approvals := [approval_row_of ref_env ?rec ?c 201]\<rparr>))"
    using decide_succeeds [OF env_ok_ref_env ok row _ dec ins _ fits] by (simp add: rfc3339_range_def)
  then obtain receipt db' where run: "approve_local ref_env ?rt demo_source \<lparr>la_runtime_id = 9\<rparr>
       demo_critical_request 2 201 103 demo_critical_pending = (Inr receipt, db')"
    by (simp add: approve_local_def decide_local_def exact decide_with_authority_def
        ensure_local_approval_authority_def decide_exact_def)
  then show ?thesis
    using local_approval_is_exact [OF env_ok_ref_env demo_critical_run(1) run] by blast
qed

end
