(* ===== verification/Sql_Script.thy ===== *)
theory Sql_Script
  imports Database_Model
begin

text \<open>
  The statement splitter of \<^verbatim>\<open>src/src-tauri/src/sql_script/mod.rs\<close>. A script is its UTF-8
  bytes, and the scanning loops keep the source's index arithmetic. The reference is a lexer
  that cuts a script into quoted strings, comments, dollar blocks, semicolons and single bytes;
  the splitter is proved to return what lies between the semicolons of that token list.
\<close>

section \<open>The scanner\<close>

function skip_quoted :: "string \<Rightarrow> bool \<Rightarrow> char \<Rightarrow> nat \<Rightarrow> nat" where
  "skip_quoted bytes esc quote i =
     (if i < length bytes then
        if esc \<and> bytes ! i = CHR 0x5C \<and> i + 1 < length bytes then skip_quoted bytes esc quote (i + 2)
        else if bytes ! i = quote then
          if i + 1 < length bytes \<and> bytes ! (i + 1) = quote then skip_quoted bytes esc quote (i + 2)
          else i + 1
        else skip_quoted bytes esc quote (i + 1)
      else i)"
  by pat_completeness auto
termination by (relation "measure (\<lambda>(bytes, esc, quote, i). length bytes - i)") auto

function skip_line :: "string \<Rightarrow> nat \<Rightarrow> nat" where
  "skip_line bytes i = (if i < length bytes \<and> bytes ! i \<noteq> CHR 0x0A then skip_line bytes (i + 1) else i)"
  by pat_completeness auto
termination by (relation "measure (\<lambda>(bytes, i). length bytes - i)") auto

function skip_block_body :: "string \<Rightarrow> nat \<Rightarrow> nat" where
  "skip_block_body bytes i =
     (if i + 1 < length bytes \<and> \<not> (bytes ! i = CHR ''*'' \<and> bytes ! (i + 1) = CHR ''/'')
      then skip_block_body bytes (i + 1) else i)"
  by pat_completeness auto
termination by (relation "measure (\<lambda>(bytes, i). length bytes - i)") auto

definition skip_block :: "string \<Rightarrow> nat \<Rightarrow> nat" where
  "skip_block bytes i = min (skip_block_body bytes (i + 2) + 2) (length bytes)"

definition ascii_alphanumeric :: "char \<Rightarrow> bool" where
  "ascii_alphanumeric c \<longleftrightarrow>
     (let n = of_char c :: nat in (48 \<le> n \<and> n \<le> 57) \<or> (65 \<le> n \<and> n \<le> 90) \<or> (97 \<le> n \<and> n \<le> 122))"

definition tag_char :: "char \<Rightarrow> bool" where
  "tag_char c \<longleftrightarrow> ascii_alphanumeric c \<or> c = CHR ''_''"

function skip_tag :: "string \<Rightarrow> nat \<Rightarrow> nat" where
  "skip_tag bytes j = (if j < length bytes \<and> tag_char (bytes ! j) then skip_tag bytes (j + 1) else j)"
  by pat_completeness auto
termination by (relation "measure (\<lambda>(bytes, j). length bytes - j)") auto

definition dollar_tag_len :: "string \<Rightarrow> nat \<Rightarrow> nat option" where
  "dollar_tag_len bytes i =
     (let j = skip_tag bytes (i + 1)
      in if j < length bytes \<and> bytes ! j = CHR ''$'' then Some (j - i + 1) else None)"

function skip_dollar :: "string \<Rightarrow> string \<Rightarrow> nat \<Rightarrow> nat" where
  "skip_dollar bytes tag i =
     (if i < length bytes then
        if take (length tag) (drop i bytes) = tag then i + length tag
        else skip_dollar bytes tag (i + 1)
      else i)"
  by pat_completeness auto
termination by (relation "measure (\<lambda>(bytes, tag, i). length bytes - i)") auto

declare skip_quoted.simps [simp del] skip_line.simps [simp del] skip_block_body.simps [simp del]
  skip_tag.simps [simp del] skip_dollar.simps [simp del]

section \<open>Comments\<close>

text \<open>\<^verbatim>\<open>String::push(byte as char)\<close>: the UTF-8 encoding of the code point with the byte's number.\<close>

definition byte_as_char :: "char \<Rightarrow> string" where
  "byte_as_char c =
     (let n = of_char c :: nat
      in if n < 128 then [c] else [char_of (192 + n div 64 :: nat), char_of (128 + n mod 64 :: nat)])"

definition starts_line_comment :: "string \<Rightarrow> nat \<Rightarrow> bool" where
  "starts_line_comment bytes i \<longleftrightarrow>
     bytes ! i = CHR ''-'' \<and> i + 1 < length bytes \<and> bytes ! (i + 1) = CHR ''-''"

definition starts_block_comment :: "string \<Rightarrow> nat \<Rightarrow> bool" where
  "starts_block_comment bytes i \<longleftrightarrow>
     bytes ! i = CHR ''/'' \<and> i + 1 < length bytes \<and> bytes ! (i + 1) = CHR ''*''"

lemma skip_quoted_ge: "i \<le> skip_quoted bytes esc quote i"
  by (induction bytes esc quote i rule: skip_quoted.induct)
    (subst skip_quoted.simps, auto)

lemma skip_quoted_le: "i \<le> length bytes \<Longrightarrow> skip_quoted bytes esc quote i \<le> length bytes"
  by (induction bytes esc quote i rule: skip_quoted.induct)
    (subst skip_quoted.simps, auto)

lemma skip_line_ge: "i \<le> skip_line bytes i"
  by (induction bytes i rule: skip_line.induct) (subst skip_line.simps, auto)

lemma skip_block_body_ge: "i \<le> skip_block_body bytes i"
  by (induction bytes i rule: skip_block_body.induct) (subst skip_block_body.simps, auto)

lemma skip_dollar_ge: "i \<le> skip_dollar bytes tag i"
  by (induction bytes tag i rule: skip_dollar.induct) (subst skip_dollar.simps, auto)

lemma skip_line_comment: "starts_line_comment bytes i \<Longrightarrow> i < skip_line bytes i"
  using skip_line_ge [of "i + 1" bytes]
  by (subst skip_line.simps) (auto simp: starts_line_comment_def)

lemma skip_block_comment:
  assumes "starts_block_comment bytes i"
  shows "i < skip_block bytes i"
  using assms skip_block_body_ge [of "i + 2" bytes]
  by (auto simp: skip_block_def starts_block_comment_def)

function strip_comments_from :: "string \<Rightarrow> nat \<Rightarrow> string" where
  "strip_comments_from bytes i =
     (if i < length bytes then
        if starts_line_comment bytes i then strip_comments_from bytes (skip_line bytes i)
        else if starts_block_comment bytes i then strip_comments_from bytes (skip_block bytes i)
        else byte_as_char (bytes ! i) @ strip_comments_from bytes (i + 1)
      else [])"
  by pat_completeness auto
termination
proof (relation "measure (\<lambda>(bytes, i). length bytes - i)", goal_cases)
  case (2 bytes i)
  then show ?case using skip_line_comment [of bytes i] by auto
next
  case (3 bytes i)
  then show ?case using skip_block_comment [of bytes i] by auto
qed auto

declare strip_comments_from.simps [simp del]

definition strip_comments :: "string \<Rightarrow> string" where
  "strip_comments sql = strip_comments_from sql 0"

definition is_effective :: "string \<Rightarrow> bool" where
  "is_effective statement \<longleftrightarrow> trim (strip_comments statement) \<noteq> []"

definition push_statement :: "string list \<Rightarrow> string \<Rightarrow> string list" where
  "push_statement out raw =
     (let statement = trim raw
      in if statement \<noteq> [] \<and> is_effective statement then out @ [statement] else out)"

section \<open>The splitter\<close>

text \<open>Where the scanner goes from position \<open>i\<close>, unless it is at a semicolon.\<close>

definition next_position :: "bool \<Rightarrow> string \<Rightarrow> nat \<Rightarrow> nat" where
  "next_position esc bytes i =
     (let c = bytes ! i in
      if c = CHR 0x27 \<or> c = CHR 0x22 then skip_quoted bytes esc c (i + 1)
      else if starts_line_comment bytes i then skip_line bytes i
      else if starts_block_comment bytes i then skip_block bytes i
      else if c = CHR ''$'' then
        (case dollar_tag_len bytes i of
           Some len \<Rightarrow> skip_dollar bytes (take len (drop i bytes)) (i + len)
         | None \<Rightarrow> i + 1)
      else i + 1)"

lemma next_position_gt: "i < next_position esc bytes i"
proof -
  have quoted: "i < skip_quoted bytes esc c (Suc i)" for c
    using skip_quoted_ge [of "Suc i" bytes esc c] by simp
  have dollar: "i < skip_dollar bytes tag j" if "i < j" for tag j
    using that skip_dollar_ge [of j bytes tag] by simp
  have "i < i + len" if "dollar_tag_len bytes i = Some len" for len
    using that by (auto simp: dollar_tag_len_def Let_def split: if_splits)
  then show ?thesis
    using quoted dollar skip_line_comment [of bytes i] skip_block_comment [of bytes i]
    by (auto simp: next_position_def Let_def split: option.split)
qed

function split_loop :: "bool \<Rightarrow> string \<Rightarrow> nat \<Rightarrow> nat \<Rightarrow> string list \<Rightarrow> string list" where
  "split_loop esc bytes start i out =
     (if i < length bytes then
        if bytes ! i = CHR '';''
        then split_loop esc bytes (i + 1) (i + 1) (push_statement out (take (i - start) (drop start bytes)))
        else split_loop esc bytes start (next_position esc bytes i) out
      else push_statement out (drop start bytes))"
  by pat_completeness auto
termination
  by (relation "measure (\<lambda>(esc, bytes, start, i, out). length bytes - i)")
    (auto intro: diff_less_mono2 next_position_gt)

declare split_loop.simps [simp del]

definition split_statements_impl :: "string \<Rightarrow> bool \<Rightarrow> string list" where
  "split_statements_impl sql backslash_escapes = split_loop backslash_escapes sql 0 0 []"

definition split_statements :: "string \<Rightarrow> engine \<Rightarrow> string list" where
  "split_statements sql eng = split_statements_impl sql (eng = Mysql)"

section \<open>The reference lexer\<close>

text \<open>
  The reference reads the remaining text only, by recursion on it. \<open>token_len\<close> is the length of
  the quoted string, comment or dollar block that starts the text, and 1 for anything else. A
  token that is not closed runs to the end.
\<close>

fun quoted_len :: "bool \<Rightarrow> char \<Rightarrow> string \<Rightarrow> nat" where
  "quoted_len esc q [] = 0"
| "quoted_len esc q [c] = 1"
| "quoted_len esc q (c # d # cs) =
     (if esc \<and> c = CHR 0x5C \<or> c = q \<and> d = q then 2 + quoted_len esc q cs
      else if c = q then 1 else 1 + quoted_len esc q (d # cs))"

fun comment_body_len :: "string \<Rightarrow> nat" where
  "comment_body_len (c # d # cs) =
     (if c = CHR ''*'' \<and> d = CHR ''/'' then 0 else 1 + comment_body_len (d # cs))"
| "comment_body_len cs = 0"

fun closing_len :: "string \<Rightarrow> string \<Rightarrow> nat" where
  "closing_len tag [] = 0"
| "closing_len tag (c # cs) = (if prefix tag (c # cs) then length tag else 1 + closing_len tag cs)"

fun token_len :: "bool \<Rightarrow> string \<Rightarrow> nat" where
  "token_len esc [] = 0"
| "token_len esc (c # cs) =
     (if c = CHR 0x27 \<or> c = CHR 0x22 then 1 + quoted_len esc c cs
      else if prefix ''--'' (c # cs) then length (takeWhile (\<lambda>d. d \<noteq> CHR 0x0A) (c # cs))
      else if prefix ''/*'' (c # cs) then min (4 + comment_body_len (tl cs)) (length (c # cs))
      else if c = CHR ''$'' \<and> prefix ''$'' (dropWhile tag_char cs)
        then let n = length (takeWhile tag_char cs) + 2
             in n + closing_len (take n (c # cs)) (drop n (c # cs))
      else 1)"

datatype token = Separator | Chunk string

fun token_text :: "token \<Rightarrow> string" where
  "token_text Separator = '';''"
| "token_text (Chunk s) = s"

lemma token_len_pos: "0 < token_len esc (c # cs)"
  by (auto simp: Let_def)

function tokenize :: "bool \<Rightarrow> string \<Rightarrow> token list" where
  "tokenize esc [] = []"
| "tokenize esc (c # cs) =
     (if c = CHR '';'' then Separator # tokenize esc cs
      else Chunk (take (token_len esc (c # cs)) (c # cs)) #
        tokenize esc (drop (token_len esc (c # cs)) (c # cs)))"
  by pat_completeness auto
termination
proof (relation "measure (\<lambda>(esc, s). length s)", goal_cases)
  case (3 esc c cs)
  then show ?case using token_len_pos [of esc c cs] by simp
qed auto

declare token_len.simps [simp del] tokenize.simps [simp del]

text \<open>The texts between the separators.\<close>

fun pieces :: "token list \<Rightarrow> string list" where
  "pieces [] = [[]]"
| "pieces (Separator # ts) = [] # pieces ts"
| "pieces (Chunk s # ts) = (s @ hd (pieces ts)) # tl (pieces ts)"

lemma tokenize_lossless: "concat (map token_text (tokenize esc s)) = s"
  by (induction esc s rule: tokenize.induct) (simp_all add: tokenize.simps)

lemma pieces_nonempty [simp]: "pieces ts \<noteq> []"
  by (cases ts rule: pieces.cases) simp_all

section \<open>The scanner reads the tokens of the reference\<close>

lemma drop_two: "Suc i < length xs \<Longrightarrow> drop i xs = xs ! i # xs ! Suc i # drop (Suc (Suc i)) xs"
  by (simp add: Cons_nth_drop_Suc)

lemma drop_last_one: "i < length xs \<Longrightarrow> \<not> Suc i < length xs \<Longrightarrow> drop i xs = [xs ! i]"
  by (simp add: Cons_nth_drop_Suc [symmetric])

lemma skip_at_end [simp]:
  "skip_quoted bytes esc q (length bytes) = length bytes"
  "skip_line bytes (length bytes) = length bytes"
  "skip_tag bytes (length bytes) = length bytes"
  "skip_block_body bytes (length bytes) = length bytes"
  "skip_dollar bytes tag (length bytes) = length bytes"
  by (simp_all add: skip_quoted.simps skip_line.simps skip_tag.simps skip_block_body.simps
      skip_dollar.simps)

lemma skip_quoted_len:
  "i \<le> length bytes \<Longrightarrow> skip_quoted bytes esc q i = i + quoted_len esc q (drop i bytes)"
proof (induction bytes esc q i rule: skip_quoted.induct)
  case (1 bytes esc q i)
  consider "i = length bytes" | "i < length bytes" "\<not> Suc i < length bytes" | "Suc i < length bytes"
    using 1 by linarith
  then show ?case
  proof cases
    case 1
    then show ?thesis by (simp add: skip_quoted.simps)
  next
    case 2
    then show ?thesis
      by (simp add: skip_quoted.simps [of bytes esc q i] skip_quoted.simps [of bytes esc q "Suc i"]
          drop_last_one)
  next
    case 3
    then have d: "drop (Suc i) bytes = bytes ! Suc i # drop (Suc (Suc i)) bytes"
      by (simp add: Cons_nth_drop_Suc)
    show ?thesis
      using 3 1 d by (simp add: skip_quoted.simps [of bytes esc q i] drop_two)
  qed
qed

lemma skip_line_len:
  "i \<le> length bytes \<Longrightarrow>
   skip_line bytes i = i + length (takeWhile (\<lambda>d. d \<noteq> CHR 0x0A) (drop i bytes))"
proof (induction bytes i rule: skip_line.induct)
  case (1 bytes i)
  then show ?case
    by (cases "i < length bytes")
      (auto simp: skip_line.simps [of bytes i] Cons_nth_drop_Suc [symmetric])
qed

lemma skip_tag_len:
  "i \<le> length bytes \<Longrightarrow> skip_tag bytes i = i + length (takeWhile tag_char (drop i bytes))"
proof (induction bytes i rule: skip_tag.induct)
  case (1 bytes i)
  then show ?case
    by (cases "i < length bytes")
      (auto simp: skip_tag.simps [of bytes i] Cons_nth_drop_Suc [symmetric])
qed

lemma skip_block_body_len:
  "i \<le> length bytes \<Longrightarrow>
   min (skip_block_body bytes i + 2) (length bytes) =
   min (i + 2 + comment_body_len (drop i bytes)) (length bytes)"
proof (induction bytes i rule: skip_block_body.induct)
  case (1 bytes i)
  consider "i = length bytes" | "i < length bytes" "\<not> Suc i < length bytes" | "Suc i < length bytes"
    using 1 by linarith
  then show ?case
  proof cases
    case 3
    then have d: "drop (Suc i) bytes = bytes ! Suc i # drop (Suc (Suc i)) bytes"
      by (simp add: Cons_nth_drop_Suc)
    show ?thesis
      using 3 1 d by (simp add: skip_block_body.simps [of bytes i] drop_two)
  qed (auto simp: skip_block_body.simps [of bytes i] drop_last_one)
qed

lemma skip_dollar_len:
  "i \<le> length bytes \<Longrightarrow> skip_dollar bytes tag i = i + closing_len tag (drop i bytes)"
proof (induction bytes tag i rule: skip_dollar.induct)
  case (1 bytes tag i)
  have "take (length tag) (drop i bytes) = tag \<longleftrightarrow> prefix tag (drop i bytes)"
    by (metis append_eq_conv_conj prefix_def append_take_drop_id)
  then show ?case
    using 1 by (cases "i < length bytes")
      (auto simp: skip_dollar.simps [of bytes tag i] Cons_nth_drop_Suc [symmetric])
qed

lemma prefix_two: "prefix [x, y] (c # cs) \<longleftrightarrow> c = x \<and> cs \<noteq> [] \<and> hd cs = y"
  by (cases cs) auto

lemma prefix_one: "prefix [x] cs \<longleftrightarrow> cs \<noteq> [] \<and> hd cs = x"
  by (cases cs) auto

lemma dollar_tag_len_iff:
  assumes "i < length bytes"
  shows "dollar_tag_len bytes i =
    (if prefix ''$'' (dropWhile tag_char (drop (Suc i) bytes))
     then Some (length (takeWhile tag_char (drop (Suc i) bytes)) + 2) else None)"
proof -
  let ?k = "length (takeWhile tag_char (drop (Suc i) bytes))"
  have "dropWhile tag_char (drop (Suc i) bytes) = drop (Suc i + ?k) bytes"
    by (metis add.commute drop_drop dropWhile_eq_drop)
  moreover have "drop (Suc i + ?k) bytes \<noteq> [] \<and> hd (drop (Suc i + ?k) bytes) = c \<longleftrightarrow>
      Suc i + ?k < length bytes \<and> bytes ! (Suc i + ?k) = c" for c
    using hd_drop_conv_nth [of "Suc i + ?k" bytes] by auto
  ultimately show ?thesis
    using assms by (simp add: dollar_tag_len_def Let_def skip_tag_len prefix_one)
qed

lemma next_position_len:
  assumes "i < length bytes"
  shows "next_position esc bytes i = i + token_len esc (drop i bytes)"
proof -
  have d: "drop i bytes = bytes ! i # drop (Suc i) bytes"
    using assms by (simp add: Cons_nth_drop_Suc)
  have two: "prefix [x, y] (bytes ! i # drop (Suc i) bytes) \<longleftrightarrow>
      bytes ! i = x \<and> Suc i < length bytes \<and> bytes ! Suc i = y" for x y
    using hd_drop_conv_nth [of "Suc i" bytes] by (auto simp: prefix_two simp del: prefix_Cons Cons_prefix_Cons)
  have line: "prefix ''--'' (bytes ! i # drop (Suc i) bytes) \<longleftrightarrow> starts_line_comment bytes i"
    and block: "prefix ''/*'' (bytes ! i # drop (Suc i) bytes) \<longleftrightarrow> starts_block_comment bytes i"
    unfolding two by (auto simp: starts_line_comment_def starts_block_comment_def)
  have body: "skip_block bytes i =
      i + min (4 + comment_body_len (drop (Suc (Suc i)) bytes)) (length bytes - i)"
    if "starts_block_comment bytes i"
  proof -
    have "skip_block bytes i =
        min (Suc (Suc i) + 2 + comment_body_len (drop (Suc (Suc i)) bytes)) (length bytes)"
      using that skip_block_body_len [of "Suc (Suc i)" bytes]
      by (simp add: skip_block_def starts_block_comment_def)
    then show ?thesis using assms by linarith
  qed
  have tag: "skip_dollar bytes (take (Suc (Suc k)) (drop i bytes)) (Suc (Suc (i + k))) =
      Suc (Suc (i + k)) + closing_len (take (Suc (Suc k)) (drop i bytes)) (drop (Suc (Suc (i + k))) bytes)"
    if "Suc (Suc (i + k)) \<le> length bytes" for k
    using that by (rule skip_dollar_len)
  have tag_end: "Suc (Suc (i + length (takeWhile tag_char (drop (Suc i) bytes)))) \<le> length bytes"
    if "prefix ''$'' (dropWhile tag_char (drop (Suc i) bytes))"
  proof -
    have "0 < length (dropWhile tag_char (drop (Suc i) bytes))"
      using that by (cases "dropWhile tag_char (drop (Suc i) bytes)") simp_all
    moreover have "length (takeWhile tag_char (drop (Suc i) bytes)) +
        length (dropWhile tag_char (drop (Suc i) bytes)) = length bytes - Suc i"
      by (metis length_append length_drop takeWhile_dropWhile_id)
    ultimately show ?thesis by linarith
  qed
  show ?thesis
  proof (cases "bytes ! i = CHR 0x27 \<or> bytes ! i = CHR 0x22")
    case True
    then show ?thesis
      using assms by (simp add: d next_position_def token_len.simps skip_quoted_len)
  next
    case nq: False
    show ?thesis
    proof (cases "starts_line_comment bytes i \<or> starts_block_comment bytes i")
      case True
      then consider "starts_line_comment bytes i"
        | "\<not> starts_line_comment bytes i" "starts_block_comment bytes i" by blast
      then show ?thesis
      proof cases
        case 1
        then show ?thesis
          unfolding d token_len.simps next_position_def Let_def line
          using nq assms skip_line_len [of i bytes] by (simp add: d)
      next
        case 2
        have "min (4 + comment_body_len (tl (drop (Suc i) bytes))) (length (bytes ! i # drop (Suc i) bytes)) =
            min (4 + comment_body_len (drop (Suc (Suc i)) bytes)) (length bytes - i)"
          using assms by (simp add: tl_drop drop_Suc Suc_diff_Suc)
        with 2 show ?thesis
          unfolding d token_len.simps next_position_def Let_def line block
          using nq assms body by simp
      qed
    next
      case False
      show ?thesis
      proof (cases "bytes ! i = CHR ''$'' \<and> prefix ''$'' (dropWhile tag_char (drop (Suc i) bytes))")
        case True
        with False nq assms tag [OF tag_end] show ?thesis
          unfolding d token_len.simps next_position_def Let_def line block
          by (simp add: dollar_tag_len_iff d add.commute)
      next
        case other: False
        with False nq assms show ?thesis
          unfolding d token_len.simps next_position_def Let_def line block
          by (auto simp: dollar_tag_len_iff)
      qed
    qed
  qed
qed

section \<open>The splitter returns the reference's statements\<close>

lemma trim_Nil [simp]: "trim [] = []"
  by (simp add: trim_def trim_start_def trim_end_def)

lemma is_effective_Nil [simp]: "\<not> is_effective []"
  by (simp add: is_effective_def strip_comments_def strip_comments_from.simps [of "[]"])

lemma push_statement_filter:
  "push_statement out raw = out @ filter is_effective [trim raw]"
  by (cases "trim raw = []") (simp_all add: push_statement_def)

lemma split_loop_reference:
  assumes "start \<le> i"
  shows "split_loop esc bytes start i out =
    out @ filter is_effective (map trim
      ((take (i - start) (drop start bytes) @ hd (pieces (tokenize esc (drop i bytes)))) #
       tl (pieces (tokenize esc (drop i bytes)))))"
  using assms
proof (induction esc bytes start i out rule: split_loop.induct)
  case (1 esc bytes start i out)
  show ?case
  proof (cases "i < length bytes")
    case False
    with "1.prems" show ?thesis
      by (simp add: split_loop.simps [of esc bytes start i] push_statement_filter tokenize.simps)
  next
    case inside: True
    then have d: "drop i bytes = bytes ! i # drop (Suc i) bytes"
      by (simp add: Cons_nth_drop_Suc)
    show ?thesis
    proof (cases "bytes ! i = CHR '';''")
      case True
      then show ?thesis
        using "1.IH"(1) inside "1.prems"
        by (simp add: split_loop.simps [of esc bytes start i] d tokenize.simps push_statement_filter)
    next
      case False
      let ?n = "token_len esc (drop i bytes)"
      have step: "next_position esc bytes i = i + ?n"
        using inside by (rule next_position_len)
      have cut: "take (i + ?n - start) (drop start bytes) =
          take (i - start) (drop start bytes) @ take ?n (drop i bytes)"
        using "1.prems"(1) take_add [of "i - start" ?n "drop start bytes"] by simp
      have "tokenize esc (drop i bytes) =
          Chunk (take ?n (drop i bytes)) # tokenize esc (drop ?n (drop i bytes))"
        using False unfolding d tokenize.simps by simp
      then have "tokenize esc (drop i bytes) =
          Chunk (take ?n (drop i bytes)) # tokenize esc (drop (i + ?n) bytes)"
        by (simp add: add.commute)
      then show ?thesis
        using "1.IH"(2) inside "1.prems" False step cut
        by (simp add: split_loop.simps [of esc bytes start i])
    qed
  qed
qed

text \<open>Every token is a separator, or starts with no semicolon and covers one lexical element.\<close>

lemma tokenize_chunk_head:
  "Chunk c \<in> set (tokenize esc s) \<Longrightarrow> c \<noteq> [] \<and> hd c \<noteq> CHR '';''"
proof (induction esc s rule: tokenize.induct)
  case (2 esc c cs)
  then show ?case
    using token_len_pos [of esc c cs] by (auto simp: tokenize.simps take_Cons' split: if_splits)
qed (simp add: tokenize.simps)

text \<open>
  C30. The splitter returns exactly the statements of the reference: the script is cut into
  lexical elements that together are the whole script, a semicolon separates statements only
  where it starts a lexical element of its own, never inside a quoted string, a comment or a
  dollar block, and the trimmed pieces that hold more than comments are returned in order.
  Backslash escapes are honoured for MySQL only.
\<close>

theorem split_is_reference:
  "split_statements sql eng =
     filter is_effective (map trim (pieces (tokenize (eng = Mysql) sql))) \<and>
   concat (map token_text (tokenize (eng = Mysql) sql)) = sql \<and>
   (Chunk c \<in> set (tokenize (eng = Mysql) sql) \<longrightarrow> c \<noteq> [] \<and> hd c \<noteq> CHR '';'')"
proof -
  have "hd (pieces ts) # tl (pieces ts) = pieces ts" for ts
    by (rule list.collapse) simp
  then have "split_statements sql eng =
      filter is_effective (map trim (pieces (tokenize (eng = Mysql) sql)))"
    by (simp add: split_statements_def split_statements_impl_def split_loop_reference
        del: filter.simps list.map)
  then show ?thesis
    by (simp add: tokenize_lossless tokenize_chunk_head)
qed

text \<open>A semicolon in a string, a comment and a dollar block; a trailing comment is no statement.\<close>

definition example_script :: string where
  "example_script = ''a '' @ [CHR 0x27, CHR '';'', CHR 0x27] @ ''; b/*;*/;$t$;$t$ ;--;''"

lemma split_is_reference_witness:
  "split_statements example_script Postgres =
     [''a '' @ [CHR 0x27, CHR '';'', CHR 0x27], ''b/*;*/'', ''$t$;$t$''] \<and>
   Chunk ''/*;*/'' \<in> set (tokenize False example_script) \<and> hd ''/*;*/'' \<noteq> CHR '';''"
proof -
  have "Chunk ''/*;*/'' \<in> set (tokenize False example_script)"
    by code_simp
  moreover have "filter is_effective (map trim (pieces (tokenize False example_script))) =
      [''a '' @ [CHR 0x27, CHR '';'', CHR 0x27], ''b/*;*/'', ''$t$;$t$'']"
    by code_simp
  ultimately show ?thesis
    using split_is_reference [of example_script Postgres "''/*;*/''"] by simp
qed

end
