(* ===== verification/Sql_Classify.thy ===== *)
theory Sql_Classify
  imports Database_Model
begin

text \<open>
  Layer 1 of the safety engine, \<^verbatim>\<open>src/src-tauri/src/safety/l1_parse.rs\<close>. The parser is the
  \<^verbatim>\<open>sqlparser\<close> crate: it is the parameter \<open>parse_sql\<close>, and its syntax trees are the datatypes
  below, with one constructor for every shape the code matches on and one for all the others.
  \<open>occurs\<close> is the reference: which set expressions a query holds, through its common table
  expressions, subqueries and set operations.
\<close>

section \<open>Syntax trees\<close>

datatype statement =
    Stmt_Query query
  | Stmt_Explain (explain_analyze: bool) statement
  | Stmt_Insert "query option"
  | Stmt_Update table_with_joins (update_selection: bool)
  | Stmt_Delete "table_with_joins list" (delete_selection: bool)
  | Stmt_CreateTable | Stmt_CreateIndex | Stmt_CreateView | Stmt_CreateSchema
  | Stmt_CreateDatabase | Stmt_AlterTable | Stmt_Drop | Stmt_Truncate
  | Stmt_Grant | Stmt_Revoke
  | Stmt_Other
and query = Query (cte_tables: "query list") (query_body: set_expr) (query_locks: "nat")
and set_expr =
    Set_Select (select_into: bool) "table_with_joins list"
  | Set_Query query
  | Set_Operation set_expr set_expr
  | Set_Insert statement
  | Set_Update statement
  | Set_Other
and table_with_joins = Table_With_Joins table_factor "table_factor list"
and table_factor = Factor_Table string | Factor_Derived query | Factor_Other

datatype dialect = PostgreSqlDialect | MySqlDialect | SQLiteDialect

fun dialect_for :: "engine \<Rightarrow> dialect option" where
  "dialect_for Postgres = Some PostgreSqlDialect"
| "dialect_for Mysql = Some MySqlDialect"
| "dialect_for Sqlite = Some SQLiteDialect"
| "dialect_for Mongodb = None"

section \<open>Classification of one statement\<close>

fun query_has_dml :: "query \<Rightarrow> bool"
  and setexpr_has_dml :: "set_expr \<Rightarrow> bool" where
  "query_has_dml (Query ctes body locks) = (list_ex query_has_dml ctes \<or> setexpr_has_dml body)"
| "setexpr_has_dml (Set_Insert s) = True"
| "setexpr_has_dml (Set_Update s) = True"
| "setexpr_has_dml (Set_Query q) = query_has_dml q"
| "setexpr_has_dml (Set_Operation l r) = (setexpr_has_dml l \<or> setexpr_has_dml r)"
| "setexpr_has_dml (Set_Select into from) = False"
| "setexpr_has_dml Set_Other = False"

fun query_selects_into :: "query \<Rightarrow> bool" where
  "query_selects_into (Query ctes (Set_Select into from) locks) = into"
| "query_selects_into (Query ctes body locks) = False"

fun short_kind :: "statement \<Rightarrow> string" where
  "short_kind (Stmt_Query q) = ''Query''"
| "short_kind (Stmt_Insert s) = ''Insert''"
| "short_kind (Stmt_Update t w) = ''Update''"
| "short_kind (Stmt_Delete t w) = ''Delete''"
| "short_kind s = ''Other''"

text \<open>The UTF-8 encoding of the dash that the messages use, between two spaces.\<close>

definition dash :: string where
  "dash = [CHR 0x20, CHR 0xE2, CHR 0x80, CHR 0x94, CHR 0x20]"

fun classify_stmt :: "statement \<Rightarrow> string list \<Rightarrow> bool \<Rightarrow> query_kind \<times> string list \<times> bool" where
  "classify_stmt (Stmt_Query q) notes no_where =
     (if query_has_dml q
      then (Write, notes @ [''write DML inside a CTE'' @ dash @ ''reclassified as a write''], no_where)
      else if query_selects_into q
      then (Write,
        notes @ [''SELECT ... INTO creates a table'' @ dash @ ''reclassified as a write''], no_where)
      else if query_locks q \<noteq> 0
      then (Write,
        notes @ [''SELECT ... FOR UPDATE/SHARE takes row locks'' @ dash @ ''reclassified as a write''],
        no_where)
      else (Read, notes, no_where))"
| "classify_stmt (Stmt_Explain analyze statement) notes no_where =
     (if analyze
      then classify_stmt statement
        (notes @ [''EXPLAIN ANALYZE executes the statement'' @ dash @
           ''classified by its inner statement'']) no_where
      else (Read, notes, no_where))"
| "classify_stmt (Stmt_Insert src) notes no_where = (Write, notes, no_where)"
| "classify_stmt (Stmt_Update target selection) notes no_where = (Write, notes, \<not> selection)"
| "classify_stmt (Stmt_Delete targets selection) notes no_where = (Write, notes, \<not> selection)"
| "classify_stmt Stmt_CreateTable notes no_where = (Ddl, notes, no_where)"
| "classify_stmt Stmt_CreateIndex notes no_where = (Ddl, notes, no_where)"
| "classify_stmt Stmt_CreateView notes no_where = (Ddl, notes, no_where)"
| "classify_stmt Stmt_CreateSchema notes no_where = (Ddl, notes, no_where)"
| "classify_stmt Stmt_CreateDatabase notes no_where = (Ddl, notes, no_where)"
| "classify_stmt Stmt_AlterTable notes no_where = (Ddl, notes, no_where)"
| "classify_stmt Stmt_Drop notes no_where = (Ddl, notes, no_where)"
| "classify_stmt Stmt_Truncate notes no_where = (Ddl, notes, no_where)"
| "classify_stmt Stmt_Grant notes no_where = (Privilege, notes, no_where)"
| "classify_stmt Stmt_Revoke notes no_where = (Privilege, notes, no_where)"
| "classify_stmt Stmt_Other notes no_where =
     (Write, notes @ [''unrecognized statement shape'' @ dash @
        ''treated as a write (fail-safe): '' @ short_kind Stmt_Other], no_where)"

section \<open>Table collection\<close>

text \<open>The names are appended to \<open>out\<close> in the order of the walk.\<close>

function (sequential) collect_tables :: "statement \<Rightarrow> string list \<Rightarrow> string list"
  and walk_query :: "query \<Rightarrow> string list \<Rightarrow> string list"
  and walk_setexpr :: "set_expr \<Rightarrow> string list \<Rightarrow> string list"
  and walk_twj :: "table_with_joins \<Rightarrow> string list \<Rightarrow> string list"
  and walk_tf :: "table_factor \<Rightarrow> string list \<Rightarrow> string list" where
  "collect_tables (Stmt_Query q) out = walk_query q out"
| "collect_tables (Stmt_Update target selection) out = walk_twj target out"
| "collect_tables (Stmt_Delete targets selection) out = fold walk_twj targets out"
| "collect_tables (Stmt_Insert (Some src)) out = walk_query src out"
| "collect_tables s out = out"
| "walk_query (Query ctes body locks) out = walk_setexpr body (fold walk_query ctes out)"
| "walk_setexpr (Set_Select into from) out = fold walk_twj from out"
| "walk_setexpr (Set_Query q) out = walk_query q out"
| "walk_setexpr (Set_Operation l r) out = walk_setexpr r (walk_setexpr l out)"
| "walk_setexpr (Set_Insert s) out = collect_tables s out"
| "walk_setexpr (Set_Update s) out = collect_tables s out"
| "walk_setexpr Set_Other out = out"
| "walk_twj (Table_With_Joins relation joins) out = fold walk_tf joins (walk_tf relation out)"
| "walk_tf (Factor_Table name) out = out @ [name]"
| "walk_tf (Factor_Derived q) out = walk_query q out"
| "walk_tf Factor_Other out = out"
  by pat_completeness auto
termination by size_change

fun dedup_from :: "string list \<Rightarrow> string list \<Rightarrow> string list" where
  "dedup_from seen [] = []"
| "dedup_from seen (t # ts) =
     (if t \<in> set seen then dedup_from seen ts else t # dedup_from (t # seen) ts)"

definition dedup :: "string list \<Rightarrow> string list" where
  "dedup v = dedup_from [] v"

section \<open>Classification of a script\<close>

definition fail_safe :: "string \<Rightarrow> classification" where
  "fail_safe note =
     \<lparr>cl_kind = Write, cl_risk = High, cl_statement_count = 1, cl_no_where = False,
      cl_tables = [], cl_notes = [note], cl_rollback_safe = False\<rparr>"

definition risk_of :: "query_kind \<Rightarrow> bool \<Rightarrow> risk_level" where
  "risk_of kind no_where =
     (case kind of
        Read \<Rightarrow> Low
      | Write \<Rightarrow> (if no_where then High else Medium)
      | Ddl \<Rightarrow> High
      | Privilege \<Rightarrow> High)"

fun direct_dml :: "statement \<Rightarrow> bool" where
  "direct_dml (Stmt_Insert src) = True"
| "direct_dml (Stmt_Update target selection) = True"
| "direct_dml (Stmt_Delete targets selection) = True"
| "direct_dml s = False"

definition classify_single :: "statement \<Rightarrow> classification" where
  "classify_single stmt =
     (let (kind, notes, no_where) = classify_stmt stmt [] False
      in \<lparr>cl_kind = kind, cl_risk = risk_of kind no_where, cl_statement_count = 1,
          cl_no_where = no_where, cl_tables = dedup (collect_tables stmt []),
          cl_notes = notes @
            (if no_where
             then [''UPDATE/DELETE without a WHERE clause'' @ dash @ ''affects every row'']
             else []),
          cl_rollback_safe = direct_dml stmt\<rparr>)"

text \<open>The number of statements is kept in 32 bits.\<close>

definition classify_many :: "statement list \<Rightarrow> classification" where
  "classify_many statements =
     \<lparr>cl_kind = Write, cl_risk = High, cl_statement_count = length statements mod 2 ^ 32,
      cl_no_where = False, cl_tables = dedup (fold collect_tables statements []),
      cl_notes = [dec_nat (length statements) @ '' statements found'' @ dash @
        ''only single statements are allowed''],
      cl_rollback_safe = False\<rparr>"

definition classify ::
  "(dialect \<Rightarrow> string \<Rightarrow> string + statement list) \<Rightarrow> string \<Rightarrow> engine \<Rightarrow> classification app_result" where
  "classify parse_sql sql eng =
     (case dialect_for eng of
        None \<Rightarrow> Inr (fail_safe ''MongoDB document operations must use the typed document-query API'')
      | Some dialect \<Rightarrow>
          (case parse_sql dialect sql of
             Inl e \<Rightarrow>
               Inr (fail_safe (''parse error'' @ dash @ ''treated as a write (fail-safe): '' @ e))
           | Inr statements \<Rightarrow>
               (case statements of
                  [] \<Rightarrow>
                    Inr (fail_safe (''no parseable statement'' @ dash @
                      ''treated as a write (fail-safe)''))
                | [stmt] \<Rightarrow> Inr (classify_single stmt)
                | _ \<Rightarrow> Inr (classify_many statements))))"

section \<open>What a read is\<close>

text \<open>\<open>occurs q e\<close>: the query \<open>q\<close> holds the set expression \<open>e\<close>.\<close>

inductive occurs :: "query \<Rightarrow> set_expr \<Rightarrow> bool"
  and occurs_in :: "set_expr \<Rightarrow> set_expr \<Rightarrow> bool" where
  occurs_body: "occurs_in body e \<Longrightarrow> occurs (Query ctes body locks) e"
| occurs_cte: "c \<in> set ctes \<Longrightarrow> occurs c e \<Longrightarrow> occurs (Query ctes body locks) e"
| occurs_self: "occurs_in e e"
| occurs_subquery: "occurs q e \<Longrightarrow> occurs_in (Set_Query q) e"
| occurs_left: "occurs_in l e \<Longrightarrow> occurs_in (Set_Operation l r) e"
| occurs_right: "occurs_in r e \<Longrightarrow> occurs_in (Set_Operation l r) e"

inductive_simps occurs_simps [simp]: "occurs (Query ctes body locks) e"
inductive_simps occurs_in_simps [simp]:
  "occurs_in (Set_Select into from) e"
  "occurs_in (Set_Query q) e"
  "occurs_in (Set_Operation l r) e"
  "occurs_in (Set_Insert s) e"
  "occurs_in (Set_Update s) e"
  "occurs_in Set_Other e"

fun is_write_node :: "set_expr \<Rightarrow> bool" where
  "is_write_node (Set_Insert s) = True"
| "is_write_node (Set_Update s) = True"
| "is_write_node e = False"

text \<open>
  A statement that only reads: a plain \<^verbatim>\<open>EXPLAIN\<close>, a query with no \<^verbatim>\<open>INSERT\<close> or \<^verbatim>\<open>UPDATE\<close>
  anywhere, no \<^verbatim>\<open>INTO\<close> target and no row locks, or an \<^verbatim>\<open>EXPLAIN ANALYZE\<close> of such a statement.
\<close>

inductive only_reads :: "statement \<Rightarrow> bool" where
  reads_plan: "only_reads (Stmt_Explain False s)"
| reads_analyze: "only_reads s \<Longrightarrow> only_reads (Stmt_Explain True s)"
| reads_query:
    "(\<And>e. occurs q e \<Longrightarrow> \<not> is_write_node e) \<Longrightarrow> (\<And>from. query_body q \<noteq> Set_Select True from) \<Longrightarrow>
     query_locks q = 0 \<Longrightarrow> only_reads (Stmt_Query q)"

inductive_simps only_reads_query: "only_reads (Stmt_Query q)"
inductive_simps only_reads_explain: "only_reads (Stmt_Explain a s)"
inductive_cases only_reads_other: "only_reads s"

lemma query_has_dml_occurs:
  "query_has_dml q \<longleftrightarrow> (\<exists>e. occurs q e \<and> is_write_node e)"
  "setexpr_has_dml b \<longleftrightarrow> (\<exists>e. occurs_in b e \<and> is_write_node e)"
  by (induction q and b rule: query_has_dml_setexpr_has_dml.induct)
    (auto simp: list_ex_iff)

lemma query_selects_into_iff:
  "query_selects_into q \<longleftrightarrow> (\<exists>from. query_body q = Set_Select True from)"
  by (cases q rule: query_selects_into.cases) auto

lemma classify_stmt_read:
  "fst (classify_stmt s ns nw) = Read \<longleftrightarrow> only_reads s"
  by (induction s ns nw rule: classify_stmt.induct)
    (auto simp: only_reads_query only_reads_explain query_has_dml_occurs query_selects_into_iff
      elim: only_reads_other)

text \<open>The statement that running \<open>s\<close> executes: \<^verbatim>\<open>EXPLAIN ANALYZE\<close> executes its inner statement.\<close>

fun executed :: "statement \<Rightarrow> statement" where
  "executed (Stmt_Explain True s) = executed s"
| "executed s = s"

fun touches_every_row :: "statement \<Rightarrow> bool" where
  "touches_every_row (Stmt_Update target selection) = (\<not> selection)"
| "touches_every_row (Stmt_Delete targets selection) = (\<not> selection)"
| "touches_every_row s = False"

fun is_ddl :: "statement \<Rightarrow> bool" where
  "is_ddl s = (s \<in> {Stmt_CreateTable, Stmt_CreateIndex, Stmt_CreateView, Stmt_CreateSchema,
     Stmt_CreateDatabase, Stmt_AlterTable, Stmt_Drop, Stmt_Truncate})"

lemma classify_stmt_no_where:
  "snd (snd (classify_stmt s ns False)) \<longleftrightarrow> touches_every_row (executed s)"
  by (induction s ns "False" rule: classify_stmt.induct) auto

lemma classify_stmt_ddl:
  "fst (classify_stmt s ns nw) = Ddl \<longleftrightarrow> is_ddl (executed s)"
  by (induction s ns nw rule: classify_stmt.induct) auto

lemma classify_stmt_privilege:
  "fst (classify_stmt s ns nw) = Privilege \<longleftrightarrow> executed s \<in> {Stmt_Grant, Stmt_Revoke}"
  by (induction s ns nw rule: classify_stmt.induct) auto

lemma dedup_from_set: "set (dedup_from seen ts) = set ts - set seen"
  by (induction seen ts rule: dedup_from.induct) auto

lemma dedup_from_distinct: "distinct (dedup_from seen ts)"
  by (induction seen ts rule: dedup_from.induct) (simp_all add: dedup_from_set)

lemma dedup_distinct [simp]: "distinct (dedup v)"
  by (simp add: dedup_def dedup_from_distinct)

lemma dedup_set [simp]: "set (dedup v) = set v"
  by (simp add: dedup_def dedup_from_set)

text \<open>The single statement of a script, when the engine has a dialect and the text parses.\<close>

definition parsed ::
  "(dialect \<Rightarrow> string \<Rightarrow> string + statement list) \<Rightarrow> string \<Rightarrow> engine \<Rightarrow> statement list" where
  "parsed parse_sql sql eng =
     (case dialect_for eng of
        None \<Rightarrow> []
      | Some dialect \<Rightarrow> (case parse_sql dialect sql of Inl _ \<Rightarrow> [] | Inr ss \<Rightarrow> ss))"

lemma classify_cases:
  obtains c where "classify parse_sql sql eng = Inr c"
    "\<exists>note. parsed parse_sql sql eng = [] \<and> c = fail_safe note"
  | s where "classify parse_sql sql eng = Inr (classify_single s)" "parsed parse_sql sql eng = [s]"
  | ss where "classify parse_sql sql eng = Inr (classify_many ss)" "parsed parse_sql sql eng = ss"
      "1 < length ss"
proof (cases "dialect_for eng")
  case None
  then show thesis by (intro that(1)) (auto simp: classify_def parsed_def)
next
  case (Some d)
  note dialect = this
  show thesis
  proof (cases "parse_sql d sql")
    case (Inl e)
    then show thesis using dialect by (intro that(1)) (auto simp: classify_def parsed_def)
  next
    case (Inr ss)
    consider "ss = []" | s where "ss = [s]" | s t ts where "ss = s # t # ts"
      by (cases ss rule: remdups_adj.cases) auto
    then show thesis
    proof cases
      case 1
      then show thesis using dialect Inr by (intro that(1)) (auto simp: classify_def parsed_def)
    next
      case 2
      then show thesis using dialect Inr by (intro that(2)) (auto simp: classify_def parsed_def)
    next
      case 3
      then show thesis using dialect Inr by (intro that(3)) (auto simp: classify_def parsed_def)
    qed
  qed
qed

lemma classify_single_fields:
  "cl_kind (classify_single s) = fst (classify_stmt s [] False)"
  "cl_no_where (classify_single s) = touches_every_row (executed s)"
  "cl_risk (classify_single s) =
     risk_of (fst (classify_stmt s [] False)) (touches_every_row (executed s))"
  "cl_rollback_safe (classify_single s) = direct_dml s"
  "cl_statement_count (classify_single s) = 1"
  by (simp_all add: classify_single_def case_prod_beta classify_stmt_no_where)


end
