(* ===== verification/Safety_Gate.thy ===== *)
theory Safety_Gate
  imports Sql_Classify Pinned_Connection
begin

text \<open>
  Layer 4 of the safety engine, \<^verbatim>\<open>src/src-tauri/src/safety/l4_gate.rs\<close>: the decision on a
  classified statement under the connection's settings, and its composition with the
  classifier of layer 1.
\<close>

datatype gate_decision = AutoRun | RequireApproval | Block (block_reason: string)

fun kind_label :: "query_kind \<Rightarrow> string" where
  "kind_label Read = ''reading''"
| "kind_label Write = ''writing''"
| "kind_label Ddl = ''schema change (DDL)''"
| "kind_label Privilege = ''privilege change''"

definition decide :: "safety_settings \<Rightarrow> classification \<Rightarrow> gate_decision" where
  "decide settings c =
     (if 1 < cl_statement_count c
      then Block (''multiple statements are not allowed'' @ dash @ ''submit one statement at a time'')
      else (case cl_kind c of
          Read \<Rightarrow> (if ss_auto_run_reads settings then AutoRun else RequireApproval)
        | Privilege \<Rightarrow>
            Block (''arbitrary privilege SQL is blocked; use a supported, narrowly scoped '' @
              ''administrative action'')
        | k \<Rightarrow>
            (if \<not> ss_allow_writes settings
             then Block (kind_label k @
               '' is disabled for this connection (writes are off by default). '' @
               ''Enable writes in the connection's safety settings to propose it.'')
             else RequireApproval)))"

text \<open>Classify a script and decide on it.\<close>

definition gate ::
  "(dialect \<Rightarrow> string \<Rightarrow> string + statement list) \<Rightarrow> safety_settings \<Rightarrow> string \<Rightarrow> engine \<Rightarrow>
   gate_decision app_result" where
  "gate parse_sql settings sql eng =
     rbind (classify parse_sql sql eng) (\<lambda>c. Inr (decide settings c))"

lemma decide_single:
  assumes "cl_statement_count c \<le> 1"
  shows "decide settings c = AutoRun \<longleftrightarrow> cl_kind c = Read \<and> ss_auto_run_reads settings"
    and "decide settings c = RequireApproval \<longleftrightarrow>
      cl_kind c = Read \<and> \<not> ss_auto_run_reads settings \<or>
      cl_kind c \<in> {Write, Ddl} \<and> ss_allow_writes settings"
  using assms by (auto simp: decide_def split: query_kind.splits)

lemma decide_not_read: "cl_kind c \<noteq> Read \<Longrightarrow> decide settings c \<noteq> AutoRun"
  by (auto simp: decide_def split: query_kind.splits)

lemma decide_writes_off:
  "\<not> ss_allow_writes settings \<Longrightarrow> cl_kind c \<noteq> Read \<Longrightarrow> \<exists>r. decide settings c = Block r"
  by (auto simp: decide_def split: query_kind.splits)

text \<open>
  The gate runs a script without a human exactly when it parses to one statement that only
  reads and the connection runs reads automatically, whatever its other settings are. With
  writes off, every other script than a single reading statement is refused; so is every
  privilege change, and every script of several statements up to the 32-bit counter.
\<close>

theorem gate_exact:
  "\<exists>d. gate parse_sql settings sql eng = Inr d \<and>
     (d = AutoRun \<longleftrightarrow>
        ss_auto_run_reads settings \<and> (\<exists>s. parsed parse_sql sql eng = [s] \<and> only_reads s)) \<and>
     (\<not> ss_allow_writes settings \<and> \<not> (\<exists>s. parsed parse_sql sql eng = [s] \<and> only_reads s) \<longrightarrow>
        (\<exists>r. d = Block r)) \<and>
     (1 < length (parsed parse_sql sql eng) \<and> length (parsed parse_sql sql eng) < 2 ^ 32 \<longrightarrow>
        (\<exists>r. d = Block r)) \<and>
     ((\<exists>s. parsed parse_sql sql eng = [s] \<and> executed s \<in> {Stmt_Grant, Stmt_Revoke}) \<longrightarrow>
        (\<exists>r. d = Block r))"
proof (cases rule: classify_cases [of parse_sql sql eng])
  case (1 c)
  then obtain n where "parsed parse_sql sql eng = []" "c = fail_safe n" by blast
  moreover have "decide settings (fail_safe n) =
      (if ss_allow_writes settings then RequireApproval
       else Block (kind_label Write @
         '' is disabled for this connection (writes are off by default). '' @
         ''Enable writes in the connection's safety settings to propose it.''))"
    by (simp add: decide_def fail_safe_def)
  ultimately show ?thesis using 1(1) by (simp add: gate_def)
next
  case (2 s)
  let ?c = "classify_single s"
  have kind: "cl_kind ?c = Read \<longleftrightarrow> only_reads s"
    "cl_kind ?c = Privilege \<longleftrightarrow> executed s \<in> {Stmt_Grant, Stmt_Revoke}"
    by (simp_all only: classify_single_fields classify_stmt_read classify_stmt_privilege)
  have "decide settings ?c = AutoRun \<longleftrightarrow> ss_auto_run_reads settings \<and> only_reads s"
    using kind(1) decide_single(1) [of ?c settings] by (auto simp: classify_single_fields)
  moreover have "\<exists>r. decide settings ?c = Block r" if "executed s \<in> {Stmt_Grant, Stmt_Revoke}"
    using that kind(2) by (auto simp: decide_def)
  moreover have "\<exists>r. decide settings ?c = Block r"
    if "\<not> ss_allow_writes settings" "\<not> only_reads s"
    using that kind(1) decide_writes_off by blast
  ultimately show ?thesis using 2 by (auto simp: gate_def)
next
  case (3 ss)
  have "decide settings (classify_many ss) \<noteq> AutoRun"
    by (rule decide_not_read) (simp add: classify_many_def)
  moreover have "\<exists>r. decide settings (classify_many ss) = Block r" if "\<not> ss_allow_writes settings"
    by (rule decide_writes_off) (use that in \<open>simp_all add: classify_many_def\<close>)
  moreover have "\<exists>r. decide settings (classify_many ss) = Block r" if "length ss < 2 ^ 32"
    using that 3 by (simp add: decide_def classify_many_def)
  ultimately show ?thesis using 3 by (auto simp: gate_def)
qed

text \<open>A query, a write, and a grant under the default settings.\<close>

definition demo_parser :: "dialect \<Rightarrow> string \<Rightarrow> string + statement list" where
  "demo_parser dialect sql =
     (if sql = ''q'' then Inr [Stmt_Query (Query [] (Set_Select False []) 0)]
      else if sql = ''w'' then Inr [Stmt_Update (Table_With_Joins (Factor_Table ''t'') []) False]
      else if sql = ''g'' then Inr [Stmt_Grant]
      else if sql = ''qq'' then Inr [Stmt_Other, Stmt_Other]
      else Inl ''syntax'')"

lemma gate_exact_witness:
  "(\<exists>d. gate demo_parser default_safety ''g'' Postgres = Inr d \<and> (\<exists>r. d = Block r)) \<and>
   (\<exists>d. gate demo_parser default_safety ''qq'' Postgres = Inr d \<and> (\<exists>r. d = Block r)) \<and>
   (\<exists>d. gate demo_parser default_safety ''x'' Postgres = Inr d \<and> (\<exists>r. d = Block r))"
proof -
  have g: "parsed demo_parser ''g'' Postgres = [Stmt_Grant]"
    and qq: "parsed demo_parser ''qq'' Postgres = [Stmt_Other, Stmt_Other]"
    and x: "parsed demo_parser ''x'' Postgres = []"
    by (simp_all add: parsed_def demo_parser_def)
  have "\<not> ss_allow_writes default_safety"
    by (simp add: default_safety_def)
  then show ?thesis
    using gate_exact [of demo_parser default_safety "''g''" Postgres]
      gate_exact [of demo_parser default_safety "''qq''" Postgres]
      gate_exact [of demo_parser default_safety "''x''" Postgres]
    unfolding g qq x by auto
qed

end
