(* ===== verification/Db_Session.thy ===== *)
theory Db_Session
  imports Pinned_Connection Json Cancel_Registry Database_Model
begin

text \<open>
  The database sessions of the read and write paths:
  \<^verbatim>\<open>src/src-tauri/src/safety/l2_enforce.rs\<close>, \<^verbatim>\<open>src/src-tauri/src/executor/read.rs\<close> and
  \<^verbatim>\<open>src/src-tauri/src/executor/write.rs\<close>. The database behind \<^verbatim>\<open>sqlx\<close> is the parameter
  \<open>driver\<close>: what it answers to a command may depend on everything sent before, so a session is
  a function of the log of commands, and it returns its result with the log it leaves.
\<close>

section \<open>The driver\<close>

text \<open>\<^verbatim>\<open>sqlx::Error\<close>, as far as the code tells its values apart.\<close>

datatype db_error =
    Database_error (db_code: "string option") (db_message: string)
  | PoolTimedOut
  | Driver_error string

datatype pool_ref = Pool_Postgres | Pool_Mysql | Pool_Sqlite

fun pool_engine :: "pool_ref \<Rightarrow> engine" where
  "pool_engine Pool_Postgres = Postgres"
| "pool_engine Pool_Mysql = Mysql"
| "pool_engine Pool_Sqlite = Sqlite"

datatype pool_side = Read_pool | Write_pool

datatype db_action =
    Acquire | Execute string | Fetch string | Describe string | Begin_tx | Tx_Execute string | Commit_tx | Rollback_tx

type_synonym db_log = "(pool_side \<times> db_action) list"

record 'row driver =
  dv_acquire :: "db_log \<Rightarrow> db_error + unit"
  dv_execute :: "db_log \<Rightarrow> string \<Rightarrow> db_error + nat"
  dv_fetch :: "db_log \<Rightarrow> string \<Rightarrow> (db_error + 'row) list"
  dv_describe :: "db_log \<Rightarrow> string \<Rightarrow> db_error + string list"
  dv_begin :: "db_log \<Rightarrow> db_error + unit"
  dv_commit :: "db_log \<Rightarrow> db_error + unit"
  dv_rollback :: "db_log \<Rightarrow> db_error + unit"
  dv_overdue :: "db_log \<Rightarrow> bool"
  dv_columns :: "'row \<Rightarrow> string list"
  dv_cell :: "pool_ref \<Rightarrow> 'row \<Rightarrow> nat \<Rightarrow> json"
  dv_millis :: "db_log \<Rightarrow> nat"
  dv_error_text :: "db_error \<Rightarrow> string"

text \<open>\<^verbatim>\<open>From<sqlx::Error> for AppError\<close>\<close>

definition db_app_error :: "'row driver \<Rightarrow> db_error \<Rightarrow> app_error" where
  "db_app_error drv e = Db (dv_error_text drv e)"

text \<open>
  A session step sends commands and returns a result. \<open>send\<close> sends one command; \<open>and_then\<close> is
  the question mark operator; \<open>regardless\<close> is \<^verbatim>\<open>let _ = m.await;\<close>.
\<close>

type_synonym 'a db_step = "db_log \<Rightarrow> 'a \<times> db_log"

definition send :: "pool_side \<Rightarrow> db_action \<Rightarrow> (db_log \<Rightarrow> 'a) \<Rightarrow> 'a db_step" where
  "send side act answer h = (answer h, h @ [(side, act)])"

definition yield_result :: "'a \<Rightarrow> 'a db_step" where
  "yield_result x h = (x, h)"

definition and_then :: "('e + 'a) db_step \<Rightarrow> ('a \<Rightarrow> ('e + 'b) db_step) \<Rightarrow> ('e + 'b) db_step" where
  "and_then m f h = (case m h of (Inl e, h') \<Rightarrow> (Inl e, h') | (Inr x, h') \<Rightarrow> f x h')"

definition regardless :: "'a db_step \<Rightarrow> 'b db_step \<Rightarrow> 'b db_step" where
  "regardless m k h = k (snd (m h))"

section \<open>Reading rows\<close>

record query_result =
  qr_columns :: "string list"
  qr_rows :: "json list list"
  qr_row_count :: nat
  qr_truncated :: bool
  qr_duration_ms :: nat

type_synonym capped_rows = "string list \<times> json list list \<times> bool"

fun stream_loop ::
  "('row \<Rightarrow> string list) \<Rightarrow> ('row \<Rightarrow> nat \<Rightarrow> json) \<Rightarrow> nat \<Rightarrow> (db_error + 'row) list \<Rightarrow>
   string list \<Rightarrow> json list list \<Rightarrow> db_error + capped_rows" where
  "stream_loop cols cell limit [] columns rows = Inr (columns, rows, False)"
| "stream_loop cols cell limit (Inl e # rest) columns rows = Inl e"
| "stream_loop cols cell limit (Inr row # rest) columns rows =
     (let columns = (if columns = [] then cols row else columns)
      in if limit \<le> length rows then Inr (columns, rows, True)
         else stream_loop cols cell limit rest columns
           (rows @ [map (cell row) [0..<length (cols row)]]))"

definition stream_capped ::
  "('row \<Rightarrow> string list) \<Rightarrow> ('row \<Rightarrow> nat \<Rightarrow> json) \<Rightarrow> nat \<Rightarrow> (db_error + 'row) list \<Rightarrow>
   db_error + capped_rows" where
  "stream_capped cols cell limit stream = stream_loop cols cell limit stream [] []"

definition fetch_capped ::
  "'row driver \<Rightarrow> pool_side \<Rightarrow> pool_ref \<Rightarrow> string \<Rightarrow> nat \<Rightarrow> (db_error + capped_rows) db_step" where
  "fetch_capped drv side pool sql limit =
     send side (Fetch sql) (\<lambda>h. stream_capped (dv_columns drv) (dv_cell drv pool) limit (dv_fetch drv h sql))"

text \<open>The wall-clock guard of layer 2: \<^verbatim>\<open>dv_overdue\<close> tells that the timer ran out first.\<close>

definition guarded :: "'row driver \<Rightarrow> (db_error + 'a) db_step \<Rightarrow> (db_error + 'a) db_step" where
  "guarded drv m h = (let (r, h') = m h in (if dv_overdue drv h then Inl PoolTimedOut else r, h'))"

definition with_headers ::
  "'row driver \<Rightarrow> pool_side \<Rightarrow> string list \<Rightarrow> string \<Rightarrow> string list db_step" where
  "with_headers drv side cols sql h =
     (if cols = []
      then (case send side (Describe sql) (\<lambda>h. dv_describe drv h sql) h of
              (Inr names, h') \<Rightarrow> (names, h') | (Inl _, h') \<Rightarrow> ([], h'))
      else (cols, h))"

section \<open>The read-only session\<close>

fun contains :: "string \<Rightarrow> string \<Rightarrow> bool" where
  "contains needle [] = (needle = [])"
| "contains needle (c # cs) = (prefix needle (c # cs) \<or> contains needle cs)"

text \<open>
  The message is lowered before the search. \<^verbatim>\<open>str::to_lowercase\<close> also lowers letters outside
  ASCII; their images hold none of the phrases searched for, so lowering ASCII is enough here.
\<close>

fun is_read_only_violation :: "engine \<Rightarrow> db_error \<Rightarrow> bool" where
  "is_read_only_violation eng (Database_error code_opt message) =
     (let code = (case code_opt of Some c \<Rightarrow> c | None \<Rightarrow> []);
          msg = map ascii_lower message
      in case eng of
           Postgres \<Rightarrow> code = ''25006'' \<or> contains ''read-only transaction'' msg
         | Mysql \<Rightarrow> code = ''1792'' \<or> contains ''read only transaction'' msg \<or> contains ''read-only'' msg
         | Sqlite \<Rightarrow> contains ''readonly'' msg \<or> contains ''read only'' msg
         | Mongodb \<Rightarrow> False)"
| "is_read_only_violation eng e = False"

text \<open>The UTF-8 encoding of the long dash between two spaces.\<close>

definition long_dash :: string where
  "long_dash = [CHR 0x20, CHR 0xE2, CHR 0x80, CHR 0x94, CHR 0x20]"

definition map_readonly :: "'row driver \<Rightarrow> engine \<Rightarrow> db_error \<Rightarrow> app_error" where
  "map_readonly drv eng e =
     (if is_read_only_violation eng e
      then Blocked (''read-only session rejected a write ('' @ engine_str eng @
        ''). The statement was classified as a read but the database detected a write'' @ long_dash @
        ''nothing was executed.'')
      else Db (dv_error_text drv e))"

definition statement_timeout_ms :: nat where
  "statement_timeout_ms = 15000"

definition exec :: "'row driver \<Rightarrow> string \<Rightarrow> (db_error + nat) db_step" where
  "exec drv sql = send Read_pool (Execute sql) (\<lambda>h. dv_execute drv h sql)"

definition pg_timeout_command :: string where
  "pg_timeout_command = ''SET LOCAL statement_timeout = '' @ dec_nat statement_timeout_ms"

definition mysql_timeout_command :: string where
  "mysql_timeout_command = ''SET SESSION max_execution_time = '' @ dec_nat statement_timeout_ms"

fun protected_read :: "'row driver \<Rightarrow> pool_ref \<Rightarrow> string \<Rightarrow> nat \<Rightarrow> (db_error + capped_rows) db_step" where
  "protected_read drv Pool_Postgres sql limit =
     and_then (exec drv ''BEGIN'') (\<lambda>_.
     and_then (exec drv ''SET TRANSACTION READ ONLY'') (\<lambda>_.
     regardless (exec drv pg_timeout_command)
       (guarded drv (fetch_capped drv Read_pool Pool_Postgres sql limit))))"
| "protected_read drv Pool_Mysql sql limit =
     regardless (exec drv mysql_timeout_command)
     (and_then (exec drv ''START TRANSACTION READ ONLY'') (\<lambda>_.
       guarded drv (fetch_capped drv Read_pool Pool_Mysql sql limit)))"
| "protected_read drv Pool_Sqlite sql limit =
     and_then (exec drv ''PRAGMA query_only = ON'') (\<lambda>_.
       guarded drv (fetch_capped drv Read_pool Pool_Sqlite sql limit))"

fun release_command :: "pool_ref \<Rightarrow> string" where
  "release_command Pool_Postgres = ''ROLLBACK''"
| "release_command Pool_Mysql = ''ROLLBACK''"
| "release_command Pool_Sqlite = ''PRAGMA query_only = OFF''"

definition run_read_only_inner ::
  "'row driver \<Rightarrow> pool_ref \<Rightarrow> string \<Rightarrow> nat \<Rightarrow> query_result app_result db_step" where
  "run_read_only_inner drv pool sql max_rows h0 =
     (case send Read_pool Acquire (dv_acquire drv) h0 of
        (Inl e, h1) \<Rightarrow> (Inl (db_app_error drv e), h1)
      | (Inr _, h1) \<Rightarrow>
          (case protected_read drv pool sql max_rows h1 of (res, h2) \<Rightarrow>
             (case exec drv (release_command pool) h2 of (_, h3) \<Rightarrow>
                (case res of
                   Inl e \<Rightarrow> (Inl (map_readonly drv (pool_engine pool) e), h3)
                 | Inr (c, r, t) \<Rightarrow>
                     (case with_headers drv Read_pool c sql h3 of (c', h4) \<Rightarrow>
                        (Inr \<lparr>qr_columns = c', qr_rows = r, qr_row_count = length r,
                              qr_truncated = t, qr_duration_ms = dv_millis drv h4\<rparr>, h4))))))"

section \<open>The cancellation guard over a session\<close>

text \<open>
  One poll of a guarded session: whether its handle is cancelled, whether the session is ready,
  how many of its commands had been sent when it was last polled, and the time elapsed. A
  session that is dropped has sent a prefix of its commands.
\<close>

record session_poll =
  sp_cancelled :: bool
  sp_ready :: bool
  sp_sent :: nat
  sp_elapsed :: nat

definition poll_of :: "'a app_result \<Rightarrow> session_poll \<Rightarrow> 'a guard_poll" where
  "poll_of r p =
     \<lparr>gp_cancelled = sp_cancelled p, gp_ready = (if sp_ready p then Some r else None),
      gp_elapsed = sp_elapsed p\<rparr>"

fun guard_session ::
  "(nat \<Rightarrow> string) \<Rightarrow> bool \<Rightarrow> session_poll list \<Rightarrow> 'a app_result db_step \<Rightarrow> db_log \<Rightarrow>
   ('a app_result \<times> db_log) option" where
  "guard_session show_nat has_handle [] inner h = None"
| "guard_session show_nat has_handle (p # ps) inner h =
     (case inner h of (r, h') \<Rightarrow>
        (case guard_poll_result show_nat query_timeout has_handle (poll_of r p) of
           None \<Rightarrow> guard_session show_nat has_handle ps inner h
         | Some result \<Rightarrow>
             Some (result,
               if sp_ready p \<and> \<not> (has_handle \<and> sp_cancelled p) then h'
               else take (length h + sp_sent p) h')))"

definition run_read_only_cancellable ::
  "(nat \<Rightarrow> string) \<Rightarrow> 'row driver \<Rightarrow> pool_ref \<Rightarrow> string \<Rightarrow> nat \<Rightarrow> bool \<Rightarrow> session_poll list \<Rightarrow> db_log \<Rightarrow>
   (query_result app_result \<times> db_log) option" where
  "run_read_only_cancellable show_nat drv pool sql max_rows cancellation ps =
     guard_session show_nat cancellation ps (run_read_only_inner drv pool sql max_rows)"

section \<open>The executor\<close>

record live_connection =
  lc_read_pool :: pool_ref
  lc_write_pool :: pool_ref

definition read_inner :: "'row driver \<Rightarrow> live_connection \<Rightarrow> string \<Rightarrow> nat \<Rightarrow> query_result app_result db_step" where
  "read_inner drv live sql limit h0 =
     (case fetch_capped drv Read_pool (lc_read_pool live) sql limit h0 of
        (Inl e, h1) \<Rightarrow> (Inl (db_app_error drv e), h1)
      | (Inr (c, r, t), h1) \<Rightarrow>
          (case with_headers drv Read_pool c sql h1 of (c', h2) \<Rightarrow>
             (Inr \<lparr>qr_columns = c', qr_rows = r, qr_row_count = length r, qr_truncated = t,
                   qr_duration_ms = 0\<rparr>, h2)))"

definition run_read_registered ::
  "(nat \<Rightarrow> string) \<Rightarrow> 'row driver \<Rightarrow> live_connection \<Rightarrow> string \<Rightarrow> nat \<Rightarrow> bool \<Rightarrow> session_poll list \<Rightarrow>
   db_log \<Rightarrow> (query_result app_result \<times> db_log) option" where
  "run_read_registered show_nat drv live sql max_rows cancellation ps h =
     map_option (\<lambda>(r, h'). (rbind r (\<lambda>q. Inr (q\<lparr>qr_duration_ms := dv_millis drv h'\<rparr>)), h'))
       (guard_session show_nat cancellation ps (read_inner drv live sql max_rows) h)"

record exec_outcome =
  eo_result :: "query_result option"
  eo_affected :: "nat option"
  eo_committed :: bool

fun commit_failure :: "pool_ref \<Rightarrow> string \<Rightarrow> app_error" where
  "commit_failure Pool_Postgres e =
     OutcomeUnknown_error (''PostgreSQL commit acknowledgement failed: '' @ e)"
| "commit_failure Pool_Mysql e =
     OutcomeUnknown_error (''MySQL commit acknowledgement failed: '' @ e)"
| "commit_failure Pool_Sqlite e =
     OutcomeUnknown_error (''SQLite commit acknowledgement failed: '' @ e)"

definition app_step :: "'row driver \<Rightarrow> (db_error \<Rightarrow> app_error) \<Rightarrow> (db_error + 'a) db_step \<Rightarrow> 'a app_result db_step" where
  "app_step drv f m h = (case m h of (Inl e, h') \<Rightarrow> (Inl (f e), h') | (Inr x, h') \<Rightarrow> (Inr x, h'))"

definition write_inner :: "'row driver \<Rightarrow> live_connection \<Rightarrow> string \<Rightarrow> nat app_result db_step" where
  "write_inner drv live sql =
     and_then (app_step drv (db_app_error drv) (send Write_pool Begin_tx (dv_begin drv))) (\<lambda>_.
     and_then (app_step drv (db_app_error drv)
       (send Write_pool (Tx_Execute sql) (\<lambda>h. dv_execute drv h sql))) (\<lambda>n.
     and_then (app_step drv (\<lambda>e. commit_failure (lc_write_pool live) (dv_error_text drv e))
       (send Write_pool Commit_tx (dv_commit drv))) (\<lambda>_.
     yield_result (Inr n))))"

definition err_write_scope :: app_error where
  "err_write_scope = Blocked ''write cancellation scope does not match its approved operation''"

definition err_writes_disabled :: app_error where
  "err_writes_disabled = Blocked ''writes are disabled for this connection (allow_writes = 0)''"

section \<open>Rows are capped exactly\<close>

definition decode_row :: "('row \<Rightarrow> string list) \<Rightarrow> ('row \<Rightarrow> nat \<Rightarrow> json) \<Rightarrow> 'row \<Rightarrow> json list" where
  "decode_row cols cell row = map (cell row) [0..<length (cols row)]"

text \<open>The first nonempty header of some rows.\<close>

fun first_header :: "('row \<Rightarrow> string list) \<Rightarrow> 'row list \<Rightarrow> string list" where
  "first_header cols [] = []"
| "first_header cols (r # rs) = (if cols r = [] then first_header cols rs else cols r)"

lemma stream_loop_ok:
  assumes "length rows \<le> limit"
  shows "stream_loop cols cell limit (map Inr rs) columns rows =
    Inr (if columns = [] then first_header cols (take (Suc limit - length rows) rs) else columns,
         rows @ map (decode_row cols cell) (take (limit - length rows) rs),
         limit - length rows < length rs)"
  using assms
proof (induction rs arbitrary: columns rows)
  case (Cons r rs)
  show ?case
  proof (cases "length rows < limit")
    case True
    then have "Suc limit - length rows = Suc (limit - length rows)"
      "limit - length rows = Suc (limit - Suc (length rows))"
      "Suc limit - Suc (length rows) = limit - length rows"
      by simp_all
    then show ?thesis
      using True Cons.IH [of "rows @ [decode_row cols cell r]"]
      by (auto simp: decode_row_def Let_def)
  next
    case False
    with Cons.prems have "limit = length rows" by simp
    then show ?thesis by (simp add: Let_def)
  qed
qed simp

lemma stream_loop_err:
  assumes "length rows + length rs \<le> limit"
  shows "stream_loop cols cell limit (map Inr rs @ Inl e # rest) columns rows = Inl e"
  using assms by (induction rs arbitrary: columns rows) (auto simp: Let_def)

lemma stream_loop_cut:
  assumes "length rows + length rs = limit"
  shows "stream_loop cols cell limit (map Inr rs @ Inr r # rest) columns rows =
    stream_loop cols cell limit (map Inr (rs @ [r])) columns rows"
  using assms by (induction rs arbitrary: columns rows) (auto simp: Let_def)

lemma first_header_two:
  "first_header cols (rs @ ss) = (if first_header cols rs = [] then first_header cols ss
     else first_header cols rs)"
  by (induction rs) auto

lemma stream_capped_eq:
  "stream_capped cols cell limit stream =
     (let rs = map projr (takeWhile (\<lambda>x. \<not> isl x) stream)
      in if length rs \<le> limit \<and> length rs < length stream
         then Inl (projl (stream ! length rs))
         else Inr (first_header cols (take (limit + 1) rs),
                   map (decode_row cols cell) (take limit rs), limit < length rs))"
proof -
  define rs where "rs = map projr (takeWhile (\<lambda>x. \<not> isl x) stream)"
  have split: "stream = map Inr rs @ drop (length rs) stream"
  proof -
    have "map (Inr \<circ> projr) (takeWhile (\<lambda>x. \<not> isl x) stream) = takeWhile (\<lambda>x. \<not> isl x) stream"
      by (rule map_idI) (use set_takeWhileD in \<open>fastforce simp: isl_def\<close>)
    then show ?thesis
      by (simp add: rs_def dropWhile_eq_drop [symmetric])
  qed
  have "stream_capped cols cell limit stream =
      (if length rs \<le> limit \<and> length rs < length stream then Inl (projl (stream ! length rs))
       else Inr (first_header cols (take (Suc limit) rs), map (decode_row cols cell) (take limit rs),
         limit < length rs))"
  proof (cases "length rs < length stream")
    case False
    then have "stream = map Inr rs" using split by simp
    then show ?thesis
      using False stream_loop_ok [of "[]" limit cols cell rs "[]"]
      by (simp add: stream_capped_def)
  next
    case True
    then have "isl (stream ! length rs)"
      using nth_length_takeWhile [of "\<lambda>x. \<not> isl x" stream] by (simp add: rs_def)
    then obtain e where e: "stream ! length rs = Inl e" by (auto simp: isl_def)
    then obtain rest where rest: "stream = map Inr rs @ Inl e # rest"
      using split True by (metis Cons_nth_drop_Suc)
    show ?thesis
    proof (cases "length rs \<le> limit")
      case True
      then show ?thesis
        using stream_loop_err [of "[]" rs limit cols cell e rest "[]"] e \<open>length rs < length stream\<close>
        by (simp add: stream_capped_def flip: rest)
    next
      case False
      define r us where "r = rs ! limit" and "us = drop (Suc limit) rs"
      have parts: "rs = take limit rs @ r # us"
        using False by (simp add: r_def us_def Cons_nth_drop_Suc)
      then have "stream = map Inr (take limit rs) @ Inr r # (map Inr us @ Inl e # rest)"
        by (metis rest append.assoc append_Cons list.simps(9) map_append)
      then have "stream_capped cols cell limit stream =
          stream_loop cols cell limit (map Inr (take limit rs @ [r])) [] []"
        using False stream_loop_cut [of "[]" "take limit rs" limit cols cell r]
        by (simp add: stream_capped_def)
      moreover have "take (Suc limit) rs = take limit rs @ [r]"
        using False by (simp add: r_def take_Suc_conv_app_nth)
      ultimately show ?thesis
        using False stream_loop_ok [of "[]" limit cols cell "take limit rs @ [r]" "[]"]
        by simp
    qed
  qed
  then show ?thesis
    by (simp add: rs_def Let_def)
qed

text \<open>
  C34. The row cap is exact and the reader never holds more rows than the cap: with \<open>rs\<close> the
  rows that arrive before the first driver error, the reader fails with that error exactly when
  it comes within the first \<open>limit + 1\<close> items; otherwise it returns the first \<open>limit\<close> rows,
  each decoded over its own columns, under the first nonempty header, and reports a cut exactly
  when a further row arrived.
\<close>

theorem stream_capped_exact:
  "stream_capped cols cell limit stream =
     (let rs = map projr (takeWhile (\<lambda>x. \<not> isl x) stream)
      in if length rs \<le> limit \<and> length rs < length stream
         then Inl (projl (stream ! length rs))
         else Inr (first_header cols (take (limit + 1) rs),
                   map (decode_row cols cell) (take limit rs), limit < length rs))"
  by (rule stream_capped_eq)

section \<open>The user's text runs only inside the read-only session\<close>

text \<open>The commands that make a session read-only, and the acceptance of one of them in a log.\<close>

fun protection :: "pool_ref \<Rightarrow> string list" where
  "protection Pool_Postgres = [''BEGIN'', ''SET TRANSACTION READ ONLY'']"
| "protection Pool_Mysql = [''START TRANSACTION READ ONLY'']"
| "protection Pool_Sqlite = [''PRAGMA query_only = ON'']"

definition accepted :: "'row driver \<Rightarrow> db_log \<Rightarrow> db_log \<Rightarrow> string \<Rightarrow> bool" where
  "accepted drv h new command \<longleftrightarrow>
     (\<exists>i < length new. new ! i = (Read_pool, Execute command) \<and>
        \<not> isl (dv_execute drv (h @ take i new) command))"

lemmas session_simps = send_def and_then_def regardless_def guarded_def fetch_capped_def exec_def
  yield_result_def

lemma accepted_last:
  "dv_execute drv (h @ pre) command = Inr n \<Longrightarrow>
   accepted drv h (pre @ (Read_pool, Execute command) # rest) command"
  unfolding accepted_def by (intro exI [of _ "length pre"]) simp

abbreviation executes :: "string list \<Rightarrow> db_log" where
  "executes cmds \<equiv> map (\<lambda>c. (Read_pool, Execute c)) cmds"

lemma protected_read_shape:
  assumes "protected_read drv pool sql limit h = (res, h')"
  obtains
    (refused) cmds where "h' = h @ executes cmds" "isl res"
  | (ran) cmds where "h' = h @ executes cmds @ [(Read_pool, Fetch sql)]"
      "\<forall>c \<in> set (protection pool). accepted drv h (executes cmds) c"
      "subseq (protection pool) cmds"
      "res = (if dv_overdue drv (h @ executes cmds) then Inl PoolTimedOut
         else stream_capped (dv_columns drv) (dv_cell drv pool) limit
           (dv_fetch drv (h @ executes cmds) sql))"
proof -
  let ?c = "\<lambda>c. (Read_pool, Execute c)"
  show thesis
  proof (cases pool)
    case Pool_Postgres
    show thesis
    proof (cases "dv_execute drv h ''BEGIN''")
      case (Inl e)
      then show thesis
        using assms by (intro refused [of "[''BEGIN'']"]) (auto simp: Pool_Postgres session_simps)
    next
      case first: (Inr n)
      show thesis
      proof (cases "dv_execute drv (h @ [?c ''BEGIN'']) ''SET TRANSACTION READ ONLY''")
        case (Inl e)
        then show thesis
          using assms first by (intro refused [of "[''BEGIN'', ''SET TRANSACTION READ ONLY'']"])
            (auto simp: Pool_Postgres session_simps)
      next
        case (Inr m)
        have "accepted drv h [?c ''BEGIN'', ?c ''SET TRANSACTION READ ONLY'', ?c t] ''BEGIN''" for t
          using first accepted_last [of drv h "[]"] by simp
        moreover have "accepted drv h [?c ''BEGIN'', ?c ''SET TRANSACTION READ ONLY'', ?c t]
            ''SET TRANSACTION READ ONLY''" for t
          using accepted_last [OF Inr, of "[?c t]"] by simp
        ultimately have ok: "\<forall>c \<in> set (protection pool).
            accepted drv h (executes [''BEGIN'', ''SET TRANSACTION READ ONLY'', pg_timeout_command]) c"
          by (simp add: Pool_Postgres)
        show thesis
          by (rule ran [OF _ ok]) (use assms first Inr in \<open>auto simp: Pool_Postgres session_simps\<close>)
      qed
    qed
  next
    case Pool_Mysql
    show thesis
    proof (cases "dv_execute drv (h @ [?c mysql_timeout_command]) ''START TRANSACTION READ ONLY''")
      case (Inl e)
      then show thesis
        using assms by (intro refused [of "[mysql_timeout_command, ''START TRANSACTION READ ONLY'']"])
          (auto simp: Pool_Mysql session_simps)
    next
      case (Inr n)
      have ok: "\<forall>c \<in> set (protection pool).
          accepted drv h (executes [mysql_timeout_command, ''START TRANSACTION READ ONLY'']) c"
        using accepted_last [OF Inr, of "[]"] by (simp add: Pool_Mysql)
      show thesis
        by (rule ran [OF _ ok]) (use assms Inr in \<open>auto simp: Pool_Mysql session_simps\<close>)
    qed
  next
    case Pool_Sqlite
    show thesis
    proof (cases "dv_execute drv h ''PRAGMA query_only = ON''")
      case (Inl e)
      then show thesis
        using assms by (intro refused [of "[''PRAGMA query_only = ON'']"])
          (auto simp: Pool_Sqlite session_simps)
    next
      case (Inr n)
      have ok: "\<forall>c \<in> set (protection pool). accepted drv h (executes [''PRAGMA query_only = ON'']) c"
        using Inr accepted_last [of drv h "[]"] by (simp add: Pool_Sqlite)
      show thesis
        by (rule ran [OF _ ok]) (use assms Inr in \<open>auto simp: Pool_Sqlite session_simps\<close>)
    qed
  qed
qed

lemma protected_read_rows:
  assumes "protected_read drv pool sql limit h = (Inr (c, rs, t), h')"
  shows "length rs \<le> limit"
  using assms
  by (cases rule: protected_read_shape)
    (auto simp: stream_capped_eq Let_def case_prod_beta split: sum.splits if_splits)

lemma read_session_rows:
  assumes "run_read_only_inner drv pool sql max_rows h0 = (Inr q, h)"
  shows "length (qr_rows q) \<le> max_rows \<and> qr_row_count q = length (qr_rows q)"
  using assms
  by (auto simp: run_read_only_inner_def dest: protected_read_rows split: sum.splits prod.splits)


text \<open>A database that accepts everything and answers every query with two rows of one column.\<close>

definition demo_driver :: "nat driver" where
  "demo_driver = \<lparr>dv_acquire = (\<lambda>_. Inr ()), dv_execute = (\<lambda>_ _. Inr 1), dv_fetch = (\<lambda>_ _. [Inr 5, Inr 7]),
     dv_describe = (\<lambda>_ _. Inr []), dv_begin = (\<lambda>_. Inr ()), dv_commit = (\<lambda>_. Inr ()),
     dv_rollback = (\<lambda>_. Inr ()),
     dv_overdue = (\<lambda>_. False), dv_columns = (\<lambda>_. [''c'']), dv_cell = (\<lambda>_ r _. JNumber (PosInt r)),
     dv_millis = (\<lambda>_. 0), dv_error_text = (\<lambda>_. [])\<rparr>"


end
