(* ===== verification/Impact_Preview.thy ===== *)
theory Impact_Preview
  imports Db_Session Operation_Repository
begin

text \<open>
  Layer 3 of the safety engine, \<^verbatim>\<open>src/src-tauri/src/safety/l3_preview.rs\<close>: the impact preview
  of a statement, which only ever sends an \<^verbatim>\<open>EXPLAIN\<close> of it to the read pool. The rows the
  database answers with are the parameter \<open>explain_driver\<close>.
\<close>

section \<open>Numbers out of a plan\<close>

text \<open>
  \<^verbatim>\<open>f as i64\<close> for a double given by its bits: the integer part, saturating at the bounds, and 0
  for a NaN.
\<close>

definition i64_max :: int where
  "i64_max = 2 ^ 63 - 1"

definition i64_min :: int where
  "i64_min = - (2 ^ 63)"

definition saturate_i64 :: "int \<Rightarrow> int" where
  "saturate_i64 i = max i64_min (min i64_max i)"

definition f64_as_i64 :: "64 word \<Rightarrow> int" where
  "f64_as_i64 w =
     (let bits = unat w;
          negative = 2 ^ 63 \<le> bits;
          e = bits div 2 ^ 52 mod 2048;
          m = bits mod 2 ^ 52;
          magnitude = (if e = 0 then 0
            else if 1075 \<le> e then int ((2 ^ 52 + m) * 2 ^ (e - 1075))
            else int ((2 ^ 52 + m) div 2 ^ (1075 - e)))
      in if e = 2047 \<and> m \<noteq> 0 then 0
         else saturate_i64 (if negative then - magnitude else magnitude))"

text \<open>\<^verbatim>\<open>str::parse::<i64>\<close>: an optional sign and at least one decimal digit, within the bounds.\<close>

definition is_digit :: "char \<Rightarrow> bool" where
  "is_digit c \<longleftrightarrow> 48 \<le> (of_char c :: nat) \<and> (of_char c :: nat) \<le> 57"

definition digits_value :: "string \<Rightarrow> nat" where
  "digits_value s = foldl (\<lambda>n c. 10 * n + (of_char c - 48)) 0 s"

definition in_i64 :: "int \<Rightarrow> int option" where
  "in_i64 i = (if i64_min \<le> i \<and> i \<le> i64_max then Some i else None)"

fun parse_i64 :: "string \<Rightarrow> int option" where
  "parse_i64 [] = None"
| "parse_i64 (c # cs) =
     (if c = CHR ''-'' then
        (if cs \<noteq> [] \<and> list_all is_digit cs then in_i64 (- int (digits_value cs)) else None)
      else let ds = (if c = CHR ''+'' then cs else c # cs)
        in if ds \<noteq> [] \<and> list_all is_digit ds then in_i64 (int (digits_value ds)) else None)"

text \<open>
  \<^verbatim>\<open>as_i64().or(as_f64() as i64).or(as_str().parse())\<close>: an unsigned integer above the bound is
  read as a double first; a negative integer is held in 64 bits.
\<close>

fun json_as_i64 :: "json \<Rightarrow> int option" where
  "json_as_i64 (JNumber (PosInt n)) = Some (min (int n) i64_max)"
| "json_as_i64 (JNumber (NegInt i)) = in_i64 i"
| "json_as_i64 (JNumber (Float w)) = Some (f64_as_i64 w)"
| "json_as_i64 (JString s) = parse_i64 s"
| "json_as_i64 v = None"

fun first_some :: "('a \<Rightarrow> 'b option) \<Rightarrow> 'a list \<Rightarrow> 'b option" where
  "first_some f [] = None"
| "first_some f (x # xs) = (case f x of Some y \<Rightarrow> Some y | None \<Rightarrow> first_some f xs)"

lemma first_some_cong [fundef_cong]:
  "xs = ys \<Longrightarrow> (\<And>y. y \<in> set ys \<Longrightarrow> f y = g y) \<Longrightarrow> first_some f xs = first_some g ys"
  by (induction ys arbitrary: xs) (auto split: option.split)

fun find_number :: "string list \<Rightarrow> json \<Rightarrow> int option" where
  "find_number keys (JObject kvs) =
     (case first_some (\<lambda>k. Option.bind (map_of kvs k) json_as_i64) keys of
        Some n \<Rightarrow> Some n
      | None \<Rightarrow> first_some (\<lambda>kv. find_number keys (snd kv)) kvs)"
| "find_number keys (JArray vs) = first_some (find_number keys) vs"
| "find_number keys v = None"

section \<open>The explain query\<close>

text \<open>
  A row of the answer: its column 0 read as JSON and as text, its column 3 read as text. An
  answer is \<open>None\<close> after a driver error or the preview's timeout.
\<close>

record explain_row =
  er_json :: "json option"
  er_text :: "string option"
  er_detail :: "string option"

record explain_driver =
  ed_fetch_one :: "string \<Rightarrow> explain_row option"
  ed_fetch_all :: "string \<Rightarrow> explain_row list option"

fun explain_prefix :: "pool_ref \<Rightarrow> string" where
  "explain_prefix Pool_Postgres = ''EXPLAIN (FORMAT JSON) ''"
| "explain_prefix Pool_Mysql = ''EXPLAIN FORMAT=JSON ''"
| "explain_prefix Pool_Sqlite = ''EXPLAIN QUERY PLAN ''"

definition unwrap_or_null :: "json option \<Rightarrow> json" where
  "unwrap_or_null v = (case v of Some x \<Rightarrow> x | None \<Rightarrow> JNull)"

fun join_lines :: "string list \<Rightarrow> string" where
  "join_lines [] = []"
| "join_lines [s] = s"
| "join_lines (s # ss) = s @ CHR 0x0A # join_lines ss"

fun explain_answer ::
  "env \<Rightarrow> explain_driver \<Rightarrow> pool_ref \<Rightarrow> string \<Rightarrow> (int option \<times> string option) option" where
  "explain_answer E ed Pool_Postgres q =
     map_option (\<lambda>row.
       let v = unwrap_or_null (case er_json row of
             Some v \<Rightarrow> Some v | None \<Rightarrow> Option.bind (er_text row) (from_json_str E))
       in (find_number [''Plan Rows''] v, Some (to_json_string E v)))
     (ed_fetch_one ed q)"
| "explain_answer E ed Pool_Mysql q =
     map_option (\<lambda>s.
       let v = unwrap_or_null (from_json_str E s)
       in (find_number [''rows_produced_per_join'', ''rows_examined_per_scan'', ''rows''] v, Some s))
     (Option.bind (ed_fetch_one ed q) er_text)"
| "explain_answer E ed Pool_Sqlite q =
     map_option (\<lambda>rows. (None, Some (join_lines (List.map_filter er_detail rows))))
     (ed_fetch_all ed q)"

definition explain ::
  "env \<Rightarrow> explain_driver \<Rightarrow> pool_ref \<Rightarrow> string \<Rightarrow> (int option \<times> string option) db_step" where
  "explain E ed pool sql =
     (let q = explain_prefix pool @ sql
      in send Read_pool (Fetch q) (\<lambda>_.
           case explain_answer E ed pool q of Some out \<Rightarrow> out | None \<Rightarrow> (None, None)))"

section \<open>The report\<close>

datatype preview_mode = Mode_Explain | Mode_ExecRollback | Mode_Skipped

record preview_report =
  pr_mode :: preview_mode
  pr_estimated_rows :: "int option"
  pr_exact_rows :: "int option"
  pr_plan :: "string option"
  pr_note :: "string option"

definition write_note :: "safety_settings \<Rightarrow> int option \<Rightarrow> string" where
  "write_note settings estimated =
     (case estimated of
        Some rows \<Rightarrow>
          (if ss_exec_preview_row_limit settings < rows
           then ''EXPLAIN estimates '' @ dec_int rows @ '' rows, above the configured '' @
             dec_int (ss_exec_preview_row_limit settings) @
             ''-row review threshold; no statement was executed''
           else ''EXPLAIN-only preview; no target-mutating statement was executed before approval'')
      | None \<Rightarrow> ''EXPLAIN-only preview; no target-mutating statement was executed before approval'')"

definition ddl_note :: string where
  "ddl_note = ''DDL / privilege change'' @ long_dash @
     ''no row-count preview; review the statement directly.''"

definition preview ::
  "env \<Rightarrow> explain_driver \<Rightarrow> pool_ref \<Rightarrow> string \<Rightarrow> classification \<Rightarrow> safety_settings \<Rightarrow>
   preview_report app_result db_step" where
  "preview E ed pool sql c settings h =
     (case cl_kind c of
        Read \<Rightarrow>
          (let ((estimated, plan), h') = explain E ed pool sql h
           in (Inr \<lparr>pr_mode = Mode_Explain, pr_estimated_rows = estimated, pr_exact_rows = None,
                   pr_plan = plan, pr_note = None\<rparr>, h'))
      | Write \<Rightarrow>
          (let ((estimated, plan), h') = explain E ed pool sql h
           in (Inr \<lparr>pr_mode = Mode_Explain, pr_estimated_rows = estimated, pr_exact_rows = None,
                   pr_plan = plan, pr_note = Some (write_note settings estimated)\<rparr>, h'))
      | _ \<Rightarrow>
          (Inr \<lparr>pr_mode = Mode_Skipped, pr_estimated_rows = None, pr_exact_rows = None,
                pr_plan = None, pr_note = Some ddl_note\<rparr>, h))"

section \<open>The preview executes nothing\<close>

text \<open>
  C37. A preview executes nothing: it sends at most one command, to the read pool, and that
  command is the engine's plain \<^verbatim>\<open>EXPLAIN\<close> of the text; it sends none for schema and privilege
  changes. It never fails, never reports exact rows, and never claims to have executed and
  rolled back.
\<close>

theorem preview_is_plan_only:
  "\<exists>report new. preview E ed pool sql c settings h = (Inr report, h @ new) \<and>
     new = (if cl_kind c \<in> {Read, Write} then [(Read_pool, Fetch (explain_prefix pool @ sql))] else []) \<and>
     pr_exact_rows report = None \<and> pr_mode report \<noteq> Mode_ExecRollback \<and>
     (pr_mode report = Mode_Skipped \<longleftrightarrow> cl_kind c \<in> {Ddl, Privilege})"
  by (auto simp: preview_def explain_def send_def Let_def case_prod_beta split: query_kind.split)

section \<open>The estimate is one of the plan's numbers\<close>

text \<open>\<open>holds v k n\<close>: somewhere in \<open>v\<close> an object has the number \<open>n\<close> at the key \<open>k\<close>.\<close>

inductive holds :: "json \<Rightarrow> string \<Rightarrow> int \<Rightarrow> bool" where
  holds_here: "map_of kvs k = Some v \<Longrightarrow> json_as_i64 v = Some n \<Longrightarrow> holds (JObject kvs) k n"
| holds_field: "(k', v) \<in> set kvs \<Longrightarrow> holds v k n \<Longrightarrow> holds (JObject kvs) k n"
| holds_element: "v \<in> set vs \<Longrightarrow> holds v k n \<Longrightarrow> holds (JArray vs) k n"

inductive_cases holds_ObjectE: "holds (JObject kvs) k n"
inductive_cases holds_ArrayE: "holds (JArray vs) k n"

lemma first_some_Some: "first_some f xs = Some y \<Longrightarrow> \<exists>x \<in> set xs. f x = Some y"
  by (induction xs) (auto split: option.splits)

lemma first_some_None: "first_some f xs = None \<longleftrightarrow> (\<forall>x \<in> set xs. f x = None)"
  by (induction xs) (auto split: option.splits)

lemma find_number_sound: "find_number keys v = Some n \<Longrightarrow> \<exists>k \<in> set keys. holds v k n"
proof (induction keys v rule: find_number.induct)
  case (1 keys kvs)
  show ?case
  proof (cases "first_some (\<lambda>k. Option.bind (map_of kvs k) json_as_i64) keys")
    case (Some m)
    then obtain k where "k \<in> set keys" "Option.bind (map_of kvs k) json_as_i64 = Some n"
      using 1(2) first_some_Some [OF Some] by auto
    then show ?thesis
      by (intro bexI [of _ k]) (auto simp: bind_eq_Some_conv intro: holds_here)
  next
    case None
    then obtain kv where kv: "kv \<in> set kvs" "find_number keys (snd kv) = Some n"
      using 1(2) first_some_Some [of "\<lambda>kv. find_number keys (snd kv)" kvs n] by auto
    then obtain k where "k \<in> set keys" "holds (snd kv) k n"
      using 1(1) [OF None kv(1)] by blast
    then show ?thesis
      using kv(1) by (intro bexI [of _ k] holds_field [of "fst kv" "snd kv"]) auto
  qed
next
  case (2 keys vs)
  then obtain v where v: "v \<in> set vs" "find_number keys v = Some n"
    using first_some_Some [of "find_number keys" vs n] by auto
  then obtain k where "k \<in> set keys" "holds v k n" using 2(1) by blast
  then show ?case using v(1) by (intro bexI [of _ k] holds_element)
qed simp_all

lemma find_number_complete: "holds v k n \<Longrightarrow> k \<in> set keys \<Longrightarrow> find_number keys v \<noteq> None"
proof (induction rule: holds.induct)
  case (holds_here kvs k v n)
  then have "first_some (\<lambda>k. Option.bind (map_of kvs k) json_as_i64) keys \<noteq> None"
    by (auto simp: first_some_None intro!: bexI [of _ k])
  then show ?case by auto
next
  case (holds_field k' v kvs k n)
  then have "first_some (\<lambda>kv. find_number keys (snd kv)) kvs \<noteq> None"
    by (auto simp: first_some_None intro!: bexI [of _ "(k', v)"])
  then show ?case by (auto split: option.split)
next
  case (holds_element v vs k n)
  then show ?case by (auto simp: first_some_None)
qed

text \<open>
  C99. The row estimate is one of the plan's numbers: \<open>find_number\<close> answers only with a number
  stored at one of its keys somewhere in the plan, and it answers whenever there is one.
\<close>

theorem find_number_exact:
  "(\<forall>n. find_number keys v = Some n \<longrightarrow> (\<exists>k \<in> set keys. holds v k n)) \<and>
   (find_number keys v = None \<longleftrightarrow> \<not> (\<exists>k \<in> set keys. \<exists>n. holds v k n))"
  using find_number_sound find_number_complete by fastforce

lemma find_number_exact_witness:
  "\<exists>k \<in> set [''Plan Rows'']. holds (JArray [JObject [(''Plan'', JObject [(''Plan Rows'', JNumber (PosInt 7))])]]) k 7"
  using find_number_exact [of "[''Plan Rows'']"
      "JArray [JObject [(''Plan'', JObject [(''Plan Rows'', JNumber (PosInt 7))])]]"]
  by (simp add: i64_max_def)

lemma i64_bounds: "i64_min \<le> 0" "0 \<le> i64_max" "i64_min \<le> i64_max"
  by (simp_all add: i64_min_def i64_max_def)

lemma in_i64_range: "in_i64 i = Some n \<Longrightarrow> i64_min \<le> n \<and> n \<le> i64_max"
  by (simp add: in_i64_def split: if_splits)

lemma saturate_i64_range: "i64_min \<le> saturate_i64 i \<and> saturate_i64 i \<le> i64_max"
  using i64_bounds by (simp add: saturate_i64_def)

lemma f64_as_i64_range: "i64_min \<le> f64_as_i64 w \<and> f64_as_i64 w \<le> i64_max"
proof -
  have "\<exists>i. f64_as_i64 w = 0 \<or> f64_as_i64 w = saturate_i64 i"
    unfolding f64_as_i64_def Let_def by (metis (full_types))
  then show ?thesis using saturate_i64_range i64_bounds by auto
qed

lemma parse_i64_range: "parse_i64 s = Some n \<Longrightarrow> i64_min \<le> n \<and> n \<le> i64_max"
  by (cases s) (auto simp: Let_def split: if_splits dest: in_i64_range)

lemma json_as_i64_range: "json_as_i64 v = Some n \<Longrightarrow> i64_min \<le> n \<and> n \<le> i64_max"
proof (induction v rule: json_as_i64.induct)
  case (1 m)
  then show ?case using i64_bounds by (auto simp: min_def)
next
  case (3 w)
  then show ?case using f64_as_i64_range by auto
next
  case (4 s)
  then show ?case using parse_i64_range by auto
qed (auto dest: in_i64_range)

lemma holds_range: "holds v k n \<Longrightarrow> i64_min \<le> n \<and> n \<le> i64_max"
  by (induction rule: holds.induct) (auto dest: json_as_i64_range)

lemma find_number_range: "find_number keys v = Some n \<Longrightarrow> i64_min \<le> n \<and> n \<le> i64_max"
  using find_number_sound holds_range by blast

lemma explain_answer_range:
  assumes "explain_answer E ed pool q = Some (Some n, plan)"
  shows "i64_min \<le> n \<and> n \<le> i64_max"
  using assms by (cases pool) (auto simp: Let_def simp del: find_number.simps dest: find_number_range)

lemma preview_rows_range:
  assumes "preview E ed pool sql c settings h = (Inr report, h')"
  shows "pr_exact_rows report = None"
    "pr_estimated_rows report = Some n \<Longrightarrow> i64_min \<le> n \<and> n \<le> i64_max"
proof -
  have est: "fst (fst (explain E ed pool sql h)) = Some n \<Longrightarrow> i64_min \<le> n \<and> n \<le> i64_max" for n
    using explain_answer_range [of E ed pool "explain_prefix pool @ sql" n]
    by (cases "explain_answer E ed pool (explain_prefix pool @ sql)")
      (auto simp: explain_def send_def Let_def simp del: explain_answer.simps)
  then show "pr_exact_rows report = None"
    "pr_estimated_rows report = Some n \<Longrightarrow> i64_min \<le> n \<and> n \<le> i64_max"
    using assms by (auto simp: preview_def case_prod_beta Let_def split: query_kind.splits)
qed

end
