(* ===== verification/Query_Plan.thy ===== *)
theory Query_Plan
  imports Operation_Service Safety_Gate Impact_Preview Audit_Log
begin

text \<open>
  SQL planning in \<^verbatim>\<open>src/src-tauri/src/services/query_service.rs\<close>: the impact preview and the
  proposal of one statement, which meet the safety layers, the captured policy and the
  Operation Runtime. The connection manager, the store's settings and the database are the
  fields of \<open>query_env\<close>; settings are read once for the preview and again for the proposal.
\<close>

section \<open>What the service calls\<close>

datatype connection_access = Access_Read | Access_Write

record 'row query_env =
  qe_env :: env
  qe_parse :: "dialect \<Rightarrow> string \<Rightarrow> string + statement list"
  qe_pin_for_view :: "uuid \<Rightarrow> pinned_connection app_result"
  qe_pin :: "uuid \<Rightarrow> pinned_connection app_result"
  qe_pin_for_read :: "uuid \<Rightarrow> pinned_connection app_result"
  qe_preview_safety :: "uuid \<Rightarrow> safety_settings app_result"
  qe_safety :: "uuid \<Rightarrow> safety_settings app_result"
  qe_connect :: "pinned_connection \<Rightarrow> connection_access \<Rightarrow> unit app_result"
  qe_sql :: "pinned_connection \<Rightarrow> live_connection app_result"
  qe_driver :: "'row driver"
  qe_explain :: explain_driver
  qe_serde_error :: "json \<Rightarrow> string"
  qe_history :: "pinned_connection \<Rightarrow> unit app_result"
  qe_audit_time :: "datetime \<Rightarrow> string"

definition operation_kind_of :: "query_kind \<Rightarrow> operation_kind" where
  "operation_kind_of kind =
     (case kind of Read \<Rightarrow> ReadQuery | Write \<Rightarrow> WriteSql | Ddl \<Rightarrow> Ddl_op | Privilege \<Rightarrow> Privilege_op)"

definition operation_risk :: "classification \<Rightarrow> op_risk_level" where
  "operation_risk c =
     (if cl_no_where c \<and> cl_kind c \<noteq> Read then Risk_Critical
      else (case cl_risk c of Low \<Rightarrow> Risk_Low | Medium \<Rightarrow> Risk_Medium | High \<Rightarrow> Risk_High))"

definition skipped_preview_report :: "string \<Rightarrow> preview_report" where
  "skipped_preview_report note =
     \<lparr>pr_mode = Mode_Skipped, pr_estimated_rows = None, pr_exact_rows = None, pr_plan = None,
      pr_note = Some note\<rparr>"

definition desktop_preview_connection_access ::
  "classification \<Rightarrow> safety_settings \<Rightarrow> connection_access" where
  "desktop_preview_connection_access c settings = Access_Read"

section \<open>The preview\<close>

definition err_role_cannot_execute :: app_error where
  "err_role_cannot_execute = Blocked ''workspace role cannot execute this connection''"

definition check_terminal :: "terminal_authority option \<Rightarrow> pinned_connection \<Rightarrow> unit app_result" where
  "check_terminal terminal pin = (case terminal of None \<Rightarrow> Inr () | Some ta \<Rightarrow> ensure_pin ta pin)"

definition skip_note :: "workspace_connection_access \<Rightarrow> safety_settings \<Rightarrow> classification \<Rightarrow> string option" where
  "skip_note access settings c =
     (let is_non_read = (cl_kind c \<noteq> Read) in
      if is_non_read \<and> \<not> can_write access
      then Some (''workspace role is read-only'' @ long_dash @ ''write preview skipped'')
      else if is_non_read \<and> \<not> ss_allow_writes settings
      then Some (''writes are disabled for this connection'' @ long_dash @
        ''impact preview skipped (no rows locked)'')
      else if cl_kind c \<in> {Ddl, Privilege} then Some ddl_note
      else None)"

definition preview_checks ::
  "'row query_env \<Rightarrow> uuid \<Rightarrow> string \<Rightarrow> terminal_authority option \<Rightarrow>
   (pinned_connection \<times> safety_settings \<times> classification) app_result" where
  "preview_checks Q connection_id sql terminal =
     rbind (qe_pin_for_view Q connection_id) (\<lambda>pin.
     rbind (check_terminal terminal pin) (\<lambda>_.
     rbind (qe_preview_safety Q (pin_connection_id pin)) (\<lambda>settings.
     rbind (classify (qe_parse Q) sql (cp_engine (pin_profile pin))) (\<lambda>c.
     rbind (guard (cl_kind c = Read \<and> \<not> can_read (cp_workspace_access (pin_profile pin)))
       err_role_cannot_execute) (\<lambda>_.
     Inr (pin, settings, c))))))"

definition preview_sql ::
  "'row query_env \<Rightarrow> uuid \<Rightarrow> string \<Rightarrow> terminal_authority option \<Rightarrow> db_log \<Rightarrow>
   (preview_report \<times> pinned_connection) app_result \<times> db_log" where
  "preview_sql Q connection_id sql terminal h =
     (case preview_checks Q connection_id sql terminal of
        Inl e \<Rightarrow> (Inl e, h)
      | Inr (pin, settings, c) \<Rightarrow>
          (case skip_note (cp_workspace_access (pin_profile pin)) settings c of
             Some note \<Rightarrow> (Inr (skipped_preview_report note, pin), h)
           | None \<Rightarrow>
               (case rbind (qe_connect Q pin (desktop_preview_connection_access c settings))
                       (\<lambda>_. qe_sql Q pin) of
                  Inl e \<Rightarrow> (Inl e, h)
                | Inr live \<Rightarrow>
                    (case preview (qe_env Q) (qe_explain Q) (lc_read_pool live) sql c settings h of
                       (r, h') \<Rightarrow> (rbind r (\<lambda>report. Inr (report, pin)), h')))))"

section \<open>The stored payload\<close>

record desktop_payload =
  dp_sql :: string
  dp_history_origin :: string

definition desktop_payload_value :: "desktop_payload \<Rightarrow> json" where
  "desktop_payload_value p =
     JObject [(''sql'', JString (dp_sql p)), (''historyOrigin'', JString (dp_history_origin p))]"

text \<open>
  The derived reader: an object with these two fields and no other, or the array of their
  values.
\<close>

fun read_desktop_payload :: "json \<Rightarrow> desktop_payload option" where
  "read_desktop_payload (JObject kvs) =
     (if fst ` set kvs \<subseteq> {''sql'', ''historyOrigin''}
      then (case (Option.bind (map_of kvs ''sql'') json_as_str,
                  Option.bind (map_of kvs ''historyOrigin'') json_as_str) of
              (Some s, Some origin) \<Rightarrow> Some \<lparr>dp_sql = s, dp_history_origin = origin\<rparr>
            | _ \<Rightarrow> None)
      else None)"
| "read_desktop_payload (JArray [JString s, JString origin]) =
     Some \<lparr>dp_sql = s, dp_history_origin = origin\<rparr>"
| "read_desktop_payload v = None"

lemma read_desktop_payload_value [simp]: "read_desktop_payload (desktop_payload_value p) = Some p"
  by (simp add: desktop_payload_value_def)

fun preview_mode_str :: "preview_mode \<Rightarrow> string" where
  "preview_mode_str Mode_Explain = ''explain''"
| "preview_mode_str Mode_ExecRollback = ''execRollback''"
| "preview_mode_str Mode_Skipped = ''skipped''"

definition json_opt_i64 :: "int option \<Rightarrow> json" where
  "json_opt_i64 v = (case v of None \<Rightarrow> JNull | Some i \<Rightarrow> json_i64 i)"

definition preview_value :: "preview_report \<Rightarrow> json" where
  "preview_value r = JObject
     [(''mode'', JString (preview_mode_str (pr_mode r))),
      (''estimatedRows'', json_opt_i64 (pr_estimated_rows r)),
      (''exactRows'', json_opt_i64 (pr_exact_rows r)),
      (''plan'', json_opt_string (pr_plan r)),
      (''note'', json_opt_string (pr_note r))]"

section \<open>The proposal\<close>

record sql_proposal_request =
  sp_connection_id :: uuid
  sp_sql :: string
  sp_origin :: "string option"

record sql_proposal_receipt =
  spr_operation_id :: uuid
  spr_payload_hash :: string
  spr_state :: operation_state
  spr_approval_required :: bool
  spr_auto_run :: bool
  spr_confirmation_phrase :: "string option"
  spr_expires_at :: datetime
  spr_classification :: classification
  spr_preview :: preview_report

definition query_plan_ttl :: int where
  "query_plan_ttl = 30 * 1000000000"

definition write_proposal_ttl :: int where
  "write_proposal_ttl = 5 * 60 * 1000000000"

definition err_read_only_role :: app_error where
  "err_read_only_role = Blocked ''your workspace role grants read-only database access''"

definition proposal_actor :: "pinned_connection \<Rightarrow> terminal_authority option \<Rightarrow> string \<Rightarrow> operation_actor" where
  "proposal_actor pin terminal history_origin =
     (case terminal of
        Some ta \<Rightarrow>
          (let actor = agent_actor_for_pin pin ''cli'' ''cli''
           in actor\<lparr>actor_provenance := (actor_provenance actor)
                \<lparr>client_protocol_version := Some (unat (ta_client_protocol_version ta))\<rparr>\<rparr>)
      | None \<Rightarrow> actor_for_pin pin history_origin)"

definition proposal_checks ::
  "'row query_env \<Rightarrow> pinned_connection \<Rightarrow> string \<Rightarrow> (safety_settings \<times> classification) app_result" where
  "proposal_checks Q pin sql =
     rbind (qe_safety Q (pin_connection_id pin)) (\<lambda>settings.
     rbind (classify (qe_parse Q) sql (cp_engine (pin_profile pin))) (\<lambda>c.
     rbind (guard (cl_kind c \<noteq> Read \<and> \<not> can_write (cp_workspace_access (pin_profile pin)))
       err_read_only_role) (\<lambda>_.
     (case decide settings c of
        Block reason \<Rightarrow> Inl (Blocked reason)
      | _ \<Rightarrow> Inr (settings, c)))))"

definition proposal_operation ::
  "env \<Rightarrow> pinned_connection \<Rightarrow> terminal_authority option \<Rightarrow> string \<Rightarrow> string \<Rightarrow> safety_settings \<Rightarrow>
   classification \<Rightarrow> preview_report \<Rightarrow> uuid \<Rightarrow> datetime \<Rightarrow> new_operation" where
  "proposal_operation E pin terminal sql history_origin settings c report operation_id expires_at =
     (let policy = capture_policy E pin settings in
      \<lparr>n_id = operation_id, n_workspace_id = pin_workspace_id pin,
       n_account_scope = storage_key (pin_account_scope pin),
       n_connection_id = pin_connection_id pin,
       n_connection_revision = pin_connection_revision pin,
       n_terminal_session_id = map_option ta_terminal_session_id terminal,
       n_actor = proposal_actor pin terminal history_origin,
       n_kind = operation_kind_of (cl_kind c), n_payload_schema_version = 1,
       n_payload = desktop_payload_value \<lparr>dp_sql = sql, dp_history_origin = history_origin\<rparr>,
       n_schema_fingerprint = None, n_risk_level = operation_risk c,
       n_preview = preview_value report, n_policy_snapshot = po_snapshot policy,
       n_policy_revision = po_revision policy, n_single_use = True,
       n_idempotency_key = uuid_to_string E operation_id, n_expires_at = Some expires_at\<rparr>)"

text \<open>\<open>now\<close> is the reading of the clock for the expiry, \<open>t1\<close> and \<open>t2\<close> those of the runtime.\<close>

definition propose_sql ::
  "'row query_env \<Rightarrow> operation_runtime \<Rightarrow> sql_proposal_request \<Rightarrow> terminal_authority option \<Rightarrow>
   uuid \<Rightarrow> datetime \<Rightarrow> datetime \<Rightarrow> uuid \<Rightarrow> datetime \<Rightarrow> uuid \<Rightarrow> ledger \<times> db_log \<Rightarrow>
   sql_proposal_receipt app_result \<times> ledger \<times> db_log" where
  "propose_sql Q rt q terminal operation_id now t1 ev1 t2 ev2 = (\<lambda>(db, h).
     (case preview_sql Q (sp_connection_id q) (sp_sql q) terminal h of
        (Inl e, h') \<Rightarrow> (Inl e, db, h')
      | (Inr (report, pin), h') \<Rightarrow>
          (case proposal_checks Q pin (sp_sql q) of
             Inl e \<Rightarrow> (Inl e, db, h')
           | Inr (settings, c) \<Rightarrow>
               (let is_write = (cl_kind c \<noteq> Read);
                    history_origin = (case sp_origin q of Some s \<Rightarrow> s | None \<Rightarrow> ''manual'');
                    expires_at = now + (if is_write then write_proposal_ttl else query_plan_ttl);
                    disposition = (if is_write then Plan_ApprovalRequired else Plan_Ready);
                    operation = proposal_operation (qe_env Q) pin terminal (sp_sql q) history_origin
                      settings c report operation_id expires_at
                in (case rt_plan (qe_env Q) rt operation disposition t1 ev1 t2 ev2 db of
                      (Inl e, db') \<Rightarrow> (Inl e, db', h')
                    | (Inr rec, db') \<Rightarrow>
                        (Inr \<lparr>spr_operation_id = o_id rec, spr_payload_hash = o_payload_hash rec,
                              spr_state = o_state rec, spr_approval_required = is_write,
                              spr_auto_run = (\<not> is_write \<and> ss_auto_run_reads settings),
                              spr_confirmation_phrase = required_confirmation rec,
                              spr_expires_at = expires_at, spr_classification = c,
                              spr_preview = report\<rparr>, db', h'))))))"

definition propose_desktop_sql where
  "propose_desktop_sql Q rt q = propose_sql Q rt q None"

definition propose_terminal_sql where
  "propose_terminal_sql Q rt connection_id sql ta =
     propose_sql Q rt \<lparr>sp_connection_id = connection_id, sp_sql = sql, sp_origin = Some ''cli''\<rparr> (Some ta)"

definition classify_desktop_sql ::
  "'row query_env \<Rightarrow> uuid \<Rightarrow> string \<Rightarrow> classification app_result" where
  "classify_desktop_sql Q connection_id sql =
     rbind (qe_pin_for_view Q connection_id) (\<lambda>pin.
     classify (qe_parse Q) sql (cp_engine (pin_profile pin)))"

section \<open>Proposals are gated\<close>

lemma may_mutate_operation_kind [simp]: "may_mutate_target (operation_kind_of k) \<longleftrightarrow> k \<noteq> Read"
  by (cases k) (simp_all add: operation_kind_of_def)

lemma preview_sql_log:
  assumes "preview_sql Q connection_id sql terminal h = (r, h')"
  shows "\<exists>new. h' = h @ new \<and> length new \<le> 1 \<and>
    (\<forall>x \<in> set new. \<exists>pool. x = (Read_pool, Fetch (explain_prefix pool @ sql)))"
proof -
  have sent: "\<exists>new. snd (preview E ed pool sql c settings h) = h @ new \<and> length new \<le> 1 \<and>
      (\<forall>x \<in> set new. \<exists>pool. x = (Read_pool, Fetch (explain_prefix pool @ sql)))" for E ed pool c settings
    by (auto simp: preview_def explain_def send_def Let_def case_prod_beta split: query_kind.split)
  show ?thesis
  proof (cases "h' = h")
    case True
    then show ?thesis by (intro exI [of _ "[]"]) simp
  next
    case False
    then obtain ed pool c settings where "h' = snd (preview (qe_env Q) ed pool sql c settings h)"
      using assms unfolding preview_sql_def
      by (auto split: sum.splits option.splits prod.splits) (metis snd_conv)
    then show ?thesis using sent by simp
  qed
qed

lemma decide_not_block:
  assumes "\<forall>r. decide settings c \<noteq> Block r"
  shows "cl_kind c \<noteq> Privilege" "cl_kind c \<noteq> Read \<Longrightarrow> ss_allow_writes settings" "cl_statement_count c \<le> 1"
  using assms by (auto simp: decide_def split: query_kind.splits if_splits)

lemma proposal_checks_Inr:
  assumes "proposal_checks Q pin sql = Inr (settings, c)"
  shows "qe_safety Q (pin_connection_id pin) = Inr settings"
    and "classify (qe_parse Q) sql (cp_engine (pin_profile pin)) = Inr c"
    and "cl_kind c \<noteq> Read \<Longrightarrow> can_write (cp_workspace_access (pin_profile pin))"
    and "\<forall>r. decide settings c \<noteq> Block r"
proof -
  obtain s c' where run: "qe_safety Q (pin_connection_id pin) = Inr s"
    "classify (qe_parse Q) sql (cp_engine (pin_profile pin)) = Inr c'"
    "\<not> (cl_kind c' \<noteq> Read \<and> \<not> can_write (cp_workspace_access (pin_profile pin)))"
    "(case decide s c' of Block reason \<Rightarrow> Inl (Blocked reason) | _ \<Rightarrow> Inr (s, c')) = Inr (settings, c)"
    using assms by (auto simp: proposal_checks_def rbind_eq_Inr simp del: can_write.simps)
  have "s = settings \<and> c' = c \<and> (\<forall>r. decide s c' \<noteq> Block r)"
    using run(4) by (cases "decide s c'") simp_all
  then show "qe_safety Q (pin_connection_id pin) = Inr settings"
    and "classify (qe_parse Q) sql (cp_engine (pin_profile pin)) = Inr c"
    and "cl_kind c \<noteq> Read \<Longrightarrow> can_write (cp_workspace_access (pin_profile pin))"
    and "\<forall>r. decide settings c \<noteq> Block r"
    using run by blast+
qed

lemma propose_sql_Inr:
  assumes "propose_sql Q rt q terminal operation_id now t1 ev1 t2 ev2 (db, h) = (Inr receipt, db', h')"
  obtains report pin settings c rec where
    "preview_sql Q (sp_connection_id q) (sp_sql q) terminal h = (Inr (report, pin), h')"
    "proposal_checks Q pin (sp_sql q) = Inr (settings, c)"
    "rt_plan (qe_env Q) rt (proposal_operation (qe_env Q) pin terminal (sp_sql q)
        (case sp_origin q of Some s \<Rightarrow> s | None \<Rightarrow> ''manual'') settings c report operation_id
        (now + (if cl_kind c \<noteq> Read then write_proposal_ttl else query_plan_ttl)))
      (if cl_kind c \<noteq> Read then Plan_ApprovalRequired else Plan_Ready) t1 ev1 t2 ev2 db = (Inr rec, db')"
    "spr_state receipt = o_state rec" "spr_operation_id receipt = o_id rec"
    "spr_payload_hash receipt = o_payload_hash rec" "spr_classification receipt = c"
    "spr_approval_required receipt \<longleftrightarrow> cl_kind c \<noteq> Read"
    "spr_auto_run receipt \<longleftrightarrow> cl_kind c = Read \<and> ss_auto_run_reads settings"
    "spr_confirmation_phrase receipt = required_confirmation rec"
    "spr_expires_at receipt = now + (if cl_kind c \<noteq> Read then write_proposal_ttl else query_plan_ttl)"
  using assms unfolding propose_sql_def
  by (auto simp: Let_def split: sum.splits prod.splits)

lemma preview_sql_pin:
  assumes "preview_sql Q connection_id sql terminal h = (Inr (report, pin), h')"
  shows "qe_pin_for_view Q connection_id = Inr pin" "check_terminal terminal pin = Inr ()"
  using assms unfolding preview_sql_def
  by (auto simp: preview_checks_def rbind_eq_Inr split: sum.splits option.splits prod.splits)


section \<open>Proposals keep the text\<close>

lemma plain_payload [simp]: "json_plain (desktop_payload_value p)"
  by (simp add: desktop_payload_value_def json_plain_def)

lemma canonical_payload: "read_desktop_payload (canonical_value (desktop_payload_value p)) = Some p"
  by (simp add: desktop_payload_value_def)

lemma plain_preview:
  "(\<forall>i. pr_estimated_rows r = Some i \<longrightarrow> is_i64 i) \<Longrightarrow> (\<forall>i. pr_exact_rows r = Some i \<longrightarrow> is_i64 i) \<Longrightarrow>
   json_plain (preview_value r)"
  by (auto simp: preview_value_def json_plain_def json_opt_i64_def json_opt_string_def json_i64_def is_i64_def
      split: option.split)

lemma is_i64_bounds: "is_i64 i \<longleftrightarrow> i64_min \<le> i \<and> i \<le> i64_max"
  by (auto simp: is_i64_def i64_min_def i64_max_def)

lemma preview_sql_range:
  assumes "preview_sql Q connection_id sql terminal h = (Inr (report, pin), h')"
  shows "\<forall>i. pr_estimated_rows report = Some i \<longrightarrow> is_i64 i"
    and "\<forall>i. pr_exact_rows report = Some i \<longrightarrow> is_i64 i"
proof -
  have "(\<exists>note. report = skipped_preview_report note) \<or>
      (\<exists>ed pool c settings. preview (qe_env Q) ed pool sql c settings h = (Inr report, h'))"
    using assms unfolding preview_sql_def
    by (auto simp: rbind_eq_Inr split: sum.splits option.splits prod.splits)
  then have "(\<forall>i. pr_estimated_rows report = Some i \<longrightarrow> is_i64 i) \<and>
      (\<forall>i. pr_exact_rows report = Some i \<longrightarrow> is_i64 i)"
  proof (elim disjE exE)
    fix n
    assume "report = skipped_preview_report n"
    then show ?thesis by (simp add: skipped_preview_report_def)
  next
    fix ed pool c settings
    assume run: "preview (qe_env Q) ed pool sql c settings h = (Inr report, h')"
    show ?thesis
      using preview_rows_range(2) [OF run] preview_rows_range(1) [OF run] by (auto simp: is_i64_bounds)
  qed
  then show "\<forall>i. pr_estimated_rows report = Some i \<longrightarrow> is_i64 i"
    and "\<forall>i. pr_exact_rows report = Some i \<longrightarrow> is_i64 i" by blast+
qed

lemma version_ok_proposal: "version_ok (actor_provenance (proposal_actor pin terminal origin))"
proof -
  have "unat v < 65536" for v :: "16 word"
    using unsigned_less [of v] by simp
  then show ?thesis
    by (auto simp: version_ok_def proposal_actor_def agent_actor_for_pin_def actor_for_pin_def
        no_provenance_def Let_def split: option.split account_scope.split)
qed

text \<open>
  A proposal keeps the exact text: for a fresh identifier, the operation the receipt names is
  in the ledger afterwards, its stored payload decodes to exactly the proposed text and origin,
  the receipt carries its digest, it expires when the receipt says, and it waits for approval if
  it is a mutation and is ready otherwise.
\<close>

theorem proposal_keeps_the_text:
  assumes "env_ok (qe_env Q)" "reachable (qe_env Q) db" "rfc3339_range t1" "rfc3339_range t2"
    and "propose_sql Q rt q terminal operation_id now t1 ev1 t2 ev2 (db, h) = (Inr receipt, db', h')"
    and "expiry_in_range (Some (now + write_proposal_ttl))" "expiry_in_range (Some (now + query_plan_ttl))"
    and "qe_pin_for_view Q (sp_connection_id q) = Inr pin"
    and "\<forall>settings. qe_safety Q (pin_connection_id pin) = Inr settings \<longrightarrow> policy_numbers_ok pin settings"
    and "\<forall>r \<in> set (db_operations db). r_idempotency_key r \<noteq> uuid_to_string (qe_env Q) operation_id"
  shows "\<exists>rec. get_operation (qe_env Q) operation_id db' = Inr rec \<and>
    spr_operation_id receipt = operation_id \<and> spr_payload_hash receipt = o_payload_hash rec \<and>
    read_desktop_payload (o_payload rec) =
      Some \<lparr>dp_sql = sp_sql q,
        dp_history_origin = (case sp_origin q of Some s \<Rightarrow> s | None \<Rightarrow> ''manual'')\<rparr> \<and>
    o_expires_at rec = Some (spr_expires_at receipt) \<and> spr_state receipt = o_state rec \<and>
    o_state rec = (if spr_approval_required receipt then PendingApproval else Ready)"
proof -
  let ?E = "qe_env Q"
  obtain report pin' settings c rec where run:
    "preview_sql Q (sp_connection_id q) (sp_sql q) terminal h = (Inr (report, pin'), h')"
    "proposal_checks Q pin' (sp_sql q) = Inr (settings, c)"
    "rt_plan ?E rt (proposal_operation ?E pin' terminal (sp_sql q)
        (case sp_origin q of Some s \<Rightarrow> s | None \<Rightarrow> ''manual'') settings c report operation_id
        (now + (if cl_kind c \<noteq> Read then write_proposal_ttl else query_plan_ttl)))
      (if cl_kind c \<noteq> Read then Plan_ApprovalRequired else Plan_Ready) t1 ev1 t2 ev2 db = (Inr rec, db')"
    "spr_state receipt = o_state rec" "spr_operation_id receipt = o_id rec"
    "spr_payload_hash receipt = o_payload_hash rec"
    "spr_approval_required receipt \<longleftrightarrow> cl_kind c \<noteq> Read"
    "spr_expires_at receipt = now + (if cl_kind c \<noteq> Read then write_proposal_ttl else query_plan_ttl)"
    by (rule propose_sql_Inr [OF assms(5)]) (rule that)
  let ?n = "proposal_operation ?E pin' terminal (sp_sql q)
        (case sp_origin q of Some s \<Rightarrow> s | None \<Rightarrow> ''manual'') settings c report operation_id
        (now + (if cl_kind c \<noteq> Read then write_proposal_ttl else query_plan_ttl))"
  have "pin' = pin" using preview_sql_pin(1) [OF run(1)] assms(8) by simp
  then have "policy_numbers_ok pin' settings"
    using assms(9) proposal_checks_Inr(1) [OF run(2)] by simp
  then have plain: "plain_operation ?n"
    using assms(6,7) plain_preview [OF preview_sql_range [OF run(1)]]
    by (auto simp: plain_operation_def proposal_operation_def Let_def capture_policy_def
        policy_snapshot_plain version_ok_proposal)
  have fresh: "\<not> list_ex (same_key ?E ?n) (db_operations db)"
    using assms(10) by (auto simp: list_ex_iff same_key_def proposal_operation_def Let_def)
  note planned = rt_plan_fresh [OF assms(1,2) plain assms(3,4) fresh run(3)]
  have fields: "n_id ?n = operation_id"
    "n_payload ?n = desktop_payload_value \<lparr>dp_sql = sp_sql q,
      dp_history_origin = (case sp_origin q of Some s \<Rightarrow> s | None \<Rightarrow> ''manual'')\<rparr>"
    "n_expires_at ?n = Some (spr_expires_at receipt)"
    using run(8) by (simp_all add: proposal_operation_def Let_def)
  then show ?thesis
    using planned run(4-7) canonical_payload
    by (auto simp: moved_record_def planned_record_def)
qed

section \<open>A proposal on the reference environment\<close>

text \<open>An update proposed for the pinned connection, whose settings allow writes.\<close>

definition demo_settings :: safety_settings where
  "demo_settings = default_safety\<lparr>ss_allow_writes := True\<rparr>"

definition demo_query_env :: "nat query_env" where
  "demo_query_env = \<lparr>qe_env = ref_env, qe_parse = demo_parser, qe_pin_for_view = (\<lambda>_. Inr demo_pin),
     qe_pin = (\<lambda>_. Inr demo_pin), qe_pin_for_read = (\<lambda>_. Inr demo_pin), qe_preview_safety = (\<lambda>_. Inr demo_settings),
     qe_safety = (\<lambda>_. Inr demo_settings), qe_connect = (\<lambda>_ _. Inr ()),
     qe_sql = (\<lambda>_. Inr \<lparr>lc_read_pool = Pool_Postgres, lc_write_pool = Pool_Postgres\<rparr>),
     qe_driver = demo_driver, qe_explain = \<lparr>ed_fetch_one = (\<lambda>_. None), ed_fetch_all = (\<lambda>_. None)\<rparr>,
     qe_serde_error = (\<lambda>_. []), qe_history = (\<lambda>_. Inr ()), qe_audit_time = ref_fmt\<rparr>"

definition demo_sql_request :: sql_proposal_request where
  "demo_sql_request = \<lparr>sp_connection_id = 3, sp_sql = ''w'', sp_origin = None\<rparr>"

definition demo_report :: preview_report where
  "demo_report = \<lparr>pr_mode = Mode_Explain, pr_estimated_rows = None, pr_exact_rows = None, pr_plan = None,
     pr_note = Some (write_note demo_settings None)\<rparr>"

definition demo_class :: classification where
  "demo_class = classify_single (Stmt_Update (Table_With_Joins (Factor_Table ''t'') []) False)"

definition demo_proposed :: "operation_kind \<Rightarrow> new_operation" where
  "demo_proposed k = (proposal_operation ref_env demo_pin None ''w'' ''manual'' demo_settings demo_class
     demo_report 1 (900 + write_proposal_ttl))\<lparr>n_kind := k\<rparr>"

lemma demo_engine: "cp_engine (pin_profile demo_pin) \<noteq> Mongodb"
  "can_write (cp_workspace_access (pin_profile demo_pin))"
  by (simp_all add: demo_pin_def demo_profile_def)

lemma demo_classified: "classify demo_parser ''w'' (cp_engine (pin_profile demo_pin)) = Inr demo_class"
  using demo_engine(1)
  by (cases "cp_engine (pin_profile demo_pin)") (simp_all add: classify_def demo_parser_def demo_class_def)

lemma demo_class_fields [simp]:
  "cl_kind demo_class = Write" "cl_no_where demo_class" "cl_risk demo_class = High"
  "cl_statement_count demo_class = 1"
  by (simp_all add: demo_class_def classify_single_def risk_of_def)

lemma demo_preview:
  "preview_sql demo_query_env 3 ''w'' None [] =
     (Inr (demo_report, demo_pin), [(Read_pool, Fetch ''EXPLAIN (FORMAT JSON) w'')])"
  using demo_engine(2)
  by (simp add: preview_sql_def preview_checks_def demo_query_env_def check_terminal_def demo_classified
      skip_note_def demo_settings_def default_safety_def preview_def explain_def send_def Let_def
      demo_report_def del: can_write.simps)

lemma demo_checks: "proposal_checks demo_query_env demo_pin ''w'' = Inr (demo_settings, demo_class)"
  using demo_engine(2)
  by (simp add: proposal_checks_def demo_query_env_def demo_classified decide_def demo_settings_def
      default_safety_def del: can_write.simps)

lemma demo_proposed_plain: "plain_operation (demo_proposed k)"
proof -
  have "policy_numbers_ok demo_pin demo_settings"
    using policy_numbers_demo by (simp add: policy_numbers_ok_def demo_settings_def)
  moreover have "json_plain (preview_value demo_report)"
    by (rule plain_preview) (simp_all add: demo_report_def)
  ultimately show ?thesis
    by (simp add: plain_operation_def demo_proposed_def proposal_operation_def Let_def capture_policy_def
        policy_snapshot_plain version_ok_proposal expiry_in_range_def rfc3339_range_def
        write_proposal_ttl_def)
qed

lemma revision_not_blank: "\<not> blank (po_revision (capture_policy ref_env pin settings))"
proof -
  have "set (sha256_hex ref_env m) \<subseteq> hex_chars" for m
    using lower_hex_chars by (simp add: sha256_hex_def)
  moreover have "sha256_hex ref_env m \<noteq> []" for m
    using length_sha256_hex [OF env_ok_ref_env, of m] by force
  ultimately show ?thesis
    by (simp add: capture_policy_def Let_def canonical_hash_eq not_blank_hex)
qed

lemma demo_proposed_valid: "validate_new_operation (demo_proposed k) = Inr ()"
proof -
  have "uuid_to_string ref_env 1 = [char_of (Suc 0)]"
    by (simp add: ref_env_def digits_le.simps)
  moreover have "\<not> blank [char_of (Suc 0)]" by code_simp
  moreover have "\<not> blank ''personal''" "\<not> blank ''local-user''" "\<not> blank ''manual''"
    by code_simp+
  ultimately show ?thesis
    by (simp add: validate_new_operation_def demo_proposed_def proposal_operation_def Let_def
        proposal_actor_def actor_for_pin_def no_provenance_def revision_not_blank)
qed

lemma demo_proposed_prepare: "\<exists>p. prepare_operation ref_env 9 (demo_proposed k) = Inr p"
proof -
  have "length (enc (n_payload (demo_proposed k))) \<le> 1000"
    by (simp add: demo_proposed_def proposal_operation_def Let_def desktop_payload_value_def length_enc_obj)
  moreover have "length (enc (provenance_to_value (actor_provenance (n_actor (demo_proposed k))))) \<le> 2000"
    by (simp add: demo_proposed_def proposal_operation_def Let_def proposal_actor_def actor_for_pin_def
        no_provenance_def provenance_to_value_def provenance_entries_def opt_field_def length_enc_obj)
  moreover have "length (enc (n_preview (demo_proposed k))) \<le> 2000"
    by (simp add: demo_proposed_def proposal_operation_def Let_def preview_value_def length_enc_obj
        demo_report_def json_opt_i64_def json_opt_string_def write_note_def)
  moreover have "length (enc (n_policy_snapshot (demo_proposed k))) \<le> 200000"
    using length_digits_le [of 1] length_digits_le [of 1000] length_digits_le [of 50000] length_ref_uuid [of 2]
    by (simp add: demo_proposed_def proposal_operation_def Let_def capture_policy_def
        policy_snapshot_of_def length_enc_obj demo_pin_def demo_profile_def json_i64_def
        json_opt_string_def safety_to_value_def demo_settings_def default_safety_def
        pin_workspace_id_def pin_account_scope_def split: option.split)
  moreover have "length (to_json_string ref_env (canonical_value v)) = length (enc v)" for v
    by (simp add: ref_env_def)
  ultimately show ?thesis
    by (simp add: prepare_operation_def demo_proposed_valid canonical_from_value_def Let_def
        max_request_bytes_def max_response_bytes_def)
qed

abbreviation demo_proposed_rec :: "operation_kind \<Rightarrow> operation_record" where
  "demo_proposed_rec k \<equiv> moved_record PendingApproval 1 (planned_record ref_env 9 (demo_proposed k) 0)"

definition demo_proposed_prepared :: "operation_kind \<Rightarrow> prepared_operation" where
  "demo_proposed_prepared k = (case prepare_operation ref_env 9 (demo_proposed k) of Inr p \<Rightarrow> p)"

definition demo_proposed_planned :: "operation_kind \<Rightarrow> ledger" where
  "demo_proposed_planned k = planned_ledger ref_env (demo_proposed_prepared k) 0 101 empty_ledger"

definition demo_proposed_pending :: "operation_kind \<Rightarrow> ledger" where
  "demo_proposed_pending k = moved_ledger ref_env (operation_row_of ref_env (demo_proposed_prepared k) 0)
     (planned_record ref_env 9 (demo_proposed k) 0) PendingApproval (disposition_details Plan_ApprovalRequired)
     1 102 (demo_proposed_planned k)"

lemma demo_prepared_eq: "prepare_operation ref_env 9 (demo_proposed k) = Inr (demo_proposed_prepared k)"
  using demo_proposed_prepare [of k] by (auto simp: demo_proposed_prepared_def)

lemma demo_proposed_fields [simp]:
  "n_id (demo_proposed k) = 1" "n_kind (demo_proposed k) = k"
  "n_expires_at (demo_proposed k) = Some (900 + write_proposal_ttl)"
  "n_risk_level (demo_proposed k) = Risk_Critical"
  by (simp_all add: demo_proposed_def proposal_operation_def Let_def operation_kind_of_def operation_risk_def)

lemma demo_proposed_events:
  "map er_id (db_events (demo_proposed_planned k)) = [uuid_to_string ref_env 101]"
  "map er_id (db_events (demo_proposed_pending k)) = [uuid_to_string ref_env 101, uuid_to_string ref_env 102]"
  "db_approvals (demo_proposed_pending k) = []"
  by (simp_all add: demo_proposed_planned_def demo_proposed_pending_def planned_ledger_def moved_ledger_def
      Let_def empty_ledger_def new_event_row_def)

lemma demo_proposed_run:
  "rt_plan ref_env \<lparr>rt_runtime_id = 9\<rparr> (demo_proposed k) Plan_ApprovalRequired 0 101 1 102 empty_ledger =
     (Inr (demo_proposed_rec k), (demo_proposed_pending k))"
  "get_operation ref_env 1 (demo_proposed_pending k) = Inr (demo_proposed_rec k)"
  "reachable ref_env (demo_proposed_pending k)"
proof -
  let ?rt = "\<lparr>rt_runtime_id = 9\<rparr>"
  note p = prepare_operation_Inr [OF demo_prepared_eq]
  have fits1: "event_fits ref_env (n_id (demo_proposed k)) (planned_details (demo_proposed_prepared k)) 101 empty_ledger"
  proof (rule demo_fits)
    show "length (enc (planned_details (demo_proposed_prepared k))) \<le> 1000"
      by (simp add: planned_details_def length_enc_obj p canonical_from_value_def Let_def env_ok_ref_env)
  qed (simp_all add: empty_ledger_def)
  have fits2: "event_fits ref_env (n_id (demo_proposed k)) (disposition_details Plan_ApprovalRequired) 102
      (planned_ledger ref_env (demo_proposed_prepared k) 0 101 empty_ledger)"
  proof (rule demo_fits)
    have "set (map er_id (db_events (demo_proposed_planned k))) = {uuid_to_string ref_env 101}"
      by (simp only: demo_proposed_events) simp
    then show "uuid_to_string ref_env 102 \<notin>
        er_id ` set (db_events (planned_ledger ref_env (demo_proposed_prepared k) 0 101 empty_ledger))"
      by (simp add: demo_proposed_planned_def env_ok_ref_env)
    show "length (db_events (planned_ledger ref_env (demo_proposed_prepared k) 0 101 empty_ledger)) < 100"
      using arg_cong [OF demo_proposed_events(1), of length] by (simp add: demo_proposed_planned_def)
  qed (simp_all, simp add: disposition_details_def length_enc_obj)
  have prep: "prepare_operation ref_env (rt_runtime_id ?rt) (demo_proposed k) = Inr (demo_proposed_prepared k)"
    by (simp add: demo_prepared_eq)
  have now: "rfc3339_range 0" "rfc3339_range 1" by (simp_all add: rfc3339_range_def)
  note run = rt_plan_succeeds [OF env_ok_ref_env reachable.init prep demo_proposed_plain now _ _ fits1 fits2]
  show plan: "rt_plan ref_env ?rt (demo_proposed k) Plan_ApprovalRequired 0 101 1 102 empty_ledger
      = (Inr (demo_proposed_rec k), (demo_proposed_pending k))"
    using run(1) by (simp add: demo_proposed_pending_def demo_proposed_planned_def empty_ledger_def)
  show "get_operation ref_env 1 (demo_proposed_pending k) = Inr (demo_proposed_rec k)"
    using run(2) by (simp add: demo_proposed_pending_def demo_proposed_planned_def empty_ledger_def)
  show "reachable ref_env (demo_proposed_pending k)"
    using rt_plan_reachable [OF reachable.init now, of "demo_proposed k" ref_env ?rt Plan_ApprovalRequired 101 102]
      plan by (simp add: expiry_in_range_def rfc3339_range_def write_proposal_ttl_def)
qed

definition demo_receipt :: sql_proposal_receipt where
  "demo_receipt = \<lparr>spr_operation_id = 1, spr_payload_hash = o_payload_hash (demo_proposed_rec WriteSql),
     spr_state = PendingApproval, spr_approval_required = True, spr_auto_run = False,
     spr_confirmation_phrase = required_confirmation (demo_proposed_rec WriteSql),
     spr_expires_at = 900 + write_proposal_ttl, spr_classification = demo_class, spr_preview = demo_report\<rparr>"

lemma demo_proposed_update:
  "proposal_operation ref_env demo_pin None ''w'' ''manual'' demo_settings demo_class demo_report 1
     (900 + write_proposal_ttl) = demo_proposed WriteSql"
  by (simp add: demo_proposed_def proposal_operation_def Let_def operation_kind_of_def)

lemma demo_proposes:
  "propose_sql demo_query_env \<lparr>rt_runtime_id = 9\<rparr> demo_sql_request None 1 900 0 101 1 102 (empty_ledger, []) =
     (Inr demo_receipt, (demo_proposed_pending WriteSql), [(Read_pool, Fetch ''EXPLAIN (FORMAT JSON) w'')])"
proof -
  have "qe_env demo_query_env = ref_env" by (simp add: demo_query_env_def)
  moreover have "o_id (demo_proposed_rec WriteSql) = 1" "o_state (demo_proposed_rec WriteSql) = PendingApproval"
    by (simp_all add: moved_record_def planned_record_def)
  ultimately show ?thesis
    using demo_preview demo_checks demo_proposed_run(1)
    by (simp add: propose_sql_def demo_sql_request_def Let_def demo_proposed_update demo_receipt_def
        del: moved_record_simps)
qed


lemma proposal_keeps_the_text_witness:
  "\<exists>rec. get_operation ref_env 1 (demo_proposed_pending WriteSql) = Inr rec \<and> o_state rec = PendingApproval \<and>
     read_desktop_payload (o_payload rec) = Some \<lparr>dp_sql = ''w'', dp_history_origin = ''manual''\<rparr>"
proof -
  have "qe_env demo_query_env = ref_env" "\<forall>settings. qe_safety demo_query_env (pin_connection_id demo_pin) = Inr settings \<longrightarrow>
      policy_numbers_ok demo_pin settings"
    using policy_numbers_demo
    by (auto simp: demo_query_env_def demo_settings_def policy_numbers_ok_def)
  then show ?thesis
    using proposal_keeps_the_text [OF _ _ _ _ demo_proposes, of demo_pin] env_ok_ref_env reachable.init
    by (auto simp: demo_sql_request_def demo_query_env_def demo_receipt_def empty_ledger_def
        rfc3339_range_def expiry_in_range_def write_proposal_ttl_def query_plan_ttl_def)
qed

end
