(* ===== verification/Executor.thy ===== *)
theory Executor
  imports Db_Session Operation_Runtime Sql_Classify
begin

text \<open>
  The last stage of a statement: \<^verbatim>\<open>src/src-tauri/src/executor/mod.rs\<close> and \<^verbatim>\<open>run_write\<close> of
  \<^verbatim>\<open>src/src-tauri/src/executor/write.rs\<close>. A run is \<open>None\<close> while none of its polls has ended it.
\<close>

definition run_write ::
  "(nat \<Rightarrow> string) \<Rightarrow> 'row driver \<Rightarrow> live_connection \<Rightarrow> string \<Rightarrow> safety_settings \<Rightarrow> execution_grant \<Rightarrow>
   cancel_handle \<Rightarrow> session_poll list \<Rightarrow> db_log \<Rightarrow> (exec_outcome app_result \<times> db_log) option" where
  "run_write show_nat drv live sql settings grant cancellation ps h =
     (if ch_id cancellation \<noteq> eg_operation_id grant then Some (Inl err_write_scope, h)
      else if \<not> ss_allow_writes settings then Some (Inl err_writes_disabled, h)
      else map_option (\<lambda>(r, h'). (rbind r (\<lambda>affected.
             Inr \<lparr>eo_result = None, eo_affected = Some affected, eo_committed = True\<rparr>), h'))
           (guard_session show_nat True ps (write_inner drv live sql) h))"

definition err_needs_grant :: app_error where
  "err_needs_grant = Blocked ''this statement requires an exact approved operation grant''"

definition err_needs_scope :: app_error where
  "err_needs_scope = Blocked ''write execution requires an operation cancellation scope''"

definition execute ::
  "(nat \<Rightarrow> string) \<Rightarrow> 'row driver \<Rightarrow> live_connection \<Rightarrow> classification \<Rightarrow> string \<Rightarrow> safety_settings \<Rightarrow>
   execution_grant option \<Rightarrow> cancel_handle option \<Rightarrow> session_poll list \<Rightarrow> db_log \<Rightarrow>
   (exec_outcome app_result \<times> db_log) option" where
  "execute show_nat drv live c sql settings grant cancellation ps h =
     (if cl_kind c = Read
      then map_option (\<lambda>(r, h'). (rbind r (\<lambda>result.
             Inr \<lparr>eo_result = Some result, eo_affected = None, eo_committed = False\<rparr>), h'))
           (run_read_registered show_nat drv live sql (ss_max_rows settings)
              (cancellation \<noteq> None) ps h)
      else (case grant of
          None \<Rightarrow> Some (Inl err_needs_grant, h)
        | Some g \<Rightarrow>
            (case cancellation of
               None \<Rightarrow> Some (Inl err_needs_scope, h)
             | Some handle \<Rightarrow> run_write show_nat drv live sql settings g handle ps h)))"

text \<open>An error of the guard itself, not of the session it guards.\<close>

definition interruption :: "(nat \<Rightarrow> string) \<Rightarrow> app_error \<Rightarrow> bool" where
  "interruption show_nat e \<longleftrightarrow> e \<in> {err_query_cancelled, err_query_timeout show_nat query_timeout}"

lemma guard_session_cases:
  assumes "guard_session show_nat has_handle ps inner h = Some (r, h')"
  shows "inner h = (r, h') \<or>
    (\<exists>e n. r = Inl e \<and> interruption show_nat e \<and> h' = take (length h + n) (snd (inner h)))"
  using assms
proof (induction ps)
  case (Cons p ps)
  obtain r0 h0 where inner: "inner h = (r0, h0)" by (metis surj_pair)
  show ?case
  proof (cases "guard_poll_result show_nat query_timeout has_handle (poll_of r0 p)")
    case None
    then show ?thesis using Cons inner by simp
  next
    case (Some res)
    then show ?thesis
      using Cons.prems inner
      by (auto simp: guard_poll_result_def poll_of_def interruption_def split: if_splits)
  qed
qed simp

lemma write_inner_shape:
  assumes "write_inner drv live sql h = (r, h')"
  obtains
    (unbegun) e where "h' = h @ [(Write_pool, Begin_tx)]" "r = Inl (Db e)"
  | (failed) e where "h' = h @ [(Write_pool, Begin_tx), (Write_pool, Tx_Execute sql)]" "r = Inl (Db e)"
  | (unacknowledged) e where
      "h' = h @ [(Write_pool, Begin_tx), (Write_pool, Tx_Execute sql), (Write_pool, Commit_tx)]"
      "r = Inl (OutcomeUnknown_error e)"
  | (committed) n where
      "h' = h @ [(Write_pool, Begin_tx), (Write_pool, Tx_Execute sql), (Write_pool, Commit_tx)]"
      "r = Inr n" "dv_execute drv (h @ [(Write_pool, Begin_tx)]) sql = Inr n"
      "\<not> isl (dv_commit drv (h @ [(Write_pool, Begin_tx), (Write_pool, Tx_Execute sql)]))"
proof -
  let ?h1 = "h @ [(Write_pool, Begin_tx)]"
  let ?h2 = "h @ [(Write_pool, Begin_tx), (Write_pool, Tx_Execute sql)]"
  obtain m where unknown: "commit_failure (lc_write_pool live) e = OutcomeUnknown_error (m e)" for e
    by (cases "lc_write_pool live") auto
  note defs = write_inner_def and_then_def app_step_def send_def yield_result_def db_app_error_def
  show thesis
  proof (cases "dv_begin drv h")
    case (Inl e)
    then show thesis using assms by (intro unbegun) (auto simp: defs)
  next
    case begun: (Inr u)
    show thesis
    proof (cases "dv_execute drv ?h1 sql")
      case (Inl e)
      then show thesis using assms begun by (intro failed) (auto simp: defs)
    next
      case ran: (Inr n)
      show thesis
      proof (cases "dv_commit drv ?h2")
        case (Inl e)
        then show thesis
          using assms begun ran by (intro unacknowledged) (auto simp: defs unknown)
      next
        case (Inr v)
        then show thesis
          using assms begun ran by (intro committed) (auto simp: defs)
      qed
    qed
  qed
qed

lemma read_inner_log:
  "\<exists>new. snd (read_inner drv live sql limit h) = h @ new \<and> (\<forall>x \<in> set new. fst x = Read_pool)"
  by (auto simp: read_inner_def fetch_capped_def send_def with_headers_def split: sum.split prod.split)

lemma write_inner_log:
  "\<exists>new. snd (write_inner drv live sql h) = h @ new \<and>
     prefix new [(Write_pool, Begin_tx), (Write_pool, Tx_Execute sql), (Write_pool, Commit_tx)]"
proof -
  obtain r h' where run: "write_inner drv live sql h = (r, h')" by (metis surj_pair)
  then show ?thesis by (cases rule: write_inner_shape) (simp_all add: run)
qed

lemma guard_session_log:
  assumes "guard_session show_nat has_handle ps inner h = Some (r, h')" "snd (inner h) = h @ new"
  shows "\<exists>sent. h' = h @ sent \<and> prefix sent new"
  using guard_session_cases [OF assms(1)] assms(2)
  by (auto simp: take_is_prefix)

text \<open>The log of one read session: the text is fetched once, after what makes the session read-only.\<close>

definition read_session_log :: "pool_ref \<Rightarrow> string \<Rightarrow> db_log \<Rightarrow> bool" where
  "read_session_log pool sql new \<longleftrightarrow> (\<forall>x \<in> set new. fst x = Read_pool) \<and>
     (\<forall>s q. (s, Fetch q) \<in> set new \<longrightarrow> q = sql \<and>
        (\<exists>cmds rest. new = ((Read_pool, Acquire) # executes cmds) @ (Read_pool, Fetch q) # rest \<and>
           subseq (protection pool) cmds))"

lemma read_session_log_prefix:
  assumes "read_session_log pool sql new" "prefix sent new"
  shows "read_session_log pool sql sent"
proof -
  obtain more where more: "new = sent @ more" using assms(2) by (auto simp: prefix_def)
  have "\<exists>cmds rest. sent = ((Read_pool, Acquire) # executes cmds) @ (Read_pool, Fetch q) # rest \<and>
      subseq (protection pool) cmds" if fetched: "(s, Fetch q) \<in> set sent" for s q
  proof -
    obtain cmds rest where new: "new = ((Read_pool, Acquire) # executes cmds) @ (Read_pool, Fetch q) # rest"
      "subseq (protection pool) cmds"
      using assms(1) fetched unfolding read_session_log_def more by (metis UnI1 set_append)
    have "\<not> prefix sent ((Read_pool, Acquire) # executes cmds)"
      using fetched set_mono_prefix [of sent "(Read_pool, Acquire) # executes cmds"] by auto
    moreover have "prefix sent (((Read_pool, Acquire) # executes cmds) @ (Read_pool, Fetch q) # rest)"
      using assms(2) new(1) by simp
    ultimately obtain tail where "sent = ((Read_pool, Acquire) # executes cmds) @ tail"
      "prefix tail ((Read_pool, Fetch q) # rest)"
      unfolding prefix_append by blast
    moreover from this have "tail \<noteq> []"
      using \<open>\<not> prefix sent _\<close> by auto
    ultimately show ?thesis using new(2) by (cases tail) auto
  qed
  then show ?thesis using assms(1) by (auto simp: read_session_log_def more)
qed

lemma read_session_inner_log:
  assumes "run_read_only_inner drv pool sql max_rows h0 = (r, h)"
  shows "\<exists>new. h = h0 @ new \<and> read_session_log pool sql new"
proof (cases "dv_acquire drv h0")
  case (Inl e)
  then show ?thesis using assms by (auto simp: run_read_only_inner_def session_simps read_session_log_def)
next
  case (Inr u)
  let ?h1 = "h0 @ [(Read_pool, Acquire)]"
  let ?release = "(Read_pool, Execute (release_command pool))"
  obtain res h2 where body: "protected_read drv pool sql max_rows ?h1 = (res, h2)" by (metis surj_pair)
  have "\<exists>post. h = h2 @ [?release] @ post \<and> set post \<subseteq> {(Read_pool, Describe sql)} \<and> (isl res \<longrightarrow> post = [])"
    using assms body Inr
    by (auto simp: run_read_only_inner_def send_def exec_def with_headers_def
        split: sum.splits prod.splits if_splits)
  then obtain post where post: "h = h2 @ [?release] @ post" "set post \<subseteq> {(Read_pool, Describe sql)}" by blast
  from body show ?thesis
  proof (cases rule: protected_read_shape)
    case (refused cmds)
    then have "read_session_log pool sql (((Read_pool, Acquire) # executes cmds) @ [?release] @ post)"
      using post(2) by (fastforce simp: read_session_log_def)
    then show ?thesis using post(1) refused by auto
  next
    case (ran cmds)
    have "read_session_log pool sql (((Read_pool, Acquire) # executes cmds) @ (Read_pool, Fetch sql) # ?release # post)"
      using post(2) ran(3) by (fastforce simp: read_session_log_def)
    then show ?thesis using post(1) ran by auto
  qed
qed

lemma guarded_read_log:
  assumes "guard_session show_nat has_handle ps (run_read_only_inner drv pool sql max_rows) h0 = Some (r, h)"
  shows "\<exists>sent. h = h0 @ sent \<and> read_session_log pool sql sent"
    and "r = Inr q \<Longrightarrow> length (qr_rows q) \<le> max_rows \<and> qr_row_count q = length (qr_rows q)"
proof -
  let ?inner = "run_read_only_inner drv pool sql max_rows"
  have "?inner h0 = (fst (?inner h0), snd (?inner h0))" by simp
  from read_session_inner_log [OF this] obtain new
    where new: "snd (?inner h0) = h0 @ new" "read_session_log pool sql new"
    by (elim exE conjE)
  from guard_session_log [OF assms new(1)] obtain sent where sent: "h = h0 @ sent" "prefix sent new"
    by (elim exE conjE)
  show "\<exists>sent. h = h0 @ sent \<and> read_session_log pool sql sent"
    using sent(1) read_session_log_prefix [OF new(2) sent(2)] by (intro exI conjI)
  show "length (qr_rows q) \<le> max_rows \<and> qr_row_count q = length (qr_rows q)" if "r = Inr q"
  proof -
    have "?inner h0 = (Inr q, h)" using guard_session_cases [OF assms] that by simp
    then show ?thesis by (rule read_session_rows)
  qed
qed

lemma granted_writes:
  assumes "execute show_nat drv live c sql settings grant cancellation ps h = Some (r, h')"
  shows "\<exists>new. h' = h @ new \<and>
    ((\<exists>a. (Write_pool, a) \<in> set new) \<longrightarrow>
       cl_kind c \<noteq> Read \<and> ss_allow_writes settings \<and>
       (\<exists>g handle. grant = Some g \<and> cancellation = Some handle \<and> ch_id handle = eg_operation_id g) \<and>
       prefix new [(Write_pool, Begin_tx), (Write_pool, Tx_Execute sql), (Write_pool, Commit_tx)])"
proof (cases "cl_kind c = Read")
  case True
  obtain res where g: "guard_session show_nat (cancellation \<noteq> None) ps
      (read_inner drv live sql (ss_max_rows settings)) h = Some (res, h')"
    using assms True by (auto simp: execute_def run_read_registered_def)
  obtain new where "snd (read_inner drv live sql (ss_max_rows settings) h) = h @ new"
      "\<forall>x \<in> set new. fst x = Read_pool"
    using read_inner_log by blast
  moreover obtain sent where "h' = h @ sent" "prefix sent new"
    using guard_session_log [OF g] calculation(1) by blast
  ultimately show ?thesis
    by (intro exI [of _ sent]) (fastforce dest: set_mono_prefix)
next
  case mutating: False
  show ?thesis
  proof (cases "\<exists>g handle. grant = Some g \<and> cancellation = Some handle \<and>
      ch_id handle = eg_operation_id g \<and> ss_allow_writes settings")
    case False
    then have "h' = h"
      using assms mutating
      by (auto simp: execute_def run_write_def split: option.splits if_splits)
    then show ?thesis by (intro exI [of _ "[]"]) simp
  next
    case True
    then obtain res where g: "guard_session show_nat True ps (write_inner drv live sql) h = Some (res, h')"
      using assms mutating by (auto simp: execute_def run_write_def)
    obtain new where "snd (write_inner drv live sql h) = h @ new"
        "prefix new [(Write_pool, Begin_tx), (Write_pool, Tx_Execute sql), (Write_pool, Commit_tx)]"
      using write_inner_log by blast
    moreover obtain sent where "h' = h @ sent" "prefix sent new"
      using guard_session_log [OF g] calculation(1) by blast
    ultimately show ?thesis
      using True mutating by (intro exI [of _ sent]) (auto intro: prefix_order.trans)
  qed
qed

text \<open>
  A target mutation is sent only under its exact grant: if a run sends anything to the write
  pool, the statement is no read, the caller holds a grant and a cancellation handle of the same
  operation, the connection allows writes, and what is sent is a prefix of the transaction that
  executes exactly this text. A read sends nothing to the write pool.
\<close>

theorem writes_are_granted:
  assumes "execute show_nat drv live c sql settings grant cancellation ps h = Some (r, h')"
  shows "\<exists>new. h' = h @ new \<and>
    ((\<exists>a. (Write_pool, a) \<in> set new) \<longrightarrow>
       cl_kind c \<noteq> Read \<and> ss_allow_writes settings \<and>
       (\<exists>g handle. grant = Some g \<and> cancellation = Some handle \<and> ch_id handle = eg_operation_id g) \<and>
       prefix new [(Write_pool, Begin_tx), (Write_pool, Tx_Execute sql), (Write_pool, Commit_tx)])"
  by (rule granted_writes [OF assms])

lemma write_outcome:
  assumes "execute show_nat drv live c sql settings (Some g) (Some handle) ps h = Some (r, h')"
    and "cl_kind c \<noteq> Read" and "(Write_pool, Commit_tx) \<notin> set h"
  shows "(\<forall>outcome. r = Inr outcome \<longrightarrow>
      eo_committed outcome \<and> eo_result outcome = None \<and>
      (\<exists>n pre. h' = pre @ [(Write_pool, Tx_Execute sql), (Write_pool, Commit_tx)] \<and>
         dv_execute drv pre sql = Inr n \<and> eo_affected outcome = Some n \<and>
         \<not> isl (dv_commit drv (pre @ [(Write_pool, Tx_Execute sql)])))) \<and>
    (\<forall>e. r = Inl e \<and> (Write_pool, Commit_tx) \<in> set h' \<longrightarrow>
      (\<exists>m. e = OutcomeUnknown_error m) \<or> interruption show_nat e)"
proof (cases "ch_id handle \<noteq> eg_operation_id g \<or> \<not> ss_allow_writes settings")
  case True
  then show ?thesis
    using assms by (auto simp: execute_def run_write_def split: if_splits)
next
  case False
  then obtain res where g: "guard_session show_nat True ps (write_inner drv live sql) h = Some (res, h')"
    and r: "r = rbind res (\<lambda>affected.
      Inr \<lparr>eo_result = None, eo_affected = Some affected, eo_committed = True\<rparr>)"
    using assms(1,2) by (auto simp: execute_def run_write_def)
  from guard_session_cases [OF g] show ?thesis
  proof (elim disjE exE conjE)
    assume "write_inner drv live sql h = (res, h')"
    then show ?thesis
    proof (cases rule: write_inner_shape)
      case (committed n)
      then show ?thesis
        using r by (intro conjI allI impI) (auto intro!: exI [of _ "h @ [(Write_pool, Begin_tx)]"])
    qed (use r assms(3) in auto)
  qed (use r in auto)
qed

text \<open>
  The outcome of a mutation is never misreported. If the commit was sent, the run either
  succeeded, and then the database accepted the commit and the reported count is the one it
  gave, or it ended with an unknown outcome, or it was interrupted by the guard; any other
  error means that no commit was sent.
\<close>

theorem write_outcome_exact:
  assumes "execute show_nat drv live c sql settings (Some g) (Some handle) ps h = Some (r, h')"
    and "cl_kind c \<noteq> Read" and "(Write_pool, Commit_tx) \<notin> set h"
  shows "(\<forall>outcome. r = Inr outcome \<longrightarrow>
      eo_committed outcome \<and> eo_result outcome = None \<and>
      (\<exists>n pre. h' = pre @ [(Write_pool, Tx_Execute sql), (Write_pool, Commit_tx)] \<and>
         dv_execute drv pre sql = Inr n \<and> eo_affected outcome = Some n \<and>
         \<not> isl (dv_commit drv (pre @ [(Write_pool, Tx_Execute sql)])))) \<and>
    (\<forall>e. r = Inl e \<and> (Write_pool, Commit_tx) \<in> set h' \<longrightarrow>
      (\<exists>m. e = OutcomeUnknown_error m) \<or> interruption show_nat e)"
  by (rule write_outcome [OF assms])

text \<open>A granted write that commits at its second poll.\<close>

definition demo_grant :: execution_grant where
  "demo_grant = \<lparr>eg_operation_id = 7, eg_payload_sha256 = ''h'', eg_connection_id = 3\<rparr>"

definition demo_write_class :: classification where
  "demo_write_class = \<lparr>cl_kind = Write, cl_risk = Medium, cl_statement_count = 1, cl_no_where = False,
     cl_tables = [], cl_notes = [], cl_rollback_safe = True\<rparr>"

definition demo_polls :: "session_poll list" where
  "demo_polls = [\<lparr>sp_cancelled = False, sp_ready = False, sp_sent = 1, sp_elapsed = 5\<rparr>,
     \<lparr>sp_cancelled = False, sp_ready = True, sp_sent = 3, sp_elapsed = 9\<rparr>]"

abbreviation demo_execute :: "(exec_outcome app_result \<times> db_log) option" where
  "demo_execute \<equiv> execute (\<lambda>_. []) demo_driver
     \<lparr>lc_read_pool = Pool_Sqlite, lc_write_pool = Pool_Sqlite\<rparr> demo_write_class ''u''
     (default_safety\<lparr>ss_allow_writes := True\<rparr>) (Some demo_grant) (Some \<lparr>ch_id = 7, ch_rx = 0\<rparr>)
     demo_polls []"

lemma demo_execute_runs:
  "demo_execute = Some (Inr \<lparr>eo_result = None, eo_affected = Some 1, eo_committed = True\<rparr>,
     [(Write_pool, Begin_tx), (Write_pool, Tx_Execute ''u''), (Write_pool, Commit_tx)])"
  by (simp add: execute_def run_write_def demo_write_class_def demo_grant_def demo_polls_def
      default_safety_def guard_poll_result_def poll_of_def query_timeout_def write_inner_def
      and_then_def app_step_def send_def yield_result_def demo_driver_def)

lemma writes_are_granted_witness:
  "\<exists>g. demo_grant = g \<and> ch_id \<lparr>ch_id = 7, ch_rx = 0\<rparr> = eg_operation_id g \<and>
     ss_allow_writes (default_safety\<lparr>ss_allow_writes := True\<rparr>)"
  using writes_are_granted [OF demo_execute_runs] by auto

lemma write_outcome_exact_witness:
  "\<exists>pre n. [(Write_pool, Begin_tx), (Write_pool, Tx_Execute ''u''), (Write_pool, Commit_tx)] =
     pre @ [(Write_pool, Tx_Execute ''u''), (Write_pool, Commit_tx)] \<and>
     dv_execute demo_driver pre ''u'' = Inr n"
proof -
  have "cl_kind demo_write_class \<noteq> Read" by (simp add: demo_write_class_def)
  from write_outcome_exact [OF demo_execute_runs this] show ?thesis by auto
qed

end
