(* ===== verification/Query_Run.thy ===== *)
theory Query_Run
  imports Query_Plan Executor
begin

text \<open>
  The desktop run of one SQL operation, \<^verbatim>\<open>run_desktop_sql\<close> in
  \<^verbatim>\<open>src/src-tauri/src/services/query_service.rs\<close>: from the operation's identifier through the
  durable claim, the audit pre-record and the executor to the recorded outcome. The state is
  the ledger, the audit log, the query history and the log of database commands.
\<close>

section \<open>State and inputs\<close>

record history_entry =
  hy_id :: uuid
  hy_connection_id :: uuid
  hy_sql :: string
  hy_kind :: query_kind
  hy_status :: string
  hy_row_count :: "int option"
  hy_duration_ms :: "int option"
  hy_error :: "string option"
  hy_executed_at :: datetime
  hy_origin :: string

text \<open>The keys of the cached schemas: the tables \<^verbatim>\<open>schema_cache\<close> and \<^verbatim>\<open>schema_cache_v2\<close>.\<close>

record query_state =
  qs_ledger :: ledger
  qs_audit :: audit_log
  qs_history :: "history_entry list"
  qs_schemas :: "(uuid \<times> string) list"
  qs_schemas_v2 :: "(uuid \<times> string \<times> uuid) list"
  qs_log :: db_log

definition clear_schema_cache ::
  "'row query_env \<Rightarrow> uuid \<Rightarrow> query_state \<Rightarrow> unit app_result \<times> query_state" where
  "clear_schema_cache Q connection_id st =
     (case qe_pin_for_read Q connection_id of
        Inl e \<Rightarrow> (Inl e, st)
      | Inr pin \<Rightarrow>
          (let account_scope = storage_key (pin_account_scope pin)
           in (Inr (), st\<lparr>
             qs_schemas := filter (\<lambda>key. key \<noteq> (connection_id, account_scope)) (qs_schemas st),
             qs_schemas_v2 := filter (\<lambda>key. key \<noteq> (pin_workspace_id pin, account_scope, connection_id))
               (qs_schemas_v2 st)\<rparr>)))"

lemma clear_schema_cache_frame [simp]:
  "qs_ledger (snd (clear_schema_cache Q cid st)) = qs_ledger st"
  "qs_audit (snd (clear_schema_cache Q cid st)) = qs_audit st"
  "qs_log (snd (clear_schema_cache Q cid st)) = qs_log st"
  by (simp_all add: clear_schema_cache_def Let_def split: sum.split)

text \<open>
  What one run meets: the receiver of its cancellation handle, whether that was already
  cancelled when the run looked after the claim, the polls of the guarded session, and the successive readings of the clock and new identifiers.
\<close>

record run_inputs =
  ri_cancelled :: bool
  ri_rx :: nat
  ri_polls :: "session_poll list"
  ri_clock :: "nat \<Rightarrow> datetime"
  ri_ids :: "nat \<Rightarrow> uuid"

datatype run_error =
    Run_Blocked string
  | Run_Application app_error
  | Run_Execution app_error

fun run_into_error :: "run_error \<Rightarrow> app_error" where
  "run_into_error (Run_Blocked reason) = Blocked reason"
| "run_into_error (Run_Application e) = e"
| "run_into_error (Run_Execution e) = e"

text \<open>The \<^verbatim>\<open>Display\<close> text of \<^verbatim>\<open>AppError\<close>.\<close>

fun app_error_text :: "app_error \<Rightarrow> string" where
  "app_error_text (Db s) = ''database error: '' @ s"
| "app_error_text (Mongo s) = ''database error: '' @ s"
| "app_error_text (Agent_error s) = ''agent error: '' @ s"
| "app_error_text (Network s) = ''network error: '' @ s"
| "app_error_text (Safety s) = ''safety violation: '' @ s"
| "app_error_text (Parse s) = ''parse error: '' @ s"
| "app_error_text (Keychain s) = ''credential store error: '' @ s"
| "app_error_text (Io s) = ''io error: '' @ s"
| "app_error_text (Serialization s) = ''serialization error: '' @ s"
| "app_error_text (Config s) = ''config error: '' @ s"
| "app_error_text (NotFound s) = ''not found: '' @ s"
| "app_error_text (Blocked s) = ''blocked: '' @ s"
| "app_error_text (OutcomeUnknown_error s) = ''operation outcome is unknown: '' @ s"

definition reason_value :: "string \<Rightarrow> json" where
  "reason_value reason = JObject [(''reason'', JString reason)]"

definition u64_as_i64 :: "nat \<Rightarrow> int" where
  "u64_as_i64 n = (let m = int (n mod 2 ^ 64) in if m < 2 ^ 63 then m else m - 2 ^ 64)"

section \<open>Provenance\<close>

definition desktop_record_args ::
  "pinned_connection \<Rightarrow> string \<Rightarrow> query_kind \<Rightarrow> string \<Rightarrow> int option \<Rightarrow> string option \<Rightarrow> record_args" where
  "desktop_record_args pin sql kind action row_count err =
     \<lparr>ra_connection_id = pin_connection_id pin, ra_engine = cp_engine (pin_profile pin),
      ra_agent_prompt = None, ra_sql = sql, ra_kind = kind, ra_action = action,
      ra_approved_by = None, ra_affected_estimate = row_count, ra_error = err\<rparr>"

text \<open>Both records are best effort: a failure of one is only logged.\<close>

definition record_desktop_run ::
  "'row query_env \<Rightarrow> pinned_connection \<Rightarrow> string \<Rightarrow> query_kind \<Rightarrow> string \<Rightarrow> string \<Rightarrow> int option \<Rightarrow>
   int option \<Rightarrow> string option \<Rightarrow> string \<Rightarrow> run_inputs \<Rightarrow> query_state \<Rightarrow> query_state" where
  "record_desktop_run Q pin sql kind action status row_count duration_ms err origin i st =
     (let log' = snd (audit_record (qe_env Q) (qe_audit_time Q)
            (desktop_record_args pin sql kind action row_count err) (ri_ids i 10) (ri_clock i 10)
            (qs_audit st));
          entry = \<lparr>hy_id = ri_ids i 11, hy_connection_id = pin_connection_id pin, hy_sql = sql,
            hy_kind = kind, hy_status = status, hy_row_count = row_count,
            hy_duration_ms = duration_ms, hy_error = err, hy_executed_at = ri_clock i 11,
            hy_origin = origin\<rparr>
      in st\<lparr>qs_audit := log',
           qs_history := qs_history st @ (if qe_history Q pin = Inr () then [entry] else [])\<rparr>)"

section \<open>Checks before the claim\<close>

definition err_not_sql_proposal :: app_error where
  "err_not_sql_proposal = Blocked ''operation is not a supported desktop SQL proposal''"

definition desktop_checks ::
  "'row query_env \<Rightarrow> uuid \<Rightarrow> ledger \<Rightarrow>
   run_error + (operation_record \<times> desktop_payload \<times> pinned_connection \<times> safety_settings \<times> classification)" where
  "desktop_checks Q operation_id db =
     (case rbind (rt_get (qe_env Q) operation_id db) (\<lambda>planned.
           rbind (guard (o_payload_schema_version planned \<noteq> 1 \<or>
                    o_kind planned \<notin> {ReadQuery, WriteSql, Ddl_op, Privilege_op}) err_not_sql_proposal) (\<lambda>_.
           rbind (ok_or (read_desktop_payload (o_payload planned))
                    (Serialization (qe_serde_error Q (o_payload planned)))) (\<lambda>payload.
           rbind (qe_pin Q (o_connection_id planned)) (\<lambda>pin.
           rbind (ensure_operation_scope planned pin) (\<lambda>_.
           rbind (qe_safety Q (pin_connection_id pin)) (\<lambda>settings.
           Inr (planned, payload, pin, settings))))))) of
        Inl e \<Rightarrow> Inl (Run_Application e)
      | Inr (planned, payload, pin, settings) \<Rightarrow>
          rbind (guard (po_revision (capture_policy (qe_env Q) pin settings) \<noteq> o_policy_revision planned)
            (Run_Blocked ''the connection or safety policy changed; create a new proposal'')) (\<lambda>_.
          case classify (qe_parse Q) (dp_sql payload) (cp_engine (pin_profile pin)) of
            Inl e \<Rightarrow> Inl (Run_Application e)
          | Inr c \<Rightarrow>
              rbind (guard (operation_kind_of (cl_kind c) \<noteq> o_kind planned)
                (Run_Blocked ''stored SQL classification no longer matches its immutable proposal'')) (\<lambda>_.
              rbind (guard (\<not> (if cl_kind c \<noteq> Read then can_write (cp_workspace_access (pin_profile pin))
                     else can_read (cp_workspace_access (pin_profile pin))))
                (Run_Blocked ''your workspace role no longer grants this database access'')) (\<lambda>_.
              Inr (planned, payload, pin, settings, c)))))"

section \<open>The run\<close>

definition attempt_args :: "operation_record \<Rightarrow> desktop_payload \<Rightarrow> pinned_connection \<Rightarrow> classification \<Rightarrow> record_args" where
  "attempt_args planned payload pin c =
     \<lparr>ra_connection_id = pin_connection_id pin, ra_engine = cp_engine (pin_profile pin),
      ra_agent_prompt = None, ra_sql = dp_sql payload, ra_kind = cl_kind c,
      ra_action = ''execute:attempt'', ra_approved_by = Some (actor_id (o_actor planned)),
      ra_affected_estimate = None, ra_error = None\<rparr>"

text \<open>The error a failed execution ends with.\<close>

definition is_cancelled_error :: "app_error \<Rightarrow> bool" where
  "is_cancelled_error e \<longleftrightarrow> e = err_query_cancelled"

fun is_timeout_error :: "app_error \<Rightarrow> bool" where
  "is_timeout_error (Safety reason) = prefix ''query timed out after '' reason"
| "is_timeout_error e = False"

fun is_unknown_error :: "app_error \<Rightarrow> bool" where
  "is_unknown_error (OutcomeUnknown_error m) = True"
| "is_unknown_error e = False"

definition settled_error :: "bool \<Rightarrow> app_error \<Rightarrow> app_error" where
  "settled_error is_write e =
     (if is_write \<and> (is_cancelled_error e \<or> is_timeout_error e) \<and> \<not> is_unknown_error e
      then OutcomeUnknown_error
        (''write execution was interrupted before rollback or commit could be confirmed: '' @ app_error_text e)
      else e)"

definition settle_failure ::
  "env \<Rightarrow> operation_runtime \<Rightarrow> uuid \<Rightarrow> bool \<Rightarrow> app_error \<Rightarrow> run_inputs \<Rightarrow> ledger \<Rightarrow> ledger" where
  "settle_failure E rt operation_id is_write e i db =
     (let settled = settled_error is_write e in
      if is_unknown_error settled
      then snd (mark_outcome_unknown E rt operation_id (reason_value ''target_outcome_unconfirmed'')
             (ri_clock i 3) (ri_ids i 3) db)
      else if is_cancelled_error e
      then snd (confirm_cancelled E rt operation_id (reason_value ''user_cancelled'')
             (ri_clock i 3) (ri_ids i 3) db)
      else snd (rt_fail E rt operation_id (reason_value (app_error_kind settled))
             (ri_clock i 3) (ri_ids i 3) db))"

definition outcome_row_count :: "exec_outcome \<Rightarrow> int option" where
  "outcome_row_count outcome =
     (case eo_result outcome of
        Some result \<Rightarrow> Some (u64_as_i64 (qr_row_count result))
      | None \<Rightarrow> map_option u64_as_i64 (eo_affected outcome))"

definition outcome_duration :: "exec_outcome \<Rightarrow> int option" where
  "outcome_duration outcome = map_option (\<lambda>result. u64_as_i64 (qr_duration_ms result)) (eo_result outcome)"

definition outcome_value :: "exec_outcome \<Rightarrow> json" where
  "outcome_value outcome = JObject
     [(''committed'', JBool (eo_committed outcome)),
      (''durationMs'', json_opt_i64 (outcome_duration outcome)),
      (''rowCount'', json_opt_i64 (outcome_row_count outcome))]"

definition settle_success ::
  "'row query_env \<Rightarrow> operation_runtime \<Rightarrow> uuid \<Rightarrow> desktop_payload \<Rightarrow> pinned_connection \<Rightarrow>
   classification \<Rightarrow> run_inputs \<Rightarrow> exec_outcome \<Rightarrow> query_state \<Rightarrow>
   (run_error + exec_outcome) \<times> query_state" where
  "settle_success Q rt operation_id payload pin c i outcome st =
     (let E = qe_env Q in
      case rt_succeed E rt operation_id (outcome_value outcome) (ri_clock i 3) (ri_ids i 3) (qs_ledger st) of
        (Inl e, db) \<Rightarrow>
          (Inl (Run_Execution e), st\<lparr>qs_ledger := snd (
             (if cl_kind c \<noteq> Read then mark_outcome_unknown else rt_fail) E rt operation_id
               (reason_value ''local_receipt_failed'') (ri_clock i 4) (ri_ids i 4) db)\<rparr>)
      | (Inr _, db) \<Rightarrow>
          (let st1 = st\<lparr>qs_ledger := db\<rparr>;
               st2 = (if cl_kind c = Ddl \<and> eo_committed outcome
                      then snd (clear_schema_cache Q (pin_connection_id pin) st1) else st1)
           in (Inr outcome, record_desktop_run Q pin (dp_sql payload) (cl_kind c)
                (if eo_committed outcome then ''execute'' else ''read'') ''ok'' (outcome_row_count outcome)
                (outcome_duration outcome) None (dp_history_origin payload) i st2)))"

text \<open>A failure before the executor: recorded in the audit log, the history and the ledger.\<close>

definition fail_before_execution ::
  "'row query_env \<Rightarrow> operation_runtime \<Rightarrow> uuid \<Rightarrow> desktop_payload \<Rightarrow> pinned_connection \<Rightarrow>
   classification \<Rightarrow> run_inputs \<Rightarrow> app_error \<Rightarrow> string \<Rightarrow> query_state \<Rightarrow> query_state" where
  "fail_before_execution Q rt operation_id payload pin c i e reason st =
     (let st' = record_desktop_run Q pin (dp_sql payload) (cl_kind c) ''error'' ''error'' None None
            (Some (app_error_text e)) (dp_history_origin payload) i st
      in st'\<lparr>qs_ledger := snd (rt_fail (qe_env Q) rt operation_id (reason_value reason)
           (ri_clock i 3) (ri_ids i 3) (qs_ledger st'))\<rparr>)"

definition execute_claimed ::
  "'row query_env \<Rightarrow> operation_runtime \<Rightarrow> uuid \<Rightarrow> desktop_payload \<Rightarrow> pinned_connection \<Rightarrow>
   safety_settings \<Rightarrow> classification \<Rightarrow> claimed_operation \<Rightarrow> run_inputs \<Rightarrow> query_state \<Rightarrow>
   ((run_error + exec_outcome) \<times> query_state) option" where
  "execute_claimed Q rt operation_id payload pin settings c claimed i st =
     (let is_write = (cl_kind c \<noteq> Read) in
      case qe_connect Q pin (if is_write then Access_Write else Access_Read) of
        Inl e \<Rightarrow>
          Some (Inl (Run_Application e),
            fail_before_execution Q rt operation_id payload pin c i e ''connection_failed'' st)
      | Inr _ \<Rightarrow>
          (case qe_sql Q pin of
             Inl e \<Rightarrow>
               Some (Inl (Run_Execution e),
                 fail_before_execution Q rt operation_id payload pin c i e ''sql_backend_unavailable'' st)
           | Inr live \<Rightarrow>
               (case execute dec_nat (qe_driver Q) live c (dp_sql payload) settings
                       (if is_write then Some (co_grant claimed) else None) (Some \<lparr>ch_id = operation_id, ch_rx = ri_rx i\<rparr>)
                       (ri_polls i) (qs_log st) of
                  None \<Rightarrow> None
                | Some (Inr outcome, h) \<Rightarrow>
                    Some (settle_success Q rt operation_id payload pin c i outcome (st\<lparr>qs_log := h\<rparr>))
                | Some (Inl e, h) \<Rightarrow>
                    (let settled = settled_error is_write e;
                         db = settle_failure (qe_env Q) rt operation_id is_write e i (qs_ledger st)
                     in Some (Inl (Run_Execution settled),
                          record_desktop_run Q pin (dp_sql payload) (cl_kind c) ''error'' ''error''
                            None None (Some (app_error_text settled)) (dp_history_origin payload) i
                            (st\<lparr>qs_log := h, qs_ledger := db\<rparr>))))))"

definition err_pre_record :: "app_error \<Rightarrow> app_error" where
  "err_pre_record e = Config (''audit pre-record failed'' @ long_dash @
     ''refusing to run write: '' @ app_error_text e)"

definition run_claimed ::
  "'row query_env \<Rightarrow> operation_runtime \<Rightarrow> uuid \<Rightarrow> operation_record \<Rightarrow> desktop_payload \<Rightarrow> pinned_connection \<Rightarrow>
   safety_settings \<Rightarrow> classification \<Rightarrow> claimed_operation \<Rightarrow> run_inputs \<Rightarrow> query_state \<Rightarrow>
   ((run_error + exec_outcome) \<times> query_state) option" where
  "run_claimed Q rt operation_id planned payload pin settings c claimed i st =
     (let E = qe_env Q in
      if ri_cancelled i then
        (case confirm_cancelled E rt operation_id (reason_value ''user_cancelled_before_target_access'')
                (ri_clock i 1) (ri_ids i 1) (qs_ledger st) of
           (Inl e, db) \<Rightarrow> Some (Inl (Run_Application e), st\<lparr>qs_ledger := db\<rparr>)
         | (Inr _, db) \<Rightarrow> Some (Inl (Run_Application err_query_cancelled), st\<lparr>qs_ledger := db\<rparr>))
      else if cl_kind c \<noteq> Read then
        (case audit_record E (qe_audit_time Q) (attempt_args planned payload pin c)
                (ri_ids i 2) (ri_clock i 2) (qs_audit st) of
           (Inl e, log) \<Rightarrow>
             Some (Inl (Run_Application (err_pre_record e)),
               st\<lparr>qs_audit := log, qs_ledger := snd (rt_fail E rt operation_id
                    (reason_value ''audit_pre_record_failed'') (ri_clock i 3) (ri_ids i 3) (qs_ledger st))\<rparr>)
         | (Inr _, log) \<Rightarrow>
             execute_claimed Q rt operation_id payload pin settings c claimed i (st\<lparr>qs_audit := log\<rparr>))
      else execute_claimed Q rt operation_id payload pin settings c claimed i st)"

text \<open>\<open>None\<close> while the guarded session has not ended.\<close>

definition run_desktop_sql ::
  "'row query_env \<Rightarrow> operation_runtime \<Rightarrow> uuid \<Rightarrow> run_inputs \<Rightarrow> query_state \<Rightarrow>
   ((run_error + exec_outcome) \<times> query_state) option" where
  "run_desktop_sql Q rt operation_id i st =
     (case desktop_checks Q operation_id (qs_ledger st) of
        Inl e \<Rightarrow> Some (Inl e, st)
      | Inr (planned, payload, pin, settings, c) \<Rightarrow>
          (case decide settings c of
             Block reason \<Rightarrow>
               Some (Inl (Run_Blocked reason),
                 record_desktop_run Q pin (dp_sql payload) (cl_kind c) ''blocked'' ''blocked'' None None
                   (Some reason) (dp_history_origin payload) i st)
           | _ \<Rightarrow>
               (case rt_claim (qe_env Q) rt operation_id (ri_clock i 0) (ri_ids i 0) (qs_ledger st) of
                  (Inl e, db) \<Rightarrow> Some (Inl (Run_Application e), st\<lparr>qs_ledger := db\<rparr>)
                | (Inr claimed, db) \<Rightarrow>
                    run_claimed Q rt operation_id planned payload pin settings c claimed i (st\<lparr>qs_ledger := db\<rparr>))))"

section \<open>What the runtime calls leave\<close>

lemma claimed_reads:
  assumes "env_ok E" "reachable E db" "rfc3339_range now"
    and "rt_claim E rt op now ev db = (Inr co, db1)"
  obtains cur where "get_operation E op db = Inr cur" "co_record co = moved_record Executing now cur"
    "get_operation E op db1 = Inr (co_record co)" "reachable E db1" "db_approvals db1 = db_approvals db"
    "co_grant co = \<lparr>eg_operation_id = o_id cur, eg_payload_sha256 = o_payload_hash cur,
       eg_connection_id = o_connection_id cur\<rparr>"
proof -
  have rows: "rows_ok E db" by (rule reachable_rows [OF assms(2,1)])
  obtain rec where claim: "claim_execution E op (rt_runtime_id rt) now ev db = (Inr rec, db1)"
    and co: "issue_grant rec = Inr (co_grant co)" "co_record co = rec"
    using assms(4) by (auto simp: rt_claim_def rbind_eq_Inr split: prod.splits sum.splits)
  obtain cur where cur: "fetch_operation_tx E op db = Inr cur"
    and tx: "transition_tx E cur Executing (claim_details cur) now ev db = Inr (rec, db1)"
    using claim unfolding claim_execution_def run_tx_def
    by (auto simp: rbind_eq_Inr rbind_eq_Inl split: sum.splits prod.splits if_splits)
  obtain row where row: "row \<in> set (db_operations db)" "row_to_operation E row = Inr cur"
    "r_id row = uuid_to_string E (o_id cur)" "r_id row = uuid_to_string E op"
    by (rule fetch_row [OF rows cur])
  have dist: "distinct (map r_id (db_operations db))" using rows by (simp add: rows_ok_def)
  note spec = transition_tx_Inr [OF tx dist row(1-3)]
  let ?row1 = "set_lifecycle Executing (to_rfc3339_nanos E now) row"
  have "row_to_operation E ?row1 = Inr (moved_record Executing now cur)"
    by (rule row_to_operation_set_lifecycle [OF row(2)]) (simp add: assms(1,3))
  then have rec: "rec = moved_record Executing now cur" using spec(2) by simp
  have r1: "reachable E db1" by (rule claimed_row(1) [OF assms(1-3) claim])
  have "?row1 \<in> set (db_operations db1)" using spec(4) row(1) by auto
  then have "get_operation E op db1 = Inr rec"
    using get_operation_of_row [OF reachable_rows [OF r1 assms(1)] _ spec(2)] row(4) by simp
  moreover have "db_approvals db1 = db_approvals db"
    using spec(4) by simp
  moreover have "co_grant co = \<lparr>eg_operation_id = o_id cur, eg_payload_sha256 = o_payload_hash cur,
       eg_connection_id = o_connection_id cur\<rparr>"
    using co(1) rec by (auto simp: issue_grant_def moved_record_def split: if_splits)
  ultimately show thesis
    using that [of cur] get_operation_of_row [OF rows row(1,2,4)] rec co(2) r1 by simp
qed

text \<open>Finishing an operation either moves it to the target or leaves the ledger alone.\<close>

lemma finish_outcome:
  assumes "env_ok E" "reachable E db" "json_plain details" "rfc3339_range now"
    and "get_operation E op db = Inr cur"
    and "rt_finish E rt op target details now ev db = (r, db')"
  shows "reachable E db'"
    and "\<exists>rec. get_operation E op db' = Inr rec \<and>
      (r = Inr rec \<and> o_state rec = target \<or> isl r \<and> rec = cur)"
proof -
  have run: "transition E op (rt_runtime_id rt) target details now ev db = (r, db')"
    using assms(6) by (simp add: rt_finish_def)
  show "reachable E db'"
    using reachable.call [OF assms(2), of "Call_transition op (rt_runtime_id rt) target details now ev"]
      run assms(3,4) by simp
  show "\<exists>rec. get_operation E op db' = Inr rec \<and>
      (r = Inr rec \<and> o_state rec = target \<or> isl r \<and> rec = cur)"
  proof (cases r)
    case (Inl e)
    then have "db' = db"
      using run by (auto simp: transition_def run_tx_def rbind_def split: sum.splits prod.splits if_splits)
    then show ?thesis using Inl assms(5) by simp
  next
    case (Inr rec)
    then show ?thesis
      using transitioned_row [OF assms(1-4) run [unfolded Inr]] by (metis moved_record_simps(1))
  qed
qed

lemma record_desktop_run_state [simp]:
  "qs_ledger (record_desktop_run Q pin sql kind action status n d e origin i st) = qs_ledger st"
  "qs_log (record_desktop_run Q pin sql kind action status n d e origin i st) = qs_log st"
  by (simp_all add: record_desktop_run_def Let_def)

lemma audit_record_prefix: "prefix log (snd (audit_record E fmt a eid ts log))"
  by (simp add: audit_record_def Let_def)

lemma record_desktop_run_audit:
  "prefix (qs_audit st) (qs_audit (record_desktop_run Q pin sql kind action status n d e origin i st))"
  by (simp add: record_desktop_run_def Let_def audit_record_prefix)

lemma audit_attempt_recorded:
  assumes "audit_record E fmt (attempt_args planned payload pin c) eid ts log = (Inr entry, log')"
  shows "\<exists>row \<in> set log'. al_sql row = dp_sql payload \<and> al_action row = ''execute:attempt'' \<and>
    al_approved_by row = Some (actor_id (o_actor planned))"
  using assms
  by (auto simp: audit_record_def Let_def attempt_args_def audit_row_of_def args_fields_def split: if_splits)

text \<open>A run sends database commands only in the executor, after every check and the claim.\<close>

lemma desktop_checks_Inr:
  assumes "desktop_checks Q operation_id db = Inr (planned, payload, pin, settings, c)"
  shows "get_operation (qe_env Q) operation_id db = Inr planned"
    and "read_desktop_payload (o_payload planned) = Some payload"
    and "qe_pin Q (o_connection_id planned) = Inr pin"
    and "ensure_operation_scope planned pin = Inr ()"
    and "qe_safety Q (pin_connection_id pin) = Inr settings"
    and "po_revision (capture_policy (qe_env Q) pin settings) = o_policy_revision planned"
    and "classify (qe_parse Q) (dp_sql payload) (cp_engine (pin_profile pin)) = Inr c"
    and "operation_kind_of (cl_kind c) = o_kind planned"
    and "cl_kind c \<noteq> Read \<Longrightarrow> can_write (cp_workspace_access (pin_profile pin))"
  using assms
  by (auto simp: desktop_checks_def rt_get_def rbind_eq_Inr simp del: can_write.simps can_read.simps
      split: sum.splits if_splits)

lemma settle_success_frame:
  assumes "(r, st') = settle_success Q rt operation_id payload pin c i outcome st"
  shows "qs_log st' = qs_log st" "prefix (qs_audit st) (qs_audit st')"
  using assms
  by (auto simp: settle_success_def Let_def intro: prefix_order.trans [OF _ record_desktop_run_audit]
      split: prod.splits sum.splits if_splits)

lemma fail_before_execution_frame [simp]:
  "qs_log (fail_before_execution Q rt operation_id payload pin c i e reason st) = qs_log st"
  by (simp add: fail_before_execution_def Let_def)

lemma execute_claimed_cases:
  assumes "execute_claimed Q rt operation_id payload pin settings c claimed i st = Some (r, st')"
  obtains
    (unsent) "qs_log st' = qs_log st" "isl r"
  | (executed) live r' where
      "execute dec_nat (qe_driver Q) live c (dp_sql payload) settings
         (if cl_kind c \<noteq> Read then Some (co_grant claimed) else None)
         (Some \<lparr>ch_id = operation_id, ch_rx = ri_rx i\<rparr>) (ri_polls i) (qs_log st) = Some (r', qs_log st')"
      "prefix (qs_audit st) (qs_audit st')"
      "(case r' of
          Inr outcome \<Rightarrow> (r, st') = settle_success Q rt operation_id payload pin c i outcome
            (st\<lparr>qs_log := qs_log st'\<rparr>)
        | Inl e \<Rightarrow> r = Inl (Run_Execution (settled_error (cl_kind c \<noteq> Read) e)) \<and>
            qs_ledger st' = settle_failure (qe_env Q) rt operation_id (cl_kind c \<noteq> Read) e i (qs_ledger st))"
proof (cases "qe_connect Q pin (if cl_kind c \<noteq> Read then Access_Write else Access_Read)")
  case (Inl e)
  then show thesis using assms by (intro unsent) (auto simp: execute_claimed_def)
next
  case connected: (Inr u)
  show thesis
  proof (cases "qe_sql Q pin")
    case (Inl e)
    then show thesis using assms connected by (intro unsent) (auto simp: execute_claimed_def)
  next
    case live: (Inr live)
    let ?run = "execute dec_nat (qe_driver Q) live c (dp_sql payload) settings
         (if cl_kind c \<noteq> Read then Some (co_grant claimed) else None)
         (Some \<lparr>ch_id = operation_id, ch_rx = ri_rx i\<rparr>) (ri_polls i) (qs_log st)"
    obtain r' h where run: "?run = Some (r', h)"
      using assms connected live by (auto simp: execute_claimed_def Let_def split: option.splits)
    show thesis
    proof (cases r')
      case (Inl e)
      then have end_state: "(r, st') = (Inl (Run_Execution (settled_error (cl_kind c \<noteq> Read) e)),
          record_desktop_run Q pin (dp_sql payload) (cl_kind c) ''error'' ''error'' None None
            (Some (app_error_text (settled_error (cl_kind c \<noteq> Read) e))) (dp_history_origin payload) i
            (st\<lparr>qs_log := h, qs_ledger := settle_failure (qe_env Q) rt operation_id (cl_kind c \<noteq> Read) e i (qs_ledger st)\<rparr>))"
        using assms connected live run by (simp add: execute_claimed_def Let_def)
      show thesis
      proof (rule executed [of live r'])
        show "?run = Some (r', qs_log st')" using run end_state by simp
        show "prefix (qs_audit st) (qs_audit st')"
          using end_state record_desktop_run_audit [of "st\<lparr>qs_log := h, qs_ledger :=
            settle_failure (qe_env Q) rt operation_id (cl_kind c \<noteq> Read) e i (qs_ledger st)\<rparr>"]
          by simp
      qed (use Inl end_state in simp)
    next
      case (Inr outcome)
      then have end_state: "(r, st') = settle_success Q rt operation_id payload pin c i outcome (st\<lparr>qs_log := h\<rparr>)"
        using assms connected live run by (simp add: execute_claimed_def Let_def)
      note frame = settle_success_frame [OF end_state]
      show thesis
        by (rule executed [of live r']) (use run Inr end_state frame in simp_all)
    qed
  qed
qed

lemma run_desktop_cases:
  assumes "run_desktop_sql Q rt operation_id i st = Some (r, st')"
  obtains
    (unsent) "qs_log st' = qs_log st" "isl r"
  | (executed) planned payload pin settings c claimed db1 audit live r' where
      "desktop_checks Q operation_id (qs_ledger st) = Inr (planned, payload, pin, settings, c)"
      "\<forall>reason. decide settings c \<noteq> Block reason"
      "rt_claim (qe_env Q) rt operation_id (ri_clock i 0) (ri_ids i 0) (qs_ledger st) = (Inr claimed, db1)"
      "cl_kind c \<noteq> Read \<Longrightarrow> \<exists>row \<in> set audit. al_sql row = dp_sql payload \<and>
         al_action row = ''execute:attempt'' \<and> al_approved_by row = Some (actor_id (o_actor planned))"
      "execute dec_nat (qe_driver Q) live c (dp_sql payload) settings
         (if cl_kind c \<noteq> Read then Some (co_grant claimed) else None)
         (Some \<lparr>ch_id = operation_id, ch_rx = ri_rx i\<rparr>) (ri_polls i) (qs_log st) = Some (r', qs_log st')"
      "prefix audit (qs_audit st')"
      "(case r' of
          Inr outcome \<Rightarrow> (r, st') = settle_success Q rt operation_id payload pin c i outcome
            (st\<lparr>qs_ledger := db1, qs_audit := audit, qs_log := qs_log st'\<rparr>)
        | Inl e \<Rightarrow> r = Inl (Run_Execution (settled_error (cl_kind c \<noteq> Read) e)) \<and>
            qs_ledger st' = settle_failure (qe_env Q) rt operation_id (cl_kind c \<noteq> Read) e i db1)"
proof (cases "desktop_checks Q operation_id (qs_ledger st)")
  case (Inl e)
  then show thesis using assms by (intro unsent) (auto simp: run_desktop_sql_def)
next
  case (Inr v)
  obtain planned payload pin settings c where v: "v = (planned, payload, pin, settings, c)"
    by (metis surj_pair)
  note checks = Inr [unfolded v]
  show thesis
  proof (cases "\<exists>reason. decide settings c = Block reason")
    case True
    then show thesis using assms checks by (intro unsent) (auto simp: run_desktop_sql_def)
  next
    case open_gate: False
    obtain res db1 where claim: "rt_claim (qe_env Q) rt operation_id (ri_clock i 0) (ri_ids i 0) (qs_ledger st) = (res, db1)"
      by (metis surj_pair)
    have run: "(case res of Inl e \<Rightarrow> Some (Inl (Run_Application e), st\<lparr>qs_ledger := db1\<rparr>)
        | Inr claimed \<Rightarrow> run_claimed Q rt operation_id planned payload pin settings c claimed i (st\<lparr>qs_ledger := db1\<rparr>))
        = Some (r, st')"
      using assms checks open_gate claim
      by (cases "decide settings c") (auto simp: run_desktop_sql_def split: sum.splits)
    show thesis
    proof (cases res)
      case (Inl e)
      then show thesis using run by (intro unsent) auto
    next
      case (Inr claimed)
      let ?st1 = "st\<lparr>qs_ledger := db1\<rparr>"
      show thesis
      proof (cases "ri_cancelled i")
        case True
        then show thesis
          using run Inr by (intro unsent) (auto simp: run_claimed_def Let_def split: sum.splits prod.splits)
      next
        case False
        obtain arec audit where attempt: "(if cl_kind c \<noteq> Read
            then audit_record (qe_env Q) (qe_audit_time Q) (attempt_args planned payload pin c)
                (ri_ids i 2) (ri_clock i 2) (qs_audit st)
            else (Inr undefined, qs_audit st)) = (arec, audit)"
          by (metis surj_pair)
        show thesis
        proof (cases arec)
          case (Inl e)
          then show thesis
            using run Inr False attempt
            by (intro unsent) (auto simp: run_claimed_def Let_def split: if_splits)
        next
          case recorded: (Inr entry)
          have ex: "execute_claimed Q rt operation_id payload pin settings c claimed i (?st1\<lparr>qs_audit := audit\<rparr>)
              = Some (r, st')"
            using run Inr False attempt recorded
            by (auto simp: run_claimed_def Let_def split: if_splits)
          from ex show thesis
          proof (cases rule: execute_claimed_cases)
            case unsent
            then show thesis by (intro that(1)) simp_all
          next
            case (executed live r')
            show thesis
            proof (rule that(2) [OF checks _ claim [unfolded Inr], of audit live r'])
              show "\<exists>row \<in> set audit. al_sql row = dp_sql payload \<and>
                  al_action row = ''execute:attempt'' \<and> al_approved_by row = Some (actor_id (o_actor planned))"
                if "cl_kind c \<noteq> Read"
                using that attempt recorded audit_attempt_recorded by simp
            qed (use open_gate executed in \<open>auto split: sum.splits\<close>)
          qed
        qed
      qed
    qed
  qed
qed

lemma claimed_mutation_approved:
  assumes "env_ok E" "reachable E db" "rfc3339_range now"
    and "rt_claim E rt op now ev db = (Inr claimed, db1)"
    and "get_operation E op db = Inr planned" "may_mutate_target (o_kind planned)"
  shows "\<exists>a \<in> set (db_approvals db). ar_operation_id a = uuid_to_string E op \<and>
    ar_payload_hash a = o_payload_hash planned \<and> ar_decision a = ''approved'' \<and>
    ar_approver_kind a \<in> {''local_user'', ''workspace_user''} \<and> \<not> blank (ar_approver_id a)"
proof -
  obtain cur where cur: "get_operation E op db = Inr cur"
    "co_record claimed = moved_record Executing now cur" "db_approvals db1 = db_approvals db"
    "eg_payload_sha256 (co_grant claimed) = o_payload_hash cur"
    by (rule claimed_reads [OF assms(1-4)]) (rule that, simp_all)
  have "cur = planned" using assms(5) cur(1) by simp
  moreover have "may_mutate_target (o_kind (co_record claimed))" using assms(6) cur(2) calculation by simp
  ultimately show ?thesis
    using claim_grants [OF assms(1-4)] cur(3,4) by auto
qed

section \<open>Only the approved text is executed\<close>


section \<open>A sent commit is never recorded as failed\<close>

lemma u64_as_i64_range: "is_i64 (u64_as_i64 n)"
proof -
  have "n mod 2 ^ 64 < 2 ^ 64" by simp
  then have "int (n mod 2 ^ 64) < 2 ^ 64" by (metis of_nat_less_iff of_nat_numeral of_nat_power)
  then show ?thesis by (auto simp: is_i64_def u64_as_i64_def Let_def)
qed

lemma plain_outcome: "json_plain (outcome_value outcome)"
proof -
  have "json_plain (json_opt_i64 (map_option u64_as_i64 x))" for x
    using u64_as_i64_range [of "the x"]
    by (cases x) (auto simp: json_opt_i64_def json_plain_def json_i64_def is_i64_def)
  moreover have "json_depth (json_opt_i64 x) = 1" for x
    by (cases x) (simp_all add: json_opt_i64_def json_i64_def)
  moreover have "outcome_duration outcome = map_option u64_as_i64 (map_option qr_duration_ms (eo_result outcome))"
    by (simp add: outcome_duration_def option.map_comp comp_def)
  moreover have "outcome_row_count outcome = map_option u64_as_i64
      (case eo_result outcome of Some q \<Rightarrow> Some (qr_row_count q) | None \<Rightarrow> eo_affected outcome)"
    by (simp add: outcome_row_count_def split: option.split)
  ultimately show ?thesis
    by (simp add: outcome_value_def json_plain_def)
qed

lemma plain_reason: "json_plain (reason_value reason)"
  by (simp add: reason_value_def json_plain_def)

lemma settled_interruption:
  "interruption dec_nat e \<or> is_unknown_error e \<Longrightarrow> is_unknown_error (settled_error True e)"
  by (auto simp: interruption_def settled_error_def is_cancelled_error_def err_query_cancelled_def
      err_query_timeout_def)

text \<open>
  C3. A sent commit is never recorded as failed or cancelled: if a run sends a commit, the
  operation ends as succeeded exactly when the run reports success; otherwise it is recorded with
  an unknown outcome, or, when the ledger refuses even that, it is still executing and left to
  restart recovery.
\<close>

theorem sent_commit_is_recorded:
  assumes "env_ok (qe_env Q)" "reachable (qe_env Q) (qs_ledger st)"
    and "rfc3339_range (ri_clock i 0)" "rfc3339_range (ri_clock i 3)" "rfc3339_range (ri_clock i 4)"
    and "run_desktop_sql Q rt operation_id i st = Some (r, st')"
    and "(Write_pool, Commit_tx) \<notin> set (qs_log st)" "(Write_pool, Commit_tx) \<in> set (qs_log st')"
  shows "\<exists>rec. get_operation (qe_env Q) operation_id (qs_ledger st') = Inr rec \<and>
    (case r of Inr outcome \<Rightarrow> o_state rec = Succeeded \<and> eo_committed outcome
     | Inl e \<Rightarrow> o_state rec \<in> {OutcomeUnknown, Executing})"
  using assms(6)
proof (cases rule: run_desktop_cases)
  case unsent
  then show ?thesis using assms(7,8) by simp
next
  case (executed planned payload pin settings c claimed db1 audit live r')
  let ?E = "qe_env Q"
  obtain new where "qs_log st' = qs_log st @ new" "(Write_pool, Commit_tx) \<in> set new \<Longrightarrow> cl_kind c \<noteq> Read"
    using granted_writes [OF executed(5)] by blast
  then have mutates: "cl_kind c \<noteq> Read" using assms(7,8) by auto
  obtain cur where cur: "get_operation ?E operation_id db1 = Inr cur" "o_state cur = Executing" "reachable ?E db1"
    by (rule claimed_reads [OF assms(1-3) executed(3)]) (metis moved_record_simps(1) that)
  have run: "execute dec_nat (qe_driver Q) live c (dp_sql payload) settings (Some (co_grant claimed))
      (Some \<lparr>ch_id = operation_id, ch_rx = ri_rx i\<rparr>) (ri_polls i) (qs_log st) = Some (r', qs_log st')"
    using executed(5) mutates by simp
  note outcome = write_outcome [OF run mutates assms(7)]
  show ?thesis
  proof (cases r')
    case (Inl e)
    then have "(\<exists>m. e = OutcomeUnknown_error m) \<or> interruption dec_nat e"
      using outcome assms(8) by blast
    then have unknown: "is_unknown_error (settled_error True e)"
      by (intro settled_interruption) auto
    obtain res db2 where finish: "mark_outcome_unknown ?E rt operation_id (reason_value ''target_outcome_unconfirmed'')
        (ri_clock i 3) (ri_ids i 3) db1 = (res, db2)"
      by (metis surj_pair)
    have "qs_ledger st' = db2" "\<exists>e'. r = Inl e'"
      using executed(7) Inl mutates unknown finish by (auto simp: settle_failure_def Let_def)
    then show ?thesis
      using finish_outcome(2) [OF assms(1) cur(3) plain_reason assms(4) cur(1) finish [unfolded mark_outcome_unknown_def]]
        cur(2) by auto
  next
    case (Inr result)
    then have committed: "eo_committed result" using outcome by blast
    define stx where "stx = st\<lparr>qs_ledger := db1, qs_audit := audit, qs_log := qs_log st'\<rparr>"
    have stx: "qs_ledger stx = db1" by (simp add: stx_def)
    have end_state: "(r, st') = settle_success Q rt operation_id payload pin c i result stx"
      using executed(7) Inr by (simp add: stx_def)
    obtain res db2 where finish: "rt_succeed ?E rt operation_id (outcome_value result) (ri_clock i 3) (ri_ids i 3) db1
        = (res, db2)"
      by (metis surj_pair)
    note done2 = finish_outcome [OF assms(1) cur(3) plain_outcome assms(4) cur(1) finish [unfolded rt_succeed_def]]
    show ?thesis
    proof (cases res)
      case (Inl e)
      obtain res3 db3 where again: "mark_outcome_unknown ?E rt operation_id (reason_value ''local_receipt_failed'')
          (ri_clock i 4) (ri_ids i 4) db2 = (res3, db3)"
        by (metis surj_pair)
      have "get_operation ?E operation_id db2 = Inr cur" using done2(2) Inl by auto
      note done3 = finish_outcome(2) [OF assms(1) done2(1) plain_reason assms(5) this
          again [unfolded mark_outcome_unknown_def]]
      have "qs_ledger st' = db3" "\<exists>e'. r = Inl e'"
        using end_state stx Inl finish again mutates by (auto simp: settle_success_def Let_def)
      then show ?thesis using done3 cur(2) by auto
    next
      case recorded: (Inr rec)
      have "qs_ledger st' = db2" "r = Inr result"
        using end_state stx recorded finish by (auto simp: settle_success_def Let_def)
      then show ?thesis using done2(2) recorded committed by auto
    qed
  qed
qed

section \<open>A run on the reference environment\<close>

text \<open>The proposed update is approved at time 2 and claimed at time 3.\<close>

definition demo_run_decision :: "operation_kind \<Rightarrow> approval_command" where
  "demo_run_decision k = \<lparr>c_operation_id = 1, c_runtime_id = 9,
     c_expected_payload_hash = o_payload_hash (demo_proposed_rec k), c_approver = approver_for_pin demo_pin,
     c_decision = Decision_Approved, c_reason = Some critical_confirmation,
     c_current_policy_revision = o_policy_revision (demo_proposed_rec k), c_now = 2\<rparr>"

abbreviation demo_run_approved_rec :: "operation_kind \<Rightarrow> operation_record" where
  "demo_run_approved_rec k \<equiv> moved_record Approved 2 (demo_proposed_rec k)"

definition demo_run_approved :: "operation_kind \<Rightarrow> ledger" where
  "demo_run_approved k = snd (decide_approval ref_env (demo_run_decision k) 201 103 (demo_proposed_pending k))"

lemma demo_proposed_rec_fields [simp]:
  "o_id (planned_record ref_env 9 (demo_proposed k) 0) = 1"
  "o_runtime_id (planned_record ref_env 9 (demo_proposed k) 0) = 9"
  "o_kind (planned_record ref_env 9 (demo_proposed k) 0) = k"
  "o_expires_at (planned_record ref_env 9 (demo_proposed k) 0) = Some (900 + write_proposal_ttl)"
  by (simp_all add: planned_record_def)

lemma demo_run_decidable: "decidable_by (demo_proposed_rec k) (demo_run_decision k)"
proof -
  have "\<not> blank ''local-user''" by code_simp
  then show ?thesis
    by (simp add: decidable_by_def demo_run_decision_def expired_at_def write_proposal_ttl_def
        critical_confirmation_def max_request_bytes_def)
qed

lemma demo_at_proposed: "demo_at (demo_proposed_pending k) (demo_proposed_rec k) [101, 102]"
proof -
  have ok: "ledger_ok ref_env (demo_proposed_pending k)"
    by (rule reachable_ok [OF demo_proposed_run(3) env_ok_ref_env])
  obtain row where one: "db_operations (demo_proposed_pending k) = [row]"
    by (simp add: demo_proposed_pending_def demo_proposed_planned_def planned_ledger_def moved_ledger_def
        Let_def empty_ledger_def)
  have "fetch_operation_tx ref_env 1 (demo_proposed_pending k) = Inr (demo_proposed_rec k)"
    using demo_proposed_run(2) [of k]
    by (auto simp: get_operation_def find_operation_def fetch_operation_tx_def transpose_opt_def
        rbind_eq_Inr ok_or_def split: option.splits sum.splits)
  then have "row_to_operation ref_env row = Inr (demo_proposed_rec k)"
    using fetch_row [OF ledger_ok_rows [OF ok]] one by (metis empty_iff empty_set set_ConsD)
  then show ?thesis using ok one demo_proposed_events(2) by (simp add: demo_at_def)
qed

lemma demo_at_run_approved:
  "decide_approval ref_env (demo_run_decision k) 201 103 (demo_proposed_pending k) = (Inr (demo_run_approved_rec k), (demo_run_approved k))"
  "demo_at (demo_run_approved k) (demo_run_approved_rec k) [101, 102, 103]"
  "db_approvals (demo_run_approved k) = [approval_row_of ref_env (demo_proposed_rec k) (demo_run_decision k) 201]"
proof -
  let ?rec = "(demo_proposed_rec k)"
  let ?a = "approval_row_of ref_env ?rec (demo_run_decision k) 201"
  obtain row where row: "db_operations (demo_proposed_pending k) = [row]" "row_to_operation ref_env row = Inr ?rec"
    and ok: "ledger_ok ref_env (demo_proposed_pending k)"
    using demo_at_proposed [of k] by (auto simp: demo_at_def)
  have id: "r_id row = uuid_to_string ref_env 1"
    using rows_ok_id [of ref_env "demo_proposed_pending k" row ?rec] ok row by simp
  have now: "rfc3339_range 2" by (simp add: rfc3339_range_def)
  have hash: "length (canonical_hash ref_env v) = 64" for v
    by (simp add: canonical_hash_eq env_ok_ref_env)
  have rev: "length (n_policy_revision (demo_proposed k)) = 64" "n_policy_revision (demo_proposed k) \<noteq> []"
    using not_blank_nonempty [OF revision_not_blank]
    by (simp_all add: demo_proposed_def proposal_operation_def Let_def capture_policy_def hash)
  have checks: "approval_row_checks ?a"
    using rev by (simp add: approval_row_checks_def approval_row_of_def demo_run_decision_def planned_record_def
        canonical_hash_eq env_ok_ref_env)
  have ins: "insert_approval_row ?a (demo_proposed_pending k) = Inr ((demo_proposed_pending k)\<lparr>db_approvals := [?a]\<rparr>)"
    using row(1) checks id
    by (simp add: insert_approval_row_def demo_proposed_events(3)) (simp add: approval_row_of_def)
  have fits: "event_fits ref_env 1 (approval_details ref_env ?rec (demo_run_decision k) 201) 103 (demo_proposed_pending k)"
  proof (rule demo_at_fits [OF demo_at_proposed])
    show "length (enc (approval_details ref_env ?rec (demo_run_decision k) 201)) \<le> 1000"
      using length_ref_uuid [of 201] rev
      by (simp add: approval_details_def length_enc_obj demo_run_decision_def planned_record_def hash)
  qed simp_all
  have run: "decide_approval ref_env (demo_run_decision k) 201 103 (demo_proposed_pending k)
     = (Inr (demo_run_approved_rec k), moved_ledger ref_env row ?rec Approved
         (approval_details ref_env ?rec (demo_run_decision k) 201) 2 103 ((demo_proposed_pending k)\<lparr>db_approvals := [?a]\<rparr>))"
    using decide_succeeds [OF env_ok_ref_env ok _ row(2) _ demo_run_decidable ins, of 103] fits row(1) now
    by (simp add: demo_run_decision_def)
  then show "decide_approval ref_env (demo_run_decision k) 201 103 (demo_proposed_pending k)
     = (Inr (demo_run_approved_rec k), (demo_run_approved k))"
    by (simp add: demo_run_approved_def)
  have ok': "ledger_ok ref_env (demo_run_approved k)"
    unfolding demo_run_approved_def
    using exec_call_ok [OF env_ok_ref_env ok, of "Call_decide_approval (demo_run_decision k) 201 103"]
    by (simp add: demo_run_decision_def now)
  have eq: "(demo_run_approved k) = moved_ledger ref_env row ?rec Approved
         (approval_details ref_env ?rec (demo_run_decision k) 201) 2 103 ((demo_proposed_pending k)\<lparr>db_approvals := [?a]\<rparr>)"
    by (simp add: demo_run_approved_def run)
  show "demo_at (demo_run_approved k) (demo_run_approved_rec k) [101, 102, 103]"
    using demo_at_moved [OF demo_at_proposed row now ok' [unfolded eq]] by (simp add: eq)
  show "db_approvals (demo_run_approved k) = [?a]" by (simp add: eq)
qed

lemma demo_run_reachable: "reachable ref_env (demo_run_approved k)"
  using reachable.call [OF demo_proposed_run(3), of "Call_decide_approval (demo_run_decision k) 201 103"]
  by (simp add: demo_run_approved_def demo_run_decision_def rfc3339_range_def)

lemma demo_run_claim:
  obtains db1 where "rt_claim ref_env \<lparr>rt_runtime_id = 9\<rparr> 1 3 104 (demo_run_approved k) =
    (Inr \<lparr>co_record = moved_record Executing 3 (demo_run_approved_rec k),
          co_grant = \<lparr>eg_operation_id = 1, eg_payload_sha256 = o_payload_hash (demo_proposed_rec k),
            eg_connection_id = o_connection_id (moved_record Executing 3 (demo_run_approved_rec k))\<rparr>\<rparr>, db1)"
proof -
  let ?rec = "(demo_run_approved_rec k)"
  obtain row where row: "db_operations (demo_run_approved k) = [row]" "row_to_operation ref_env row = Inr ?rec"
    and ok: "ledger_ok ref_env (demo_run_approved k)"
    using demo_at_run_approved(2) [of k] by (auto simp: demo_at_def)
  have "to_rfc3339_nanos ref_env 3 < to_rfc3339_nanos ref_env (900 + write_proposal_ttl)"
    by (simp add: env_ok_time_less [OF env_ok_ref_env] rfc3339_range_def write_proposal_ttl_def)
  then have claimable: "claimable ref_env ?rec 3 (demo_run_approved k)"
    by (simp add: claimable_def expired_at_def has_exact_approval_def demo_at_run_approved(3)
        approval_row_of_def write_proposal_ttl_def) (simp add: demo_run_decision_def)
  have fits: "event_fits ref_env 1 (claim_details ?rec) 104 (demo_run_approved k)"
  proof (rule demo_at_fits [OF demo_at_run_approved(2)])
    show "length (enc (claim_details ?rec)) \<le> 1000"
      by (simp add: claim_details_def length_enc_obj planned_record_def canonical_hash_eq env_ok_ref_env)
  qed simp_all
  have "claim_execution ref_env 1 9 3 104 (demo_run_approved k)
     = (Inr (moved_record Executing 3 ?rec),
        moved_ledger ref_env row ?rec Executing (claim_details ?rec) 3 104 (demo_run_approved k))"
    using claim_succeeds [OF env_ok_ref_env ok _ row(2) _ claimable, of 9 104] fits row(1)
    by (simp add: rfc3339_range_def)
  then show thesis
    by (intro that) (simp add: rt_claim_def issue_grant_def)
qed

definition demo_run_state :: query_state where
  "demo_run_state = \<lparr>qs_ledger = (demo_run_approved WriteSql), qs_audit = [], qs_history = [], qs_schemas = [], qs_schemas_v2 = [], qs_log = []\<rparr>"

definition demo_run_inputs :: run_inputs where
  "demo_run_inputs = \<lparr>ri_cancelled = False, ri_rx = 0, ri_polls = demo_polls,
     ri_clock = (\<lambda>k. 3 + int k), ri_ids = (\<lambda>k. 104 + of_nat k)\<rparr>"

lemma demo_run_checks:
  "desktop_checks demo_query_env 1 (demo_run_approved WriteSql) =
     Inr ((demo_run_approved_rec WriteSql), \<lparr>dp_sql = ''w'', dp_history_origin = ''manual''\<rparr>, demo_pin, demo_settings, demo_class)"
proof -
  have ok: "ledger_ok ref_env (demo_run_approved WriteSql)"
    by (rule reachable_ok [OF demo_run_reachable env_ok_ref_env])
  obtain row where row: "row \<in> set (db_operations (demo_run_approved WriteSql))"
    "row_to_operation ref_env row = Inr (demo_run_approved_rec WriteSql)"
    using demo_at_run_approved(2) [of WriteSql] by (auto simp: demo_at_def)
  then have "get_operation ref_env 1 (demo_run_approved WriteSql) = Inr (demo_run_approved_rec WriteSql)"
    using get_operation_of_row [OF ledger_ok_rows [OF ok] row] rows_ok_id [OF ledger_ok_rows [OF ok] row]
    by simp
  moreover have "ensure_operation_scope (demo_run_approved_rec WriteSql) demo_pin = Inr ()"
    by (simp add: ensure_operation_scope_def moved_record_def planned_record_def demo_proposed_def
        proposal_operation_def Let_def)
  moreover have "read_desktop_payload (o_payload (demo_run_approved_rec WriteSql)) =
      Some \<lparr>dp_sql = ''w'', dp_history_origin = ''manual''\<rparr>"
    by (simp add: moved_record_def planned_record_def demo_proposed_def proposal_operation_def Let_def
        canonical_payload)
  moreover have "o_payload_schema_version (demo_run_approved_rec WriteSql) = 1"
    by (simp add: moved_record_def planned_record_def demo_proposed_def proposal_operation_def Let_def)
  moreover have "o_policy_revision (demo_run_approved_rec WriteSql) = po_revision (capture_policy ref_env demo_pin demo_settings)"
    by (simp add: planned_record_def demo_proposed_def proposal_operation_def Let_def)
  ultimately show ?thesis
    using demo_engine(2)
    by (simp add: desktop_checks_def rt_get_def demo_query_env_def demo_classified operation_kind_of_def
        del: can_write.simps)
qed

lemma demo_run_executes:
  "execute dec_nat demo_driver \<lparr>lc_read_pool = Pool_Postgres, lc_write_pool = Pool_Postgres\<rparr> demo_class ''w''
     demo_settings (Some \<lparr>eg_operation_id = 1, eg_payload_sha256 = hash, eg_connection_id = cid\<rparr>)
     (Some \<lparr>ch_id = 1, ch_rx = 0\<rparr>) demo_polls [] =
   Some (Inr \<lparr>eo_result = None, eo_affected = Some 1, eo_committed = True\<rparr>,
     [(Write_pool, Begin_tx), (Write_pool, Tx_Execute ''w''), (Write_pool, Commit_tx)])"
  by (simp add: execute_def run_write_def demo_polls_def demo_settings_def default_safety_def
      guard_poll_result_def poll_of_def query_timeout_def write_inner_def and_then_def app_step_def
      send_def yield_result_def demo_driver_def)

lemma demo_run:
  obtains r st' where "run_desktop_sql demo_query_env \<lparr>rt_runtime_id = 9\<rparr> 1 demo_run_inputs demo_run_state = Some (r, st')"
    "qs_log st' = [(Write_pool, Begin_tx), (Write_pool, Tx_Execute ''w''), (Write_pool, Commit_tx)]"
proof -
  let ?Q = demo_query_env and ?rt = "\<lparr>rt_runtime_id = 9\<rparr>" and ?i = demo_run_inputs
  obtain db1 where claim: "rt_claim ref_env ?rt 1 3 104 (demo_run_approved WriteSql) =
    (Inr \<lparr>co_record = moved_record Executing 3 (demo_run_approved_rec WriteSql),
          co_grant = \<lparr>eg_operation_id = 1, eg_payload_sha256 = o_payload_hash (demo_proposed_rec WriteSql),
            eg_connection_id = o_connection_id (moved_record Executing 3 (demo_run_approved_rec WriteSql))\<rparr>\<rparr>, db1)"
    by (rule demo_run_claim [of WriteSql])
  obtain entry log where audit: "audit_record ref_env ref_fmt
      (attempt_args (demo_run_approved_rec WriteSql) \<lparr>dp_sql = ''w'', dp_history_origin = ''manual''\<rparr> demo_pin demo_class)
      106 5 [] = (Inr entry, log)"
    by (simp add: audit_record_def Let_def)
  have env: "qe_env ?Q = ref_env" "qe_audit_time ?Q = ref_fmt" "qe_driver ?Q = demo_driver"
    "qe_connect ?Q demo_pin a = Inr ()"
    "qe_sql ?Q demo_pin = Inr \<lparr>lc_read_pool = Pool_Postgres, lc_write_pool = Pool_Postgres\<rparr>" for a
    by (simp_all add: demo_query_env_def)
  have inputs: "ri_clock ?i 0 = 3" "ri_ids ?i 0 = 104" "ri_clock ?i 2 = 5" "ri_ids ?i 2 = 106"
    "\<not> ri_cancelled ?i" "ri_rx ?i = 0" "ri_polls ?i = demo_polls"
    by (simp_all add: demo_run_inputs_def)
  have gate: "decide demo_settings demo_class = RequireApproval"
    by (simp add: decide_def demo_settings_def default_safety_def)
  obtain r st' where done_run: "settle_success ?Q ?rt 1 \<lparr>dp_sql = ''w'', dp_history_origin = ''manual''\<rparr> demo_pin
      demo_class ?i \<lparr>eo_result = None, eo_affected = Some 1, eo_committed = True\<rparr>
      (demo_run_state\<lparr>qs_ledger := db1, qs_audit := log,
        qs_log := [(Write_pool, Begin_tx), (Write_pool, Tx_Execute ''w''), (Write_pool, Commit_tx)]\<rparr>) = (r, st')"
    by (metis surj_pair)
  have "run_desktop_sql ?Q ?rt 1 ?i demo_run_state = Some (r, st')"
    using done_run
    by (simp add: run_desktop_sql_def demo_run_state_def demo_run_checks gate env inputs claim run_claimed_def
        audit execute_claimed_def demo_run_executes)
  moreover have "qs_log st' = [(Write_pool, Begin_tx), (Write_pool, Tx_Execute ''w''), (Write_pool, Commit_tx)]"
    using settle_success_frame(1) [OF done_run [symmetric]] by simp
  ultimately show thesis by (rule that)
qed

lemma demo_run_hyps:
  "env_ok (qe_env demo_query_env)" "reachable (qe_env demo_query_env) (qs_ledger demo_run_state)"
  "rfc3339_range (ri_clock demo_run_inputs 0)" "rfc3339_range (ri_clock demo_run_inputs 3)"
  "rfc3339_range (ri_clock demo_run_inputs 4)"
  using env_ok_ref_env demo_run_reachable
  by (simp_all add: demo_query_env_def demo_run_state_def demo_run_inputs_def rfc3339_range_def)


lemma sent_commit_is_recorded_witness:
  "\<exists>r st' rec. run_desktop_sql demo_query_env \<lparr>rt_runtime_id = 9\<rparr> 1 demo_run_inputs demo_run_state = Some (r, st') \<and>
     get_operation ref_env 1 (qs_ledger st') = Inr rec \<and> o_state rec \<in> {Succeeded, OutcomeUnknown, Executing}"
proof -
  obtain r st' where run: "run_desktop_sql demo_query_env \<lparr>rt_runtime_id = 9\<rparr> 1 demo_run_inputs demo_run_state
      = Some (r, st')"
    and log: "qs_log st' = [(Write_pool, Begin_tx), (Write_pool, Tx_Execute ''w''), (Write_pool, Commit_tx)]"
    by (rule demo_run)
  have "(Write_pool, Commit_tx) \<notin> set (qs_log demo_run_state)" by (simp add: demo_run_state_def)
  moreover have "(Write_pool, Commit_tx) \<in> set (qs_log st')" using log by simp
  moreover have "qe_env demo_query_env = ref_env" by (simp add: demo_query_env_def)
  ultimately show ?thesis
    using sent_commit_is_recorded [OF demo_run_hyps run] run by (cases r) auto
qed

end
