(* ===== verification/Script_Run.thy ===== *)
theory Script_Run
  imports Query_Run Sql_Script
begin

text \<open>
  SQL scripts, \<^verbatim>\<open>src/src-tauri/src/services/script_service.rs\<close>: the proposal of a whole script
  and its run by operation identifier, as sequential reads or as one write transaction. The
  services and the state it meets are those of the single statement (\<open>query_env\<close>,
  \<open>query_state\<close>).
\<close>

section \<open>Requests, receipts and outcomes\<close>

record script_request =
  scq_connection_id :: uuid
  scq_sql :: string
  scq_origin :: "string option"

record script_receipt =
  scr_operation_id :: uuid
  scr_payload_hash :: string
  scr_state :: operation_state
  scr_approval_required :: bool
  scr_confirmation_phrase :: "string option"
  scr_statement_count :: nat
  scr_expires_at :: datetime

text \<open>The stored payload has the two fields of the single statement's, and the same reader.\<close>

type_synonym script_payload = desktop_payload

datatype script_error =
    Script_Application app_error
  | Script_Scoped app_error
  | Script_Execution app_error

fun script_into_error :: "script_error \<Rightarrow> app_error" where
  "script_into_error (Script_Application e) = e"
| "script_into_error (Script_Scoped e) = e"
| "script_into_error (Script_Execution e) = e"

record script_statement =
  st_sql :: string
  st_result :: "query_result option"
  st_affected :: "int option"
  st_error :: "string option"

record script_outcome =
  so_statements :: "script_statement list"
  so_committed :: bool
  so_all_reads :: bool

definition statement_ok :: "string \<Rightarrow> nat \<Rightarrow> script_statement" where
  "statement_ok sql affected =
     \<lparr>st_sql = sql, st_result = None, st_affected = Some (u64_as_i64 affected), st_error = None\<rparr>"

definition statement_error :: "string \<Rightarrow> string \<Rightarrow> script_statement" where
  "statement_error sql message =
     \<lparr>st_sql = sql, st_result = None, st_affected = None, st_error = Some message\<rparr>"

definition statement_skipped :: "string \<Rightarrow> script_statement" where
  "statement_skipped sql = statement_error sql (''skipped'' @ long_dash @ ''transaction rolled back'')"

definition script_has_write :: "query_kind list \<Rightarrow> bool" where
  "script_has_write kinds = list_ex (\<lambda>kind. kind \<noteq> Read) kinds"

fun raise_risk :: "op_risk_level \<Rightarrow> risk_level \<Rightarrow> op_risk_level" where
  "raise_risk risk cls_risk =
     (if risk = Risk_High \<or> cls_risk = High then Risk_High
      else if risk = Risk_Medium \<or> cls_risk = Medium then Risk_Medium
      else Risk_Low)"

definition script_operation_risk :: "classification list \<Rightarrow> op_risk_level" where
  "script_operation_risk classifications =
     (if list_ex (\<lambda>c. cl_no_where c \<and> cl_kind c \<noteq> Read) classifications then Risk_Critical
      else foldl (\<lambda>risk c. raise_risk risk (cl_risk c)) Risk_Low classifications)"

text \<open>\<^verbatim>\<open>Vec::len\<close>, a 64-bit count.\<close>

definition json_len :: "'a list \<Rightarrow> json" where
  "json_len xs = JNumber (PosInt (length xs mod 2 ^ 64))"

text \<open>\<^verbatim>\<open>Iterator::sum\<close> over 64-bit signed integers, in a build that wraps.\<close>

definition wrap_i64 :: "int \<Rightarrow> int" where
  "wrap_i64 i = (i + 2 ^ 63) mod 2 ^ 64 - 2 ^ 63"

definition sum_i64 :: "int list \<Rightarrow> int" where
  "sum_i64 xs = foldl (\<lambda>row_total x. wrap_i64 (row_total + x)) 0 xs"

section \<open>The proposal\<close>

fun risk_str :: "risk_level \<Rightarrow> string" where
  "risk_str Low = ''low''"
| "risk_str Medium = ''medium''"
| "risk_str High = ''high''"

definition classification_value :: "classification \<Rightarrow> json" where
  "classification_value c = JObject
     [(''kind'', JString (kind_str (cl_kind c))),
      (''risk'', JString (risk_str (cl_risk c))),
      (''statementCount'', JNumber (PosInt (cl_statement_count c))),
      (''noWhere'', JBool (cl_no_where c)),
      (''tables'', JArray (map JString (cl_tables c))),
      (''notes'', JArray (map JString (cl_notes c))),
      (''rollbackSafe'', JBool (cl_rollback_safe c))]"

definition script_preview :: "classification list \<Rightarrow> string list \<Rightarrow> json" where
  "script_preview classifications statements = JObject
     [(''classifications'', JArray (map classification_value classifications)),
      (''statementCount'', json_len statements)]"

definition err_no_statements :: app_error where
  "err_no_statements = Config ''no executable statements in the script''"

definition to_left :: "('a \<Rightarrow> 'e) \<Rightarrow> 'a + 'b \<Rightarrow> 'e + 'b" where
  "to_left f r = (case r of Inl e \<Rightarrow> Inl (f e) | Inr x \<Rightarrow> Inr x)"

definition script_proposal_checks ::
  "'row query_env \<Rightarrow> uuid \<Rightarrow> string \<Rightarrow>
   script_error + (pinned_connection \<times> safety_settings \<times> string list \<times> classification list)" where
  "script_proposal_checks Q connection_id sql =
     rbind (to_left Script_Scoped (qe_pin_for_view Q connection_id)) (\<lambda>pin.
     rbind (guard (is_document (cp_engine (pin_profile pin)))
       (Script_Scoped (Blocked ''SQL scripts are unavailable for document connections''))) (\<lambda>_.
     rbind (to_left Script_Application (qe_safety Q (pin_connection_id pin))) (\<lambda>settings.
     let statements = split_statements sql (cp_engine (pin_profile pin)) in
     rbind (guard (statements = []) (Script_Scoped err_no_statements)) (\<lambda>_.
     rbind (to_left Script_Application (collect_results
       (\<lambda>statement. classify (qe_parse Q) statement (cp_engine (pin_profile pin))) statements))
       (\<lambda>classifications.
     let kinds = map cl_kind classifications in
     rbind (guard (list_ex (\<lambda>kind. kind = Privilege) kinds)
       (Script_Scoped (Blocked (''arbitrary privilege SQL is blocked; use a supported, '' @
          ''narrowly scoped administrative action'')))) (\<lambda>_.
     rbind (guard (\<not> (if script_has_write kinds then can_write (cp_workspace_access (pin_profile pin))
                      else can_read (cp_workspace_access (pin_profile pin))))
       (Script_Scoped (Blocked ''your workspace role no longer grants this script access''))) (\<lambda>_.
     rbind (guard (script_has_write kinds \<and> \<not> ss_allow_writes settings)
       (Script_Scoped (Blocked ''writes are disabled for this connection''))) (\<lambda>_.
     Inr (pin, settings, statements, classifications)))))))))"

definition script_operation ::
  "env \<Rightarrow> pinned_connection \<Rightarrow> string \<Rightarrow> string \<Rightarrow> safety_settings \<Rightarrow> string list \<Rightarrow>
   classification list \<Rightarrow> uuid \<Rightarrow> datetime \<Rightarrow> new_operation" where
  "script_operation E pin sql history_origin settings statements classifications operation_id expires_at =
     (let policy = capture_policy E pin settings in
      \<lparr>n_id = operation_id, n_workspace_id = pin_workspace_id pin,
       n_account_scope = storage_key (pin_account_scope pin),
       n_connection_id = pin_connection_id pin,
       n_connection_revision = pin_connection_revision pin,
       n_terminal_session_id = None, n_actor = actor_for_pin pin history_origin,
       n_kind = (if script_has_write (map cl_kind classifications) then SqlScript else ReadQuery),
       n_payload_schema_version = 1,
       n_payload = desktop_payload_value \<lparr>dp_sql = sql, dp_history_origin = history_origin\<rparr>,
       n_schema_fingerprint = None, n_risk_level = script_operation_risk classifications,
       n_preview = script_preview classifications statements,
       n_policy_snapshot = po_snapshot policy, n_policy_revision = po_revision policy,
       n_single_use = True, n_idempotency_key = uuid_to_string E operation_id,
       n_expires_at = Some expires_at\<rparr>)"

definition propose_script ::
  "'row query_env \<Rightarrow> operation_runtime \<Rightarrow> script_request \<Rightarrow> uuid \<Rightarrow> datetime \<Rightarrow> datetime \<Rightarrow> uuid \<Rightarrow>
   datetime \<Rightarrow> uuid \<Rightarrow> ledger \<Rightarrow> (script_error + script_receipt) \<times> ledger" where
  "propose_script Q rt q operation_id now t1 ev1 t2 ev2 db =
     (case script_proposal_checks Q (scq_connection_id q) (scq_sql q) of
        Inl e \<Rightarrow> (Inl e, db)
      | Inr (pin, settings, statements, classifications) \<Rightarrow>
          (let has_write = script_has_write (map cl_kind classifications);
               history_origin = (case scq_origin q of Some s \<Rightarrow> s | None \<Rightarrow> ''manual'');
               expires_at = now + (if has_write then write_proposal_ttl else query_plan_ttl);
               operation = script_operation (qe_env Q) pin (scq_sql q) history_origin settings
                 statements classifications operation_id expires_at
           in (case rt_plan (qe_env Q) rt operation
                      (if has_write then Plan_ApprovalRequired else Plan_Ready) t1 ev1 t2 ev2 db of
                 (Inl e, db') \<Rightarrow> (Inl (Script_Application e), db')
               | (Inr rec, db') \<Rightarrow>
                   (Inr \<lparr>scr_operation_id = o_id rec, scr_payload_hash = o_payload_hash rec,
                         scr_state = o_state rec, scr_approval_required = has_write,
                         scr_confirmation_phrase = required_confirmation rec,
                         scr_statement_count = length statements, scr_expires_at = expires_at\<rparr>, db'))))"

section \<open>The write transaction\<close>

fun script_loop ::
  "'row driver \<Rightarrow> string list \<Rightarrow> script_statement list \<Rightarrow> (script_statement list \<times> bool) db_step" where
  "script_loop drv [] outcomes h = ((outcomes, True), h)"
| "script_loop drv (statement # rest) outcomes h =
     (case send Write_pool (Tx_Execute statement) (\<lambda>h. dv_execute drv h statement) h of
        (Inr n, h') \<Rightarrow> script_loop drv rest (outcomes @ [statement_ok statement n]) h'
      | (Inl e, h') \<Rightarrow> ((outcomes @ [statement_error statement (dv_error_text drv e)], False), h'))"

definition err_script_scope :: app_error where
  "err_script_scope = Blocked ''script transaction scope does not match its approved operation''"

definition execute_script_transaction ::
  "'row driver \<Rightarrow> string list \<Rightarrow> execution_grant \<Rightarrow> uuid \<Rightarrow>
   (script_statement list \<times> bool) app_result db_step" where
  "execute_script_transaction drv statements grant operation_id h0 =
     (if eg_operation_id grant \<noteq> operation_id then (Inl err_script_scope, h0)
      else (case send Write_pool Begin_tx (dv_begin drv) h0 of
          (Inl e, h1) \<Rightarrow>
            (Inr (map (\<lambda>statement. statement_error statement
                     (''could not begin transaction: '' @ dv_error_text drv e)) statements, False), h1)
        | (Inr _, h1) \<Rightarrow>
            (case script_loop drv statements [] h1 of
               ((outcomes, False), h2) \<Rightarrow>
                 (case send Write_pool Rollback_tx (dv_rollback drv) h2 of
                    (Inl e, h3) \<Rightarrow>
                      (Inl (OutcomeUnknown_error (''script rollback acknowledgement failed: '' @
                         dv_error_text drv e)), h3)
                  | (Inr _, h3) \<Rightarrow>
                      (Inr (outcomes @ map statement_skipped (drop (length outcomes) statements), False), h3))
             | ((outcomes, True), h2) \<Rightarrow>
                 (case send Write_pool Commit_tx (dv_commit drv) h2 of
                    (Inl e, h3) \<Rightarrow>
                      (Inl (OutcomeUnknown_error (''script commit acknowledgement failed: '' @
                         dv_error_text drv e)), h3)
                  | (Inr _, h3) \<Rightarrow> (Inr (outcomes, True), h3)))))"

section \<open>The sequential reads\<close>

text \<open>
  The statement at position \<open>k\<close> is guarded by a handle of its own; \<open>polls k\<close> are the polls of
  its session. \<open>None\<close> while a guarded session has not ended.
\<close>

fun read_statements ::
  "'row driver \<Rightarrow> live_connection \<Rightarrow> nat \<Rightarrow> (nat \<Rightarrow> session_poll list) \<Rightarrow> nat \<Rightarrow> string list \<Rightarrow>
   script_statement list \<Rightarrow> string option \<Rightarrow> db_log \<Rightarrow>
   (script_statement list \<times> string option \<times> db_log) option" where
  "read_statements drv live max_rows polls k [] outcomes failure h = Some (outcomes, failure, h)"
| "read_statements drv live max_rows polls k (statement # rest) outcomes failure h =
     (if failure \<noteq> None
      then read_statements drv live max_rows polls (k + 1) rest
             (outcomes @ [statement_skipped statement]) failure h
      else (case run_read_registered dec_nat drv live statement max_rows True (polls k) h of
          None \<Rightarrow> None
        | Some (Inr result, h') \<Rightarrow>
            read_statements drv live max_rows polls (k + 1) rest
              (outcomes @ [\<lparr>st_sql = statement, st_result = Some result, st_affected = None,
                            st_error = None\<rparr>]) None h'
        | Some (Inl e, h') \<Rightarrow>
            read_statements drv live max_rows polls (k + 1) rest
              (outcomes @ [statement_error statement (app_error_text e)]) (Some (app_error_text e)) h'))"

section \<open>The run\<close>

text \<open>What a script run meets beside the inputs of a single run: the polls of each of its reads.\<close>

record script_inputs =
  si_run :: run_inputs
  si_polls :: "nat \<Rightarrow> session_poll list"

definition record_script_run ::
  "'row query_env \<Rightarrow> pinned_connection \<Rightarrow> string \<Rightarrow> query_kind \<Rightarrow> string \<Rightarrow> string \<Rightarrow> int option \<Rightarrow>
   string option \<Rightarrow> string \<Rightarrow> run_inputs \<Rightarrow> query_state \<Rightarrow> query_state" where
  "record_script_run Q pin sql kind action status row_count err origin i st =
     record_desktop_run Q pin sql kind action status row_count None err origin i st"

definition err_not_script_proposal :: app_error where
  "err_not_script_proposal = Blocked ''operation is not a supported SQL script proposal''"

definition script_run_checks ::
  "'row query_env \<Rightarrow> uuid \<Rightarrow> ledger \<Rightarrow>
   script_error + (operation_record \<times> script_payload \<times> pinned_connection \<times> safety_settings \<times>
     string list \<times> query_kind list)" where
  "script_run_checks Q operation_id db =
     rbind (to_left Script_Application (rt_get (qe_env Q) operation_id db)) (\<lambda>planned.
     rbind (guard (o_payload_schema_version planned \<noteq> 1 \<or> o_kind planned \<notin> {ReadQuery, SqlScript})
       (Script_Application err_not_script_proposal)) (\<lambda>_.
     rbind (ok_or (read_desktop_payload (o_payload planned))
       (Script_Application (Serialization (qe_serde_error Q (o_payload planned))))) (\<lambda>payload.
     rbind (to_left Script_Scoped (qe_pin Q (o_connection_id planned))) (\<lambda>pin.
     rbind (to_left Script_Application (ensure_operation_scope planned pin)) (\<lambda>_.
     rbind (to_left Script_Scoped (qe_safety Q (pin_connection_id pin))) (\<lambda>settings.
     rbind (guard (po_revision (capture_policy (qe_env Q) pin settings) \<noteq> o_policy_revision planned)
       (Script_Scoped (Blocked ''the connection or safety policy changed; create a new proposal''))) (\<lambda>_.
     let statements = split_statements (dp_sql payload) (cp_engine (pin_profile pin)) in
     rbind (guard (statements = []) (Script_Scoped err_no_statements)) (\<lambda>_.
     rbind (to_left Script_Scoped (collect_results
       (\<lambda>statement. classify (qe_parse Q) statement (cp_engine (pin_profile pin))) statements))
       (\<lambda>classifications.
     let kinds = map cl_kind classifications in
     rbind (guard (list_ex (\<lambda>kind. kind = Privilege) kinds)
       (Script_Scoped (Blocked ''stored script contains blocked arbitrary privilege SQL''))) (\<lambda>_.
     rbind (guard (o_kind planned \<noteq> (if script_has_write kinds then SqlScript else ReadQuery))
       (Script_Scoped (Blocked ''stored script classification no longer matches its proposal''))) (\<lambda>_.
     Inr (planned, payload, pin, settings, statements, kinds))))))))))))"

definition script_receipt_value :: "int \<Rightarrow> string list \<Rightarrow> json" where
  "script_receipt_value row_total statements = JObject
     [(''rowCount'', json_i64 row_total), (''statementCount'', json_len statements)]"

definition script_reads ::
  "'row query_env \<Rightarrow> operation_runtime \<Rightarrow> script_payload \<Rightarrow> pinned_connection \<Rightarrow> safety_settings \<Rightarrow>
   string list \<Rightarrow> claimed_operation \<Rightarrow> script_inputs \<Rightarrow> query_state \<Rightarrow>
   ((script_error + script_outcome) \<times> query_state) option" where
  "script_reads Q rt payload pin settings statements claimed si st =
     (let E = qe_env Q; i = si_run si; operation_id = o_id (co_record claimed);
          settle = (\<lambda>finish details db. finish E rt operation_id details (ri_clock i 3) (ri_ids i 3) db)
      in case qe_connect Q pin Access_Read of
        Inl e \<Rightarrow>
          (let st1 = record_script_run Q pin (dp_sql payload) Read ''script:execute'' ''error'' None
                 (Some (app_error_text e)) (dp_history_origin payload) i st
           in Some (Inl (Script_Application e),
                st1\<lparr>qs_ledger := snd (settle rt_fail (reason_value ''connection_failed'') (qs_ledger st1))\<rparr>))
      | Inr _ \<Rightarrow>
          (case qe_sql Q pin of
             Inl e \<Rightarrow> Some (Inl (Script_Execution e),
               st\<lparr>qs_ledger := snd (settle rt_fail (reason_value ''sql_backend_unavailable'') (qs_ledger st))\<rparr>)
           | Inr live \<Rightarrow>
               (case read_statements (qe_driver Q) live (ss_max_rows settings) (si_polls si) 0 statements
                       [] None (qs_log st) of
                  None \<Rightarrow> None
                | Some (outcomes, failure, h) \<Rightarrow>
                    (let row_total = sum_i64 (map (\<lambda>r. u64_as_i64 (qr_row_count r))
                           (List.map_filter st_result outcomes));
                         st1 = record_script_run Q pin (dp_sql payload) Read ''script:execute''
                           (if failure \<noteq> None then ''error'' else ''ok'') (Some row_total) failure
                           (dp_history_origin payload) i (st\<lparr>qs_log := h\<rparr>);
                         (result, db) = (if failure \<noteq> None
                           then settle rt_fail (reason_value ''script_statement_failed'') (qs_ledger st1)
                           else settle rt_succeed (script_receipt_value row_total statements)
                             (qs_ledger st1));
                         st2 = st1\<lparr>qs_ledger := db\<rparr>
                     in (case result of
                           Inl e \<Rightarrow> Some (Inl (Script_Application e), st2)
                         | Inr _ \<Rightarrow> Some (Inr \<lparr>so_statements = outcomes, so_committed = False,
                             so_all_reads = True\<rparr>, st2))))))"

definition script_kind :: "query_kind list \<Rightarrow> query_kind" where
  "script_kind kinds =
     (if list_ex (\<lambda>kind. kind = Ddl) kinds then Ddl
      else if list_ex (\<lambda>kind. kind = Privilege) kinds then Privilege
      else Write)"

text \<open>The transaction has answered: what it is recorded as.\<close>

definition script_interrupted :: "app_error \<Rightarrow> app_error" where
  "script_interrupted e =
     (if is_cancelled_error e \<or> is_timeout_error e
      then OutcomeUnknown_error
        (''script execution was interrupted before rollback or commit could be confirmed: '' @ app_error_text e)
      else e)"

definition err_implicit_commit :: app_error where
  "err_implicit_commit = OutcomeUnknown_error
     (''MySQL may implicitly commit DDL or privilege statements before '' @
      ''a later script statement fails'')"

definition settle_script ::
  "'row query_env \<Rightarrow> operation_runtime \<Rightarrow> script_payload \<Rightarrow> pinned_connection \<Rightarrow> string list \<Rightarrow>
   query_kind list \<Rightarrow> uuid \<Rightarrow> run_inputs \<Rightarrow> (script_statement list \<times> bool) app_result \<Rightarrow> query_state \<Rightarrow>
   (script_error + script_outcome) \<times> query_state" where
  "settle_script Q rt payload pin statements kinds operation_id i answer st =
     (let E = qe_env Q;
          settle = (\<lambda>finish details n db. finish E rt operation_id details (ri_clock i n) (ri_ids i n) db);
          report = (\<lambda>status row_count err. record_script_run Q pin (dp_sql payload) (script_kind kinds)
            ''script:execute'' status row_count err (dp_history_origin payload) i)
      in case answer of
        Inl e0 \<Rightarrow>
          (let e = script_interrupted e0;
               st1 = report ''error'' None (Some (app_error_text e)) st
           in (Inl (Script_Execution e), st1\<lparr>qs_ledger := snd (if is_unknown_error e
                 then settle mark_outcome_unknown (reason_value ''target_outcome_unconfirmed'') 3 (qs_ledger st1)
                 else settle rt_fail (reason_value (app_error_kind e)) 3 (qs_ledger st1))\<rparr>))
      | Inr (outcomes, committed) \<Rightarrow>
          if \<not> committed \<and> cp_engine (pin_profile pin) = Mysql \<and> list_ex (\<lambda>kind. kind \<in> {Ddl, Privilege}) kinds
          then (let st1 = report ''outcome_unknown'' None (Some (app_error_text err_implicit_commit)) st
                in (Inl (Script_Execution err_implicit_commit), st1\<lparr>qs_ledger := snd
                     (settle mark_outcome_unknown (reason_value ''mysql_implicit_commit_unconfirmed'') 3
                       (qs_ledger st1))\<rparr>))
          else
            (let st0 = (if committed \<and> list_ex (\<lambda>kind. kind = Ddl) kinds
                   then snd (clear_schema_cache Q (pin_connection_id pin) st) else st);
                 row_total = sum_i64 (List.map_filter st_affected outcomes);
                 first_error = first_some st_error outcomes;
                 st1 = report (if committed then ''ok'' else ''error'') (Some row_total) first_error st0;
                 (lifecycle, db) = (if committed
                   then settle rt_succeed (script_receipt_value row_total statements) 3 (qs_ledger st1)
                   else settle rt_fail (reason_value ''script_transaction_rolled_back'') 3 (qs_ledger st1))
             in case lifecycle of
                  Inl e \<Rightarrow> (Inl (Script_Execution e), st1\<lparr>qs_ledger := (if committed
                    then snd (settle mark_outcome_unknown (reason_value ''local_receipt_failed'') 4 db)
                    else db)\<rparr>)
                | Inr _ \<Rightarrow> (Inr \<lparr>so_statements = outcomes, so_committed = committed, so_all_reads = False\<rparr>,
                    st1\<lparr>qs_ledger := db\<rparr>)))"

definition script_attempt_args ::
  "operation_record \<Rightarrow> script_payload \<Rightarrow> pinned_connection \<Rightarrow> query_kind list \<Rightarrow> record_args" where
  "script_attempt_args claimed_rec payload pin kinds =
     \<lparr>ra_connection_id = pin_connection_id pin, ra_engine = cp_engine (pin_profile pin),
      ra_agent_prompt = None, ra_sql = dp_sql payload, ra_kind = script_kind kinds,
      ra_action = ''script:execute:attempt'', ra_approved_by = Some (actor_id (o_actor claimed_rec)),
      ra_affected_estimate = None, ra_error = None\<rparr>"

definition script_write ::
  "'row query_env \<Rightarrow> operation_runtime \<Rightarrow> script_payload \<Rightarrow> pinned_connection \<Rightarrow> safety_settings \<Rightarrow>
   string list \<Rightarrow> query_kind list \<Rightarrow> claimed_operation \<Rightarrow> run_inputs \<Rightarrow> query_state \<Rightarrow>
   ((script_error + script_outcome) \<times> query_state) option" where
  "script_write Q rt payload pin settings statements kinds claimed i st =
     (let E = qe_env Q; operation_id = o_id (co_record claimed);
          report = (\<lambda>kind action status err. record_script_run Q pin (dp_sql payload) kind action status
            None (Some err) (dp_history_origin payload) i);
          refuse = (\<lambda>reason st. st\<lparr>qs_ledger := snd (rt_fail E rt operation_id (reason_value reason)
            (ri_clock i 3) (ri_ids i 3) (qs_ledger st))\<rparr>)
      in if \<not> can_write (cp_workspace_access (pin_profile pin))
         then Some (Inl (Script_Scoped err_read_only_role), st)
         else if \<not> ss_allow_writes settings
         then (let reason = ''writing is disabled for this connection (writes are off by default). '' @
                     ''Enable writes in the connection's safety settings to run this script.''
               in Some (Inl (Script_Scoped (Blocked reason)), report Write ''blocked'' ''blocked'' reason st))
         else (case audit_record E (qe_audit_time Q)
                     (script_attempt_args (co_record claimed) payload pin kinds) (ri_ids i 2) (ri_clock i 2)
                     (qs_audit st) of
             (Inl e, log) \<Rightarrow>
               Some (Inl (Script_Scoped (Config (''audit pre-record failed'' @ long_dash @
                   ''refusing to run script: '' @ app_error_text e))),
                 refuse ''audit_pre_record_failed'' (st\<lparr>qs_audit := log\<rparr>))
           | (Inr _, log) \<Rightarrow>
               (let st1 = st\<lparr>qs_audit := log\<rparr> in
                case qe_connect Q pin Access_Write of
                  Inl e \<Rightarrow> Some (Inl (Script_Application e), refuse ''connection_failed''
                    (report (script_kind kinds) ''script:execute'' ''error'' (app_error_text e) st1))
                | Inr _ \<Rightarrow>
                    (case qe_sql Q pin of
                       Inl e \<Rightarrow> Some (Inl (Script_Execution e), refuse ''sql_backend_unavailable''
                         (report (script_kind kinds) ''script:execute'' ''error'' (app_error_text e) st1))
                     | Inr live \<Rightarrow>
                         (case guard_session dec_nat True (ri_polls i)
                                 (execute_script_transaction (qe_driver Q) statements (co_grant claimed) operation_id)
                                 (qs_log st1) of
                            None \<Rightarrow> None
                          | Some (answer, h) \<Rightarrow> Some (settle_script Q rt payload pin statements kinds
                              operation_id i answer (st1\<lparr>qs_log := h\<rparr>)))))))"

definition run_script ::
  "'row query_env \<Rightarrow> operation_runtime \<Rightarrow> uuid \<Rightarrow> script_inputs \<Rightarrow> query_state \<Rightarrow>
   ((script_error + script_outcome) \<times> query_state) option" where
  "run_script Q rt operation_id si st =
     (case script_run_checks Q operation_id (qs_ledger st) of
        Inl e \<Rightarrow> Some (Inl e, st)
      | Inr (planned, payload, pin, settings, statements, kinds) \<Rightarrow>
          (case rt_claim (qe_env Q) rt operation_id (ri_clock (si_run si) 0) (ri_ids (si_run si) 0) (qs_ledger st) of
             (Inl e, db) \<Rightarrow> Some (Inl (Script_Application e), st\<lparr>qs_ledger := db\<rparr>)
           | (Inr claimed, db) \<Rightarrow>
               if script_has_write kinds
               then script_write Q rt payload pin settings statements kinds claimed (si_run si)
                      (st\<lparr>qs_ledger := db\<rparr>)
               else script_reads Q rt payload pin settings statements claimed si (st\<lparr>qs_ledger := db\<rparr>)))"

section \<open>The transaction is exact\<close>

text \<open>The commands that execute some statements, and an outcome that matches its statement.\<close>

definition tx_commands :: "string list \<Rightarrow> db_log" where
  "tx_commands statements = map (\<lambda>s. (Write_pool, Tx_Execute s)) statements"

lemma tx_commands_simps [simp]:
  "tx_commands [] = []" "tx_commands (s # ss) = (Write_pool, Tx_Execute s) # tx_commands ss"
  "tx_commands (ss @ ts) = tx_commands ss @ tx_commands ts"
  by (simp_all add: tx_commands_def)

lemma script_loop_spec:
  assumes "script_loop drv ss outs h = ((outs', ok), h')"
  shows "\<exists>k \<le> length ss. \<exists>new. outs' = outs @ new \<and> map st_sql new = take k ss \<and>
    h' = h @ tx_commands (take k ss) \<and>
    (\<forall>j < length new. (j + 1 < k \<or> ok) \<longrightarrow> (\<exists>n. dv_execute drv (h @ tx_commands (take j ss)) (ss ! j) = Inr n \<and>
       new ! j = statement_ok (ss ! j) n)) \<and>
    (if ok then k = length ss
     else 0 < k \<and> (\<exists>e. dv_execute drv (h @ tx_commands (take (k - 1) ss)) (ss ! (k - 1)) = Inl e \<and>
       last new = statement_error (ss ! (k - 1)) (dv_error_text drv e)))"
  using assms
proof (induction ss arbitrary: outs h)
  case Nil
  then show ?case by simp
next
  case (Cons s ss)
  let ?h = "h @ [(Write_pool, Tx_Execute s)]"
  show ?case
  proof (cases "dv_execute drv h s")
    case (Inl e)
    then have "outs' = outs @ [statement_error s (dv_error_text drv e)]" "\<not> ok" "h' = ?h"
      using Cons.prems by (auto simp: send_def)
    then show ?thesis
      using Inl by (intro exI [of _ 1] conjI exI [of _ "[statement_error s (dv_error_text drv e)]"])
        (auto simp: statement_error_def)
  next
    case (Inr n)
    then have "script_loop drv ss (outs @ [statement_ok s n]) ?h = ((outs', ok), h')"
      using Cons.prems by (simp add: send_def)
    from Cons.IH [OF this] obtain k new where k: "k \<le> length ss"
      "outs' = (outs @ [statement_ok s n]) @ new" "map st_sql new = take k ss"
      "h' = ?h @ tx_commands (take k ss)"
      "\<And>j. j < length new \<Longrightarrow> j + 1 < k \<or> ok \<Longrightarrow>
         \<exists>n. dv_execute drv (?h @ tx_commands (take j ss)) (ss ! j) = Inr n \<and> new ! j = statement_ok (ss ! j) n"
      "if ok then k = length ss
       else 0 < k \<and> (\<exists>e. dv_execute drv (?h @ tx_commands (take (k - 1) ss)) (ss ! (k - 1)) = Inl e \<and>
         last new = statement_error (ss ! (k - 1)) (dv_error_text drv e))"
      by blast
    have len: "length new = k"
      using k(1,3) by (metis length_map length_take min.absorb2)
    have steps: "\<exists>m. dv_execute drv (h @ tx_commands (take j (s # ss))) ((s # ss) ! j) = Inr m \<and>
        (statement_ok s n # new) ! j = statement_ok ((s # ss) ! j) m"
      if j: "j < length (statement_ok s n # new)" "j + 1 < Suc k \<or> ok" for j
    proof (cases j)
      case 0
      then show ?thesis using Inr by simp
    next
      case (Suc i)
      then have "i < length new" "i + 1 < k \<or> ok" using j by auto
      from k(5) [OF this] show ?thesis using Suc by simp
    qed
    have final: "if ok then Suc k = length (s # ss)
        else 0 < Suc k \<and> (\<exists>e. dv_execute drv (h @ tx_commands (take (Suc k - 1) (s # ss))) ((s # ss) ! (Suc k - 1)) = Inl e \<and>
          last (statement_ok s n # new) = statement_error ((s # ss) ! (Suc k - 1)) (dv_error_text drv e))"
      using k(6) len by (auto split: if_splits simp: gr0_conv_Suc)
    have parts: "Suc k \<le> length (s # ss)" "outs' = outs @ (statement_ok s n # new)"
      "map st_sql (statement_ok s n # new) = take (Suc k) (s # ss)"
      "h' = h @ tx_commands (take (Suc k) (s # ss))"
      using k by (simp_all add: statement_ok_def)
    show ?thesis
      by (rule exI [of _ "Suc k"])
        (intro conjI exI [of _ "statement_ok s n # new"] allI impI;
          (rule parts final | (rule steps; assumption)))
  qed
qed

text \<open>The four ways a transaction of the right scope can go.\<close>

definition executed_upto :: "'row driver \<Rightarrow> db_log \<Rightarrow> string list \<Rightarrow> script_statement list \<Rightarrow> bool" where
  "executed_upto drv h statements outs \<longleftrightarrow> length outs \<le> length statements \<and>
     (\<forall>j < length outs. \<exists>n. dv_execute drv (h @ tx_commands (take j statements)) (statements ! j) = Inr n \<and>
        outs ! j = statement_ok (statements ! j) n)"

lemma executed_upto_sql: "executed_upto drv h statements outs \<Longrightarrow> map st_sql outs = take (length outs) statements"
  by (rule nth_equalityI) (auto simp: executed_upto_def statement_ok_def)

lemma transaction_cases:
  assumes "execute_script_transaction drv statements grant operation_id h = (r, h')"
  obtains
    (scope) "r = Inl err_script_scope" "h' = h" "eg_operation_id grant \<noteq> operation_id"
  | (unbegun) e where "h' = h @ [(Write_pool, Begin_tx)]" "dv_begin drv h = Inl e"
      "r = Inr (map (\<lambda>s. statement_error s (''could not begin transaction: '' @ dv_error_text drv e)) statements, False)"
  | (rolled_back) outs e where "length outs < length statements"
      "executed_upto drv (h @ [(Write_pool, Begin_tx)]) statements outs"
      "dv_execute drv (h @ [(Write_pool, Begin_tx)] @ tx_commands (take (length outs) statements))
         (statements ! length outs) = Inl e"
      "h' = h @ [(Write_pool, Begin_tx)] @ tx_commands (take (Suc (length outs)) statements) @ [(Write_pool, Rollback_tx)]"
      "(\<exists>m. r = Inl (OutcomeUnknown_error m)) \<or>
       r = Inr (outs @ [statement_error (statements ! length outs) (dv_error_text drv e)] @
         map statement_skipped (drop (Suc (length outs)) statements), False)"
  | (finished) outs where "length outs = length statements"
      "executed_upto drv (h @ [(Write_pool, Begin_tx)]) statements outs"
      "h' = h @ [(Write_pool, Begin_tx)] @ tx_commands statements @ [(Write_pool, Commit_tx)]"
      "if isl (dv_commit drv (h @ [(Write_pool, Begin_tx)] @ tx_commands statements))
       then \<exists>m. r = Inl (OutcomeUnknown_error m) else r = Inr (outs, True)"
proof (cases "eg_operation_id grant = operation_id")
  case False
  then show thesis using assms by (intro scope) (auto simp: execute_script_transaction_def)
next
  case grant: True
  let ?h1 = "h @ [(Write_pool, Begin_tx)]"
  show thesis
  proof (cases "dv_begin drv h")
    case (Inl e)
    then show thesis using assms grant
      by (intro unbegun [of e]) (auto simp: execute_script_transaction_def send_def)
  next
    case begun: (Inr u)
    obtain outs ok h2 where loop: "script_loop drv statements [] ?h1 = ((outs, ok), h2)"
      by (metis surj_pair)
    obtain k where k: "k \<le> length statements" "map st_sql outs = take k statements"
      "h2 = ?h1 @ tx_commands (take k statements)"
      "\<And>j. j < length outs \<Longrightarrow> j + 1 < k \<or> ok \<Longrightarrow>
         \<exists>n. dv_execute drv (?h1 @ tx_commands (take j statements)) (statements ! j) = Inr n \<and>
           outs ! j = statement_ok (statements ! j) n"
      "if ok then k = length statements
       else 0 < k \<and> (\<exists>e. dv_execute drv (?h1 @ tx_commands (take (k - 1) statements)) (statements ! (k - 1)) = Inl e \<and>
         last outs = statement_error (statements ! (k - 1)) (dv_error_text drv e))"
      using script_loop_spec [OF loop] by auto
    have len: "length outs = k"
      using k(1,2) by (metis length_map length_take min.absorb2)
    show thesis
    proof (cases ok)
      case True
      then have full: "length outs = length statements" "h2 = ?h1 @ tx_commands statements"
        using k(3,5) len by simp_all
      have "executed_upto drv ?h1 statements outs"
        using k(4) True full(1) by (simp add: executed_upto_def)
      then show thesis
        using assms grant begun loop True full
        by (intro finished [of outs])
          (auto simp: execute_script_transaction_def send_def isl_def split: sum.splits)
    next
      case False
      then obtain e where e: "0 < k"
        "dv_execute drv (?h1 @ tx_commands (take (k - 1) statements)) (statements ! (k - 1)) = Inl e"
        "last outs = statement_error (statements ! (k - 1)) (dv_error_text drv e)"
        using k(5) by auto
      define done_outs where "done_outs = butlast outs"
      have outs: "outs = done_outs @ [statement_error (statements ! (k - 1)) (dv_error_text drv e)]"
        using e(1,3) len by (metis append_butlast_last_id done_outs_def length_0_conv less_irrefl)
      have len': "length done_outs = k - 1" using len by (simp add: done_outs_def)
      have "executed_upto drv ?h1 statements done_outs"
        unfolding executed_upto_def
      proof (intro conjI allI impI)
        fix j
        assume "j < length done_outs"
        then have "j < length outs" "j + 1 < k" "done_outs ! j = outs ! j"
          using len len' outs by (auto simp: nth_append)
        then show "\<exists>n. dv_execute drv (?h1 @ tx_commands (take j statements)) (statements ! j) = Inr n \<and>
            done_outs ! j = statement_ok (statements ! j) n"
          using k(4) [of j] by auto
      qed (use len' k(1) in simp)
      moreover have "Suc (length done_outs) = k" using len' e(1) by simp
      ultimately show thesis
        using assms grant begun loop False k(1,3) e outs len'
        by (intro rolled_back [of done_outs e])
          (auto simp: execute_script_transaction_def send_def split: sum.splits)
    qed
  qed
qed

lemma executed_upto_affected:
  assumes "executed_upto drv h statements outs" "j < length outs"
  shows "st_error (outs ! j) = None" "st_sql (outs ! j) = statements ! j"
    "\<exists>n. dv_execute drv (h @ tx_commands (take j statements)) (statements ! j) = Inr n \<and>
       st_affected (outs ! j) = Some (u64_as_i64 n)"
  using assms by (auto simp: executed_upto_def statement_ok_def)


section \<open>What a script run sends\<close>

lemma read_inner_sends:
  "\<exists>new. snd (read_inner drv live sql limit h) = h @ new \<and>
     set new \<subseteq> {(Read_pool, Fetch sql), (Read_pool, Describe sql)}"
  by (auto simp: read_inner_def fetch_capped_def send_def with_headers_def split: sum.split prod.split)

lemma run_read_sends:
  assumes "run_read_registered show_nat drv live sql limit cancellation ps h = Some (r, h')"
  shows "\<exists>new. h' = h @ new \<and> set new \<subseteq> {(Read_pool, Fetch sql), (Read_pool, Describe sql)}"
proof -
  obtain r0 where g: "guard_session show_nat cancellation ps (read_inner drv live sql limit) h = Some (r0, h')"
    using assms by (auto simp: run_read_registered_def)
  obtain new where "snd (read_inner drv live sql limit h) = h @ new"
    "set new \<subseteq> {(Read_pool, Fetch sql), (Read_pool, Describe sql)}"
    using read_inner_sends by blast
  moreover obtain sent where "h' = h @ sent" "prefix sent new"
    using guard_session_log [OF g calculation(1)] by blast
  ultimately show ?thesis
    using set_mono_prefix by (intro exI [of _ sent]) blast
qed

definition reads_of :: "string list \<Rightarrow> (pool_side \<times> db_action) set" where
  "reads_of statements = (\<Union>s \<in> set statements. {(Read_pool, Fetch s), (Read_pool, Describe s)})"

lemma read_statements_skips:
  "failure \<noteq> None \<Longrightarrow> read_statements drv live max_rows polls k ss outs failure h =
     Some (outs @ map statement_skipped ss, failure, h)"
  by (induction ss arbitrary: k outs) auto

text \<open>
  The reads of a script end at the first failure: the outcomes are those of a prefix read in
  order, one failed statement and the rest skipped.
\<close>

lemma read_statements_spec:
  assumes "read_statements drv live max_rows polls k ss outs None h = Some (outs', failure, h')"
  shows "\<exists>new. h' = h @ new \<and> set new \<subseteq> reads_of ss"
    and "\<exists>new. outs' = outs @ new \<and> map st_sql new = ss \<and> (failure = None \<longleftrightarrow> (\<forall>s \<in> set new. st_result s \<noteq> None))"
  using assms
proof (induction ss arbitrary: k outs h)
  case Nil
  case 1 then show ?case by simp
  case 2 then show ?case using Nil by simp
next
  case (Cons s ss)
  have step: "(\<exists>new. h' = h @ new \<and> set new \<subseteq> reads_of (s # ss)) \<and>
     (\<exists>new. outs' = outs @ new \<and> map st_sql new = s # ss \<and>
        (failure = None \<longleftrightarrow> (\<forall>s \<in> set new. st_result s \<noteq> None)))"
    if run: "read_statements drv live max_rows polls k (s # ss) outs None h = Some (outs', failure, h')"
    for k outs h
  proof -
    obtain r h1 where read: "run_read_registered dec_nat drv live s max_rows True (polls k) h = Some (r, h1)"
      using run by (auto split: option.splits)
    obtain new1 where new1: "h1 = h @ new1" "set new1 \<subseteq> {(Read_pool, Fetch s), (Read_pool, Describe s)}"
      using run_read_sends [OF read] by blast
    show ?thesis
    proof (cases r)
      case (Inl e)
      then have "outs' = (outs @ [statement_error s (app_error_text e)]) @ map statement_skipped ss"
        "failure = Some (app_error_text e)" "h' = h1"
        using run read by (simp_all add: read_statements_skips)
      then show ?thesis
        using new1 by (auto simp: reads_of_def statement_error_def statement_skipped_def comp_def)
    next
      case (Inr result)
      let ?o = "\<lparr>st_sql = s, st_result = Some result, st_affected = None, st_error = None\<rparr>"
      have rest: "read_statements drv live max_rows polls (k + 1) ss (outs @ [?o]) None h1 = Some (outs', failure, h')"
        using run read Inr by simp
      obtain new2 where "h' = h1 @ new2" "set new2 \<subseteq> reads_of ss" using Cons.IH(1) [OF rest] by blast
      moreover obtain out2 where "outs' = (outs @ [?o]) @ out2" "map st_sql out2 = ss"
        "failure = None \<longleftrightarrow> (\<forall>s \<in> set out2. st_result s \<noteq> None)"
        using Cons.IH(2) [OF rest] by blast
      ultimately show ?thesis
        using new1 by (intro conjI exI [of _ "new1 @ new2"] exI [of _ "?o # out2"]) (auto simp: reads_of_def)
    qed
  qed
  case 1 show ?case using step [OF 1] by (rule conjunct1)
  case 2 show ?case using step [OF 2] by (rule conjunct2)
qed

text \<open>What the transaction of a script may have sent when it was last polled.\<close>

lemma transaction_sends:
  assumes "guard_session show_nat has_handle ps (execute_script_transaction drv statements grant operation_id) h =
    Some (r, h')"
  shows "\<exists>new. h' = h @ new \<and> (new \<noteq> [] \<longrightarrow> eg_operation_id grant = operation_id) \<and>
    (prefix new ([(Write_pool, Begin_tx)] @ tx_commands statements @ [(Write_pool, Commit_tx)]) \<or>
     (\<exists>k < length statements. prefix new
        ([(Write_pool, Begin_tx)] @ tx_commands (take (Suc k) statements) @ [(Write_pool, Rollback_tx)])))"
proof -
  obtain a h1 where run: "execute_script_transaction drv statements grant operation_id h = (a, h1)"
    by (metis surj_pair)
  have "\<exists>full. h1 = h @ full \<and> (full \<noteq> [] \<longrightarrow> eg_operation_id grant = operation_id) \<and>
    (prefix full ([(Write_pool, Begin_tx)] @ tx_commands statements @ [(Write_pool, Commit_tx)]) \<or>
     (\<exists>k < length statements.
        full = [(Write_pool, Begin_tx)] @ tx_commands (take (Suc k) statements) @ [(Write_pool, Rollback_tx)]))"
  proof -
    have scope: "eg_operation_id grant = operation_id" if "h1 \<noteq> h"
      using run that by (auto simp: execute_script_transaction_def split: if_splits)
    from run show ?thesis
      by (cases rule: transaction_cases) (use scope in auto)
  qed
  then obtain full where full: "h1 = h @ full" "full \<noteq> [] \<Longrightarrow> eg_operation_id grant = operation_id"
    "prefix full ([(Write_pool, Begin_tx)] @ tx_commands statements @ [(Write_pool, Commit_tx)]) \<or>
     (\<exists>k < length statements.
        full = [(Write_pool, Begin_tx)] @ tx_commands (take (Suc k) statements) @ [(Write_pool, Rollback_tx)])"
    by blast
  obtain sent where "h' = h @ sent" "prefix sent full"
    using guard_session_log [OF assms, of full] run full(1) by auto
  moreover have "full \<noteq> []" if "sent \<noteq> []" using that \<open>prefix sent full\<close> by auto
  ultimately show ?thesis
    using full(2,3) by (intro exI [of _ sent]) (auto intro: prefix_order.trans simp: prefix_Nil)
qed

lemma to_left_Inr [simp]: "to_left f r = Inr x \<longleftrightarrow> r = Inr x"
  by (simp add: to_left_def split: sum.split)

lemma script_run_checks_Inr:
  assumes "script_run_checks Q operation_id db = Inr (planned, payload, pin, settings, statements, kinds)"
  shows "get_operation (qe_env Q) operation_id db = Inr planned"
    and "read_desktop_payload (o_payload planned) = Some payload"
    and "qe_pin Q (o_connection_id planned) = Inr pin"
    and "ensure_operation_scope planned pin = Inr ()"
    and "qe_safety Q (pin_connection_id pin) = Inr settings"
    and "po_revision (capture_policy (qe_env Q) pin settings) = o_policy_revision planned"
    and "statements = split_statements (dp_sql payload) (cp_engine (pin_profile pin))"
    and "statements \<noteq> []"
    and "o_kind planned = (if script_has_write kinds then SqlScript else ReadQuery)"
  using assms
  by (auto simp: script_run_checks_def rt_get_def rbind_eq_Inr Let_def simp del: can_write.simps can_read.simps)

lemma record_after_clear_audit:
  "prefix (qs_audit st) (qs_audit (record_desktop_run Q pin sql kind action status n d e origin i
     (snd (clear_schema_cache Q cid st))))"
  using record_desktop_run_audit [of "snd (clear_schema_cache Q cid st)"] by simp

lemma settle_script_frame:
  "qs_log (snd (settle_script Q rt payload pin statements kinds op i answer st)) = qs_log st"
  "prefix (qs_audit st) (qs_audit (snd (settle_script Q rt payload pin statements kinds op i answer st)))"
proof -
  have "qs_log (snd (settle_script Q rt payload pin statements kinds op i answer st)) = qs_log st \<and>
    prefix (qs_audit st) (qs_audit (snd (settle_script Q rt payload pin statements kinds op i answer st)))"
  proof (cases answer)
    case (Inl e)
    then show ?thesis
      by (simp add: settle_script_def Let_def record_script_run_def record_desktop_run_audit)
  next
    case (Inr p)
    obtain outcomes committed where p: "p = (outcomes, committed)" by (metis surj_pair)
    show ?thesis
      by (simp add: Inr p settle_script_def Let_def record_script_run_def case_prod_beta
          record_desktop_run_audit record_after_clear_audit split: sum.split)
  qed
  then show "qs_log (snd (settle_script Q rt payload pin statements kinds op i answer st)) = qs_log st"
    "prefix (qs_audit st) (qs_audit (snd (settle_script Q rt payload pin statements kinds op i answer st)))"
    by simp_all
qed

lemma script_reads_sends:
  assumes "script_reads Q rt payload pin settings statements claimed si st = Some (r, st')"
  shows "\<exists>new. qs_log st' = qs_log st @ new \<and> set new \<subseteq> reads_of statements"
proof (cases "qe_connect Q pin Access_Read")
  case (Inl e)
  then show ?thesis using assms by (auto simp: script_reads_def Let_def record_script_run_def)
next
  case connected: (Inr u)
  show ?thesis
  proof (cases "qe_sql Q pin")
    case (Inl e)
    then show ?thesis using assms connected by (auto simp: script_reads_def Let_def)
  next
    case (Inr live)
    obtain outcomes failure h where run: "read_statements (qe_driver Q) live (ss_max_rows settings) (si_polls si) 0
        statements [] None (qs_log st) = Some (outcomes, failure, h)"
      using assms connected Inr by (auto simp: script_reads_def Let_def split: option.splits)
    have "qs_log st' = h"
      using assms connected Inr run
      by (auto simp: script_reads_def Let_def record_script_run_def case_prod_beta split: sum.splits)
    then show ?thesis using read_statements_spec(1) [OF run] by blast
  qed
qed

lemma script_attempt_recorded:
  assumes "audit_record E fmt (script_attempt_args rec payload pin kinds) eid ts log = (Inr entry, log')"
  shows "\<exists>row \<in> set log'. al_sql row = dp_sql payload \<and> al_action row = ''script:execute:attempt'' \<and>
    al_approved_by row = Some (actor_id (o_actor rec))"
  using assms
  by (auto simp: audit_record_def Let_def script_attempt_args_def audit_row_of_def args_fields_def split: if_splits)

lemma script_write_cases:
  assumes "script_write Q rt payload pin settings statements kinds claimed i st = Some (r, st')"
  obtains (unsent) "qs_log st' = qs_log st" "isl r"
  | (sent) answer h log where
      "can_write (cp_workspace_access (pin_profile pin))" "ss_allow_writes settings"
      "\<exists>row \<in> set log. al_sql row = dp_sql payload \<and> al_action row = ''script:execute:attempt'' \<and>
         al_approved_by row = Some (actor_id (o_actor (co_record claimed)))"
      "guard_session dec_nat True (ri_polls i)
         (execute_script_transaction (qe_driver Q) statements (co_grant claimed) (o_id (co_record claimed)))
         (qs_log st) = Some (answer, h)"
      "(r, st') = settle_script Q rt payload pin statements kinds (o_id (co_record claimed)) i answer
         (st\<lparr>qs_audit := log, qs_log := h\<rparr>)"
proof (cases "can_write (cp_workspace_access (pin_profile pin)) \<and> ss_allow_writes settings")
  case False
  then show thesis
    using assms unfolding script_write_def Let_def
    by (intro unsent) (auto simp: record_script_run_def simp del: can_write.simps split: if_splits)
next
  case allowed: True
  obtain res log where attempt: "audit_record (qe_env Q) (qe_audit_time Q)
      (script_attempt_args (co_record claimed) payload pin kinds) (ri_ids i 2) (ri_clock i 2) (qs_audit st) = (res, log)"
    by (metis surj_pair)
  show thesis
  proof (cases res)
    case (Inl e)
    then show thesis using assms allowed attempt
      by (intro unsent) (auto simp: script_write_def Let_def simp del: can_write.simps)
  next
    case recorded: (Inr entry)
    show thesis
    proof (cases "qe_connect Q pin Access_Write")
      case (Inl e)
      then show thesis using assms allowed attempt recorded
        by (intro unsent) (auto simp: script_write_def Let_def record_script_run_def simp del: can_write.simps)
    next
      case connected: (Inr u)
      show thesis
      proof (cases "qe_sql Q pin")
        case (Inl e)
        then show thesis using assms allowed attempt recorded connected
          by (intro unsent) (auto simp: script_write_def Let_def record_script_run_def simp del: can_write.simps)
      next
        case (Inr live)
        obtain answer h where run: "guard_session dec_nat True (ri_polls i)
            (execute_script_transaction (qe_driver Q) statements (co_grant claimed) (o_id (co_record claimed)))
            (qs_log st) = Some (answer, h)"
          using assms allowed attempt recorded connected Inr
          by (auto simp: script_write_def Let_def simp del: can_write.simps split: option.splits)
        have "(r, st') = settle_script Q rt payload pin statements kinds (o_id (co_record claimed)) i answer
            (st\<lparr>qs_audit := log, qs_log := h\<rparr>)"
          using assms allowed attempt recorded connected Inr run
          by (simp add: script_write_def Let_def del: can_write.simps)
        then show thesis
          using allowed script_attempt_recorded [OF attempt [unfolded recorded]] run
          by (intro sent [of log answer h]) simp_all
      qed
    qed
  qed
qed

lemma run_script_cases:
  assumes "run_script Q rt operation_id si st = Some (r, st')"
  obtains (unsent) "qs_log st' = qs_log st" "isl r"
  | (ran) planned payload pin settings statements kinds claimed db1 where
      "script_run_checks Q operation_id (qs_ledger st) = Inr (planned, payload, pin, settings, statements, kinds)"
      "rt_claim (qe_env Q) rt operation_id (ri_clock (si_run si) 0) (ri_ids (si_run si) 0) (qs_ledger st) = (Inr claimed, db1)"
      "(if script_has_write kinds
        then script_write Q rt payload pin settings statements kinds claimed (si_run si) (st\<lparr>qs_ledger := db1\<rparr>)
        else script_reads Q rt payload pin settings statements claimed si (st\<lparr>qs_ledger := db1\<rparr>)) = Some (r, st')"
proof (cases "script_run_checks Q operation_id (qs_ledger st)")
  case (Inl e)
  then show thesis using assms by (intro unsent) (auto simp: run_script_def)
next
  case (Inr x)
  obtain planned payload pin settings statements kinds where x: "x = (planned, payload, pin, settings, statements, kinds)"
    by (metis surj_pair)
  obtain res db1 where claim: "rt_claim (qe_env Q) rt operation_id (ri_clock (si_run si) 0) (ri_ids (si_run si) 0)
      (qs_ledger st) = (res, db1)" by (metis surj_pair)
  show thesis
  proof (cases res)
    case (Inl e)
    then show thesis using assms Inr x claim by (intro unsent) (auto simp: run_script_def)
  next
    case (Inr claimed)
    then show thesis
      using assms \<open>script_run_checks Q operation_id (qs_ledger st) = Inr x\<close> x claim
      by (intro ran) (auto simp: run_script_def split: if_splits)
  qed
qed

text \<open>
  C5. A script run sends only the approved script: nothing, or what belongs to the statements that
  the stored text splits into, for an operation of this scope whose policy revision is the one
  computed now. A reading script only fetches its statements from the read pool. A mutating one
  was approved by an identified human for exactly the digest of its payload and its attempt is in
  the audit log; what it sends is a prefix of the one transaction that executes the statements
  in order and commits, or of one that stops at a statement and rolls back.
\<close>

theorem script_runs_the_approved_text:
  assumes "env_ok (qe_env Q)" "reachable (qe_env Q) (qs_ledger st)" "rfc3339_range (ri_clock (si_run si) 0)"
    and "run_script Q rt operation_id si st = Some (r, st')"
  shows "\<exists>new. qs_log st' = qs_log st @ new \<and> (new = [] \<or>
    (\<exists>planned payload pin settings statements.
       get_operation (qe_env Q) operation_id (qs_ledger st) = Inr planned \<and>
       read_desktop_payload (o_payload planned) = Some payload \<and>
       ensure_operation_scope planned pin = Inr () \<and>
       qe_safety Q (pin_connection_id pin) = Inr settings \<and>
       po_revision (capture_policy (qe_env Q) pin settings) = o_policy_revision planned \<and>
       statements = split_statements (dp_sql payload) (cp_engine (pin_profile pin)) \<and>
       (o_kind planned = ReadQuery \<and> set new \<subseteq> reads_of statements \<or>
        o_kind planned = SqlScript \<and> can_write (cp_workspace_access (pin_profile pin)) \<and>
        ss_allow_writes settings \<and>
        (prefix new ([(Write_pool, Begin_tx)] @ tx_commands statements @ [(Write_pool, Commit_tx)]) \<or>
         (\<exists>k < length statements. prefix new
            ([(Write_pool, Begin_tx)] @ tx_commands (take (Suc k) statements) @ [(Write_pool, Rollback_tx)]))) \<and>
        (\<exists>a \<in> set (db_approvals (qs_ledger st)).
           ar_operation_id a = uuid_to_string (qe_env Q) operation_id \<and>
           ar_payload_hash a = o_payload_hash planned \<and> ar_decision a = ''approved'' \<and>
           ar_approver_kind a \<in> {''local_user'', ''workspace_user''} \<and> \<not> blank (ar_approver_id a)) \<and>
        (\<exists>row \<in> set (qs_audit st'). al_sql row = dp_sql payload \<and>
           al_action row = ''script:execute:attempt'' \<and>
           al_approved_by row = Some (actor_id (o_actor planned))))))"
  using assms(4)
proof (cases rule: run_script_cases)
  case unsent
  then show ?thesis by (intro exI [of _ "[]"]) simp
next
  case (ran planned payload pin settings statements kinds claimed db1)
  note checks = script_run_checks_Inr [OF ran(1)]
  show ?thesis
  proof (cases "script_has_write kinds")
    case False
    obtain new where new: "qs_log st' = qs_log st @ new" "set new \<subseteq> reads_of statements"
      using script_reads_sends [of Q rt payload pin settings statements claimed si "st\<lparr>qs_ledger := db1\<rparr>" r st']
        ran(3) False by auto
    show ?thesis
      by (rule exI [of _ new], rule conjI, rule new(1), rule disjI2, rule exI [of _ planned], rule exI [of _ payload],
          rule exI [of _ pin], rule exI [of _ settings], rule exI [of _ statements])
        (use new(2) checks False in simp)
  next
    case True
    then have kind: "o_kind planned = SqlScript" using checks(9) by simp
    have "script_write Q rt payload pin settings statements kinds claimed (si_run si) (st\<lparr>qs_ledger := db1\<rparr>)
        = Some (r, st')" using ran(3) True by simp
    then show ?thesis
    proof (cases rule: script_write_cases)
      case unsent
      then show ?thesis by (intro exI [of _ "[]"]) simp
    next
      case (sent answer h log)
      define stx where "stx = st\<lparr>qs_ledger := db1, qs_audit := log, qs_log := h\<rparr>"
      have "st' = snd (settle_script Q rt payload pin statements kinds (o_id (co_record claimed)) (si_run si) answer stx)"
        using sent(5) by (metis snd_conv stx_def query_state.update_convs(1) query_state.simps)
      then have frame: "qs_log st' = h" "prefix log (qs_audit st')"
        using settle_script_frame(2) [of stx] by (simp_all add: settle_script_frame(1)) (simp_all add: stx_def)
      obtain new where new: "h = qs_log st @ new"
        "prefix new ([(Write_pool, Begin_tx)] @ tx_commands statements @ [(Write_pool, Commit_tx)]) \<or>
         (\<exists>k < length statements. prefix new
            ([(Write_pool, Begin_tx)] @ tx_commands (take (Suc k) statements) @ [(Write_pool, Rollback_tx)]))"
        using transaction_sends [OF sent(4)] by auto
      have "may_mutate_target (o_kind planned)" using kind by simp
      note approved = claimed_mutation_approved [OF assms(1-3) ran(2) checks(1) this]
      have actor: "o_actor (co_record claimed) = o_actor planned"
        by (rule claimed_reads [OF assms(1-3) ran(2)]) (use checks(1) in \<open>simp add: moved_record_def\<close>)
      have audit: "\<exists>row \<in> set (qs_audit st'). al_sql row = dp_sql payload \<and>
          al_action row = ''script:execute:attempt'' \<and> al_approved_by row = Some (actor_id (o_actor planned))"
        using sent(3) set_mono_prefix [OF frame(2)] unfolding actor by blast
      have log: "qs_log st' = qs_log st @ new" using frame(1) new(1) by simp
      show ?thesis
        by (rule exI [of _ new], rule conjI, rule log, rule disjI2, rule exI [of _ planned], rule exI [of _ payload],
            rule exI [of _ pin], rule exI [of _ settings], rule exI [of _ statements])
          (use new(2) checks kind approved audit sent(1,2) in \<open>simp del: can_write.simps\<close>)
    qed
  qed
qed

section \<open>A sent commit of a script is never recorded as failed\<close>

lemma get_operation_id:
  assumes "env_ok E" "reachable E db" "get_operation E u db = Inr cur"
  shows "o_id cur = u"
proof -
  have "fetch_operation_tx E u db = Inr cur"
    using assms(3)
    by (auto simp: get_operation_def find_operation_def fetch_operation_tx_def transpose_opt_def
        rbind_eq_Inr ok_or_def split: option.splits sum.splits)
  then show ?thesis
    by (rule fetch_row [OF reachable_rows [OF assms(2,1)]]) (use assms(1) in simp)
qed

lemma wrap_i64_range: "is_i64 (wrap_i64 i)"
proof -
  have "0 \<le> (i + 2 ^ 63) mod 2 ^ 64" "(i + 2 ^ 63) mod 2 ^ 64 < (2 ^ 64 :: int)" by simp_all
  then show ?thesis by (simp add: is_i64_def wrap_i64_def)
qed

lemma sum_i64_range: "is_i64 (sum_i64 xs)"
proof -
  have "is_i64 total0 \<Longrightarrow> is_i64 (foldl (\<lambda>t x. wrap_i64 (t + x)) total0 xs)" for total0
    by (induction xs arbitrary: total0) (simp_all add: wrap_i64_range)
  then show ?thesis by (simp add: sum_i64_def is_i64_def)
qed

lemma plain_script_receipt: "json_plain (script_receipt_value (sum_i64 xs) statements)"
proof -
  have "length statements mod 2 ^ 64 < 2 ^ 64" by simp
  then show ?thesis
    using sum_i64_range [of xs]
    by (auto simp: script_receipt_value_def json_len_def json_plain_def json_i64_def is_i64_def)
qed

lemma script_interrupted_unknown:
  "interruption dec_nat e \<or> is_unknown_error e \<Longrightarrow> is_unknown_error (script_interrupted e)"
  by (auto simp: interruption_def script_interrupted_def is_cancelled_error_def err_query_cancelled_def
      err_query_timeout_def)

lemma guarded_commit:
  assumes "guard_session dec_nat True ps (execute_script_transaction drv statements grant operation_id) h = Some (answer, h')"
    and "(Write_pool, Commit_tx) \<notin> set h" "(Write_pool, Commit_tx) \<in> set h'"
  shows "(\<exists>outs. answer = Inr (outs, True)) \<or> (\<exists>e. answer = Inl e \<and> (interruption dec_nat e \<or> is_unknown_error e))"
proof -
  obtain a h1 where run: "execute_script_transaction drv statements grant operation_id h = (a, h1)"
    by (metis surj_pair)
  have no_commit: "(Write_pool, Commit_tx) \<notin> set (tx_commands ss)" for ss
    by (auto simp: tx_commands_def)
  have full: "(Write_pool, Commit_tx) \<in> set h1 \<Longrightarrow>
      (\<exists>outs. a = Inr (outs, True)) \<or> (\<exists>e. a = Inl e \<and> is_unknown_error e)"
    using run
  proof (cases rule: transaction_cases)
    case (finished outs)
    then show ?thesis by (auto split: if_splits)
  qed (use assms(2) no_commit in auto)
  note g = guard_session_cases [OF assms(1)]
  show ?thesis
    using g run full assms(3) by auto
qed

lemma settle_script_interrupted:
  assumes "env_ok E" "reachable E (qs_ledger st)" "rfc3339_range (ri_clock i 3)" "qe_env Q = E"
    and "get_operation E op (qs_ledger st) = Inr cur" "o_state cur = Executing"
    and "is_unknown_error (script_interrupted e)"
    and "(r, st') = settle_script Q rt payload pin statements kinds op i (Inl e) st"
  shows "isl r \<and> (\<exists>rec. get_operation E op (qs_ledger st') = Inr rec \<and> o_state rec \<in> {OutcomeUnknown, Executing})"
proof -
  obtain res db2 where finish: "mark_outcome_unknown E rt op (reason_value ''target_outcome_unconfirmed'')
      (ri_clock i 3) (ri_ids i 3) (qs_ledger st) = (res, db2)" by (metis surj_pair)
  have "qs_ledger st' = db2" "isl r"
    using assms(4,7,8) finish by (auto simp: settle_script_def Let_def record_script_run_def)
  then show ?thesis
    using finish_outcome(2) [OF assms(1,2) plain_reason assms(3,5) finish [unfolded mark_outcome_unknown_def]] assms(6)
    by auto
qed

lemma settle_script_committed:
  assumes "env_ok E" "reachable E (qs_ledger st)" "rfc3339_range (ri_clock i 3)" "rfc3339_range (ri_clock i 4)"
    and "qe_env Q = E" "get_operation E op (qs_ledger st) = Inr cur" "o_state cur = Executing"
    and "(r, st') = settle_script Q rt payload pin statements kinds op i (Inr (outs, True)) st"
  shows "\<exists>rec. get_operation E op (qs_ledger st') = Inr rec \<and>
    (case r of Inr outcome \<Rightarrow> o_state rec = Succeeded \<and> so_committed outcome
     | Inl e \<Rightarrow> o_state rec \<in> {OutcomeUnknown, Executing})"
proof -
  let ?receipt = "script_receipt_value (sum_i64 (List.map_filter st_affected outs)) statements"
  obtain res db2 where finish: "rt_succeed E rt op ?receipt (ri_clock i 3) (ri_ids i 3) (qs_ledger st) = (res, db2)"
    by (metis surj_pair)
  note first = finish_outcome [OF assms(1,2) plain_script_receipt assms(3,6) finish [unfolded rt_succeed_def]]
  show ?thesis
  proof (cases res)
    case (Inr rec)
    then have "qs_ledger st' = db2" "\<exists>outcome. r = Inr outcome \<and> so_committed outcome"
      using assms(5,8) finish by (auto simp: settle_script_def Let_def record_script_run_def split: if_splits)
    then show ?thesis using first(2) Inr by auto
  next
    case (Inl e)
    obtain res3 db3 where again: "mark_outcome_unknown E rt op (reason_value ''local_receipt_failed'')
        (ri_clock i 4) (ri_ids i 4) db2 = (res3, db3)" by (metis surj_pair)
    have same: "get_operation E op db2 = Inr cur" using first(2) Inl by auto
    have "qs_ledger st' = db3" "isl r"
      using assms(5,8) finish again Inl by (auto simp: settle_script_def Let_def record_script_run_def split: if_splits)
    then show ?thesis
      using finish_outcome(2) [OF assms(1) first(1) plain_reason assms(4) same again [unfolded mark_outcome_unknown_def]]
        assms(7) by (cases r) auto
  qed
qed

text \<open>
  A script whose commit was sent ends as succeeded exactly when the run reports a committed
  script; otherwise it is recorded with an unknown outcome, or, when the ledger refuses even
  that, left executing for restart recovery. It is never recorded as failed or cancelled.
\<close>

theorem script_commit_is_recorded:
  assumes "env_ok (qe_env Q)" "reachable (qe_env Q) (qs_ledger st)"
    and "rfc3339_range (ri_clock (si_run si) 0)" "rfc3339_range (ri_clock (si_run si) 3)"
    and "rfc3339_range (ri_clock (si_run si) 4)"
    and "run_script Q rt operation_id si st = Some (r, st')"
    and "(Write_pool, Commit_tx) \<notin> set (qs_log st)" "(Write_pool, Commit_tx) \<in> set (qs_log st')"
  shows "\<exists>rec. get_operation (qe_env Q) operation_id (qs_ledger st') = Inr rec \<and>
    (case r of Inr outcome \<Rightarrow> o_state rec = Succeeded \<and> so_committed outcome
     | Inl e \<Rightarrow> o_state rec \<in> {OutcomeUnknown, Executing})"
  using assms(6)
proof (cases rule: run_script_cases)
  case unsent
  then show ?thesis using assms(7,8) by simp
next
  case (ran planned payload pin settings statements kinds claimed db1)
  let ?E = "qe_env Q"
  obtain cur where cur: "get_operation ?E operation_id db1 = Inr cur" "o_state cur = Executing" "reachable ?E db1"
    "co_record claimed = cur"
    by (rule claimed_reads [OF assms(1-3) ran(2)]) (metis moved_record_simps(1) that)
  have id: "o_id (co_record claimed) = operation_id"
    using get_operation_id [OF assms(1) cur(3,1)] cur(4) by simp
  show ?thesis
  proof (cases "script_has_write kinds")
    case False
    obtain new where "qs_log st' = qs_log st @ new" "set new \<subseteq> reads_of statements"
      using script_reads_sends [of Q rt payload pin settings statements claimed si "st\<lparr>qs_ledger := db1\<rparr>" r st']
        ran(3) False by auto
    then show ?thesis using assms(7,8) by (auto simp: reads_of_def)
  next
    case True
    then have "script_write Q rt payload pin settings statements kinds claimed (si_run si) (st\<lparr>qs_ledger := db1\<rparr>)
        = Some (r, st')" using ran(3) by simp
    then show ?thesis
    proof (cases rule: script_write_cases)
      case unsent
      then show ?thesis using assms(7,8) by simp
    next
      case (sent answer h log)
      define stx where "stx = st\<lparr>qs_ledger := db1, qs_audit := log, qs_log := h\<rparr>"
      have ledger: "qs_ledger stx = db1" "qs_log stx = h" by (simp_all add: stx_def)
      have end_state: "(r, st') = settle_script Q rt payload pin statements kinds operation_id (si_run si) answer stx"
        using sent(5) by (simp add: stx_def id)
      then have "qs_log st' = h" using settle_script_frame(1) ledger(2) by (metis snd_conv)
      then have committed: "(\<exists>outs. answer = Inr (outs, True)) \<or>
          (\<exists>e. answer = Inl e \<and> (interruption dec_nat e \<or> is_unknown_error e))"
        using guarded_commit [OF sent(4)] assms(7,8) by simp
      note reach = cur(3) [folded ledger(1)] and op = cur(1) [folded ledger(1)]
      from committed consider (acked) outs where "answer = Inr (outs, True)"
        | (unknown) e where "answer = Inl e" "interruption dec_nat e \<or> is_unknown_error e" by blast
      then show ?thesis
      proof cases
        case acked
        then show ?thesis
          using settle_script_committed [OF assms(1) reach assms(4,5) refl op cur(2)] end_state by simp
      next
        case unknown
        then have "isl r \<and> (\<exists>rec. get_operation ?E operation_id (qs_ledger st') = Inr rec \<and>
            o_state rec \<in> {OutcomeUnknown, Executing})"
          using settle_script_interrupted [OF assms(1) reach assms(4) refl op cur(2) script_interrupted_unknown]
            end_state by simp
        then show ?thesis by (cases r) auto
      qed
    qed
  qed
qed

section \<open>A script on the reference environment\<close>

text \<open>The script of one update, approved at time 2 and claimed at time 3.\<close>

definition demo_script_state :: query_state where
  "demo_script_state = \<lparr>qs_ledger = demo_run_approved SqlScript, qs_audit = [], qs_history = [],
     qs_schemas = [], qs_schemas_v2 = [], qs_log = []\<rparr>"

definition demo_script_inputs :: script_inputs where
  "demo_script_inputs = \<lparr>si_run = demo_run_inputs, si_polls = (\<lambda>_. demo_polls)\<rparr>"

lemma demo_split: "split_statements ''w'' e = [''w'']"
  by (cases e) code_simp+

lemma demo_script_checks:
  "script_run_checks demo_query_env 1 (demo_run_approved SqlScript) =
     Inr (demo_run_approved_rec SqlScript, \<lparr>dp_sql = ''w'', dp_history_origin = ''manual''\<rparr>, demo_pin,
       demo_settings, [''w''], [Write])"
proof -
  let ?rec = "demo_run_approved_rec SqlScript"
  have ok: "ledger_ok ref_env (demo_run_approved SqlScript)"
    by (rule reachable_ok [OF demo_run_reachable env_ok_ref_env])
  obtain row where row: "row \<in> set (db_operations (demo_run_approved SqlScript))"
    "row_to_operation ref_env row = Inr ?rec"
    using demo_at_run_approved(2) [of SqlScript] by (auto simp: demo_at_def)
  then have "get_operation ref_env 1 (demo_run_approved SqlScript) = Inr ?rec"
    using get_operation_of_row [OF ledger_ok_rows [OF ok] row] rows_ok_id [OF ledger_ok_rows [OF ok] row]
    by simp
  moreover have "ensure_operation_scope ?rec demo_pin = Inr ()"
    by (simp add: ensure_operation_scope_def moved_record_def planned_record_def demo_proposed_def
        proposal_operation_def Let_def)
  moreover have "read_desktop_payload (o_payload ?rec) = Some \<lparr>dp_sql = ''w'', dp_history_origin = ''manual''\<rparr>"
    by (simp add: moved_record_def planned_record_def demo_proposed_def proposal_operation_def Let_def
        canonical_payload)
  moreover have "o_payload_schema_version ?rec = 1" "o_kind ?rec = SqlScript"
    by (simp_all add: moved_record_def planned_record_def demo_proposed_def proposal_operation_def Let_def)
  moreover have "o_policy_revision ?rec = po_revision (capture_policy ref_env demo_pin demo_settings)"
    by (simp add: planned_record_def demo_proposed_def proposal_operation_def Let_def)
  ultimately show ?thesis
    using demo_engine(2)
    by (simp add: script_run_checks_def rt_get_def demo_query_env_def demo_classified demo_split Let_def
        script_has_write_def to_left_def del: can_write.simps)
qed

lemma demo_transaction:
  "eg_operation_id grant = 1 \<Longrightarrow> execute_script_transaction demo_driver [''w''] grant 1 [] =
     (Inr ([statement_ok ''w'' 1], True),
      [(Write_pool, Begin_tx), (Write_pool, Tx_Execute ''w''), (Write_pool, Commit_tx)])"
  by (simp add: execute_script_transaction_def send_def demo_driver_def)

lemma demo_script_run:
  obtains r st' where
    "run_script demo_query_env \<lparr>rt_runtime_id = 9\<rparr> 1 demo_script_inputs demo_script_state = Some (r, st')"
    "qs_log st' = [(Write_pool, Begin_tx), (Write_pool, Tx_Execute ''w''), (Write_pool, Commit_tx)]"
proof -
  let ?Q = demo_query_env and ?rt = "\<lparr>rt_runtime_id = 9\<rparr>" and ?i = demo_run_inputs
  let ?payload = "\<lparr>dp_sql = ''w'', dp_history_origin = ''manual''\<rparr>"
  let ?claimed = "moved_record Executing 3 (demo_run_approved_rec SqlScript)"
  let ?log = "[(Write_pool, Begin_tx), (Write_pool, Tx_Execute ''w''), (Write_pool, Commit_tx)]"
  obtain db1 where claim: "rt_claim ref_env ?rt 1 3 104 (demo_run_approved SqlScript) =
    (Inr \<lparr>co_record = ?claimed,
          co_grant = \<lparr>eg_operation_id = 1, eg_payload_sha256 = o_payload_hash (demo_proposed_rec SqlScript),
            eg_connection_id = o_connection_id ?claimed\<rparr>\<rparr>, db1)"
    by (rule demo_run_claim [of SqlScript])
  obtain entry log where audit: "audit_record ref_env ref_fmt
      (script_attempt_args ?claimed ?payload demo_pin [Write]) 106 5 [] = (Inr entry, log)"
    by (simp add: audit_record_def Let_def)
  have env: "qe_env ?Q = ref_env" "qe_audit_time ?Q = ref_fmt" "qe_driver ?Q = demo_driver"
    "qe_connect ?Q demo_pin a = Inr ()"
    "qe_sql ?Q demo_pin = Inr \<lparr>lc_read_pool = Pool_Postgres, lc_write_pool = Pool_Postgres\<rparr>" for a
    by (simp_all add: demo_query_env_def)
  have inputs: "ri_clock ?i 0 = 3" "ri_ids ?i 0 = 104" "ri_clock ?i 2 = 5" "ri_ids ?i 2 = 106"
    "ri_polls ?i = demo_polls" "si_run demo_script_inputs = ?i"
    by (simp_all add: demo_run_inputs_def demo_script_inputs_def)
  have id: "o_id ?claimed = 1" by (simp add: moved_record_def planned_record_def)
  have writes: "ss_allow_writes demo_settings" by (simp add: demo_settings_def)
  have tx: "guard_session dec_nat True demo_polls (execute_script_transaction demo_driver [''w'']
      \<lparr>eg_operation_id = 1, eg_payload_sha256 = hash, eg_connection_id = cid\<rparr> 1) [] =
      Some (Inr ([statement_ok ''w'' 1], True), ?log)" for hash cid
    by (simp add: demo_transaction demo_polls_def guard_poll_result_def poll_of_def query_timeout_def)
  define stx where "stx = demo_script_state\<lparr>qs_ledger := db1, qs_audit := log, qs_log := ?log\<rparr>"
  define fin where "fin = settle_script ?Q ?rt ?payload demo_pin [''w''] [Write] 1 ?i
      (Inr ([statement_ok ''w'' 1], True)) stx"
  have state: "qs_ledger demo_script_state = demo_run_approved SqlScript" "qs_audit demo_script_state = []"
    "qs_log demo_script_state = []"
    by (simp_all add: demo_script_state_def)
  have wr: "script_write ?Q ?rt ?payload demo_pin demo_settings [''w''] [Write]
      \<lparr>co_record = ?claimed,
          co_grant = \<lparr>eg_operation_id = 1, eg_payload_sha256 = o_payload_hash (demo_proposed_rec SqlScript),
            eg_connection_id = o_connection_id ?claimed\<rparr>\<rparr> ?i (demo_script_state\<lparr>qs_ledger := db1\<rparr>) = Some fin"
    using audit writes demo_engine(2)
    by (simp add: script_write_def Let_def env inputs id tx state fin_def stx_def del: can_write.simps moved_record_simps)
  have "run_script ?Q ?rt 1 demo_script_inputs demo_script_state = Some fin"
    using wr by (simp add: run_script_def state demo_script_checks env inputs claim script_has_write_def
        del: moved_record_simps)
  moreover have "qs_log (snd fin) = ?log"
    by (simp add: fin_def settle_script_frame(1)) (simp add: stx_def)
  ultimately show thesis using that [of "fst fin" "snd fin"] by simp
qed

lemma demo_script_hyps:
  "env_ok (qe_env demo_query_env)" "reachable (qe_env demo_query_env) (qs_ledger demo_script_state)"
  "rfc3339_range (ri_clock (si_run demo_script_inputs) 0)" "rfc3339_range (ri_clock (si_run demo_script_inputs) 3)"
  "rfc3339_range (ri_clock (si_run demo_script_inputs) 4)"
  using demo_run_hyps demo_run_reachable [of SqlScript]
  by (simp_all add: demo_script_state_def demo_script_inputs_def demo_query_env_def)


lemma script_runs_the_approved_text_witness:
  "\<exists>r st'. run_script demo_query_env \<lparr>rt_runtime_id = 9\<rparr> 1 demo_script_inputs demo_script_state = Some (r, st') \<and>
     (Write_pool, Commit_tx) \<in> set (qs_log st') \<and>
     (\<exists>planned. get_operation ref_env 1 (demo_run_approved SqlScript) = Inr planned \<and>
        (\<exists>row \<in> set (qs_audit st'). al_approved_by row = Some (actor_id (o_actor planned))))"
proof -
  obtain r st' where run: "run_script demo_query_env \<lparr>rt_runtime_id = 9\<rparr> 1 demo_script_inputs demo_script_state
      = Some (r, st')"
    and log: "qs_log st' = [(Write_pool, Begin_tx), (Write_pool, Tx_Execute ''w''), (Write_pool, Commit_tx)]"
    by (rule demo_script_run)
  have sent: "\<not> set (qs_log st') \<subseteq> reads_of ss" for ss
    using log by (auto simp: reads_of_def)
  have state: "qs_log demo_script_state = []" "qs_ledger demo_script_state = demo_run_approved SqlScript"
    "qe_env demo_query_env = ref_env"
    by (simp_all add: demo_script_state_def demo_query_env_def)
  obtain new where new: "qs_log st' = qs_log demo_script_state @ new"
    and told: "new = [] \<or> (\<exists>planned statements.
       get_operation (qe_env demo_query_env) 1 (qs_ledger demo_script_state) = Inr planned \<and>
       (set new \<subseteq> reads_of statements \<or>
        (\<exists>row \<in> set (qs_audit st'). al_approved_by row = Some (actor_id (o_actor planned)))))"
    using script_runs_the_approved_text [OF demo_script_hyps(1-3) run] by blast
  have "new = qs_log st'" using new state(1) by simp
  then have "new \<noteq> []" "\<And>ss. \<not> set new \<subseteq> reads_of ss" using sent log by auto
  then have "\<exists>planned. get_operation ref_env 1 (demo_run_approved SqlScript) = Inr planned \<and>
        (\<exists>row \<in> set (qs_audit st'). al_approved_by row = Some (actor_id (o_actor planned)))"
    using told unfolding state(2,3) by blast
  moreover have "(Write_pool, Commit_tx) \<in> set (qs_log st')" using log by simp
  ultimately show ?thesis using run by blast
qed

lemma script_commit_is_recorded_witness:
  "\<exists>r st' rec. run_script demo_query_env \<lparr>rt_runtime_id = 9\<rparr> 1 demo_script_inputs demo_script_state = Some (r, st') \<and>
     get_operation ref_env 1 (qs_ledger st') = Inr rec \<and> o_state rec \<in> {Succeeded, OutcomeUnknown, Executing}"
proof -
  obtain r st' where run: "run_script demo_query_env \<lparr>rt_runtime_id = 9\<rparr> 1 demo_script_inputs demo_script_state
      = Some (r, st')"
    and log: "qs_log st' = [(Write_pool, Begin_tx), (Write_pool, Tx_Execute ''w''), (Write_pool, Commit_tx)]"
    by (rule demo_script_run)
  have "(Write_pool, Commit_tx) \<notin> set (qs_log demo_script_state)" by (simp add: demo_script_state_def)
  moreover have "(Write_pool, Commit_tx) \<in> set (qs_log st')" using log by simp
  moreover have "qe_env demo_query_env = ref_env" by (simp add: demo_query_env_def)
  ultimately show ?thesis
    using script_commit_is_recorded [OF demo_script_hyps run] run by (cases r) auto
qed

end
