(* ===== verification/Mongo_Query.thy ===== *)
theory Mongo_Query
  imports Impact_Preview Database_Model
begin

text \<open>
  The typed document query path, \<^verbatim>\<open>src/src-tauri/src/mongo/query.rs\<close>: its classifier, which
  walks the request tree against an allowlist of aggregate stages, and its run, which only calls
  the driver's \<^verbatim>\<open>find\<close>, \<^verbatim>\<open>aggregate\<close> and \<^verbatim>\<open>count_documents\<close>. BSON and the server are the
  parameter \<open>mongo_driver\<close>.
\<close>

section \<open>Requests\<close>

datatype document_query =
    Find_query (dq_collection: string) "json option" "json option" "json option" "nat option" "nat option"
  | Aggregate_query (dq_collection: string) "json list"
  | Count_query (dq_collection: string) "json option"

definition allowed_stages :: "string list" where
  "allowed_stages =
     [''$addFields'', ''$bucket'', ''$bucketAuto'', ''$count'', ''$densify'', ''$facet'', ''$fill'',
      ''$geoNear'', ''$graphLookup'', ''$group'', ''$limit'', ''$lookup'', ''$match'', ''$project'',
      ''$redact'', ''$replaceRoot'', ''$replaceWith'', ''$sample'', ''$set'', ''$setWindowFields'',
      ''$skip'', ''$sort'', ''$sortByCount'', ''$unionWith'', ''$unset'', ''$unwind'']"

definition banned_operators :: "string list" where
  "banned_operators = [''$where'', ''$function'', ''$accumulator'']"

text \<open>
  The \<^verbatim>\<open>Debug\<close> form of a string: quoted, with the control characters, the quote and the
  backslash escaped. Bytes outside ASCII are kept, as Rust keeps every printable character.
\<close>

fun escape_debug :: "char \<Rightarrow> string" where
  "escape_debug c =
     (let n = of_char c :: nat in
      if c = CHR 0x22 \<or> c = CHR 0x5C then [CHR 0x5C, c]
      else if n = 0 then [CHR 0x5C, CHR ''0'']
      else if n = 9 then [CHR 0x5C, CHR ''t'']
      else if n = 10 then [CHR 0x5C, CHR ''n'']
      else if n = 13 then [CHR 0x5C, CHR ''r'']
      else if n < 16 then CHR 0x5C # ''u{'' @ [hex_digit (of_nat n)] @ ''}''
      else if n < 32 \<or> n = 127 then CHR 0x5C # ''u{'' @ lower_hex [of_nat n] @ ''}''
      else [c])"

definition debug_str :: "string \<Rightarrow> string" where
  "debug_str s = [CHR 0x22] @ concat (map escape_debug s) @ [CHR 0x22]"

section \<open>Classification\<close>

fun banned_operator :: "json \<Rightarrow> string option" where
  "banned_operator (JObject kvs) =
     first_some (\<lambda>kv.
       if fst kv \<in> set banned_operators
       then Some (''operator '' @ debug_str (fst kv) @ '' (server-side JavaScript) is not allowed'')
       else banned_operator (snd kv)) kvs"
| "banned_operator (JArray items) = first_some banned_operator items"
| "banned_operator v = None"

definition err_stage_shape :: string where
  "err_stage_shape = ''each aggregate stage must be an object with exactly one $stage key''"

definition err_facet_shape :: string where
  "err_facet_shape = ''$facet values must be arrays of stages''"

fun json_key :: "string \<Rightarrow> json \<Rightarrow> json option" where
  "json_key k (JObject kvs) = map_of kvs k"
| "json_key k v = None"

fun json_as_array :: "json \<Rightarrow> json list option" where
  "json_as_array (JArray vs) = Some vs"
| "json_as_array v = None"

fun json_as_object :: "json \<Rightarrow> (string \<times> json) list option" where
  "json_as_object (JObject kvs) = Some kvs"
| "json_as_object v = None"

definition embedded_pipeline :: "json \<Rightarrow> json list option" where
  "embedded_pipeline body = Option.bind (json_key ''pipeline'' body) json_as_array"

lemma size_embedded [termination_simp]:
  assumes "embedded_pipeline body = Some stages" "s \<in> set stages"
  shows "size s < size body"
proof -
  obtain kvs where kvs: "body = JObject kvs" "map_of kvs ''pipeline'' = Some (JArray stages)"
    using assms(1) unfolding embedded_pipeline_def bind_eq_Some_conv
    by (cases body) (auto elim!: json_as_array.elims)
  have "size s < size (JArray stages)"
    using size_list_estimation' [OF assms(2) order.refl, of size] by simp
  moreover have "(''pipeline'', JArray stages) \<in> set kvs" using map_of_SomeD [OF kvs(2)] .
  then have "size (JArray stages) < size (JObject kvs)"
    using size_list_estimation' [of "(''pipeline'', JArray stages)" kvs "size (JArray stages)"
        "size_prod (\<lambda>_. 0) size"]
    by simp
  ultimately show ?thesis using kvs(1) by simp
qed

function stage_violation :: "json \<Rightarrow> string option" where
  "stage_violation (JObject [(name, body)]) =
     (if name \<notin> set allowed_stages
      then Some (''aggregate stage '' @ debug_str name @ '' is not in the read-only allowlist'')
      else (case banned_operator body of
          Some banned \<Rightarrow> Some banned
        | None \<Rightarrow>
            if name = ''$lookup'' \<or> name = ''$unionWith''
            then (case embedded_pipeline body of
                    Some stages \<Rightarrow> first_some stage_violation stages
                  | None \<Rightarrow> None)
            else if name = ''$facet''
            then (case body of
                    JObject facets \<Rightarrow> first_some (\<lambda>facet. case snd facet of
                        JArray stages \<Rightarrow> first_some stage_violation stages
                      | _ \<Rightarrow> Some err_facet_shape) facets
                  | _ \<Rightarrow> None)
            else None))"
| "stage_violation (JObject []) = Some err_stage_shape"
| "stage_violation (JObject (e1 # e2 # es)) = Some err_stage_shape"
| "stage_violation JNull = Some err_stage_shape"
| "stage_violation (JBool b) = Some err_stage_shape"
| "stage_violation (JNumber n) = Some err_stage_shape"
| "stage_violation (JString s) = Some err_stage_shape"
| "stage_violation (JArray vs) = Some err_stage_shape"
  by pat_completeness auto
termination
proof (relation "measure size", goal_cases)
  case (2 name body stages stage)
  then show ?case using size_embedded [of body stages stage] by simp
next
  case (3 name body facets facet stages stage)
  have "size stage \<le> size_list size stages"
    using size_list_estimation' [OF 3(8) order.refl, of size] by simp
  moreover have "size (JArray stages) \<le> size_list (size_prod (\<lambda>_. 0) size) facets"
    using size_list_estimation' [OF 3(6), of "size (JArray stages)" "size_prod (\<lambda>_. 0) size"] 3(7)
    by (cases facet) simp
  ultimately show ?case using 3(5) by simp
qed simp

definition pipeline_violation :: "json list \<Rightarrow> string option" where
  "pipeline_violation pipeline = first_some stage_violation pipeline"

definition document_violation :: "document_query \<Rightarrow> string option" where
  "document_violation query =
     (case query of
        Find_query collection filt projection sorting skip limit \<Rightarrow>
          first_some banned_operator (List.map_filter id [filt, projection, sorting])
      | Aggregate_query collection pipeline \<Rightarrow> pipeline_violation pipeline
      | Count_query collection filt \<Rightarrow> Option.bind filt banned_operator)"

definition classify_document :: "document_query \<Rightarrow> classification" where
  "classify_document query =
     (case document_violation query of
        None \<Rightarrow> \<lparr>cl_kind = Read, cl_risk = Low, cl_statement_count = 1, cl_no_where = False,
                 cl_tables = [dq_collection query], cl_notes = [], cl_rollback_safe = False\<rparr>
      | Some message \<Rightarrow> \<lparr>cl_kind = Write, cl_risk = High, cl_statement_count = 1, cl_no_where = False,
                 cl_tables = [dq_collection query], cl_notes = [message], cl_rollback_safe = False\<rparr>)"

section \<open>Integers a client can read\<close>

definition js_max_safe_int :: nat where
  "js_max_safe_int = 2 ^ 53"

definition int_json :: "int \<Rightarrow> json" where
  "int_json v =
     (if js_max_safe_int < nat \<bar>v\<bar> then JString (dec_int v)
      else JNumber (if 0 \<le> v then PosInt (nat v) else NegInt v))"

definition uint_json :: "nat \<Rightarrow> json" where
  "uint_json v = (if js_max_safe_int < v then JString (dec_nat v) else JNumber (PosInt v))"

text \<open>
  \<^verbatim>\<open>as_i64\<close> is tried first, then \<^verbatim>\<open>as_u64\<close>; both render an unsigned number the same way.
\<close>

fun stringify_number :: "jnumber \<Rightarrow> json" where
  "stringify_number (PosInt n) = (if int n \<le> i64_max then int_json (int n) else uint_json n)"
| "stringify_number (NegInt i) = int_json i"
| "stringify_number (Float w) = JNumber (Float w)"

fun stringify_unsafe_ints :: "json \<Rightarrow> json" where
  "stringify_unsafe_ints (JNumber n) = stringify_number n"
| "stringify_unsafe_ints (JArray items) = JArray (map stringify_unsafe_ints items)"
| "stringify_unsafe_ints (JObject kvs) = JObject (map (\<lambda>kv. (fst kv, stringify_unsafe_ints (snd kv))) kvs)"
| "stringify_unsafe_ints v = v"

section \<open>The run\<close>

text \<open>
  The driver: \<^verbatim>\<open>Bson::try_from\<close> (a document, another value, or an error's text), relaxed
  Extended JSON, and the answers of the three calls. A cursor is the documents it yields and the
  error it may end with; opening one, and counting, may fail. A call carries its collection, its
  arguments and \<^verbatim>\<open>max_time\<close>.
\<close>

datatype 'd mongo_call =
    Mc_find (mc_collection: string) (mc_filter: 'd) (mc_projection: "'d option")
      (mc_sort: "'d option") (mc_skip: "nat option") (mc_limit: int) (mc_max_time: nat)
  | Mc_aggregate (mc_collection: string) (mc_stages: "'d list") (mc_max_time: nat)
  | Mc_count (mc_collection: string) (mc_filter: 'd) (mc_max_time: nat)

type_synonym 'd mongo_cursor = "'d list \<times> app_error option"

record 'd mongo_driver =
  md_bson :: "json \<Rightarrow> string + 'd option"
  md_empty :: 'd
  md_extjson :: "'d \<Rightarrow> json"
  md_cursor :: "'d mongo_call \<Rightarrow> 'd mongo_cursor app_result"
  md_count :: "'d mongo_call \<Rightarrow> nat app_result"

record document_page =
  dp_documents :: "json list"
  dp_doc_count :: nat
  dp_truncated :: bool
  dp_duration_ms :: nat

definition to_document :: "'d mongo_driver \<Rightarrow> json option \<Rightarrow> string \<Rightarrow> 'd app_result" where
  "to_document md v what =
     (case v of
        None \<Rightarrow> Inr (md_empty md)
      | Some j \<Rightarrow> (case md_bson md j of
          Inr (Some doc) \<Rightarrow> Inr doc
        | Inr None \<Rightarrow> Inl (Config (what @ '' must be a JSON object''))
        | Inl e \<Rightarrow> Inl (Config (''invalid '' @ what @ '': '' @ e))))"

definition optional_document ::
  "'d mongo_driver \<Rightarrow> json option \<Rightarrow> string \<Rightarrow> 'd option app_result" where
  "optional_document md v what =
     (case v of None \<Rightarrow> Inr None | Some j \<Rightarrow> map_sum id Some (to_document md (Some j) what))"

text \<open>
  The limit is a 64-bit number, and so is one past the cap; \<^verbatim>\<open>None\<close> is an empty page without a
  round trip.
\<close>

fun fetch_limit :: "nat option \<Rightarrow> nat \<Rightarrow> nat option" where
  "fetch_limit (Some l) max_docs =
     (if l = 0 then None else if l \<le> max_docs then Some l else Some ((max_docs + 1) mod 2 ^ 64))"
| "fetch_limit None max_docs = Some ((max_docs + 1) mod 2 ^ 64)"

definition clamp_i64 :: "nat \<Rightarrow> int" where
  "clamp_i64 n = (if int n \<le> i64_max then int n else i64_max)"

fun drain ::
  "('d \<Rightarrow> json) \<Rightarrow> nat \<Rightarrow> json list \<Rightarrow> 'd list \<Rightarrow> app_error option \<Rightarrow> (json list \<times> bool) app_result" where
  "drain to_json max_docs documents [] None = Inr (documents, False)"
| "drain to_json max_docs documents [] (Some e) = Inl e"
| "drain to_json max_docs documents (doc # docs) e =
     (if max_docs \<le> length documents then Inr (documents, True)
      else drain to_json max_docs (documents @ [stringify_unsafe_ints (to_json doc)]) docs e)"

fun collect_documents :: "'d mongo_driver \<Rightarrow> json list \<Rightarrow> 'd list app_result" where
  "collect_documents md [] = Inr []"
| "collect_documents md (s # ss) =
     (case to_document md (Some s) ''pipeline stage'' of
        Inl e \<Rightarrow> Inl e
      | Inr d \<Rightarrow> map_sum id (Cons d) (collect_documents md ss))"

definition read_cursor ::
  "'d mongo_driver \<Rightarrow> nat \<Rightarrow> 'd mongo_call \<Rightarrow> (json list \<times> bool) app_result" where
  "read_cursor md max_docs call =
     (case md_cursor md call of
        Inl e \<Rightarrow> Inl e
      | Inr (docs, e) \<Rightarrow> drain (md_extjson md) max_docs [] docs e)"

text \<open>The answer, after the calls it sent to the driver.\<close>

fun document_answer ::
  "'d mongo_driver \<Rightarrow> document_query \<Rightarrow> nat \<Rightarrow> nat \<Rightarrow>
   (json list \<times> bool) app_result \<times> 'd mongo_call list" where
  "document_answer md (Find_query collection filt projection sorting skip limit) max_docs max_time =
     (case to_document md filt ''filter'' of
        Inl e \<Rightarrow> (Inl e, [])
      | Inr f \<Rightarrow> (case optional_document md projection ''projection'' of
          Inl e \<Rightarrow> (Inl e, [])
        | Inr p \<Rightarrow> (case optional_document md sorting ''sort'' of
            Inl e \<Rightarrow> (Inl e, [])
          | Inr st \<Rightarrow> (case fetch_limit limit max_docs of
              None \<Rightarrow> (Inr ([], False), [])
            | Some fetch \<Rightarrow>
                (let call = Mc_find collection f p st skip (clamp_i64 fetch) max_time
                 in (read_cursor md max_docs call, [call]))))))"
| "document_answer md (Aggregate_query collection pipeline) max_docs max_time =
     (case collect_documents md pipeline of
        Inl e \<Rightarrow> (Inl e, [])
      | Inr stages \<Rightarrow>
          (let call = Mc_aggregate collection stages max_time
           in (read_cursor md max_docs call, [call])))"
| "document_answer md (Count_query collection filt) max_docs max_time =
     (case to_document md filt ''filter'' of
        Inl e \<Rightarrow> (Inl e, [])
      | Inr f \<Rightarrow>
          (let call = Mc_count collection f max_time
           in (map_sum id (\<lambda>n. ([stringify_unsafe_ints (JObject [(''count'', JNumber (PosInt n))])], False))
                 (md_count md call), [call])))"

text \<open>\<open>ms\<close> is the elapsed time in milliseconds.\<close>

definition run_document ::
  "'d mongo_driver \<Rightarrow> document_query \<Rightarrow> nat \<Rightarrow> nat \<Rightarrow> nat \<Rightarrow>
   document_page app_result \<times> 'd mongo_call list" where
  "run_document md query max_rows max_time ms =
     (let (answer, calls) = document_answer md query (max max_rows 1) max_time
      in (map_sum id (\<lambda>(documents, truncated).
            \<lparr>dp_documents = documents, dp_doc_count = length documents, dp_truncated = truncated,
             dp_duration_ms = ms\<rparr>) answer, calls))"

section \<open>What the classifier lets through\<close>

text \<open>\<open>occurs_key k v\<close>: some object within \<open>v\<close>, at any depth, has the key \<open>k\<close>.\<close>

inductive occurs_key :: "string \<Rightarrow> json \<Rightarrow> bool" for k where
  key_here: "(k, v) \<in> set kvs \<Longrightarrow> occurs_key k (JObject kvs)"
| key_in_field: "(k', v) \<in> set kvs \<Longrightarrow> occurs_key k v \<Longrightarrow> occurs_key k (JObject kvs)"
| key_in_item: "v \<in> set vs \<Longrightarrow> occurs_key k v \<Longrightarrow> occurs_key k (JArray vs)"

inductive_simps occurs_key_simps:
  "occurs_key k JNull" "occurs_key k (JBool b)" "occurs_key k (JNumber n)"
  "occurs_key k (JString s)" "occurs_key k (JArray vs)" "occurs_key k (JObject kvs)"

definition runs_javascript :: "json \<Rightarrow> bool" where
  "runs_javascript v \<longleftrightarrow> (\<exists>k \<in> set banned_operators. occurs_key k v)"

lemma banned_operator_None: "banned_operator v = None \<longleftrightarrow> \<not> runs_javascript v"
  unfolding runs_javascript_def
proof (induction v rule: banned_operator.induct)
  case (1 kvs)
  have "banned_operator (JObject kvs) = None \<longleftrightarrow>
      (\<forall>kv \<in> set kvs. fst kv \<notin> set banned_operators \<and> banned_operator (snd kv) = None)"
    by (auto simp: first_some_None)
  then show ?case using 1 by (simp only: occurs_key_simps) fastforce
next
  case (2 items)
  then show ?case by (auto simp: first_some_None occurs_key_simps)
qed (simp_all add: occurs_key_simps)

text \<open>
  The stages the server would run within a stage: those of the pipeline of a \<^verbatim>\<open>$lookup\<close> or a
  \<^verbatim>\<open>$unionWith\<close> and of each branch of a \<^verbatim>\<open>$facet\<close>.
\<close>

inductive substage :: "json \<Rightarrow> json \<Rightarrow> bool" where
  sub_embedded: "name \<in> {''$lookup'', ''$unionWith''} \<Longrightarrow> embedded_pipeline body = Some stages \<Longrightarrow>
     s \<in> set stages \<Longrightarrow> substage (JObject [(name, body)]) s"
| sub_facet: "(k, JArray stages) \<in> set facets \<Longrightarrow> s \<in> set stages \<Longrightarrow>
     substage (JObject [(''$facet'', JObject facets)]) s"

inductive_cases substageE: "substage (JObject [(name, body)]) s"
inductive_cases facetE: "substage (JObject [(''$facet'', JObject facets)]) s"

definition stage_reads :: "json \<Rightarrow> bool" where
  "stage_reads stage \<longleftrightarrow> (\<exists>name body.
     stage = JObject [(name, body)] \<and> name \<in> set allowed_stages \<and> \<not> runs_javascript body \<and>
     \<not> (name = ''$facet'' \<and> (\<exists>facets. body = JObject facets \<and>
          (\<exists>v \<in> snd ` set facets. \<forall>stages. v \<noteq> JArray stages))))"

definition document_reads :: "document_query \<Rightarrow> bool" where
  "document_reads query =
     (case query of
        Find_query collection filt projection sorting skip limit \<Rightarrow>
          \<not> (\<exists>v \<in> set_option filt \<union> set_option projection \<union> set_option sorting. runs_javascript v)
      | Aggregate_query collection pipeline \<Rightarrow>
          (\<forall>stage \<in> set pipeline. \<forall>s \<in> {s. substage\<^sup>*\<^sup>* stage s}. stage_reads s)
      | Count_query collection filt \<Rightarrow> \<not> (\<exists>v \<in> set_option filt. runs_javascript v))"

lemma substage_size:
  assumes "substage s t"
  shows "size t < size s"
  using assms
proof cases
  case (sub_embedded name body stages)
  then show ?thesis using size_embedded [of body stages t] by simp
next
  case (sub_facet k stages facets)
  have "size t \<le> size_list size stages"
    using size_list_estimation' [OF sub_facet(3) order.refl, of size] by simp
  moreover have "size (JArray stages) \<le> size_list (size_prod (\<lambda>_. 0) size) facets"
    using size_list_estimation' [OF sub_facet(2), of "size (JArray stages)" "size_prod (\<lambda>_. 0) size"]
    by simp
  ultimately show ?thesis using sub_facet(1) by simp
qed

lemma facets_None:
  "first_some (\<lambda>facet. case snd facet of
       JArray stages \<Rightarrow> first_some stage_violation stages
     | _ \<Rightarrow> Some err_facet_shape) facets = None \<longleftrightarrow>
   \<not> (\<exists>v \<in> snd ` set facets. \<forall>stages. v \<noteq> JArray stages) \<and>
   (\<forall>k stages t. (k, JArray stages) \<in> set facets \<longrightarrow> t \<in> set stages \<longrightarrow> stage_violation t = None)"
proof -
  have branch: "(case v of JArray stages \<Rightarrow> first_some stage_violation stages | _ \<Rightarrow> Some err_facet_shape) = None
      \<longleftrightarrow> (\<exists>stages. v = JArray stages \<and> (\<forall>t \<in> set stages. stage_violation t = None))" for v
    by (cases v) (simp_all add: first_some_None)
  show ?thesis unfolding first_some_None branch by fastforce
qed

lemma stage_violation_None:
  "stage_violation s = None \<longleftrightarrow> stage_reads s \<and> (\<forall>t. substage s t \<longrightarrow> stage_violation t = None)"
proof (cases "\<exists>name body. s = JObject [(name, body)]")
  case True
  then obtain name body where s: "s = JObject [(name, body)]" by blast
  consider "name \<in> {''$lookup'', ''$unionWith''}" | "name = ''$facet''"
    | "name \<notin> {''$lookup'', ''$unionWith'', ''$facet''}" by blast
  then show ?thesis
  proof cases
    case 1
    have "substage s t \<longleftrightarrow> (\<exists>stages. embedded_pipeline body = Some stages \<and> t \<in> set stages)" for t
      using 1 unfolding s by (auto elim: substageE intro: sub_embedded)
    then show ?thesis using 1
      by (auto simp: s stage_reads_def banned_operator_None [symmetric] first_some_None split: option.splits)
  next
    case 2
    show ?thesis
    proof (cases body)
      case (JObject facets)
      have "substage s t \<longleftrightarrow> (\<exists>k stages. (k, JArray stages) \<in> set facets \<and> t \<in> set stages)" for t
        unfolding s JObject 2 by (auto elim!: facetE intro: sub_facet)
      then show ?thesis using 2 JObject
        by (simp add: s stage_reads_def banned_operator_None [symmetric] facets_None
            del: banned_operator.simps split: option.splits) blast
    qed (use 2 in \<open>auto simp: s stage_reads_def banned_operator_None [symmetric] elim: substageE split: option.splits\<close>)
  next
    case 3
    have "\<not> substage s t" for t using 3 unfolding s by (auto elim: substageE)
    then show ?thesis using 3
      by (auto simp: s stage_reads_def banned_operator_None [symmetric] split: option.splits)
  qed
next
  case False
  then have "stage_violation s = Some err_stage_shape" by (cases s rule: stage_violation.cases) auto
  then show ?thesis using False by (simp add: stage_reads_def)
qed

lemma stage_violation_reads:
  "stage_violation stage = None \<longleftrightarrow> (\<forall>s \<in> {s. substage\<^sup>*\<^sup>* stage s}. stage_reads s)"
proof
  assume None: "stage_violation stage = None"
  have "stage_violation s = None" if "substage\<^sup>*\<^sup>* stage s" for s
    using that by induction (use None stage_violation_None in blast)+
  then show "\<forall>s \<in> {s. substage\<^sup>*\<^sup>* stage s}. stage_reads s" using stage_violation_None by blast
next
  assume "\<forall>s \<in> {s. substage\<^sup>*\<^sup>* stage s}. stage_reads s"
  then show "stage_violation stage = None"
  proof (induction "size stage" arbitrary: stage rule: less_induct)
    case less
    have "stage_violation t = None" if t: "substage stage t" for t
      using less.hyps [OF substage_size [OF t]] less.prems
      by (blast intro: converse_rtranclp_into_rtranclp [of substage, OF t])
    then show ?case using less.prems stage_violation_None by blast
  qed
qed


section \<open>Every page is bounded and exact\<close>

text \<open>No integer outside the range that a double holds exactly.\<close>

fun js_safe :: "json \<Rightarrow> bool" where
  "js_safe (JNumber (PosInt n)) = (n \<le> 2 ^ 53)"
| "js_safe (JNumber (NegInt i)) = (- (2 ^ 53) \<le> i)"
| "js_safe (JArray items) = list_all js_safe items"
| "js_safe (JObject kvs) = list_all (\<lambda>kv. js_safe (snd kv)) kvs"
| "js_safe v = True"

fun u64_json :: "json \<Rightarrow> bool" where
  "u64_json (JNumber (NegInt i)) = (i < 0)"
| "u64_json (JArray items) = list_all u64_json items"
| "u64_json (JObject kvs) = list_all (\<lambda>kv. u64_json (snd kv)) kvs"
| "u64_json v = True"

lemma stringify_js_safe: "js_safe (stringify_unsafe_ints v)"
proof (induction v rule: stringify_unsafe_ints.induct)
  case (1 n)
  show ?case by (cases n) (auto simp: int_json_def uint_json_def js_max_safe_int_def)
qed (auto simp: list_all_iff)

lemma stringify_safe_id:
  "js_safe v \<Longrightarrow> u64_json v \<Longrightarrow> stringify_unsafe_ints v = v"
proof (induction v rule: stringify_unsafe_ints.induct)
  case (1 n)
  then show ?case by (cases n) (auto simp: int_json_def uint_json_def js_max_safe_int_def)
qed (auto simp: list_all_iff intro!: map_idI)

definition page_json :: "'d mongo_driver \<Rightarrow> 'd \<Rightarrow> json" where
  "page_json md doc = stringify_unsafe_ints (md_extjson md doc)"

lemma drain_complete:
  "drain (md_extjson md) n acc docs None =
     Inr (acc @ map (page_json md) (take (n - length acc) docs), length acc + length docs > n \<and> docs \<noteq> [])"
proof (induction docs arbitrary: acc)
  case (Cons doc docs)
  show ?case
  proof (cases "n \<le> length acc")
    case False
    then have "n - length acc = Suc (n - Suc (length acc))" by simp
    then show ?thesis using False Cons.IH [of "acc @ [stringify_unsafe_ints (md_extjson md doc)]"]
      by (cases docs) (auto simp: page_json_def)
  qed simp
qed simp

lemma drain_bounded:
  "drain f n acc docs e = Inr (out, truncated) \<Longrightarrow> length acc \<le> n \<Longrightarrow>
   list_all js_safe acc \<Longrightarrow> length out \<le> n \<and> list_all js_safe out"
proof (induction docs arbitrary: acc)
  case Nil
  then show ?case by (cases e) auto
next
  case (Cons doc docs)
  then show ?case by (auto simp: stringify_js_safe split: if_splits)
qed

lemma fetch_limit_positive:
  "fetch_limit l n = Some fetch \<Longrightarrow> n < 2 ^ 64 - 1 \<Longrightarrow> 0 < clamp_i64 fetch"
  by (cases l) (auto simp: clamp_i64_def i64_max_def split: if_splits)

lemma answer_calls:
  assumes "document_answer md query n max_time = (answer, calls)" "n < 2 ^ 64 - 1"
  shows "length calls \<le> 1 \<and>
    (\<forall>call \<in> set calls. mc_collection call = dq_collection query \<and>
       (case call of Mc_find _ _ _ _ _ limit _ \<Rightarrow> 0 < limit | _ \<Rightarrow> True))"
  using assms fetch_limit_positive
  by (cases query) (auto simp: Let_def split: sum.splits option.splits)

lemma read_cursor_bounded:
  "read_cursor md n call = Inr (out, truncated) \<Longrightarrow> length out \<le> n \<and> list_all js_safe out"
  by (auto simp: read_cursor_def split: sum.splits dest: drain_bounded)

lemma answer_bounded:
  assumes "document_answer md query n max_time = (Inr (out, truncated), calls)" "1 \<le> n"
  shows "length out \<le> n \<and> list_all js_safe out"
proof (cases query)
  case (Count_query collection filt)
  then obtain f where "to_document md filt ''filter'' = Inr f"
    using assms(1) by (cases "to_document md filt ''filter''") auto
  then show ?thesis using assms stringify_js_safe Count_query
    by (cases "md_count md (Mc_count collection f max_time)")
      (auto simp: Let_def simp del: stringify_unsafe_ints.simps)
qed (use assms in \<open>auto simp: Let_def split: sum.splits option.splits dest: read_cursor_bounded\<close>)

text \<open>A driver over numbers, on a collection that holds three of them.\<close>

definition demo_collection :: "nat list" where
  "demo_collection = [7, 8, 9]"

definition demo_mongo :: "nat mongo_driver" where
  "demo_mongo = \<lparr>md_bson = \<lambda>v. Inr (Some 0), md_empty = 0, md_extjson = \<lambda>n. JNumber (PosInt n),
     md_cursor = \<lambda>call. Inr (case call of
         Mc_find _ _ _ _ _ limit _ \<Rightarrow> (take (nat limit) demo_collection, None)
       | _ \<Rightarrow> (demo_collection, None)),
     md_count = \<lambda>call. Inr 3\<rparr>"

definition demo_find :: "nat option \<Rightarrow> document_query" where
  "demo_find limit = Find_query ''users'' (Some (JObject [])) None None None limit"

text \<open>
  C10. A document run sends at most one call to the driver, on the query's collection. The
  call is never a find with limit zero, which the server would read as no limit. A page holds at
  most the cap of documents (one for a cap of zero), counts them, and carries no integer that a
  double cannot hold.
\<close>

theorem document_page_bounded:
  assumes "max_rows < 2 ^ 64 - 1" "run_document md query max_rows max_time ms = (answer, calls)"
  shows "length calls \<le> 1 \<and>
    (\<forall>call \<in> set calls. mc_collection call = dq_collection query \<and>
       (case call of Mc_find _ _ _ _ _ limit _ \<Rightarrow> 0 < limit | _ \<Rightarrow> True)) \<and>
    (case answer of
       Inr page \<Rightarrow> length (dp_documents page) \<le> max max_rows 1 \<and>
         dp_doc_count page = length (dp_documents page) \<and> list_all js_safe (dp_documents page)
     | Inl e \<Rightarrow> True)"
proof -
  obtain inner where inner: "document_answer md query (max max_rows 1) max_time = (inner, calls)"
    using assms(2) by (auto simp: run_document_def split: prod.splits)
  then have answer: "answer = map_sum id (\<lambda>(documents, truncated).
      \<lparr>dp_documents = documents, dp_doc_count = length documents, dp_truncated = truncated,
       dp_duration_ms = ms\<rparr>) inner"
    using assms(2) by (simp add: run_document_def)
  have "case answer of
       Inr page \<Rightarrow> length (dp_documents page) \<le> max max_rows 1 \<and>
         dp_doc_count page = length (dp_documents page) \<and> list_all js_safe (dp_documents page)
     | Inl e \<Rightarrow> True"
  proof (cases inner)
    case (Inr out)
    then show ?thesis
      using answer_bounded [of md query "max max_rows 1" max_time "fst out" "snd out" calls] inner answer
      by (simp add: case_prod_beta)
  qed (simp add: answer)
  moreover have "max max_rows 1 < 2 ^ 64 - 1" using assms(1) by simp
  ultimately show ?thesis using answer_calls [OF inner] by blast
qed

lemma document_page_bounded_witness:
  "length (snd (run_document demo_mongo (Aggregate_query ''users'' []) 2 15000 0)) \<le> 1 \<and>
   fst (run_document demo_mongo (Aggregate_query ''users'' []) 2 15000 0) =
     Inr \<lparr>dp_documents = [JNumber (PosInt 7), JNumber (PosInt 8)], dp_doc_count = 2,
          dp_truncated = True, dp_duration_ms = 0\<rparr>"
proof -
  have run: "run_document demo_mongo (Aggregate_query ''users'' []) 2 15000 0 =
      (Inr \<lparr>dp_documents = [JNumber (PosInt 7), JNumber (PosInt 8)], dp_doc_count = 2,
          dp_truncated = True, dp_duration_ms = 0\<rparr>, [Mc_aggregate ''users'' [] 15000])"
    by (simp add: run_document_def Let_def read_cursor_def demo_mongo_def demo_collection_def
        int_json_def i64_max_def js_max_safe_int_def)
  then show ?thesis using document_page_bounded [OF _ run] by simp
qed

text \<open>
  C9. Against a server whose find returns the first matching documents up to the given limit,
  the page of a find is exactly the first matching documents, as many as the caller's limit
  and the cap allow, and it is flagged as truncated exactly when the cap, and not the caller's
  limit, cut it off.
\<close>

theorem find_page_exact:
  assumes "max_rows < 2 ^ 63 - 1"
    "to_document md filt ''filter'' = Inr f" "optional_document md projection ''projection'' = Inr p"
    "optional_document md sorting ''sort'' = Inr st"
    "\<And>limit. 0 < limit \<Longrightarrow>
       md_cursor md (Mc_find collection f p st skip limit max_time) = Inr (take (nat limit) matching, None)"
  shows "let cap = max max_rows 1; wanted = (case limit of Some l \<Rightarrow> min l cap | None \<Rightarrow> cap) in
    map_sum id (\<lambda>page. (dp_documents page, dp_truncated page))
      (fst (run_document md (Find_query collection filt projection sorting skip limit) max_rows max_time ms)) =
    Inr (map (page_json md) (take wanted matching),
         cap < length matching \<and> \<not> (\<exists>l. limit = Some l \<and> l \<le> cap))"
proof -
  define cap where "cap = max max_rows 1"
  have cap: "1 \<le> cap" "cap < 2 ^ 63 - 1" using assms(1) by (auto simp: cap_def)
  have read: "read_cursor md cap (Mc_find collection f p st skip (clamp_i64 fetch) max_time) =
      Inr (map (page_json md) (take (min cap fetch) matching), cap < length matching \<and> cap < fetch)"
    if "0 < fetch" "fetch \<le> cap + 1" for fetch
  proof -
    have "clamp_i64 fetch = int fetch" using that cap by (simp add: clamp_i64_def i64_max_def)
    then show ?thesis using that cap assms(5) [of "int fetch"]
      by (auto simp: read_cursor_def drain_complete min_def)
  qed
  have small: "(cap + 1) mod 2 ^ 64 = cap + 1" using cap by simp
  define wanted where "wanted = (case limit of Some l \<Rightarrow> min l cap | None \<Rightarrow> cap)"
  have "fst (document_answer md (Find_query collection filt projection sorting skip limit) cap max_time) =
      Inr (map (page_json md) (take wanted matching), cap < length matching \<and> \<not> (\<exists>l. limit = Some l \<and> l \<le> cap))"
  proof (cases limit)
    case None
    then show ?thesis using read [of "cap + 1"] assms(2-4) small by (simp add: Let_def wanted_def)
  next
    case (Some l)
    consider "l = 0" | "0 < l" "l \<le> cap" | "cap < l" by linarith
    then show ?thesis
    proof cases
      case 2
      then show ?thesis using read [of l] assms(2-4) Some by (simp add: Let_def wanted_def min.commute)
    next
      case 3
      then show ?thesis using read [of "cap + 1"] assms(2-4) small Some by (simp add: Let_def wanted_def)
    qed (use assms(2-4) Some in \<open>simp add: wanted_def\<close>)
  qed
  then show ?thesis
    unfolding run_document_def cap_def [symmetric] Let_def wanted_def
    by (simp add: case_prod_beta)
qed

lemma find_page_exact_witness:
  "map_sum id (\<lambda>page. (dp_documents page, dp_truncated page))
     (fst (run_document demo_mongo (demo_find None) 2 15000 0)) =
   Inr ([JNumber (PosInt 7), JNumber (PosInt 8)], True)"
proof -
  have pages: "map (page_json demo_mongo) (take 2 demo_collection) =
      [JNumber (PosInt 7), JNumber (PosInt 8)]"
    by (simp add: page_json_def demo_mongo_def demo_collection_def int_json_def i64_max_def js_max_safe_int_def)
  show ?thesis
    using find_page_exact [of 2 demo_mongo "Some (JObject [])" 0 None None None None "''users''" None 15000
        demo_collection None 0, simplified Let_def option.case max.absorb1 numeral_le_iff] pages
    by (simp add: demo_find_def demo_mongo_def to_document_def optional_document_def demo_collection_def)
qed

end
