(* ===== verification/Store_Model.thy ===== *)
theory Store_Model
  imports Query_Run
begin

text \<open>
  The tables of the local store, \<^verbatim>\<open>src/src-tauri/src/store/mod.rs\<close> with the schema of
  \<^verbatim>\<open>src/src-tauri/src/store/migrations.rs\<close>: workspaces, members, accounts, the three settings
  that name the active scope, connections, per-account bindings, safety settings, saved dashboards and
  the caches and histories keyed by them. Text columns that the code writes only from typed values
  (identifiers, kinds, booleans) hold the values; times are the texts written for them, and the
  scope generation is kept as its text, which the code parses.
\<close>

section \<open>Rows\<close>

datatype workspace_lifecycle = Ws_active | Ws_archived | Ws_deleted

datatype workspace_role = Viewer | Analyst | Editor | Admin | Owner

datatype member_status = Member_active | Member_archived

record workspace =
  ws_id :: uuid
  ws_name :: string
  ws_kind :: workspace_kind
  ws_lifecycle :: workspace_lifecycle
  ws_created_at :: string
  ws_updated_at :: string

record member =
  mb_id :: uuid
  mb_workspace_id :: uuid
  mb_user_id :: "string option"
  mb_display_name :: string
  mb_role :: workspace_role
  mb_status :: member_status
  mb_joined_at :: string

record account =
  ac_user_id :: string
  ac_email :: string
  ac_display_name :: string
  ac_last_workspace_id :: "uuid option"
  ac_created_at :: string
  ac_updated_at :: string
  ac_last_used_at :: string

record auth_user =
  au_id :: string
  au_email :: string
  au_display_name :: string

text \<open>
  A connection row: the profile its columns spell, and the columns beside it. Of a shared
  template the member-local columns of the row are empty.
\<close>

record connection_row =
  cr_profile :: connection_profile
  cr_workspace_id :: uuid
  cr_account_user_id :: "string option"
  cr_remote_id :: "uuid option"
  cr_revision :: int
  cr_sync_status :: string
  cr_deleted_at :: "string option"
  cr_created_at :: string
  cr_updated_at :: string

record binding_row =
  bn_connection_id :: uuid
  bn_account_user_id :: string
  bn_username :: string
  bn_extra_params :: "(string \<times> string) list"
  bn_secret_ref :: "string option"
  bn_workspace_access :: workspace_connection_access
  bn_allow_writes :: bool
  bn_revision :: int
  bn_updated_at :: string

record catalog_row =
  cg_workspace_id :: uuid
  cg_account_scope :: string
  cg_connection_id :: uuid
  cg_connection_revision :: int
  cg_binding_revision :: int
  cg_binding_updated_at :: string
  cg_schema_version :: int
  cg_fingerprint :: string
  cg_captured_at :: string
  cg_catalog_json :: string

record thread_row =
  th_id :: uuid
  th_connection_id :: "uuid option"
  th_workspace_id :: uuid
  th_account_scope :: string

datatype dashboard_kind = Auto_kind | Metric_kind | Line_kind | Bar_kind | Table_kind

record dashboard_visualization =
  dv_version :: nat
  dv_kind :: dashboard_kind
  dv_x_column :: "string option"
  dv_y_columns :: "string list"

record dashboard =
  da_id :: uuid
  da_connection_id :: uuid
  da_title :: string
  da_description :: string
  da_sql :: string
  da_visualization :: dashboard_visualization
  da_created_at :: string
  da_updated_at :: string

record dashboard_draft =
  dd_connection_id :: uuid
  dd_title :: string
  dd_description :: string
  dd_sql :: string
  dd_visualization :: dashboard_visualization

record dashboard_row =
  ds_dashboard :: dashboard
  ds_workspace_id :: uuid
  ds_revision :: int
  ds_sync_status :: string
  ds_deleted_at :: "string option"

record outbox_row =
  ob_workspace_id :: uuid
  ob_resource_type :: string
  ob_resource_id :: uuid
  ob_operation :: string
  ob_revision :: int

text \<open>
  The legacy schema cache is keyed by connection and account scope; a history row is its entry
  with the account scope it was written under.
\<close>

record store_db =
  sx_workspaces :: "workspace list"
  sx_members :: "member list"
  sx_accounts :: "account list"
  sx_active :: "uuid option"
  sx_account :: "string option"
  sx_generation :: "string option"
  sx_connections :: "connection_row list"
  sx_bindings :: "binding_row list"
  sx_safety :: "(uuid \<times> safety_settings) list"
  sx_history :: "(string \<times> history_entry) list"
  sx_schema_cache :: "((uuid \<times> string) \<times> string) list"
  sx_catalogs :: "catalog_row list"
  sx_threads :: "thread_row list"
  sx_dashboards :: "dashboard_row list"
  sx_outbox :: "outbox_row list"

definition cr_id :: "connection_row \<Rightarrow> uuid" where
  "cr_id c = cp_id (cr_profile c)"

section \<open>Text codecs of the columns\<close>

fun workspace_kind_str :: "workspace_kind \<Rightarrow> string" where
  "workspace_kind_str Personal_workspace = ''personal''"
| "workspace_kind_str Team_workspace = ''team''"

definition parse_workspace_kind :: "string \<Rightarrow> workspace_kind app_result" where
  "parse_workspace_kind s =
     (if s = ''personal'' then Inr Personal_workspace
      else if s = ''team'' then Inr Team_workspace
      else Inl (Config (''unknown workspace kind '' @ [CHR 0x27] @ s @ [CHR 0x27])))"

fun workspace_role_str :: "workspace_role \<Rightarrow> string" where
  "workspace_role_str Viewer = ''viewer''"
| "workspace_role_str Analyst = ''analyst''"
| "workspace_role_str Editor = ''editor''"
| "workspace_role_str Admin = ''admin''"
| "workspace_role_str Owner = ''owner''"

definition parse_workspace_role :: "string \<Rightarrow> workspace_role app_result" where
  "parse_workspace_role s =
     (if s = ''viewer'' then Inr Viewer
      else if s = ''analyst'' then Inr Analyst
      else if s = ''editor'' then Inr Editor
      else if s = ''admin'' then Inr Admin
      else if s = ''owner'' then Inr Owner
      else Inl (Config (''unknown workspace role '' @ [CHR 0x27] @ s @ [CHR 0x27])))"

definition parse_workspace_access :: "string \<Rightarrow> workspace_connection_access app_result" where
  "parse_workspace_access s =
     (if s = ''view'' then Inr View_access
      else if s = ''read'' then Inr Read_access
      else if s = ''write'' then Inr Write_access
      else if s = ''manage'' then Inr Manage_access
      else if s = ''local'' then Inr Local_access
      else Inl (Config (''unknown workspace connection access '' @ [CHR 0x27] @ s @ [CHR 0x27])))"

fun credential_mode_column :: "workspace_credential_mode \<Rightarrow> string" where
  "credential_mode_column Local_credential = ''local''"
| "credential_mode_column MemberLocal_credential = ''member_local''"
| "credential_mode_column Managed_credential = ''managed''"

definition parse_credential_mode :: "string \<Rightarrow> workspace_credential_mode app_result" where
  "parse_credential_mode s =
     (if s = ''local'' then Inr Local_credential
      else if s = ''member_local'' then Inr MemberLocal_credential
      else if s = ''managed'' then Inr Managed_credential
      else Inl (Config (''unknown workspace credential mode '' @ [CHR 0x27] @ s @ [CHR 0x27])))"

fun provider_str :: "provider \<Rightarrow> string" where
  "provider_str Auto_provider = ''auto''"
| "provider_str Generic = ''generic''"
| "provider_str Neon = ''neon''"
| "provider_str PlanetScale = ''planetScale''"
| "provider_str GcpCloudSql = ''gcpCloudSql''"

definition parse_provider :: "string \<Rightarrow> provider app_result" where
  "parse_provider s =
     (if s = ''auto'' then Inr Auto_provider
      else if s = ''generic'' then Inr Generic
      else if s = ''neon'' then Inr Neon
      else if s = ''planetScale'' then Inr PlanetScale
      else if s = ''gcpCloudSql'' then Inr GcpCloudSql
      else Inl (Config (''unknown provider '' @ [CHR 0x27] @ s @ [CHR 0x27])))"

definition parse_lifecycle :: "string \<Rightarrow> workspace_lifecycle app_result" where
  "parse_lifecycle s =
     (if s = ''active'' then Inr Ws_active
      else if s = ''archived'' then Inr Ws_archived
      else if s = ''deleted'' then Inr Ws_deleted
      else Inl (Config (''unknown workspace lifecycle state '' @ [CHR 0x27] @ s @ [CHR 0x27])))"

named_theorems column_parsers \<open>the readers of the text columns\<close>

lemmas [column_parsers] =
  parse_workspace_kind_def parse_workspace_role_def parse_workspace_access_def
  parse_credential_mode_def parse_provider_def result_option_def

interpretation workspace_kind_codec: text_codec workspace_kind_str
  "\<lambda>s. result_option (parse_workspace_kind s)"
  by unfold_locales (case_tac x, auto simp: column_parsers split: if_splits)

interpretation workspace_role_codec: text_codec workspace_role_str
  "\<lambda>s. result_option (parse_workspace_role s)"
  by unfold_locales (case_tac x, auto simp: column_parsers split: if_splits)

interpretation workspace_access_codec: text_codec workspace_access_str
  "\<lambda>s. result_option (parse_workspace_access s)"
  by unfold_locales (case_tac x, auto simp: column_parsers split: if_splits)

interpretation credential_mode_codec: text_codec credential_mode_column
  "\<lambda>s. result_option (parse_credential_mode s)"
  by unfold_locales (case_tac x, auto simp: column_parsers split: if_splits)

interpretation provider_codec: text_codec provider_str
  "\<lambda>s. result_option (parse_provider s)"
  by unfold_locales (case_tac x, auto simp: column_parsers split: if_splits)

end
