(* ===== verification/Scope_Store.thy ===== *)
theory Scope_Store
  imports Store_Model
begin

text \<open>
  The active workspace and account of the store, \<^verbatim>\<open>src/src-tauri/src/store/mod.rs\<close>: reading
  them in one snapshot, selecting them, reconciling the memberships of an account with the
  server, removing an account, and the repair that keeps the selection valid. Each operation is
  one transaction: on an error it leaves the tables as they were.
\<close>

section \<open>Queries\<close>

text \<open>The Personal Workspace created by the migration.\<close>

definition personal_workspace_id :: uuid where
  "personal_workspace_id = 1"

definition first_row :: "'a list \<Rightarrow> 'a option" where
  "first_row rows = (case rows of [] \<Rightarrow> None | row # _ \<Rightarrow> Some row)"

definition member_active :: "store_db \<Rightarrow> uuid \<Rightarrow> string \<Rightarrow> bool" where
  "member_active db w u \<longleftrightarrow> list_ex (\<lambda>m. mb_workspace_id m = w \<and> mb_user_id m = Some u \<and>
     mb_status m = Member_active) (sx_members db)"

definition has_active_member :: "store_db \<Rightarrow> uuid \<Rightarrow> bool" where
  "has_active_member db w \<longleftrightarrow>
     list_ex (\<lambda>m. mb_workspace_id m = w \<and> mb_status m = Member_active) (sx_members db)"

definition active_workspace_row :: "store_db \<Rightarrow> uuid \<Rightarrow> workspace option" where
  "active_workspace_row db wid = find (\<lambda>w. ws_id w = wid \<and> ws_lifecycle w = Ws_active) (sx_workspaces db)"

definition scope_visible :: "store_db \<Rightarrow> workspace \<Rightarrow> string option \<Rightarrow> bool" where
  "scope_visible db w acct \<longleftrightarrow> ws_kind w = Personal_workspace \<or>
     (case acct of Some u \<Rightarrow> member_active db (ws_id w) u | None \<Rightarrow> False)"

definition selected_workspace :: "store_db \<Rightarrow> workspace option" where
  "selected_workspace db = Option.bind (sx_active db) (active_workspace_row db)"

definition err_generation :: app_error where
  "err_generation = Config ''active scope generation is invalid''"

definition parse_scope_generation :: "string \<Rightarrow> int app_result" where
  "parse_scope_generation raw =
     (case parse_i64 raw of
        None \<Rightarrow> Inl err_generation
      | Some g \<Rightarrow> if g < 0 then Inl err_generation else Inr g)"

definition err_no_account :: app_error where
  "err_no_account = Config ''a team workspace has no active account''"

definition nonempty_account :: "string option \<Rightarrow> string app_result" where
  "nonempty_account acct =
     (case acct of Some u \<Rightarrow> if u = [] then Inl err_no_account else Inr u | None \<Rightarrow> Inl err_no_account)"

definition account_scope_for :: "workspace_kind \<Rightarrow> string option \<Rightarrow> account_scope app_result" where
  "account_scope_for kind acct =
     (case kind of
        Personal_workspace \<Rightarrow> Inr Personal_scope
      | Team_workspace \<Rightarrow> rbind (nonempty_account acct) (\<lambda>u. Inr (WorkspaceUser_scope u)))"

definition active_scope_from_row ::
  "workspace \<Rightarrow> string option \<Rightarrow> string \<Rightarrow> active_resource_scope app_result" where
  "active_scope_from_row w acct raw =
     rbind (account_scope_for (ws_kind w) acct) (\<lambda>scope.
     rbind (parse_scope_generation raw) (\<lambda>g.
     Inr \<lparr>sc_workspace_id = ws_id w, sc_workspace_kind = ws_kind w, sc_selected_account_id = acct,
          sc_account_scope = scope, sc_generation = g\<rparr>))"

definition store_active_scope :: "store_db \<Rightarrow> active_resource_scope app_result" where
  "store_active_scope db =
     (case (selected_workspace db, sx_generation db) of
        (Some w, Some raw) \<Rightarrow>
          if scope_visible db w (sx_account db) then active_scope_from_row w (sx_account db) raw
          else Inl (Config ''no active workspace scope is configured'')
      | _ \<Rightarrow> Inl (Config ''no active workspace scope is configured''))"

definition active_workspace :: "store_db \<Rightarrow> workspace app_result" where
  "active_workspace db =
     (case selected_workspace db of
        Some w \<Rightarrow>
          if scope_visible db w (sx_account db) then Inr w
          else Inl (Config ''no active workspace is configured'')
      | None \<Rightarrow> Inl (Config ''no active workspace is configured''))"

definition active_workspace_id :: "store_db \<Rightarrow> uuid app_result" where
  "active_workspace_id db = rbind (store_active_scope db) (\<lambda>s. Inr (sc_workspace_id s))"

definition active_local_scope :: "store_db \<Rightarrow> string app_result" where
  "active_local_scope db = rbind (store_active_scope db) (\<lambda>s. Inr (storage_key (sc_account_scope s)))"

text \<open>\<^verbatim>\<open>ORDER BY kind, name\<close>, in the byte order of the texts.\<close>

definition list_workspaces :: "store_db \<Rightarrow> workspace list" where
  "list_workspaces db =
     sort_key (\<lambda>w. workspace_kind_str (ws_kind w)) (sort_key ws_name
       (filter (\<lambda>w. ws_lifecycle w = Ws_active) (sx_workspaces db)))"

record auth_account =
  aa_user :: auth_user
  aa_memberships :: "(uuid \<times> workspace_role) list"

definition workspace_accounts :: "store_db \<Rightarrow> auth_account list" where
  "workspace_accounts db =
     map (\<lambda>a. \<lparr>aa_user = \<lparr>au_id = ac_user_id a, au_email = ac_email a, au_display_name = ac_display_name a\<rparr>,
         aa_memberships = map (\<lambda>m. (mb_workspace_id m, mb_role m)) (sort_key mb_joined_at
           (filter (\<lambda>m. mb_user_id m = Some (ac_user_id a) \<and> mb_status m = Member_active) (sx_members db)))\<rparr>)
       (rev (sort_key ac_last_used_at (rev (sort_key ac_created_at (sx_accounts db)))))"

section \<open>The generation\<close>

text \<open>Every selection that commits raises it.\<close>

definition bump_active_scope_generation :: "store_db \<Rightarrow> store_db app_result" where
  "bump_active_scope_generation db =
     rbind (case sx_generation db of Some raw \<Rightarrow> parse_scope_generation raw | None \<Rightarrow> Inr 0) (\<lambda>g.
     rbind (guard (g = i64_max) (Config ''active scope generation overflowed'')) (\<lambda>_.
     Inr (db\<lparr>sx_generation := Some (dec_int (g + 1))\<rparr>)))"

section \<open>Selecting a scope\<close>

definition account_exists :: "store_db \<Rightarrow> string \<Rightarrow> bool" where
  "account_exists db u \<longleftrightarrow> list_ex (\<lambda>a. ac_user_id a = u) (sx_accounts db)"

definition update_account :: "string \<Rightarrow> (account \<Rightarrow> account) \<Rightarrow> store_db \<Rightarrow> store_db" where
  "update_account u f db = db\<lparr>sx_accounts := map (\<lambda>a. if ac_user_id a = u then f a else a) (sx_accounts db)\<rparr>"

definition activate_checks ::
  "env \<Rightarrow> store_db \<Rightarrow> uuid \<Rightarrow> string option \<Rightarrow> workspace app_result" where
  "activate_checks E db wid acct =
     rbind (ok_or (active_workspace_row db wid) (NotFound (''workspace '' @ uuid_to_string E wid))) (\<lambda>w.
     rbind (case acct of
        Some u \<Rightarrow>
          rbind (guard (\<not> account_exists db u) (NotFound (''workspace account '' @ u))) (\<lambda>_.
          guard (ws_kind w = Team_workspace \<and> \<not> member_active db wid u)
            (NotFound (''workspace '' @ uuid_to_string E wid @ '' for account '' @ u)))
      | None \<Rightarrow> guard (ws_kind w = Team_workspace)
          (Config ''a team workspace must be selected with an authenticated account'')) (\<lambda>_.
     Inr w))"

definition touch_account :: "workspace \<Rightarrow> string \<Rightarrow> account \<Rightarrow> account" where
  "touch_account w now a = a\<lparr>
     ac_last_workspace_id := (if ws_kind w = Team_workspace then Some (ws_id w) else ac_last_workspace_id a),
     ac_last_used_at := now, ac_updated_at := now\<rparr>"

definition activate_workspace ::
  "env \<Rightarrow> uuid \<Rightarrow> string option \<Rightarrow> string \<Rightarrow> store_db \<Rightarrow> (workspace \<times> store_db) app_result" where
  "activate_workspace E wid acct now db =
     rbind (activate_checks E db wid acct) (\<lambda>w.
     let db1 = (case acct of
           Some u \<Rightarrow> update_account u (touch_account w now) (db\<lparr>sx_account := Some u\<rparr>)
         | None \<Rightarrow> db\<lparr>sx_account := None\<rparr>)
     in rbind (bump_active_scope_generation (db1\<lparr>sx_active := Some wid\<rparr>)) (\<lambda>db2.
     Inr (w, db2)))"

text \<open>The last team workspace of the account that it still belongs to, or its first by name.\<close>

definition membership_workspaces :: "store_db \<Rightarrow> string \<Rightarrow> workspace list" where
  "membership_workspaces db u = filter (\<lambda>w. ws_lifecycle w = Ws_active \<and> member_active db (ws_id w) u)
     (sx_workspaces db)"

definition preferred_workspace :: "store_db \<Rightarrow> string \<Rightarrow> uuid option" where
  "preferred_workspace db u =
     (case Option.bind (find (\<lambda>a. ac_user_id a = u) (sx_accounts db)) ac_last_workspace_id of
        Some wid \<Rightarrow>
          if list_ex (\<lambda>w. ws_id w = wid) (membership_workspaces db u) then Some wid
          else map_option ws_id (first_row (sort_key ws_name (membership_workspaces db u)))
      | None \<Rightarrow> map_option ws_id (first_row (sort_key ws_name (membership_workspaces db u))))"

definition preferred_or_personal :: "store_db \<Rightarrow> string \<Rightarrow> uuid" where
  "preferred_or_personal db u =
     (case preferred_workspace db u of Some wid \<Rightarrow> wid | None \<Rightarrow> personal_workspace_id)"

definition activate_workspace_account ::
  "env \<Rightarrow> string \<Rightarrow> string \<Rightarrow> store_db \<Rightarrow> (workspace \<times> store_db) app_result" where
  "activate_workspace_account E u now db = activate_workspace E (preferred_or_personal db u) (Some u) now db"

section \<open>The repair\<close>

text \<open>
  The flag tells that the selection changed. An \<^verbatim>\<open>UPDATE\<close> of a setting that is absent does
  nothing.
\<close>

definition drop_unknown_account :: "store_db \<Rightarrow> store_db" where
  "drop_unknown_account db =
     (case sx_account db of
        Some u \<Rightarrow> if account_exists db u then db else db\<lparr>sx_account := None\<rparr>
      | None \<Rightarrow> db)"

definition selection_valid :: "store_db \<Rightarrow> uuid \<Rightarrow> bool" where
  "selection_valid db wid =
     (case active_workspace_row db wid of Some w \<Rightarrow> scope_visible db w (sx_account db) | None \<Rightarrow> False)"

definition fallback_workspace :: "store_db \<Rightarrow> uuid" where
  "fallback_workspace db =
     (case sx_account db of Some u \<Rightarrow> preferred_or_personal db u | None \<Rightarrow> personal_workspace_id)"

definition select_fallback :: "string \<Rightarrow> store_db \<Rightarrow> store_db" where
  "select_fallback now db =
     (let fallback = fallback_workspace db; db2 = db\<lparr>sx_active := Some fallback\<rparr>
      in case sx_account db of
           Some u \<Rightarrow> update_account u (\<lambda>a. a\<lparr>
               ac_last_workspace_id := (if fallback = personal_workspace_id
                 then ac_last_workspace_id a else Some fallback),
               ac_last_used_at := now, ac_updated_at := now\<rparr>) db2
         | None \<Rightarrow> db2)"

definition repair_active_scope_after_membership_change ::
  "string \<Rightarrow> store_db \<Rightarrow> (store_db \<times> bool) app_result" where
  "repair_active_scope_after_membership_change now db =
     rbind (ok_or (sx_active db) (Config ''no active workspace is configured'')) (\<lambda>current.
     let db1 = drop_unknown_account db; repaired = (sx_account db1 \<noteq> sx_account db)
     in if selection_valid db1 current
        then (if repaired then rbind (bump_active_scope_generation db1) (\<lambda>db2. Inr (db2, True))
              else Inr (db1, False))
        else rbind (bump_active_scope_generation (select_fallback now db1)) (\<lambda>db2. Inr (db2, True)))"

section \<open>Accounts\<close>

definition remember_workspace_account :: "auth_user \<Rightarrow> string \<Rightarrow> store_db \<Rightarrow> store_db" where
  "remember_workspace_account user now db =
     (if account_exists db (au_id user)
      then update_account (au_id user) (\<lambda>a. a\<lparr>ac_email := au_email user,
             ac_display_name := au_display_name user, ac_updated_at := now\<rparr>) db
      else db\<lparr>sx_accounts := sx_accounts db @
             [\<lparr>ac_user_id = au_id user, ac_email = au_email user, ac_display_name = au_display_name user,
               ac_last_workspace_id = None, ac_created_at = now, ac_updated_at = now,
               ac_last_used_at = now\<rparr>]\<rparr>)"

definition archive_orphans :: "string \<Rightarrow> store_db \<Rightarrow> store_db" where
  "archive_orphans now db = db\<lparr>sx_workspaces := map (\<lambda>w.
     if ws_kind w = Team_workspace \<and> \<not> has_active_member db (ws_id w)
     then w\<lparr>ws_lifecycle := Ws_archived, ws_updated_at := now\<rparr> else w) (sx_workspaces db)\<rparr>"

definition most_recent_account :: "store_db \<Rightarrow> account option" where
  "most_recent_account db = first_row (rev (sort_key ac_last_used_at (rev (sx_accounts db))))"

definition set_active :: "uuid \<Rightarrow> store_db \<Rightarrow> store_db" where
  "set_active wid db = db\<lparr>sx_active := map_option (\<lambda>_. wid) (sx_active db)\<rparr>"

definition remove_workspace_account :: "string \<Rightarrow> string \<Rightarrow> store_db \<Rightarrow> store_db app_result" where
  "remove_workspace_account u now db =
     (let db1 = archive_orphans now (db\<lparr>
            sx_members := filter (\<lambda>m. mb_user_id m \<noteq> Some u) (sx_members db),
            sx_accounts := filter (\<lambda>a. ac_user_id a \<noteq> u) (sx_accounts db)\<rparr>)
      in if sx_account db1 = Some u
         then bump_active_scope_generation (case most_recent_account db1 of
             Some a \<Rightarrow> set_active (preferred_or_personal db1 (ac_user_id a))
               (db1\<lparr>sx_account := Some (ac_user_id a)\<rparr>)
           | None \<Rightarrow> set_active personal_workspace_id (db1\<lparr>sx_account := None\<rparr>))
         else Inr db1)"

section \<open>Reconciling the memberships of an account\<close>

definition upsert_workspace :: "uuid \<Rightarrow> string \<Rightarrow> string \<Rightarrow> store_db \<Rightarrow> store_db" where
  "upsert_workspace wid name now db =
     (if list_ex (\<lambda>w. ws_id w = wid) (sx_workspaces db)
      then db\<lparr>sx_workspaces := map (\<lambda>w. if ws_id w = wid \<and> ws_kind w = Team_workspace
             then w\<lparr>ws_name := name, ws_lifecycle := Ws_active, ws_updated_at := now\<rparr> else w) (sx_workspaces db)\<rparr>
      else db\<lparr>sx_workspaces := sx_workspaces db @
             [\<lparr>ws_id = wid, ws_name = name, ws_kind = Team_workspace, ws_lifecycle = Ws_active,
               ws_created_at = now, ws_updated_at = now\<rparr>]\<rparr>)"

definition upsert_member ::
  "uuid \<Rightarrow> uuid \<Rightarrow> auth_user \<Rightarrow> workspace_role \<Rightarrow> string \<Rightarrow> store_db \<Rightarrow> store_db" where
  "upsert_member mid wid user role now db =
     (let same = (\<lambda>m. mb_workspace_id m = wid \<and> mb_user_id m = Some (au_id user))
      in if list_ex same (sx_members db)
         then db\<lparr>sx_members := map (\<lambda>m. if same m then m\<lparr>mb_display_name := au_display_name user,
                mb_role := role, mb_status := Member_active\<rparr> else m) (sx_members db)\<rparr>
         else db\<lparr>sx_members := sx_members db @
                [\<lparr>mb_id = mid, mb_workspace_id = wid, mb_user_id = Some (au_id user),
                  mb_display_name = au_display_name user, mb_role = role, mb_status = Member_active,
                  mb_joined_at = now\<rparr>]\<rparr>)"

text \<open>\<open>ids k\<close> is the identifier made for the membership at position \<open>k\<close>.\<close>

fun upsert_memberships ::
  "(nat \<Rightarrow> uuid) \<Rightarrow> nat \<Rightarrow> auth_user \<Rightarrow> (uuid \<times> string \<times> workspace_role) list \<Rightarrow> string \<Rightarrow>
   store_db \<Rightarrow> store_db" where
  "upsert_memberships ids k user [] now db = db"
| "upsert_memberships ids k user ((wid, name, role) # rest) now db =
     upsert_memberships ids (k + 1) user rest now
       (upsert_member (ids k) wid user role now (upsert_workspace wid name now db))"

definition archive_memberships :: "string \<Rightarrow> store_db \<Rightarrow> store_db" where
  "archive_memberships u db = db\<lparr>sx_members := map (\<lambda>m. if mb_user_id m = Some u
     then m\<lparr>mb_status := Member_archived\<rparr> else m) (sx_members db)\<rparr>"

text \<open>
  What an older version stored without an account moves to the account that proves its
  membership: connections, credentials kept in the shared row, history, caches and threads.
\<close>

definition claim_connections :: "string \<Rightarrow> store_db \<Rightarrow> store_db" where
  "claim_connections u db = db\<lparr>sx_connections := map (\<lambda>c.
     if cr_remote_id c = None \<and> cr_account_user_id c = None \<and> member_active db (cr_workspace_id c) u
     then c\<lparr>cr_account_user_id := Some u\<rparr> else c) (sx_connections db)\<rparr>"

definition holds_credentials :: "connection_row \<Rightarrow> bool" where
  "holds_credentials c \<longleftrightarrow> cp_username (cr_profile c) \<noteq> [] \<or> cp_extra_params (cr_profile c) \<noteq> [] \<or>
     cp_secret_ref (cr_profile c) \<noteq> None"

definition has_binding :: "store_db \<Rightarrow> uuid \<Rightarrow> string \<Rightarrow> bool" where
  "has_binding db cid u \<longleftrightarrow>
     list_ex (\<lambda>b. bn_connection_id b = cid \<and> bn_account_user_id b = u) (sx_bindings db)"

definition claim_credentials :: "string \<Rightarrow> string \<Rightarrow> store_db \<Rightarrow> store_db" where
  "claim_credentials u now db =
     (let shared = (\<lambda>c. cr_remote_id c \<noteq> None \<and> member_active db (cr_workspace_id c) u \<and> holds_credentials c)
      in db\<lparr>sx_bindings := sx_bindings db @ map (\<lambda>c.
             \<lparr>bn_connection_id = cr_id c, bn_account_user_id = u,
              bn_username = cp_username (cr_profile c), bn_extra_params = cp_extra_params (cr_profile c),
              bn_secret_ref = cp_secret_ref (cr_profile c), bn_workspace_access = View_access,
              bn_allow_writes = False, bn_revision = 1, bn_updated_at = now\<rparr>)
             (filter (\<lambda>c. shared c \<and> \<not> has_binding db (cr_id c) u) (sx_connections db)),
           sx_connections := map (\<lambda>c. if shared c
             then c\<lparr>cr_profile := (cr_profile c)\<lparr>cp_username := [], cp_extra_params := [],
                    cp_secret_ref := None\<rparr>\<rparr> else c) (sx_connections db)\<rparr>)"

definition legacy_team_connection :: "store_db \<Rightarrow> string \<Rightarrow> uuid \<Rightarrow> bool" where
  "legacy_team_connection db u cid \<longleftrightarrow> list_ex (\<lambda>c. cr_id c = cid \<and>
     member_active db (cr_workspace_id c) u \<and>
     list_ex (\<lambda>w. ws_id w = cr_workspace_id c \<and> ws_kind w = Team_workspace) (sx_workspaces db))
     (sx_connections db)"

definition err_cache_key :: app_error where
  "err_cache_key = Db (''error returned from database: (code: 1555) UNIQUE constraint failed: '' @
     ''schema_cache.connection_id, schema_cache.account_scope'')"

definition claim_artifacts :: "string \<Rightarrow> store_db \<Rightarrow> store_db app_result" where
  "claim_artifacts u db =
     (let claimed = (\<lambda>scope cid. scope = ''personal'' \<and> legacy_team_connection db u cid);
          cache = map (\<lambda>((cid, scope), v). ((cid, if claimed scope cid then u else scope), v))
            (sx_schema_cache db)
      in rbind (guard (\<not> distinct (map fst cache)) err_cache_key) (\<lambda>_.
         Inr (db\<lparr>
           sx_history := map (\<lambda>(scope, h).
             (if claimed scope (hy_connection_id h) then u else scope, h)) (sx_history db),
           sx_schema_cache := cache,
           sx_threads := map (\<lambda>t. case th_connection_id t of
               Some cid \<Rightarrow> if claimed (th_account_scope t) cid
                 then t\<lparr>th_account_scope := u,
                        th_workspace_id := (case find (\<lambda>c. cr_id c = cid) (sx_connections db) of
                          Some c \<Rightarrow> cr_workspace_id c | None \<Rightarrow> th_workspace_id t)\<rparr>
                 else t
             | None \<Rightarrow> t) (sx_threads db)\<rparr>)))"

definition forget_last_workspace :: "string \<Rightarrow> store_db \<Rightarrow> store_db" where
  "forget_last_workspace u db = update_account u (\<lambda>a. a\<lparr>ac_last_workspace_id :=
     (case ac_last_workspace_id a of
        Some w \<Rightarrow> if member_active db w u then Some w else None
      | None \<Rightarrow> None)\<rparr>) db"

definition sync_tx ::
  "(nat \<Rightarrow> uuid) \<Rightarrow> auth_user \<Rightarrow> (uuid \<times> string \<times> workspace_role) list \<Rightarrow> string \<Rightarrow> store_db \<Rightarrow>
   store_db app_result" where
  "sync_tx ids user workspaces now db =
     (let u = au_id user;
          db1 = upsert_memberships ids 0 user workspaces now (archive_memberships u db);
          db2 = claim_credentials u now (claim_connections u db1)
      in rbind (claim_artifacts u db2) (\<lambda>db3.
         rbind (repair_active_scope_after_membership_change now
           (forget_last_workspace u (archive_orphans now db3))) (\<lambda>(db4, _).
         Inr db4)))"

text \<open>The account is remembered in a transaction of its own.\<close>

definition sync_account_workspaces ::
  "(nat \<Rightarrow> uuid) \<Rightarrow> auth_user \<Rightarrow> (uuid \<times> string \<times> workspace_role) list \<Rightarrow> string \<Rightarrow> store_db \<Rightarrow>
   unit app_result \<times> store_db" where
  "sync_account_workspaces ids user workspaces now db =
     (if list_ex (\<lambda>(wid, _). wid = personal_workspace_id) workspaces
      then (Inl (Config ''remote workspace conflicts with the Personal Workspace''), db)
      else (let db0 = remember_workspace_account user now db
            in case sync_tx ids user workspaces now db0 of
                 Inl e \<Rightarrow> (Inl e, db0)
               | Inr db' \<Rightarrow> (Inr (), db')))"

section \<open>The generation as a number\<close>

lemma digits_value_snoc: "digits_value (s @ [c]) = 10 * digits_value s + (of_char c - 48)"
  by (simp add: digits_value_def)

lemma digit_char_value: "n < 10 \<Longrightarrow> of_char (digit_char n) = (48 + n :: nat)"
  by (auto simp: digit_char_def less_Suc_eq numeral_eq_Suc)

lemma dec_nat_value: "list_all is_digit (dec_nat n) \<and> digits_value (dec_nat n) = n"
proof (induction n rule: dec_nat.induct)
  case (1 n)
  show ?case
  proof (cases "n < 10")
    case True
    then show ?thesis
      by (simp add: dec_nat.simps [of n] is_digit_def digit_char_value digits_value_def)
  next
    case False
    then have "dec_nat n = dec_nat (n div 10) @ [digit_char (n mod 10)]"
      by (simp add: dec_nat.simps [of n])
    then show ?thesis
      using 1 False by (simp add: digits_value_snoc digit_char_value is_digit_def)
  qed
qed

lemma parse_i64_dec_int:
  assumes "0 \<le> i" "i \<le> i64_max"
  shows "parse_i64 (dec_int i) = Some i"
proof -
  let ?s = "dec_nat (nat i)"
  obtain c cs where s: "?s = c # cs" by (cases ?s) auto
  have digits: "list_all is_digit ?s" "digits_value ?s = nat i" using dec_nat_value by blast+
  then have "is_digit c" by (simp add: s)
  then have "c \<noteq> CHR ''-''" "c \<noteq> CHR ''+''" by (auto simp: is_digit_def)
  then have "parse_i64 ?s = in_i64 (int (nat i))" using digits s by (simp add: Let_def)
  then show ?thesis using assms by (simp add: dec_int_def in_i64_def i64_min_def)
qed

lemma parse_scope_generation_dec [simp]:
  "0 \<le> g \<Longrightarrow> g \<le> i64_max \<Longrightarrow> parse_scope_generation (dec_int g) = Inr g"
  by (simp add: parse_scope_generation_def parse_i64_dec_int)

text \<open>The number of a generation that the code wrote.\<close>

definition generation_is :: "store_db \<Rightarrow> int \<Rightarrow> bool" where
  "generation_is db g \<longleftrightarrow> sx_generation db = Some (dec_int g) \<and> 0 \<le> g \<and> g \<le> i64_max"

lemma bump_generation:
  assumes "generation_is db g" "bump_active_scope_generation db = Inr db'"
  shows "db' = db\<lparr>sx_generation := Some (dec_int (g + 1))\<rparr>" "generation_is db' (g + 1)"
  using assms by (auto simp: bump_active_scope_generation_def generation_is_def rbind_eq_Inr)

section \<open>The selection is always valid\<close>

text \<open>
  \<open>base_ok\<close> is what no operation may lose; \<open>scope_ok\<close> adds that the selected workspace is active
  and visible to the selected account, which the store knows.
\<close>

definition base_ok :: "store_db \<Rightarrow> bool" where
  "base_ok db \<longleftrightarrow> distinct (map ws_id (sx_workspaces db)) \<and>
     (\<exists>w \<in> set (sx_workspaces db). ws_id w = personal_workspace_id \<and> ws_kind w = Personal_workspace \<and>
        ws_lifecycle w = Ws_active) \<and>
     [] \<notin> ac_user_id ` set (sx_accounts db) \<and> (\<exists>g. generation_is db g) \<and> sx_active db \<noteq> None"

definition scope_ok :: "store_db \<Rightarrow> bool" where
  "scope_ok db \<longleftrightarrow> base_ok db \<and> (\<exists>wid. sx_active db = Some wid \<and> selection_valid db wid) \<and>
     (case sx_account db of Some u \<Rightarrow> account_exists db u | None \<Rightarrow> True)"

lemma active_workspace_row_Some:
  assumes "base_ok db"
  shows "active_workspace_row db wid = Some w \<longleftrightarrow>
    w \<in> set (sx_workspaces db) \<and> ws_id w = wid \<and> ws_lifecycle w = Ws_active"
proof
  assume "active_workspace_row db wid = Some w"
  then show "w \<in> set (sx_workspaces db) \<and> ws_id w = wid \<and> ws_lifecycle w = Ws_active"
    by (auto simp: active_workspace_row_def find_Some_iff)
next
  assume w: "w \<in> set (sx_workspaces db) \<and> ws_id w = wid \<and> ws_lifecycle w = Ws_active"
  then obtain w' where w': "active_workspace_row db wid = Some w'"
    by (cases "active_workspace_row db wid") (auto simp: active_workspace_row_def find_None_iff)
  then have "w' \<in> set (sx_workspaces db)" "ws_id w' = wid"
    by (auto simp: active_workspace_row_def find_Some_iff)
  then have "w' = w" using w assms by (auto simp: base_ok_def distinct_map inj_on_def)
  with w' show "active_workspace_row db wid = Some w" by simp
qed

lemma selection_valid_iff:
  assumes "base_ok db"
  shows "selection_valid db wid \<longleftrightarrow> (\<exists>w \<in> set (sx_workspaces db). ws_id w = wid \<and>
    ws_lifecycle w = Ws_active \<and> scope_visible db w (sx_account db))"
  using active_workspace_row_Some [OF assms, of wid]
  by (cases "active_workspace_row db wid") (auto simp: selection_valid_def, metis)

lemma personal_selection_valid: "base_ok db \<Longrightarrow> selection_valid db personal_workspace_id"
  by (auto simp: selection_valid_iff scope_visible_def) (auto simp: base_ok_def)

lemma preferred_selection_valid:
  assumes "base_ok db" "sx_account db = Some u"
  shows "selection_valid db (preferred_or_personal db u)"
proof (cases "preferred_workspace db u")
  case None
  then show ?thesis using personal_selection_valid [OF assms(1)] by (simp add: preferred_or_personal_def)
next
  case (Some wid)
  have first: "first_row xs = Some x \<Longrightarrow> x \<in> set xs" for x :: workspace and xs
    by (cases xs) (auto simp: first_row_def)
  have "\<exists>w \<in> set (membership_workspaces db u). ws_id w = wid"
    using Some first
    by (fastforce simp: preferred_workspace_def list_ex_iff split: option.splits if_splits)
  then show ?thesis
    using Some assms(2)
    by (auto simp: preferred_or_personal_def selection_valid_iff [OF assms(1)] membership_workspaces_def
        scope_visible_def)
qed

lemma account_exists_iff: "account_exists db u \<longleftrightarrow> u \<in> ac_user_id ` set (sx_accounts db)"
  by (auto simp: account_exists_def list_ex_iff)

text \<open>What an operation may do to the tables around the selection.\<close>

lemma update_account_frame [simp]:
  "sx_workspaces (update_account u f db) = sx_workspaces db"
  "sx_members (update_account u f db) = sx_members db"
  "sx_active (update_account u f db) = sx_active db"
  "sx_account (update_account u f db) = sx_account db"
  "sx_generation (update_account u f db) = sx_generation db"
  "sx_connections (update_account u f db) = sx_connections db"
  "sx_bindings (update_account u f db) = sx_bindings db"
  by (simp_all add: update_account_def)

lemma update_account_ids:
  "(\<And>a. ac_user_id (f a) = ac_user_id a) \<Longrightarrow>
   map ac_user_id (sx_accounts (update_account u f db)) = map ac_user_id (sx_accounts db)"
  by (simp add: update_account_def)

lemma base_ok_cong:
  assumes "base_ok db" "sx_workspaces db' = sx_workspaces db"
    and "ac_user_id ` set (sx_accounts db') = ac_user_id ` set (sx_accounts db)"
    and "sx_generation db' = sx_generation db" "sx_active db' \<noteq> None"
  shows "base_ok db'"
  using assms by (auto simp: base_ok_def generation_is_def)

lemma account_ids_image:
  "map ac_user_id xs = map ac_user_id ys \<Longrightarrow> ac_user_id ` set xs = ac_user_id ` set ys"
  by (metis list.set_map)

lemma selection_valid_cong:
  assumes "sx_workspaces db' = sx_workspaces db" "sx_members db' = sx_members db"
    and "sx_account db' = sx_account db"
  shows "selection_valid db' wid = selection_valid db wid"
  using assms
  by (simp add: selection_valid_def active_workspace_row_def scope_visible_def member_active_def
      split: option.split)

lemma bump_scope_ok:
  assumes "base_ok db" "bump_active_scope_generation db = Inr db'"
    and "\<exists>wid. sx_active db = Some wid \<and> selection_valid db wid"
    and "case sx_account db of Some u \<Rightarrow> account_exists db u | None \<Rightarrow> True"
  shows "scope_ok db'"
proof -
  obtain g where "generation_is db g" using assms(1) by (auto simp: base_ok_def)
  note bump = bump_generation [OF this assms(2)]
  have "base_ok db'" using assms(1) bump(2) by (auto simp: base_ok_def bump(1))
  moreover have "selection_valid db' wid = selection_valid db wid" for wid
    by (rule selection_valid_cong) (simp_all add: bump(1))
  ultimately show ?thesis
    using assms(3,4) by (simp add: scope_ok_def bump(1) account_exists_def split: option.splits)
qed

lemma activate_scope_ok:
  assumes "base_ok db" "activate_workspace E wid acct now db = Inr (w, db')"
  shows "scope_ok db'" "sx_active db' = Some wid" "sx_account db' = acct"
proof -
  define db1 where "db1 = (case acct of
      Some u \<Rightarrow> update_account u (touch_account w now) (db\<lparr>sx_account := Some u\<rparr>)
    | None \<Rightarrow> db\<lparr>sx_account := None\<rparr>)\<lparr>sx_active := Some wid\<rparr>"
  have checks: "activate_checks E db wid acct = Inr w" and bump: "bump_active_scope_generation db1 = Inr db'"
    using assms(2) by (auto simp: activate_workspace_def rbind_eq_Inr db1_def split: option.splits)
  have frame: "sx_workspaces db1 = sx_workspaces db" "sx_members db1 = sx_members db"
    "sx_account db1 = acct" "sx_generation db1 = sx_generation db" "sx_active db1 = Some wid"
    "map ac_user_id (sx_accounts db1) = map ac_user_id (sx_accounts db)"
    by (auto simp: db1_def update_account_def touch_account_def split: option.split)
  have base: "base_ok db1"
    by (rule base_ok_cong [OF assms(1)]) (simp_all add: frame account_ids_image [OF frame(6)])
  have row: "active_workspace_row db wid = Some w"
    using checks by (auto simp: activate_checks_def rbind_eq_Inr ok_or_def split: option.splits)
  have "scope_visible db w acct \<and> (case acct of Some u \<Rightarrow> account_exists db u | None \<Rightarrow> True)"
    using checks row active_workspace_row_Some [OF assms(1), of wid w]
    by (cases acct; cases "ws_kind w")
      (auto simp: activate_checks_def rbind_eq_Inr ok_or_def scope_visible_def)
  then have valid: "selection_valid db1 wid" "case sx_account db1 of Some u \<Rightarrow> account_exists db1 u | None \<Rightarrow> True"
    using row frame account_ids_image [OF frame(6)]
    by (auto simp: selection_valid_def active_workspace_row_def scope_visible_def member_active_def
        account_exists_iff split: option.splits)
  show "scope_ok db'" by (rule bump_scope_ok [OF base bump _ valid(2)]) (simp add: frame valid(1))
  show "sx_active db' = Some wid" "sx_account db' = acct"
    using bump frame by (auto simp: bump_active_scope_generation_def rbind_eq_Inr)
qed

lemma repair_scope_ok:
  assumes "base_ok db" "repair_active_scope_after_membership_change now db = Inr (db', changed)"
  shows "scope_ok db'"
proof -
  obtain wid where wid: "sx_active db = Some wid" using assms(1) by (auto simp: base_ok_def)
  define db1 where "db1 = drop_unknown_account db"
  have frame: "sx_workspaces db1 = sx_workspaces db" "sx_members db1 = sx_members db"
    "sx_accounts db1 = sx_accounts db" "sx_generation db1 = sx_generation db" "sx_active db1 = Some wid"
    using wid by (auto simp: db1_def drop_unknown_account_def split: option.split)
  have base: "base_ok db1" by (rule base_ok_cong [OF assms(1)]) (simp_all add: frame)
  have known: "case sx_account db1 of Some u \<Rightarrow> account_exists db1 u | None \<Rightarrow> True"
    by (auto simp: db1_def drop_unknown_account_def account_exists_def split: option.split)
  show ?thesis
  proof (cases "selection_valid db1 wid")
    case True
    have "bump_active_scope_generation db1 = Inr db' \<or> db' = db1"
      using assms(2) True wid
      by (auto simp: repair_active_scope_after_membership_change_def ok_or_def db1_def [symmetric] Let_def
          rbind_eq_Inr split: if_splits)
    then show ?thesis
    proof
      assume "bump_active_scope_generation db1 = Inr db'"
      from bump_scope_ok [OF base this _ known] show ?thesis using frame True by simp
    next
      assume "db' = db1"
      then show ?thesis using base known frame True by (simp add: scope_ok_def)
    qed
  next
    case False
    let ?fallback = "fallback_workspace db1" and ?db3 = "select_fallback now db1"
    have bump: "bump_active_scope_generation ?db3 = Inr db'"
      using assms(2) False wid
      by (auto simp: repair_active_scope_after_membership_change_def ok_or_def db1_def [symmetric] Let_def
          rbind_eq_Inr)
    have frame3: "sx_workspaces ?db3 = sx_workspaces db1" "sx_members ?db3 = sx_members db1"
      "sx_account ?db3 = sx_account db1" "sx_generation ?db3 = sx_generation db1"
      "sx_active ?db3 = Some ?fallback"
      "map ac_user_id (sx_accounts ?db3) = map ac_user_id (sx_accounts db1)"
      by (auto simp: select_fallback_def update_account_def Let_def split: option.split)
    have base3: "base_ok ?db3"
      by (rule base_ok_cong [OF base]) (simp_all add: frame3 account_ids_image [OF frame3(6)])
    have "selection_valid db1 ?fallback"
      using preferred_selection_valid [OF base] personal_selection_valid [OF base]
      by (simp add: fallback_workspace_def split: option.split)
    then have valid: "selection_valid ?db3 ?fallback"
      using selection_valid_cong [of ?db3 db1] frame3 by simp
    have known3: "case sx_account ?db3 of Some u \<Rightarrow> account_exists ?db3 u | None \<Rightarrow> True"
      using known account_ids_image [OF frame3(6)]
      by (simp add: frame3 account_exists_iff split: option.splits)
    show ?thesis by (rule bump_scope_ok [OF base3 bump _ known3]) (simp add: frame3 valid)
  qed
qed

lemma remember_frame [simp]:
  "sx_workspaces (remember_workspace_account user now db) = sx_workspaces db"
  "sx_members (remember_workspace_account user now db) = sx_members db"
  "sx_active (remember_workspace_account user now db) = sx_active db"
  "sx_account (remember_workspace_account user now db) = sx_account db"
  "sx_generation (remember_workspace_account user now db) = sx_generation db"
  by (simp_all add: remember_workspace_account_def)

lemma remember_ids:
  "ac_user_id ` set (sx_accounts (remember_workspace_account user now db)) =
   insert (au_id user) (ac_user_id ` set (sx_accounts db))"
proof (cases "account_exists db (au_id user)")
  case True
  then have "sx_accounts (remember_workspace_account user now db) =
      sx_accounts (update_account (au_id user) (\<lambda>a. a\<lparr>ac_email := au_email user,
        ac_display_name := au_display_name user, ac_updated_at := now\<rparr>) db)"
    by (simp add: remember_workspace_account_def)
  then show ?thesis
    using True account_ids_image [OF update_account_ids, of "\<lambda>a. a\<lparr>ac_email := au_email user,
        ac_display_name := au_display_name user, ac_updated_at := now\<rparr>" "au_id user" db]
    by (auto simp: account_exists_iff)
qed (simp add: remember_workspace_account_def)

lemma remember_base_ok:
  "base_ok db \<Longrightarrow> au_id user \<noteq> [] \<Longrightarrow> base_ok (remember_workspace_account user now db)"
  by (auto simp: base_ok_def generation_is_def remember_ids)

lemma remember_scope_ok:
  assumes "scope_ok db" "au_id user \<noteq> []"
  shows "scope_ok (remember_workspace_account user now db)"
proof -
  have "selection_valid (remember_workspace_account user now db) wid = selection_valid db wid" for wid
    by (rule selection_valid_cong) simp_all
  then show ?thesis
    using assms remember_base_ok [of db user now]
    by (auto simp: scope_ok_def account_exists_iff remember_ids split: option.splits)
qed

lemma archive_orphans_frame [simp]:
  "sx_members (archive_orphans now db) = sx_members db"
  "sx_accounts (archive_orphans now db) = sx_accounts db"
  "sx_active (archive_orphans now db) = sx_active db"
  "sx_account (archive_orphans now db) = sx_account db"
  "sx_generation (archive_orphans now db) = sx_generation db"
  by (simp_all add: archive_orphans_def)

lemma archive_orphans_base_ok:
  assumes "base_ok db"
  shows "base_ok (archive_orphans now db)"
proof -
  let ?f = "\<lambda>w. if ws_kind w = Team_workspace \<and> \<not> has_active_member db (ws_id w)
     then w\<lparr>ws_lifecycle := Ws_archived, ws_updated_at := now\<rparr> else w"
  have ids: "map ws_id (sx_workspaces (archive_orphans now db)) = map ws_id (sx_workspaces db)"
    by (simp add: archive_orphans_def)
  obtain w where w: "w \<in> set (sx_workspaces db)" "ws_id w = personal_workspace_id"
    "ws_kind w = Personal_workspace" "ws_lifecycle w = Ws_active"
    using assms by (auto simp: base_ok_def)
  then have "?f w = w" by simp
  then have "w \<in> set (sx_workspaces (archive_orphans now db))"
    using w(1) by (force simp: archive_orphans_def image_iff)
  then show ?thesis using assms w by (auto simp: base_ok_def generation_is_def ids)
qed

lemma archive_orphans_valid:
  assumes "base_ok db" "selection_valid db wid"
  shows "selection_valid (archive_orphans now db) wid"
proof -
  obtain w where w: "w \<in> set (sx_workspaces db)" "ws_id w = wid" "ws_lifecycle w = Ws_active"
    "scope_visible db w (sx_account db)"
    using assms by (auto simp: selection_valid_iff)
  have "ws_kind w = Team_workspace \<Longrightarrow> has_active_member db (ws_id w)"
    using w(4) by (auto simp: scope_visible_def member_active_def has_active_member_def list_ex_iff
        split: option.splits)
  then have "w \<in> set (sx_workspaces (archive_orphans now db))"
    using w(1) by (force simp: archive_orphans_def image_iff)
  moreover have "scope_visible (archive_orphans now db) w (sx_account db)"
    using w(4) by (simp add: scope_visible_def member_active_def split: option.splits)
  ultimately show ?thesis
    using w by (auto simp: selection_valid_iff [OF archive_orphans_base_ok [OF assms(1)]])
qed

lemma preferred_account_irrelevant [simp]:
  "preferred_or_personal (db\<lparr>sx_account := x\<rparr>) v = preferred_or_personal db v"
proof -
  have "member_active (db\<lparr>sx_account := x\<rparr>) w v = member_active db w v" for w
    by (simp add: member_active_def)
  then have "membership_workspaces (db\<lparr>sx_account := x\<rparr>) v = membership_workspaces db v"
    by (simp add: membership_workspaces_def)
  then show ?thesis
    by (simp add: preferred_or_personal_def preferred_workspace_def cong: option.case_cong if_cong)
qed

lemma remove_scope_ok:
  assumes "scope_ok db" "remove_workspace_account u now db = Inr db'"
  shows "scope_ok db'"
proof -
  define db0 where "db0 = db\<lparr>sx_members := filter (\<lambda>m. mb_user_id m \<noteq> Some u) (sx_members db),
    sx_accounts := filter (\<lambda>a. ac_user_id a \<noteq> u) (sx_accounts db)\<rparr>"
  define db1 where "db1 = archive_orphans now db0"
  have base0: "base_ok db0" using assms(1) by (auto simp: scope_ok_def base_ok_def db0_def generation_is_def)
  have base: "base_ok db1" unfolding db1_def by (rule archive_orphans_base_ok [OF base0])
  obtain wid where wid: "sx_active db = Some wid" "selection_valid db wid"
    using assms(1) by (auto simp: scope_ok_def)
  have act: "sx_active db1 = Some wid" "sx_account db1 = sx_account db"
    using wid by (simp_all add: db1_def db0_def)
  show ?thesis
  proof (cases "sx_account db = Some u")
    case True
    define db2 where "db2 = (case most_recent_account db1 of
        Some a \<Rightarrow> set_active (preferred_or_personal db1 (ac_user_id a)) (db1\<lparr>sx_account := Some (ac_user_id a)\<rparr>)
      | None \<Rightarrow> set_active personal_workspace_id (db1\<lparr>sx_account := None\<rparr>))"
    have bump: "bump_active_scope_generation db2 = Inr db'"
      using assms(2) True act by (simp add: remove_workspace_account_def db0_def [symmetric] db1_def [symmetric]
          db2_def Let_def)
    have frame: "sx_workspaces db2 = sx_workspaces db1" "sx_members db2 = sx_members db1"
      "sx_accounts db2 = sx_accounts db1" "sx_generation db2 = sx_generation db1" "sx_active db2 \<noteq> None"
      using act by (auto simp: db2_def set_active_def split: option.split)
    have base2: "base_ok db2" by (rule base_ok_cong [OF base]) (simp_all add: frame)
    have recent: "account_exists db1 (ac_user_id a)" if "most_recent_account db1 = Some a" for a
    proof -
      have "a \<in> set (rev (sort_key ac_last_used_at (rev (sx_accounts db1))))"
        using that by (cases "rev (sort_key ac_last_used_at (rev (sx_accounts db1)))")
          (auto simp: most_recent_account_def first_row_def)
      then show ?thesis by (simp add: account_exists_iff)
    qed
    have base_x: "base_ok (db1\<lparr>sx_account := x\<rparr>)" for x
      by (rule base_ok_cong [OF base]) (use act in simp_all)
    have "\<exists>w. sx_active db2 = Some w \<and> selection_valid db2 w"
    proof (cases "most_recent_account db1")
      case None
      then have "sx_active db2 = Some personal_workspace_id" using act by (simp add: db2_def set_active_def)
      then show ?thesis using personal_selection_valid [OF base2] by blast
    next
      case (Some a)
      have "selection_valid (db1\<lparr>sx_account := Some (ac_user_id a)\<rparr>) (preferred_or_personal db1 (ac_user_id a))"
        using preferred_selection_valid [OF base_x, of "Some (ac_user_id a)" "ac_user_id a"] by simp
      then show ?thesis
        using Some act selection_valid_cong [of db2 "db1\<lparr>sx_account := Some (ac_user_id a)\<rparr>"]
        by (simp add: db2_def set_active_def)
    qed
    moreover have "case sx_account db2 of Some v \<Rightarrow> account_exists db2 v | None \<Rightarrow> True"
      using recent by (auto simp: db2_def set_active_def account_exists_def split: option.split)
    ultimately show ?thesis by (rule bump_scope_ok [OF base2 bump])
  next
    case False
    then have "db' = db1"
      using assms(2) act by (simp add: remove_workspace_account_def db0_def [symmetric] db1_def [symmetric] Let_def)
    moreover have "selection_valid db0 wid"
      using wid False by (auto simp: selection_valid_def active_workspace_row_def scope_visible_def
          member_active_def list_ex_iff db0_def split: option.splits)
    then have "selection_valid db1 wid" unfolding db1_def by (rule archive_orphans_valid [OF base0])
    moreover have "case sx_account db1 of Some v \<Rightarrow> account_exists db1 v | None \<Rightarrow> True"
      using assms(1) False by (auto simp: scope_ok_def db1_def db0_def account_exists_iff split: option.splits)
    ultimately show ?thesis using base act by (simp add: scope_ok_def)
  qed
qed

lemma upsert_workspace_base_ok:
  assumes "base_ok db"
  shows "base_ok (upsert_workspace wid name now db)"
proof (cases "list_ex (\<lambda>w. ws_id w = wid) (sx_workspaces db)")
  case True
  let ?f = "\<lambda>w. if ws_id w = wid \<and> ws_kind w = Team_workspace
    then w\<lparr>ws_name := name, ws_lifecycle := Ws_active, ws_updated_at := now\<rparr> else w"
  have rows: "sx_workspaces (upsert_workspace wid name now db) = map ?f (sx_workspaces db)"
    using True by (simp add: upsert_workspace_def)
  have ids: "map ws_id (map ?f (sx_workspaces db)) = map ws_id (sx_workspaces db)" by simp
  obtain w where w: "w \<in> set (sx_workspaces db)" "ws_id w = personal_workspace_id"
    "ws_kind w = Personal_workspace" "ws_lifecycle w = Ws_active"
    using assms by (auto simp: base_ok_def)
  have mem: "w \<in> set (map ?f (sx_workspaces db))" using imageI [OF w(1), of ?f] w(3) by simp
  have frame: "sx_accounts (upsert_workspace wid name now db) = sx_accounts db"
    "sx_generation (upsert_workspace wid name now db) = sx_generation db"
    "sx_active (upsert_workspace wid name now db) = sx_active db"
    using True by (simp_all add: upsert_workspace_def)
  show ?thesis
    unfolding base_ok_def generation_is_def frame rows ids
  proof (intro conjI)
    show "\<exists>w \<in> set (map ?f (sx_workspaces db)). ws_id w = personal_workspace_id \<and>
        ws_kind w = Personal_workspace \<and> ws_lifecycle w = Ws_active"
      using mem w(2-4) by blast
  qed (use assms in \<open>simp_all add: base_ok_def generation_is_def\<close>)
next
  case False
  then show ?thesis
    using assms by (auto simp: base_ok_def generation_is_def upsert_workspace_def list_ex_iff)
qed

lemma upsert_member_base_ok: "base_ok db \<Longrightarrow> base_ok (upsert_member mid wid user role now db)"
  by (auto simp: base_ok_def generation_is_def upsert_member_def Let_def)

lemma upsert_memberships_base_ok:
  "base_ok db \<Longrightarrow> base_ok (upsert_memberships ids k user workspaces now db)"
  by (induction ids k user workspaces now db rule: upsert_memberships.induct)
    (simp_all add: upsert_member_base_ok upsert_workspace_base_ok)

lemma claim_base_ok:
  assumes "base_ok db" "claim_artifacts u (claim_credentials v now (claim_connections w db)) = Inr db'"
  shows "base_ok db'"
  using assms
  by (auto simp: base_ok_def generation_is_def claim_artifacts_def claim_credentials_def
      claim_connections_def Let_def rbind_eq_Inr)

lemma forget_last_base_ok: "base_ok db \<Longrightarrow> base_ok (forget_last_workspace u db)"
  unfolding forget_last_workspace_def
  by (rule base_ok_cong, assumption) (simp_all add: account_ids_image [OF update_account_ids] base_ok_def)

lemma sync_tx_scope_ok:
  assumes "base_ok db" "sync_tx ids user workspaces now db = Inr db'"
  shows "scope_ok db'"
proof -
  let ?db1 = "upsert_memberships ids 0 user workspaces now (archive_memberships (au_id user) db)"
  have "base_ok (archive_memberships (au_id user) db)"
    using assms(1) by (simp add: base_ok_def generation_is_def archive_memberships_def)
  then have base1: "base_ok ?db1" by (rule upsert_memberships_base_ok)
  obtain db3 changed where db3: "claim_artifacts (au_id user)
      (claim_credentials (au_id user) now (claim_connections (au_id user) ?db1)) = Inr db3"
    and repair: "repair_active_scope_after_membership_change now
      (forget_last_workspace (au_id user) (archive_orphans now db3)) = Inr (db', changed)"
    using assms(2) by (auto simp: sync_tx_def Let_def rbind_eq_Inr)
  show ?thesis
    by (rule repair_scope_ok [OF forget_last_base_ok [OF archive_orphans_base_ok
          [OF claim_base_ok [OF base1 db3]]] repair])
qed

lemma sync_scope_ok:
  assumes "scope_ok db" "au_id user \<noteq> []"
  shows "scope_ok (snd (sync_account_workspaces ids user workspaces now db))"
proof -
  have base: "base_ok (remember_workspace_account user now db)"
    using assms remember_base_ok by (auto simp: scope_ok_def)
  show ?thesis
    using assms remember_scope_ok [OF assms] sync_tx_scope_ok [OF base]
    by (auto simp: sync_account_workspaces_def Let_def split: sum.split)
qed

text \<open>A valid selection can be read.\<close>

lemma scope_ok_reads:
  assumes "scope_ok db"
  obtains scope w where "store_active_scope db = Inr scope" "active_workspace db = Inr w"
    "sx_active db = Some (sc_workspace_id scope)" "sc_selected_account_id scope = sx_account db"
    "generation_is db (sc_generation scope)" "ws_id w = sc_workspace_id scope"
    "sc_workspace_kind scope = ws_kind w" "active_workspace_row db (ws_id w) = Some w"
    "ws_kind w = Team_workspace \<Longrightarrow> \<exists>u. sx_account db = Some u \<and> member_active db (ws_id w) u \<and>
       sc_account_scope scope = WorkspaceUser_scope u"
    "ws_kind w = Personal_workspace \<Longrightarrow> sc_account_scope scope = Personal_scope"
proof -
  obtain wid where wid: "sx_active db = Some wid" "selection_valid db wid" and base: "base_ok db"
    using assms by (auto simp: scope_ok_def)
  obtain w where w: "active_workspace_row db wid = Some w" "scope_visible db w (sx_account db)"
    using wid(2) by (auto simp: selection_valid_def split: option.splits)
  have id: "ws_id w = wid" using active_workspace_row_Some [OF base, of wid w] w(1) by simp
  obtain g where g: "generation_is db g" using base by (auto simp: base_ok_def)
  have known: "u \<noteq> []" if "sx_account db = Some u" for u
    using assms that by (auto simp: scope_ok_def base_ok_def account_exists_iff image_iff)
  obtain scope where scope: "account_scope_for (ws_kind w) (sx_account db) = Inr scope"
    "ws_kind w = Personal_workspace \<Longrightarrow> scope = Personal_scope"
    "ws_kind w = Team_workspace \<Longrightarrow> \<exists>u. sx_account db = Some u \<and> member_active db (ws_id w) u \<and>
       scope = WorkspaceUser_scope u"
    using w(2) known
    by (cases "ws_kind w"; cases "sx_account db")
      (auto simp: account_scope_for_def scope_visible_def nonempty_account_def)
  have sel: "selected_workspace db = Some w" using wid(1) w(1) by (simp add: selected_workspace_def)
  show thesis
    by (rule that [of "\<lparr>sc_workspace_id = wid, sc_workspace_kind = ws_kind w,
          sc_selected_account_id = sx_account db, sc_account_scope = scope, sc_generation = g\<rparr>" w])
      (use sel w id g scope wid in \<open>auto simp: store_active_scope_def active_workspace_def
          active_scope_from_row_def generation_is_def\<close>)
qed

end
