(* ===== verification/Connection_Store.thy ===== *)
theory Connection_Store
  imports Scope_Store
begin

text \<open>
  The connections of the store, \<^verbatim>\<open>src/src-tauri/src/store/mod.rs\<close>: the local profiles, the
  shared templates with their per-account bindings, the pin a long request keeps and the check
  that it is still current, and the history written only while it is.
\<close>

section \<open>Reading a connection\<close>

text \<open>The binding of the selected account: nothing joins the absent account.\<close>

definition binding_for :: "store_db \<Rightarrow> uuid \<Rightarrow> string option \<Rightarrow> binding_row option" where
  "binding_for db cid acct =
     (case acct of
        Some u \<Rightarrow> find (\<lambda>b. bn_connection_id b = cid \<and> bn_account_user_id b = u) (sx_bindings db)
      | None \<Rightarrow> None)"

definition bound_credentials :: "binding_row option \<Rightarrow> connection_profile \<Rightarrow> connection_profile" where
  "bound_credentials b p =
     (case b of
        Some row \<Rightarrow> p\<lparr>cp_username := bn_username row, cp_extra_params := bn_extra_params row,
          cp_secret_ref := bn_secret_ref row\<rparr>
      | None \<Rightarrow> p\<lparr>cp_username := [], cp_extra_params := [], cp_secret_ref := None\<rparr>)"

definition row_to_connection_with_binding :: "connection_row \<Rightarrow> binding_row option \<Rightarrow> connection_profile" where
  "row_to_connection_with_binding c b =
     (let p = cr_profile c
      in if cp_workspace_access p = Local_access then p
         else (let p1 = bound_credentials
                     (if cp_credential_mode p = MemberLocal_credential then b else None) p;
                   access = (case b of Some row \<Rightarrow> bn_workspace_access row | None \<Rightarrow> View_access);
                   writes = (case b of Some row \<Rightarrow> bn_allow_writes row | None \<Rightarrow> False)
               in p1\<lparr>cp_workspace_access := access, cp_allow_writes := (writes \<and> can_write access)\<rparr>))"

definition connection_visible :: "workspace_kind \<Rightarrow> string option \<Rightarrow> connection_row \<Rightarrow> bool" where
  "connection_visible kind acct c \<longleftrightarrow> kind = Personal_workspace \<or> cr_remote_id c \<noteq> None \<or>
     (acct \<noteq> None \<and> cr_account_user_id c = acct)"

definition live_in_workspace :: "uuid \<Rightarrow> connection_row \<Rightarrow> bool" where
  "live_in_workspace wid c \<longleftrightarrow> cr_workspace_id c = wid \<and> cr_deleted_at c = None"

definition live_connection_row :: "store_db \<Rightarrow> uuid \<Rightarrow> uuid \<Rightarrow> connection_row option" where
  "live_connection_row db wid cid = find (\<lambda>c. cr_id c = cid \<and> live_in_workspace wid c) (sx_connections db)"

definition err_no_connection :: "env \<Rightarrow> uuid \<Rightarrow> app_error" where
  "err_no_connection E cid = NotFound (''connection '' @ uuid_to_string E cid)"

text \<open>The active workspace, which in a team needs the selected account.\<close>

definition reading_workspace :: "store_db \<Rightarrow> workspace app_result" where
  "reading_workspace db =
     rbind (active_workspace db) (\<lambda>w.
     rbind (guard (ws_kind w = Team_workspace \<and> sx_account db = None)
       (Config ''a team workspace has no active authenticated account'')) (\<lambda>_.
     Inr w))"

definition list_connections :: "store_db \<Rightarrow> connection_profile list app_result" where
  "list_connections db =
     rbind (reading_workspace db) (\<lambda>w.
     Inr (map (\<lambda>c. row_to_connection_with_binding c (binding_for db (cr_id c) (sx_account db)))
       (sort_key (\<lambda>c. cp_name (cr_profile c))
         (filter (\<lambda>c. live_in_workspace (ws_id w) c \<and> connection_visible (ws_kind w) (sx_account db) c)
           (sx_connections db)))))"

definition get_connection :: "env \<Rightarrow> store_db \<Rightarrow> uuid \<Rightarrow> connection_profile app_result" where
  "get_connection E db cid =
     rbind (reading_workspace db) (\<lambda>w.
     rbind (ok_or (live_connection_row db (ws_id w) cid) (err_no_connection E cid)) (\<lambda>c.
     rbind (guard (\<not> connection_visible (ws_kind w) (sx_account db) c) (err_no_connection E cid)) (\<lambda>_.
     Inr (row_to_connection_with_binding c (binding_for db cid (sx_account db))))))"

text \<open>A connection that exists may be edited only where it was made, and never if it is shared.\<close>

definition ensure_connection_write_scope :: "env \<Rightarrow> store_db \<Rightarrow> uuid \<Rightarrow> unit app_result" where
  "ensure_connection_write_scope E db cid =
     rbind (active_workspace db) (\<lambda>w.
     case find (\<lambda>c. cr_id c = cid) (sx_connections db) of
       Some c \<Rightarrow>
         guard (cr_workspace_id c \<noteq> ws_id w \<or>
                (ws_kind w = Team_workspace \<and> cr_account_user_id c \<noteq> sx_account db) \<or>
                cr_remote_id c \<noteq> None)
           (err_no_connection E cid)
     | None \<Rightarrow> Inr ())"

section \<open>The pin\<close>

definition account_scope_from_parts ::
  "workspace_kind \<Rightarrow> string option \<Rightarrow> string \<Rightarrow> account_scope app_result" where
  "account_scope_from_parts kind acct stored =
     (case kind of
        Personal_workspace \<Rightarrow>
          if stored = ''personal'' then Inr Personal_scope
          else Inl (Config ''Personal Workspace has an invalid local scope'')
      | Team_workspace \<Rightarrow>
          rbind (nonempty_account acct) (\<lambda>u.
          rbind (guard (stored \<noteq> u) (Config ''active workspace scope is internally inconsistent'')) (\<lambda>_.
          Inr (WorkspaceUser_scope u))))"

definition stored_scope :: "workspace_kind \<Rightarrow> string option \<Rightarrow> string option" where
  "stored_scope kind acct = (case kind of Personal_workspace \<Rightarrow> Some ''personal'' | Team_workspace \<Rightarrow> acct)"

definition row_to_active_resource_scope ::
  "workspace \<Rightarrow> string option \<Rightarrow> string \<Rightarrow> active_resource_scope app_result" where
  "row_to_active_resource_scope w acct raw =
     rbind (parse_scope_generation raw) (\<lambda>g.
     rbind (ok_or (stored_scope (ws_kind w) acct) (Db ''unexpected null; try decoding as an Option''))
       (\<lambda>stored.
     rbind (account_scope_from_parts (ws_kind w) acct stored) (\<lambda>scope.
     Inr \<lparr>sc_workspace_id = ws_id w, sc_workspace_kind = ws_kind w, sc_selected_account_id = acct,
          sc_account_scope = scope, sc_generation = g\<rparr>)))"

definition pinned_binding_revision :: "connection_row \<Rightarrow> binding_row option \<Rightarrow> int" where
  "pinned_binding_revision c b =
     (if cr_remote_id c = None then 0 else (case b of Some row \<Rightarrow> bn_revision row | None \<Rightarrow> 0))"

definition pinned_binding_updated_at :: "connection_row \<Rightarrow> binding_row option \<Rightarrow> string" where
  "pinned_binding_updated_at c b =
     (if cr_remote_id c = None then [] else (case b of Some row \<Rightarrow> bn_updated_at row | None \<Rightarrow> []))"

definition cache_policy_of :: "connection_profile \<Rightarrow> catalog_cache_policy" where
  "cache_policy_of p = (if cp_credential_mode p = Managed_credential then EphemeralOnly else Persistent)"

definition pin_row ::
  "uuid \<Rightarrow> bool \<Rightarrow> workspace \<Rightarrow> string option \<Rightarrow> string \<Rightarrow> connection_row \<Rightarrow> binding_row option \<Rightarrow>
   pinned_connection app_result" where
  "pin_row cid require_read w acct raw c b =
     (let p = row_to_connection_with_binding c b;
          revision = pinned_binding_revision c b; at = pinned_binding_updated_at c b
      in rbind (guard (require_read \<and> \<not> can_read (cp_workspace_access p))
           (Blocked ''workspace role cannot execute this connection'')) (\<lambda>_.
         rbind (row_to_active_resource_scope w acct raw) (\<lambda>scope.
         rbind (guard (cr_revision c < 1 \<or>
             \<not> (if cr_remote_id c = None then revision = 0 \<and> at = [] else 1 \<le> revision \<and> at \<noteq> []))
           (Config ''connection material has an invalid revision'')) (\<lambda>_.
         Inr \<lparr>pin_scope = scope, pin_connection_id = cid, pin_connection_revision = cr_revision c,
              pin_binding_revision = revision, pin_binding_updated_at = at, pin_profile = p,
              pin_requires_remote_rbac = (cr_remote_id c \<noteq> None),
              pin_catalog_cache_policy = cache_policy_of p\<rparr>))))"

text \<open>The join of the active scope and the connection, absent unless the account may see it.\<close>

definition active_connection ::
  "store_db \<Rightarrow> uuid \<Rightarrow> (workspace \<times> string \<times> connection_row) option" where
  "active_connection db cid =
     (case (selected_workspace db, sx_generation db) of
        (Some w, Some raw) \<Rightarrow>
          (case live_connection_row db (ws_id w) cid of
             Some c \<Rightarrow>
               if scope_visible db w (sx_account db) \<and> connection_visible (ws_kind w) (sx_account db) c
               then Some (w, raw, c) else None
           | None \<Rightarrow> None)
      | _ \<Rightarrow> None)"

definition pin_connection_with_access ::
  "env \<Rightarrow> store_db \<Rightarrow> uuid \<Rightarrow> bool \<Rightarrow> pinned_connection app_result" where
  "pin_connection_with_access E db cid require_read =
     (case active_connection db cid of
        Some (w, raw, c) \<Rightarrow>
          pin_row cid require_read w (sx_account db) raw c (binding_for db cid (sx_account db))
      | None \<Rightarrow> Inl (err_no_connection E cid))"

definition pin_connection_for_read :: "env \<Rightarrow> store_db \<Rightarrow> uuid \<Rightarrow> pinned_connection app_result" where
  "pin_connection_for_read E db cid = pin_connection_with_access E db cid True"

definition pin_connection_for_view :: "env \<Rightarrow> store_db \<Rightarrow> uuid \<Rightarrow> pinned_connection app_result" where
  "pin_connection_for_view E db cid = pin_connection_with_access E db cid False"

definition bound_access :: "binding_row option \<Rightarrow> workspace_connection_access" where
  "bound_access b = (case b of Some row \<Rightarrow> bn_workspace_access row | None \<Rightarrow> View_access)"

definition is_pin_current_with_access :: "store_db \<Rightarrow> pinned_connection \<Rightarrow> bool \<Rightarrow> bool" where
  "is_pin_current_with_access db pin allow_view =
     (case active_connection db (pin_connection_id pin) of
        Some (w, raw, c) \<Rightarrow>
          (let scope = pin_scope pin; acct = sx_account db;
               b = binding_for db (pin_connection_id pin) acct
           in ws_id w = sc_workspace_id scope \<and> ws_kind w = sc_workspace_kind scope \<and>
              acct = sc_selected_account_id scope \<and> raw = dec_int (sc_generation scope) \<and>
              cr_revision c = pin_connection_revision pin \<and>
              pinned_binding_revision c b = pin_binding_revision pin \<and>
              pinned_binding_updated_at c b = pin_binding_updated_at pin \<and>
              stored_scope (ws_kind w) acct = Some (storage_key (sc_account_scope scope)) \<and>
              (cr_remote_id c = None \<or> bound_access b \<in> {Read_access, Write_access, Manage_access} \<or>
               (allow_view \<and> bound_access b = View_access)))
      | None \<Rightarrow> False)"

definition is_pin_current :: "store_db \<Rightarrow> pinned_connection \<Rightarrow> bool" where
  "is_pin_current db pin = is_pin_current_with_access db pin False"

section \<open>Local profiles\<close>

definition enqueue_outbox :: "uuid \<Rightarrow> string \<Rightarrow> uuid \<Rightarrow> string \<Rightarrow> int \<Rightarrow> store_db \<Rightarrow> store_db" where
  "enqueue_outbox wid resource rid op revision db = db\<lparr>sx_outbox := sx_outbox db @
     [\<lparr>ob_workspace_id = wid, ob_resource_type = resource, ob_resource_id = rid,
       ob_operation = op, ob_revision = revision\<rparr>]\<rparr>"

definition ensure_safety_row :: "uuid \<Rightarrow> store_db \<Rightarrow> store_db" where
  "ensure_safety_row cid db =
     (if list_ex (\<lambda>(k, _). k = cid) (sx_safety db) then db
      else db\<lparr>sx_safety := sx_safety db @ [(cid, default_safety)]\<rparr>)"

definition set_safety_writes :: "uuid \<Rightarrow> bool \<Rightarrow> store_db \<Rightarrow> store_db" where
  "set_safety_writes cid writes db = db\<lparr>sx_safety :=
     map (\<lambda>(k, s). if k = cid then (k, s\<lparr>ss_allow_writes := writes\<rparr>) else (k, s)) (sx_safety db)\<rparr>"

definition update_connection :: "uuid \<Rightarrow> (connection_row \<Rightarrow> connection_row) \<Rightarrow> store_db \<Rightarrow> store_db" where
  "update_connection cid f db = db\<lparr>sx_connections :=
     map (\<lambda>c. if cr_id c = cid then f c else c) (sx_connections db)\<rparr>"

text \<open>The account that owns what is made in the active workspace.\<close>

definition owner_account :: "workspace_kind \<Rightarrow> string option \<Rightarrow> string option app_result" where
  "owner_account kind acct =
     (case kind of
        Personal_workspace \<Rightarrow> Inr None
      | Team_workspace \<Rightarrow>
          rbind (ok_or acct (Config ''team-local connections require an active account'')) (\<lambda>u. Inr (Some u)))"

definition write_local_row ::
  "env \<Rightarrow> connection_profile \<Rightarrow> uuid \<Rightarrow> string option \<Rightarrow> string \<Rightarrow> store_db \<Rightarrow>
   (int \<times> store_db) app_result" where
  "write_local_row E p wid owner now db =
     (case find (\<lambda>c. cr_id c = cp_id p) (sx_connections db) of
        None \<Rightarrow> Inr (1, db\<lparr>sx_connections := sx_connections db @
          [\<lparr>cr_profile = p, cr_workspace_id = wid, cr_account_user_id = owner, cr_remote_id = None,
            cr_revision = 1, cr_sync_status = ''dirty'', cr_deleted_at = None, cr_created_at = now,
            cr_updated_at = now\<rparr>]\<rparr>)
      | Some c \<Rightarrow>
          if cr_workspace_id c = wid \<and> cr_account_user_id c = owner \<and> cr_remote_id c = None
          then Inr (cr_revision c + 1, update_connection (cp_id p) (\<lambda>c. c\<lparr>cr_profile := p,
            cr_revision := cr_revision c + 1, cr_sync_status := ''dirty'', cr_deleted_at := None,
            cr_updated_at := now\<rparr>) db)
          else Inl (err_no_connection E (cp_id p)))"

definition upsert_connection ::
  "env \<Rightarrow> connection_profile \<Rightarrow> string \<Rightarrow> store_db \<Rightarrow> (connection_profile \<times> store_db) app_result" where
  "upsert_connection E p now db =
     rbind (guard (cp_workspace_access p \<noteq> Local_access)
       (Config ''shared connection templates cannot be edited as local connections'')) (\<lambda>_.
     rbind (guard (cp_credential_mode p \<noteq> Local_credential)
       (Config ''local connections must use local credential mode'')) (\<lambda>_.
     rbind (ok_or (Option.bind (selected_workspace db)
         (\<lambda>w. if scope_visible db w (sx_account db) then Some w else None))
       (Config ''active workspace scope is invalid'')) (\<lambda>w.
     rbind (owner_account (ws_kind w) (sx_account db)) (\<lambda>owner.
     rbind (write_local_row E p (ws_id w) owner now db) (\<lambda>(revision, db1).
     Inr (p, enqueue_outbox (ws_id w) ''connection'' (cp_id p) ''upsert'' revision (ensure_safety_row (cp_id p) db1)))))))"

text \<open>Each row is stamped and queued with the revision it reaches.\<close>

definition touch_live_row ::
  "env \<Rightarrow> uuid \<Rightarrow> uuid \<Rightarrow> string \<Rightarrow> (connection_row \<Rightarrow> connection_row) \<Rightarrow> string \<Rightarrow> store_db \<Rightarrow>
   store_db app_result" where
  "touch_live_row E wid cid now f op db =
     rbind (ok_or (live_connection_row db wid cid) (err_no_connection E cid)) (\<lambda>c.
     Inr (enqueue_outbox wid ''connection'' cid op (cr_revision c + 1)
       (update_connection cid (\<lambda>c. (f c)\<lparr>cr_updated_at := now, cr_revision := cr_revision c + 1,
          cr_sync_status := ''dirty''\<rparr>) db)))"

definition set_schema_group :: "string option \<Rightarrow> connection_row \<Rightarrow> connection_row" where
  "set_schema_group g c = c\<lparr>cr_profile := (cr_profile c)\<lparr>cp_schema_group := g\<rparr>\<rparr>"

fun set_groups ::
  "env \<Rightarrow> uuid \<Rightarrow> string option \<Rightarrow> string \<Rightarrow> uuid list \<Rightarrow> store_db \<Rightarrow> store_db app_result" where
  "set_groups E wid g now [] db = Inr db"
| "set_groups E wid g now (cid # ids) db =
     rbind (touch_live_row E wid cid now (set_schema_group g) ''upsert'' db) (set_groups E wid g now ids)"

fun all_readable :: "env \<Rightarrow> store_db \<Rightarrow> uuid list \<Rightarrow> unit app_result" where
  "all_readable E db [] = Inr ()"
| "all_readable E db (cid # ids) = rbind (get_connection E db cid) (\<lambda>_. all_readable E db ids)"

definition set_connections_schema_group ::
  "env \<Rightarrow> uuid list \<Rightarrow> string option \<Rightarrow> string \<Rightarrow> store_db \<Rightarrow> store_db app_result" where
  "set_connections_schema_group E ids g now db =
     rbind (all_readable E db ids) (\<lambda>_.
     rbind (active_workspace_id db) (\<lambda>wid.
     set_groups E wid g now ids db))"

definition delete_connection :: "env \<Rightarrow> uuid \<Rightarrow> string \<Rightarrow> store_db \<Rightarrow> store_db app_result" where
  "delete_connection E cid now db =
     rbind (get_connection E db cid) (\<lambda>_.
     rbind (active_workspace_id db) (\<lambda>wid.
     touch_live_row E wid cid now (\<lambda>c. c\<lparr>cr_deleted_at := Some now\<rparr>) ''delete'' db))"

end
