(* ===== verification/Connection_Sync.thy ===== *)
theory Connection_Sync
  imports Connection_Store
begin

text \<open>
  The shared half of the connections of \<^verbatim>\<open>src/src-tauri/src/store/mod.rs\<close>: reconciling the
  templates of a team with the server, the credentials an account binds to them, and the rows
  keyed by a connection: safety settings, history and the schema cache.
\<close>

section \<open>Reconciling the templates of a team\<close>

definition remote_checks ::
  "env \<Rightarrow> uuid \<Rightarrow> string \<Rightarrow> (connection_profile \<times> int) list \<Rightarrow> store_db \<Rightarrow> unit app_result" where
  "remote_checks E wid u templates db =
     rbind (guard (\<not> member_active db wid u)
       (NotFound (''workspace '' @ uuid_to_string E wid @ '' for account '' @ u))) (\<lambda>_.
     fold (\<lambda>(p, _) r. rbind r (\<lambda>_.
       rbind (guard (cp_workspace_access p = Local_access \<or> cp_credential_mode p = Local_credential)
         (Config ''remote connections require team access and credential mode'')) (\<lambda>_.
       guard (case find (\<lambda>c. cr_id c = cp_id p) (sx_connections db) of
                Some c \<Rightarrow> cr_workspace_id c \<noteq> wid | None \<Rightarrow> False)
         (Config (''remote connection '' @ uuid_to_string E (cp_id p) @
           '' conflicts with another workspace''))))) templates (Inr ()))"

definition removed_remote_ids :: "uuid \<Rightarrow> (connection_profile \<times> int) list \<Rightarrow> store_db \<Rightarrow> uuid list" where
  "removed_remote_ids wid templates db =
     map cr_id (filter (\<lambda>c. cr_workspace_id c = wid \<and> cr_remote_id c \<noteq> None \<and>
       cr_id c \<notin> (\<lambda>(p, _). cp_id p) ` set templates) (sx_connections db))"

text \<open>The credentials that lose their connection; a reference that is no UUID is skipped.\<close>

definition removed_credentials :: "env \<Rightarrow> uuid list \<Rightarrow> store_db \<Rightarrow> uuid list" where
  "removed_credentials E ids db =
     remdups (List.map_filter (\<lambda>b. if bn_connection_id b \<in> set ids
       then Option.bind (bn_secret_ref b) (uuid_parse_str E) else None) (sx_bindings db))"

definition drop_remote :: "uuid list \<Rightarrow> string \<Rightarrow> store_db \<Rightarrow> store_db" where
  "drop_remote ids now db = db\<lparr>
     sx_bindings := filter (\<lambda>b. bn_connection_id b \<notin> set ids) (sx_bindings db),
     sx_connections := map (\<lambda>c. if cr_id c \<in> set ids
       then c\<lparr>cr_deleted_at := Some now, cr_updated_at := now\<rparr> else c) (sx_connections db)\<rparr>"

text \<open>
  A new row holds the redacted template. A row the team already has keeps its member-local
  columns and takes the server's revision.
\<close>

definition redacted :: "connection_profile \<Rightarrow> connection_profile" where
  "redacted p = p\<lparr>cp_username := [], cp_extra_params := [], cp_secret_ref := None\<rparr>"

definition template_over :: "connection_profile \<Rightarrow> connection_profile \<Rightarrow> connection_profile" where
  "template_over p old = p\<lparr>cp_username := cp_username old, cp_extra_params := cp_extra_params old,
     cp_secret_ref := cp_secret_ref old\<rparr>"

definition write_template :: "uuid \<Rightarrow> connection_profile \<Rightarrow> int \<Rightarrow> string \<Rightarrow> store_db \<Rightarrow> store_db" where
  "write_template wid p revision now db =
     (case find (\<lambda>c. cr_id c = cp_id p) (sx_connections db) of
        None \<Rightarrow> db\<lparr>sx_connections := sx_connections db @
          [\<lparr>cr_profile = redacted p, cr_workspace_id = wid, cr_account_user_id = None,
            cr_remote_id = Some (cp_id p), cr_revision = revision, cr_sync_status = ''synced'',
            cr_deleted_at = None, cr_created_at = now, cr_updated_at = now\<rparr>]\<rparr>
      | Some _ \<Rightarrow> update_connection (cp_id p) (\<lambda>c. if cr_workspace_id c = wid
          then c\<lparr>cr_profile := template_over p (cr_profile c), cr_remote_id := Some (cp_id p),
                 cr_revision := revision, cr_sync_status := ''synced'', cr_deleted_at := None,
                 cr_updated_at := now\<rparr>
          else c) db)"

definition same_binding :: "uuid \<Rightarrow> string \<Rightarrow> binding_row \<Rightarrow> bool" where
  "same_binding cid u b \<longleftrightarrow> bn_connection_id b = cid \<and> bn_account_user_id b = u"

definition update_binding ::
  "uuid \<Rightarrow> string \<Rightarrow> (binding_row \<Rightarrow> bool) \<Rightarrow> (binding_row \<Rightarrow> binding_row) \<Rightarrow> string \<Rightarrow> binding_row \<Rightarrow>
   store_db \<Rightarrow> store_db" where
  "update_binding cid u changed f now fresh db =
     (if list_ex (same_binding cid u) (sx_bindings db)
      then db\<lparr>sx_bindings := map (\<lambda>b. if same_binding cid u b \<and> changed b
             then (f b)\<lparr>bn_revision := bn_revision b + 1, bn_updated_at := now\<rparr> else b) (sx_bindings db)\<rparr>
      else db\<lparr>sx_bindings := sx_bindings db @ [fresh]\<rparr>)"

definition template_writes :: "connection_profile \<Rightarrow> bool" where
  "template_writes p \<longleftrightarrow> cp_allow_writes p \<and> can_write (cp_workspace_access p)"

definition grant_access :: "connection_profile \<Rightarrow> string \<Rightarrow> string \<Rightarrow> store_db \<Rightarrow> store_db" where
  "grant_access p u now =
     update_binding (cp_id p) u
       (\<lambda>b. bn_workspace_access b \<noteq> cp_workspace_access p \<or> bn_allow_writes b \<noteq> template_writes p)
       (\<lambda>b. b\<lparr>bn_workspace_access := cp_workspace_access p, bn_allow_writes := template_writes p\<rparr>) now
       \<lparr>bn_connection_id = cp_id p, bn_account_user_id = u, bn_username = [], bn_extra_params = [],
        bn_secret_ref = None, bn_workspace_access = cp_workspace_access p,
        bn_allow_writes = template_writes p, bn_revision = 1, bn_updated_at = now\<rparr>"

definition sync_template :: "uuid \<Rightarrow> string \<Rightarrow> string \<Rightarrow> connection_profile \<times> int \<Rightarrow> store_db \<Rightarrow> store_db" where
  "sync_template wid u now t db =
     (case t of (p, revision) \<Rightarrow>
        grant_access p u now (set_safety_writes (cp_id p) (template_writes p)
          (ensure_safety_row (cp_id p) (write_template wid p revision now db))))"

definition sync_remote_connections ::
  "env \<Rightarrow> uuid \<Rightarrow> string \<Rightarrow> (connection_profile \<times> int) list \<Rightarrow> string \<Rightarrow> store_db \<Rightarrow>
   (uuid list \<times> store_db) app_result" where
  "sync_remote_connections E wid u templates now db =
     rbind (remote_checks E wid u templates db) (\<lambda>_.
     let ids = removed_remote_ids wid templates db
     in Inr (removed_credentials E ids db,
             fold (sync_template wid u now) templates (drop_remote ids now db)))"

text \<open>The rows that refer to a connection go with it.\<close>

definition forget_connection :: "uuid \<Rightarrow> store_db \<Rightarrow> store_db" where
  "forget_connection cid db = db\<lparr>
     sx_connections := filter (\<lambda>c. cr_id c \<noteq> cid) (sx_connections db),
     sx_bindings := filter (\<lambda>b. bn_connection_id b \<noteq> cid) (sx_bindings db),
     sx_safety := filter (\<lambda>(k, _). k \<noteq> cid) (sx_safety db),
     sx_history := filter (\<lambda>(_, h). hy_connection_id h \<noteq> cid) (sx_history db),
     sx_schema_cache := filter (\<lambda>((k, _), _). k \<noteq> cid) (sx_schema_cache db),
     sx_catalogs := filter (\<lambda>g. cg_connection_id g \<noteq> cid) (sx_catalogs db),
     sx_dashboards := filter (\<lambda>d. da_connection_id (ds_dashboard d) \<noteq> cid) (sx_dashboards db)\<rparr>"

definition purge_remote_connection_cache :: "uuid \<Rightarrow> uuid \<Rightarrow> store_db \<Rightarrow> store_db" where
  "purge_remote_connection_cache wid cid db =
     (if list_ex (\<lambda>c. cr_id c = cid \<and> cr_workspace_id c = wid \<and> cr_remote_id c = Some cid)
         (sx_connections db)
      then forget_connection cid db else db)"

section \<open>Binding credentials\<close>

definition bindable_row :: "store_db \<Rightarrow> uuid \<Rightarrow> string \<Rightarrow> connection_row option" where
  "bindable_row db cid u = find (\<lambda>c. cr_id c = cid \<and> member_active db (cr_workspace_id c) u \<and>
     cr_remote_id c \<noteq> None \<and> cr_deleted_at c = None) (sx_connections db)"

definition bind_connection_credentials ::
  "env \<Rightarrow> uuid \<Rightarrow> string \<Rightarrow> string \<Rightarrow> (string \<times> string) list \<Rightarrow> string option \<Rightarrow> string \<Rightarrow> store_db \<Rightarrow>
   (connection_profile \<times> store_db) app_result" where
  "bind_connection_credentials E cid u username params secret now db =
     rbind (ok_or (bindable_row db cid u) (NotFound (''shared connection '' @ uuid_to_string E cid))) (\<lambda>c.
     let p = row_to_connection_with_binding c (binding_for db cid (Some u))
     in rbind (guard (\<not> can_read (cp_workspace_access p))
          (Blocked ''workspace role cannot execute this connection'')) (\<lambda>_.
        rbind (guard (cp_credential_mode p \<noteq> MemberLocal_credential)
          (Blocked ''this shared connection uses automatically managed credentials'')) (\<lambda>_.
        Inr (p\<lparr>cp_username := trim username, cp_extra_params := params, cp_secret_ref := secret\<rparr>,
             update_binding cid u
               (\<lambda>b. bn_username b \<noteq> trim username \<or> bn_extra_params b \<noteq> params \<or> bn_secret_ref b \<noteq> secret)
               (\<lambda>b. b\<lparr>bn_username := trim username, bn_extra_params := params, bn_secret_ref := secret\<rparr>) now
               \<lparr>bn_connection_id = cid, bn_account_user_id = u, bn_username = trim username,
                bn_extra_params = params, bn_secret_ref = secret, bn_workspace_access = View_access,
                bn_allow_writes = False, bn_revision = 1, bn_updated_at = now\<rparr> db))))"

section \<open>Rows keyed by a connection\<close>

definition get_safety :: "env \<Rightarrow> uuid \<Rightarrow> store_db \<Rightarrow> safety_settings app_result" where
  "get_safety E cid db =
     rbind (get_connection E db cid) (\<lambda>_.
     Inr (case map_of (sx_safety db) cid of Some s \<Rightarrow> s | None \<Rightarrow> default_safety))"

definition set_safety :: "env \<Rightarrow> uuid \<Rightarrow> safety_settings \<Rightarrow> store_db \<Rightarrow> store_db app_result" where
  "set_safety E cid s db =
     rbind (get_connection E db cid) (\<lambda>_.
     Inr (if list_ex (\<lambda>(k, _). k = cid) (sx_safety db)
          then db\<lparr>sx_safety := map (\<lambda>(k, old). if k = cid then (k, s) else (k, old)) (sx_safety db)\<rparr>
          else db\<lparr>sx_safety := sx_safety db @ [(cid, s)]\<rparr>))"

definition insert_history_if_current :: "pinned_connection \<Rightarrow> history_entry \<Rightarrow> store_db \<Rightarrow> store_db app_result" where
  "insert_history_if_current pin h db =
     rbind (guard (hy_connection_id h \<noteq> pin_connection_id pin)
       (Config ''query history does not match its connection pin'')) (\<lambda>_.
     rbind (guard (\<not> is_pin_current db pin)
       (Blocked ''workspace scope changed before query history could be saved'')) (\<lambda>_.
     rbind (guard (list_ex (\<lambda>(_, old). hy_id old = hy_id h) (sx_history db))
       (Db ''error returned from database: (code: 1555) UNIQUE constraint failed: query_history.id'')) (\<lambda>_.
     Inr (db\<lparr>sx_history := sx_history db @ [(storage_key (pin_account_scope pin), h)]\<rparr>))))"

definition list_history :: "env \<Rightarrow> uuid \<Rightarrow> store_db \<Rightarrow> history_entry list app_result" where
  "list_history E cid db =
     rbind (get_connection E db cid) (\<lambda>_.
     rbind (active_local_scope db) (\<lambda>scope.
     Inr (rev (sort_key hy_executed_at (rev (map snd
       (filter (\<lambda>(s, h). hy_connection_id h = cid \<and> s = scope) (sx_history db))))))))"

definition get_history :: "env \<Rightarrow> uuid \<Rightarrow> store_db \<Rightarrow> history_entry app_result" where
  "get_history E hid db =
     rbind (active_workspace_id db) (\<lambda>wid.
     rbind (active_local_scope db) (\<lambda>scope.
     rbind (ok_or (find (\<lambda>(s, h). hy_id h = hid \<and> s = scope \<and>
         live_connection_row db wid (hy_connection_id h) \<noteq> None) (sx_history db))
       (NotFound (''query history '' @ uuid_to_string E hid))) (\<lambda>(_, h).
     Inr h)))"

record resolved_history =
  rh_history :: history_entry
  rh_scope :: active_resource_scope

text \<open>The stored scope of the join, which is absent when a team has no selected account.\<close>

definition resolve_history_for_dashboard_prepare ::
  "env \<Rightarrow> uuid \<Rightarrow> store_db \<Rightarrow> resolved_history app_result" where
  "resolve_history_for_dashboard_prepare E hid db =
     (let err = NotFound (''query history '' @ uuid_to_string E hid)
      in case (selected_workspace db, sx_generation db) of
           (Some w, Some raw) \<Rightarrow>
             rbind (ok_or (find (\<lambda>(s, h). hy_id h = hid \<and> stored_scope (ws_kind w) (sx_account db) = Some s \<and>
                 active_connection db (hy_connection_id h) \<noteq> None) (sx_history db)) err) (\<lambda>(_, h).
             rbind (row_to_active_resource_scope w (sx_account db) raw) (\<lambda>scope.
             Inr \<lparr>rh_history = h, rh_scope = scope\<rparr>))
         | _ \<Rightarrow> Inl err)"

definition dashboard_scope_changed :: app_error where
  "dashboard_scope_changed = Blocked ''workspace, connection, or dashboard changed; retry the operation''"

definition get_history_if_current ::
  "env \<Rightarrow> pinned_connection \<Rightarrow> resolved_history \<Rightarrow> store_db \<Rightarrow> history_entry app_result" where
  "get_history_if_current E pin resolved db =
     rbind (guard (rh_scope resolved \<noteq> pin_scope pin \<or>
         hy_connection_id (rh_history resolved) \<noteq> pin_connection_id pin) dashboard_scope_changed) (\<lambda>_.
     rbind (guard (\<not> is_pin_current_with_access db pin True) dashboard_scope_changed) (\<lambda>_.
     rbind (ok_or (find (\<lambda>(s, h). hy_id h = hy_id (rh_history resolved) \<and>
         hy_connection_id h = pin_connection_id pin \<and> s = storage_key (pin_account_scope pin) \<and>
         live_connection_row db (pin_workspace_id pin) (hy_connection_id h) \<noteq> None) (sx_history db))
       (NotFound (''query history '' @ uuid_to_string E (hy_id (rh_history resolved))))) (\<lambda>(_, h).
     Inr h)))"

definition clear_stored_schemas :: "env \<Rightarrow> uuid \<Rightarrow> store_db \<Rightarrow> store_db app_result" where
  "clear_stored_schemas E cid db =
     rbind (pin_connection_for_read E db cid) (\<lambda>pin.
     let scope = storage_key (pin_account_scope pin)
     in Inr (db\<lparr>
          sx_schema_cache := filter (\<lambda>(k, _). k \<noteq> (cid, scope)) (sx_schema_cache db),
          sx_catalogs := filter (\<lambda>g. \<not> (cg_workspace_id g = pin_workspace_id pin \<and>
            cg_account_scope g = scope \<and> cg_connection_id g = cid)) (sx_catalogs db)\<rparr>))"

end
