(* ===== verification/Store_Run.thy ===== *)
theory Store_Run
  imports Connection_Sync
begin

text \<open>
  Histories of the store: every operation that changes the scope or the connections of
  \<^verbatim>\<open>src/src-tauri/src/store/mod.rs\<close> as a call, and what holds after any sequence of them. Each
  operation is one transaction, so a history of committed calls is a sequence, and a call that
  fails leaves the tables as they were.
\<close>

section \<open>Calls\<close>

datatype store_call =
    Remember_account auth_user
  | Sync_workspaces "nat \<Rightarrow> uuid" auth_user "(uuid \<times> string \<times> workspace_role) list"
  | Activate_workspace uuid "string option"
  | Activate_account string
  | Remove_account string
  | Repair_scope
  | Put_connection connection_profile
  | Group_connections "uuid list" "string option"
  | Delete_connection uuid
  | Sync_connections uuid string "(connection_profile \<times> int) list"
  | Purge_connection uuid uuid
  | Bind_credentials uuid string string "(string \<times> string) list" "string option"
  | Put_safety uuid safety_settings
  | Put_history pinned_connection history_entry
  | Clear_schemas uuid

definition committed :: "('e + 'a) \<Rightarrow> ('a \<Rightarrow> store_db) \<Rightarrow> store_db \<Rightarrow> store_db" where
  "committed r f db = (case r of Inl _ \<Rightarrow> db | Inr x \<Rightarrow> f x)"

fun store_exec :: "env \<Rightarrow> string \<times> store_call \<Rightarrow> store_db \<Rightarrow> store_db" where
  "store_exec E (now, Remember_account user) db = remember_workspace_account user now db"
| "store_exec E (now, Sync_workspaces ids user workspaces) db =
     snd (sync_account_workspaces ids user workspaces now db)"
| "store_exec E (now, Activate_workspace wid acct) db =
     committed (activate_workspace E wid acct now db) snd db"
| "store_exec E (now, Activate_account u) db = committed (activate_workspace_account E u now db) snd db"
| "store_exec E (now, Remove_account u) db = committed (remove_workspace_account u now db) (\<lambda>x. x) db"
| "store_exec E (now, Repair_scope) db =
     committed (repair_active_scope_after_membership_change now db) fst db"
| "store_exec E (now, Put_connection p) db = committed (upsert_connection E p now db) snd db"
| "store_exec E (now, Group_connections ids g) db =
     committed (set_connections_schema_group E ids g now db) (\<lambda>x. x) db"
| "store_exec E (now, Delete_connection cid) db = committed (delete_connection E cid now db) (\<lambda>x. x) db"
| "store_exec E (now, Sync_connections wid u templates) db =
     committed (sync_remote_connections E wid u templates now db) snd db"
| "store_exec E (now, Purge_connection wid cid) db = purge_remote_connection_cache wid cid db"
| "store_exec E (now, Bind_credentials cid u username params secret) db =
     committed (bind_connection_credentials E cid u username params secret now db) snd db"
| "store_exec E (now, Put_safety cid s) db = committed (set_safety E cid s db) (\<lambda>x. x) db"
| "store_exec E (now, Put_history pin h) db = committed (insert_history_if_current pin h db) (\<lambda>x. x) db"
| "store_exec E (now, Clear_schemas cid) db = committed (clear_stored_schemas E cid db) (\<lambda>x. x) db"

definition store_run :: "env \<Rightarrow> (string \<times> store_call) list \<Rightarrow> store_db \<Rightarrow> store_db" where
  "store_run E calls db = fold (store_exec E) calls db"

text \<open>What the callers guarantee: accounts have identifiers and the clock prints a text.\<close>

fun store_call_ok :: "string \<times> store_call \<Rightarrow> bool" where
  "store_call_ok (now, Remember_account user) \<longleftrightarrow> now \<noteq> [] \<and> au_id user \<noteq> []"
| "store_call_ok (now, Sync_workspaces ids user workspaces) \<longleftrightarrow> now \<noteq> [] \<and> au_id user \<noteq> []"
| "store_call_ok (now, _) \<longleftrightarrow> now \<noteq> []"

lemma store_call_now: "store_call_ok (now, call) \<Longrightarrow> now \<noteq> []"
  by (cases call) auto

text \<open>The calls that work on connections.\<close>

fun connection_call :: "store_call \<Rightarrow> bool" where
  "connection_call (Remember_account _) = False"
| "connection_call (Sync_workspaces _ _ _) = False"
| "connection_call (Activate_workspace _ _) = False"
| "connection_call (Activate_account _) = False"
| "connection_call (Remove_account _) = False"
| "connection_call Repair_scope = False"
| "connection_call _ = True"

section \<open>Connections leave the scope alone\<close>

definition scope_part ::
  "store_db \<Rightarrow> workspace list \<times> member list \<times> account list \<times> uuid option \<times> string option \<times>
   string option" where
  "scope_part db = (sx_workspaces db, sx_members db, sx_accounts db, sx_active db, sx_account db,
     sx_generation db)"

lemma scope_ok_cong:
  assumes "scope_part db' = scope_part db"
  shows "scope_ok db' = scope_ok db"
  using assms
  by (simp add: scope_part_def scope_ok_def base_ok_def generation_is_def account_exists_def
      selection_valid_def active_workspace_row_def scope_visible_def member_active_def
      split: option.split)

lemma scope_part_update [simp]:
  "scope_part (enqueue_outbox wid resource rid op r db) = scope_part db"
  "scope_part (ensure_safety_row cid db) = scope_part db"
  "scope_part (set_safety_writes cid b db) = scope_part db"
  "scope_part (update_connection cid f db) = scope_part db"
  "scope_part (update_binding cid u ch g now fresh db) = scope_part db"
  "scope_part (drop_remote ids now db) = scope_part db"
  "scope_part (write_template wid p r now db) = scope_part db"
  "scope_part (purge_remote_connection_cache wid cid db) = scope_part db"
  by (simp_all add: scope_part_def enqueue_outbox_def ensure_safety_row_def set_safety_writes_def
      update_connection_def update_binding_def drop_remote_def write_template_def
      purge_remote_connection_cache_def forget_connection_def split: option.split)

lemma scope_part_sync_template [simp]: "scope_part (sync_template wid u now t db) = scope_part db"
  by (cases t) (simp add: sync_template_def grant_access_def)

lemma scope_part_fold_templates [simp]:
  "scope_part (fold (sync_template wid u now) templates db) = scope_part db"
  by (induction templates arbitrary: db) simp_all

lemma touch_live_row_scope:
  "touch_live_row E wid cid now f op db = Inr db' \<Longrightarrow> scope_part db' = scope_part db"
  by (auto simp: touch_live_row_def rbind_eq_Inr)

lemma set_groups_scope: "set_groups E wid g now ids db = Inr db' \<Longrightarrow> scope_part db' = scope_part db"
  by (induction E wid g now ids db rule: set_groups.induct)
    (auto simp: rbind_eq_Inr dest: touch_live_row_scope)

lemma write_local_row_scope:
  "write_local_row E p wid owner now db = Inr (r, db') \<Longrightarrow> scope_part db' = scope_part db"
  by (auto simp: write_local_row_def scope_part_def update_connection_def split: option.splits if_splits)

lemma connection_call_scope:
  assumes "connection_call call"
  shows "scope_part (store_exec E (now, call) db) = scope_part db"
proof (cases call)
  case (Put_connection p)
  then show ?thesis
    by (auto simp: committed_def upsert_connection_def rbind_eq_Inr split: sum.split
        dest!: write_local_row_scope)
next
  case (Group_connections ids g)
  then show ?thesis
    by (auto simp: committed_def set_connections_schema_group_def rbind_eq_Inr split: sum.split
        dest: set_groups_scope)
next
  case (Delete_connection cid)
  then show ?thesis
    by (auto simp: committed_def delete_connection_def rbind_eq_Inr split: sum.split
        dest: touch_live_row_scope)
next
  case (Sync_connections wid u templates)
  then show ?thesis
    by (auto simp: committed_def sync_remote_connections_def Let_def rbind_eq_Inr split: sum.split)
next
  case (Bind_credentials cid u username params secret)
  then show ?thesis
    by (auto simp: committed_def bind_connection_credentials_def Let_def rbind_eq_Inr split: sum.split)
next
  case (Put_safety cid s)
  then show ?thesis
    by (auto simp: committed_def set_safety_def rbind_eq_Inr scope_part_def split: sum.split)
next
  case (Put_history pin h)
  then show ?thesis
    by (auto simp: committed_def insert_history_if_current_def rbind_eq_Inr scope_part_def split: sum.split)
next
  case (Clear_schemas cid)
  then show ?thesis
    by (auto simp: committed_def clear_stored_schemas_def Let_def rbind_eq_Inr scope_part_def split: sum.split)
qed (use assms in simp_all)

section \<open>The selection never dangles\<close>

lemma store_exec_scope_ok:
  assumes "scope_ok db" "store_call_ok (now, call)"
  shows "scope_ok (store_exec E (now, call) db)"
proof -
  have base: "base_ok db" using assms(1) by (simp add: scope_ok_def)
  show ?thesis
  proof (cases call)
    case (Remember_account user)
    then show ?thesis using assms remember_scope_ok by simp
  next
    case (Sync_workspaces ids user workspaces)
    then show ?thesis using assms sync_scope_ok by simp
  next
    case (Activate_workspace wid acct)
    then show ?thesis
      using assms(1) activate_scope_ok(1) [OF base] by (auto simp: committed_def split: sum.split)
  next
    case (Activate_account u)
    then show ?thesis
      using assms(1) activate_scope_ok(1) [OF base]
      by (auto simp: committed_def activate_workspace_account_def split: sum.split)
  next
    case (Remove_account u)
    then show ?thesis
      using assms(1) remove_scope_ok [OF assms(1)] by (auto simp: committed_def split: sum.split)
  next
    case Repair_scope
    then show ?thesis
      using assms(1) repair_scope_ok [OF base] by (auto simp: committed_def split: sum.split)
  qed (use assms(1) scope_ok_cong [OF connection_call_scope, of call E now db] in
      \<open>simp_all del: store_exec.simps\<close>)
qed

lemma store_run_scope_ok: "scope_ok db \<Longrightarrow> list_all store_call_ok calls \<Longrightarrow> scope_ok (store_run E calls db)"
proof (induction calls arbitrary: db)
  case (Cons c calls)
  obtain now call where "c = (now, call)" by (cases c)
  then show ?case
    using Cons store_exec_scope_ok [of db now call E] by (simp add: store_run_def)
qed (simp add: store_run_def)

section \<open>The generation names the selection\<close>

text \<open>Each call keeps the selection and its generation, or raises the generation by one.\<close>

definition selection :: "store_db \<Rightarrow> uuid option \<times> string option \<times> string option" where
  "selection db = (sx_active db, sx_account db, sx_generation db)"

definition advances :: "store_db \<Rightarrow> store_db \<Rightarrow> bool" where
  "advances db db' \<longleftrightarrow> selection db' = selection db \<or>
     (\<exists>g. generation_is db g \<and> generation_is db' (g + 1))"

lemma bump_advances:
  assumes "base_ok db" "sx_generation db1 = sx_generation db" "bump_active_scope_generation db1 = Inr db'"
  shows "advances db db'"
proof -
  obtain g where "generation_is db g" using assms(1) by (auto simp: base_ok_def)
  then show ?thesis
    using bump_generation(2) [OF _ assms(3), of g] assms(2) by (auto simp: advances_def generation_is_def)
qed

lemma repair_advances:
  assumes "base_ok db" "sx_generation db0 = sx_generation db" "sx_active db0 = sx_active db"
    and "sx_account db0 = sx_account db"
    and "repair_active_scope_after_membership_change now db0 = Inr (db', changed)"
  shows "advances db db'"
proof -
  have gen: "sx_generation (drop_unknown_account db0) = sx_generation db"
    "sx_generation (select_fallback now (drop_unknown_account db0)) = sx_generation db"
    using assms(2) by (auto simp: drop_unknown_account_def select_fallback_def Let_def split: option.split)
  have keep: "sx_active (drop_unknown_account db0) = sx_active db0"
    by (simp add: drop_unknown_account_def split: option.split)
  show ?thesis
    using assms(5) bump_advances [OF assms(1)] gen keep assms(2-4)
    by (auto simp: repair_active_scope_after_membership_change_def Let_def rbind_eq_Inr ok_or_def
        advances_def selection_def split: option.splits if_splits)
qed

lemma remove_advances:
  assumes "base_ok db" "remove_workspace_account u now db = Inr db'"
  shows "advances db db'"
proof -
  let ?db1 = "archive_orphans now (db\<lparr>sx_members := filter (\<lambda>m. mb_user_id m \<noteq> Some u) (sx_members db),
      sx_accounts := filter (\<lambda>a. ac_user_id a \<noteq> u) (sx_accounts db)\<rparr>)"
  have keep: "advances db ?db1" by (simp add: advances_def selection_def)
  have gen: "sx_generation (set_active wid (?db1\<lparr>sx_account := x\<rparr>)) = sx_generation db" for wid x
    by (simp add: set_active_def)
  show ?thesis
    using assms(2) keep bump_advances [OF assms(1) gen]
    by (auto simp: remove_workspace_account_def Let_def split: if_splits option.splits)
qed

lemma upsert_memberships_selection:
  "selection (upsert_memberships ids k user workspaces now db) = selection db"
proof (induction ids k user workspaces now db rule: upsert_memberships.induct)
  case (2 ids k user wid name role rest now db)
  have "selection (upsert_workspace wid name now d) = selection d"
    and "selection (upsert_member mid wid user role now d) = selection d" for mid d
    by (auto simp: upsert_workspace_def upsert_member_def Let_def selection_def)
  then show ?case using 2 by simp
qed simp

lemma sync_advances:
  assumes "scope_ok db" "au_id user \<noteq> []"
  shows "advances db (snd (sync_account_workspaces ids user workspaces now db))"
proof -
  let ?db0 = "remember_workspace_account user now db"
  have same: "advances db db" "advances db ?db0" by (simp_all add: advances_def selection_def)
  have tx: "advances db db'" if tx: "sync_tx ids user workspaces now ?db0 = Inr db'" for db'
  proof -
    let ?db1 = "upsert_memberships ids 0 user workspaces now (archive_memberships (au_id user) ?db0)"
    let ?db2 = "claim_credentials (au_id user) now (claim_connections (au_id user) ?db1)"
    obtain db3 changed where db3: "claim_artifacts (au_id user) ?db2 = Inr db3"
      and repair: "repair_active_scope_after_membership_change now
        (forget_last_workspace (au_id user) (archive_orphans now db3)) = Inr (db', changed)"
      using tx by (auto simp: sync_tx_def Let_def rbind_eq_Inr)
    have "selection (forget_last_workspace (au_id user) (archive_orphans now db3)) = selection db"
      using db3 upsert_memberships_selection [of ids 0 user workspaces now "archive_memberships (au_id user) ?db0"]
      by (auto simp: claim_artifacts_def claim_credentials_def claim_connections_def Let_def
          rbind_eq_Inr selection_def forget_last_workspace_def archive_memberships_def)
    then show ?thesis
      using repair_advances [OF _ _ _ _ repair, of db] assms(1) by (simp add: selection_def scope_ok_def)
  qed
  show ?thesis
    using same tx by (auto simp: sync_account_workspaces_def Let_def split: sum.split)
qed

lemma activate_advances:
  assumes "base_ok db" "activate_workspace E wid acct now db = Inr (w, db')"
  shows "advances db db'"
  using assms(2)
  by (auto simp: activate_workspace_def Let_def rbind_eq_Inr split: option.splits
      intro: bump_advances [OF assms(1), rotated])

lemma store_exec_advances:
  assumes "scope_ok db" "store_call_ok (now, call)"
  shows "advances db (store_exec E (now, call) db)"
proof -
  have base: "base_ok db" using assms(1) by (simp add: scope_ok_def)
  have same: "advances db db" by (simp add: advances_def)
  show ?thesis
  proof (cases call)
    case (Remember_account user)
    then show ?thesis by (simp add: advances_def selection_def)
  next
    case (Sync_workspaces ids user workspaces)
    then show ?thesis using assms sync_advances by simp
  next
    case (Activate_workspace wid acct)
    then show ?thesis
      using same activate_advances [OF base] by (auto simp: committed_def split: sum.split)
  next
    case (Activate_account u)
    then show ?thesis
      using same activate_advances [OF base]
      by (auto simp: committed_def activate_workspace_account_def split: sum.split)
  next
    case (Remove_account u)
    then show ?thesis
      using same remove_advances [OF base] by (auto simp: committed_def split: sum.split)
  next
    case Repair_scope
    then show ?thesis
      using same repair_advances [OF base refl refl refl] by (auto simp: committed_def split: sum.split)
  qed (use connection_call_scope [of call E now db] in
      \<open>simp_all add: advances_def selection_def scope_part_def del: store_exec.simps\<close>)
qed

lemma generation_is_unique: "generation_is db g \<Longrightarrow> generation_is db g' \<Longrightarrow> g = g'"
  by (simp add: generation_is_def dec_int_inject)

lemma store_run_advances:
  assumes "scope_ok db" "list_all store_call_ok calls" "generation_is db g"
  shows "\<exists>g'. generation_is (store_run E calls db) g' \<and> g \<le> g' \<and>
    (g' = g \<longrightarrow> selection (store_run E calls db) = selection db)"
  using assms
proof (induction calls arbitrary: db g)
  case Nil
  then show ?case by (auto simp: store_run_def)
next
  case (Cons c calls)
  obtain now call where c: "c = (now, call)" by (cases c)
  let ?db1 = "store_exec E c db"
  have ok: "scope_ok ?db1" using Cons.prems c store_exec_scope_ok by simp
  have "advances db ?db1" using Cons.prems c store_exec_advances by simp
  then obtain g1 where g1: "generation_is ?db1 g1" "g \<le> g1" "g1 = g \<Longrightarrow> selection ?db1 = selection db"
  proof (unfold advances_def, elim disjE exE conjE)
    assume "selection ?db1 = selection db"
    then show thesis
      using that [of g] Cons.prems(3) by (simp add: selection_def generation_is_def)
  next
    fix g0
    assume "generation_is db g0" "generation_is ?db1 (g0 + 1)"
    then show thesis using that [of "g0 + 1"] generation_is_unique [OF Cons.prems(3)] by auto
  qed
  obtain g2 where "generation_is (store_run E calls ?db1) g2" "g1 \<le> g2"
    "g2 = g1 \<Longrightarrow> selection (store_run E calls ?db1) = selection ?db1"
    using Cons.IH [OF ok _ g1(1)] Cons.prems(2) by auto
  then show ?case using g1 by (intro exI [of _ g2]) (auto simp: store_run_def)
qed

text \<open>Workspaces keep their kind: rows are added, and none changes its identifier or kind.\<close>

definition ws_kinds :: "store_db \<Rightarrow> (uuid \<times> workspace_kind) list" where
  "ws_kinds db = map (\<lambda>w. (ws_id w, ws_kind w)) (sx_workspaces db)"

lemma ws_kinds_map:
  "(\<And>w. ws_id (f w) = ws_id w \<and> ws_kind (f w) = ws_kind w) \<Longrightarrow>
   sx_workspaces db' = map f (sx_workspaces db) \<Longrightarrow> ws_kinds db' = ws_kinds db"
  by (simp add: ws_kinds_def)

lemma upsert_workspace_kinds: "prefix (ws_kinds db) (ws_kinds (upsert_workspace wid name now db))"
proof (cases "list_ex (\<lambda>w. ws_id w = wid) (sx_workspaces db)")
  case True
  have "ws_kinds (upsert_workspace wid name now db) = ws_kinds db"
    by (rule ws_kinds_map [where f = "\<lambda>w. if ws_id w = wid \<and> ws_kind w = Team_workspace
          then w\<lparr>ws_name := name, ws_lifecycle := Ws_active, ws_updated_at := now\<rparr> else w"])
      (use True in \<open>simp_all add: upsert_workspace_def\<close>)
  then show ?thesis by simp
qed (simp add: upsert_workspace_def ws_kinds_def)

lemma archive_orphans_kinds: "ws_kinds (archive_orphans now db) = ws_kinds db"
  by (rule ws_kinds_map [where f = "\<lambda>w. if ws_kind w = Team_workspace \<and> \<not> has_active_member db (ws_id w)
     then w\<lparr>ws_lifecycle := Ws_archived, ws_updated_at := now\<rparr> else w"]) (simp_all add: archive_orphans_def)

lemma upsert_memberships_kinds:
  "prefix (ws_kinds db) (ws_kinds (upsert_memberships ids k user workspaces now db))"
proof (induction ids k user workspaces now db rule: upsert_memberships.induct)
  case (2 ids k user wid name role rest now db)
  have "ws_kinds (upsert_member (ids k) wid user role now d) = ws_kinds d" for d
    by (simp add: ws_kinds_def upsert_member_def Let_def)
  then show ?case using 2 upsert_workspace_kinds prefix_order.trans by fastforce
qed simp

lemma repair_workspaces:
  "repair_active_scope_after_membership_change now db = Inr (db', changed) \<Longrightarrow>
   sx_workspaces db' = sx_workspaces db"
  by (auto simp: repair_active_scope_after_membership_change_def Let_def rbind_eq_Inr ok_or_def
      bump_active_scope_generation_def drop_unknown_account_def select_fallback_def
      split: option.splits if_splits)

lemma sync_tx_kinds:
  assumes "sync_tx ids user workspaces now db = Inr db'"
  shows "prefix (ws_kinds db) (ws_kinds db')"
proof -
  let ?db0 = "archive_memberships (au_id user) db"
  let ?db1 = "upsert_memberships ids 0 user workspaces now ?db0"
  obtain db3 changed where db3: "claim_artifacts (au_id user)
      (claim_credentials (au_id user) now (claim_connections (au_id user) ?db1)) = Inr db3"
    and repair: "repair_active_scope_after_membership_change now
      (forget_last_workspace (au_id user) (archive_orphans now db3)) = Inr (db', changed)"
    using assms by (auto simp: sync_tx_def Let_def rbind_eq_Inr)
  have "sx_workspaces db3 = sx_workspaces ?db1"
    using db3 by (auto simp: claim_artifacts_def claim_credentials_def claim_connections_def Let_def rbind_eq_Inr)
  then have "ws_kinds db' = ws_kinds ?db1"
    using repair_workspaces [OF repair] archive_orphans_kinds [of now db3]
    by (simp add: ws_kinds_def forget_last_workspace_def)
  moreover have "ws_kinds ?db0 = ws_kinds db" by (simp add: ws_kinds_def archive_memberships_def)
  ultimately show ?thesis using upsert_memberships_kinds [of ?db0] by metis
qed

lemma bump_workspaces:
  "bump_active_scope_generation db = Inr db' \<Longrightarrow> sx_workspaces db' = sx_workspaces db"
  by (auto simp: bump_active_scope_generation_def rbind_eq_Inr)

lemma activate_workspaces:
  "activate_workspace E wid acct now db = Inr (w, db') \<Longrightarrow> sx_workspaces db' = sx_workspaces db"
  by (auto simp: activate_workspace_def Let_def rbind_eq_Inr split: option.splits dest!: bump_workspaces)

lemma remove_workspaces:
  assumes "remove_workspace_account u now db = Inr db'"
  shows "ws_kinds db' = ws_kinds db"
proof -
  define db1 where "db1 = archive_orphans now (db\<lparr>sx_members := filter (\<lambda>m. mb_user_id m \<noteq> Some u) (sx_members db),
      sx_accounts := filter (\<lambda>a. ac_user_id a \<noteq> u) (sx_accounts db)\<rparr>)"
  define db2 where "db2 = (case most_recent_account db1 of
      Some a \<Rightarrow> set_active (preferred_or_personal db1 (ac_user_id a)) (db1\<lparr>sx_account := Some (ac_user_id a)\<rparr>)
    | None \<Rightarrow> set_active personal_workspace_id (db1\<lparr>sx_account := None\<rparr>))"
  have "ws_kinds db1 = ws_kinds db"
    unfolding db1_def archive_orphans_kinds by (simp add: ws_kinds_def)
  moreover have "sx_workspaces db2 = sx_workspaces db1"
    by (simp add: db2_def set_active_def split: option.split)
  moreover have "bump_active_scope_generation db2 = Inr db' \<or> db' = db1"
    using assms by (auto simp: remove_workspace_account_def Let_def db1_def [symmetric] db2_def [symmetric]
        split: if_splits)
  ultimately show ?thesis using bump_workspaces [of db2 db'] by (auto simp: ws_kinds_def)
qed

lemma store_exec_kinds: "prefix (ws_kinds db) (ws_kinds (store_exec E (now, call) db))"
proof (cases call)
  case (Sync_workspaces ids user workspaces)
  have "ws_kinds (remember_workspace_account user now db) = ws_kinds db" by (simp add: ws_kinds_def)
  then show ?thesis
    using Sync_workspaces sync_tx_kinds [of ids user workspaces now "remember_workspace_account user now db"]
    by (auto simp: sync_account_workspaces_def Let_def split: sum.split)
next
  case (Activate_workspace wid acct)
  then show ?thesis
    by (auto simp: committed_def ws_kinds_def split: sum.split dest: activate_workspaces)
next
  case (Activate_account u)
  then show ?thesis
    by (auto simp: committed_def activate_workspace_account_def ws_kinds_def split: sum.split
        dest: activate_workspaces)
next
  case (Remove_account u)
  then show ?thesis
    by (auto simp: committed_def split: sum.split dest: remove_workspaces)
next
  case Repair_scope
  then show ?thesis
    by (auto simp: committed_def ws_kinds_def split: sum.split dest: repair_workspaces)
qed (use connection_call_scope [of call E now db] in
    \<open>simp_all add: ws_kinds_def scope_part_def del: store_exec.simps\<close>,
    simp_all add: ws_kinds_def)

lemma store_run_kinds: "prefix (ws_kinds db) (ws_kinds (store_run E calls db))"
proof (induction calls arbitrary: db)
  case (Cons c calls)
  then show ?case
    using store_exec_kinds [of db E "fst c" "snd c"] prefix_order.trans by (fastforce simp: store_run_def)
qed (simp add: store_run_def)

end
