(* ===== verification/Connection_Pins.thy ===== *)
theory Connection_Pins
  imports Store_Run
begin

text \<open>
  What a retained pin of a connection is worth, \<^verbatim>\<open>src/src-tauri/src/store/mod.rs\<close>: the
  invariant of the connection tables, how a local profile evolves, and the properties of the
  scope, the pins and the account-local rows over every history of the store.
\<close>

section \<open>The invariant of the connection tables\<close>

definition row_ok :: "connection_row \<Rightarrow> bool" where
  "row_ok c \<longleftrightarrow>
     (if cr_remote_id c = None
      then cp_workspace_access (cr_profile c) = Local_access \<and>
           cp_credential_mode (cr_profile c) = Local_credential \<and> 1 \<le> cr_revision c
      else cp_workspace_access (cr_profile c) \<noteq> Local_access \<and>
           cp_credential_mode (cr_profile c) \<noteq> Local_credential)"

definition binding_ok :: "binding_row \<Rightarrow> bool" where
  "binding_ok b \<longleftrightarrow> bn_workspace_access b \<noteq> Local_access \<and> 1 \<le> bn_revision b \<and> bn_updated_at b \<noteq> []"

definition conn_ok :: "store_db \<Rightarrow> bool" where
  "conn_ok db \<longleftrightarrow> distinct (map cr_id (sx_connections db)) \<and>
     (\<forall>c \<in> set (sx_connections db). row_ok c) \<and> (\<forall>b \<in> set (sx_bindings db). binding_ok b)"

definition conn_row :: "store_db \<Rightarrow> uuid \<Rightarrow> connection_row option" where
  "conn_row db cid = find (\<lambda>c. cr_id c = cid) (sx_connections db)"

lemma conn_row_Some: "conn_row db cid = Some c \<Longrightarrow> c \<in> set (sx_connections db) \<and> cr_id c = cid"
  by (auto simp: conn_row_def dest: find_Some_set)

lemma conn_row_eq:
  assumes "conn_ok db"
  shows "conn_row db cid = Some c \<longleftrightarrow> c \<in> set (sx_connections db) \<and> cr_id c = cid"
proof
  assume c: "c \<in> set (sx_connections db) \<and> cr_id c = cid"
  then obtain c' where c': "conn_row db cid = Some c'"
    by (cases "conn_row db cid") (auto simp: conn_row_def find_None_iff)
  then have "c' = c"
    using c conn_row_Some [OF c'] assms by (auto simp: conn_ok_def distinct_map inj_on_def)
  with c' show "conn_row db cid = Some c" by simp
qed (rule conn_row_Some)

lemma conn_row_unique:
  assumes "conn_ok db" "conn_row db cid = Some c" "c' \<in> set (sx_connections db)" "cr_id c' = cid"
  shows "c' = c"
  using conn_row_eq [OF assms(1), THEN iffD2, of c' cid] assms(2-4) by simp

lemma live_connection_row_iff:
  assumes "conn_ok db"
  shows "live_connection_row db wid cid = Some c \<longleftrightarrow> conn_row db cid = Some c \<and> live_in_workspace wid c"
proof
  assume "live_connection_row db wid cid = Some c"
  then have "c \<in> set (sx_connections db) \<and> cr_id c = cid \<and> live_in_workspace wid c"
    unfolding live_connection_row_def by (auto dest: find_Some_set)
  then show "conn_row db cid = Some c \<and> live_in_workspace wid c" using conn_row_eq [OF assms] by simp
next
  assume c: "conn_row db cid = Some c \<and> live_in_workspace wid c"
  then obtain c' where c': "live_connection_row db wid cid = Some c'"
    using conn_row_Some [of db cid c]
    by (cases "live_connection_row db wid cid") (auto simp: live_connection_row_def find_None_iff)
  then have "c' \<in> set (sx_connections db) \<and> cr_id c' = cid"
    unfolding live_connection_row_def by (auto dest: find_Some_set)
  then have "conn_row db cid = Some c'" using conn_row_eq [OF assms] by blast
  then show "live_connection_row db wid cid = Some c" using c c' by simp
qed

text \<open>The shapes of an update.\<close>

lemma conn_ok_map:
  assumes "conn_ok db" "sx_connections db' = map f (sx_connections db)"
    and "\<And>c. cr_id (f c) = cr_id c" "\<And>c. c \<in> set (sx_connections db) \<Longrightarrow> row_ok c \<Longrightarrow> row_ok (f c)"
    and "\<forall>b \<in> set (sx_bindings db'). binding_ok b"
  shows "conn_ok db'"
proof -
  have ids: "map cr_id (sx_connections db') = map cr_id (sx_connections db)" using assms(2,3) by simp
  have rows: "\<forall>c \<in> set (sx_connections db'). row_ok c" using assms(1,2,4) by (auto simp: conn_ok_def)
  show ?thesis unfolding conn_ok_def ids using assms(1,5) rows by (simp add: conn_ok_def)
qed

lemma conn_ok_append:
  assumes "conn_ok db" "sx_connections db' = sx_connections db @ [c]"
    and "conn_row db (cr_id c) = None" "row_ok c" "\<forall>b \<in> set (sx_bindings db'). binding_ok b"
  shows "conn_ok db'"
  using assms by (auto simp: conn_ok_def conn_row_def find_None_iff)

lemma conn_ok_cong:
  assumes "conn_ok db" "sx_connections db' = sx_connections db" "sx_bindings db' = sx_bindings db"
  shows "conn_ok db'"
  using assms by (simp add: conn_ok_def)

lemma conn_ok_bindings:
  assumes "conn_ok db" "sx_connections db' = sx_connections db" "\<forall>b \<in> set (sx_bindings db'). binding_ok b"
  shows "conn_ok db'"
  using assms by (simp add: conn_ok_def)

lemma update_binding_ok:
  assumes "\<forall>b \<in> set (sx_bindings db). binding_ok b" "binding_ok fresh" "now \<noteq> []"
    and "\<And>b. binding_ok b \<Longrightarrow> bn_workspace_access (f b) \<noteq> Local_access"
  shows "\<forall>b \<in> set (sx_bindings (update_binding cid u ch f now fresh db)). binding_ok b"
  using assms by (auto simp: update_binding_def binding_ok_def)

lemma remote_checks_templates:
  assumes "remote_checks E wid u templates db = Inr ()"
  shows "\<forall>(p, r) \<in> set templates. cp_workspace_access p \<noteq> Local_access \<and> cp_credential_mode p \<noteq> Local_credential"
proof -
  have "r = Inr () \<and> (\<forall>t \<in> set ts. cp_workspace_access (fst t) \<noteq> Local_access \<and>
      cp_credential_mode (fst t) \<noteq> Local_credential)"
    if "fold (\<lambda>(p, _) r. rbind r (\<lambda>_.
       rbind (guard (cp_workspace_access p = Local_access \<or> cp_credential_mode p = Local_credential) e)
         (\<lambda>_. g p))) ts r = Inr ()"
    for r :: "unit app_result" and e and g :: "connection_profile \<Rightarrow> unit app_result" and ts :: "(connection_profile \<times> int) list"
    using that
  proof (induction ts arbitrary: r)
    case (Cons t ts)
    then show ?case by (cases t) (fastforce simp: rbind_eq_Inr)
  qed simp
  then show ?thesis using assms by (fastforce simp: remote_checks_def rbind_eq_Inr)
qed

lemma update_binding_conns [simp]:
  "sx_connections (update_binding cid u ch f now fresh db) = sx_connections db"
  by (simp add: update_binding_def)

lemma sync_template_ok:
  assumes "conn_ok db" "now \<noteq> []" "cp_workspace_access p \<noteq> Local_access" "cp_credential_mode p \<noteq> Local_credential"
  shows "conn_ok (sync_template wid u now (p, r) db)"
proof -
  let ?db1 = "write_template wid p r now db"
  let ?db2 = "set_safety_writes (cp_id p) (template_writes p) (ensure_safety_row (cp_id p) ?db1)"
  have one: "conn_ok ?db1"
  proof (cases "find (\<lambda>c. cr_id c = cp_id p) (sx_connections db)")
    case None
    let ?row = "\<lparr>cr_profile = redacted p, cr_workspace_id = wid, cr_account_user_id = None,
            cr_remote_id = Some (cp_id p), cr_revision = r, cr_sync_status = ''synced'',
            cr_deleted_at = None, cr_created_at = now, cr_updated_at = now\<rparr>"
    show ?thesis
      by (rule conn_ok_append [OF assms(1), where c = ?row])
        (use None assms in \<open>simp_all add: write_template_def conn_row_def row_ok_def redacted_def cr_id_def conn_ok_def\<close>)
  next
    case (Some c)
    let ?f = "\<lambda>c. if cr_id c = cp_id p then if cr_workspace_id c = wid
          then c\<lparr>cr_profile := template_over p (cr_profile c), cr_remote_id := Some (cp_id p),
                 cr_revision := r, cr_sync_status := ''synced'', cr_deleted_at := None,
                 cr_updated_at := now\<rparr> else c else c"
    show ?thesis
      by (rule conn_ok_map [OF assms(1), where f = ?f])
        (use Some assms in \<open>simp_all add: write_template_def update_connection_def template_over_def
          row_ok_def cr_id_def conn_ok_def\<close>)
  qed
  have two: "conn_ok ?db2"
    by (rule conn_ok_cong [OF one]) (simp_all add: set_safety_writes_def ensure_safety_row_def)
  show ?thesis
    unfolding sync_template_def split_conv grant_access_def
  proof (rule conn_ok_bindings [OF two update_binding_conns], rule update_binding_ok)
    show "\<forall>b \<in> set (sx_bindings ?db2). binding_ok b" using two by (simp add: conn_ok_def)
  qed (use assms in \<open>simp_all add: binding_ok_def\<close>)
qed

lemma fold_templates_ok:
  assumes "conn_ok db" "now \<noteq> []"
    and "\<forall>(p, r) \<in> set templates. cp_workspace_access p \<noteq> Local_access \<and> cp_credential_mode p \<noteq> Local_credential"
  shows "conn_ok (fold (sync_template wid u now) templates db)"
  using assms
proof (induction templates arbitrary: db)
  case (Cons t templates)
  obtain p r where t: "t = (p, r)" by (cases t)
  then have "conn_ok (sync_template wid u now t db)" using Cons.prems sync_template_ok by simp
  then show ?case using Cons t by simp
qed simp

lemma drop_remote_ok: "conn_ok db \<Longrightarrow> conn_ok (drop_remote ids now db)"
  by (rule conn_ok_map [where f = "\<lambda>c. if cr_id c \<in> set ids
       then c\<lparr>cr_deleted_at := Some now, cr_updated_at := now\<rparr> else c"])
    (auto simp: drop_remote_def conn_ok_def row_ok_def cr_id_def)

lemma touch_live_row_ok:
  assumes "conn_ok db" "touch_live_row E wid cid now f op db = Inr db'"
    and "\<And>c. cr_id (f c) = cr_id c \<and> cr_remote_id (f c) = cr_remote_id c \<and>
      cp_workspace_access (cr_profile (f c)) = cp_workspace_access (cr_profile c) \<and>
      cp_credential_mode (cr_profile (f c)) = cp_credential_mode (cr_profile c)"
  shows "conn_ok db'"
proof -
  let ?f = "\<lambda>c. if cr_id c = cid then (f c)\<lparr>cr_updated_at := now, cr_revision := cr_revision c + 1,
      cr_sync_status := ''dirty''\<rparr> else c"
  have "sx_connections db' = map ?f (sx_connections db)" "sx_bindings db' = sx_bindings db"
    using assms(2) by (auto simp: touch_live_row_def rbind_eq_Inr enqueue_outbox_def update_connection_def)
  then show ?thesis
    by (intro conn_ok_map [OF assms(1), where f = ?f])
      (use assms(1,3) in \<open>auto simp: row_ok_def conn_ok_def cr_id_def\<close>)
qed

lemma set_groups_ok: "conn_ok db \<Longrightarrow> set_groups E wid g now ids db = Inr db' \<Longrightarrow> conn_ok db'"
proof (induction E wid g now ids db rule: set_groups.induct)
  case (2 E wid g now cid ids db)
  then obtain db1 where db1: "touch_live_row E wid cid now (set_schema_group g) ''upsert'' db = Inr db1"
    "set_groups E wid g now ids db1 = Inr db'" by (auto simp: rbind_eq_Inr)
  have "conn_ok db1"
    by (rule touch_live_row_ok [OF "2.prems"(1) db1(1)]) (simp add: set_schema_group_def cr_id_def)
  then show ?case using "2.IH" db1 by blast
qed simp

lemma write_local_row_ok:
  assumes "conn_ok db" "write_local_row E p wid owner now db = Inr (r, db')"
    and "cp_workspace_access p = Local_access" "cp_credential_mode p = Local_credential"
  shows "conn_ok db'"
proof (cases "find (\<lambda>c. cr_id c = cp_id p) (sx_connections db)")
  case None
  let ?row = "\<lparr>cr_profile = p, cr_workspace_id = wid, cr_account_user_id = owner, cr_remote_id = None,
            cr_revision = 1, cr_sync_status = ''dirty'', cr_deleted_at = None, cr_created_at = now,
            cr_updated_at = now\<rparr>"
  show ?thesis
  proof (rule conn_ok_append [OF assms(1), where c = ?row])
    show "sx_connections db' = sx_connections db @ [?row]"
      using assms(2) None by (auto simp: write_local_row_def)
    have "sx_bindings db' = sx_bindings db" using assms(2) None by (auto simp: write_local_row_def)
    then show "\<forall>b \<in> set (sx_bindings db'). binding_ok b" using assms(1) by (simp add: conn_ok_def)
  qed (use None assms(3,4) in \<open>simp_all add: conn_row_def row_ok_def cr_id_def\<close>)
next
  case (Some c)
  let ?f = "\<lambda>c. if cr_id c = cp_id p then c\<lparr>cr_profile := p,
            cr_revision := cr_revision c + 1, cr_sync_status := ''dirty'', cr_deleted_at := None,
            cr_updated_at := now\<rparr> else c"
  have remote: "cr_remote_id c = None"
    and db': "db' = update_connection (cp_id p) (\<lambda>c. c\<lparr>cr_profile := p, cr_revision := cr_revision c + 1,
      cr_sync_status := ''dirty'', cr_deleted_at := None, cr_updated_at := now\<rparr>) db"
    using assms(2) Some by (simp_all add: write_local_row_def split: if_splits)
  have only: "c' = c" if "c' \<in> set (sx_connections db)" "cr_id c' = cp_id p" for c'
    using conn_row_unique [OF assms(1) _ that] Some by (simp add: conn_row_def)
  show ?thesis
  proof (rule conn_ok_map [OF assms(1), where f = ?f])
    fix c' assume "c' \<in> set (sx_connections db)" "row_ok c'"
    then show "row_ok (?f c')" using only [of c'] remote assms(3,4) by (auto simp: row_ok_def)
  qed (use assms(1) in \<open>simp_all add: db' update_connection_def cr_id_def conn_ok_def\<close>)
qed

lemma claim_ok:
  assumes "conn_ok db" "now \<noteq> []" "claim_artifacts u (claim_credentials v now (claim_connections w db)) = Inr db'"
  shows "conn_ok db'"
proof -
  let ?db1 = "claim_connections w db" let ?db2 = "claim_credentials v now ?db1"
  have one: "conn_ok ?db1"
    by (rule conn_ok_map [OF assms(1), where f = "\<lambda>c. if cr_remote_id c = None \<and> cr_account_user_id c = None \<and>
        member_active db (cr_workspace_id c) w then c\<lparr>cr_account_user_id := Some w\<rparr> else c"])
      (use assms(1) in \<open>simp_all add: claim_connections_def row_ok_def cr_id_def conn_ok_def\<close>)
  have two: "conn_ok ?db2"
    by (rule conn_ok_map [OF one, where f = "\<lambda>c. if cr_remote_id c \<noteq> None \<and>
        member_active ?db1 (cr_workspace_id c) v \<and> holds_credentials c
        then c\<lparr>cr_profile := (cr_profile c)\<lparr>cp_username := [], cp_extra_params := [], cp_secret_ref := None\<rparr>\<rparr> else c"])
      (use one assms(2) in \<open>auto simp: claim_credentials_def row_ok_def cr_id_def conn_ok_def binding_ok_def Let_def\<close>)
  show ?thesis
    by (rule conn_ok_cong [OF two]) (use assms(3) in \<open>auto simp: claim_artifacts_def Let_def rbind_eq_Inr\<close>)
qed

section \<open>Every call keeps the invariant\<close>

definition conn_part :: "store_db \<Rightarrow> connection_row list \<times> binding_row list" where
  "conn_part db = (sx_connections db, sx_bindings db)"

lemma conn_ok_part: "conn_ok db \<Longrightarrow> conn_part db' = conn_part db \<Longrightarrow> conn_ok db'"
  by (simp add: conn_part_def conn_ok_def)

lemma conn_part_frame [simp]:
  "conn_part (update_account u f db) = conn_part db"
  "conn_part (archive_orphans now db) = conn_part db"
  "conn_part (set_active wid db) = conn_part db"
  "conn_part (drop_unknown_account db) = conn_part db"
  "conn_part (select_fallback now db) = conn_part db"
  "conn_part (archive_memberships u db) = conn_part db"
  "conn_part (upsert_workspace wid name now db) = conn_part db"
  "conn_part (upsert_member mid wid user role now db) = conn_part db"
  "conn_part (forget_last_workspace u db) = conn_part db"
  "conn_part (remember_workspace_account user now db) = conn_part db"
  by (simp_all add: conn_part_def update_account_def archive_orphans_def set_active_def
      drop_unknown_account_def select_fallback_def Let_def archive_memberships_def upsert_workspace_def
      upsert_member_def forget_last_workspace_def remember_workspace_account_def split: option.split)

lemma upsert_memberships_part [simp]:
  "conn_part (upsert_memberships ids k user workspaces now db) = conn_part db"
  by (induction ids k user workspaces now db rule: upsert_memberships.induct) simp_all

lemma bump_part: "bump_active_scope_generation db = Inr db' \<Longrightarrow> conn_part db' = conn_part db"
  by (auto simp: bump_active_scope_generation_def rbind_eq_Inr conn_part_def)

lemma repair_part:
  assumes "repair_active_scope_after_membership_change now db = Inr (db', changed)"
  shows "conn_part db' = conn_part db"
proof -
  let ?db1 = "drop_unknown_account db"
  have "bump_active_scope_generation ?db1 = Inr db' \<or> db' = ?db1 \<or>
      bump_active_scope_generation (select_fallback now ?db1) = Inr db'"
    using assms by (auto simp: repair_active_scope_after_membership_change_def Let_def rbind_eq_Inr
        split: if_splits)
  then show ?thesis by (elim disjE) (simp_all add: bump_part)
qed

lemma activate_part:
  assumes "activate_workspace E wid acct now db = Inr (w, db')"
  shows "conn_part db' = conn_part db"
proof -
  define db1 where "db1 = (case acct of
      Some u \<Rightarrow> update_account u (touch_account w now) (db\<lparr>sx_account := Some u\<rparr>)
    | None \<Rightarrow> db\<lparr>sx_account := None\<rparr>)\<lparr>sx_active := Some wid\<rparr>"
  have "bump_active_scope_generation db1 = Inr db'"
    using assms by (auto simp: activate_workspace_def rbind_eq_Inr db1_def Let_def)
  moreover have "conn_part db1 = conn_part db"
    by (simp add: db1_def conn_part_def split: option.split)
  ultimately show ?thesis by (simp add: bump_part)
qed

lemma remove_part:
  assumes "remove_workspace_account u now db = Inr db'"
  shows "conn_part db' = conn_part db"
proof -
  define db1 where "db1 = archive_orphans now (db\<lparr>sx_members := filter (\<lambda>m. mb_user_id m \<noteq> Some u) (sx_members db),
      sx_accounts := filter (\<lambda>a. ac_user_id a \<noteq> u) (sx_accounts db)\<rparr>)"
  define db2 where "db2 = (case most_recent_account db1 of
      Some a \<Rightarrow> set_active (preferred_or_personal db1 (ac_user_id a)) (db1\<lparr>sx_account := Some (ac_user_id a)\<rparr>)
    | None \<Rightarrow> set_active personal_workspace_id (db1\<lparr>sx_account := None\<rparr>))"
  have "conn_part db1 = conn_part db" by (simp add: db1_def) (simp add: conn_part_def)
  moreover have "conn_part db2 = conn_part db1"
    by (simp add: db2_def split: option.split) (simp add: conn_part_def)
  moreover have "bump_active_scope_generation db2 = Inr db' \<or> db' = db1"
    using assms by (auto simp: remove_workspace_account_def Let_def db1_def [symmetric] db2_def [symmetric]
        split: if_splits)
  ultimately show ?thesis using bump_part [of db2 db'] by auto
qed

text \<open>The three claims of legacy rows are what a synchronisation does to the connections.\<close>

lemma sync_part:
  obtains "conn_part (snd (sync_account_workspaces ids user workspaces now db)) = conn_part db"
  | db1 db2 where "conn_part db1 = conn_part db"
    "claim_artifacts (au_id user) (claim_credentials (au_id user) now (claim_connections (au_id user) db1)) = Inr db2"
    "conn_part (snd (sync_account_workspaces ids user workspaces now db)) = conn_part db2"
proof -
  let ?db0 = "remember_workspace_account user now db"
  let ?db1 = "upsert_memberships ids 0 user workspaces now (archive_memberships (au_id user) ?db0)"
  show thesis
  proof (cases "list_ex (\<lambda>(wid, _). wid = personal_workspace_id) workspaces")
    case True
    then show thesis using that(1) by (simp add: sync_account_workspaces_def)
  next
    case fine: False
    show thesis
    proof (cases "sync_tx ids user workspaces now ?db0")
      case (Inl e)
      then show thesis using that(1) fine by (simp add: sync_account_workspaces_def)
    next
      case (Inr db')
      then obtain db3 changed where db3: "claim_artifacts (au_id user)
          (claim_credentials (au_id user) now (claim_connections (au_id user) ?db1)) = Inr db3"
        and repair: "repair_active_scope_after_membership_change now
          (forget_last_workspace (au_id user) (archive_orphans now db3)) = Inr (db', changed)"
        by (auto simp: sync_tx_def Let_def rbind_eq_Inr)
      show thesis
        using that(2) [OF _ db3] repair_part [OF repair] Inr fine
        by (simp add: sync_account_workspaces_def)
    qed
  qed
qed

lemma upsert_connection_Inr:
  "upsert_connection E p now db = Inr (p', db') \<Longrightarrow>
   \<exists>(w :: workspace) owner r db1. cp_workspace_access p = Local_access \<and> cp_credential_mode p = Local_credential \<and>
     write_local_row E p (ws_id w) owner now db = Inr (r, db1) \<and>
     db' = enqueue_outbox (ws_id w) ''connection'' (cp_id p) ''upsert'' r (ensure_safety_row (cp_id p) db1)"
  by (clarsimp simp: upsert_connection_def rbind_eq_Inr) blast

lemma committed_conn_ok:
  assumes "conn_ok db" "\<And>x. r = Inr x \<Longrightarrow> conn_part (f x) = conn_part db"
  shows "conn_ok (committed r f db)"
  using assms(1) conn_ok_part [OF assms(1) assms(2)] by (cases r) (simp_all add: committed_def)

lemma store_exec_conn_ok:
  assumes "conn_ok db" "now \<noteq> []"
  shows "conn_ok (store_exec E (now, call) db)"
proof (cases call)
  case (Sync_workspaces ids user workspaces)
  show ?thesis
  proof (cases rule: sync_part [of ids user workspaces now db])
    case 1
    then show ?thesis using Sync_workspaces conn_ok_part [OF assms(1)] by simp
  next
    case (2 db1 db2)
    have "conn_ok db2" by (rule claim_ok [OF conn_ok_part [OF assms(1) 2(1)] assms(2) 2(2)])
    then show ?thesis using Sync_workspaces conn_ok_part [OF _ 2(3)] by simp
  qed
next
  case (Remember_account user)
  then show ?thesis using conn_ok_part [OF assms(1)] by simp
next
  case (Activate_workspace wid acct)
  then show ?thesis
    by (simp, intro committed_conn_ok [OF assms(1)]) (auto dest: activate_part)
next
  case (Activate_account u)
  then show ?thesis
    by (simp, intro committed_conn_ok [OF assms(1)])
      (auto simp: activate_workspace_account_def dest: activate_part)
next
  case (Remove_account u)
  then show ?thesis
    by (simp, intro committed_conn_ok [OF assms(1)]) (auto dest: remove_part)
next
  case Repair_scope
  then show ?thesis
    by (simp, intro committed_conn_ok [OF assms(1)]) (auto dest: repair_part)
next
  case (Put_connection p)
  show ?thesis
  proof (cases "upsert_connection E p now db")
    case (Inr x)
    obtain p' db' where "x = (p', db')" by (cases x)
    with Inr upsert_connection_Inr [of E p now db p' db'] obtain w :: workspace and owner r db1
      where "cp_workspace_access p = Local_access" "cp_credential_mode p = Local_credential"
      "write_local_row E p (ws_id w) owner now db = Inr (r, db1)"
      "db' = enqueue_outbox (ws_id w) ''connection'' (cp_id p) ''upsert'' r (ensure_safety_row (cp_id p) db1)"
      by blast
    moreover from this have "conn_ok db1" using write_local_row_ok [OF assms(1)] by blast
    moreover have "conn_part (enqueue_outbox a b c d r (ensure_safety_row k db1)) = conn_part db1" for a b c d r k
      by (simp add: conn_part_def enqueue_outbox_def ensure_safety_row_def)
    ultimately have "conn_ok db'" using conn_ok_part by simp
    then show ?thesis using Put_connection Inr \<open>x = (p', db')\<close> by (simp add: committed_def)
  qed (use Put_connection assms in \<open>simp add: committed_def\<close>)
next
  case (Group_connections ids g)
  then show ?thesis
    using assms(1) by (auto simp: committed_def set_connections_schema_group_def rbind_eq_Inr split: sum.split
        dest: set_groups_ok)
next
  case (Delete_connection cid)
  have "conn_ok db'" if "touch_live_row E wid cid now (\<lambda>c. c\<lparr>cr_deleted_at := Some now\<rparr>) ''delete'' db = Inr db'" for wid db'
    by (rule touch_live_row_ok [OF assms(1) that]) (simp add: cr_id_def)
  then show ?thesis
    using Delete_connection assms(1)
    by (auto simp: committed_def delete_connection_def rbind_eq_Inr split: sum.split)
next
  case (Sync_connections wid u templates)
  have "conn_ok (fold (sync_template wid u now) templates (drop_remote ids now db))"
    if "remote_checks E wid u templates db = Inr ()" for ids
    by (rule fold_templates_ok [OF drop_remote_ok [OF assms(1)] assms(2) remote_checks_templates [OF that]])
  then show ?thesis
    using Sync_connections assms(1)
    by (auto simp: committed_def sync_remote_connections_def Let_def rbind_eq_Inr split: sum.split)
next
  case (Purge_connection wid cid)
  have "distinct (map cr_id (filter P xs))" if "distinct (map cr_id xs)" for P xs
    using that by (induction xs) auto
  then show ?thesis
    using Purge_connection assms(1)
    by (auto simp: purge_remote_connection_cache_def forget_connection_def conn_ok_def)
next
  case (Bind_credentials cid u username params secret)
  have "conn_ok (update_binding cid u ch (\<lambda>b. b\<lparr>bn_username := a, bn_extra_params := ps, bn_secret_ref := sr\<rparr>) now
      \<lparr>bn_connection_id = cid, bn_account_user_id = u, bn_username = a, bn_extra_params = ps, bn_secret_ref = sr,
       bn_workspace_access = View_access, bn_allow_writes = False, bn_revision = 1, bn_updated_at = now\<rparr> db)" for ch a ps sr
  proof (rule conn_ok_bindings [OF assms(1) update_binding_conns], rule update_binding_ok)
    show "\<forall>b \<in> set (sx_bindings db). binding_ok b" using assms(1) by (simp add: conn_ok_def)
  qed (use assms(2) in \<open>simp_all add: binding_ok_def\<close>)
  then show ?thesis
    using Bind_credentials assms(1)
    by (auto simp: committed_def bind_connection_credentials_def Let_def rbind_eq_Inr split: sum.split)
next
  case (Put_safety cid s)
  then show ?thesis
    using assms(1) by (auto simp: committed_def set_safety_def rbind_eq_Inr conn_ok_def split: sum.split)
next
  case (Put_history pin h)
  then show ?thesis
    using assms(1) by (auto simp: committed_def insert_history_if_current_def rbind_eq_Inr conn_ok_def split: sum.split)
next
  case (Clear_schemas cid)
  then show ?thesis
    using assms(1) by (auto simp: committed_def clear_stored_schemas_def Let_def rbind_eq_Inr conn_ok_def split: sum.split)
qed

lemma store_run_conn_ok: "conn_ok db \<Longrightarrow> list_all store_call_ok calls \<Longrightarrow> conn_ok (store_run E calls db)"
proof (induction calls arbitrary: db)
  case (Cons c calls)
  obtain now call where "c = (now, call)" by (cases c)
  then show ?case
    using Cons store_exec_conn_ok [of db now E call] store_call_now [of now call] by (simp add: store_run_def)
qed (simp add: store_run_def)

section \<open>How a local profile evolves\<close>

text \<open>Its revision grows with every change, and it stays local unless its template is synchronised.\<close>

definition conn_evolves :: "connection_row \<Rightarrow> connection_row \<Rightarrow> bool" where
  "conn_evolves c c' \<longleftrightarrow> cr_remote_id c' = None \<and> (cr_revision c < cr_revision c' \<or>
     cr_revision c' = cr_revision c \<and> cr_profile c' = cr_profile c)"

definition local_evolves :: "uuid \<Rightarrow> store_db \<Rightarrow> store_db \<Rightarrow> bool" where
  "local_evolves cid db db' \<longleftrightarrow> (\<forall>c. conn_row db cid = Some c \<and> cr_remote_id c = None \<longrightarrow>
     (\<exists>c'. conn_row db' cid = Some c' \<and> conn_evolves c c'))"

lemma local_evolvesD:
  "local_evolves cid db db' \<Longrightarrow> conn_row db cid = Some c \<Longrightarrow> cr_remote_id c = None \<Longrightarrow>
   \<exists>c'. conn_row db' cid = Some c' \<and> conn_evolves c c'"
  by (simp add: local_evolves_def)

lemma conn_evolves_trans: "conn_evolves a b \<Longrightarrow> conn_evolves b c \<Longrightarrow> conn_evolves a c"
  by (auto simp: conn_evolves_def)

lemma local_evolves_trans:
  assumes "local_evolves cid db1 db2" "local_evolves cid db2 db3"
  shows "local_evolves cid db1 db3"
  unfolding local_evolves_def
proof (intro allI impI)
  fix c assume c: "conn_row db1 cid = Some c \<and> cr_remote_id c = None"
  then obtain c2 where c2: "conn_row db2 cid = Some c2" "conn_evolves c c2"
    using local_evolvesD [OF assms(1)] by blast
  then obtain c3 where "conn_row db3 cid = Some c3" "conn_evolves c2 c3"
    using local_evolvesD [OF assms(2), of c2] by (auto simp: conn_evolves_def)
  then show "\<exists>c3. conn_row db3 cid = Some c3 \<and> conn_evolves c c3"
    using conn_evolves_trans [OF c2(2)] by blast
qed

lemma local_evolves_cong: "sx_connections db' = sx_connections db \<Longrightarrow> local_evolves cid db db'"
  by (simp add: local_evolves_def conn_row_def conn_evolves_def)

lemma local_evolves_part: "conn_part db' = conn_part db \<Longrightarrow> local_evolves cid db db'"
  by (rule local_evolves_cong) (simp add: conn_part_def)

lemma local_evolves_map:
  assumes "sx_connections db' = map f (sx_connections db)" "\<And>c. cr_id (f c) = cr_id c"
    and "\<And>c. conn_row db cid = Some c \<Longrightarrow> cr_remote_id c = None \<Longrightarrow> conn_evolves c (f c)"
  shows "local_evolves cid db db'"
proof -
  have "conn_row db' cid = map_option f (conn_row db cid)"
    unfolding conn_row_def assms(1) by (rule find_map_if) (simp add: assms(2))
  then show ?thesis using assms(3) by (simp add: local_evolves_def)
qed

lemma find_append_Some: "find P xs = Some x \<Longrightarrow> find P (xs @ ys) = Some x"
  by (induction xs) auto

lemma local_evolves_append:
  "sx_connections db' = sx_connections db @ ys \<Longrightarrow> local_evolves cid db db'"
  by (auto simp: local_evolves_def conn_row_def conn_evolves_def find_append_Some)

lemma update_other_evolves:
  assumes "k \<noteq> cid" "\<And>c. cr_id (f c) = cr_id c"
  shows "local_evolves cid db (update_connection k f db)"
  by (rule local_evolves_map [where f = "\<lambda>c. if cr_id c = k then f c else c"])
    (use assms in \<open>auto simp: update_connection_def conn_evolves_def dest: conn_row_Some\<close>)

lemma sync_template_evolves:
  assumes "cp_id p \<noteq> cid"
  shows "local_evolves cid db (sync_template wid u now (p, r) db)"
proof -
  have "local_evolves cid db (write_template wid p r now db)"
  proof (cases "find (\<lambda>c. cr_id c = cp_id p) (sx_connections db)")
    case None
    then show ?thesis by (intro local_evolves_append) (simp add: write_template_def)
  next
    case (Some c)
    let ?g = "\<lambda>c. if cr_id c = cp_id p \<and> cr_workspace_id c = wid
          then c\<lparr>cr_profile := template_over p (cr_profile c), cr_remote_id := Some (cp_id p),
                 cr_revision := r, cr_sync_status := ''synced'', cr_deleted_at := None,
                 cr_updated_at := now\<rparr> else c"
    show ?thesis
      by (rule local_evolves_map [where f = ?g])
        (use Some assms in \<open>auto simp: write_template_def update_connection_def template_over_def cr_id_def
          conn_evolves_def dest: conn_row_Some\<close>)
  qed
  then show ?thesis
    by (rule local_evolves_trans)
      (rule local_evolves_cong, simp add: sync_template_def grant_access_def set_safety_writes_def ensure_safety_row_def)
qed

lemma fold_templates_evolves:
  "cid \<notin> (\<lambda>(p, _). cp_id p) ` set templates \<Longrightarrow>
   local_evolves cid db (fold (sync_template wid u now) templates db)"
proof (induction templates arbitrary: db)
  case Nil
  then show ?case by (simp add: local_evolves_cong)
next
  case (Cons t templates)
  obtain p r where t: "t = (p, r)" by (cases t)
  have "local_evolves cid db (sync_template wid u now t db)"
    using Cons.prems t sync_template_evolves by auto
  then show ?case using Cons local_evolves_trans by auto
qed

lemma drop_remote_evolves:
  assumes "conn_ok db"
  shows "local_evolves cid db (drop_remote (removed_remote_ids wid templates db) now db)"
proof (rule local_evolves_map)
  let ?ids = "removed_remote_ids wid templates db"
  show "sx_connections (drop_remote ?ids now db) = map (\<lambda>c. if cr_id c \<in> set ?ids
       then c\<lparr>cr_deleted_at := Some now, cr_updated_at := now\<rparr> else c) (sx_connections db)"
    by (simp add: drop_remote_def)
  fix c assume c: "conn_row db cid = Some c" "cr_remote_id c = None"
  have "cr_id c \<notin> set ?ids"
  proof
    assume "cr_id c \<in> set ?ids"
    then obtain r where r: "r \<in> set (sx_connections db)" "cr_id r = cr_id c" "cr_remote_id r \<noteq> None"
      by (auto simp: removed_remote_ids_def)
    have "r = c" by (rule conn_row_unique [OF assms c(1) r(1)]) (use r(2) conn_row_Some [OF c(1)] in simp)
    then show False using r(3) c(2) by simp
  qed
  then show "conn_evolves c (if cr_id c \<in> set ?ids
       then c\<lparr>cr_deleted_at := Some now, cr_updated_at := now\<rparr> else c)" by (simp add: conn_evolves_def c(2))
qed (simp add: cr_id_def)

lemma touch_live_row_evolves:
  assumes "touch_live_row E wid k now f op db = Inr db'"
    and "\<And>c. cr_id (f c) = cr_id c \<and> cr_remote_id (f c) = cr_remote_id c \<and> cr_revision (f c) = cr_revision c"
  shows "local_evolves cid db db'"
proof (rule local_evolves_map)
  show "sx_connections db' = map (\<lambda>c. if cr_id c = k then (f c)\<lparr>cr_updated_at := now,
      cr_revision := cr_revision c + 1, cr_sync_status := ''dirty''\<rparr> else c) (sx_connections db)"
    using assms(1) by (auto simp: touch_live_row_def rbind_eq_Inr enqueue_outbox_def update_connection_def)
qed (use assms(2) in \<open>auto simp: conn_evolves_def cr_id_def\<close>)

lemma set_groups_evolves: "set_groups E wid g now ids db = Inr db' \<Longrightarrow> local_evolves cid db db'"
proof (induction E wid g now ids db rule: set_groups.induct)
  case (1 E wid g now db)
  then show ?case by (simp add: local_evolves_cong)
next
  case (2 E wid g now k ids db)
  then obtain db1 where db1: "touch_live_row E wid k now (set_schema_group g) ''upsert'' db = Inr db1"
    "set_groups E wid g now ids db1 = Inr db'" by (auto simp: rbind_eq_Inr)
  have "local_evolves cid db db1"
    by (rule touch_live_row_evolves [OF db1(1)]) (simp add: set_schema_group_def cr_id_def)
  then show ?case using "2.IH" db1 local_evolves_trans by blast
qed

lemma write_local_row_evolves:
  assumes "write_local_row E p wid owner now db = Inr (r, db')"
  shows "local_evolves cid db db'"
proof (cases "find (\<lambda>c. cr_id c = cp_id p) (sx_connections db)")
  case None
  then show ?thesis using assms by (intro local_evolves_append) (auto simp: write_local_row_def)
next
  case (Some c)
  have "sx_connections db' = map (\<lambda>c. if cr_id c = cp_id p then c\<lparr>cr_profile := p,
      cr_revision := cr_revision c + 1, cr_sync_status := ''dirty'', cr_deleted_at := None,
      cr_updated_at := now\<rparr> else c) (sx_connections db)"
    using assms Some by (auto simp: write_local_row_def update_connection_def split: if_splits)
  then show ?thesis by (rule local_evolves_map) (auto simp: conn_evolves_def cr_id_def)
qed

lemma claim_evolves:
  assumes "claim_artifacts u (claim_credentials v now (claim_connections w db)) = Inr db'"
  shows "local_evolves cid db db'"
proof -
  let ?db1 = "claim_connections w db" let ?db2 = "claim_credentials v now ?db1"
  have "local_evolves cid db ?db1"
    by (rule local_evolves_map [where f = "\<lambda>c. if cr_remote_id c = None \<and> cr_account_user_id c = None \<and>
        member_active db (cr_workspace_id c) w then c\<lparr>cr_account_user_id := Some w\<rparr> else c"])
      (simp_all add: claim_connections_def conn_evolves_def cr_id_def)
  moreover have "local_evolves cid ?db1 ?db2"
    by (rule local_evolves_map [where f = "\<lambda>c. if cr_remote_id c \<noteq> None \<and>
        member_active ?db1 (cr_workspace_id c) v \<and> holds_credentials c
        then c\<lparr>cr_profile := (cr_profile c)\<lparr>cp_username := [], cp_extra_params := [], cp_secret_ref := None\<rparr>\<rparr> else c"])
      (simp_all add: claim_credentials_def conn_evolves_def cr_id_def Let_def)
  moreover have "local_evolves cid ?db2 db'"
    by (rule local_evolves_cong) (use assms in \<open>auto simp: claim_artifacts_def Let_def rbind_eq_Inr\<close>)
  ultimately show ?thesis using local_evolves_trans by blast
qed

text \<open>A synchronisation that names the connection makes it shared.\<close>

fun shares :: "uuid \<Rightarrow> string \<times> store_call \<Rightarrow> bool" where
  "shares cid (now, Sync_connections wid u templates) \<longleftrightarrow> cid \<in> (\<lambda>(p, _). cp_id p) ` set templates"
| "shares cid _ \<longleftrightarrow> False"

lemma committed_evolves:
  assumes "\<And>x. r = Inr x \<Longrightarrow> local_evolves cid db (f x)"
  shows "local_evolves cid db (committed r f db)"
  using assms by (cases r) (simp_all add: committed_def local_evolves_cong)

lemma store_exec_evolves:
  assumes "conn_ok db" "\<not> shares cid (now, call)"
  shows "local_evolves cid db (store_exec E (now, call) db)"
proof (cases call)
  case (Sync_workspaces ids user workspaces)
  show ?thesis
  proof (cases rule: sync_part [of ids user workspaces now db])
    case 1
    then show ?thesis using Sync_workspaces local_evolves_part by simp
  next
    case (2 db1 db2)
    have "local_evolves cid db db2"
      by (rule local_evolves_trans [OF local_evolves_part [OF 2(1)] claim_evolves [OF 2(2)]])
    from local_evolves_trans [OF this local_evolves_part [OF 2(3)]] show ?thesis
      using Sync_workspaces by simp
  qed
next
  case (Remember_account user)
  then show ?thesis by (simp add: local_evolves_part)
next
  case (Activate_workspace wid acct)
  then show ?thesis
    by (simp, intro committed_evolves) (auto intro: local_evolves_part [OF activate_part])
next
  case (Activate_account u)
  then show ?thesis
    by (simp, intro committed_evolves)
      (auto simp: activate_workspace_account_def intro: local_evolves_part [OF activate_part])
next
  case (Remove_account u)
  then show ?thesis by (simp, intro committed_evolves) (auto intro: local_evolves_part [OF remove_part])
next
  case Repair_scope
  then show ?thesis by (simp, intro committed_evolves) (auto intro: local_evolves_part [OF repair_part])
next
  case (Put_connection p)
  have "local_evolves cid db db'" if put: "upsert_connection E p now db = Inr (p', db')" for p' db'
  proof -
    obtain w :: workspace and owner r db1 where db1: "write_local_row E p (ws_id w) owner now db = Inr (r, db1)"
      "db' = enqueue_outbox (ws_id w) ''connection'' (cp_id p) ''upsert'' r (ensure_safety_row (cp_id p) db1)"
      using upsert_connection_Inr [OF put] by blast
    have "sx_connections db' = sx_connections db1" by (simp add: db1(2) enqueue_outbox_def ensure_safety_row_def)
    then show ?thesis
      using local_evolves_trans [OF write_local_row_evolves [OF db1(1)] local_evolves_cong] by blast
  qed
  then show ?thesis using Put_connection by (simp, intro committed_evolves) auto
next
  case (Group_connections ids g)
  then show ?thesis
    by (simp, intro committed_evolves)
      (auto simp: set_connections_schema_group_def rbind_eq_Inr dest: set_groups_evolves)
next
  case (Delete_connection k)
  have "local_evolves cid db db'"
    if "touch_live_row E wid k now (\<lambda>c. c\<lparr>cr_deleted_at := Some now\<rparr>) ''delete'' db = Inr db'" for wid db'
    by (rule touch_live_row_evolves [OF that]) (simp add: cr_id_def)
  then show ?thesis
    using Delete_connection by (simp, intro committed_evolves) (auto simp: delete_connection_def rbind_eq_Inr)
next
  case (Sync_connections wid u templates)
  have "local_evolves cid db (fold (sync_template wid u now) templates
      (drop_remote (removed_remote_ids wid templates db) now db))"
    by (rule local_evolves_trans [OF drop_remote_evolves [OF assms(1)] fold_templates_evolves])
      (use Sync_connections assms(2) in simp)
  then show ?thesis
    using Sync_connections
    by (simp, intro committed_evolves) (auto simp: sync_remote_connections_def Let_def rbind_eq_Inr)
next
  case (Purge_connection wid k)
  show ?thesis
    unfolding local_evolves_def
  proof (intro allI impI)
    fix c assume c: "conn_row db cid = Some c \<and> cr_remote_id c = None"
    have keep: "find P (filter Q xs) = Some x" if "find P xs = Some x" "Q x" for P Q and x :: connection_row and xs
      using that by (induction xs) (auto split: if_splits)
    have "conn_row (purge_remote_connection_cache wid k db) cid = Some c"
    proof (cases "list_ex (\<lambda>c. cr_id c = k \<and> cr_workspace_id c = wid \<and> cr_remote_id c = Some k) (sx_connections db)")
      case True
      then obtain r where r: "r \<in> set (sx_connections db)" "cr_id r = k" "cr_remote_id r = Some k"
        by (auto simp: list_ex_iff)
      have "cr_id c \<noteq> k"
      proof
        assume k: "cr_id c = k"
        have "r = c"
          by (rule conn_row_unique [OF assms(1) conjunct1 [OF c] r(1)])
            (use r(2) k conn_row_Some [OF conjunct1 [OF c]] in simp)
        then show False using r(3) c by simp
      qed
      then have "find (\<lambda>c. cr_id c = cid) (filter (\<lambda>c. cr_id c \<noteq> k) (sx_connections db)) = Some c"
        using c by (intro keep) (auto simp: conn_row_def)
      then show ?thesis using True by (simp add: purge_remote_connection_cache_def forget_connection_def conn_row_def)
    qed (use c in \<open>simp add: purge_remote_connection_cache_def\<close>)
    then show "\<exists>c'. conn_row (store_exec E (now, call) db) cid = Some c' \<and> conn_evolves c c'"
      using Purge_connection c by (simp add: conn_evolves_def)
  qed
next
  case (Bind_credentials k u username params secret)
  then show ?thesis
    by (simp, intro committed_evolves)
      (auto simp: bind_connection_credentials_def Let_def rbind_eq_Inr intro: local_evolves_cong)
next
  case (Put_safety k s)
  then show ?thesis
    by (simp, intro committed_evolves) (auto simp: set_safety_def rbind_eq_Inr intro: local_evolves_cong)
next
  case (Put_history pin h)
  then show ?thesis
    by (simp, intro committed_evolves) (auto simp: insert_history_if_current_def rbind_eq_Inr intro: local_evolves_cong)
next
  case (Clear_schemas k)
  then show ?thesis
    by (simp, intro committed_evolves) (auto simp: clear_stored_schemas_def Let_def rbind_eq_Inr intro: local_evolves_cong)
qed

lemma store_run_evolves:
  "conn_ok db \<Longrightarrow> list_all store_call_ok calls \<Longrightarrow> list_all (\<lambda>c. \<not> shares cid c) calls \<Longrightarrow>
   local_evolves cid db (store_run E calls db)"
proof (induction calls arbitrary: db)
  case Nil
  then show ?case by (simp add: store_run_def local_evolves_cong)
next
  case (Cons c calls)
  obtain now call where c: "c = (now, call)" by (cases c)
  have "conn_ok (store_exec E c db)"
    using Cons.prems c store_exec_conn_ok [of db now E call] store_call_now [of now call] by simp
  then have "local_evolves cid (store_exec E c db) (store_run E calls (store_exec E c db))" using Cons by simp
  moreover have "local_evolves cid db (store_exec E c db)"
    using Cons.prems c store_exec_evolves by simp
  ultimately show ?case using local_evolves_trans by (simp add: store_run_def)
qed

section \<open>What a pin depends on\<close>

lemma active_connection_cong:
  assumes "scope_part db' = scope_part db" "conn_part db' = conn_part db"
  shows "active_connection db' cid = active_connection db cid"
proof -
  have "active_workspace_row db' = active_workspace_row db" "scope_visible db' = scope_visible db"
    using assms(1) by (simp_all add: fun_eq_iff active_workspace_row_def scope_visible_def
        member_active_def scope_part_def split: option.split)
  moreover have "sx_active db' = sx_active db" "sx_account db' = sx_account db"
    "sx_generation db' = sx_generation db" "sx_connections db' = sx_connections db"
    using assms by (simp_all add: scope_part_def conn_part_def)
  ultimately show ?thesis
    unfolding active_connection_def selected_workspace_def live_connection_row_def by (simp only:)
qed

lemma pin_current_cong:
  assumes "scope_part db' = scope_part db" "conn_part db' = conn_part db"
  shows "is_pin_current_with_access db' pin v = is_pin_current_with_access db pin v"
proof -
  have "binding_for db' = binding_for db"
    using assms(2) by (simp add: fun_eq_iff binding_for_def conn_part_def split: option.split)
  moreover have "sx_account db' = sx_account db" using assms(1) by (simp add: scope_part_def)
  ultimately show ?thesis
    unfolding is_pin_current_with_access_def active_connection_cong [OF assms] by (simp only:)
qed

end
