(* ===== verification/Connection_Manager.thy ===== *)
theory Connection_Manager
  imports Connection_Pins
begin

text \<open>
  The process-local owner of the database pools, \<^verbatim>\<open>src/src-tauri/src/connection/runtime.rs\<close>, as
  a machine of interleaved tasks: the scope gate (many operations or one mutation), the map of
  slots keyed by the exact authority of a pin, one mutex per slot, the opening of a pool while the
  mutex is held, the hand-off of a cached pool, retirement by timers and mutations, and the
  cancellation of a task at any await. A label carries what the environment answers at its step:
  the control plane, the driver and the clock. Between two labels a task runs without awaiting.

  An \<^verbatim>\<open>Arc<CacheEntry>\<close> is named by its generation, and its owners are the slot that stores it and
  the tasks that hold a clone. A pool is closed, and its managed lease released, when the last
  owner is gone: by \<^verbatim>\<open>Arc::try_unwrap\<close> in \<^verbatim>\<open>retire_entries\<close> or by \<^verbatim>\<open>Drop\<close>.
\<close>

section \<open>Authority\<close>

record cache_key =
  ck_workspace_id :: uuid
  ck_account_scope :: account_scope
  ck_scope_generation :: int
  ck_connection_id :: uuid
  ck_connection_revision :: int
  ck_binding_revision :: int
  ck_binding_updated_at :: string
  ck_access :: connection_access

definition cache_key_new :: "pinned_connection \<Rightarrow> connection_access \<Rightarrow> cache_key" where
  "cache_key_new pin access = \<lparr>
     ck_workspace_id = sc_workspace_id (pin_scope pin),
     ck_account_scope = sc_account_scope (pin_scope pin),
     ck_scope_generation = sc_generation (pin_scope pin),
     ck_connection_id = pin_connection_id pin,
     ck_connection_revision = pin_connection_revision pin,
     ck_binding_revision = pin_binding_revision pin,
     ck_binding_updated_at = pin_binding_updated_at pin,
     ck_access = (if cp_credential_mode (pin_profile pin) = Managed_credential then access else Access_Read)\<rparr>"

definition scope_changed :: app_error where
  "scope_changed = Blocked ''workspace or connection access changed; retry the operation''"

text \<open>\<open>answer\<close> is the revision the control plane states, asked only for a shared connection.\<close>

definition authorize_pin ::
  "pinned_connection \<Rightarrow> connection_access \<Rightarrow> int app_result \<Rightarrow> (string \<times> uuid) option app_result" where
  "authorize_pin pin access answer =
     (let p = pin_profile pin; wants_write = (access = Access_Write)
      in rbind (guard (\<not> can_read (cp_workspace_access p) \<or>
             (wants_write \<and> (\<not> can_write (cp_workspace_access p) \<or> \<not> cp_allow_writes p)))
           (Blocked ''your workspace role does not permit this database action'')) (\<lambda>_.
         if \<not> pin_requires_remote_rbac pin then Inr None
         else rbind (ok_or (sc_selected_account_id (pin_scope pin))
                (Config ''shared connection access requires an active workspace account'')) (\<lambda>u.
              rbind answer (\<lambda>revision.
              rbind (guard (revision \<noteq> pin_connection_revision pin)
                (Blocked ''the shared connection changed; refresh the workspace and retry'')) (\<lambda>_.
              Inr (Some (u, pin_workspace_id pin)))))))"

definition reauthorize_pin :: "pinned_connection \<Rightarrow> connection_access \<Rightarrow> int app_result \<Rightarrow> unit app_result" where
  "reauthorize_pin pin access answer =
     (if pin_requires_remote_rbac pin then rbind (authorize_pin pin access answer) (\<lambda>_. Inr ()) else Inr ())"

text \<open>
  Opening: the instant the pool must retire and the lease of its managed credentials. \<open>lease\<close> is
  the identifier and the lifetime in seconds that the control plane issues; \<open>driver\<close> is the result
  of connecting, with the secret for a profile that has its own.
\<close>

definition connect_authorized ::
  "connection_profile \<Rightarrow> (string \<times> uuid) option \<Rightarrow> (nat \<times> nat) app_result \<Rightarrow> unit app_result \<Rightarrow> nat \<Rightarrow>
   (nat option \<times> nat option) app_result" where
  "connect_authorized p authorization lease driver now =
     (if cp_credential_mode p = Managed_credential
      then rbind (ok_or authorization (Config ''managed database access requires a workspace account'')) (\<lambda>_.
           rbind lease (\<lambda>(lease_id, valid_for).
           rbind driver (\<lambda>_.
           Inr (Some (now + max (valid_for - 30) 1), Some lease_id))))
      else rbind driver (\<lambda>_. Inr (None, None)))"

section \<open>The machine\<close>

record cache_entry =
  ce_key :: cache_key
  ce_retire_at :: "nat option"
  ce_managed :: "nat option"

record slot_state =
  sl_entry :: "nat option"
  sl_owner :: "nat option"

datatype task_phase =
    Idle
  | Scoped
  | Context pinned_connection connection_access "(string \<times> uuid) option"
  | Locking pinned_connection connection_access "(string \<times> uuid) option" nat
  | Handoff pinned_connection connection_access "(string \<times> uuid) option" nat nat
  | Discard pinned_connection connection_access "(string \<times> uuid) option" nat nat
  | Retiring pinned_connection connection_access "(string \<times> uuid) option" nat nat
  | Opening pinned_connection connection_access "(string \<times> uuid) option" nat
  | Opened pinned_connection connection_access "(string \<times> uuid) option" nat "nat option" "nat option"
  | Leased pinned_connection connection_access nat
  | Mutating
  | Detached "nat list"

record manager =
  cm_store :: store_db
  cm_slots :: "(cache_key \<times> nat) list"
  cm_slot :: "slot_state list"
  cm_next_generation :: nat
  cm_entries :: "nat \<Rightarrow> cache_entry option"
  cm_closed :: "nat list"
  cm_timers :: "(nat \<times> nat \<times> nat) list"
  cm_tasks :: "task_phase list"
  cm_now :: nat

definition manager_new :: "store_db \<Rightarrow> nat \<Rightarrow> manager" where
  "manager_new db tasks = \<lparr>cm_store = db, cm_slots = [], cm_slot = [], cm_next_generation = 1,
     cm_entries = (\<lambda>_. None), cm_closed = [], cm_timers = [], cm_tasks = replicate tasks Idle, cm_now = 0\<rparr>"

text \<open>The phases that hold the read side of the scope gate, the slot mutex and clones of entries.\<close>

fun reads_scope :: "task_phase \<Rightarrow> bool" where
  "reads_scope Idle = False"
| "reads_scope Mutating = False"
| "reads_scope (Detached _) = False"
| "reads_scope _ = True"

fun owns_slot :: "task_phase \<Rightarrow> nat option" where
  "owns_slot (Opening _ _ _ s) = Some s"
| "owns_slot (Opened _ _ _ s _ _) = Some s"
| "owns_slot _ = None"

fun held :: "task_phase \<Rightarrow> nat list" where
  "held (Handoff _ _ _ _ g) = [g]"
| "held (Discard _ _ _ _ g) = [g]"
| "held (Retiring _ _ _ _ g) = [g]"
| "held (Leased _ _ g) = [g]"
| "held (Detached gs) = gs"
| "held _ = []"

definition set_task :: "nat \<Rightarrow> task_phase \<Rightarrow> manager \<Rightarrow> manager" where
  "set_task t p m = m\<lparr>cm_tasks := (cm_tasks m)[t := p]\<rparr>"

definition put_slot :: "nat \<Rightarrow> slot_state \<Rightarrow> manager \<Rightarrow> manager" where
  "put_slot s x m = m\<lparr>cm_slot := (cm_slot m)[s := x]\<rparr>"

definition referenced :: "manager \<Rightarrow> nat \<Rightarrow> bool" where
  "referenced m g \<longleftrightarrow> list_ex (\<lambda>x. sl_entry x = Some g) (cm_slot m) \<or>
     list_ex (\<lambda>p. g \<in> set (held p)) (cm_tasks m)"

text \<open>The entries among \<open>gs\<close> whose last owner is gone are closed, each once.\<close>

definition settle :: "nat list \<Rightarrow> manager \<Rightarrow> manager" where
  "settle gs m = m\<lparr>cm_closed := cm_closed m @ filter (\<lambda>g. \<not> referenced m g) gs\<rparr>"

definition retirement_due :: "manager \<Rightarrow> nat option \<Rightarrow> bool" where
  "retirement_due m retire_at = (case retire_at of Some at \<Rightarrow> at \<le> cm_now m | None \<Rightarrow> False)"

definition cache_entry_expired :: "manager \<Rightarrow> nat \<Rightarrow> bool" where
  "cache_entry_expired m g = (case cm_entries m g of Some e \<Rightarrow> retirement_due m (ce_retire_at e) | None \<Rightarrow> False)"

text \<open>A task that ends drops its guard, its mutex and its clones.\<close>

definition release_slot :: "nat option \<Rightarrow> manager \<Rightarrow> manager" where
  "release_slot owned m = (case owned of
       Some s \<Rightarrow> put_slot s ((cm_slot m ! s)\<lparr>sl_owner := None\<rparr>) m
     | None \<Rightarrow> m)"

definition end_task :: "nat \<Rightarrow> manager \<Rightarrow> manager" where
  "end_task t m =
     (let p = cm_tasks m ! t in settle (held p) (set_task t Idle (release_slot (owns_slot p) m)))"

section \<open>Steps\<close>

datatype label =
    Begin_scope nat
  | Acquire nat uuid connection_access "int app_result"
  | Connect nat pinned_connection connection_access "int app_result"
  | Enter nat
  | Lock nat
  | Reauthorise nat "int app_result"
  | Discard_expired nat
  | Retire nat
  | Open nat "(nat \<times> nat) app_result" "unit app_result"
  | Publish nat "int app_result"
  | Cancel nat
  | Begin_mutation nat
  | Begin_connection_mutation nat uuid connection_access "int app_result"
  | Mutate nat "string \<times> store_call"
  | Detach nat "uuid list option"
  | Fire nat
  | Tick

definition may_read :: "manager \<Rightarrow> bool" where
  "may_read m \<longleftrightarrow> Mutating \<notin> set (cm_tasks m)"

definition may_write :: "manager \<Rightarrow> bool" where
  "may_write m \<longleftrightarrow> Mutating \<notin> set (cm_tasks m) \<and> \<not> list_ex reads_scope (cm_tasks m)"

text \<open>The authority of a pin at the start of an operation: authorised, then still current.\<close>

definition authorized_context ::
  "manager \<Rightarrow> pinned_connection \<Rightarrow> connection_access \<Rightarrow> int app_result \<Rightarrow> task_phase app_result" where
  "authorized_context m pin access answer =
     rbind (authorize_pin pin access answer) (\<lambda>authorization.
     rbind (guard (\<not> is_pin_current (cm_store m) pin) scope_changed) (\<lambda>_.
     Inr (Context pin access authorization)))"

definition begin_context :: "nat \<Rightarrow> task_phase app_result \<Rightarrow> manager \<Rightarrow> manager" where
  "begin_context t r m = (case r of Inl _ \<Rightarrow> set_task t Idle m | Inr p \<Rightarrow> set_task t p m)"

text \<open>\<^verbatim>\<open>slots.entry(key).or_insert_with(..)\<close>: an empty slot stays mapped.\<close>

definition enter_slot :: "nat \<Rightarrow> manager \<Rightarrow> manager option" where
  "enter_slot t m =
     (case cm_tasks m ! t of
        Context pin access authorization \<Rightarrow>
          (case map_of (cm_slots m) (cache_key_new pin access) of
             Some s \<Rightarrow> Some (set_task t (Locking pin access authorization s) m)
           | None \<Rightarrow>
               (let s = length (cm_slot m)
                in Some (set_task t (Locking pin access authorization s)
                     (m\<lparr>cm_slots := (cache_key_new pin access, s) # cm_slots m,
                        cm_slot := cm_slot m @ [\<lparr>sl_entry = None, sl_owner = None\<rparr>]\<rparr>))))
      | _ \<Rightarrow> None)"

text \<open>The mutex is taken; a usable entry is cloned, an expired one taken out, or opening begins.\<close>

definition lock_slot :: "nat \<Rightarrow> manager \<Rightarrow> manager option" where
  "lock_slot t m =
     (case cm_tasks m ! t of
        Locking pin access authorization s \<Rightarrow>
          if sl_owner (cm_slot m ! s) \<noteq> None then None
          else (case sl_entry (cm_slot m ! s) of
                  Some g \<Rightarrow>
                    if cache_entry_expired m g
                    then Some (set_task t (Retiring pin access authorization s g)
                           (put_slot s ((cm_slot m ! s)\<lparr>sl_entry := None\<rparr>) m))
                    else Some (set_task t (Handoff pin access authorization s g) m)
                | None \<Rightarrow> Some (set_task t (Opening pin access authorization s)
                    (put_slot s ((cm_slot m ! s)\<lparr>sl_owner := Some t\<rparr>) m)))
      | _ \<Rightarrow> None)"

definition handoff_entry :: "nat \<Rightarrow> int app_result \<Rightarrow> manager \<Rightarrow> manager option" where
  "handoff_entry t answer m =
     (case cm_tasks m ! t of
        Handoff pin access authorization s g \<Rightarrow>
          (case reauthorize_pin pin access answer of
             Inl _ \<Rightarrow> Some (end_task t m)
           | Inr _ \<Rightarrow>
               if \<not> is_pin_current (cm_store m) pin then Some (end_task t m)
               else if cache_entry_expired m g then Some (set_task t (Discard pin access authorization s g) m)
               else Some (set_task t (Leased pin access g) m))
      | _ \<Rightarrow> None)"

text \<open>Only the generation that was seen is detached.\<close>

definition discard_expired :: "nat \<Rightarrow> manager \<Rightarrow> manager option" where
  "discard_expired t m =
     (case cm_tasks m ! t of
        Discard pin access authorization s g \<Rightarrow>
          if sl_owner (cm_slot m ! s) \<noteq> None then None
          else if sl_entry (cm_slot m ! s) = Some g
          then Some (set_task t (Retiring pin access authorization s g)
                 (put_slot s ((cm_slot m ! s)\<lparr>sl_entry := None\<rparr>) m))
          else Some (settle [g] (set_task t (Locking pin access authorization s) m))
      | _ \<Rightarrow> None)"

definition retire_entries :: "nat \<Rightarrow> manager \<Rightarrow> manager option" where
  "retire_entries t m =
     (case cm_tasks m ! t of
        Retiring pin access authorization s g \<Rightarrow> Some (settle [g] (set_task t (Locking pin access authorization s) m))
      | Detached gs \<Rightarrow> Some (settle gs (set_task t Idle m))
      | _ \<Rightarrow> None)"

definition open_pool ::
  "nat \<Rightarrow> (nat \<times> nat) app_result \<Rightarrow> unit app_result \<Rightarrow> manager \<Rightarrow> manager option" where
  "open_pool t lease driver m =
     (case cm_tasks m ! t of
        Opening pin access authorization s \<Rightarrow>
          (case connect_authorized (pin_profile pin) authorization lease driver (cm_now m) of
             Inl _ \<Rightarrow> Some (end_task t m)
           | Inr (retire_at, managed) \<Rightarrow>
               Some (set_task t (Opened pin access authorization s retire_at managed) m))
      | _ \<Rightarrow> None)"

text \<open>
  The open pool is published if the authority still holds and its credentials have not expired
  meanwhile; the generation is consumed before that last check.
\<close>

definition publish_entry :: "nat \<Rightarrow> int app_result \<Rightarrow> manager \<Rightarrow> manager option" where
  "publish_entry t answer m =
     (case cm_tasks m ! t of
        Opened pin access authorization s retire_at managed \<Rightarrow>
          (case reauthorize_pin pin access answer of
             Inl _ \<Rightarrow> Some (end_task t m)
           | Inr _ \<Rightarrow>
               if \<not> is_pin_current (cm_store m) pin then Some (end_task t m)
               else (let g = cm_next_generation m; m1 = m\<lparr>cm_next_generation := g + 1\<rparr>
                     in if retirement_due m retire_at then Some (end_task t m1)
                        else Some (set_task t (Leased pin access g)
                          (put_slot s \<lparr>sl_entry = Some g, sl_owner = None\<rparr>
                            (m1\<lparr>cm_entries := (cm_entries m)(g \<mapsto>
                                 \<lparr>ce_key = cache_key_new pin access, ce_retire_at = retire_at, ce_managed = managed\<rparr>),
                                cm_timers := (case retire_at of
                                   Some at \<Rightarrow> (s, g, at) # cm_timers m | None \<Rightarrow> cm_timers m)\<rparr>)))))
      | _ \<Rightarrow> None)"

text \<open>The slots of the detached keys leave the map and give up their entries.\<close>

definition detach_keys :: "uuid list option \<Rightarrow> manager \<Rightarrow> nat list \<times> manager" where
  "detach_keys ids m =
     (let gone = (\<lambda>k. case ids of None \<Rightarrow> True | Some cs \<Rightarrow> ck_connection_id k \<in> set cs);
          slots = map snd (filter (\<lambda>(k, _). gone k) (cm_slots m))
      in (List.map_filter (\<lambda>s. sl_entry (cm_slot m ! s)) slots,
          m\<lparr>cm_slots := filter (\<lambda>(k, _). \<not> gone k) (cm_slots m),
            cm_slot := map (\<lambda>i. if i \<in> set slots then (cm_slot m ! i)\<lparr>sl_entry := None\<rparr> else cm_slot m ! i)
              [0..<length (cm_slot m)]\<rparr>))"

definition finish_mutation :: "nat \<Rightarrow> uuid list option \<Rightarrow> manager \<Rightarrow> manager option" where
  "finish_mutation t ids m =
     (if cm_tasks m ! t = Mutating
      then (case detach_keys ids m of (gs, m1) \<Rightarrow> Some (set_task t (Detached gs) m1)) else None)"

definition fire_timer :: "nat \<Rightarrow> manager \<Rightarrow> manager option" where
  "fire_timer i m =
     (if i < length (cm_timers m)
      then (case cm_timers m ! i of (s, g, at) \<Rightarrow>
              if cm_now m < at \<or> sl_owner (cm_slot m ! s) \<noteq> None then None
              else (let m1 = m\<lparr>cm_timers := take i (cm_timers m) @ drop (i + 1) (cm_timers m)\<rparr>
                    in if sl_entry (cm_slot m ! s) = Some g
                       then Some (settle [g] (put_slot s ((cm_slot m ! s)\<lparr>sl_entry := None\<rparr>) m1))
                       else Some m1))
      else None)"

fun label_task :: "label \<Rightarrow> nat option" where
  "label_task (Begin_scope t) = Some t"
| "label_task (Acquire t _ _ _) = Some t"
| "label_task (Connect t _ _ _) = Some t"
| "label_task (Enter t) = Some t"
| "label_task (Lock t) = Some t"
| "label_task (Reauthorise t _) = Some t"
| "label_task (Discard_expired t) = Some t"
| "label_task (Retire t) = Some t"
| "label_task (Open t _ _) = Some t"
| "label_task (Publish t _) = Some t"
| "label_task (Cancel t) = Some t"
| "label_task (Begin_mutation t) = Some t"
| "label_task (Begin_connection_mutation t _ _ _) = Some t"
| "label_task (Mutate t _) = Some t"
| "label_task (Detach t _) = Some t"
| "label_task (Fire _) = None"
| "label_task Tick = None"

fun label_step :: "env \<Rightarrow> label \<Rightarrow> manager \<Rightarrow> manager option" where
  "label_step E (Begin_scope t) m =
     (if cm_tasks m ! t = Idle \<and> may_read m then Some (set_task t Scoped m) else None)"
| "label_step E (Acquire t cid access answer) m =
     (if cm_tasks m ! t = Idle \<and> may_read m
      then Some (begin_context t (rbind (pin_connection_for_read E (cm_store m) cid)
             (\<lambda>pin. authorized_context m pin access answer)) m) else None)"
| "label_step E (Connect t pin access answer) m =
     (if cm_tasks m ! t = Scoped
      then Some (begin_context t (authorized_context m pin access answer) m) else None)"
| "label_step E (Enter t) m = enter_slot t m"
| "label_step E (Lock t) m = lock_slot t m"
| "label_step E (Reauthorise t answer) m = handoff_entry t answer m"
| "label_step E (Discard_expired t) m = discard_expired t m"
| "label_step E (Retire t) m = retire_entries t m"
| "label_step E (Open t lease driver) m = open_pool t lease driver m"
| "label_step E (Publish t answer) m = publish_entry t answer m"
| "label_step E (Cancel t) m = Some (end_task t m)"
| "label_step E (Begin_mutation t) m =
     (if cm_tasks m ! t = Idle \<and> may_write m then Some (set_task t Mutating m) else None)"
| "label_step E (Begin_connection_mutation t cid access answer) m =
     (if cm_tasks m ! t = Idle \<and> may_write m
      then Some (case rbind (pin_connection_for_read E (cm_store m) cid)
             (\<lambda>pin. authorized_context m pin access answer) of
             Inl _ \<Rightarrow> m | Inr _ \<Rightarrow> set_task t Mutating m) else None)"
| "label_step E (Mutate t call) m =
     (if cm_tasks m ! t = Mutating then Some (m\<lparr>cm_store := store_exec E call (cm_store m)\<rparr>) else None)"
| "label_step E (Detach t ids) m = finish_mutation t ids m"
| "label_step E (Fire i) m = fire_timer i m"
| "label_step E Tick m = Some (m\<lparr>cm_now := cm_now m + 1\<rparr>)"

definition manager_step :: "env \<Rightarrow> label \<Rightarrow> manager \<Rightarrow> manager option" where
  "manager_step E l m =
     (case label_task l of
        Some t \<Rightarrow> if t < length (cm_tasks m) then label_step E l m else None
      | None \<Rightarrow> label_step E l m)"

inductive manager_reachable :: "env \<Rightarrow> manager \<Rightarrow> bool" for E where
  start: "manager_reachable E (manager_new db n)"
| step: "manager_reachable E m \<Longrightarrow> manager_step E l m = Some m' \<Longrightarrow> manager_reachable E m'"

end
