(* ===== verification/Connection_Invariant.thy ===== *)
theory Connection_Invariant
  imports Connection_Manager
begin

text \<open>
  The invariant of the connection manager: the scope gate excludes operations from mutations, a
  waiting task holds the slot its key is mapped to, a slot mutex has exactly one owner and no
  entry while it has one, entries and clones refer to pools that are open and were opened for
  exactly their key, and a pool is closed exactly when nothing refers to it any more.
\<close>

section \<open>What a phase refers to\<close>

fun phase_pin :: "task_phase \<Rightarrow> (pinned_connection \<times> connection_access) option" where
  "phase_pin (Context p a _) = Some (p, a)"
| "phase_pin (Locking p a _ _) = Some (p, a)"
| "phase_pin (Handoff p a _ _ _) = Some (p, a)"
| "phase_pin (Discard p a _ _ _) = Some (p, a)"
| "phase_pin (Retiring p a _ _ _) = Some (p, a)"
| "phase_pin (Opening p a _ _) = Some (p, a)"
| "phase_pin (Opened p a _ _ _ _) = Some (p, a)"
| "phase_pin (Leased p a _) = Some (p, a)"
| "phase_pin _ = None"

fun phase_slot :: "task_phase \<Rightarrow> nat option" where
  "phase_slot (Locking _ _ _ s) = Some s"
| "phase_slot (Handoff _ _ _ s _) = Some s"
| "phase_slot (Discard _ _ _ s _) = Some s"
| "phase_slot (Retiring _ _ _ s _) = Some s"
| "phase_slot (Opening _ _ _ s) = Some s"
| "phase_slot (Opened _ _ _ s _ _) = Some s"
| "phase_slot _ = None"

definition phase_key :: "task_phase \<Rightarrow> cache_key option" where
  "phase_key p = map_option (\<lambda>(pin, access). cache_key_new pin access) (phase_pin p)"

lemma phase_pin_reads: "phase_pin p \<noteq> None \<Longrightarrow> reads_scope p"
  by (cases p) simp_all

lemma phase_slot_reads: "phase_slot p \<noteq> None \<Longrightarrow> reads_scope p"
  by (cases p) simp_all

lemma owns_slot_phase: "owns_slot p = Some s \<Longrightarrow> phase_slot p = Some s"
  by (cases p) simp_all

lemma owns_slot_reads: "owns_slot p = Some s \<Longrightarrow> reads_scope p"
  by (cases p) simp_all

lemma held_reads: "reads_scope p \<Longrightarrow> g \<in> set (held p) \<Longrightarrow> held p = [g]"
  by (cases p) simp_all

lemma owner_holds_nothing: "owns_slot p = Some s \<Longrightarrow> held p = []"
  by (cases p) simp_all

section \<open>The invariant\<close>

definition gate_ok :: "manager \<Rightarrow> bool" where
  "gate_ok m \<longleftrightarrow> (\<forall>t < length (cm_tasks m). cm_tasks m ! t = Mutating \<longrightarrow>
     (\<forall>t' < length (cm_tasks m). t' \<noteq> t \<longrightarrow> \<not> reads_scope (cm_tasks m ! t') \<and> cm_tasks m ! t' \<noteq> Mutating))"

definition map_ok :: "manager \<Rightarrow> bool" where
  "map_ok m \<longleftrightarrow> distinct (map fst (cm_slots m)) \<and> distinct (map snd (cm_slots m)) \<and>
     (\<forall>(k, s) \<in> set (cm_slots m). s < length (cm_slot m)) \<and>
     (\<forall>(s, g, at) \<in> set (cm_timers m). s < length (cm_slot m))"

definition pool_ok :: "manager \<Rightarrow> nat \<Rightarrow> bool" where
  "pool_ok m g \<longleftrightarrow> g < cm_next_generation m \<and> g \<notin> set (cm_closed m) \<and> cm_entries m g \<noteq> None"

definition entry_ok :: "manager \<Rightarrow> nat \<Rightarrow> nat \<Rightarrow> bool" where
  "entry_ok m s g \<longleftrightarrow> pool_ok m g \<and> (\<exists>e. cm_entries m g = Some e \<and> map_of (cm_slots m) (ce_key e) = Some s \<and>
     (\<forall>at. ce_retire_at e = Some at \<longrightarrow> (s, g, at) \<in> set (cm_timers m)))"

definition slots_ok :: "manager \<Rightarrow> bool" where
  "slots_ok m \<longleftrightarrow> (\<forall>s < length (cm_slot m). \<forall>g. sl_entry (cm_slot m ! s) = Some g \<longrightarrow>
     sl_owner (cm_slot m ! s) = None \<and> entry_ok m s g)"

definition owners_ok :: "manager \<Rightarrow> bool" where
  "owners_ok m \<longleftrightarrow> (\<forall>s < length (cm_slot m). \<forall>t. sl_owner (cm_slot m ! s) = Some t \<longleftrightarrow>
     t < length (cm_tasks m) \<and> owns_slot (cm_tasks m ! t) = Some s)"

definition phase_ok :: "manager \<Rightarrow> task_phase \<Rightarrow> bool" where
  "phase_ok m p \<longleftrightarrow>
     (\<forall>pin access. phase_pin p = Some (pin, access) \<longrightarrow> is_pin_current (cm_store m) pin) \<and>
     (\<forall>s. phase_slot p = Some s \<longrightarrow> s < length (cm_slot m) \<and>
        (\<exists>k. phase_key p = Some k \<and> map_of (cm_slots m) k = Some s)) \<and>
     distinct (held p) \<and>
     (\<forall>g \<in> set (held p). pool_ok m g \<and> (\<exists>e. cm_entries m g = Some e \<and>
        (reads_scope p \<longrightarrow> phase_key p = Some (ce_key e))))"

definition phases_ok :: "manager \<Rightarrow> bool" where
  "phases_ok m \<longleftrightarrow> (\<forall>t < length (cm_tasks m). phase_ok m (cm_tasks m ! t))"

text \<open>No pool leaks but those in \<open>gs\<close>, which are about to be settled.\<close>

definition closed_ok :: "nat list \<Rightarrow> manager \<Rightarrow> bool" where
  "closed_ok gs m \<longleftrightarrow> distinct (cm_closed m) \<and>
     (\<forall>g \<in> set (cm_closed m). cm_entries m g \<noteq> None \<and> \<not> referenced m g) \<and>
     (\<forall>g. cm_entries m g \<noteq> None \<longrightarrow> g < cm_next_generation m \<and>
        (g \<in> set (cm_closed m) \<or> referenced m g \<or> g \<in> set gs))"

definition manager_ok :: "nat list \<Rightarrow> manager \<Rightarrow> bool" where
  "manager_ok gs m \<longleftrightarrow> gate_ok m \<and> map_ok m \<and> slots_ok m \<and> owners_ok m \<and> phases_ok m \<and> closed_ok gs m"

lemma manager_okD:
  assumes "manager_ok gs m"
  shows "gate_ok m" "map_ok m" "slots_ok m" "owners_ok m" "phases_ok m" "closed_ok gs m"
  using assms by (simp_all add: manager_ok_def)

lemma phases_okD: "manager_ok gs m \<Longrightarrow> t < length (cm_tasks m) \<Longrightarrow> phase_ok m (cm_tasks m ! t)"
  by (simp add: manager_ok_def phases_ok_def)

lemma bex_set_conv_nth: "(\<exists>x \<in> set xs. P x) \<longleftrightarrow> (\<exists>i < length xs. P (xs ! i))"
  by (metis in_set_conv_nth)

lemma referenced_iff:
  "referenced m g \<longleftrightarrow> (\<exists>s < length (cm_slot m). sl_entry (cm_slot m ! s) = Some g) \<or>
     (\<exists>t < length (cm_tasks m). g \<in> set (held (cm_tasks m ! t)))"
  by (simp add: referenced_def list_ex_iff bex_set_conv_nth)

lemma referenced_pool_ok:
  assumes "manager_ok gs m" "referenced m g"
  shows "pool_ok m g"
proof -
  consider s where "s < length (cm_slot m)" "sl_entry (cm_slot m ! s) = Some g"
    | t where "t < length (cm_tasks m)" "g \<in> set (held (cm_tasks m ! t))"
    using assms(2) by (auto simp: referenced_iff)
  then show ?thesis
  proof cases
    case 1
    then show ?thesis using manager_okD(3) [OF assms(1)] by (auto simp: slots_ok_def entry_ok_def)
  next
    case 2
    then show ?thesis using phases_okD [OF assms(1)] by (auto simp: phase_ok_def)
  qed
qed

lemma manager_ok_weaken:
  assumes "manager_ok gs m" "\<forall>g \<in> set gs. referenced m g \<or> g \<in> set hs"
  shows "manager_ok hs m"
  using assms unfolding manager_ok_def closed_ok_def by blast

lemma manager_ok_start: "manager_ok [] (manager_new db n)"
  by (simp add: manager_ok_def gate_ok_def map_ok_def slots_ok_def owners_ok_def phases_ok_def phase_ok_def
      closed_ok_def manager_new_def)

section \<open>Settling\<close>

lemma settle_simps [simp]:
  "cm_tasks (settle gs m) = cm_tasks m" "cm_slot (settle gs m) = cm_slot m" "cm_slots (settle gs m) = cm_slots m"
  "cm_entries (settle gs m) = cm_entries m" "cm_store (settle gs m) = cm_store m"
  "cm_next_generation (settle gs m) = cm_next_generation m" "cm_timers (settle gs m) = cm_timers m"
  "cm_now (settle gs m) = cm_now m"
  "cm_closed (settle gs m) = cm_closed m @ filter (\<lambda>g. \<not> referenced m g) gs"
  "referenced (settle gs m) = referenced m"
  by (simp_all add: settle_def referenced_def fun_eq_iff)

lemma settle_nil: "settle [] m = m"
  by (simp add: settle_def)

lemma settle_ok:
  assumes "manager_ok gs m" "distinct gs" "\<forall>g \<in> set gs. pool_ok m g"
  shows "manager_ok [] (settle gs m)"
proof -
  note ok = manager_okD [OF assms(1)]
  have pool: "pool_ok (settle gs m) g" if "pool_ok m g" "referenced m g" for g
    using that by (simp add: pool_ok_def)
  have entry: "entry_ok (settle gs m) s g" if "entry_ok m s g" "s < length (cm_slot m)"
    "sl_entry (cm_slot m ! s) = Some g" for s g
  proof -
    have "referenced m g" using that(2,3) by (auto simp: referenced_iff)
    then show ?thesis using that(1) pool by (auto simp: entry_ok_def)
  qed
  have phase: "phase_ok (settle gs m) (cm_tasks m ! t)" if "t < length (cm_tasks m)" for t
  proof -
    have "referenced m g" if "g \<in> set (held (cm_tasks m ! t))" for g
      using that \<open>t < length (cm_tasks m)\<close> by (auto simp: referenced_iff)
    then show ?thesis using phases_okD [OF assms(1) that] pool by (auto simp: phase_ok_def)
  qed
  have "closed_ok [] (settle gs m)"
    using ok(6) assms(2,3) by (auto simp: closed_ok_def pool_ok_def)
  then show ?thesis
    using ok entry phase by (auto simp: manager_ok_def gate_ok_def map_ok_def slots_ok_def owners_ok_def phases_ok_def)
qed

section \<open>Primitive updates\<close>

lemma update_simps [simp]:
  "cm_tasks (set_task t p m) = (cm_tasks m)[t := p]" "cm_slot (set_task t p m) = cm_slot m"
  "cm_slots (set_task t p m) = cm_slots m" "cm_entries (set_task t p m) = cm_entries m"
  "cm_store (set_task t p m) = cm_store m" "cm_next_generation (set_task t p m) = cm_next_generation m"
  "cm_timers (set_task t p m) = cm_timers m" "cm_closed (set_task t p m) = cm_closed m"
  "cm_now (set_task t p m) = cm_now m"
  "cm_tasks (put_slot s x m) = cm_tasks m" "cm_slot (put_slot s x m) = (cm_slot m)[s := x]"
  "cm_slots (put_slot s x m) = cm_slots m" "cm_entries (put_slot s x m) = cm_entries m"
  "cm_store (put_slot s x m) = cm_store m" "cm_next_generation (put_slot s x m) = cm_next_generation m"
  "cm_timers (put_slot s x m) = cm_timers m" "cm_closed (put_slot s x m) = cm_closed m"
  "cm_now (put_slot s x m) = cm_now m"
  by (simp_all add: set_task_def put_slot_def)

lemma all_nth_update:
  "t < length xs \<Longrightarrow> (\<forall>i < length xs. P i (xs[t := x] ! i)) \<longleftrightarrow> P t x \<and> (\<forall>i < length xs. i \<noteq> t \<longrightarrow> P i (xs ! i))"
  by (auto simp: nth_list_update)

lemma ex_nth_update:
  "t < length xs \<Longrightarrow> (\<exists>i < length xs. P (xs[t := x] ! i)) \<longleftrightarrow> P x \<or> (\<exists>i < length xs. i \<noteq> t \<and> P (xs ! i))"
  by (auto simp: nth_list_update)

definition free_slot :: slot_state where
  "free_slot = \<lparr>sl_entry = None, sl_owner = None\<rparr>"

text \<open>References besides those of one task and one slot.\<close>

definition other_refs :: "manager \<Rightarrow> nat \<Rightarrow> nat \<Rightarrow> nat \<Rightarrow> bool" where
  "other_refs m t s g \<longleftrightarrow> (\<exists>i < length (cm_slot m). i \<noteq> s \<and> sl_entry (cm_slot m ! i) = Some g) \<or>
     (\<exists>i < length (cm_tasks m). i \<noteq> t \<and> g \<in> set (held (cm_tasks m ! i)))"

lemma referenced_set_both:
  assumes "t < length (cm_tasks m)" "s < length (cm_slot m)"
  shows "referenced (set_task t p (put_slot s x m)) g \<longleftrightarrow>
      g \<in> set (held p) \<or> sl_entry x = Some g \<or> other_refs m t s g"
  using assms unfolding referenced_iff other_refs_def
  by (auto simp: ex_nth_update [where P = "\<lambda>x. sl_entry x = Some g"]
      ex_nth_update [where P = "\<lambda>p. g \<in> set (held p)"])

lemma referenced_both:
  assumes "t < length (cm_tasks m)" "s < length (cm_slot m)"
  shows "referenced m g \<longleftrightarrow> g \<in> set (held (cm_tasks m ! t)) \<or> sl_entry (cm_slot m ! s) = Some g \<or> other_refs m t s g"
  using referenced_set_both [OF assms, of "cm_tasks m ! t" "cm_slot m ! s" g]
  by (simp add: set_task_def put_slot_def)

lemma referenced_set_task:
  assumes "t < length (cm_tasks m)"
  shows "referenced (set_task t p m) g \<longleftrightarrow> g \<in> set (held p) \<or> other_refs m t (length (cm_slot m)) g"
  using assms unfolding referenced_iff other_refs_def
  by (auto simp: ex_nth_update [where P = "\<lambda>p. g \<in> set (held p)"])

lemma referenced_at_task:
  assumes "t < length (cm_tasks m)"
  shows "referenced m g \<longleftrightarrow> g \<in> set (held (cm_tasks m ! t)) \<or> other_refs m t (length (cm_slot m)) g"
  using referenced_set_task [OF assms, of "cm_tasks m ! t" g] by (simp add: set_task_def)

lemma referenced_put_slot:
  assumes "s < length (cm_slot m)"
  shows "referenced (put_slot s x m) g \<longleftrightarrow> sl_entry x = Some g \<or> other_refs m (length (cm_tasks m)) s g"
  using assms unfolding referenced_iff other_refs_def
  by (auto simp: ex_nth_update [where P = "\<lambda>x. sl_entry x = Some g"])

lemma referenced_at_slot:
  assumes "s < length (cm_slot m)"
  shows "referenced m g \<longleftrightarrow> sl_entry (cm_slot m ! s) = Some g \<or> other_refs m (length (cm_tasks m)) s g"
  using referenced_put_slot [OF assms, of "cm_slot m ! s" g] by (simp add: put_slot_def)

text \<open>Phases and entries are judged by a part of the state that most steps leave alone.\<close>

definition same_pools :: "manager \<Rightarrow> manager \<Rightarrow> bool" where
  "same_pools m m' \<longleftrightarrow> cm_entries m' = cm_entries m \<and> cm_next_generation m' = cm_next_generation m \<and>
     cm_closed m' = cm_closed m \<and> cm_slots m' = cm_slots m \<and> cm_store m' = cm_store m \<and>
     cm_timers m' = cm_timers m \<and> length (cm_slot m') = length (cm_slot m)"

lemma same_poolsD:
  assumes "same_pools m m'"
  shows "pool_ok m' = pool_ok m" "entry_ok m' = entry_ok m" "phase_ok m' = phase_ok m"
    "map_ok m' = map_ok m"
  using assms by (auto simp: same_pools_def pool_ok_def entry_ok_def phase_ok_def map_ok_def fun_eq_iff)

definition gate_admits :: "manager \<Rightarrow> nat \<Rightarrow> task_phase \<Rightarrow> bool" where
  "gate_admits m t p \<longleftrightarrow> (reads_scope p \<longrightarrow> reads_scope (cm_tasks m ! t) \<or> may_read m) \<and>
     (p = Mutating \<longrightarrow> cm_tasks m ! t = Mutating \<or> may_write m)"

lemma gate_ok_set_task:
  assumes "gate_ok m" "gate_admits m t p"
  shows "gate_ok (set_task t p m)"
  unfolding gate_ok_def update_simps length_list_update
proof (intro allI impI)
  fix i j
  assume i: "i < length (cm_tasks m)" "(cm_tasks m)[t := p] ! i = Mutating"
    and j: "j < length (cm_tasks m)" "j \<noteq> i"
  have writer: "\<not> reads_scope x \<and> x \<noteq> Mutating" if "may_write m" "x \<in> set (cm_tasks m)" for x
    using that unfolding may_write_def list_ex_iff by blast
  have reader: "x \<noteq> Mutating" if "may_read m" "x \<in> set (cm_tasks m)" for x
    using that unfolding may_read_def by blast
  have old: "\<not> reads_scope (cm_tasks m ! b)" "cm_tasks m ! b \<noteq> Mutating"
    if "a < length (cm_tasks m)" "cm_tasks m ! a = Mutating" "b < length (cm_tasks m)" "b \<noteq> a" for a b
    using assms(1) [unfolded gate_ok_def, THEN spec, THEN mp, OF that(1), THEN mp, OF that(2), THEN spec,
        THEN mp, OF that(3)] that(4) by simp_all
  show "\<not> reads_scope ((cm_tasks m)[t := p] ! j) \<and> (cm_tasks m)[t := p] ! j \<noteq> Mutating"
  proof (cases "i = t")
    case True
    then have p: "p = Mutating" using i by simp
    then consider "cm_tasks m ! t = Mutating" | "may_write m" using assms(2) by (auto simp: gate_admits_def)
    then have "\<not> reads_scope (cm_tasks m ! j) \<and> cm_tasks m ! j \<noteq> Mutating"
      using old [of t j] writer [OF _ nth_mem [OF j(1)]] True i(1) j by cases blast+
    then show ?thesis using True j by simp
  next
    case False
    then have m: "cm_tasks m ! i = Mutating" using i by simp
    show ?thesis
    proof (cases "j = t")
      case True
      have "\<not> reads_scope p" "p \<noteq> Mutating"
        using assms(2) [unfolded gate_admits_def] old [OF i(1) m, of t] reader [OF _ nth_mem [OF i(1)]]
          writer [OF _ nth_mem [OF i(1)]] m True j by blast+
      then show ?thesis using True j(1) by simp
    next
      case False
      then show ?thesis using old [OF i(1) m j] by simp
    qed
  qed
qed

lemma closed_ok_transfer:
  assumes "closed_ok gs m" "same_pools m m'"
    and "\<And>g. referenced m' g \<Longrightarrow> referenced m g \<or> pool_ok m g"
    and "\<And>g. referenced m g \<or> g \<in> set gs \<Longrightarrow> referenced m' g \<or> g \<in> set hs"
  shows "closed_ok hs m'"
  using assms unfolding closed_ok_def same_pools_def pool_ok_def by metis

lemma owners_ok_update:
  assumes "owners_ok m" "t < length (cm_tasks m)" "s < length (cm_slot m)"
    and "sl_owner (cm_slot m ! s) = None \<or> sl_owner (cm_slot m ! s) = Some t"
    and "owns_slot (cm_tasks m ! t) = None \<or> owns_slot (cm_tasks m ! t) = Some s"
    and "owns_slot p = (if sl_owner x = Some t then Some s else None)"
    and "sl_owner x = None \<or> sl_owner x = Some t"
  shows "owners_ok (set_task t p (put_slot s x m))"
  unfolding owners_ok_def update_simps length_list_update
proof (intro allI impI)
  fix r i
  assume r: "r < length (cm_slot m)"
  have old: "sl_owner (cm_slot m ! r) = Some i \<longleftrightarrow> i < length (cm_tasks m) \<and> owns_slot (cm_tasks m ! i) = Some r" for i
    using assms(1) r by (simp add: owners_ok_def)
  show "sl_owner ((cm_slot m)[s := x] ! r) = Some i \<longleftrightarrow>
      i < length (cm_tasks m) \<and> owns_slot ((cm_tasks m)[t := p] ! i) = Some r"
    using old [of i] assms(2-7) by (cases "r = s"; cases "i = t") auto
qed

text \<open>
  A task moves to a phase that owns what it owned; the clones it drops remain to be settled.
\<close>

lemma set_task_ok:
  assumes "manager_ok gs m" "t < length (cm_tasks m)" "phase_ok m p" "gate_admits m t p"
    and "owns_slot p = owns_slot (cm_tasks m ! t)"
  shows "manager_ok (held (cm_tasks m ! t) @ gs) (set_task t p m)"
proof -
  note ok = manager_okD [OF assms(1)]
  have same: "same_pools m (set_task t p m)" by (simp add: same_pools_def)
  have "slots_ok (set_task t p m)" using ok(3) by (simp add: slots_ok_def same_poolsD [OF same])
  moreover have "owners_ok (set_task t p m)"
    using ok(4) assms(2,5) unfolding owners_ok_def by (simp add: nth_list_update)
  moreover have "phases_ok (set_task t p m)"
    using ok(5) assms(2,3) by (simp add: phases_ok_def same_poolsD [OF same] all_nth_update [where P = "\<lambda>_. phase_ok m"])
  moreover have "closed_ok (held (cm_tasks m ! t) @ gs) (set_task t p m)"
  proof -
    have new: "referenced m g \<or> pool_ok m g" if "referenced (set_task t p m) g" for g
      using that assms(3) referenced_set_task [OF assms(2)] referenced_at_task [OF assms(2)]
      by (auto simp: phase_ok_def)
    have old: "referenced (set_task t p m) g \<or> g \<in> set (held (cm_tasks m ! t))" if "referenced m g" for g
      using that referenced_set_task [OF assms(2)] referenced_at_task [OF assms(2)] by auto
    show ?thesis by (rule closed_ok_transfer [OF ok(6) same]) (use new old in auto)
  qed
  ultimately show ?thesis
    using gate_ok_set_task [OF ok(1) assms(4)] ok(2) by (simp add: manager_ok_def same_poolsD [OF same])
qed

lemma set_task_keeps:
  assumes "manager_ok [] m" "t < length (cm_tasks m)" "phase_ok m p" "gate_admits m t p"
    and "owns_slot p = owns_slot (cm_tasks m ! t)" "set (held (cm_tasks m ! t)) \<subseteq> set (held p)"
  shows "manager_ok [] (set_task t p m)"
proof (rule manager_ok_weaken [OF set_task_ok [OF assms(1-5)]])
  show "\<forall>g \<in> set (held (cm_tasks m ! t) @ []). referenced (set_task t p m) g \<or> g \<in> set []"
    using referenced_set_task [OF assms(2)] assms(6) by auto
qed

lemma set_task_settle:
  assumes "manager_ok gs m" "t < length (cm_tasks m)" "phase_ok m p" "gate_admits m t p"
    and "owns_slot p = owns_slot (cm_tasks m ! t)" "set gs \<subseteq> set (held (cm_tasks m ! t))"
  shows "manager_ok [] (settle (held (cm_tasks m ! t)) (set_task t p m))"
proof (rule settle_ok)
  show "manager_ok (held (cm_tasks m ! t)) (set_task t p m)"
    by (rule manager_ok_weaken [OF set_task_ok [OF assms(1-5)]]) (use assms(6) in auto)
  show "distinct (held (cm_tasks m ! t))" "\<forall>g \<in> set (held (cm_tasks m ! t)). pool_ok (set_task t p m) g"
    using phases_okD [OF assms(1,2)] by (auto simp: phase_ok_def pool_ok_def)
qed

text \<open>A slot gives up its entry.\<close>

lemma clear_entry_ok:
  assumes "manager_ok gs m" "s < length (cm_slot m)"
  shows "manager_ok ((case sl_entry (cm_slot m ! s) of Some g \<Rightarrow> [g] | None \<Rightarrow> []) @ gs)
     (put_slot s ((cm_slot m ! s)\<lparr>sl_entry := None\<rparr>) m)"
    (is "manager_ok _ ?m")
proof -
  note ok = manager_okD [OF assms(1)]
  have same: "same_pools m ?m" by (simp add: same_pools_def)
  have "slots_ok ?m"
    using ok(3) assms(2) by (auto simp: slots_ok_def same_poolsD [OF same] nth_list_update)
  moreover have "owners_ok ?m" using ok(4) assms(2) by (auto simp: owners_ok_def nth_list_update)
  moreover have "closed_ok ((case sl_entry (cm_slot m ! s) of Some g \<Rightarrow> [g] | None \<Rightarrow> []) @ gs) ?m"
  proof -
    have new: "referenced m g" if "referenced ?m g" for g
      using that referenced_put_slot [OF assms(2), of "(cm_slot m ! s)\<lparr>sl_entry := None\<rparr>" g]
        referenced_at_slot [OF assms(2), of g] by simp
    have old: "referenced ?m g \<or> g \<in> set (case sl_entry (cm_slot m ! s) of Some g \<Rightarrow> [g] | None \<Rightarrow> [])"
      if "referenced m g" for g
      using that referenced_put_slot [OF assms(2), of "(cm_slot m ! s)\<lparr>sl_entry := None\<rparr>" g]
        referenced_at_slot [OF assms(2), of g] by auto
    show ?thesis by (rule closed_ok_transfer [OF ok(6) same]) (use new old in auto)
  qed
  ultimately show ?thesis
    using ok by (simp add: manager_ok_def same_poolsD [OF same] gate_ok_def phases_ok_def)
qed

text \<open>A task takes a free mutex with nothing cached, or returns one, publishing a pool or not.\<close>

lemma take_slot_ok:
  assumes "manager_ok [] m" "t < length (cm_tasks m)" "phase_ok m p" "gate_admits m t p"
    and "owns_slot (cm_tasks m ! t) = None" "owns_slot p = Some s" "held (cm_tasks m ! t) = []"
    and "sl_owner (cm_slot m ! s) = None" "sl_entry (cm_slot m ! s) = None"
  shows "manager_ok [] (set_task t p (put_slot s ((cm_slot m ! s)\<lparr>sl_owner := Some t\<rparr>) m))"
    (is "manager_ok _ ?m")
proof -
  note ok = manager_okD [OF assms(1)]
  have same: "same_pools m ?m" by (simp add: same_pools_def)
  have s: "s < length (cm_slot m)"
    using assms(3) owns_slot_phase [OF assms(6)] by (simp add: phase_ok_def)
  have "held p = []" by (rule owner_holds_nothing [OF assms(6)])
  then have ref: "referenced ?m g = referenced m g" for g
    using referenced_set_both [OF assms(2) s] referenced_both [OF assms(2) s] assms(7,9) by simp
  have "gate_ok ?m" using gate_ok_set_task [OF ok(1) assms(4)] by (simp add: gate_ok_def)
  moreover have "slots_ok ?m"
    using ok(3) assms(9) s by (auto simp: slots_ok_def same_poolsD [OF same] nth_list_update)
  moreover have "owners_ok ?m"
    by (rule owners_ok_update [OF ok(4) assms(2) s]) (use assms(5,6,8) in simp_all)
  moreover have "phases_ok ?m"
    using ok(5) assms(2,3) by (simp add: phases_ok_def same_poolsD [OF same] all_nth_update [where P = "\<lambda>_. phase_ok m"])
  ultimately show ?thesis
    using ok ref by (simp add: manager_ok_def same_poolsD [OF same] closed_ok_def)
qed

lemma return_slot_ok:
  assumes "manager_ok gs m" "t < length (cm_tasks m)" "phase_ok m p" "gate_admits m t p"
    and "owns_slot (cm_tasks m ! t) = Some s" "owns_slot p = None"
    and "case e of Some g \<Rightarrow> entry_ok m s g | None \<Rightarrow> True" "\<forall>g \<in> set gs. g \<in> set (held p) \<or> e = Some g"
  shows "manager_ok [] (set_task t p (put_slot s \<lparr>sl_entry = e, sl_owner = None\<rparr> m))"
    (is "manager_ok _ ?m")
proof -
  note ok = manager_okD [OF assms(1)]
  have same: "same_pools m ?m" by (simp add: same_pools_def)
  have s: "s < length (cm_slot m)"
    using phases_okD [OF assms(1,2)] owns_slot_phase [OF assms(5)] by (simp add: phase_ok_def)
  have owner: "sl_owner (cm_slot m ! s) = Some t" using ok(4) s assms(2,5) by (auto simp: owners_ok_def)
  have free: "sl_entry (cm_slot m ! s) = None"
    using ok(3) s owner by (cases "sl_entry (cm_slot m ! s)") (auto simp: slots_ok_def)
  have "held (cm_tasks m ! t) = []" by (rule owner_holds_nothing [OF assms(5)])
  then have ref: "referenced ?m g \<longleftrightarrow> referenced m g \<or> g \<in> set (held p) \<or> e = Some g" for g
    using referenced_set_both [OF assms(2) s] referenced_both [OF assms(2) s] free by auto
  have pool: "pool_ok m g" if "g \<in> set (held p) \<or> e = Some g" for g
    using that assms(3,7) by (auto simp: phase_ok_def entry_ok_def)
  have "gate_ok ?m" using gate_ok_set_task [OF ok(1) assms(4)] by (simp add: gate_ok_def)
  moreover have "slots_ok ?m"
    using ok(3) assms(7) s by (auto simp: slots_ok_def same_poolsD [OF same] nth_list_update)
  moreover have "owners_ok ?m"
    by (rule owners_ok_update [OF ok(4) assms(2) s]) (use assms(5,6) owner in simp_all)
  moreover have "phases_ok ?m"
    using ok(5) assms(2,3) by (simp add: phases_ok_def same_poolsD [OF same] all_nth_update [where P = "\<lambda>_. phase_ok m"])
  moreover have "closed_ok [] ?m"
    by (rule closed_ok_transfer [OF ok(6) same]) (use assms(8) ref pool in auto)
  ultimately show ?thesis
    using ok by (simp add: manager_ok_def same_poolsD [OF same])
qed

lemma idle_ok: "phase_ok m Idle" "gate_admits m t Idle"
  by (simp_all add: phase_ok_def gate_admits_def)

lemma end_task_ok:
  assumes "manager_ok [] m" "t < length (cm_tasks m)"
  shows "manager_ok [] (end_task t m)"
proof (cases "owns_slot (cm_tasks m ! t)")
  case None
  then show ?thesis
    using set_task_settle [OF assms idle_ok] by (simp add: end_task_def release_slot_def)
next
  case (Some s)
  have "sl_entry (cm_slot m ! s) = None"
  proof -
    have s: "s < length (cm_slot m)"
      using phases_okD [OF assms] owns_slot_phase [OF Some] by (simp add: phase_ok_def)
    then have "sl_owner (cm_slot m ! s) = Some t"
      using manager_okD(4) [OF assms(1)] assms(2) Some by (auto simp: owners_ok_def)
    then show ?thesis
      using manager_okD(3) [OF assms(1)] s by (cases "sl_entry (cm_slot m ! s)") (auto simp: slots_ok_def)
  qed
  then have x: "(cm_slot m ! s)\<lparr>sl_owner := None\<rparr> = \<lparr>sl_entry = None, sl_owner = None\<rparr>" by simp
  have "manager_ok [] (set_task t Idle (put_slot s ((cm_slot m ! s)\<lparr>sl_owner := None\<rparr>) m))"
    unfolding x by (rule return_slot_ok [OF assms idle_ok Some]) simp_all
  then show ?thesis
    using owner_holds_nothing [OF Some] Some by (simp add: end_task_def release_slot_def settle_nil)
qed

end
