(* ===== verification/Connection_Safety.thy ===== *)
theory Connection_Safety
  imports Connection_Invariant
begin

text \<open>
  Every step of the connection manager keeps its invariant, so every reachable state has it.
\<close>

section \<open>Changes that leave tasks and slots alone\<close>

lemma manager_ok_same:
  assumes "manager_ok gs m" "same_pools m m'" "cm_tasks m' = cm_tasks m" "cm_slot m' = cm_slot m"
  shows "manager_ok gs m'"
proof -
  have "referenced m' = referenced m" using assms(3,4) by (simp add: referenced_def fun_eq_iff)
  then show ?thesis
    using assms same_poolsD [OF assms(2)]
    by (simp add: manager_ok_def gate_ok_def slots_ok_def owners_ok_def phases_ok_def closed_ok_def same_pools_def)
qed

lemma tick_ok: "manager_ok gs m \<Longrightarrow> manager_ok gs (m\<lparr>cm_now := n\<rparr>)"
  by (erule manager_ok_same) (simp_all add: same_pools_def)

lemma mutate_ok:
  assumes "manager_ok gs m" "t < length (cm_tasks m)" "cm_tasks m ! t = Mutating"
  shows "manager_ok gs (m\<lparr>cm_store := db\<rparr>)"
proof -
  note ok = manager_okD [OF assms(1)]
  have "phase_pin (cm_tasks m ! i) = None" if "i < length (cm_tasks m)" for i
  proof (cases "i = t")
    case False
    then have "\<not> reads_scope (cm_tasks m ! i)"
      using ok(1) [unfolded gate_ok_def, THEN spec, THEN mp, OF assms(2), THEN mp, OF assms(3)] that by blast
    then show ?thesis using phase_pin_reads by blast
  qed (use assms(3) in simp)
  then have "phases_ok (m\<lparr>cm_store := db\<rparr>)"
    using ok(5) by (simp add: phases_ok_def phase_ok_def pool_ok_def)
  moreover have "referenced (m\<lparr>cm_store := db\<rparr>) = referenced m" by (simp add: referenced_def fun_eq_iff)
  ultimately show ?thesis
    using ok by (simp add: manager_ok_def gate_ok_def map_ok_def slots_ok_def owners_ok_def closed_ok_def
        entry_ok_def pool_ok_def)
qed

lemma new_pool_ok:
  assumes "manager_ok [] m" "g = cm_next_generation m" "set (cm_timers m) \<subseteq> set ts"
    and "\<forall>(s, g, at) \<in> set ts. s < length (cm_slot m)"
  shows "manager_ok [g] (m\<lparr>cm_next_generation := g + 1, cm_entries := (cm_entries m)(g \<mapsto> e), cm_timers := ts\<rparr>)"
    (is "manager_ok _ ?m")
proof -
  note ok = manager_okD [OF assms(1)]
  have ref: "referenced ?m = referenced m" by (simp add: referenced_def fun_eq_iff)
  have old: "h < g" if "cm_entries m h \<noteq> None" for h
    using ok(6) that assms(2) by (auto simp: closed_ok_def)
  then have pool: "pool_ok m h \<Longrightarrow> pool_ok ?m h \<and> h \<noteq> g" for h
    using assms(2) by (auto simp: pool_ok_def)
  have entry: "entry_ok m s h \<Longrightarrow> entry_ok ?m s h" for s h
    using pool [of h] assms(3) by (auto simp: entry_ok_def)
  have phase: "phase_ok m p \<Longrightarrow> phase_ok ?m p" for p
    using pool by (fastforce simp: phase_ok_def)
  have "map_ok ?m" using ok(2) assms(4) by (simp add: map_ok_def)
  moreover have "slots_ok ?m" using ok(3) entry by (simp add: slots_ok_def)
  moreover have "phases_ok ?m" using ok(5) phase by (simp add: phases_ok_def)
  moreover have "closed_ok [g] ?m"
    using ok(6) ref assms(2) old by (auto simp: closed_ok_def less_Suc_eq)
  ultimately show ?thesis
    using ok by (simp add: manager_ok_def gate_ok_def owners_ok_def)
qed

lemma raise_generation_ok:
  assumes "manager_ok [] m"
  shows "manager_ok [] (m\<lparr>cm_next_generation := cm_next_generation m + 1\<rparr>)" (is "manager_ok _ ?m")
proof -
  note ok = manager_okD [OF assms]
  have ref: "referenced ?m = referenced m" by (simp add: referenced_def fun_eq_iff)
  have pool: "pool_ok m h \<Longrightarrow> pool_ok ?m h" for h by (simp add: pool_ok_def)
  have entry: "entry_ok m s h \<Longrightarrow> entry_ok ?m s h" for s h
    using pool [of h] by (auto simp: entry_ok_def)
  have phase: "phase_ok m p \<Longrightarrow> phase_ok ?m p" for p
    using pool by (fastforce simp: phase_ok_def)
  have "slots_ok ?m" using ok(3) entry by (simp add: slots_ok_def)
  moreover have "phases_ok ?m" using ok(5) phase by (simp add: phases_ok_def)
  moreover have "closed_ok [] ?m"
    using ok(6) ref by (simp add: closed_ok_def less_SucI)
  ultimately show ?thesis
    using ok by (simp add: manager_ok_def gate_ok_def owners_ok_def map_ok_def)
qed

lemma drop_timer_ok:
  assumes "manager_ok gs m" "set ts \<subseteq> set (cm_timers m)" "set (cm_timers m) - {(s, g, at)} \<subseteq> set ts"
    and "sl_entry (cm_slot m ! s) \<noteq> Some g"
  shows "manager_ok gs (m\<lparr>cm_timers := ts\<rparr>)"
proof -
  note ok = manager_okD [OF assms(1)]
  let ?m = "m\<lparr>cm_timers := ts\<rparr>"
  have ref: "referenced ?m = referenced m" by (simp add: referenced_def fun_eq_iff)
  have "slots_ok ?m"
    unfolding slots_ok_def
  proof (intro allI impI)
    fix r h
    assume r: "r < length (cm_slot ?m)" "sl_entry (cm_slot ?m ! r) = Some h"
    then have "sl_owner (cm_slot m ! r) = None" "entry_ok m r h" using ok(3) by (auto simp: slots_ok_def)
    moreover have "(r, h) \<noteq> (s, g)" using r(2) assms(4) by auto
    ultimately show "sl_owner (cm_slot ?m ! r) = None \<and> entry_ok ?m r h"
      using assms(3) by (auto simp: entry_ok_def pool_ok_def)
  qed
  moreover have "map_ok ?m" using ok(2) assms(2) by (auto simp: map_ok_def)
  ultimately show ?thesis
    using ok ref by (simp add: manager_ok_def gate_ok_def owners_ok_def closed_ok_def pool_ok_def
        phases_ok_def phase_ok_def)
qed

section \<open>Entering a slot\<close>

lemma add_slot_ok:
  assumes "manager_ok gs m" "map_of (cm_slots m) k = None"
  shows "manager_ok gs (m\<lparr>cm_slots := (k, length (cm_slot m)) # cm_slots m, cm_slot := cm_slot m @ [free_slot]\<rparr>)"
    (is "manager_ok _ ?m")
proof -
  note ok = manager_okD [OF assms(1)]
  have k: "k \<notin> fst ` set (cm_slots m)" using assms(2) by (simp add: map_of_eq_None_iff)
  have slot: "s < length (cm_slot m)" if "(l, s) \<in> set (cm_slots m)" for l s
    using ok(2) that by (auto simp: map_ok_def)
  have pool: "pool_ok ?m = pool_ok m" by (simp add: pool_ok_def fun_eq_iff)
  have look: "map_of (cm_slots m) l = Some s \<longrightarrow> l \<noteq> k" for l s
    using assms(2) by auto
  have entry: "entry_ok m s g \<Longrightarrow> entry_ok ?m s g" for s g
    using look unfolding entry_ok_def pool by auto
  have phase: "phase_ok m p \<Longrightarrow> phase_ok ?m p" for p
    using look unfolding phase_ok_def pool by fastforce
  have ref: "referenced ?m = referenced m" by (simp add: referenced_def fun_eq_iff free_slot_def)
  have "map_ok ?m" using ok(2) k slot by (fastforce simp: map_ok_def)
  moreover have "slots_ok ?m"
    using ok(3) entry by (auto simp: slots_ok_def nth_append free_slot_def less_Suc_eq)
  moreover have "owners_ok ?m"
  proof -
    have "owns_slot (cm_tasks m ! t) \<noteq> Some (length (cm_slot m))" if "t < length (cm_tasks m)" for t
      using phases_okD [OF assms(1) that] owns_slot_phase [of "cm_tasks m ! t"] by (auto simp: phase_ok_def)
    then show ?thesis
      using ok(4) by (auto simp: owners_ok_def nth_append free_slot_def less_Suc_eq)
  qed
  moreover have "phases_ok ?m" using ok(5) phase by (simp add: phases_ok_def)
  moreover have "closed_ok gs ?m" using ok(6) by (simp add: closed_ok_def ref)
  ultimately show ?thesis using ok(1) by (simp add: manager_ok_def gate_ok_def)
qed

lemma map_of_slot: "map_ok m \<Longrightarrow> map_of (cm_slots m) k = Some s \<Longrightarrow> s < length (cm_slot m)"
  by (auto simp: map_ok_def dest: map_of_SomeD)

lemma slot_key_unique:
  assumes "map_ok m" "map_of (cm_slots m) k = Some s" "map_of (cm_slots m) l = Some s"
  shows "k = l"
proof -
  have "distinct (map snd (cm_slots m))" using assms(1) by (simp add: map_ok_def)
  moreover have "(k, s) \<in> set (cm_slots m)" "(l, s) \<in> set (cm_slots m)"
    using assms(2,3) by (simp_all add: map_of_SomeD)
  ultimately show ?thesis by (force simp: distinct_map inj_on_def)
qed


section \<open>Every step keeps the invariant\<close>

lemma reads_admitted: "reads_scope (cm_tasks m ! t) \<Longrightarrow> reads_scope p \<Longrightarrow> gate_admits m t p"
  by (cases p) (simp_all add: gate_admits_def)

lemma phase_ok_part: "same_pools m m' \<Longrightarrow> phase_ok m p \<Longrightarrow> phase_ok m' p"
  by (simp add: same_poolsD)

text \<open>A slot gives its entry to the task that found it expired.\<close>

lemma detach_into_ok:
  assumes "manager_ok [] m" "t < length (cm_tasks m)" "s < length (cm_slot m)"
    and "sl_entry (cm_slot m ! s) = Some g" "held p = [g]" "set (held (cm_tasks m ! t)) \<subseteq> {g}"
    and "phase_ok m p" "gate_admits m t p" "owns_slot p = owns_slot (cm_tasks m ! t)"
  shows "manager_ok [] (set_task t p (put_slot s ((cm_slot m ! s)\<lparr>sl_entry := None\<rparr>) m))"
    (is "manager_ok _ (set_task t p ?m)")
proof -
  have one: "manager_ok [g] ?m" using clear_entry_ok [OF assms(1,3)] assms(4) by simp
  have "same_pools m ?m" by (simp add: same_pools_def)
  then have "phase_ok ?m p" using assms(7) by (rule phase_ok_part)
  moreover have "gate_admits ?m t p" using assms(8) by (simp add: gate_admits_def may_read_def may_write_def)
  ultimately have "manager_ok (held (cm_tasks ?m ! t) @ [g]) (set_task t p ?m)"
    using set_task_ok [OF one, of t p] assms(2,9) by simp
  then show ?thesis
  proof (rule manager_ok_weaken)
    have "referenced (set_task t p ?m) g"
      using referenced_set_task [of t ?m p g] assms(2,5) by simp
    then show "\<forall>h \<in> set (held (cm_tasks ?m ! t) @ [g]). referenced (set_task t p ?m) h \<or> h \<in> set []"
      using assms(6) by auto
  qed
qed

lemma begin_context_ok:
  assumes "manager_ok [] m" "t < length (cm_tasks m)" "cm_tasks m ! t \<in> {Idle, Scoped}"
    and "cm_tasks m ! t = Idle \<Longrightarrow> may_read m"
    and "\<And>p. r = Inr p \<Longrightarrow> phase_ok m p \<and> owns_slot p = None \<and> p \<noteq> Mutating"
  shows "manager_ok [] (begin_context t r m)"
proof (cases r)
  case (Inl e)
  then show ?thesis
    using set_task_keeps [OF assms(1,2) idle_ok] assms(3) by (auto simp: begin_context_def)
next
  case (Inr p)
  have "gate_admits m t p" using assms(3,4) assms(5) [OF Inr] by (auto simp: gate_admits_def)
  moreover have "held (cm_tasks m ! t) = []" "owns_slot (cm_tasks m ! t) = None" using assms(3) by auto
  ultimately show ?thesis
    using set_task_keeps [OF assms(1,2)] assms(5) [OF Inr] Inr by (simp add: begin_context_def)
qed

lemma authorized_context_ok:
  assumes "authorized_context m pin access answer = Inr p"
  shows "phase_ok m p \<and> owns_slot p = None \<and> p \<noteq> Mutating"
  using assms by (auto simp: authorized_context_def rbind_eq_Inr phase_ok_def)

lemma enter_slot_ok:
  assumes "manager_ok [] m" "t < length (cm_tasks m)" "enter_slot t m = Some m'"
  shows "manager_ok [] m'"
proof -
  obtain pin access auth where p: "cm_tasks m ! t = Context pin access auth"
    using assms(3) by (auto simp: enter_slot_def split: task_phase.splits)
  let ?k = "cache_key_new pin access"
  have current: "is_pin_current (cm_store m) pin"
    using phases_okD [OF assms(1,2)] p by (simp add: phase_ok_def)
  have move: "manager_ok [] (set_task t (Locking pin access auth s) m1)"
    if "manager_ok [] m1" "cm_tasks m1 = cm_tasks m" "cm_store m1 = cm_store m"
      "map_of (cm_slots m1) ?k = Some s" for m1 s
  proof (rule set_task_keeps [OF that(1)])
    show "phase_ok m1 (Locking pin access auth s)"
      using current that map_of_slot [OF manager_okD(2) [OF that(1)] that(4)]
      by (simp add: phase_ok_def phase_key_def)
    show "gate_admits m1 t (Locking pin access auth s)" by (rule reads_admitted) (simp_all add: that(2) p)
  qed (use assms(2) p that(2) in simp_all)
  show ?thesis
  proof (cases "map_of (cm_slots m) ?k")
    case (Some s)
    then show ?thesis using move [OF assms(1) _ _ Some] assms(3) p by (simp add: enter_slot_def)
  next
    case None
    have "manager_ok [] (set_task t (Locking pin access auth (length (cm_slot m)))
        (m\<lparr>cm_slots := (?k, length (cm_slot m)) # cm_slots m, cm_slot := cm_slot m @ [free_slot]\<rparr>))"
      by (rule move [OF add_slot_ok [OF assms(1) None]]) simp_all
    then show ?thesis using assms(3) p None by (simp add: enter_slot_def free_slot_def Let_def)
  qed
qed

text \<open>What a task that waits on a slot knows about the entry it finds there.\<close>

lemma found_entry:
  assumes "manager_ok [] m" "phase_ok m p" "phase_slot p = Some s" "sl_entry (cm_slot m ! s) = Some g"
  shows "s < length (cm_slot m) \<and> pool_ok m g \<and> (\<exists>e. cm_entries m g = Some e \<and> phase_key p = Some (ce_key e))"
proof -
  obtain k where k: "s < length (cm_slot m)" "phase_key p = Some k" "map_of (cm_slots m) k = Some s"
    using assms(2,3) by (auto simp: phase_ok_def)
  moreover have "entry_ok m s g" using manager_okD(3) [OF assms(1)] k(1) assms(4) by (simp add: slots_ok_def)
  ultimately show ?thesis
    using slot_key_unique [OF manager_okD(2) [OF assms(1)]] by (fastforce simp: entry_ok_def)
qed

lemma lock_slot_ok:
  assumes "manager_ok [] m" "t < length (cm_tasks m)" "lock_slot t m = Some m'"
  shows "manager_ok [] m'"
proof -
  obtain pin access auth s where p: "cm_tasks m ! t = Locking pin access auth s"
    using assms(3) by (auto simp: lock_slot_def split: task_phase.splits)
  have free: "sl_owner (cm_slot m ! s) = None"
    using assms(3) p by (auto simp: lock_slot_def split: if_splits)
  have phase: "phase_ok m (Locking pin access auth s)" using phases_okD [OF assms(1,2)] p by simp
  have admits: "gate_admits m t q" if "reads_scope q" for q by (rule reads_admitted) (simp_all add: p that)
  show ?thesis
  proof (cases "sl_entry (cm_slot m ! s)")
    case None
    have op: "phase_ok m (Opening pin access auth s)"
      using phase by (simp add: phase_ok_def phase_key_def)
    have "manager_ok [] (set_task t (Opening pin access auth s)
        (put_slot s ((cm_slot m ! s)\<lparr>sl_owner := Some t\<rparr>) m))"
      by (rule take_slot_ok [OF assms(1,2) op admits]) (simp_all add: p free None)
    then show ?thesis using assms(3) p free None by (simp add: lock_slot_def)
  next
    case (Some g)
    have found: "s < length (cm_slot m)" "pool_ok m g"
      "\<exists>e. cm_entries m g = Some e \<and> ce_key e = cache_key_new pin access"
      using found_entry [OF assms(1) phase _ Some] by (auto simp: phase_key_def)
    have retiring: "phase_ok m (Retiring pin access auth s g)" and handoff: "phase_ok m (Handoff pin access auth s g)"
      using phase found by (auto simp: phase_ok_def phase_key_def)
    have "manager_ok [] (set_task t (Retiring pin access auth s g)
        (put_slot s ((cm_slot m ! s)\<lparr>sl_entry := None\<rparr>) m))"
      by (rule detach_into_ok [OF assms(1,2) found(1) Some _ _ retiring admits]) (simp_all add: p)
    moreover have "manager_ok [] (set_task t (Handoff pin access auth s g) m)"
      by (rule set_task_keeps [OF assms(1,2) handoff admits]) (simp_all add: p)
    ultimately show ?thesis using assms(3) p free Some by (auto simp: lock_slot_def split: if_splits)
  qed
qed

lemma handoff_entry_ok:
  assumes "manager_ok [] m" "t < length (cm_tasks m)" "handoff_entry t answer m = Some m'"
  shows "manager_ok [] m'"
proof -
  obtain pin access auth s g where p: "cm_tasks m ! t = Handoff pin access auth s g"
    using assms(3) by (auto simp: handoff_entry_def split: task_phase.splits)
  have phase: "phase_ok m (Handoff pin access auth s g)" using phases_okD [OF assms(1,2)] p by simp
  have "manager_ok [] (set_task t q m)" if "phase_ok m q" "reads_scope q" "owns_slot q = None" "held q = [g]" for q
    by (rule set_task_keeps [OF assms(1,2) that(1) reads_admitted]) (simp_all add: p that)
  moreover have "phase_ok m (Discard pin access auth s g)" "phase_ok m (Leased pin access g)"
    using phase by (simp_all add: phase_ok_def phase_key_def)
  moreover have "manager_ok [] (end_task t m)" by (rule end_task_ok [OF assms(1,2)])
  ultimately show ?thesis
    using assms(3) p by (auto simp: handoff_entry_def split: sum.splits if_splits)
qed

lemma discard_expired_ok:
  assumes "manager_ok [] m" "t < length (cm_tasks m)" "discard_expired t m = Some m'"
  shows "manager_ok [] m'"
proof -
  obtain pin access auth s g where p: "cm_tasks m ! t = Discard pin access auth s g"
    using assms(3) by (auto simp: discard_expired_def split: task_phase.splits)
  have phase: "phase_ok m (Discard pin access auth s g)" using phases_okD [OF assms(1,2)] p by simp
  have admits: "gate_admits m t q" if "reads_scope q" for q by (rule reads_admitted) (simp_all add: p that)
  show ?thesis
  proof (cases "sl_entry (cm_slot m ! s) = Some g")
    case True
    have "s < length (cm_slot m)" "phase_ok m (Retiring pin access auth s g)"
      using phase by (simp_all add: phase_ok_def phase_key_def)
    then have "manager_ok [] (set_task t (Retiring pin access auth s g)
        (put_slot s ((cm_slot m ! s)\<lparr>sl_entry := None\<rparr>) m))"
      by (intro detach_into_ok [OF assms(1,2) _ True _ _ _ admits]) (simp_all add: p)
    then show ?thesis using assms(3) p True by (simp add: discard_expired_def split: if_splits)
  next
    case False
    have "phase_ok m (Locking pin access auth s)" using phase by (simp add: phase_ok_def phase_key_def)
    then have "manager_ok [] (settle (held (cm_tasks m ! t)) (set_task t (Locking pin access auth s) m))"
      by (intro set_task_settle [OF assms(1,2) _ admits]) (simp_all add: p)
    then show ?thesis using assms(3) p False by (simp add: discard_expired_def split: if_splits)
  qed
qed

lemma retire_entries_ok:
  assumes "manager_ok [] m" "t < length (cm_tasks m)" "retire_entries t m = Some m'"
  shows "manager_ok [] m'"
proof -
  consider pin access auth s g where "cm_tasks m ! t = Retiring pin access auth s g"
    | gs where "cm_tasks m ! t = Detached gs"
    using assms(3) by (auto simp: retire_entries_def split: task_phase.splits)
  then show ?thesis
  proof cases
    case (1 pin access auth s g)
    have "phase_ok m (Locking pin access auth s)"
      using phases_okD [OF assms(1,2)] 1 by (simp add: phase_ok_def phase_key_def)
    then have "manager_ok [] (settle (held (cm_tasks m ! t)) (set_task t (Locking pin access auth s) m))"
      by (intro set_task_settle [OF assms(1,2) _ reads_admitted]) (simp_all add: 1)
    then show ?thesis using assms(3) 1 by (simp add: retire_entries_def)
  next
    case (2 gs)
    have "manager_ok [] (settle (held (cm_tasks m ! t)) (set_task t Idle m))"
      by (rule set_task_settle [OF assms(1,2) idle_ok]) (simp_all add: 2)
    then show ?thesis using assms(3) 2 by (simp add: retire_entries_def)
  qed
qed


lemma open_pool_ok:
  assumes "manager_ok [] m" "t < length (cm_tasks m)" "open_pool t lease driver m = Some m'"
  shows "manager_ok [] m'"
proof -
  obtain pin access auth s where p: "cm_tasks m ! t = Opening pin access auth s"
    using assms(3) by (auto simp: open_pool_def split: task_phase.splits)
  have phase: "phase_ok m (Opening pin access auth s)" using phases_okD [OF assms(1,2)] p by simp
  have "manager_ok [] (set_task t (Opened pin access auth s at managed) m)" for at managed
  proof (rule set_task_keeps [OF assms(1,2) _ reads_admitted])
    show "phase_ok m (Opened pin access auth s at managed)"
      using phase by (simp add: phase_ok_def phase_key_def)
  qed (simp_all add: p)
  then show ?thesis
    using assms(3) p end_task_ok [OF assms(1,2)] by (auto simp: open_pool_def split: sum.splits)
qed

lemma end_task_generation:
  "end_task t (m\<lparr>cm_next_generation := n\<rparr>) = (end_task t m)\<lparr>cm_next_generation := n\<rparr>"
  by (simp add: end_task_def release_slot_def set_task_def put_slot_def settle_def referenced_def Let_def
      split: option.split)

lemma publish_entry_ok:
  assumes "manager_ok [] m" "t < length (cm_tasks m)" "publish_entry t answer m = Some m'"
  shows "manager_ok [] m'"
proof -
  obtain pin access auth s at managed where p: "cm_tasks m ! t = Opened pin access auth s at managed"
    using assms(3) by (auto simp: publish_entry_def split: task_phase.splits)
  let ?g = "cm_next_generation m" and ?k = "cache_key_new pin access"
  let ?e = "\<lparr>ce_key = ?k, ce_retire_at = at, ce_managed = managed\<rparr>"
  let ?ts = "case at of Some a \<Rightarrow> (s, ?g, a) # cm_timers m | None \<Rightarrow> cm_timers m"
  let ?m1 = "m\<lparr>cm_next_generation := ?g + 1\<rparr>"
  let ?m = "m\<lparr>cm_next_generation := ?g + 1, cm_entries := (cm_entries m)(?g \<mapsto> ?e), cm_timers := ?ts\<rparr>"
  have phase: "phase_ok m (Opened pin access auth s at managed)" using phases_okD [OF assms(1,2)] p by simp
  then have slot: "s < length (cm_slot m)" "map_of (cm_slots m) ?k = Some s" "is_pin_current (cm_store m) pin"
    by (simp_all add: phase_ok_def phase_key_def)
  have timers: "set (cm_timers m) \<subseteq> set ?ts" by (cases at) auto
  have "\<forall>(r, h, a) \<in> set ?ts. r < length (cm_slot m)"
    using manager_okD(2) [OF assms(1)] slot(1) by (cases at) (auto simp: map_ok_def)
  then have new: "manager_ok [?g] ?m" by (rule new_pool_ok [OF assms(1) refl timers])
  have "?g \<notin> set (cm_closed m)"
    using manager_okD(6) [OF assms(1)] by (auto simp: closed_ok_def)
  then have pool: "pool_ok ?m ?g" by (simp add: pool_ok_def)
  have "manager_ok [] (set_task t (Leased pin access ?g) (put_slot s \<lparr>sl_entry = Some ?g, sl_owner = None\<rparr> ?m))"
  proof (rule return_slot_ok [OF new])
    show "phase_ok ?m (Leased pin access ?g)" using slot pool by (simp add: phase_ok_def phase_key_def)
    show "gate_admits ?m t (Leased pin access ?g)" by (rule reads_admitted) (simp_all add: p)
    show "case Some ?g of Some g \<Rightarrow> entry_ok ?m s g | None \<Rightarrow> True"
      using pool slot(2) by (auto simp: entry_ok_def split: option.split)
  qed (use assms(2) p in simp_all)
  moreover have "manager_ok [] (end_task t m)" "manager_ok [] (end_task t ?m1)"
    using end_task_ok [OF assms(1,2)] end_task_ok [OF raise_generation_ok [OF assms(1)]] assms(2) by simp_all
  ultimately show ?thesis
    using assms(3) p by (auto simp: publish_entry_def Let_def split: sum.splits if_splits)
qed

lemma map_filter_elem: "y \<in> set (List.map_filter f xs) \<longleftrightarrow> (\<exists>x \<in> set xs. f x = Some y)"
  by (induction xs) (auto simp: List.map_filter_simps split: option.splits)

lemma distinct_map_filter_inj:
  assumes "distinct xs" "\<And>x y z. x \<in> set xs \<Longrightarrow> y \<in> set xs \<Longrightarrow> f x = Some z \<Longrightarrow> f y = Some z \<Longrightarrow> x = y"
  shows "distinct (List.map_filter f xs)"
  using assms
proof (induction xs)
  case (Cons x xs)
  have "z \<notin> set (List.map_filter f xs)" if "f x = Some z" for z
    using Cons.prems that by (auto simp: map_filter_elem)
  moreover have "distinct (List.map_filter f xs)" using Cons by auto
  ultimately show ?case by (simp add: List.map_filter_simps split: option.split)
qed (simp add: List.map_filter_simps)

lemma slot_entry: "slots_ok m \<Longrightarrow> s < length (cm_slot m) \<Longrightarrow> sl_entry (cm_slot m ! s) = Some g \<Longrightarrow> entry_ok m s g"
  by (simp add: slots_ok_def)

lemma entry_slot_unique: "entry_ok m s g \<Longrightarrow> entry_ok m r g \<Longrightarrow> s = r"
  by (auto simp: entry_ok_def)

text \<open>A mutation detaches slots: nothing waits on them, and their entries stay to be retired.\<close>

lemma detach_slots_ok:
  assumes "manager_ok [] m" "\<And>t. t < length (cm_tasks m) \<Longrightarrow> \<not> reads_scope (cm_tasks m ! t)"
    and "S = map snd (filter (\<lambda>x. \<not> P x) (cm_slots m))" "length xs = length (cm_slot m)"
    and "\<And>s. s < length (cm_slot m) \<Longrightarrow>
      sl_entry (xs ! s) = (if s \<in> set S then None else sl_entry (cm_slot m ! s)) \<and>
      sl_owner (xs ! s) = sl_owner (cm_slot m ! s)"
    and "gs = List.map_filter (\<lambda>s. sl_entry (cm_slot m ! s)) S"
  shows "manager_ok gs (m\<lparr>cm_slots := filter P (cm_slots m), cm_slot := xs\<rparr>)" (is "manager_ok _ ?m")
    and "distinct gs" "\<forall>g \<in> set gs. pool_ok m g"
proof -
  note ok = manager_okD [OF assms(1)]
  have S: "s \<in> set S \<longleftrightarrow> (\<exists>k. (k, s) \<in> set (cm_slots m) \<and> \<not> P (k, s))" for s
    unfolding assms(3) by force
  have keys: "distinct (map fst (cm_slots m))" "distinct (map snd (cm_slots m))"
    and bound: "\<And>k s. (k, s) \<in> set (cm_slots m) \<Longrightarrow> s < length (cm_slot m)"
    using ok(2) by (auto simp: map_ok_def)
  have in_slots: "s < length (cm_slot m)" if "s \<in> set S" for s using that S bound by blast
  have gs: "g \<in> set gs \<longleftrightarrow> (\<exists>s \<in> set S. sl_entry (cm_slot m ! s) = Some g)" for g
    unfolding assms(6) by (rule map_filter_elem)
  have sentry: "entry_ok m s g" if "s \<in> set S" "sl_entry (cm_slot m ! s) = Some g" for s g
    by (rule slot_entry [OF ok(3) in_slots [OF that(1)] that(2)])
  show "distinct gs"
    unfolding assms(6)
  proof (rule distinct_map_filter_inj)
    show "distinct S" unfolding assms(3) by (rule distinct_map_filter [OF keys(2)])
  qed (rule entry_slot_unique [OF sentry sentry])
  show pools: "\<forall>g \<in> set gs. pool_ok m g" using gs sentry by (auto simp: entry_ok_def)
  have none: "phase_pin (cm_tasks m ! i) = None" "phase_slot (cm_tasks m ! i) = None"
    if "i < length (cm_tasks m)" for i
    using assms(2) [OF that] phase_pin_reads phase_slot_reads by blast+
  have entry: "entry_ok ?m s g" if given: "entry_ok m s g" "s \<notin> set S" for s g
  proof -
    obtain e where e: "cm_entries m g = Some e" "map_of (cm_slots m) (ce_key e) = Some s" "pool_ok m g"
      "\<forall>at. ce_retire_at e = Some at \<longrightarrow> (s, g, at) \<in> set (cm_timers m)"
      using given(1) by (auto simp: entry_ok_def)
    have "(ce_key e, s) \<in> set (filter P (cm_slots m))" using map_of_SomeD [OF e(2)] given(2) S by auto
    moreover have "distinct (map fst (filter P (cm_slots m)))" by (rule distinct_map_filter [OF keys(1)])
    ultimately have "map_of (filter P (cm_slots m)) (ce_key e) = Some s" by (rule map_of_is_SomeI [rotated])
    then show ?thesis using e by (simp add: entry_ok_def pool_ok_def)
  qed
  have kept: "sl_entry (xs ! s) = Some g \<longleftrightarrow> s \<notin> set S \<and> sl_entry (cm_slot m ! s) = Some g"
    if "s < length (cm_slot m)" for s g
    using assms(5) [OF that] by simp
  have ref: "referenced m g \<Longrightarrow> referenced ?m g \<or> g \<in> set gs" "referenced ?m g \<Longrightarrow> referenced m g" for g
    using gs kept assms(4) unfolding referenced_iff by (simp_all, blast+)
  have "map_ok ?m"
    using ok(2) assms(4) distinct_map_filter [OF keys(1), of P] distinct_map_filter [OF keys(2), of P]
    by (auto simp: map_ok_def)
  moreover have "slots_ok ?m"
    using ok(3) kept entry assms(4,5) by (auto simp: slots_ok_def)
  moreover have "owners_ok ?m" using ok(4) assms(4,5) by (simp add: owners_ok_def)
  moreover have "phases_ok ?m"
    using ok(5) none by (simp add: phases_ok_def phase_ok_def pool_ok_def)
  moreover have "closed_ok gs ?m"
    using ok(6) ref unfolding closed_ok_def by simp metis
  ultimately show "manager_ok gs ?m" using ok(1) by (simp add: manager_ok_def gate_ok_def)
qed

lemma finish_mutation_ok:
  assumes "manager_ok [] m" "t < length (cm_tasks m)" "finish_mutation t ids m = Some m'"
  shows "manager_ok [] m'"
proof -
  have p: "cm_tasks m ! t = Mutating" using assms(3) by (simp add: finish_mutation_def split: if_splits)
  obtain gs m1 where d: "detach_keys ids m = (gs, m1)" by fastforce
  then have m': "m' = set_task t (Detached gs) m1" using assms(3) p by (simp add: finish_mutation_def)
  have alone: "\<not> reads_scope (cm_tasks m ! i)" if "i < length (cm_tasks m)" for i
    using manager_okD(1) [OF assms(1), unfolded gate_ok_def, THEN spec, THEN mp, OF assms(2), THEN mp, OF p] that p
    by (cases "i = t") simp_all
  let ?gone = "\<lambda>k. case ids of None \<Rightarrow> True | Some cs \<Rightarrow> ck_connection_id k \<in> set cs"
  let ?S = "map snd (filter (\<lambda>(k, _). ?gone k) (cm_slots m))"
  let ?xs = "map (\<lambda>i. if i \<in> set ?S then (cm_slot m ! i)\<lparr>sl_entry := None\<rparr> else cm_slot m ! i)
      [0..<length (cm_slot m)]"
  have m1: "m1 = m\<lparr>cm_slots := filter (\<lambda>(k, _). \<not> ?gone k) (cm_slots m), cm_slot := ?xs\<rparr>"
    and gs: "gs = List.map_filter (\<lambda>s. sl_entry (cm_slot m ! s)) ?S"
    using d by (simp_all add: detach_keys_def Let_def)
  have S: "?S = map snd (filter (\<lambda>x. \<not> (\<lambda>(k, _). \<not> ?gone k) x) (cm_slots m))"
    by (simp add: case_prod_unfold)
  have xs: "length ?xs = length (cm_slot m)"
    "\<And>s. s < length (cm_slot m) \<Longrightarrow>
      sl_entry (?xs ! s) = (if s \<in> set ?S then None else sl_entry (cm_slot m ! s)) \<and>
      sl_owner (?xs ! s) = sl_owner (cm_slot m ! s)"
    by simp_all
  note detached = detach_slots_ok [OF assms(1) alone S xs gs]
  have ok1: "manager_ok gs m1" unfolding m1 by (rule detached(1))
  have tasks: "cm_tasks m1 = cm_tasks m" by (simp add: m1)
  have phase: "phase_ok m1 (Detached gs)"
    using detached(2,3) by (simp add: phase_ok_def pool_ok_def m1)
  have "manager_ok (held (cm_tasks m1 ! t) @ gs) (set_task t (Detached gs) m1)"
    by (rule set_task_ok [OF ok1 _ phase]) (use assms(2) p in \<open>simp_all add: gate_admits_def tasks\<close>)
  then show ?thesis
    unfolding m'
  proof (rule manager_ok_weaken)
    have "referenced (set_task t (Detached gs) m1) g" if "g \<in> set gs" for g
      using that referenced_set_task [of t m1 "Detached gs" g] assms(2) tasks by simp
    then show "\<forall>g \<in> set (held (cm_tasks m1 ! t) @ gs). referenced (set_task t (Detached gs) m1) g \<or> g \<in> set []"
      using p tasks by simp
  qed
qed

lemma fire_timer_ok:
  assumes "manager_ok [] m" "fire_timer i m = Some m'"
  shows "manager_ok [] m'"
proof -
  obtain s g at where i: "i < length (cm_timers m)" "cm_timers m ! i = (s, g, at)"
    using assms(2) by (cases "cm_timers m ! i") (auto simp: fire_timer_def split: if_splits)
  let ?ts = "take i (cm_timers m) @ drop (i + 1) (cm_timers m)"
  have s: "s < length (cm_slot m)"
    using manager_okD(2) [OF assms(1)] i nth_mem [OF i(1)] by (auto simp: map_ok_def)
  have "set (cm_timers m) = insert (s, g, at) (set ?ts)"
    using arg_cong [OF id_take_nth_drop [OF i(1)], of set] i(2) by simp
  then have ts: "set ?ts \<subseteq> set (cm_timers m)" "set (cm_timers m) - {(s, g, at)} \<subseteq> set ?ts" by blast+
  show ?thesis
  proof (cases "sl_entry (cm_slot m ! s) = Some g")
    case True
    let ?m = "put_slot s ((cm_slot m ! s)\<lparr>sl_entry := None\<rparr>) m"
    have "put_slot s ((cm_slot m ! s)\<lparr>sl_entry := None\<rparr>) (m\<lparr>cm_timers := ?ts\<rparr>) = ?m\<lparr>cm_timers := ?ts\<rparr>"
      by (cases m) (simp add: put_slot_def)
    then have m': "m' = settle [g] (?m\<lparr>cm_timers := ?ts\<rparr>)"
      using assms(2) i True by (auto simp only: fire_timer_def Let_def if_True prod.case split: if_splits)
    have "manager_ok [g] ?m" using clear_entry_ok [OF assms(1) s] True by simp
    then have "manager_ok [g] (?m\<lparr>cm_timers := ?ts\<rparr>)"
      by (rule drop_timer_ok [where s = s and g = g and at = at]) (use ts s in simp_all)
    then show ?thesis
      unfolding m'
    proof (rule settle_ok)
      have "pool_ok m g" using manager_okD(3) [OF assms(1)] s True by (simp add: slots_ok_def entry_ok_def)
      then show "\<forall>h \<in> set [g]. pool_ok (?m\<lparr>cm_timers := ?ts\<rparr>) h" by (simp add: pool_ok_def)
    qed simp
  next
    case False
    then have m': "m' = m\<lparr>cm_timers := ?ts\<rparr>"
      using assms(2) i by (auto simp: fire_timer_def Let_def split: if_splits)
    show ?thesis unfolding m' by (rule drop_timer_ok [OF assms(1) ts False])
  qed
qed


lemma manager_step_ok:
  assumes "manager_ok [] m" "manager_step E l m = Some m'"
  shows "manager_ok [] m'"
proof (cases "label_task l")
  case None
  then show ?thesis
    using assms fire_timer_ok tick_ok by (cases l) (auto simp: manager_step_def)
next
  case (Some t)
  then have t: "t < length (cm_tasks m)" and step: "label_step E l m = Some m'"
    using assms(2) by (auto simp: manager_step_def split: if_splits)
  show ?thesis
  proof (cases l)
    case (Begin_scope i)
    then have idle: "cm_tasks m ! t = Idle" "may_read m" "m' = set_task t Scoped m"
      using step Some by (auto split: if_splits)
    have "phase_ok m Scoped" "gate_admits m t Scoped" using idle by (simp_all add: phase_ok_def gate_admits_def)
    then show ?thesis unfolding idle(3) by (rule set_task_keeps [OF assms(1) t]) (simp_all add: idle(1))
  next
    case (Acquire i cid access answer)
    then have idle: "cm_tasks m ! t = Idle" "may_read m"
      "m' = begin_context t (rbind (pin_connection_for_read E (cm_store m) cid)
        (\<lambda>pin. authorized_context m pin access answer)) m"
      using step Some by (auto split: if_splits)
    show ?thesis
      unfolding idle(3)
    proof (rule begin_context_ok [OF assms(1) t])
      fix p
      assume "rbind (pin_connection_for_read E (cm_store m) cid)
        (\<lambda>pin. authorized_context m pin access answer) = Inr p"
      then obtain pin where "authorized_context m pin access answer = Inr p" by (auto simp: rbind_eq_Inr)
      then show "phase_ok m p \<and> owns_slot p = None \<and> p \<noteq> Mutating" by (rule authorized_context_ok)
    qed (use idle in simp_all)
  next
    case (Connect i pin access answer)
    then have scoped: "cm_tasks m ! t = Scoped" "m' = begin_context t (authorized_context m pin access answer) m"
      using step Some by (auto split: if_splits)
    show ?thesis
      unfolding scoped(2)
      by (rule begin_context_ok [OF assms(1) t]) (use scoped authorized_context_ok in simp_all)
  next
    case (Begin_mutation i)
    then have idle: "cm_tasks m ! t = Idle" "may_write m" "m' = set_task t Mutating m"
      using step Some by (auto split: if_splits)
    have "phase_ok m Mutating" "gate_admits m t Mutating" using idle by (simp_all add: phase_ok_def gate_admits_def)
    then show ?thesis unfolding idle(3) by (rule set_task_keeps [OF assms(1) t]) (simp_all add: idle(1))
  next
    case (Begin_connection_mutation i cid access answer)
    then have idle: "cm_tasks m ! t = Idle" "may_write m" "m' = m \<or> m' = set_task t Mutating m"
      using step Some by (auto split: if_splits sum.splits)
    have "phase_ok m Mutating" "gate_admits m t Mutating" using idle by (simp_all add: phase_ok_def gate_admits_def)
    then have "manager_ok [] (set_task t Mutating m)"
      by (rule set_task_keeps [OF assms(1) t]) (simp_all add: idle(1))
    then show ?thesis using idle(3) assms(1) by blast
  next
    case (Mutate i call)
    then show ?thesis using step Some mutate_ok [OF assms(1) t] by (auto split: if_splits)
  next
    case (Enter i)
    then show ?thesis using step Some by (auto intro: enter_slot_ok [OF assms(1) t])
  next
    case (Lock i)
    then show ?thesis using step Some by (auto intro: lock_slot_ok [OF assms(1) t])
  next
    case (Reauthorise i answer)
    then show ?thesis using step Some by (auto intro: handoff_entry_ok [OF assms(1) t])
  next
    case (Discard_expired i)
    then show ?thesis using step Some by (auto intro: discard_expired_ok [OF assms(1) t])
  next
    case (Retire i)
    then show ?thesis using step Some by (auto intro: retire_entries_ok [OF assms(1) t])
  next
    case (Open i lease driver)
    then show ?thesis using step Some by (auto intro: open_pool_ok [OF assms(1) t])
  next
    case (Publish i answer)
    then show ?thesis using step Some by (auto intro: publish_entry_ok [OF assms(1) t])
  next
    case (Cancel i)
    then show ?thesis using step Some by (auto intro: end_task_ok [OF assms(1) t])
  next
    case (Detach i ids)
    then show ?thesis using step Some by (auto intro: finish_mutation_ok [OF assms(1) t])
  qed (use Some in simp_all)
qed

lemma manager_reachable_ok: "manager_reachable E m \<Longrightarrow> manager_ok [] m"
  by (induction rule: manager_reachable.induct) (auto intro: manager_ok_start manager_step_ok)

end
