(* ===== verification/Store_Contracts.thy ===== *)
theory Store_Contracts
  imports Connection_Pins
begin

text \<open>
  The properties of the store over every history of its calls: the active scope never dangles and
  is named by its generation, a pin is worth what it says while it is current, and what an
  account reads and writes stays in its scope.
\<close>

section \<open>A concrete store\<close>

text \<open>The store as the migration leaves it, and a history that makes and edits a connection.\<close>

definition fresh_store :: store_db where
  "fresh_store = \<lparr>
     sx_workspaces = [\<lparr>ws_id = personal_workspace_id, ws_name = ''Personal Workspace'',
       ws_kind = Personal_workspace, ws_lifecycle = Ws_active, ws_created_at = ''t'', ws_updated_at = ''t''\<rparr>],
     sx_members = [\<lparr>mb_id = 2, mb_workspace_id = personal_workspace_id, mb_user_id = None,
       mb_display_name = ''Local owner'', mb_role = Owner, mb_status = Member_active, mb_joined_at = ''t''\<rparr>],
     sx_accounts = [], sx_active = Some personal_workspace_id, sx_account = None,
     sx_generation = Some ''0'', sx_connections = [], sx_bindings = [], sx_safety = [], sx_history = [],
     sx_schema_cache = [], sx_catalogs = [], sx_threads = [], sx_dashboards = [], sx_outbox = []\<rparr>"

definition demo_calls :: "(string \<times> store_call) list" where
  "demo_calls = [(''t1'', Put_connection demo_profile),
     (''t2'', Remember_account \<lparr>au_id = ''u1'', au_email = ''e'', au_display_name = ''n''\<rparr>)]"

lemma fresh_store_ok: "scope_ok fresh_store" "conn_ok fresh_store"
proof -
  have "generation_is fresh_store 0"
    by (simp add: generation_is_def fresh_store_def dec_int_def dec_nat.simps [of 0] digit_char_def i64_max_def)
  then have "base_ok fresh_store" unfolding base_ok_def by (auto simp: fresh_store_def)
  then show "scope_ok fresh_store"
    using personal_selection_valid [of fresh_store] by (simp add: scope_ok_def fresh_store_def)
  show "conn_ok fresh_store" by (simp add: conn_ok_def fresh_store_def)
qed

lemma demo_calls_ok: "list_all store_call_ok demo_calls"
  by (simp add: demo_calls_def)

definition demo_store :: store_db where
  "demo_store = store_run ref_env demo_calls fresh_store"

lemma demo_store_ok: "scope_ok demo_store" "conn_ok demo_store"
  unfolding demo_store_def
  by (rule store_run_scope_ok [OF fresh_store_ok(1) demo_calls_ok],
      rule store_run_conn_ok [OF fresh_store_ok(2) demo_calls_ok])

definition demo_local_pin :: pinned_connection where
  "demo_local_pin = \<lparr>pin_scope = \<lparr>sc_workspace_id = 1, sc_workspace_kind = Personal_workspace,
       sc_selected_account_id = None, sc_account_scope = Personal_scope, sc_generation = 0\<rparr>,
     pin_connection_id = 3, pin_connection_revision = 1, pin_binding_revision = 0,
     pin_binding_updated_at = [], pin_profile = demo_profile, pin_requires_remote_rbac = False,
     pin_catalog_cache_policy = Persistent\<rparr>"

lemmas store_eval = demo_store_def demo_calls_def fresh_store_def store_run_def committed_def
  upsert_connection_def demo_profile_def selected_workspace_def active_workspace_row_def
  scope_visible_def owner_account_def write_local_row_def enqueue_outbox_def ensure_safety_row_def
  remember_workspace_account_def account_exists_def ok_or_def cr_id_def personal_workspace_id_def

lemma demo_store_pin: "pin_connection_for_read ref_env demo_store 3 = Inr demo_local_pin"
  by (simp add: store_eval pin_connection_for_read_def pin_connection_with_access_def
      active_connection_def live_connection_row_def live_in_workspace_def connection_visible_def
      pin_row_def row_to_connection_with_binding_def pinned_binding_revision_def
      pinned_binding_updated_at_def row_to_active_resource_scope_def account_scope_from_parts_def
      stored_scope_def parse_scope_generation_def demo_local_pin_def cache_policy_of_def
      is_digit_def digits_value_def in_i64_def i64_min_def i64_max_def Let_def)

lemma demo_pin_current: "is_pin_current demo_store demo_local_pin"
  by (simp add: is_pin_current_def is_pin_current_with_access_def active_connection_def
      live_connection_row_def live_in_workspace_def connection_visible_def store_eval
      pinned_binding_revision_def pinned_binding_updated_at_def stored_scope_def demo_local_pin_def
      dec_int_def dec_nat.simps [of 0] digit_char_def)

section \<open>The scope\<close>

text \<open>
  C21. The active scope never dangles. After any history of the calls that select, synchronise,
  repair and remove, an account can read the active scope: its workspace exists and is active,
  and in a team the selected account is known, is an active member and is the scope the rows of
  the account are kept under.
\<close>

theorem scope_never_dangles:
  assumes "scope_ok db" "list_all store_call_ok calls"
  shows "\<exists>scope w. store_active_scope (store_run E calls db) = Inr scope \<and>
    active_workspace (store_run E calls db) = Inr w \<and> ws_id w = sc_workspace_id scope \<and>
    w \<in> set (sx_workspaces (store_run E calls db)) \<and> ws_lifecycle w = Ws_active \<and>
    (case ws_kind w of
       Personal_workspace \<Rightarrow> sc_account_scope scope = Personal_scope
     | Team_workspace \<Rightarrow> (\<exists>u. sc_selected_account_id scope = Some u \<and>
         sc_account_scope scope = WorkspaceUser_scope u \<and>
         account_exists (store_run E calls db) u \<and> member_active (store_run E calls db) (ws_id w) u))"
proof -
  let ?db = "store_run E calls db"
  have ok: "scope_ok ?db" by (rule store_run_scope_ok [OF assms])
  then have base: "base_ok ?db" by (simp add: scope_ok_def)
  obtain scope w where *: "store_active_scope ?db = Inr scope" "active_workspace ?db = Inr w"
    "sc_selected_account_id scope = sx_account ?db" "ws_id w = sc_workspace_id scope"
    "active_workspace_row ?db (ws_id w) = Some w"
    "ws_kind w = Team_workspace \<Longrightarrow> \<exists>u. sx_account ?db = Some u \<and> member_active ?db (ws_id w) u \<and>
       sc_account_scope scope = WorkspaceUser_scope u"
    "ws_kind w = Personal_workspace \<Longrightarrow> sc_account_scope scope = Personal_scope"
    using scope_ok_reads [OF ok] by metis
  have row: "w \<in> set (sx_workspaces ?db)" "ws_lifecycle w = Ws_active"
    using *(5) active_workspace_row_Some [OF base] by auto
  show ?thesis
  proof (intro exI conjI)
    show "case ws_kind w of
       Personal_workspace \<Rightarrow> sc_account_scope scope = Personal_scope
     | Team_workspace \<Rightarrow> (\<exists>u. sc_selected_account_id scope = Some u \<and>
         sc_account_scope scope = WorkspaceUser_scope u \<and> account_exists ?db u \<and> member_active ?db (ws_id w) u)"
      using * ok by (cases "ws_kind w") (auto simp: scope_ok_def)
  qed (use * row in simp_all)
qed

lemma scope_never_dangles_witness:
  "\<exists>scope. store_active_scope (store_run ref_env demo_calls fresh_store) = Inr scope"
  using scope_never_dangles [OF fresh_store_ok(1) demo_calls_ok, of ref_env] by blast

lemma ws_kind_stable:
  assumes "scope_ok (store_run E calls db)" "w \<in> set (sx_workspaces db)"
    and "w' \<in> set (sx_workspaces (store_run E calls db))" "ws_id w' = ws_id w"
  shows "ws_kind w' = ws_kind w"
proof -
  let ?db = "store_run E calls db"
  have "(ws_id w, ws_kind w) \<in> set (ws_kinds ?db)"
    using imageI [OF assms(2), of "\<lambda>w. (ws_id w, ws_kind w)"] set_mono_prefix [OF store_run_kinds, of db E calls]
    by (auto simp: ws_kinds_def)
  then obtain w2 where w2: "w2 \<in> set (sx_workspaces ?db)" "ws_id w2 = ws_id w" "ws_kind w2 = ws_kind w"
    by (auto simp: ws_kinds_def)
  moreover have "distinct (map ws_id (sx_workspaces ?db))" using assms(1) by (simp add: scope_ok_def base_ok_def)
  ultimately have "w2 = w'" using assms(3,4) by (auto simp: distinct_map inj_on_def)
  then show ?thesis using w2 by simp
qed


lemma fresh_scope: "store_active_scope fresh_store = Inr (pin_scope demo_local_pin)"
  by (simp add: store_active_scope_def selected_workspace_def active_workspace_row_def fresh_store_def
      scope_visible_def active_scope_from_row_def account_scope_for_def parse_scope_generation_def
      is_digit_def digits_value_def in_i64_def i64_min_def i64_max_def demo_local_pin_def
      personal_workspace_id_def Let_def)

lemma demo_scope: "store_active_scope (store_run ref_env demo_calls fresh_store) = Inr (pin_scope demo_local_pin)"
  by (simp add: store_active_scope_def store_eval
      active_scope_from_row_def account_scope_for_def parse_scope_generation_def
      is_digit_def digits_value_def in_i64_def i64_min_def i64_max_def demo_local_pin_def Let_def)


section \<open>Pins\<close>

lemma active_connection_spec:
  assumes "scope_ok db" "conn_ok db" "active_connection db cid = Some (w, raw, c)"
  obtains g where "selected_workspace db = Some w" "raw = dec_int g" "generation_is db g"
    "conn_row db cid = Some c" "live_in_workspace (ws_id w) c" "scope_visible db w (sx_account db)"
    "connection_visible (ws_kind w) (sx_account db) c"
proof -
  obtain g where "generation_is db g" using assms(1) by (auto simp: scope_ok_def base_ok_def)
  then show thesis
    using that [of g] assms(3) live_connection_row_iff [OF assms(2)]
    by (auto simp: active_connection_def generation_is_def split: option.splits if_splits)
qed

lemma row_to_active_resource_scope_Inr:
  assumes "row_to_active_resource_scope w acct raw = Inr scope"
  shows "sc_workspace_id scope = ws_id w" "sc_workspace_kind scope = ws_kind w"
    "sc_selected_account_id scope = acct" "parse_scope_generation raw = Inr (sc_generation scope)"
    "stored_scope (ws_kind w) acct = Some (storage_key (sc_account_scope scope))"
  using assms
  by (auto simp: row_to_active_resource_scope_def rbind_eq_Inr ok_or_def stored_scope_def
      account_scope_from_parts_def nonempty_account_def split: option.splits workspace_kind.splits if_splits)

lemma row_to_active_resource_scope_cong:
  "row_to_active_resource_scope w acct raw = Inr scope \<Longrightarrow> ws_id w' = sc_workspace_id scope \<Longrightarrow>
   ws_kind w' = sc_workspace_kind scope \<Longrightarrow>
   row_to_active_resource_scope w' acct raw = Inr scope"
  by (auto simp: row_to_active_resource_scope_def rbind_eq_Inr)

text \<open>What a pin records.\<close>

lemma pin_for_read_Inr:
  assumes "pin_connection_for_read E db cid = Inr pin"
  obtains w raw c where "active_connection db cid = Some (w, raw, c)"
    "row_to_active_resource_scope w (sx_account db) raw = Inr (pin_scope pin)"
    "pin_connection_id pin = cid" "pin_connection_revision pin = cr_revision c"
    "pin_binding_revision pin = pinned_binding_revision c (binding_for db cid (sx_account db))"
    "pin_binding_updated_at pin = pinned_binding_updated_at c (binding_for db cid (sx_account db))"
    "pin_profile pin = row_to_connection_with_binding c (binding_for db cid (sx_account db))"
    "can_read (cp_workspace_access (pin_profile pin))"
    "pin_requires_remote_rbac pin \<longleftrightarrow> cr_remote_id c \<noteq> None" "1 \<le> cr_revision c"
    "pin_catalog_cache_policy pin = cache_policy_of (pin_profile pin)"
proof -
  obtain w raw c where act: "active_connection db cid = Some (w, raw, c)"
    and row: "pin_row cid True w (sx_account db) raw c (binding_for db cid (sx_account db)) = Inr pin"
    using assms by (auto simp: pin_connection_for_read_def pin_connection_with_access_def split: option.splits)
  obtain scope where "row_to_active_resource_scope w (sx_account db) raw = Inr scope"
    using row by (auto simp: pin_row_def Let_def rbind_eq_Inr)
  then show thesis using that [OF act] row by (auto simp: pin_row_def Let_def rbind_eq_Inr)
qed

lemma find_member: "find P xs = Some x \<Longrightarrow> x \<in> set xs"
  by (induction xs) (auto split: if_splits)

lemma binding_for_ok: "conn_ok db \<Longrightarrow> binding_for db cid acct = Some b \<Longrightarrow> binding_ok b"
  by (auto simp: binding_for_def conn_ok_def split: option.splits dest: find_member)

lemma remote_access:
  assumes "row_ok c" "cr_remote_id c \<noteq> None"
  shows "cp_workspace_access (row_to_connection_with_binding c b) = bound_access b"
  using assms by (auto simp: row_ok_def row_to_connection_with_binding_def Let_def bound_access_def)

text \<open>
  A pin taken for a read is current at the moment it is taken, whatever history the store has:
  the check asks for nothing that the pin does not record.
\<close>

theorem fresh_pin_is_current:
  assumes "scope_ok db" "conn_ok db" "list_all store_call_ok calls"
    and "pin_connection_for_read E (store_run E calls db) cid = Inr pin"
  shows "is_pin_current (store_run E calls db) pin"
proof -
  let ?db = "store_run E calls db"
  have ok: "scope_ok ?db" "conn_ok ?db"
    using assms store_run_scope_ok store_run_conn_ok by blast+
  obtain w raw c where pin: "active_connection ?db cid = Some (w, raw, c)"
    "row_to_active_resource_scope w (sx_account ?db) raw = Inr (pin_scope pin)"
    "pin_connection_id pin = cid" "pin_connection_revision pin = cr_revision c"
    "pin_binding_revision pin = pinned_binding_revision c (binding_for ?db cid (sx_account ?db))"
    "pin_binding_updated_at pin = pinned_binding_updated_at c (binding_for ?db cid (sx_account ?db))"
    "pin_profile pin = row_to_connection_with_binding c (binding_for ?db cid (sx_account ?db))"
    "can_read (cp_workspace_access (pin_profile pin))"
    by (rule pin_for_read_Inr [OF assms(4)])
  obtain g where act: "raw = dec_int g" "generation_is ?db g" "conn_row ?db cid = Some c"
    by (rule active_connection_spec [OF ok pin(1)])
  note scope = row_to_active_resource_scope_Inr [OF pin(2)]
  have gen: "raw = dec_int (sc_generation (pin_scope pin))"
    using scope(4) act(1,2) by (simp add: generation_is_def)
  let ?b = "binding_for ?db cid (sx_account ?db)"
  have access: "cr_remote_id c = None \<or> bound_access ?b \<in> {Read_access, Write_access, Manage_access}"
  proof (cases "cr_remote_id c = None")
    case False
    have "row_ok c" using ok(2) conn_row_Some [OF act(3)] by (simp add: conn_ok_def)
    then have "can_read (bound_access ?b)" using pin(7,8) remote_access [OF _ False] by simp
    moreover have "bound_access ?b \<noteq> Local_access"
      using binding_for_ok [OF ok(2)] by (auto simp: bound_access_def binding_ok_def split: option.splits)
    ultimately show ?thesis by (cases "bound_access ?b") simp_all
  qed simp
  show ?thesis
    using pin scope gen access by (auto simp: is_pin_current_def is_pin_current_with_access_def Let_def)
qed

lemma fresh_pin_is_current_witness: "is_pin_current demo_store demo_local_pin"
  using fresh_pin_is_current [OF fresh_store_ok demo_calls_ok demo_store_pin [unfolded demo_store_def]]
  by (simp add: demo_store_def)

text \<open>
  C23. A pin of a local connection is exact while it is current. After any history of the store in
  which the connection is not shared, a pin that is still current is what pinning again gives:
  the same scope, revision, profile, credentials and cache policy. A request that checks its pin
  therefore acts on the connection as it is now.
\<close>

theorem current_pin_is_exact:
  assumes "scope_ok db" "conn_ok db" "list_all store_call_ok calls"
    and "pin_connection_for_read E db cid = Inr pin" "\<not> pin_requires_remote_rbac pin"
    and "list_all (\<lambda>c. \<not> shares cid c) calls" "is_pin_current (store_run E calls db) pin"
  shows "pin_connection_for_read E (store_run E calls db) cid = Inr pin"
proof -
  let ?db = "store_run E calls db"
  have ok: "scope_ok ?db" "conn_ok ?db"
    using assms store_run_scope_ok store_run_conn_ok by blast+
  obtain w raw c where pin: "active_connection db cid = Some (w, raw, c)"
    "row_to_active_resource_scope w (sx_account db) raw = Inr (pin_scope pin)"
    "pin_connection_id pin = cid" "pin_connection_revision pin = cr_revision c"
    "pin_binding_revision pin = pinned_binding_revision c (binding_for db cid (sx_account db))"
    "pin_binding_updated_at pin = pinned_binding_updated_at c (binding_for db cid (sx_account db))"
    "pin_profile pin = row_to_connection_with_binding c (binding_for db cid (sx_account db))"
    "pin_requires_remote_rbac pin \<longleftrightarrow> cr_remote_id c \<noteq> None" "1 \<le> cr_revision c"
    "pin_catalog_cache_policy pin = cache_policy_of (pin_profile pin)"
    by (rule pin_for_read_Inr [OF assms(4)])
  obtain g where act: "raw = dec_int g" "generation_is db g" "conn_row db cid = Some c"
    by (rule active_connection_spec [OF assms(1,2) pin(1)])
  have local: "cr_remote_id c = None" using pin(8) assms(5) by simp
  obtain w' raw' c' where now: "active_connection ?db cid = Some (w', raw', c')"
    "ws_id w' = sc_workspace_id (pin_scope pin)" "ws_kind w' = sc_workspace_kind (pin_scope pin)"
    "sx_account ?db = sc_selected_account_id (pin_scope pin)" "raw' = dec_int (sc_generation (pin_scope pin))"
    "cr_revision c' = pin_connection_revision pin"
    using assms(7) pin(3)
    by (auto simp: is_pin_current_def is_pin_current_with_access_def Let_def split: option.splits)
  obtain g' where act': "conn_row ?db cid = Some c'"
    by (rule active_connection_spec [OF ok now(1)])
  have "conn_evolves c c'"
    using local_evolvesD [OF store_run_evolves [OF assms(2,3,6), of E] act(3) local] act' by auto
  then have c': "cr_profile c' = cr_profile c" "cr_remote_id c' = None"
    using now(6) pin(4) by (auto simp: conn_evolves_def)
  have "row_ok c" using assms(2) conn_row_Some [OF act(3)] by (simp add: conn_ok_def)
  then have access: "cp_workspace_access (cr_profile c) = Local_access" using local by (simp add: row_ok_def)
  then have profile: "row_to_connection_with_binding c' b = pin_profile pin" for b
    using pin(7) c' by (simp add: row_to_connection_with_binding_def)
  note scope = row_to_active_resource_scope_Inr [OF pin(2)]
  have "raw' = raw" using scope(4) act(1,2) now(5) by (simp add: generation_is_def)
  then have again: "row_to_active_resource_scope w' (sx_account ?db) raw' = Inr (pin_scope pin)"
    using row_to_active_resource_scope_cong [OF pin(2) now(2,3)] now(4) scope(3) by simp
  have read: "can_read (cp_workspace_access (pin_profile pin))"
    using profile access c' by (simp add: row_to_connection_with_binding_def)
  show ?thesis
    using pin(3,4,5,6,8-10) now(1,6) c' profile again local read assms(5)
    by (cases pin) (simp add: pin_connection_for_read_def pin_connection_with_access_def pin_row_def Let_def
        pinned_binding_revision_def pinned_binding_updated_at_def del: can_read.simps)
qed

lemma current_pin_is_exact_witness:
  "pin_connection_for_read ref_env (store_run ref_env
     [(''t3'', Remember_account \<lparr>au_id = ''u2'', au_email = ''e'', au_display_name = ''n''\<rparr>)] demo_store) 3
   = Inr demo_local_pin"
proof (rule current_pin_is_exact [OF demo_store_ok _ demo_store_pin])
  let ?calls = "[(''t3'', Remember_account \<lparr>au_id = ''u2'', au_email = ''e'', au_display_name = ''n''\<rparr>)]"
  show "is_pin_current (store_run ref_env ?calls demo_store) demo_local_pin"
    by (simp add: is_pin_current_def is_pin_current_with_access_def active_connection_def
        live_connection_row_def live_in_workspace_def connection_visible_def store_eval
        pinned_binding_revision_def pinned_binding_updated_at_def stored_scope_def demo_local_pin_def
        dec_int_def dec_nat.simps [of 0] digit_char_def)
qed (simp_all add: demo_local_pin_def)

section \<open>What an account reads and writes\<close>

lemma active_connection_scope:
  assumes "scope_ok db" "conn_ok db" "is_pin_current_with_access db pin v"
  obtains w raw c s where "active_connection db (pin_connection_id pin) = Some (w, raw, c)"
    "store_active_scope db = Inr s" "active_workspace db = Inr w" "ws_id w = sc_workspace_id s"
    "sc_workspace_id s = sc_workspace_id (pin_scope pin)"
    "sc_selected_account_id s = sc_selected_account_id (pin_scope pin)"
    "sc_generation s = sc_generation (pin_scope pin)"
    "storage_key (sc_account_scope s) = storage_key (sc_account_scope (pin_scope pin))"
proof -
  obtain w raw c where now: "active_connection db (pin_connection_id pin) = Some (w, raw, c)"
    "ws_id w = sc_workspace_id (pin_scope pin)"
    "sx_account db = sc_selected_account_id (pin_scope pin)" "raw = dec_int (sc_generation (pin_scope pin))"
    "stored_scope (ws_kind w) (sx_account db) = Some (storage_key (sc_account_scope (pin_scope pin)))"
    using assms(3) by (auto simp: is_pin_current_with_access_def Let_def split: option.splits)
  obtain g where act: "selected_workspace db = Some w" "raw = dec_int g" "generation_is db g"
    "scope_visible db w (sx_account db)"
    by (rule active_connection_spec [OF assms(1,2) now(1)])
  obtain s w2 where s: "store_active_scope db = Inr s" "active_workspace db = Inr w2"
    "sc_selected_account_id s = sx_account db" "generation_is db (sc_generation s)"
    "ws_id w2 = sc_workspace_id s"
    "ws_kind w2 = Team_workspace \<Longrightarrow> \<exists>u. sx_account db = Some u \<and> member_active db (ws_id w2) u \<and>
       sc_account_scope s = WorkspaceUser_scope u"
    "ws_kind w2 = Personal_workspace \<Longrightarrow> sc_account_scope s = Personal_scope"
    using scope_ok_reads [OF assms(1)] by metis
  have w2: "w2 = w" using s(2) act(1,4) by (auto simp: active_workspace_def split: if_splits)
  have "sc_generation s = sc_generation (pin_scope pin)"
    using generation_is_unique [OF s(4) act(3)] act(2) now(4) by (simp add: dec_int_inject)
  moreover have "storage_key (sc_account_scope s) = storage_key (sc_account_scope (pin_scope pin))"
    using s(6,7) w2 now(5) by (cases "ws_kind w") (auto simp: stored_scope_def)
  ultimately show thesis using that [OF now(1) s(1)] s w2 now by simp
qed

text \<open>
  C24. History is fenced. An entry is saved only under a pin that is current: then the active scope
  is the one the pin was taken in, the entry is kept under that scope's account, and listing the
  connection shows it. In every other case the save fails and nothing changes.
\<close>

theorem history_is_fenced:
  assumes "scope_ok db" "conn_ok db" "list_all store_call_ok calls"
  shows "case insert_history_if_current pin h (store_run E calls db) of
      Inl _ \<Rightarrow> store_exec E (now, Put_history pin h) (store_run E calls db) = store_run E calls db
    | Inr db' \<Rightarrow> is_pin_current (store_run E calls db) pin \<and> hy_connection_id h = pin_connection_id pin \<and>
        (\<exists>s hs. store_active_scope db' = Inr s \<and> sc_workspace_id s = pin_workspace_id pin \<and>
           sc_selected_account_id s = sc_selected_account_id (pin_scope pin) \<and>
           sc_generation s = sc_generation (pin_scope pin) \<and>
           list_history E (pin_connection_id pin) db' = Inr hs \<and> h \<in> set hs)"
proof (cases "insert_history_if_current pin h (store_run E calls db)")
  case (Inl e)
  then show ?thesis by (simp add: committed_def)
next
  case (Inr db')
  let ?db = "store_run E calls db"
  have ok: "scope_ok ?db" "conn_ok ?db"
    using assms store_run_scope_ok store_run_conn_ok by blast+
  have saved: "hy_connection_id h = pin_connection_id pin" "is_pin_current ?db pin"
    "db' = ?db\<lparr>sx_history := sx_history ?db @ [(storage_key (pin_account_scope pin), h)]\<rparr>"
    using Inr by (auto simp: insert_history_if_current_def rbind_eq_Inr)
  have frame: "scope_part db' = scope_part ?db" "conn_part db' = conn_part ?db"
    by (simp_all add: saved(3) scope_part_def conn_part_def)
  have ok': "scope_ok db'" "conn_ok db'"
    using ok scope_ok_cong [OF frame(1)] conn_ok_part [OF ok(2) frame(2)] by simp_all
  have "is_pin_current_with_access db' pin False"
    using saved(2) pin_current_cong [OF frame] by (simp add: is_pin_current_def)
  then obtain w raw c s where act: "active_connection db' (pin_connection_id pin) = Some (w, raw, c)"
    "store_active_scope db' = Inr s" "active_workspace db' = Inr w" "ws_id w = sc_workspace_id s"
    "sc_workspace_id s = sc_workspace_id (pin_scope pin)"
    "sc_selected_account_id s = sc_selected_account_id (pin_scope pin)"
    "sc_generation s = sc_generation (pin_scope pin)"
    "storage_key (sc_account_scope s) = storage_key (sc_account_scope (pin_scope pin))"
    by (rule active_connection_scope [OF ok'])
  obtain g where spec: "conn_row db' (pin_connection_id pin) = Some c" "live_in_workspace (ws_id w) c"
    "scope_visible db' w (sx_account db')" "connection_visible (ws_kind w) (sx_account db') c"
    by (rule active_connection_spec [OF ok' act(1)])
  have "live_connection_row db' (ws_id w) (pin_connection_id pin) = Some c"
    using live_connection_row_iff [OF ok'(2)] spec by simp
  moreover have "reading_workspace db' = Inr w"
    using act(3) spec(3) by (auto simp: reading_workspace_def scope_visible_def split: option.splits)
  ultimately have "\<exists>p. get_connection E db' (pin_connection_id pin) = Inr p"
    using spec(4) by (simp add: get_connection_def ok_or_def)
  then have "\<exists>hs. list_history E (pin_connection_id pin) db' = Inr hs \<and> h \<in> set hs"
    using act(2,8) saved(1,3)
    by (auto simp: list_history_def active_local_scope_def pin_account_scope_def set_insort_key)
  then show ?thesis using Inr saved(1,2) act by (auto simp: pin_workspace_id_def)
qed



lemma history_is_fenced_witness:
  "\<exists>db'. insert_history_if_current demo_local_pin
     \<lparr>hy_id = 9, hy_connection_id = 3, hy_sql = ''SELECT 1'', hy_kind = Read, hy_status = ''ok'',
      hy_row_count = Some 1, hy_duration_ms = Some 1, hy_error = None, hy_executed_at = 5,
      hy_origin = ''agent''\<rparr> demo_store = Inr db' \<and>
     (\<exists>s. store_active_scope db' = Inr s \<and> sc_generation s = 0)"
proof -
  let ?h = "\<lparr>hy_id = 9, hy_connection_id = 3, hy_sql = ''SELECT 1'', hy_kind = Read, hy_status = ''ok'',
      hy_row_count = Some 1, hy_duration_ms = Some 1, hy_error = None, hy_executed_at = 5,
      hy_origin = ''agent''\<rparr>"
  have "sx_history demo_store = []" by (simp add: store_eval)
  then obtain db' where db': "insert_history_if_current demo_local_pin ?h demo_store = Inr db'"
    using demo_pin_current by (simp add: insert_history_if_current_def demo_local_pin_def)
  have "list_all store_call_ok []" by simp
  from history_is_fenced [OF demo_store_ok this, where pin = demo_local_pin and h = ?h and E = ref_env and now = "''t''"]
  show ?thesis using db' by (auto simp: store_run_def demo_local_pin_def)
qed

section \<open>Opening the store\<close>

lemma drop_unknown_scope_ok: "scope_ok db \<Longrightarrow> drop_unknown_account db = db"
  by (auto simp: scope_ok_def drop_unknown_account_def split: option.splits)

lemma repair_scope_ok_id: "scope_ok db \<Longrightarrow> repair_active_scope_after_membership_change now db = Inr (db, False)"
  by (auto simp: repair_active_scope_after_membership_change_def drop_unknown_scope_ok ok_or_def Let_def)
    (auto simp: scope_ok_def)

lemma bump_succeeds:
  "generation_is db g \<Longrightarrow> g < i64_max \<Longrightarrow>
   bump_active_scope_generation db = Inr (db\<lparr>sx_generation := Some (dec_int (g + 1))\<rparr>)"
  by (simp add: bump_active_scope_generation_def generation_is_def)

text \<open>
  C26. Opening the store repairs the selection. Whatever workspace and account an older version or
  another process left selected, the repair succeeds unless the generation is exhausted, leaves a
  valid selection, says truthfully whether it changed anything, and has nothing left to do when it
  runs again.
\<close>

theorem opening_repairs_the_scope:
  assumes "base_ok db" "generation_is db g" "g < i64_max"
  shows "\<exists>db' changed. repair_active_scope_after_membership_change now db = Inr (db', changed) \<and>
    scope_ok db' \<and> (changed \<longleftrightarrow> db' \<noteq> db) \<and> generation_is db' (if changed then g + 1 else g) \<and>
    repair_active_scope_after_membership_change later db' = Inr (db', False)"
proof -
  let ?db1 = "drop_unknown_account db" and ?db2 = "select_fallback now (drop_unknown_account db)"
  obtain wid where wid: "sx_active db = Some wid" using assms(1) by (auto simp: base_ok_def)
  have gen: "generation_is ?db1 g" "generation_is ?db2 g"
    using assms(2) by (auto simp: generation_is_def drop_unknown_account_def select_fallback_def Let_def
        split: option.split)
  have bump: "bump_active_scope_generation d = Inr (d\<lparr>sx_generation := Some (dec_int (g + 1))\<rparr>)"
    if "generation_is d g" for d using bump_succeeds [OF that assms(3)] .
  have less: "generation_is (d\<lparr>sx_generation := Some (dec_int (g + 1))\<rparr>) (g + 1)" for d
    using assms(2,3) by (simp add: generation_is_def)
  have same: "?db1 = db" if "sx_account ?db1 = sx_account db"
    using that by (auto simp: drop_unknown_account_def split: option.splits if_splits)
  have "\<exists>db' changed. repair_active_scope_after_membership_change now db = Inr (db', changed) \<and>
      (if changed then generation_is db' (g + 1) else db' = db)"
  proof (cases "selection_valid ?db1 wid")
    case valid: True
    show ?thesis
    proof (cases "sx_account ?db1 = sx_account db")
      case True
      then show ?thesis
        using wid valid same
        by (intro exI [of _ db] exI [of _ False])
          (simp add: repair_active_scope_after_membership_change_def ok_or_def Let_def)
    next
      case False
      then show ?thesis
        using wid valid bump [OF gen(1)] less [of ?db1]
        by (intro exI [of _ "?db1\<lparr>sx_generation := Some (dec_int (g + 1))\<rparr>"] exI [of _ True])
          (simp add: repair_active_scope_after_membership_change_def ok_or_def Let_def)
    qed
  next
    case False
    then show ?thesis
      using wid bump [OF gen(2)] less [of ?db2]
      by (intro exI [of _ "?db2\<lparr>sx_generation := Some (dec_int (g + 1))\<rparr>"] exI [of _ True])
        (simp add: repair_active_scope_after_membership_change_def ok_or_def Let_def)
  qed
  then obtain db' changed where run: "repair_active_scope_after_membership_change now db = Inr (db', changed)"
    and ch: "changed \<Longrightarrow> generation_is db' (g + 1)" "\<not> changed \<Longrightarrow> db' = db"
    by (auto split: if_splits)
  have ok: "scope_ok db'" by (rule repair_scope_ok [OF assms(1) run])
  have "changed \<Longrightarrow> db' \<noteq> db" using ch(1) generation_is_unique [OF assms(2), of "g + 1"] by auto
  then show ?thesis using run ok ch assms(2) repair_scope_ok_id [OF ok] by auto
qed

text \<open>A store whose selected account is unknown and whose selected workspace does not exist.\<close>

lemma opening_repairs_the_scope_witness:
  "\<exists>db'. repair_active_scope_after_membership_change ''t1''
     (fresh_store\<lparr>sx_active := Some 77, sx_account := Some ''gone''\<rparr>) = Inr (db', True) \<and> scope_ok db'"
proof -
  let ?db = "fresh_store\<lparr>sx_active := Some 77, sx_account := Some ''gone''\<rparr>"
  have base: "base_ok ?db" and gen: "generation_is ?db 0"
    using fresh_store_ok(1) by (auto simp: scope_ok_def base_ok_def generation_is_def)
      (auto simp: fresh_store_def dec_int_def dec_nat.simps [of 0] digit_char_def i64_max_def)
  have "(0 :: int) < i64_max" by (simp add: i64_max_def)
  then obtain db' changed where r: "repair_active_scope_after_membership_change ''t1'' ?db = Inr (db', changed)"
    "scope_ok db'" "changed \<longleftrightarrow> db' \<noteq> ?db"
    using opening_repairs_the_scope [OF base gen, of "''t1''" "''t2''"] by blast
  have "\<not> scope_ok ?db" by (auto simp: scope_ok_def account_exists_def fresh_store_def)
  then show ?thesis using r by auto
qed

text \<open>
  C27. The connection tables stay well typed over every history: identifiers are unique, a profile
  of this device is local with local credentials and a positive revision, a shared template is
  never local, and a binding never grants local access and always carries the revision and the
  time the pins compare.
\<close>

theorem connection_tables_well_typed:
  assumes "conn_ok db" "list_all store_call_ok calls"
  shows "distinct (map cr_id (sx_connections (store_run E calls db))) \<and>
    (\<forall>c \<in> set (sx_connections (store_run E calls db)).
       (cr_remote_id c = None \<longleftrightarrow> cp_workspace_access (cr_profile c) = Local_access) \<and>
       (cr_remote_id c = None \<longleftrightarrow> cp_credential_mode (cr_profile c) = Local_credential) \<and>
       (cr_remote_id c = None \<longrightarrow> 1 \<le> cr_revision c)) \<and>
    (\<forall>b \<in> set (sx_bindings (store_run E calls db)).
       bn_workspace_access b \<noteq> Local_access \<and> 1 \<le> bn_revision b \<and> bn_updated_at b \<noteq> [])"
  using store_run_conn_ok [OF assms, of E]
  unfolding conn_ok_def by (auto simp: row_ok_def binding_ok_def split: if_splits)

lemma connection_tables_well_typed_witness: "distinct (map cr_id (sx_connections demo_store))"
  using connection_tables_well_typed [OF fresh_store_ok(2) demo_calls_ok, of ref_env]
  by (simp add: demo_store_def)

end
