(* ===== verification/Connection_Contracts.thy ===== *)
theory Connection_Contracts
  imports Connection_Safety Store_Contracts
begin

text \<open>
  What the connection manager promises, whatever operations, mutations, timers and cancellations
  are interleaved: an operation that holds a lease runs with no mutation, its pin is current, its
  pool is open and was opened for exactly its authority; at most one task opens a pool for one
  authority; a pool is closed once, when its last owner is gone; and an acquisition can always
  be brought to an end.
\<close>

section \<open>Runs\<close>

primrec manager_run :: "env \<Rightarrow> label list \<Rightarrow> manager \<Rightarrow> manager option" where
  "manager_run E [] m = Some m"
| "manager_run E (l # ls) m = (case manager_step E l m of Some m' \<Rightarrow> manager_run E ls m' | None \<Rightarrow> None)"

lemma manager_run_reachable:
  "manager_run E ls m = Some m' \<Longrightarrow> manager_reachable E m \<Longrightarrow> manager_reachable E m'"
  by (induction ls arbitrary: m) (auto split: option.splits intro: manager_reachable.step)

text \<open>Two tasks ask for the same local connection: the first opens the pool, the second shares it.\<close>

definition first_opens :: "label list" where
  "first_opens = [Acquire 0 3 Access_Read (Inr 0), Enter 0, Lock 0, Acquire 1 3 Access_Read (Inr 0), Enter 1]"

definition second_shares :: "label list" where
  "second_shares = [Open 0 (Inr (0, 60)) (Inr ()), Publish 0 (Inr 0), Lock 1, Reauthorise 1 (Inr 0)]"

definition demo_key :: cache_key where
  "demo_key = cache_key_new demo_local_pin Access_Read"

definition demo_opening :: manager where
  "demo_opening = (manager_new demo_store 2)\<lparr>cm_slots := [(demo_key, 0)],
     cm_slot := [\<lparr>sl_entry = None, sl_owner = Some 0\<rparr>],
     cm_tasks := [Opening demo_local_pin Access_Read None 0, Locking demo_local_pin Access_Read None 0]\<rparr>"

definition demo_shared :: manager where
  "demo_shared = (manager_new demo_store 2)\<lparr>cm_slots := [(demo_key, 0)],
     cm_slot := [\<lparr>sl_entry = Some 1, sl_owner = None\<rparr>], cm_next_generation := 2,
     cm_entries := [1 \<mapsto> \<lparr>ce_key = demo_key, ce_retire_at = None, ce_managed = None\<rparr>],
     cm_tasks := [Leased demo_local_pin Access_Read 1, Leased demo_local_pin Access_Read 1]\<rparr>"

lemma demo_authorised: "authorize_pin demo_local_pin Access_Read (Inr 0) = Inr None"
  by (simp add: authorize_pin_def demo_local_pin_def demo_profile_def)

lemmas manager_eval = manager_step_def manager_new_def may_read_def begin_context_def authorized_context_def
  enter_slot_def lock_slot_def open_pool_def publish_entry_def handoff_entry_def connect_authorized_def
  reauthorize_pin_def set_task_def put_slot_def retirement_due_def cache_entry_expired_def

lemma demo_opening_run: "manager_run ref_env first_opens (manager_new demo_store 2) = Some demo_opening"
  by (simp add: first_opens_def manager_eval demo_store_pin demo_authorised demo_pin_current demo_opening_def
      demo_key_def numeral_2_eq_2)

lemma demo_shared_run: "manager_run ref_env second_shares demo_opening = Some demo_shared"
  by (simp add: second_shares_def manager_eval demo_opening_def demo_authorised demo_pin_current demo_shared_def
      demo_key_def numeral_2_eq_2 demo_local_pin_def [THEN arg_cong [of _ _ pin_profile]] demo_profile_def)

lemma demo_manager_reachable: "manager_reachable ref_env demo_opening" "manager_reachable ref_env demo_shared"
proof -
  show "manager_reachable ref_env demo_opening"
    by (rule manager_run_reachable [OF demo_opening_run manager_reachable.start])
  then show "manager_reachable ref_env demo_shared" by (rule manager_run_reachable [OF demo_shared_run])
qed

section \<open>What an operation may rely on\<close>







text \<open>
  C13. No pool leaks and none is closed twice. In every reachable state, cancellations of tasks at
  any await included, a pool that was opened and published is closed exactly when no slot and
  no task refers to it any more, and it was closed once.
\<close>

theorem pools_closed_once:
  assumes "manager_reachable E m"
  shows "distinct (cm_closed m) \<and>
    (\<forall>g. cm_entries m g \<noteq> None \<longrightarrow> (g \<in> set (cm_closed m) \<longleftrightarrow> \<not> referenced m g))"
  using manager_okD(6) [OF manager_reachable_ok [OF assms]] by (auto simp: closed_ok_def)

lemma pools_closed_once_witness: "1 \<notin> set (cm_closed demo_shared)"
  using pools_closed_once [OF demo_manager_reachable(2)] by (simp add: demo_shared_def referenced_def manager_new_def)


text \<open>
  C15. A pool is handed out only by a step at which the control plane authorised exactly this access
  to a shared connection, the pin was current and the credentials of the pool had not reached
  the instant at which they must retire.
\<close>

theorem lease_is_authorised:
  assumes "manager_step E l m = Some m'" "cm_tasks m ! t \<noteq> Leased pin access g"
    and "t < length (cm_tasks m)" "cm_tasks m' ! t = Leased pin access g"
  shows "\<exists>answer. l \<in> {Reauthorise t answer, Publish t answer} \<and> reauthorize_pin pin access answer = Inr () \<and>
    is_pin_current (cm_store m') pin \<and> \<not> cache_entry_expired m' g"
proof (cases "label_task l")
  case None
  then have "cm_tasks m' = cm_tasks m"
    using assms(1) by (cases l) (auto simp: manager_step_def fire_timer_def Let_def split: if_splits prod.splits)
  then show ?thesis using assms(2,4) by simp
next
  case (Some i)
  then have i: "i < length (cm_tasks m)" and step: "label_step E l m = Some m'"
    using assms(1) by (auto simp: manager_step_def split: if_splits)
  have it: "i = t"
  proof (rule ccontr)
    assume "i \<noteq> t"
    then have "cm_tasks m' ! t = cm_tasks m ! t"
      using step Some
      by (cases l) (auto simp: begin_context_def enter_slot_def lock_slot_def handoff_entry_def discard_expired_def
          retire_entries_def open_pool_def publish_entry_def finish_mutation_def detach_keys_def end_task_def
          release_slot_def Let_def split: task_phase.splits option.splits sum.splits if_splits)
    then show False using assms(2,4) by simp
  qed
  have ended: "cm_tasks (end_task t n) ! t = Idle" if "t < length (cm_tasks n)" for n
    using that by (simp add: end_task_def release_slot_def Let_def split: option.split)
  show ?thesis
    using step Some it assms(2,3,4) ended
    by (cases l) (auto simp: begin_context_def enter_slot_def lock_slot_def handoff_entry_def discard_expired_def
        retire_entries_def open_pool_def publish_entry_def finish_mutation_def detach_keys_def
        authorized_context_def rbind_eq_Inr Let_def cache_entry_expired_def retirement_due_def
        split: task_phase.splits option.splits sum.splits if_splits)
qed

lemma lease_is_authorised_witness:
  "\<exists>m m'. manager_step ref_env (Publish 0 (Inr 0)) m = Some m' \<and>
     cm_tasks m' ! 0 = Leased demo_local_pin Access_Read 1 \<and> \<not> cache_entry_expired m' 1"
proof -
  let ?m = "demo_opening\<lparr>cm_tasks := [Opened demo_local_pin Access_Read None 0 None None,
      Locking demo_local_pin Access_Read None 0]\<rparr>"
  obtain m' where m': "manager_step ref_env (Publish 0 (Inr 0)) ?m = Some m'"
    "cm_tasks m' ! 0 = Leased demo_local_pin Access_Read 1"
    by (simp add: manager_eval demo_opening_def demo_authorised demo_pin_current)
  have "\<not> cache_entry_expired m' 1"
    using lease_is_authorised [OF m'(1) _ _ m'(2)] by simp
  then show ?thesis using m' by blast
qed


section \<open>Acquisitions end\<close>

text \<open>
  \<open>within E n m t\<close>: task \<open>t\<close> can hold its lease or be refused after at most \<open>n\<close> more steps, none
  of which cancels a task or lets time pass.
\<close>

fun settled :: "task_phase \<Rightarrow> bool" where
  "settled Idle = True"
| "settled (Leased _ _ _) = True"
| "settled _ = False"

fun plain :: "label \<Rightarrow> bool" where
  "plain (Cancel _) = False"
| "plain Tick = False"
| "plain _ = True"

definition within :: "env \<Rightarrow> nat \<Rightarrow> manager \<Rightarrow> nat \<Rightarrow> bool" where
  "within E n m t \<longleftrightarrow> (\<exists>ls m'. length ls \<le> n \<and> list_all plain ls \<and> manager_run E ls m = Some m' \<and>
     settled (cm_tasks m' ! t))"

lemma within_now: "settled (cm_tasks m ! t) \<Longrightarrow> within E n m t"
  unfolding within_def by (intro exI [of _ "[]"]) simp

lemma within_step:
  assumes "manager_step E l m = Some m'" "plain l" "within E n m' t"
  shows "within E (Suc n) m t"
proof -
  obtain ls m2 where "length ls \<le> n" "list_all plain ls" "manager_run E ls m' = Some m2" "settled (cm_tasks m2 ! t)"
    using assms(3) by (auto simp: within_def)
  then show ?thesis using assms(1,2) unfolding within_def by (intro exI [of _ "l # ls"] exI [of _ m2]) simp
qed

lemma within_mono:
  assumes "within E n m t" "n \<le> k"
  shows "within E k m t"
  using assms unfolding within_def by (meson order_trans)

lemma end_task_tasks: "cm_tasks (end_task t m) = (cm_tasks m)[t := Idle]"
  by (simp add: end_task_def release_slot_def Let_def split: option.split)

lemma step_of:
  assumes "label_step E l m = Some m'" "label_task l = Some i" "i < length (cm_tasks m)"
  shows "manager_step E l m = Some m'"
  using assms by (simp add: manager_step_def)

text \<open>What a step of one task leaves alone for the others.\<close>

definition others_wait :: "nat \<Rightarrow> manager \<Rightarrow> manager \<Rightarrow> bool" where
  "others_wait i m m' \<longleftrightarrow> length (cm_tasks m') = length (cm_tasks m) \<and> length (cm_slot m') = length (cm_slot m) \<and>
     (\<forall>j. j \<noteq> i \<longrightarrow> cm_tasks m' ! j = cm_tasks m ! j)"

lemma others_wait_end: "others_wait i m (end_task i m)"
  by (simp add: others_wait_def end_task_def release_slot_def Let_def split: option.split)

lemma opened_returns:
  assumes "i < length (cm_tasks m)" "cm_tasks m ! i = Opened pin access auth s at managed"
  shows "\<exists>m'. manager_step E (Publish i (Inr (pin_connection_revision pin))) m = Some m' \<and>
    settled (cm_tasks m' ! i) \<and> others_wait i m m'"
proof -
  have "publish_entry i (Inr (pin_connection_revision pin)) m \<noteq> None"
    using assms(2) by (simp add: publish_entry_def Let_def split: sum.split)
  then obtain m' where m': "publish_entry i (Inr (pin_connection_revision pin)) m = Some m'" by blast
  have "others_wait i m (end_task i (m\<lparr>cm_next_generation := k\<rparr>))" for k
    using others_wait_end [of i "m\<lparr>cm_next_generation := k\<rparr>"] by (simp add: others_wait_def)
  then have "settled (cm_tasks m' ! i) \<and> others_wait i m m'"
    using m' assms others_wait_end [of i m]
    by (auto simp: publish_entry_def end_task_tasks Let_def others_wait_def split: sum.splits if_splits)
  then show ?thesis using step_of [of E _ m m' i] m' assms(1) by fastforce
qed

lemma opening_opens:
  assumes "i < length (cm_tasks m)" "cm_tasks m ! i = Opening pin access auth s"
  shows "\<exists>m'. manager_step E (Open i (Inr (0, 60)) (Inr ())) m = Some m' \<and> others_wait i m m' \<and>
    (cm_tasks m' ! i = Idle \<or> (\<exists>at managed. cm_tasks m' ! i = Opened pin access auth s at managed))"
proof -
  obtain r where r: "connect_authorized (pin_profile pin) auth (Inr (0, 60)) (Inr ()) (cm_now m) = r" by blast
  show ?thesis
    using assms r others_wait_end [of i m]
    by (cases r) (auto simp: manager_step_def open_pool_def end_task_tasks others_wait_def)
qed

text \<open>The owner of a slot opens and publishes, or is refused, and gives the mutex back.\<close>

lemma owner_returns:
  assumes "manager_ok [] m" "s < length (cm_slot m)" "t < length (cm_tasks m)" "owns_slot (cm_tasks m ! t) = None"
    and "\<And>m'. manager_ok [] m' \<Longrightarrow> length (cm_tasks m') = length (cm_tasks m) \<Longrightarrow>
      cm_tasks m' ! t = cm_tasks m ! t \<Longrightarrow> sl_owner (cm_slot m' ! s) = None \<Longrightarrow> within E n m' t"
  shows "within E (Suc (Suc n)) m t"
proof (cases "sl_owner (cm_slot m ! s)")
  case None
  then show ?thesis using assms by (intro within_mono [of E n m t "Suc (Suc n)"]) auto
next
  case (Some i)
  then have i: "i < length (cm_tasks m)" "owns_slot (cm_tasks m ! i) = Some s" "i \<noteq> t"
    using manager_okD(4) [OF assms(1)] assms(2,4) by (auto simp: owners_ok_def)
  have free: "within E n m' t"
    if "manager_ok [] m'" "others_wait i m m'" "owns_slot (cm_tasks m' ! i) = None" for m'
  proof (rule assms(5) [OF that(1)])
    show "sl_owner (cm_slot m' ! s) = None"
    proof (rule ccontr)
      assume "sl_owner (cm_slot m' ! s) \<noteq> None"
      then obtain j where j: "sl_owner (cm_slot m' ! s) = Some j" by blast
      then have "j < length (cm_tasks m)" "owns_slot (cm_tasks m' ! j) = Some s"
        using manager_okD(4) [OF that(1)] that(2) assms(2) by (auto simp: owners_ok_def others_wait_def)
      moreover from this have "j \<noteq> i" using that(3) by auto
      ultimately have "sl_owner (cm_slot m ! s) = Some j"
        using manager_okD(4) [OF assms(1)] that(2) assms(2) by (simp add: owners_ok_def others_wait_def)
      then show False using Some \<open>j \<noteq> i\<close> by simp
    qed
  qed (use that(2) i(3) in \<open>auto simp: others_wait_def\<close>)
  have settled_owns: "owns_slot p = None" if "settled p" for p using that by (cases p) simp_all
  have publish: "within E (Suc n) m1 t"
    if m1: "manager_ok [] m1" "others_wait i m m1" "cm_tasks m1 ! i = Opened pin access auth s at managed"
    for m1 pin access auth at managed
  proof -
    obtain m' where m': "manager_step E (Publish i (Inr (pin_connection_revision pin))) m1 = Some m'"
      "settled (cm_tasks m' ! i)" "others_wait i m1 m'"
      using opened_returns [OF _ m1(3), of E] i(1) m1(2) by (auto simp: others_wait_def)
    have "within E n m' t"
      by (rule free [OF manager_step_ok [OF m1(1) m'(1)]])
        (use m1(2) m'(2,3) settled_owns in \<open>auto simp: others_wait_def\<close>)
    then show ?thesis by (rule within_step [OF m'(1), rotated]) simp
  qed
  consider pin access auth where "cm_tasks m ! i = Opening pin access auth s"
    | pin access auth at managed where "cm_tasks m ! i = Opened pin access auth s at managed"
    using i(2) by (cases "cm_tasks m ! i") auto
  then show ?thesis
  proof cases
    case (1 pin access auth)
    obtain m1 where m1: "manager_step E (Open i (Inr (0, 60)) (Inr ())) m = Some m1" "others_wait i m m1"
      "cm_tasks m1 ! i = Idle \<or> (\<exists>at managed. cm_tasks m1 ! i = Opened pin access auth s at managed)"
      using opening_opens [OF i(1) 1] by blast
    have ok1: "manager_ok [] m1" by (rule manager_step_ok [OF assms(1) m1(1)])
    have "within E (Suc n) m1 t"
      using m1(3)
    proof
      assume "cm_tasks m1 ! i = Idle"
      then have "within E n m1 t" by (intro free [OF ok1 m1(2)]) simp
      then show ?thesis by (rule within_mono) simp
    qed (use publish [OF ok1 m1(2)] in blast)
    then show ?thesis by (rule within_step [OF m1(1), rotated]) simp
  next
    case (2 pin access auth at managed)
    have "within E (Suc n) m t" by (rule publish [OF assms(1) _ 2]) (simp add: others_wait_def)
    then show ?thesis by (rule within_mono) simp
  qed
qed


lemma phase_slot_bound:
  assumes "manager_ok [] m" "t < length (cm_tasks m)" "phase_slot (cm_tasks m ! t) = Some s"
  shows "s < length (cm_slot m)"
  using phases_okD [OF assms(1,2)] assms(3) by (simp add: phase_ok_def)

lemma opening_ends:
  assumes "t < length (cm_tasks m)" "cm_tasks m ! t = Opening pin access auth s"
  shows "within E 2 m t"
proof -
  obtain m1 where m1: "manager_step E (Open t (Inr (0, 60)) (Inr ())) m = Some m1" "others_wait t m m1"
    "cm_tasks m1 ! t = Idle \<or> (\<exists>at managed. cm_tasks m1 ! t = Opened pin access auth s at managed)"
    using opening_opens [OF assms] by blast
  have "within E 1 m1 t"
    using m1(3)
  proof
    assume "\<exists>at managed. cm_tasks m1 ! t = Opened pin access auth s at managed"
    then obtain m2 where m2: "manager_step E (Publish t (Inr (pin_connection_revision pin))) m1 = Some m2"
      "settled (cm_tasks m2 ! t)"
      using opened_returns [of t m1 pin access auth s _ _ E] assms(1) m1(2) by (auto simp: others_wait_def)
    then show ?thesis using within_step [OF m2(1) _ within_now [OF m2(2)], of 0] by simp
  qed (simp add: within_now)
  then show ?thesis using within_step [OF m1(1)] by (simp add: numeral_2_eq_2)
qed

lemma empty_slot_ends:
  assumes "t < length (cm_tasks m)" "cm_tasks m ! t = Locking pin access auth s"
    "sl_owner (cm_slot m ! s) = None" "sl_entry (cm_slot m ! s) = None"
  shows "within E 3 m t"
proof -
  let ?m = "set_task t (Opening pin access auth s) (put_slot s ((cm_slot m ! s)\<lparr>sl_owner := Some t\<rparr>) m)"
  have "manager_step E (Lock t) m = Some ?m" using assms by (simp add: manager_step_def lock_slot_def)
  moreover have "within E 2 ?m t" by (rule opening_ends) (use assms(1) in simp_all)
  ultimately show ?thesis using within_step [of E "Lock t" m ?m 2 t] by (simp add: numeral_3_eq_3 numeral_2_eq_2)
qed

lemma retiring_free_ends:
  assumes "t < length (cm_tasks m)" "cm_tasks m ! t = Retiring pin access auth s g"
    "sl_owner (cm_slot m ! s) = None" "sl_entry (cm_slot m ! s) = None"
  shows "within E 4 m t"
proof -
  let ?m = "settle [g] (set_task t (Locking pin access auth s) m)"
  have "manager_step E (Retire t) m = Some ?m" using assms by (simp add: manager_step_def retire_entries_def)
  moreover have "within E 3 ?m t" by (rule empty_slot_ends) (use assms in simp_all)
  ultimately show ?thesis using within_step [of E "Retire t" m ?m 3 t] by (simp add: eval_nat_numeral)
qed

text \<open>A cached pool that has not expired is handed out at once, if the authority still holds.\<close>

lemma fresh_handoff_ends:
  assumes "t < length (cm_tasks m)" "cm_tasks m ! t = Handoff pin access auth s g" "\<not> cache_entry_expired m g"
  shows "within E 1 m t"
proof -
  let ?a = "Inr (pin_connection_revision pin)"
  have "handoff_entry t ?a m \<noteq> None" using assms by (simp add: handoff_entry_def split: sum.split)
  then obtain m' where run: "handoff_entry t ?a m = Some m'" by blast
  have m': "handoff_entry t ?a m = Some m'" "settled (cm_tasks m' ! t)"
    using run assms by (auto simp: handoff_entry_def end_task_tasks split: sum.splits if_splits)
  then have "manager_step E (Reauthorise t ?a) m = Some m'" using assms(1) by (simp add: manager_step_def)
  then show ?thesis using within_step [OF _ _ within_now [where n = 0, OF m'(2)]] by simp
qed

lemma locking_ends:
  assumes "manager_ok [] m" "t < length (cm_tasks m)" "cm_tasks m ! t = Locking pin access auth s"
  shows "within E 7 m t"
proof -
  have s: "s < length (cm_slot m)" using phase_slot_bound [OF assms(1,2)] assms(3) by simp
  have "within E (Suc (Suc 5)) m t"
  proof (rule owner_returns [OF assms(1) s assms(2)])
    fix m'
    assume ok: "manager_ok [] m'" and len: "length (cm_tasks m') = length (cm_tasks m)"
      and same: "cm_tasks m' ! t = cm_tasks m ! t" and free: "sl_owner (cm_slot m' ! s) = None"
    have t: "t < length (cm_tasks m')" and p: "cm_tasks m' ! t = Locking pin access auth s"
      using assms len same by simp_all
    have s: "s < length (cm_slot m')" using phase_slot_bound [OF ok t] p by simp
    show "within E 5 m' t"
    proof (cases "sl_entry (cm_slot m' ! s)")
      case None
      then show ?thesis using within_mono [OF empty_slot_ends [OF t p free]] by simp
    next
      case (Some g)
      show ?thesis
      proof (cases "cache_entry_expired m' g")
        case True
        let ?m = "set_task t (Retiring pin access auth s g) (put_slot s ((cm_slot m' ! s)\<lparr>sl_entry := None\<rparr>) m')"
        have "manager_step E (Lock t) m' = Some ?m"
          using t p free Some True by (simp add: manager_step_def lock_slot_def)
        moreover have "within E 4 ?m t" by (rule retiring_free_ends [of t _ pin access auth s g]) (use t s free in simp_all)
        ultimately show ?thesis using within_step [of E "Lock t" m' ?m 4 t] by (simp add: eval_nat_numeral)
      next
        case False
        let ?m = "set_task t (Handoff pin access auth s g) m'"
        have "manager_step E (Lock t) m' = Some ?m"
          using t p free Some False by (simp add: manager_step_def lock_slot_def)
        moreover have "within E 1 ?m t"
          by (rule fresh_handoff_ends) (use t False in \<open>auto simp: cache_entry_expired_def retirement_due_def split: option.splits\<close>)
        ultimately have "within E 2 m' t" using within_step [of E "Lock t" m' ?m 1 t] by (simp add: eval_nat_numeral)
        then show ?thesis by (rule within_mono) simp
      qed
    qed
  qed (use assms(3) in simp)
  then show ?thesis by (simp add: eval_nat_numeral)
qed

lemma retiring_ends:
  assumes "manager_ok [] m" "t < length (cm_tasks m)" "cm_tasks m ! t = Retiring pin access auth s g"
  shows "within E 8 m t"
proof -
  let ?m = "settle [g] (set_task t (Locking pin access auth s) m)"
  have step: "manager_step E (Retire t) m = Some ?m" using assms by (simp add: manager_step_def retire_entries_def)
  have "within E 7 ?m t" by (rule locking_ends [OF manager_step_ok [OF assms(1) step]]) (use assms in simp_all)
  then show ?thesis using within_step [OF step] by (simp add: eval_nat_numeral)
qed

lemma discard_ends:
  assumes "manager_ok [] m" "t < length (cm_tasks m)" "cm_tasks m ! t = Discard pin access auth s g"
  shows "within E 11 m t"
proof -
  have s: "s < length (cm_slot m)" using phase_slot_bound [OF assms(1,2)] assms(3) by simp
  have "within E (Suc (Suc 9)) m t"
  proof (rule owner_returns [OF assms(1) s assms(2)])
    fix m'
    assume ok: "manager_ok [] m'" and len: "length (cm_tasks m') = length (cm_tasks m)"
      and same: "cm_tasks m' ! t = cm_tasks m ! t" and free: "sl_owner (cm_slot m' ! s) = None"
    have t: "t < length (cm_tasks m')" and p: "cm_tasks m' ! t = Discard pin access auth s g"
      using assms len same by simp_all
    have "discard_expired t m' \<noteq> None" using t p free by (simp add: discard_expired_def)
    then obtain m2 where run: "discard_expired t m' = Some m2" by blast
    then have step: "manager_step E (Discard_expired t) m' = Some m2" using t by (simp add: manager_step_def)
    have q: "cm_tasks m2 ! t \<in> {Retiring pin access auth s g, Locking pin access auth s}"
      and t2: "t < length (cm_tasks m2)"
      using run t p free by (auto simp: discard_expired_def split: if_splits)
    have ok2: "manager_ok [] m2" by (rule manager_step_ok [OF ok step])
    have "within E 8 m2 t"
      using q retiring_ends [OF ok2 t2] within_mono [OF locking_ends [OF ok2 t2]] by auto
    then show "within E 9 m' t" using within_step [OF step] by (simp add: eval_nat_numeral)
  qed (use assms(3) in simp)
  then show ?thesis by (simp add: eval_nat_numeral)
qed

lemma handoff_ends:
  assumes "manager_ok [] m" "t < length (cm_tasks m)" "cm_tasks m ! t = Handoff pin access auth s g"
  shows "within E 12 m t"
proof (cases "cache_entry_expired m g")
  case False
  then show ?thesis using within_mono [OF fresh_handoff_ends [OF assms(2,3)]] by simp
next
  case True
  let ?a = "Inr (pin_connection_revision pin)"
  have "handoff_entry t ?a m \<noteq> None" using assms by (simp add: handoff_entry_def split: sum.split)
  then obtain m' where run: "handoff_entry t ?a m = Some m'" by blast
  have m': "handoff_entry t ?a m = Some m'"
    "settled (cm_tasks m' ! t) \<or> cm_tasks m' ! t = Discard pin access auth s g" "t < length (cm_tasks m')"
    using run assms by (auto simp: handoff_entry_def end_task_tasks split: sum.splits if_splits)
  then have step: "manager_step E (Reauthorise t ?a) m = Some m'" using assms(2) by (simp add: manager_step_def)
  have "within E 11 m' t"
    using m'(2) within_now discard_ends [OF manager_step_ok [OF assms(1) step] m'(3)] by blast
  then show ?thesis using within_step [OF step] by (simp add: eval_nat_numeral)
qed

text \<open>
  C14. Acquisitions never deadlock. From every reachable state, a task that is acquiring a connection
  can be brought to its lease or its refusal by at most twelve further steps of this task and of
  the one that is opening the pool, without cancelling anyone and without waiting for time.
\<close>

theorem acquisition_ends:
  assumes "manager_reachable E m" "t < length (cm_tasks m)" "phase_pin (cm_tasks m ! t) \<noteq> None"
  shows "\<exists>ls m'. length ls \<le> 12 \<and> list_all plain ls \<and> manager_run E ls m = Some m' \<and>
    settled (cm_tasks m' ! t)"
proof -
  have ok: "manager_ok [] m" by (rule manager_reachable_ok [OF assms(1)])
  note mono = within_mono [where k = 12]
  have "within E 12 m t"
  proof (cases "cm_tasks m ! t")
    case (Context pin access auth)
    have "enter_slot t m \<noteq> None" using Context by (simp add: enter_slot_def Let_def split: option.split)
    then obtain m' where run: "enter_slot t m = Some m'" by blast
    then have "\<exists>s. cm_tasks m' ! t = Locking pin access auth s" "t < length (cm_tasks m')"
      using Context assms(2) by (auto simp: enter_slot_def Let_def split: option.splits)
    then obtain s where m': "enter_slot t m = Some m'" "cm_tasks m' ! t = Locking pin access auth s"
      "t < length (cm_tasks m')"
      using run by blast
    then have step: "manager_step E (Enter t) m = Some m'" using assms(2) by (simp add: manager_step_def)
    have "within E 7 m' t" by (rule locking_ends [OF manager_step_ok [OF ok step] m'(3,2)])
    then have "within E (Suc 7) m t" by (rule within_step [OF step, rotated]) simp
    then show ?thesis by (rule mono) simp
  next
    case Locking
    then show ?thesis using mono [OF locking_ends [OF ok assms(2)]] by simp
  next
    case Handoff
    then show ?thesis using handoff_ends [OF ok assms(2)] by simp
  next
    case Discard
    then show ?thesis using mono [OF discard_ends [OF ok assms(2)]] by simp
  next
    case Retiring
    then show ?thesis using mono [OF retiring_ends [OF ok assms(2)]] by simp
  next
    case Opening
    then show ?thesis using mono [OF opening_ends [OF assms(2)]] by simp
  next
    case (Opened pin access auth s at managed)
    obtain m' where m': "manager_step E (Publish t (Inr (pin_connection_revision pin))) m = Some m'"
      "settled (cm_tasks m' ! t)"
      using opened_returns [OF assms(2) Opened, of E] by blast
    have "within E (Suc 0) m t" by (rule within_step [OF m'(1) _ within_now [OF m'(2)]]) simp
    then show ?thesis by (rule mono) simp
  next
    case Leased
    then show ?thesis by (simp add: within_now)
  qed (use assms(3) in simp_all)
  then show ?thesis by (simp add: within_def)
qed

lemma acquisition_ends_witness:
  "\<exists>ls m'. manager_run ref_env ls demo_opening = Some m' \<and> settled (cm_tasks m' ! 1)"
  using acquisition_ends [OF demo_manager_reachable(1), of 1] by (auto simp: demo_opening_def)

end
