(* ===== verification/Dashboard_Store.thy ===== *)
theory Dashboard_Store
  imports Store_Contracts
begin

text \<open>
  Saved dashboards: the validation of \<^verbatim>\<open>src/src-tauri/src/dashboard.rs\<close> and the rows of the table
  \<^verbatim>\<open>dashboards\<close> in \<^verbatim>\<open>src/src-tauri/src/store/mod.rs\<close>, which are written, listed and deleted only
  under a pin that the same transaction finds current. \<open>debug_text\<close> is the \<^verbatim>\<open>Debug\<close> text of a
  string, whose escapes follow the Unicode tables; it only occurs in one message.
\<close>

section \<open>Validation\<close>

text \<open>\<^verbatim>\<open>s.chars().count()\<close>: the bytes of a UTF-8 text that begin a character.\<close>

definition char_count :: "string \<Rightarrow> nat" where
  "char_count s = length (filter (\<lambda>c. of_char c < (128 :: nat) \<or> 192 \<le> (of_char c :: nat)) s)"

definition max_title_chars :: nat where "max_title_chars = 120"
definition max_description_chars :: nat where "max_description_chars = 2000"
definition max_sql_bytes :: nat where "max_sql_bytes = 100000"
definition max_column_name_chars :: nat where "max_column_name_chars = 256"
definition max_y_columns :: nat where "max_y_columns = 4"
definition visualization_version :: nat where "visualization_version = 1"

definition validate_column_name :: "string \<Rightarrow> string \<Rightarrow> unit app_result" where
  "validate_column_name column label =
     rbind (guard (blank column) (Config (''dashboard '' @ label @ '' cannot be blank''))) (\<lambda>_.
     guard (max_column_name_chars < char_count column)
       (Config (''dashboard '' @ label @ '' cannot exceed '' @ dec_nat max_column_name_chars @ '' characters'')))"

text \<open>The y columns in order; \<open>seen\<close> are the ones before.\<close>

fun validate_y_columns :: "(string \<Rightarrow> string) \<Rightarrow> string list \<Rightarrow> string list \<Rightarrow> unit app_result" where
  "validate_y_columns debug_text seen [] = Inr ()"
| "validate_y_columns debug_text seen (column # rest) =
     rbind (validate_column_name column (''y column '' @ dec_nat (length seen + 1))) (\<lambda>_.
     rbind (guard (column \<in> set seen)
       (Config (''dashboard y column '' @ debug_text column @ '' is duplicated''))) (\<lambda>_.
     validate_y_columns debug_text (seen @ [column]) rest))"

definition validate_visualization :: "(string \<Rightarrow> string) \<Rightarrow> dashboard_visualization \<Rightarrow> unit app_result" where
  "validate_visualization debug_text v =
     rbind (guard (dv_version v \<noteq> visualization_version)
       (Config (''unsupported dashboard visualization version '' @ dec_nat (dv_version v)))) (\<lambda>_.
     rbind (case dv_x_column v of Some x \<Rightarrow> validate_column_name x ''x column'' | None \<Rightarrow> Inr ()) (\<lambda>_.
     rbind (guard (max_y_columns < length (dv_y_columns v))
       (Config (''dashboard visualization cannot contain more than '' @ dec_nat max_y_columns @ '' y columns''))) (\<lambda>_.
     validate_y_columns debug_text [] (dv_y_columns v))))"

definition validate_draft ::
  "(string \<Rightarrow> string) \<Rightarrow> (dialect \<Rightarrow> string \<Rightarrow> string + statement list) \<Rightarrow> dashboard_draft \<Rightarrow> engine \<Rightarrow>
   unit app_result" where
  "validate_draft debug_text parse_sql draft eng =
     (let title = trim (dd_title draft)
      in rbind (guard (title = []) (Config ''dashboard title cannot be empty'')) (\<lambda>_.
         rbind (guard (max_title_chars < char_count title)
           (Config (''dashboard title cannot exceed '' @ dec_nat max_title_chars @ '' characters''))) (\<lambda>_.
         rbind (guard (max_description_chars < char_count (dd_description draft))
           (Config (''dashboard description cannot exceed '' @ dec_nat max_description_chars @ '' characters''))) (\<lambda>_.
         rbind (guard (blank (dd_sql draft)) (Config ''dashboard SQL cannot be empty'')) (\<lambda>_.
         rbind (guard (max_sql_bytes < length (dd_sql draft))
           (Config (''dashboard SQL cannot exceed '' @ dec_nat max_sql_bytes @ '' bytes''))) (\<lambda>_.
         rbind (validate_visualization debug_text (dd_visualization draft)) (\<lambda>_.
         rbind (classify parse_sql (dd_sql draft) eng) (\<lambda>c.
         guard (cl_kind c \<noteq> Read \<or> cl_statement_count c \<noteq> 1)
           (Blocked ''dashboards may only save one read-only SQL statement'')))))))))"

lemma validate_y_columns_Inr:
  "validate_y_columns debug_text seen cols = Inr () \<longleftrightarrow>
     list_all (\<lambda>c. \<not> blank c \<and> char_count c \<le> max_column_name_chars) cols \<and>
     distinct cols \<and> set cols \<inter> set seen = {}"
  by (induction debug_text seen cols rule: validate_y_columns.induct)
    (auto simp: validate_column_name_def rbind_eq_Inr not_less)

section \<open>Rows\<close>

text \<open>\<^verbatim>\<open>row_to_dashboard\<close>: a stored visualization is validated again.\<close>

definition row_to_dashboard :: "(string \<Rightarrow> string) \<Rightarrow> dashboard_row \<Rightarrow> dashboard app_result" where
  "row_to_dashboard debug_text d =
     rbind (validate_visualization debug_text (da_visualization (ds_dashboard d))) (\<lambda>_. Inr (ds_dashboard d))"

definition acquire_dashboard_writer :: "store_db \<Rightarrow> unit app_result" where
  "acquire_dashboard_writer db =
     guard (sx_generation db = None) (Config ''active workspace generation is missing'')"

definition dashboard_of_draft :: "dashboard_draft \<Rightarrow> uuid \<Rightarrow> string \<Rightarrow> dashboard" where
  "dashboard_of_draft draft did now =
     \<lparr>da_id = did, da_connection_id = dd_connection_id draft, da_title = dd_title draft,
      da_description = dd_description draft, da_sql = dd_sql draft,
      da_visualization = dd_visualization draft, da_created_at = now, da_updated_at = now\<rparr>"

definition save_dashboard_if_current ::
  "pinned_connection \<Rightarrow> dashboard_draft \<Rightarrow> uuid \<Rightarrow> string \<Rightarrow> store_db \<Rightarrow> (dashboard \<times> store_db) app_result" where
  "save_dashboard_if_current pin draft did now db =
     rbind (guard (dd_connection_id draft \<noteq> pin_connection_id pin)
       (Blocked ''dashboard connection does not match the authorized connection'')) (\<lambda>_.
     rbind (acquire_dashboard_writer db) (\<lambda>_.
     rbind (guard (\<not> is_pin_current_with_access db pin True) dashboard_scope_changed) (\<lambda>_.
     rbind (guard (list_ex (\<lambda>d. da_id (ds_dashboard d) = did) (sx_dashboards db))
       (Db ''error returned from database: (code: 1555) UNIQUE constraint failed: dashboards.id'')) (\<lambda>_.
     Inr (dashboard_of_draft draft did now,
          enqueue_outbox (pin_workspace_id pin) ''dashboard'' did ''upsert'' 1
            (db\<lparr>sx_dashboards := sx_dashboards db @
               [\<lparr>ds_dashboard = dashboard_of_draft draft did now, ds_workspace_id = pin_workspace_id pin,
                 ds_revision = 1, ds_sync_status = ''dirty'', ds_deleted_at = None\<rparr>]\<rparr>))))))"

definition live_dashboard :: "store_db \<Rightarrow> uuid \<Rightarrow> dashboard_row \<Rightarrow> bool" where
  "live_dashboard db wid d \<longleftrightarrow> ds_workspace_id d = wid \<and> ds_deleted_at d = None \<and>
     live_connection_row db wid (da_connection_id (ds_dashboard d)) \<noteq> None"

definition list_dashboards_if_current ::
  "(string \<Rightarrow> string) \<Rightarrow> pinned_connection \<Rightarrow> store_db \<Rightarrow> dashboard list app_result" where
  "list_dashboards_if_current debug_text pin db =
     rbind (guard (\<not> is_pin_current_with_access db pin True) dashboard_scope_changed) (\<lambda>_.
     collect_results (row_to_dashboard debug_text)
       (rev (sort_key (\<lambda>d. da_updated_at (ds_dashboard d))
          (filter (\<lambda>d. da_connection_id (ds_dashboard d) = pin_connection_id pin \<and>
             live_dashboard db (pin_workspace_id pin) d) (sx_dashboards db)))))"

definition err_no_dashboard :: "env \<Rightarrow> uuid \<Rightarrow> app_error" where
  "err_no_dashboard E did = NotFound (''dashboard '' @ uuid_to_string E did)"

definition get_dashboard :: "(string \<Rightarrow> string) \<Rightarrow> env \<Rightarrow> uuid \<Rightarrow> store_db \<Rightarrow> dashboard app_result" where
  "get_dashboard debug_text E did db =
     rbind (active_workspace_id db) (\<lambda>wid.
     rbind (ok_or (find (\<lambda>d. da_id (ds_dashboard d) = did \<and> live_dashboard db wid d) (sx_dashboards db))
       (err_no_dashboard E did)) (row_to_dashboard debug_text))"

record pinned_dashboard =
  pd_dashboard_id :: uuid
  pd_connection_id :: uuid
  pd_revision :: int
  pd_connection :: pinned_connection

text \<open>
  The pin reads in three transactions, so another process may write between them: \<open>db\<close>, \<open>db1\<close> and
  \<open>db2\<close> are the tables each of them finds.
\<close>

definition pin_dashboard_for_view ::
  "env \<Rightarrow> uuid \<Rightarrow> store_db \<Rightarrow> store_db \<Rightarrow> store_db \<Rightarrow> pinned_dashboard app_result" where
  "pin_dashboard_for_view E did db db1 db2 =
     (case (selected_workspace db, sx_generation db) of
        (Some w, Some raw) \<Rightarrow>
          rbind (ok_or (find (\<lambda>d. da_id (ds_dashboard d) = did \<and> ds_workspace_id d = ws_id w \<and>
              ds_deleted_at d = None \<and> active_connection db (da_connection_id (ds_dashboard d)) \<noteq> None)
              (sx_dashboards db)) (err_no_dashboard E did)) (\<lambda>d.
          rbind (row_to_active_resource_scope w (sx_account db) raw) (\<lambda>scope.
          rbind (case pin_connection_for_view E db1 (da_connection_id (ds_dashboard d)) of
              Inl (NotFound _) \<Rightarrow> Inl (err_no_dashboard E did)
            | r \<Rightarrow> r) (\<lambda>pin.
          rbind (guard (pin_scope pin \<noteq> scope) dashboard_scope_changed) (\<lambda>_.
          rbind (guard (\<not> is_pin_current_with_access db2 pin True) dashboard_scope_changed) (\<lambda>_.
          rbind (guard (\<not> list_ex (\<lambda>x. da_id (ds_dashboard x) = did \<and> ds_workspace_id x = pin_workspace_id pin \<and>
              da_connection_id (ds_dashboard x) = pin_connection_id pin \<and> ds_revision x = ds_revision d \<and>
              ds_deleted_at x = None) (sx_dashboards db2)) dashboard_scope_changed) (\<lambda>_.
          Inr \<lparr>pd_dashboard_id = did, pd_connection_id = da_connection_id (ds_dashboard d),
               pd_revision = ds_revision d, pd_connection = pin\<rparr>))))))
      | _ \<Rightarrow> Inl (err_no_dashboard E did))"

definition tombstone :: "string \<Rightarrow> dashboard_row \<Rightarrow> dashboard_row" where
  "tombstone now d = d\<lparr>ds_deleted_at := Some now, ds_dashboard := (ds_dashboard d)\<lparr>da_updated_at := now\<rparr>,
     ds_revision := ds_revision d + 1, ds_sync_status := ''dirty''\<rparr>"

definition pinned_row :: "pinned_connection \<Rightarrow> uuid \<Rightarrow> int \<Rightarrow> dashboard_row \<Rightarrow> bool" where
  "pinned_row pin did revision d \<longleftrightarrow> da_id (ds_dashboard d) = did \<and> ds_workspace_id d = pin_workspace_id pin \<and>
     da_connection_id (ds_dashboard d) = pin_connection_id pin \<and> ds_revision d = revision \<and> ds_deleted_at d = None"

definition delete_dashboard_if_current :: "pinned_dashboard \<Rightarrow> string \<Rightarrow> store_db \<Rightarrow> store_db app_result" where
  "delete_dashboard_if_current pd now db =
     (let pin = pd_connection pd
      in rbind (guard (pd_connection_id pd \<noteq> pin_connection_id pin) dashboard_scope_changed) (\<lambda>_.
         rbind (acquire_dashboard_writer db) (\<lambda>_.
         rbind (guard (\<not> is_pin_current_with_access db pin True) dashboard_scope_changed) (\<lambda>_.
         rbind (ok_or (find (pinned_row pin (pd_dashboard_id pd) (pd_revision pd)) (sx_dashboards db))
           dashboard_scope_changed) (\<lambda>d.
         Inr (enqueue_outbox (pin_workspace_id pin) ''dashboard'' (pd_dashboard_id pd) ''delete'' (ds_revision d + 1)
           (db\<lparr>sx_dashboards := map (\<lambda>x. if pinned_row pin (pd_dashboard_id pd) (pd_revision pd) x
               then tombstone now x else x) (sx_dashboards db)\<rparr>)))))))"


section \<open>What is accepted\<close>

definition column_name_ok :: "string \<Rightarrow> bool" where
  "column_name_ok c \<longleftrightarrow> \<not> blank c \<and> char_count c \<le> max_column_name_chars"

lemma validate_visualization_Inr:
  "validate_visualization debug_text v = Inr () \<longleftrightarrow>
     dv_version v = 1 \<and> pred_option column_name_ok (dv_x_column v) \<and>
     length (dv_y_columns v) \<le> 4 \<and> distinct (dv_y_columns v) \<and> list_all column_name_ok (dv_y_columns v)"
  by (auto simp: validate_visualization_def rbind_eq_Inr validate_y_columns_Inr validate_column_name_def
      column_name_ok_def visualization_version_def max_y_columns_def list_all_iff not_less split: option.splits)

text \<open>
  A draft is accepted exactly when its trimmed title has 1 to 120 characters, its description at
  most 2000, its SQL is not blank and has at most 100000 bytes, its visualization has version 1,
  at most four distinct y columns and names of 1 to 256 characters, and the text is one statement
  that the classifier calls a read for the engine of the connection.
\<close>

theorem accepted_drafts:
  "validate_draft debug_text parse_sql draft eng = Inr () \<longleftrightarrow>
     trim (dd_title draft) \<noteq> [] \<and> char_count (trim (dd_title draft)) \<le> 120 \<and>
     char_count (dd_description draft) \<le> 2000 \<and>
     \<not> blank (dd_sql draft) \<and> length (dd_sql draft) \<le> 100000 \<and>
     dv_version (dd_visualization draft) = 1 \<and> pred_option column_name_ok (dv_x_column (dd_visualization draft)) \<and>
     length (dv_y_columns (dd_visualization draft)) \<le> 4 \<and> distinct (dv_y_columns (dd_visualization draft)) \<and>
     list_all column_name_ok (dv_y_columns (dd_visualization draft)) \<and>
     (\<exists>c. classify parse_sql (dd_sql draft) eng = Inr c \<and> cl_kind c = Read \<and> cl_statement_count c = 1)"
  unfolding validate_draft_def Let_def
  by (simp add: rbind_eq_Inr validate_visualization_Inr max_title_chars_def max_description_chars_def
      max_sql_bytes_def not_less)

section \<open>Saving and deleting\<close>

text \<open>
  Dashboards are saved under a current pin only. After any history of the store a save that
  succeeds found the pin current, stores exactly the draft in the workspace of the active scope,
  where it reads back as long as its visualization is valid, and queues one event; in every other
  case nothing changes.
\<close>

theorem dashboard_save_is_fenced:
  assumes "scope_ok db" "conn_ok db" "list_all store_call_ok calls"
    and "save_dashboard_if_current pin draft did now (store_run E calls db) = Inr (d, db')"
  shows "is_pin_current_with_access (store_run E calls db) pin True \<and> d = dashboard_of_draft draft did now \<and>
    dd_connection_id draft = pin_connection_id pin \<and>
    (\<exists>s. store_active_scope db' = Inr s \<and> sc_workspace_id s = pin_workspace_id pin \<and>
       sc_selected_account_id s = sc_selected_account_id (pin_scope pin) \<and>
       sc_generation s = sc_generation (pin_scope pin)) \<and>
    get_dashboard debug_text E did db' =
      rbind (validate_visualization debug_text (dd_visualization draft)) (\<lambda>_. Inr d) \<and>
    (\<exists>row. sx_dashboards db' = sx_dashboards (store_run E calls db) @ [row] \<and> ds_dashboard row = d) \<and>
    sx_outbox db' = sx_outbox (store_run E calls db) @
      [\<lparr>ob_workspace_id = pin_workspace_id pin, ob_resource_type = ''dashboard'', ob_resource_id = did,
        ob_operation = ''upsert'', ob_revision = 1\<rparr>]"
proof -
  let ?db = "store_run E calls db"
  let ?row = "\<lparr>ds_dashboard = dashboard_of_draft draft did now, ds_workspace_id = pin_workspace_id pin,
      ds_revision = 1, ds_sync_status = ''dirty'', ds_deleted_at = None\<rparr>"
  have saved: "dd_connection_id draft = pin_connection_id pin" "is_pin_current_with_access ?db pin True"
    "\<forall>d \<in> set (sx_dashboards ?db). da_id (ds_dashboard d) \<noteq> did" "d = dashboard_of_draft draft did now"
    "db' = enqueue_outbox (pin_workspace_id pin) ''dashboard'' did ''upsert'' 1
       (?db\<lparr>sx_dashboards := sx_dashboards ?db @ [?row]\<rparr>)"
    using assms(4) by (auto simp: save_dashboard_if_current_def rbind_eq_Inr list_ex_iff)
  have frame: "scope_part db' = scope_part ?db" "conn_part db' = conn_part ?db"
    by (simp_all add: saved(5) scope_part_def conn_part_def enqueue_outbox_def)
  have ok': "scope_ok db'" "conn_ok db'"
    using store_run_scope_ok [OF assms(1,3)] store_run_conn_ok [OF assms(2,3)] scope_ok_cong [OF frame(1)]
      conn_ok_part [OF _ frame(2)] by simp_all
  have "is_pin_current_with_access db' pin True" using saved(2) pin_current_cong [OF frame] by simp
  then obtain w raw c s where act: "active_connection db' (pin_connection_id pin) = Some (w, raw, c)"
    "store_active_scope db' = Inr s" "active_workspace db' = Inr w" "ws_id w = sc_workspace_id s"
    "sc_workspace_id s = sc_workspace_id (pin_scope pin)"
    "sc_selected_account_id s = sc_selected_account_id (pin_scope pin)"
    "sc_generation s = sc_generation (pin_scope pin)"
    by (rule active_connection_scope [OF ok'])
  obtain g where spec: "conn_row db' (pin_connection_id pin) = Some c" "live_in_workspace (ws_id w) c"
    by (rule active_connection_spec [OF ok' act(1)])
  have wid: "ws_id w = pin_workspace_id pin" using act by (simp add: pin_workspace_id_def)
  have live: "live_dashboard db' (pin_workspace_id pin) ?row"
    using live_connection_row_iff [OF ok'(2)] spec wid saved(1)
    by (auto simp: live_dashboard_def dashboard_of_draft_def)
  have rows: "sx_dashboards db' = sx_dashboards ?db @ [?row]" by (simp add: saved(5) enqueue_outbox_def)
  have old: "find (\<lambda>d. da_id (ds_dashboard d) = did \<and> live_dashboard db' (pin_workspace_id pin) d) (sx_dashboards ?db) = None"
    using saved(3) by (auto simp: find_None_iff)
  have "find (\<lambda>d. da_id (ds_dashboard d) = did \<and> live_dashboard db' (pin_workspace_id pin) d) (sx_dashboards db') = Some ?row"
    using old live by (simp add: rows find_snoc dashboard_of_draft_def)
  then have "get_dashboard debug_text E did db' =
      rbind (validate_visualization debug_text (dd_visualization draft)) (\<lambda>_. Inr d)"
    using act(2,5) wid saved(4)
    by (simp add: get_dashboard_def active_workspace_id_def pin_workspace_id_def row_to_dashboard_def dashboard_of_draft_def)
  then show ?thesis
    using saved act rows by (auto simp: pin_workspace_id_def enqueue_outbox_def)
qed


definition demo_draft :: dashboard_draft where
  "demo_draft = \<lparr>dd_connection_id = 3, dd_title = ''Visits'', dd_description = [], dd_sql = ''SELECT 1'',
     dd_visualization = \<lparr>dv_version = 1, dv_kind = Table_kind, dv_x_column = None, dv_y_columns = []\<rparr>\<rparr>"

lemma demo_pin_view: "is_pin_current_with_access demo_store demo_local_pin True"
  using demo_pin_current by (auto simp: is_pin_current_def is_pin_current_with_access_def Let_def split: option.splits)

lemma demo_dashboard_saved:
  "\<exists>db'. save_dashboard_if_current demo_local_pin demo_draft 8 ''t9'' demo_store =
     Inr (dashboard_of_draft demo_draft 8 ''t9'', db')"
proof -
  have "sx_dashboards demo_store = []" "sx_generation demo_store \<noteq> None" by (simp_all add: store_eval)
  moreover have "dd_connection_id demo_draft = pin_connection_id demo_local_pin"
    by (simp add: demo_draft_def demo_local_pin_def)
  ultimately show ?thesis
    using demo_pin_view by (simp add: save_dashboard_if_current_def acquire_dashboard_writer_def guard_def)
qed

lemma dashboard_save_is_fenced_witness:
  "\<exists>db'. save_dashboard_if_current demo_local_pin demo_draft 8 ''t9'' demo_store =
       Inr (dashboard_of_draft demo_draft 8 ''t9'', db') \<and>
     get_dashboard (\<lambda>s. s) ref_env 8 db' = Inr (dashboard_of_draft demo_draft 8 ''t9'')"
proof -
  obtain db' where saved: "save_dashboard_if_current demo_local_pin demo_draft 8 ''t9'' demo_store =
      Inr (dashboard_of_draft demo_draft 8 ''t9'', db')"
    using demo_dashboard_saved by blast
  have "get_dashboard (\<lambda>s. s) ref_env 8 db' =
      rbind (validate_visualization (\<lambda>s. s) (dd_visualization demo_draft)) (\<lambda>_. Inr (dashboard_of_draft demo_draft 8 ''t9''))"
    using dashboard_save_is_fenced [OF fresh_store_ok demo_calls_ok saved [unfolded demo_store_def]] by blast
  moreover have "validate_visualization (\<lambda>s. s) (dd_visualization demo_draft) = Inr ()"
    by (simp add: validate_visualization_Inr demo_draft_def)
  ultimately show ?thesis using saved by simp
qed

text \<open>
  A delete removes exactly what was pinned. It succeeds only if the pin of the connection is
  current and the dashboard is still at the pinned revision; then it tombstones that row alone,
  queues one event with the next revision, the dashboard no longer reads and the same pin cannot
  delete again.
\<close>

theorem dashboard_delete_is_exact:
  assumes "distinct (map (\<lambda>d. da_id (ds_dashboard d)) (sx_dashboards db))"
    and "delete_dashboard_if_current pd now db = Inr db'"
  shows "is_pin_current_with_access db (pd_connection pd) True \<and>
    (\<exists>before row after. sx_dashboards db = before @ row # after \<and>
       sx_dashboards db' = before @ tombstone now row # after \<and>
       pinned_row (pd_connection pd) (pd_dashboard_id pd) (pd_revision pd) row) \<and>
    sx_outbox db' = sx_outbox db @
      [\<lparr>ob_workspace_id = pin_workspace_id (pd_connection pd), ob_resource_type = ''dashboard'',
        ob_resource_id = pd_dashboard_id pd, ob_operation = ''delete'', ob_revision = pd_revision pd + 1\<rparr>] \<and>
    (\<forall>w. get_dashboard debug_text E (pd_dashboard_id pd) db' \<noteq> Inr w) \<and>
    delete_dashboard_if_current pd later db' = Inl dashboard_scope_changed"
proof -
  let ?P = "pinned_row (pd_connection pd) (pd_dashboard_id pd) (pd_revision pd)"
  let ?rows = "map (\<lambda>x. if ?P x then tombstone now x else x) (sx_dashboards db)"
  obtain row where row: "find ?P (sx_dashboards db) = Some row" "sx_generation db \<noteq> None"
    "pd_connection_id pd = pin_connection_id (pd_connection pd)"
    "is_pin_current_with_access db (pd_connection pd) True"
    "db' = enqueue_outbox (pin_workspace_id (pd_connection pd)) ''dashboard'' (pd_dashboard_id pd) ''delete''
       (ds_revision row + 1) (db\<lparr>sx_dashboards := ?rows\<rparr>)"
    using assms(2) by (auto simp: delete_dashboard_if_current_def acquire_dashboard_writer_def Let_def rbind_eq_Inr)
  have P: "?P row" "row \<in> set (sx_dashboards db)" using find_Some_set [OF row(1)] by simp_all
  obtain before after where split: "sx_dashboards db = before @ row # after" using split_list [OF P(2)] by blast
  have ids: "da_id (ds_dashboard x) \<noteq> pd_dashboard_id pd" if "x \<in> set before \<union> set after" for x
    using assms(1) P(1) that by (auto simp: split pinned_row_def image_iff)
  then have other: "\<not> ?P x" if "x \<in> set before \<union> set after" for x
    using that by (auto simp: pinned_row_def)
  have rows: "?rows = before @ tombstone now row # after"
    using other P(1) by (auto simp: split intro!: map_idI)
  have dead: "ds_deleted_at x \<noteq> None" if "x \<in> set (sx_dashboards db')" "da_id (ds_dashboard x) = pd_dashboard_id pd" for x
  proof -
    have "x \<notin> set before \<union> set after" using that(2) ids by blast
    then have "x = tombstone now row" using that(1) rows by (auto simp: row(5) enqueue_outbox_def)
    then show ?thesis by (simp add: tombstone_def)
  qed
  have "get_dashboard debug_text E (pd_dashboard_id pd) db' \<noteq> Inr w" for w
    using dead by (fastforce simp: get_dashboard_def rbind_eq_Inr live_dashboard_def dest!: find_Some_set)
  moreover have "find ?P (sx_dashboards db') = None"
    using dead by (fastforce simp: find_None_iff pinned_row_def)
  moreover have "is_pin_current_with_access db' (pd_connection pd) True"
    using row(4) pin_current_cong [of db' db] by (simp add: row(5) enqueue_outbox_def scope_part_def conn_part_def)
  ultimately show ?thesis
    using row rows P(1) split
    by (auto simp: delete_dashboard_if_current_def acquire_dashboard_writer_def Let_def enqueue_outbox_def pinned_row_def)
qed

lemma dashboard_delete_is_exact_witness:
  "\<exists>db1 db2. delete_dashboard_if_current \<lparr>pd_dashboard_id = 8, pd_connection_id = 3, pd_revision = 1,
       pd_connection = demo_local_pin\<rparr> ''t10'' db1 = Inr db2 \<and>
     get_dashboard (\<lambda>s. s) ref_env 8 db2 \<noteq> Inr (dashboard_of_draft demo_draft 8 ''t9'')"
proof -
  let ?row = "\<lparr>ds_dashboard = dashboard_of_draft demo_draft 8 ''t9'', ds_workspace_id = pin_workspace_id demo_local_pin,
      ds_revision = 1, ds_sync_status = ''dirty'', ds_deleted_at = None\<rparr>"
  let ?db = "demo_store\<lparr>sx_dashboards := [?row]\<rparr>"
  let ?pd = "\<lparr>pd_dashboard_id = 8, pd_connection_id = 3, pd_revision = 1, pd_connection = demo_local_pin\<rparr>"
  have "is_pin_current_with_access ?db demo_local_pin True"
    using demo_pin_view pin_current_cong [of ?db demo_store] by (simp add: scope_part_def conn_part_def)
  moreover have "sx_generation demo_store \<noteq> None" by (simp add: store_eval)
  moreover have "pinned_row demo_local_pin 8 1 ?row"
    by (simp add: pinned_row_def dashboard_of_draft_def demo_draft_def demo_local_pin_def)
  ultimately obtain db2 where deleted: "delete_dashboard_if_current ?pd ''t10'' ?db = Inr db2"
    by (simp add: delete_dashboard_if_current_def acquire_dashboard_writer_def guard_def demo_local_pin_def Let_def)
  have "distinct (map (\<lambda>d. da_id (ds_dashboard d)) (sx_dashboards ?db))" by simp
  from dashboard_delete_is_exact [OF this deleted] show ?thesis using deleted by (metis pinned_dashboard.select_convs(1))
qed

end
