(* ===== verification/Dashboard_Service.thy ===== *)
theory Dashboard_Service
  imports Dashboard_Store Query_Run
begin

text \<open>
  \<^verbatim>\<open>src/src-tauri/src/services/dashboard_service.rs\<close>: saving, listing and deleting dashboards under
  one pin, running a saved one through the read-only session, and the creation of a dashboard by
  an agent from a query run of its own. The operation scope is held throughout, so this process
  changes no scope meanwhile; another process may, so each transaction of the agent path reads
  tables of its own.
\<close>

section \<open>Saving, listing and deleting\<close>

definition dashboard_save ::
  "'row query_env \<Rightarrow> (string \<Rightarrow> string) \<Rightarrow> dashboard_draft \<Rightarrow> uuid \<Rightarrow> string \<Rightarrow> store_db \<Rightarrow> store_db \<Rightarrow>
   (dashboard \<times> store_db) app_result" where
  "dashboard_save Q debug_text draft did now db db1 =
     rbind (pin_connection_for_view (qe_env Q) db (dd_connection_id draft)) (\<lambda>pin.
     rbind (validate_draft debug_text (qe_parse Q) draft (cp_engine (pin_profile pin))) (\<lambda>_.
     save_dashboard_if_current pin draft did now db1))"

definition dashboard_list ::
  "'row query_env \<Rightarrow> (string \<Rightarrow> string) \<Rightarrow> uuid \<Rightarrow> store_db \<Rightarrow> store_db \<Rightarrow> dashboard list app_result" where
  "dashboard_list Q debug_text cid db db1 =
     rbind (pin_connection_for_view (qe_env Q) db cid) (\<lambda>pin. list_dashboards_if_current debug_text pin db1)"

definition dashboard_delete ::
  "'row query_env \<Rightarrow> uuid \<Rightarrow> string \<Rightarrow> store_db \<Rightarrow> store_db \<Rightarrow> store_db \<Rightarrow> store_db \<Rightarrow> store_db app_result" where
  "dashboard_delete Q did now db db1 db2 db3 =
     rbind (pin_dashboard_for_view (qe_env Q) did db db1 db2) (\<lambda>pd. delete_dashboard_if_current pd now db3)"

section \<open>Running a dashboard\<close>

record dash_state =
  dx_store :: store_db
  dx_audit :: audit_log
  dx_log :: db_log

datatype dashboard_run_error =
    Dash_Application app_error
  | Dash_Scoped app_error
  | Dash_Execution app_error

fun dashboard_into_error :: "dashboard_run_error \<Rightarrow> app_error" where
  "dashboard_into_error (Dash_Application e) = e"
| "dashboard_into_error (Dash_Scoped e) = e"
| "dashboard_into_error (Dash_Execution e) = e"

record dashboard_run_record =
  dr_sql :: string
  dr_kind :: query_kind
  dr_status :: string
  dr_row_count :: "int option"
  dr_duration_ms :: "int option"
  dr_error :: "string option"

definition dashboard_history :: "pinned_connection \<Rightarrow> dashboard_run_record \<Rightarrow> uuid \<Rightarrow> datetime \<Rightarrow> history_entry" where
  "dashboard_history pin r hid at =
     \<lparr>hy_id = hid, hy_connection_id = pin_connection_id pin, hy_sql = dr_sql r, hy_kind = dr_kind r,
      hy_status = dr_status r, hy_row_count = dr_row_count r, hy_duration_ms = dr_duration_ms r,
      hy_error = dr_error r, hy_executed_at = at, hy_origin = ''dashboard''\<rparr>"

text \<open>Both records are best effort: a failure of one is only logged.\<close>

definition record_dashboard_run ::
  "'row query_env \<Rightarrow> pinned_connection \<Rightarrow> dashboard_run_record \<Rightarrow> run_inputs \<Rightarrow> dash_state \<Rightarrow> dash_state" where
  "record_dashboard_run Q pin r i st = st\<lparr>
     dx_audit := snd (audit_record (qe_env Q) (qe_audit_time Q)
       \<lparr>ra_connection_id = pin_connection_id pin, ra_engine = cp_engine (pin_profile pin),
        ra_agent_prompt = None, ra_sql = dr_sql r, ra_kind = dr_kind r, ra_action = ''dashboard:run'',
        ra_approved_by = None, ra_affected_estimate = dr_row_count r, ra_error = dr_error r\<rparr>
       (ri_ids i 10) (ri_clock i 10) (dx_audit st)),
     dx_store := committed (insert_history_if_current pin (dashboard_history pin r (ri_ids i 11) (ri_clock i 11))
       (dx_store st)) (\<lambda>db. db) (dx_store st)\<rparr>"

definition draft_of_dashboard :: "dashboard \<Rightarrow> dashboard_draft" where
  "draft_of_dashboard d =
     \<lparr>dd_connection_id = da_connection_id d, dd_title = da_title d, dd_description = da_description d,
      dd_sql = da_sql d, dd_visualization = da_visualization d\<rparr>"

definition failed_record :: "string \<Rightarrow> query_kind \<Rightarrow> string \<Rightarrow> app_error \<Rightarrow> dashboard_run_record" where
  "failed_record sql kind status e =
     \<lparr>dr_sql = sql, dr_kind = kind, dr_status = status, dr_row_count = None, dr_duration_ms = None,
      dr_error = Some (app_error_text e)\<rparr>"

definition ok_record :: "string \<Rightarrow> query_result \<Rightarrow> dashboard_run_record" where
  "ok_record sql res =
     \<lparr>dr_sql = sql, dr_kind = Read, dr_status = ''ok'', dr_row_count = Some (u64_as_i64 (qr_row_count res)),
      dr_duration_ms = Some (u64_as_i64 (qr_duration_ms res)), dr_error = None\<rparr>"

text \<open>
  The guard of the query identifier wraps the read session, whose own guard has no handle and the
  same duration and so adds nothing. \<open>None\<close> while the session has not ended.
\<close>

definition run_dashboard_sql ::
  "'row query_env \<Rightarrow> pinned_connection \<Rightarrow> dashboard \<Rightarrow> safety_settings \<Rightarrow> uuid option \<Rightarrow> run_inputs \<Rightarrow> dash_state \<Rightarrow>
   ((dashboard_run_error + query_result) \<times> dash_state) option" where
  "run_dashboard_sql Q pin d settings query_id i st =
     (case qe_connect Q pin Access_Read of
        Inl e \<Rightarrow> Some (Inl (Dash_Application e),
          record_dashboard_run Q pin (failed_record (da_sql d) Read ''error'' e) i st)
      | Inr _ \<Rightarrow>
          (case qe_sql Q pin of
             Inl e \<Rightarrow> Some (Inl (Dash_Execution e), st)
           | Inr live \<Rightarrow>
               (case guard_session dec_nat (query_id \<noteq> None) (ri_polls i)
                       (run_read_only_inner (qe_driver Q) (lc_read_pool live) (da_sql d)
                          (min (max (ss_max_rows settings) 1) 100000)) (dx_log st) of
                  None \<Rightarrow> None
                | Some (Inr res, h) \<Rightarrow>
                    Some (Inr res, record_dashboard_run Q pin (ok_record (da_sql d) res) i (st\<lparr>dx_log := h\<rparr>))
                | Some (Inl e, h) \<Rightarrow>
                    Some (Inl (Dash_Execution e),
                      record_dashboard_run Q pin (failed_record (da_sql d) Read ''error'' e) i (st\<lparr>dx_log := h\<rparr>)))))"

definition dashboard_run ::
  "'row query_env \<Rightarrow> (string \<Rightarrow> string) \<Rightarrow> uuid \<Rightarrow> uuid option \<Rightarrow> run_inputs \<Rightarrow> dash_state \<Rightarrow>
   ((dashboard_run_error + query_result) \<times> dash_state) option" where
  "dashboard_run Q debug_text did query_id i st =
     (case get_dashboard debug_text (qe_env Q) did (dx_store st) of
        Inl e \<Rightarrow> Some (Inl (Dash_Scoped e), st)
      | Inr d \<Rightarrow>
          (case pin_connection_for_read (qe_env Q) (dx_store st) (da_connection_id d) of
             Inl e \<Rightarrow> Some (Inl (Dash_Scoped e), st)
           | Inr pin \<Rightarrow>
               (let eng = cp_engine (pin_profile pin)
                in case validate_draft debug_text (qe_parse Q) (draft_of_dashboard d) eng of
                     Inl e \<Rightarrow>
                       (let kind = (case classify (qe_parse Q) (da_sql d) eng of Inr c \<Rightarrow> cl_kind c | Inl _ \<Rightarrow> Write)
                        in Some (Inl (Dash_Scoped e),
                             record_dashboard_run Q pin (failed_record (da_sql d) kind ''blocked'' e) i st))
                   | Inr _ \<Rightarrow>
                       (case get_safety (qe_env Q) (da_connection_id d) (dx_store st) of
                          Inl e \<Rightarrow> Some (Inl (Dash_Scoped e), st)
                        | Inr settings \<Rightarrow> run_dashboard_sql Q pin d settings query_id i st))))"

section \<open>Creation by an agent\<close>

record agent_presentation =
  ap_title :: string
  ap_description :: string
  ap_kind :: dashboard_kind
  ap_x_column :: "string option"
  ap_y_columns :: "string list"

record agent_event_context =
  ev_query_run_id :: uuid
  ev_connection_id :: uuid
  ev_connection_name :: string
  ev_title :: string
  ev_sql :: string

record prepared_agent_dashboard =
  pa_connection :: pinned_connection
  pa_draft :: dashboard_draft
  pa_event :: agent_event_context

datatype agent_prepare_error =
    QueryRunNotFound
  | QueryRunIneligible
  | Prepare_Application app_error

datatype agent_commit_error =
    InvalidDraft app_error
  | Persistence app_error

definition is_eligible_agent_run :: "history_entry \<Rightarrow> bool" where
  "is_eligible_agent_run h \<longleftrightarrow> hy_origin h = ''agent'' \<and> hy_status h = ''ok'' \<and> hy_kind h = Read"

definition prepare_error :: "app_error \<Rightarrow> agent_prepare_error" where
  "prepare_error e = (case e of NotFound _ \<Rightarrow> QueryRunNotFound | _ \<Rightarrow> Prepare_Application e)"

definition map_error :: "('e \<Rightarrow> 'f) \<Rightarrow> 'e + 'a \<Rightarrow> 'f + 'a" where
  "map_error f r = (case r of Inl e \<Rightarrow> Inl (f e) | Inr x \<Rightarrow> Inr x)"

definition prepare_agent_create ::
  "env \<Rightarrow> uuid \<Rightarrow> agent_presentation \<Rightarrow> store_db \<Rightarrow> store_db \<Rightarrow> store_db \<Rightarrow>
   agent_prepare_error + prepared_agent_dashboard" where
  "prepare_agent_create E query_run_id p db db1 db2 =
     rbind (map_error prepare_error (resolve_history_for_dashboard_prepare E query_run_id db)) (\<lambda>resolved.
     rbind (guard (\<not> is_eligible_agent_run (rh_history resolved)) QueryRunIneligible) (\<lambda>_.
     rbind (map_error Prepare_Application
         (pin_connection_for_view E db1 (hy_connection_id (rh_history resolved)))) (\<lambda>pin.
     rbind (map_error prepare_error (get_history_if_current E pin resolved db2)) (\<lambda>source.
     rbind (guard (\<not> is_eligible_agent_run source) QueryRunIneligible) (\<lambda>_.
     Inr \<lparr>pa_connection = pin,
          pa_draft = \<lparr>dd_connection_id = hy_connection_id source, dd_title = ap_title p,
            dd_description = ap_description p, dd_sql = hy_sql source,
            dd_visualization = \<lparr>dv_version = visualization_version, dv_kind = ap_kind p,
              dv_x_column = ap_x_column p, dv_y_columns = ap_y_columns p\<rparr>\<rparr>,
          pa_event = \<lparr>ev_query_run_id = query_run_id, ev_connection_id = pin_connection_id pin,
            ev_connection_name = cp_name (pin_profile pin), ev_title = ap_title p, ev_sql = hy_sql source\<rparr>\<rparr>)))))"

definition commit_agent_create ::
  "'row query_env \<Rightarrow> (string \<Rightarrow> string) \<Rightarrow> prepared_agent_dashboard \<Rightarrow> uuid \<Rightarrow> string \<Rightarrow> store_db \<Rightarrow>
   agent_commit_error + (dashboard \<times> store_db)" where
  "commit_agent_create Q debug_text prepared did now db =
     rbind (map_error InvalidDraft (validate_draft debug_text (qe_parse Q) (pa_draft prepared)
         (cp_engine (pin_profile (pa_connection prepared))))) (\<lambda>_.
     map_error Persistence (save_dashboard_if_current (pa_connection prepared) (pa_draft prepared) did now db))"


section \<open>What a run sends\<close>


text \<open>
  C20. A dashboard made by an agent comes from a query run of its own. Whatever other processes do
  between the transactions of its creation, a dashboard that is committed has exactly the SQL and
  the connection of a history entry of the pinned account that an agent ran successfully as a
  read, the text is still one read for that engine, and it is saved only while the pin is current.
\<close>

theorem agent_dashboard_provenance:
  assumes "prepare_agent_create (qe_env Q) query_run_id p db db1 db2 = Inr prepared"
    and "commit_agent_create Q debug_text prepared did now db3 = Inr (d, db')"
  shows "\<exists>h c. (storage_key (pin_account_scope (pa_connection prepared)), h) \<in> set (sx_history db2) \<and>
    hy_id h = query_run_id \<and> hy_origin h = ''agent'' \<and> hy_status h = ''ok'' \<and> hy_kind h = Read \<and>
    is_pin_current_with_access db2 (pa_connection prepared) True \<and>
    da_sql d = hy_sql h \<and> da_connection_id d = hy_connection_id h \<and> da_title d = ap_title p \<and>
    hy_connection_id h = pin_connection_id (pa_connection prepared) \<and>
    classify (qe_parse Q) (hy_sql h) (cp_engine (pin_profile (pa_connection prepared))) = Inr c \<and>
    cl_kind c = Read \<and> cl_statement_count c = 1 \<and>
    is_pin_current_with_access db3 (pa_connection prepared) True \<and>
    save_dashboard_if_current (pa_connection prepared) (pa_draft prepared) did now db3 = Inr (d, db')"
proof -
  have error: "map_error f x = Inr y \<longleftrightarrow> x = Inr y" for f :: "app_error \<Rightarrow> 'e" and x :: "app_error + 'a" and y
    by (cases x) (simp_all add: map_error_def)
  obtain resolved pin source where steps:
    "resolve_history_for_dashboard_prepare (qe_env Q) query_run_id db = Inr resolved"
    "get_history_if_current (qe_env Q) pin resolved db2 = Inr source" "is_eligible_agent_run source"
    "pa_connection prepared = pin" "dd_connection_id (pa_draft prepared) = hy_connection_id source"
    "dd_sql (pa_draft prepared) = hy_sql source" "dd_title (pa_draft prepared) = ap_title p"
    using assms(1) by (auto simp: prepare_agent_create_def rbind_eq_Inr map_error_def split: sum.splits)
  have "hy_id (rh_history resolved) = query_run_id"
    using steps(1) by (auto simp: resolve_history_for_dashboard_prepare_def rbind_eq_Inr Let_def
        split: option.splits dest!: find_Some_set)
  then have source: "(storage_key (pin_account_scope pin), source) \<in> set (sx_history db2)"
    "hy_id source = query_run_id" "hy_connection_id source = pin_connection_id pin"
    "is_pin_current_with_access db2 pin True"
    using steps(2) by (auto simp: get_history_if_current_def rbind_eq_Inr dest!: find_Some_set)
  have saved: "validate_draft debug_text (qe_parse Q) (pa_draft prepared) (cp_engine (pin_profile pin)) = Inr ()"
    "save_dashboard_if_current pin (pa_draft prepared) did now db3 = Inr (d, db')"
    using assms(2) steps(4) by (auto simp: commit_agent_create_def rbind_eq_Inr map_error_def split: sum.splits)
  then obtain c where c: "classify (qe_parse Q) (hy_sql source) (cp_engine (pin_profile pin)) = Inr c"
    "cl_kind c = Read" "cl_statement_count c = 1"
    using steps(6) by (auto simp: validate_draft_def Let_def rbind_eq_Inr)
  have "d = dashboard_of_draft (pa_draft prepared) did now" "is_pin_current_with_access db3 pin True"
    using saved(2) by (auto simp: save_dashboard_if_current_def rbind_eq_Inr)
  then show ?thesis
    using source steps saved(2) c
    by (intro exI [of _ source] exI [of _ c]) (simp add: is_eligible_agent_run_def dashboard_of_draft_def)
qed


section \<open>Concrete runs\<close>

definition read_parser :: "dialect \<Rightarrow> string \<Rightarrow> string + statement list" where
  "read_parser dialect sql = Inr [Stmt_Query (Query [] Set_Other 0)]"

definition demo_agent_run :: history_entry where
  "demo_agent_run = \<lparr>hy_id = 5, hy_connection_id = 3, hy_sql = ''SELECT 1'', hy_kind = Read, hy_status = ''ok'',
     hy_row_count = Some 1, hy_duration_ms = Some 1, hy_error = None, hy_executed_at = 5, hy_origin = ''agent''\<rparr>"

definition demo_dash_store :: store_db where
  "demo_dash_store = demo_store\<lparr>sx_history := [(''personal'', demo_agent_run)],
     sx_dashboards := [\<lparr>ds_dashboard = dashboard_of_draft demo_draft 8 ''t9'', ds_workspace_id = 1,
       ds_revision = 1, ds_sync_status = ''dirty'', ds_deleted_at = None\<rparr>]\<rparr>"

abbreviation demo_dash_env :: "nat query_env" where
  "demo_dash_env \<equiv> demo_query_env\<lparr>qe_parse := read_parser\<rparr>"

lemma demo_classified_read:
  "\<exists>c. classify read_parser ''SELECT 1'' (cp_engine demo_profile) = Inr c \<and> cl_kind c = Read \<and> cl_statement_count c = 1"
  by (simp add: demo_profile_def classify_def read_parser_def classify_single_def)

lemma demo_draft_valid: "validate_draft (\<lambda>s. s) read_parser demo_draft (cp_engine demo_profile) = Inr ()"
  unfolding accepted_drafts
  using demo_classified_read
  by (simp add: demo_draft_def trim_def trim_start_def trim_end_def blank_def white_space_def char_count_def)

text \<open>Reads of the scope and the connections depend on nothing else.\<close>

lemma scope_reads_cong:
  assumes "scope_part db' = scope_part db" "conn_part db' = conn_part db"
  shows "selected_workspace db' = selected_workspace db" "scope_visible db' = scope_visible db"
    "store_active_scope db' = store_active_scope db" "live_connection_row db' = live_connection_row db"
    "binding_for db' = binding_for db" "sx_account db' = sx_account db" "sx_generation db' = sx_generation db"
    "active_connection db' = active_connection db" "active_workspace db' = active_workspace db"
proof -
  have "active_workspace_row db' = active_workspace_row db" and visible: "scope_visible db' = scope_visible db"
    using assms(1) by (simp_all add: fun_eq_iff active_workspace_row_def scope_visible_def
        member_active_def scope_part_def split: option.split)
  moreover have fields: "sx_active db' = sx_active db" "sx_account db' = sx_account db"
    "sx_generation db' = sx_generation db" "sx_connections db' = sx_connections db" "sx_bindings db' = sx_bindings db"
    using assms by (simp_all add: scope_part_def conn_part_def)
  ultimately show *: "selected_workspace db' = selected_workspace db" "scope_visible db' = scope_visible db"
    "live_connection_row db' = live_connection_row db" "binding_for db' = binding_for db"
    "sx_account db' = sx_account db" "sx_generation db' = sx_generation db"
    unfolding selected_workspace_def live_connection_row_def binding_for_def by (simp_all only:)
  show "store_active_scope db' = store_active_scope db"
    unfolding store_active_scope_def * ..
  show "active_workspace db' = active_workspace db"
    unfolding active_workspace_def * ..
  show "active_connection db' = active_connection db"
    by (intro ext active_connection_cong assms)
qed

lemma demo_dash_same: "scope_part demo_dash_store = scope_part demo_store" "conn_part demo_dash_store = conn_part demo_store"
  by (simp_all add: demo_dash_store_def scope_part_def conn_part_def)

lemmas demo_dash_reads = scope_reads_cong [OF demo_dash_same]

lemma demo_dash_pin: "pin_connection_for_read ref_env demo_dash_store 3 = Inr demo_local_pin"
  "pin_connection_for_view ref_env demo_dash_store 3 = Inr demo_local_pin"
proof -
  show read: "pin_connection_for_read ref_env demo_dash_store 3 = Inr demo_local_pin"
    using demo_store_pin
    unfolding pin_connection_for_read_def pin_connection_with_access_def demo_dash_reads .
  show "pin_connection_for_view ref_env demo_dash_store 3 = Inr demo_local_pin"
    using read by (auto simp: pin_connection_for_read_def pin_connection_for_view_def pin_connection_with_access_def
        pin_row_def rbind_eq_Inr Let_def split: option.splits)
qed

lemma demo_scope_reads: "store_active_scope demo_store = Inr (pin_scope demo_local_pin)"
  using demo_scope by (simp add: demo_store_def)

lemma demo_dash_live: "live_connection_row demo_dash_store 1 3 \<noteq> None"
  unfolding demo_dash_reads
  by (simp add: live_connection_row_def live_in_workspace_def store_eval)

lemma demo_dash_read: "get_dashboard (\<lambda>s. s) ref_env 8 demo_dash_store = Inr (dashboard_of_draft demo_draft 8 ''t9'')"
proof -
  have "sc_workspace_id (pin_scope demo_local_pin) = 1" by (simp add: demo_local_pin_def)
  moreover have "da_connection_id (dashboard_of_draft demo_draft 8 ''t9'') = 3"
    "da_id (dashboard_of_draft demo_draft 8 ''t9'') = 8"
    "validate_visualization (\<lambda>s. s) (da_visualization (dashboard_of_draft demo_draft 8 ''t9'')) = Inr ()"
    by (simp_all add: dashboard_of_draft_def validate_visualization_Inr demo_draft_def)
  moreover have "\<exists>row. sx_dashboards demo_dash_store = [row] \<and> ds_dashboard row = dashboard_of_draft demo_draft 8 ''t9'' \<and>
      ds_workspace_id row = 1 \<and> ds_deleted_at row = None"
    by (simp add: demo_dash_store_def)
  ultimately show ?thesis
    using demo_dash_live
    by (auto simp: get_dashboard_def active_workspace_id_def demo_dash_reads demo_scope_reads live_dashboard_def
        row_to_dashboard_def)
qed

definition demo_dash_inputs :: run_inputs where
  "demo_dash_inputs = \<lparr>ri_cancelled = False, ri_rx = 0,
     ri_polls = [\<lparr>sp_cancelled = False, sp_ready = True, sp_sent = 0, sp_elapsed = 0\<rparr>],
     ri_clock = (\<lambda>_. 5), ri_ids = (\<lambda>n. of_nat n)\<rparr>"



lemma demo_dash_view: "is_pin_current_with_access demo_dash_store demo_local_pin True"
  using demo_pin_view pin_current_cong [OF demo_dash_same] by simp

definition demo_presentation :: agent_presentation where
  "demo_presentation = \<lparr>ap_title = ''Visits'', ap_description = [], ap_kind = Table_kind,
     ap_x_column = None, ap_y_columns = []\<rparr>"

lemma agent_dashboard_provenance_witness:
  "\<exists>prepared d db'. prepare_agent_create ref_env 5 demo_presentation demo_dash_store demo_dash_store demo_dash_store = Inr prepared \<and>
     commit_agent_create demo_dash_env (\<lambda>s. s) prepared 9 ''t11'' demo_dash_store = Inr (d, db') \<and>
     da_sql d = ''SELECT 1''"
proof -
  have pin: "pin_scope demo_local_pin = \<lparr>sc_workspace_id = 1, sc_workspace_kind = Personal_workspace,
      sc_selected_account_id = None, sc_account_scope = Personal_scope, sc_generation = 0\<rparr>"
    "pin_connection_id demo_local_pin = 3" "pin_profile demo_local_pin = demo_profile"
    by (simp_all add: demo_local_pin_def)
  obtain w where scope: "selected_workspace demo_dash_store = Some w" "ws_kind w = Personal_workspace"
    "sx_generation demo_dash_store = Some ''0''" "sx_account demo_dash_store = None"
    "active_connection demo_dash_store 3 \<noteq> None"
    "row_to_active_resource_scope w None ''0'' = Inr (pin_scope demo_local_pin)"
    unfolding demo_dash_reads
    by (simp add: store_eval active_connection_def live_connection_row_def live_in_workspace_def
        connection_visible_def row_to_active_resource_scope_def account_scope_from_parts_def
        stored_scope_def parse_scope_generation_def demo_local_pin_def
        is_digit_def digits_value_def in_i64_def i64_min_def i64_max_def Let_def)
  have history: "sx_history demo_dash_store = [(''personal'', demo_agent_run)]" by (simp add: demo_dash_store_def)
  have run: "hy_id demo_agent_run = 5" "hy_connection_id demo_agent_run = 3" "is_eligible_agent_run demo_agent_run"
    "hy_sql demo_agent_run = ''SELECT 1''"
    by (simp_all add: demo_agent_run_def is_eligible_agent_run_def)
  have resolved: "resolve_history_for_dashboard_prepare ref_env 5 demo_dash_store =
      Inr \<lparr>rh_history = demo_agent_run, rh_scope = pin_scope demo_local_pin\<rparr>"
    using scope by (simp add: resolve_history_for_dashboard_prepare_def history run stored_scope_def)
  have again: "get_history_if_current ref_env demo_local_pin
      \<lparr>rh_history = demo_agent_run, rh_scope = pin_scope demo_local_pin\<rparr> demo_dash_store = Inr demo_agent_run"
    using demo_dash_view demo_dash_live
    by (simp add: get_history_if_current_def history run pin pin_workspace_id_def pin_account_scope_def)
  obtain prepared where prepared:
    "prepare_agent_create ref_env 5 demo_presentation demo_dash_store demo_dash_store demo_dash_store = Inr prepared"
    "pa_connection prepared = demo_local_pin" "pa_draft prepared = demo_draft"
    using resolved again demo_dash_pin(2) run
    by (simp add: prepare_agent_create_def map_error_def demo_presentation_def demo_draft_def visualization_version_def)
  have env: "qe_env demo_dash_env = ref_env" by (simp add: demo_query_env_def)
  have "\<exists>d db'. save_dashboard_if_current demo_local_pin demo_draft 9 ''t11'' demo_dash_store = Inr (d, db')"
    using demo_dash_view scope(3)
    by (simp add: save_dashboard_if_current_def acquire_dashboard_writer_def pin)
      (simp add: demo_draft_def demo_dash_store_def dashboard_of_draft_def)
  then obtain d db' where committed: "commit_agent_create demo_dash_env (\<lambda>s. s) prepared 9 ''t11'' demo_dash_store = Inr (d, db')"
    using demo_draft_valid by (auto simp: commit_agent_create_def prepared(2,3) pin map_error_def)
  from agent_dashboard_provenance [where Q = demo_dash_env, unfolded env, OF prepared(1) committed]
  obtain h where "(storage_key (pin_account_scope (pa_connection prepared)), h) \<in> set (sx_history demo_dash_store)"
    "da_sql d = hy_sql h" by blast
  then have "da_sql d = ''SELECT 1''" using run(4) by (simp add: history)
  then show ?thesis using prepared(1) committed by blast
qed

end
