(* ===== verification/Agent_Query.thy ===== *)
theory Agent_Query
  imports Query_Run
begin

text \<open>
  The agent's queries of \<^verbatim>\<open>src/src-tauri/src/services/query_service.rs\<close>: one read is planned
  with its guidance and health, prepared by the identifier of its plan, and executed in the
  read-only session with a durable receipt. The state is that of the desktop run. The health
  snapshot of \<^verbatim>\<open>src/src-tauri/src/monitoring/mod.rs\<close> asks the database a few fixed questions:
  it is the step \<open>ae_snapshot\<close>, which appends what it sends to the log.
\<close>

section \<open>Origins and payloads\<close>

datatype query_origin = Origin_Mcp | Origin_Cli

fun origin_str :: "query_origin \<Rightarrow> string" where
  "origin_str Origin_Mcp = ''mcp''"
| "origin_str Origin_Cli = ''cli''"

fun plan_audit_action :: "query_origin \<Rightarrow> string" where
  "plan_audit_action Origin_Mcp = ''mcp:plan_query''"
| "plan_audit_action Origin_Cli = ''cli:plan_query''"

fun run_audit_action :: "query_origin \<Rightarrow> string" where
  "run_audit_action Origin_Mcp = ''mcp:run_query''"
| "run_audit_action Origin_Cli = ''cli:run_query''"

record agent_payload =
  gp_sql :: string
  gp_max_rows :: nat
  gp_decision :: string
  gp_origin :: query_origin

definition agent_payload_value :: "agent_payload \<Rightarrow> json" where
  "agent_payload_value p = JObject
     [(''sql'', JString (gp_sql p)), (''maxRows'', JNumber (PosInt (gp_max_rows p))),
      (''decision'', JString (gp_decision p)), (''origin'', JString (origin_str (gp_origin p)))]"

text \<open>The derived readers: a unit variant is its name, or an object of its name and null.\<close>

definition parse_origin :: "string \<Rightarrow> query_origin option" where
  "parse_origin s =
     (if s = ''mcp'' then Some Origin_Mcp else if s = ''cli'' then Some Origin_Cli else None)"

fun read_origin :: "json \<Rightarrow> query_origin option" where
  "read_origin (JString s) = parse_origin s"
| "read_origin (JObject [(s, JNull)]) = parse_origin s"
| "read_origin v = None"

fun json_as_u64 :: "json \<Rightarrow> nat option" where
  "json_as_u64 (JNumber (PosInt n)) = Some n"
| "json_as_u64 v = None"

definition agent_payload_of :: "json \<Rightarrow> json \<Rightarrow> json \<Rightarrow> json \<Rightarrow> agent_payload option" where
  "agent_payload_of sql max_rows decision origin =
     (case (json_as_str sql, json_as_u64 max_rows, json_as_str decision, read_origin origin) of
        (Some s, Some n, Some d, Some w) \<Rightarrow>
          Some \<lparr>gp_sql = s, gp_max_rows = n, gp_decision = d, gp_origin = w\<rparr>
      | _ \<Rightarrow> None)"

fun read_agent_payload :: "json \<Rightarrow> agent_payload option" where
  "read_agent_payload (JObject kvs) =
     (if fst ` set kvs \<subseteq> {''sql'', ''maxRows'', ''decision'', ''origin''}
      then (case (map_of kvs ''sql'', map_of kvs ''maxRows'', map_of kvs ''decision'', map_of kvs ''origin'') of
              (Some s, Some n, Some d, Some w) \<Rightarrow> agent_payload_of s n d w
            | _ \<Rightarrow> None)
      else None)"
| "read_agent_payload (JArray [s, n, d, w]) = agent_payload_of s n d w"
| "read_agent_payload v = None"

definition max_agent_rows :: nat where
  "max_agent_rows = 1000"

definition bounded_max_rows :: "nat option \<Rightarrow> nat \<Rightarrow> nat" where
  "bounded_max_rows requested configured =
     min (case requested of Some n \<Rightarrow> n | None \<Rightarrow> configured) max_agent_rows"

section \<open>The policy an agent's plan freezes\<close>

definition agent_policy_snapshot :: "env \<Rightarrow> pinned_connection \<Rightarrow> json" where
  "agent_policy_snapshot E pin = JObject
     [(''accountScope'', JString (storage_key (pin_account_scope pin))),
      (''bindingRevision'', json_i64 (pin_binding_revision pin)),
      (''bindingUpdatedAt'', JString (pin_binding_updated_at pin)),
      (''connectionRevision'', json_i64 (pin_connection_revision pin)),
      (''credentialMode'', JString (credential_mode_str (cp_credential_mode (pin_profile pin)))),
      (''environment'', json_opt_string (cp_env (pin_profile pin))),
      (''scopeGeneration'', json_i64 (sc_generation (pin_scope pin))),
      (''workspaceAccess'', JString (workspace_access_str (cp_workspace_access (pin_profile pin)))),
      (''workspaceId'', JString (uuid_to_string E (pin_workspace_id pin)))]"

text \<open>Encoding a \<^verbatim>\<open>Value\<close> does not fail, so neither does this.\<close>

definition capture_agent_read_policy :: "env \<Rightarrow> pinned_connection \<Rightarrow> captured_policy" where
  "capture_agent_read_policy E pin =
     (let snapshot = agent_policy_snapshot E pin
      in \<lparr>po_snapshot = snapshot, po_revision = canonical_hash E snapshot\<rparr>)"

section \<open>Guidance\<close>

record health_snapshot =
  hs_level :: string
  hs_coverage :: string
  hs_total_connections :: "int option"
  hs_max_connections :: "int option"
  hs_connection_usage_percent :: "64 word option"
  hs_active_queries :: "int option"
  hs_long_running_queries :: "int option"
  hs_lock_waits :: "int option"
  hs_replication_lag_seconds :: "64 word option"
  hs_reasons :: "string list"
  hs_captured_at :: string

text \<open>A double that is not finite becomes null.\<close>

definition json_opt_f64 :: "64 word option \<Rightarrow> json" where
  "json_opt_f64 v =
     (case v of None \<Rightarrow> JNull
      | Some w \<Rightarrow> if unat (drop_bit 52 w) mod 2048 = 2047 then JNull else JNumber (Float w))"

definition health_value :: "health_snapshot \<Rightarrow> json" where
  "health_value v = JObject
     [(''level'', JString (hs_level v)), (''coverage'', JString (hs_coverage v)),
      (''totalConnections'', json_opt_i64 (hs_total_connections v)),
      (''maxConnections'', json_opt_i64 (hs_max_connections v)),
      (''connectionUsagePercent'', json_opt_f64 (hs_connection_usage_percent v)),
      (''activeQueries'', json_opt_i64 (hs_active_queries v)),
      (''longRunningQueries'', json_opt_i64 (hs_long_running_queries v)),
      (''lockWaits'', json_opt_i64 (hs_lock_waits v)),
      (''replicationLagSeconds'', json_opt_f64 (hs_replication_lag_seconds v)),
      (''reasons'', JArray (map JString (hs_reasons v))),
      (''capturedAt'', JString (hs_captured_at v))]"

definition is_prod :: "connection_profile \<Rightarrow> bool" where
  "is_prod profile \<longleftrightarrow> cp_env profile = Some ''prod''"

text \<open>One part of the guidance: whether it asks for caution, its notices and its suggestions.\<close>

type_synonym advice = "bool \<times> string list \<times> string list"

definition prod_advice :: "connection_profile \<Rightarrow> advice" where
  "prod_advice profile =
     (if is_prod profile
      then (True, [''This connection is labeled production.''],
        [''Prefer a read replica or a bounded time range for production analysis.''])
      else (False, [], []))"

definition health_advice :: "health_snapshot \<Rightarrow> advice" where
  "health_advice v =
     (hs_level v \<noteq> ''normal'' \<or> hs_coverage v = ''limited'', hs_reasons v,
      if hs_coverage v = ''limited''
      then [''Enable PostgreSQL pg_monitor in DopeDB settings for fuller aggregate load checks.''] else [])"

definition estimate_advice :: "connection_profile \<Rightarrow> int option \<Rightarrow> int \<Rightarrow> advice" where
  "estimate_advice profile estimated_rows estimate_limit =
     (case estimated_rows of
        Some rows \<Rightarrow>
          if rows > max estimate_limit 0
          then (True,
            [''EXPLAIN estimates '' @ dec_int rows @ '' result/plan rows, above the configured '' @
              dec_int estimate_limit @ '' review threshold.''],
            [''Add a selective time/filter condition or aggregate before joining large log tables.''])
          else (False, [], [])
      | None \<Rightarrow>
          if is_prod profile
          then (True, [''EXPLAIN did not provide a usable row estimate for this production query.''],
            [''Review the plan and narrow the query before execution.''])
          else (False, [], []))"

definition planning_guidance ::
  "connection_profile \<Rightarrow> health_snapshot \<Rightarrow> int option \<Rightarrow> int \<Rightarrow> string \<times> string list \<times> string list" where
  "planning_guidance profile v estimated_rows estimate_limit =
     (case prod_advice profile of (c1, n1, s1) \<Rightarrow>
      case health_advice v of (c2, n2, s2) \<Rightarrow>
      case estimate_advice profile estimated_rows estimate_limit of (c3, n3, s3) \<Rightarrow>
        (if c1 \<or> c2 \<or> c3 then ''caution'' else ''ready'', n1 @ n2 @ n3,
         remdups_adj (sort (s1 @ s2 @ s3 @
           (if hs_level v = ''busy''
            then [''Wait for database pressure to fall before running this query.''] else [])))))"

section \<open>What the service calls\<close>

text \<open>\<open>ae_pin\<close> is \<^verbatim>\<open>ConnectionManager::pin\<close>: the pin, its authorisation and the check that it is current.\<close>

record 'row agent_env =
  ae_query :: "'row query_env"
  ae_pin :: "uuid \<Rightarrow> connection_access \<Rightarrow> pinned_connection app_result"
  ae_snapshot :: "live_connection \<Rightarrow> engine \<Rightarrow> health_snapshot db_step"

definition agent_record_args ::
  "uuid \<Rightarrow> engine \<Rightarrow> string \<Rightarrow> query_kind \<Rightarrow> string \<Rightarrow> string option \<Rightarrow> record_args" where
  "agent_record_args connection_id eng sql kind action err =
     \<lparr>ra_connection_id = connection_id, ra_engine = eng, ra_agent_prompt = None, ra_sql = sql,
      ra_kind = kind, ra_action = action, ra_approved_by = None, ra_affected_estimate = None,
      ra_error = err\<rparr>"

definition audit_best_effort ::
  "'row query_env \<Rightarrow> uuid \<Rightarrow> engine \<Rightarrow> string \<Rightarrow> query_kind \<Rightarrow> string \<Rightarrow> string option \<Rightarrow> run_inputs \<Rightarrow>
   query_state \<Rightarrow> query_state" where
  "audit_best_effort Q connection_id eng sql kind action err i st =
     st\<lparr>qs_audit := snd (audit_record (qe_env Q) (qe_audit_time Q)
          (agent_record_args connection_id eng sql kind action err) (ri_ids i 10) (ri_clock i 10) (qs_audit st))\<rparr>"

definition agent_history_entry ::
  "pinned_connection \<Rightarrow> string \<Rightarrow> string \<Rightarrow> int option \<Rightarrow> int option \<Rightarrow> string option \<Rightarrow> run_inputs \<Rightarrow> history_entry" where
  "agent_history_entry pin sql status rows duration_ms err i =
     \<lparr>hy_id = ri_ids i 11, hy_connection_id = pin_connection_id pin, hy_sql = sql, hy_kind = Read,
      hy_status = status, hy_row_count = rows, hy_duration_ms = duration_ms, hy_error = err,
      hy_executed_at = ri_clock i 11, hy_origin = ''agent''\<rparr>"

definition persist_history ::
  "'row query_env \<Rightarrow> pinned_connection \<Rightarrow> string \<Rightarrow> string \<Rightarrow> int option \<Rightarrow> int option \<Rightarrow> string option \<Rightarrow>
   run_inputs \<Rightarrow> query_state \<Rightarrow> uuid app_result \<times> query_state" where
  "persist_history Q pin sql status rows duration_ms err i st =
     (case qe_history Q pin of
        Inl e \<Rightarrow> (Inl e, st)
      | Inr _ \<Rightarrow> (Inr (ri_ids i 11), st\<lparr>qs_history := qs_history st @
          [agent_history_entry pin sql status rows duration_ms err i]\<rparr>))"

definition record_run_failure ::
  "'row query_env \<Rightarrow> pinned_connection \<Rightarrow> string \<Rightarrow> engine \<Rightarrow> query_origin \<Rightarrow> app_error \<Rightarrow> run_inputs \<Rightarrow>
   query_state \<Rightarrow> query_state" where
  "record_run_failure Q pin sql eng origin e i st =
     snd (persist_history Q pin sql ''error'' None None (Some (app_error_text e)) i
       (audit_best_effort Q (pin_connection_id pin) eng sql Read (run_audit_action origin)
          (Some (app_error_text e)) i st))"

section \<open>Planning\<close>

record agent_plan_request =
  aq_connection_id :: uuid
  aq_sql :: string
  aq_max_rows :: "nat option"
  aq_origin :: query_origin

record terminal_plan_request =
  tq_connection_id :: uuid
  tq_sql :: string
  tq_max_rows :: "nat option"
  tq_authority :: terminal_authority

record agent_plan =
  gl_connection_id :: uuid
  gl_connection_name :: string
  gl_environment :: "string option"
  gl_sql :: string
  gl_plan_id :: uuid
  gl_decision :: string
  gl_notices :: "string list"
  gl_suggestions :: "string list"
  gl_estimated_rows :: "int option"
  gl_health :: health_snapshot
  gl_expires_at :: datetime

record rejected_plan =
  rj_connection_id :: uuid
  rj_connection_name :: string
  rj_engine :: engine
  rj_sql :: string
  rj_kind :: query_kind
  rj_origin :: query_origin

datatype agent_plan_error =
    DocumentConnection
  | NotSingleRead rejected_plan
  | Plan_Application app_error

text \<open>The adapter audits a rejection after it has emitted its own result.\<close>

definition audit_after_result ::
  "'row query_env \<Rightarrow> rejected_plan \<Rightarrow> run_inputs \<Rightarrow> query_state \<Rightarrow> query_state" where
  "audit_after_result Q r =
     audit_best_effort Q (rj_connection_id r) (rj_engine r) (rj_sql r) (rj_kind r)
       (plan_audit_action (rj_origin r))
       (Some ''plan_query accepts exactly one read-only SELECT statement'')"

definition plan_result :: "'a app_result \<Rightarrow> agent_plan_error + 'a" where
  "plan_result r = (case r of Inl e \<Rightarrow> Inl (Plan_Application e) | Inr x \<Rightarrow> Inr x)"

definition agent_plan_checks ::
  "'row agent_env \<Rightarrow> agent_plan_request \<Rightarrow> terminal_authority option \<Rightarrow>
   agent_plan_error + (pinned_connection \<times> classification \<times> safety_settings \<times> live_connection)" where
  "agent_plan_checks A q terminal =
     (let Q = ae_query A in
      rbind (plan_result (ae_pin A (aq_connection_id q) Access_Read)) (\<lambda>pin.
      let profile = pin_profile pin in
      rbind (guard (is_document (cp_engine profile)) DocumentConnection) (\<lambda>_.
      rbind (plan_result (classify (qe_parse Q) (aq_sql q) (cp_engine profile))) (\<lambda>c.
      rbind (guard (cl_kind c \<noteq> Read \<or> cl_statement_count c \<noteq> 1) (NotSingleRead
        \<lparr>rj_connection_id = cp_id profile, rj_connection_name = cp_name profile,
         rj_engine = cp_engine profile, rj_sql = aq_sql q, rj_kind = cl_kind c,
         rj_origin = aq_origin q\<rparr>)) (\<lambda>_.
      rbind (plan_result (qe_safety Q (cp_id profile))) (\<lambda>settings.
      rbind (plan_result (check_terminal terminal pin)) (\<lambda>_.
      rbind (plan_result (qe_connect Q pin Access_Read)) (\<lambda>_.
      rbind (plan_result (qe_sql Q pin)) (\<lambda>live.
      Inr (pin, c, settings, live))))))))))"

definition agent_actor ::
  "pinned_connection \<Rightarrow> query_origin \<Rightarrow> terminal_authority option \<Rightarrow> operation_actor" where
  "agent_actor pin origin terminal =
     (let actor = agent_actor_for_pin pin (origin_str origin) (origin_str origin)
      in case terminal of
           None \<Rightarrow> actor
         | Some ta \<Rightarrow> actor\<lparr>actor_provenance := (actor_provenance actor)
             \<lparr>client_protocol_version := Some (unat (ta_client_protocol_version ta))\<rparr>\<rparr>)"

definition agent_preview_value ::
  "string \<times> string list \<times> string list \<Rightarrow> int option \<Rightarrow> health_snapshot \<Rightarrow> json" where
  "agent_preview_value g estimated_rows v =
     (case g of (decision, notices, suggestions) \<Rightarrow> JObject
       [(''decision'', JString decision), (''estimatedRows'', json_opt_i64 estimated_rows),
        (''health'', health_value v), (''notices'', JArray (map JString notices)),
        (''suggestions'', JArray (map JString suggestions))])"

definition agent_operation ::
  "env \<Rightarrow> pinned_connection \<Rightarrow> terminal_authority option \<Rightarrow> agent_payload \<Rightarrow> classification \<Rightarrow> json \<Rightarrow>
   uuid \<Rightarrow> datetime \<Rightarrow> new_operation" where
  "agent_operation E pin terminal payload c preview_json plan_id expires_at =
     (let policy = capture_agent_read_policy E pin in
      \<lparr>n_id = plan_id, n_workspace_id = pin_workspace_id pin,
       n_account_scope = storage_key (pin_account_scope pin),
       n_connection_id = pin_connection_id pin,
       n_connection_revision = pin_connection_revision pin,
       n_terminal_session_id = map_option ta_terminal_session_id terminal,
       n_actor = agent_actor pin (gp_origin payload) terminal, n_kind = ReadQuery,
       n_payload_schema_version = 1, n_payload = agent_payload_value payload,
       n_schema_fingerprint = None, n_risk_level = operation_risk c, n_preview = preview_json,
       n_policy_snapshot = po_snapshot policy, n_policy_revision = po_revision policy,
       n_single_use = True, n_idempotency_key = uuid_to_string E plan_id,
       n_expires_at = Some expires_at\<rparr>)"

definition plan_agent_read_scoped ::
  "'row agent_env \<Rightarrow> operation_runtime \<Rightarrow> agent_plan_request \<Rightarrow> terminal_authority option \<Rightarrow> uuid \<Rightarrow>
   run_inputs \<Rightarrow> query_state \<Rightarrow> (agent_plan_error + agent_plan) \<times> query_state" where
  "plan_agent_read_scoped A rt q terminal plan_id i st =
     (let Q = ae_query A; E = qe_env Q in
      case agent_plan_checks A q terminal of
        Inl e \<Rightarrow> (Inl e, st)
      | Inr (pin, c, settings, live) \<Rightarrow>
          (case preview E (qe_explain Q) (lc_read_pool live) (aq_sql q) c settings (qs_log st) of
             (Inl e, h) \<Rightarrow> (Inl (Plan_Application e), st\<lparr>qs_log := h\<rparr>)
           | (Inr report, h) \<Rightarrow>
               (case ae_snapshot A live (cp_engine (pin_profile pin)) h of
                  (health, h') \<Rightarrow>
                    (let profile = pin_profile pin;
                         g = planning_guidance profile health (pr_estimated_rows report)
                               (ss_exec_preview_row_limit settings);
                         payload = \<lparr>gp_sql = aq_sql q,
                           gp_max_rows = bounded_max_rows (aq_max_rows q) (ss_max_rows settings),
                           gp_decision = fst g, gp_origin = aq_origin q\<rparr>;
                         st1 = audit_best_effort Q (cp_id profile) (cp_engine profile) (aq_sql q) Read
                           (plan_audit_action (aq_origin q)) None i (st\<lparr>qs_log := h'\<rparr>);
                         expires_at = ri_clock i 2 + query_plan_ttl
                     in case rt_plan E rt (agent_operation E pin terminal payload c
                                (agent_preview_value g (pr_estimated_rows report) health) plan_id expires_at)
                                Plan_Ready (ri_clock i 0) (ri_ids i 0) (ri_clock i 1) (ri_ids i 1) (qs_ledger st1) of
                          (Inl e, db) \<Rightarrow> (Inl (Plan_Application e), st1\<lparr>qs_ledger := db\<rparr>)
                        | (Inr _, db) \<Rightarrow>
                            (Inr \<lparr>gl_connection_id = cp_id profile, gl_connection_name = cp_name profile,
                               gl_environment = cp_env profile, gl_sql = aq_sql q, gl_plan_id = plan_id,
                               gl_decision = fst g, gl_notices = fst (snd g), gl_suggestions = snd (snd g),
                               gl_estimated_rows = pr_estimated_rows report, gl_health = health,
                               gl_expires_at = expires_at\<rparr>, st1\<lparr>qs_ledger := db\<rparr>)))))"

definition plan_agent_read where
  "plan_agent_read A rt q = plan_agent_read_scoped A rt q None"

definition plan_terminal_read where
  "plan_terminal_read A rt q = plan_agent_read_scoped A rt
     \<lparr>aq_connection_id = tq_connection_id q, aq_sql = tq_sql q, aq_max_rows = tq_max_rows q,
      aq_origin = Origin_Cli\<rparr> (Some (tq_authority q))"

section \<open>Preparing a run\<close>

record run_event_context =
  re_connection_id :: uuid
  re_connection_name :: string
  re_plan_id :: uuid
  re_sql :: string

record prepared_run =
  pq_pin :: pinned_connection
  pq_claimed :: claimed_operation
  pq_event :: run_event_context
  pq_decision :: string
  pq_max_rows :: nat
  pq_origin :: query_origin

datatype run_prepare_error =
    UnknownOrAlreadyUsed
  | Plan_Expired
  | SessionMismatch
  | AuthorityChanged
  | StoredPlanInvalid
  | Prepare_Failed app_error

definition stored_plan :: "operation_record \<Rightarrow> agent_payload option" where
  "stored_plan planned =
     (if o_payload_schema_version planned \<noteq> 1 \<or> o_kind planned \<noteq> ReadQuery \<or>
         actor_kind (o_actor planned) \<noteq> Agent then None
      else case read_agent_payload (o_payload planned) of
             None \<Rightarrow> None
           | Some payload \<Rightarrow>
               if actor_id (o_actor planned) \<noteq> origin_str (gp_origin payload) then None else Some payload)"

definition expected_origin :: "terminal_authority option \<Rightarrow> query_origin" where
  "expected_origin terminal = (if terminal \<noteq> None then Origin_Cli else Origin_Mcp)"

definition unclaimed_checks ::
  "'row agent_env \<Rightarrow> uuid \<Rightarrow> terminal_authority option \<Rightarrow> ledger \<Rightarrow>
   run_prepare_error + (operation_record \<times> agent_payload)" where
  "unclaimed_checks A plan_id terminal db =
     (case rt_get (qe_env (ae_query A)) plan_id db of
        Inl e \<Rightarrow> Inl (case e of NotFound _ \<Rightarrow> UnknownOrAlreadyUsed | _ \<Rightarrow> Prepare_Failed e)
      | Inr planned \<Rightarrow>
          rbind (ok_or (stored_plan planned) StoredPlanInvalid) (\<lambda>payload.
          rbind (guard (o_terminal_session_id planned \<noteq> map_option ta_terminal_session_id terminal \<or>
                   gp_origin payload \<noteq> expected_origin terminal) SessionMismatch) (\<lambda>_.
          rbind (guard (o_state planned = Expired) UnknownOrAlreadyUsed) (\<lambda>_.
          Inr (planned, payload)))))"

text \<open>Each check after the claim fails with its error and with the details the operation fails with.\<close>

definition failure_value :: "app_error \<Rightarrow> string \<Rightarrow> json" where
  "failure_value e reason = JObject [(''error'', JString (app_error_text e)), (''reason'', JString reason)]"

definition failing :: "string \<Rightarrow> 'a app_result \<Rightarrow> (run_prepare_error \<times> json) + 'a" where
  "failing reason r =
     (case r of Inl e \<Rightarrow> Inl (Prepare_Failed e, failure_value e reason) | Inr x \<Rightarrow> Inr x)"

definition claimed_checks ::
  "'row agent_env \<Rightarrow> terminal_authority option \<Rightarrow> operation_record \<Rightarrow> agent_payload \<Rightarrow>
   (run_prepare_error \<times> json) + (pinned_connection \<times> safety_settings)" where
  "claimed_checks A terminal planned payload =
     (let Q = ae_query A in
      rbind (failing ''connection_scope_unavailable'' (ae_pin A (o_connection_id planned) Access_Read)) (\<lambda>pin.
      rbind (guard (isl (check_terminal terminal pin))
        (AuthorityChanged, reason_value ''terminal_authority_changed'')) (\<lambda>_.
      rbind (guard (isl (ensure_operation_scope planned pin))
        (AuthorityChanged, reason_value ''operation_authority_changed'')) (\<lambda>_.
      rbind (failing ''safety_policy_unavailable'' (qe_safety Q (pin_connection_id pin))) (\<lambda>settings.
      rbind (guard (po_revision (capture_agent_read_policy (qe_env Q) pin) \<noteq> o_policy_revision planned)
        (AuthorityChanged, reason_value ''operation_policy_changed'')) (\<lambda>_.
      rbind (failing ''stored_plan_reclassification_failed''
        (classify (qe_parse Q) (gp_sql payload) (cp_engine (pin_profile pin)))) (\<lambda>c.
      rbind (guard (cl_kind c \<noteq> Read \<or> cl_statement_count c \<noteq> 1)
        (StoredPlanInvalid, reason_value ''stored_plan_classification_changed'')) (\<lambda>_.
      Inr (pin, settings)))))))))"

definition prepare_agent_run_scoped ::
  "'row agent_env \<Rightarrow> operation_runtime \<Rightarrow> uuid \<Rightarrow> terminal_authority option \<Rightarrow> run_inputs \<Rightarrow>
   query_state \<Rightarrow> (run_prepare_error + prepared_run) \<times> query_state" where
  "prepare_agent_run_scoped A rt plan_id terminal i st =
     (let E = qe_env (ae_query A) in
      case unclaimed_checks A plan_id terminal (qs_ledger st) of
        Inl e \<Rightarrow> (Inl e, st)
      | Inr (planned, payload) \<Rightarrow>
          (let expired = (case o_expires_at planned of None \<Rightarrow> False | Some t \<Rightarrow> t \<le> ri_clock i 5)
           in case rt_claim E rt plan_id (ri_clock i 0) (ri_ids i 0) (qs_ledger st) of
                (Inl e, db) \<Rightarrow>
                  (Inl (if expired then Plan_Expired
                        else if o_state planned \<noteq> Ready then UnknownOrAlreadyUsed
                        else Prepare_Failed e), st\<lparr>qs_ledger := db\<rparr>)
              | (Inr claimed, db) \<Rightarrow>
                  (case claimed_checks A terminal planned payload of
                     Inl (e, details) \<Rightarrow>
                       (Inl e, st\<lparr>qs_ledger := snd (rt_fail E rt plan_id details (ri_clock i 3) (ri_ids i 3) db)\<rparr>)
                   | Inr (pin, settings) \<Rightarrow>
                       (Inr \<lparr>pq_pin = pin, pq_claimed = claimed,
                          pq_event = \<lparr>re_connection_id = pin_connection_id pin,
                            re_connection_name = cp_name (pin_profile pin), re_plan_id = plan_id,
                            re_sql = gp_sql payload\<rparr>,
                          pq_decision = gp_decision payload,
                          pq_max_rows = min (min (gp_max_rows payload) (ss_max_rows settings)) max_agent_rows,
                          pq_origin = gp_origin payload\<rparr>, st\<lparr>qs_ledger := db\<rparr>))))"

definition prepare_agent_run where
  "prepare_agent_run A rt plan_id = prepare_agent_run_scoped A rt plan_id None"

definition prepare_terminal_run where
  "prepare_terminal_run A rt plan_id ta = prepare_agent_run_scoped A rt plan_id (Some ta)"

section \<open>Executing a prepared run\<close>

record agent_run =
  gr_connection_id :: uuid
  gr_connection_name :: string
  gr_plan_id :: uuid
  gr_planning_decision :: string
  gr_query_run_id :: uuid
  gr_sql :: string
  gr_result :: query_result

datatype agent_run_error =
    Agent_Connection app_error
  | Agent_Execution app_error
  | Agent_Consent app_error

definition agent_receipt_value :: "env \<Rightarrow> query_result \<Rightarrow> uuid \<Rightarrow> json" where
  "agent_receipt_value E res query_run_id = JObject
     [(''durationMs'', JNumber (PosInt (qr_duration_ms res))),
      (''queryRunId'', JString (uuid_to_string E query_run_id)),
      (''rowCount'', JNumber (PosInt (qr_row_count res)))]"

definition abandon_run ::
  "'row query_env \<Rightarrow> operation_runtime \<Rightarrow> prepared_run \<Rightarrow> run_inputs \<Rightarrow> app_error \<Rightarrow> string \<Rightarrow>
   query_state \<Rightarrow> query_state" where
  "abandon_run Q rt p i e reason st =
     (let st' = record_run_failure Q (pq_pin p) (re_sql (pq_event p)) (cp_engine (pin_profile (pq_pin p)))
            (pq_origin p) e i st
      in st'\<lparr>qs_ledger := snd (rt_fail (qe_env Q) rt (o_id (co_record (pq_claimed p))) (failure_value e reason)
           (ri_clock i 3) (ri_ids i 3) (qs_ledger st'))\<rparr>)"

definition fail_execution ::
  "'row query_env \<Rightarrow> operation_runtime \<Rightarrow> prepared_run \<Rightarrow> run_inputs \<Rightarrow> app_error \<Rightarrow> query_state \<Rightarrow> query_state" where
  "fail_execution Q rt p i e st =
     (if is_cancelled_error e
      then let st' = record_run_failure Q (pq_pin p) (re_sql (pq_event p))
                 (cp_engine (pin_profile (pq_pin p))) (pq_origin p) e i st
           in st'\<lparr>qs_ledger := snd (confirm_cancelled (qe_env Q) rt (o_id (co_record (pq_claimed p)))
                (reason_value ''user_cancelled'') (ri_clock i 3) (ri_ids i 3) (qs_ledger st'))\<rparr>
      else abandon_run Q rt p i e ''read_execution_failed'' st)"

definition settle_read ::
  "'row query_env \<Rightarrow> operation_runtime \<Rightarrow> prepared_run \<Rightarrow> run_inputs \<Rightarrow> query_result \<Rightarrow> query_state \<Rightarrow>
   (agent_run_error + agent_run) \<times> query_state" where
  "settle_read Q rt p i res st =
     (let E = qe_env Q; ev = pq_event p; operation_id = o_id (co_record (pq_claimed p));
          st1 = audit_best_effort Q (pin_connection_id (pq_pin p)) (cp_engine (pin_profile (pq_pin p)))
            (re_sql ev) Read (run_audit_action (pq_origin p)) None i st
      in case persist_history Q (pq_pin p) (re_sql ev) ''ok'' (Some (u64_as_i64 (qr_row_count res)))
                (Some (u64_as_i64 (qr_duration_ms res))) None i st1 of
           (Inl e, st2) \<Rightarrow>
             (Inl (Agent_Consent e), st2\<lparr>qs_ledger := snd (rt_fail E rt operation_id
                (failure_value e ''history_receipt_failed'') (ri_clock i 3) (ri_ids i 3) (qs_ledger st2))\<rparr>)
         | (Inr query_run_id, st2) \<Rightarrow>
             (case rt_succeed E rt operation_id (agent_receipt_value E res query_run_id)
                     (ri_clock i 3) (ri_ids i 3) (qs_ledger st2) of
                (Inl e, db) \<Rightarrow>
                  (Inl (Agent_Consent e), st2\<lparr>qs_ledger := snd (rt_fail E rt operation_id
                     (failure_value e ''operation_receipt_failed'') (ri_clock i 4) (ri_ids i 4) db)\<rparr>)
              | (Inr _, db) \<Rightarrow>
                  (Inr \<lparr>gr_connection_id = re_connection_id ev, gr_connection_name = re_connection_name ev,
                     gr_plan_id = re_plan_id ev, gr_planning_decision = pq_decision p,
                     gr_query_run_id = query_run_id, gr_sql = re_sql ev, gr_result = res\<rparr>,
                   st2\<lparr>qs_ledger := db\<rparr>)))"

text \<open>\<open>None\<close> while the guarded session has not ended.\<close>

definition execute_agent_run ::
  "'row query_env \<Rightarrow> operation_runtime \<Rightarrow> prepared_run \<Rightarrow> run_inputs \<Rightarrow> query_state \<Rightarrow>
   ((agent_run_error + agent_run) \<times> query_state) option" where
  "execute_agent_run Q rt p i st =
     (case qe_connect Q (pq_pin p) Access_Read of
        Inl e \<Rightarrow> Some (Inl (Agent_Connection e), abandon_run Q rt p i e ''target_connection_failed'' st)
      | Inr _ \<Rightarrow>
          (case qe_sql Q (pq_pin p) of
             Inl e \<Rightarrow> Some (Inl (Agent_Execution e), abandon_run Q rt p i e ''target_pool_unavailable'' st)
           | Inr live \<Rightarrow>
               (case run_read_only_cancellable dec_nat (qe_driver Q) (lc_read_pool live) (re_sql (pq_event p))
                       (pq_max_rows p) True (ri_polls i) (qs_log st) of
                  None \<Rightarrow> None
                | Some (Inl e, h) \<Rightarrow>
                    Some (Inl (Agent_Execution e), fail_execution Q rt p i e (st\<lparr>qs_log := h\<rparr>))
                | Some (Inr res, h) \<Rightarrow> Some (settle_read Q rt p i res (st\<lparr>qs_log := h\<rparr>)))))"

end
