(* ===== verification/Agent_Contracts.thy ===== *)
theory Agent_Contracts
  imports Agent_Query
begin

text \<open>
  What the agent's queries promise: guidance is exact, a plan stores exactly what it announced, a
  plan is run by the session that made it and under the policy it was made under, a run only reads,
  and its outcome is on record.
\<close>

section \<open>Guidance\<close>

lemma sorted_dedup: "sorted xs \<Longrightarrow> sorted (remdups_adj xs) \<and> distinct (remdups_adj xs)"
  for xs :: "'a :: linorder list"
proof (induction xs rule: remdups_adj.induct)
  case (3 x y xs)
  then show ?case
    by (cases "x = y") (auto simp: order_less_le)
qed simp_all

text \<open>
  C40. The guidance of a plan says \<open>ready\<close> exactly when nothing asks for caution: the
  connection is not labelled production, its health is normal and not of limited coverage, and
  the row estimate is absent or within the configured threshold. A production connection is always
  a caution, with or without an estimate. Suggestions are sorted and never repeated, and every
  reason of the health snapshot is among the notices.
\<close>

theorem guidance_exact:
  "case planning_guidance profile v estimated limit of (decision, notices, suggestions) \<Rightarrow>
     decision = (if \<not> is_prod profile \<and> hs_level v = ''normal'' \<and> hs_coverage v \<noteq> ''limited'' \<and>
                    (case estimated of None \<Rightarrow> True | Some rows \<Rightarrow> rows \<le> max limit 0)
                 then ''ready'' else ''caution'') \<and>
     sorted suggestions \<and> distinct suggestions \<and> set (hs_reasons v) \<subseteq> set notices"
proof -
  show ?thesis
    using sorted_dedup [OF sorted_sort]
    by (cases estimated)
      (auto simp: planning_guidance_def prod_advice_def health_advice_def estimate_advice_def)
qed

section \<open>Preparing\<close>

lemma plan_result_Inr [simp]: "plan_result r = Inr x \<longleftrightarrow> r = Inr x"
  by (simp add: plan_result_def split: sum.split)

lemma failing_Inr [simp]: "failing reason r = Inr x \<longleftrightarrow> r = Inr x"
  by (simp add: failing_def split: sum.split)

lemma not_isl_unit [simp]: "\<not> isl r \<longleftrightarrow> r = Inr ()"
  by (cases r) auto

lemma unclaimed_checks_Inr:
  assumes "unclaimed_checks A plan_id terminal db = Inr (planned, payload)"
  shows "get_operation (qe_env (ae_query A)) plan_id db = Inr planned" "stored_plan planned = Some payload"
    "o_terminal_session_id planned = map_option ta_terminal_session_id terminal"
    "gp_origin payload = expected_origin terminal"
  using assms by (auto simp: unclaimed_checks_def rt_get_def rbind_eq_Inr split: sum.splits)

lemma claimed_checks_Inr:
  assumes "claimed_checks A terminal planned payload = Inr (pin, settings)"
  obtains c where "ae_pin A (o_connection_id planned) Access_Read = Inr pin"
    "check_terminal terminal pin = Inr ()" "ensure_operation_scope planned pin = Inr ()"
    "qe_safety (ae_query A) (pin_connection_id pin) = Inr settings"
    "po_revision (capture_agent_read_policy (qe_env (ae_query A)) pin) = o_policy_revision planned"
    "classify (qe_parse (ae_query A)) (gp_sql payload) (cp_engine (pin_profile pin)) = Inr c"
    "cl_kind c = Read" "cl_statement_count c = 1"
  using assms unfolding claimed_checks_def Let_def rbind_eq_Inr guard_eq_Inr failing_Inr not_isl_unit
  by auto

lemma prepare_Inr:
  assumes "prepare_agent_run_scoped A rt plan_id terminal i st = (Inr p, st1)"
  obtains planned payload settings db where
    "unclaimed_checks A plan_id terminal (qs_ledger st) = Inr (planned, payload)"
    "rt_claim (qe_env (ae_query A)) rt plan_id (ri_clock i 0) (ri_ids i 0) (qs_ledger st) = (Inr (pq_claimed p), db)"
    "claimed_checks A terminal planned payload = Inr (pq_pin p, settings)"
    "st1 = st\<lparr>qs_ledger := db\<rparr>" "re_sql (pq_event p) = gp_sql payload"
    "pq_max_rows p = min (min (gp_max_rows payload) (ss_max_rows settings)) max_agent_rows"
  using assms unfolding prepare_agent_run_scoped_def Let_def
  by (auto split: sum.splits prod.splits)

section \<open>Executing\<close>

lemma audit_best_effort_frame [simp]:
  "qs_ledger (audit_best_effort Q cid eng sql kind action err i st) = qs_ledger st"
  "qs_log (audit_best_effort Q cid eng sql kind action err i st) = qs_log st"
  "qs_history (audit_best_effort Q cid eng sql kind action err i st) = qs_history st"
  by (simp_all add: audit_best_effort_def)

lemma record_run_failure_frame [simp]:
  "qs_ledger (record_run_failure Q pin sql eng origin e i st) = qs_ledger st"
  "qs_log (record_run_failure Q pin sql eng origin e i st) = qs_log st"
  by (auto simp: record_run_failure_def persist_history_def split: sum.split)

lemma failed_run_log [simp]:
  "qs_log (abandon_run Q rt p i e reason st) = qs_log st"
  "qs_log (fail_execution Q rt p i e st) = qs_log st"
  by (simp_all add: abandon_run_def fail_execution_def Let_def)

text \<open>The history entry a receipt names: a successful read of the agent on the pinned connection.\<close>

definition recorded_read :: "pinned_connection \<Rightarrow> agent_run \<Rightarrow> query_state \<Rightarrow> bool" where
  "recorded_read pin run st \<longleftrightarrow> (\<exists>e \<in> set (qs_history st). hy_id e = gr_query_run_id run \<and>
     hy_sql e = gr_sql run \<and> hy_connection_id e = pin_connection_id pin \<and>
     hy_origin e = ''agent'' \<and> hy_status e = ''ok'' \<and> hy_kind e = Read)"

text \<open>A run that succeeded has its history entry; the ledger and the log are those of its steps.\<close>

lemma settle_read_cases:
  assumes "settle_read Q rt p i res st = (r, st')"
  shows "qs_log st' = qs_log st"
    and "r = Inr run \<Longrightarrow> gr_result run = res \<and> gr_sql run = re_sql (pq_event p) \<and>
      recorded_read (pq_pin p) run st'"
  using assms
  by (auto simp: settle_read_def persist_history_def Let_def agent_history_entry_def recorded_read_def
      split: sum.splits prod.splits)

lemma execute_cases:
  assumes "execute_agent_run Q rt p i st = Some (r, st')"
  obtains
    (unsent) e reason where "st' = abandon_run Q rt p i e reason st"
      "r = Inl (Agent_Connection e) \<or> r = Inl (Agent_Execution e)"
  | (ended) live res h where "qe_connect Q (pq_pin p) Access_Read = Inr ()" "qe_sql Q (pq_pin p) = Inr live"
      "guard_session dec_nat True (ri_polls i) (run_read_only_inner (qe_driver Q) (lc_read_pool live)
         (re_sql (pq_event p)) (pq_max_rows p)) (qs_log st) = Some (res, h)"
      "(case res of
          Inl e \<Rightarrow> r = Inl (Agent_Execution e) \<and> st' = fail_execution Q rt p i e (st\<lparr>qs_log := h\<rparr>)
        | Inr q \<Rightarrow> settle_read Q rt p i q (st\<lparr>qs_log := h\<rparr>) = (r, st'))"
proof (cases "qe_connect Q (pq_pin p) Access_Read")
  case (Inl e)
  then show thesis using assms by (intro unsent) (auto simp: execute_agent_run_def)
next
  case connected: (Inr u)
  show thesis
  proof (cases "qe_sql Q (pq_pin p)")
    case (Inl e)
    then show thesis using assms connected by (intro unsent) (auto simp: execute_agent_run_def)
  next
    case (Inr live)
    let ?run = "guard_session dec_nat True (ri_polls i) (run_read_only_inner (qe_driver Q) (lc_read_pool live)
         (re_sql (pq_event p)) (pq_max_rows p)) (qs_log st)"
    obtain res h where run: "?run = Some (res, h)"
      using assms connected Inr
      by (auto simp: execute_agent_run_def run_read_only_cancellable_def split: option.splits)
    show thesis
      using assms connected Inr run
      by (intro ended [OF _ _ run])
        (auto simp: execute_agent_run_def run_read_only_cancellable_def split: sum.splits)
  qed
qed


section \<open>The outcome is on record\<close>

lemma plain_failure [simp]: "json_plain (failure_value e reason)"
  by (simp add: failure_value_def json_plain_def)

lemma plain_receipt:
  "qr_duration_ms res < 2 ^ 64 \<Longrightarrow> qr_row_count res < 2 ^ 64 \<Longrightarrow> json_plain (agent_receipt_value E res n)"
  by (simp add: agent_receipt_value_def json_plain_def)

lemma read_session_duration:
  assumes "guard_session show_nat has_handle ps (run_read_only_inner drv pool sql n) h0 = Some (Inr q, h)"
    and "\<forall>h. dv_millis drv h < 2 ^ 64"
  shows "qr_duration_ms q < 2 ^ 64"
proof -
  have "run_read_only_inner drv pool sql n h0 = (Inr q, h)" using guard_session_cases [OF assms(1)] by simp
  then show ?thesis
    using assms(2) by (auto simp: run_read_only_inner_def split: sum.splits prod.splits)
qed

lemma fail_outcome:
  assumes "env_ok E" "reachable E db" "rfc3339_range now" "get_operation E op db = Inr cur" "json_plain details"
    and "rt_fail E rt op details now ev db = (r, db')"
  shows "reachable E db' \<and> (\<exists>rec. get_operation E op db' = Inr rec \<and> (rec = cur \<or> o_state rec = Failed))"
  using finish_outcome [OF assms(1,2,5,3,4), of rt Failed ev r db'] assms(6) by (auto simp: rt_fail_def)

lemma abandon_outcome:
  assumes "env_ok (qe_env Q)" "reachable (qe_env Q) (qs_ledger st)" "rfc3339_range (ri_clock i 3)"
    and "get_operation (qe_env Q) (o_id (co_record (pq_claimed p))) (qs_ledger st) = Inr cur"
  shows "reachable (qe_env Q) (qs_ledger (abandon_run Q rt p i e reason st)) \<and>
    (\<exists>rec. get_operation (qe_env Q) (o_id (co_record (pq_claimed p)))
       (qs_ledger (abandon_run Q rt p i e reason st)) = Inr rec \<and> (rec = cur \<or> o_state rec = Failed))"
  using fail_outcome [OF assms plain_failure prod.collapse [symmetric]]
  by (simp add: abandon_run_def Let_def)

lemma fail_execution_outcome:
  assumes "env_ok (qe_env Q)" "reachable (qe_env Q) (qs_ledger st)" "rfc3339_range (ri_clock i 3)"
    and "get_operation (qe_env Q) (o_id (co_record (pq_claimed p))) (qs_ledger st) = Inr cur"
  shows "reachable (qe_env Q) (qs_ledger (fail_execution Q rt p i e st)) \<and>
    (\<exists>rec. get_operation (qe_env Q) (o_id (co_record (pq_claimed p))) (qs_ledger (fail_execution Q rt p i e st)) = Inr rec \<and>
       (rec = cur \<or> o_state rec = (if is_cancelled_error e then Cancelled else Failed)))"
proof (cases "is_cancelled_error e")
  case True
  then show ?thesis
    using finish_outcome [OF assms(1,2) plain_reason assms(3,4), of rt Cancelled "''user_cancelled''" "ri_ids i 3"]
    by (auto simp: fail_execution_def Let_def confirm_cancelled_def prod_eq_iff)
next
  case False
  then show ?thesis using abandon_outcome [OF assms] by (simp add: fail_execution_def)
qed

lemma settle_read_outcome:
  assumes "env_ok (qe_env Q)" "reachable (qe_env Q) (qs_ledger st)"
    and "rfc3339_range (ri_clock i 3)" "rfc3339_range (ri_clock i 4)"
    and "get_operation (qe_env Q) (o_id (co_record (pq_claimed p))) (qs_ledger st) = Inr cur"
    and "qr_duration_ms res < 2 ^ 64" "qr_row_count res < 2 ^ 64"
    and "settle_read Q rt p i res st = (r, st')"
  shows "reachable (qe_env Q) (qs_ledger st') \<and>
    (\<exists>rec. get_operation (qe_env Q) (o_id (co_record (pq_claimed p))) (qs_ledger st') = Inr rec \<and>
       (case r of Inr run \<Rightarrow> o_state rec = Succeeded | Inl e \<Rightarrow> rec = cur \<or> o_state rec = Failed))"
proof (cases "qe_history Q (pq_pin p)")
  case (Inl e)
  then show ?thesis
    using assms(8) fail_outcome [OF assms(1,2,3,5) plain_failure prod.collapse [symmetric]]
    by (auto simp: settle_read_def persist_history_def Let_def)
next
  case saved: (Inr u)
  let ?op = "o_id (co_record (pq_claimed p))"
  obtain res' db where run: "rt_succeed (qe_env Q) rt ?op (agent_receipt_value (qe_env Q) res (ri_ids i 11))
      (ri_clock i 3) (ri_ids i 3) (qs_ledger st) = (res', db)"
    by (metis surj_pair)
  note fin = finish_outcome [OF assms(1,2) plain_receipt [OF assms(6,7)] assms(3,5) run [unfolded rt_succeed_def]]
  show ?thesis
  proof (cases res')
    case (Inl e)
    then have "get_operation (qe_env Q) ?op db = Inr cur" using fin(2) by auto
    then show ?thesis
      using assms(8) saved run Inl
        fail_outcome [OF assms(1) fin(1) assms(4) _ plain_failure prod.collapse [symmetric]]
      by (auto simp: settle_read_def persist_history_def Let_def)
  next
    case (Inr rec)
    then show ?thesis
      using assms(8) saved run fin by (auto simp: settle_read_def persist_history_def Let_def)
  qed
qed


text \<open>
  A plan is bound to the session that made it. Whoever asks to run a plan without being the
  Terminal session it records, or as the protocol server for a plan of a session, is refused, and
  the plan is neither consumed nor changed.
\<close>

theorem foreign_plan_refused:
  assumes "get_operation (qe_env (ae_query A)) plan_id (qs_ledger st) = Inr planned"
    and "o_terminal_session_id planned \<noteq> map_option ta_terminal_session_id terminal"
  shows "prepare_agent_run_scoped A rt plan_id terminal i st =
    (Inl (if stored_plan planned = None then StoredPlanInvalid else SessionMismatch), st)"
  using assms
  by (cases "stored_plan planned") (auto simp: prepare_agent_run_scoped_def unclaimed_checks_def rt_get_def Let_def)

section \<open>A plan reads back\<close>

text \<open>
  A snapshot without doubles: the parser of \<^verbatim>\<open>serde_json\<close> reads integers back exactly, doubles
  only when built with \<^verbatim>\<open>float_roundtrip\<close>.
\<close>

definition whole_health :: "health_snapshot \<Rightarrow> bool" where
  "whole_health v \<longleftrightarrow> json_opt_f64 (hs_connection_usage_percent v) = JNull \<and>
     json_opt_f64 (hs_replication_lag_seconds v) = JNull \<and>
     (\<forall>x \<in> {hs_total_connections v, hs_max_connections v, hs_active_queries v,
        hs_long_running_queries v, hs_lock_waits v}. \<forall>i \<in> set_option x. is_i64 i)"

lemma opt_i64_plain:
  "\<forall>i \<in> set_option x. is_i64 i \<Longrightarrow> json_integral (json_opt_i64 x)"
  "json_wf (json_opt_i64 x)" "json_depth (json_opt_i64 x) = 1"
  by (cases x; simp add: json_opt_i64_def)+

lemma strings_plain:
  "json_wf (JArray (map JString xs))" "json_integral (JArray (map JString xs))"
  "json_depth (JArray (map JString xs)) \<le> 2"
  by (induction xs) simp_all

lemma health_plain:
  assumes "whole_health v"
  shows "json_wf (health_value v)" "json_integral (health_value v)" "json_depth (health_value v) \<le> 3"
  using assms strings_plain [of "hs_reasons v"]
  by (auto simp: health_value_def whole_health_def opt_i64_plain simp del: json_wf.simps(1) json_integral.simps(1)
      json_depth.simps(1))

lemma agent_preview_plain:
  assumes "whole_health v" "\<forall>n \<in> set_option estimated. is_i64 n"
  shows "json_plain (agent_preview_value g estimated v)"
proof (cases g)
  case (fields decision notices suggestions)
  show ?thesis
    using health_plain [OF assms(1)] strings_plain [of notices] strings_plain [of suggestions] assms(2)
    by (simp add: agent_preview_value_def json_plain_def fields opt_i64_plain
        del: json_wf.simps(1) json_integral.simps(1) json_depth.simps(1))
qed

lemma agent_policy_plain:
  assumes "is_i64 (pin_binding_revision pin)" "is_i64 (pin_connection_revision pin)" "is_i64 (sc_generation (pin_scope pin))"
  shows "json_plain (agent_policy_snapshot E pin)"
  using assms by (simp add: agent_policy_snapshot_def json_plain_def)

lemma agent_payload_plain: "gp_max_rows p < 2 ^ 64 \<Longrightarrow> json_plain (agent_payload_value p)"
  by (simp add: agent_payload_value_def json_plain_def)

lemma read_canonical_payload: "read_agent_payload (canonical_value (agent_payload_value p)) = Some p"
  by (cases "gp_origin p") (simp_all add: agent_payload_value_def agent_payload_of_def parse_origin_def)

lemma version_ok_agent: "version_ok (actor_provenance (agent_actor pin origin terminal))"
proof -
  have "unat v < 65536" for v :: "16 word" using unsigned_less [of v] by simp
  then show ?thesis
    by (auto simp: version_ok_def agent_actor_def agent_actor_for_pin_def no_provenance_def Let_def
        split: option.split account_scope.split)
qed

lemma agent_actor_fields [simp]:
  "actor_kind (agent_actor pin origin terminal) = Agent"
  "actor_id (agent_actor pin origin terminal) = origin_str origin"
  by (simp_all add: agent_actor_def agent_actor_for_pin_def Let_def split: option.split)

lemma agent_plan_checks_Inr:
  assumes "agent_plan_checks A q terminal = Inr (pin, c, settings, live)"
  shows "ae_pin A (aq_connection_id q) Access_Read = Inr pin"
    "classify (qe_parse (ae_query A)) (aq_sql q) (cp_engine (pin_profile pin)) = Inr c"
    "cl_kind c = Read" "cl_statement_count c = 1" "check_terminal terminal pin = Inr ()"
    "qe_safety (ae_query A) (cp_id (pin_profile pin)) = Inr settings"
  using assms unfolding agent_plan_checks_def Let_def rbind_eq_Inr guard_eq_Inr plan_result_Inr
  by auto

lemma plan_agent_Inr:
  assumes "plan_agent_read_scoped A rt q terminal plan_id i st = (Inr g, st')"
  obtains pin c settings live report h rec where
    "agent_plan_checks A q terminal = Inr (pin, c, settings, live)"
    "preview (qe_env (ae_query A)) (qe_explain (ae_query A)) (lc_read_pool live) (aq_sql q) c settings
       (qs_log st) = (Inr report, h)"
    "rt_plan (qe_env (ae_query A)) rt (agent_operation (qe_env (ae_query A)) pin terminal
         \<lparr>gp_sql = aq_sql q, gp_max_rows = bounded_max_rows (aq_max_rows q) (ss_max_rows settings),
          gp_decision = gl_decision g, gp_origin = aq_origin q\<rparr> c
         (agent_preview_value (gl_decision g, gl_notices g, gl_suggestions g) (pr_estimated_rows report) (gl_health g))
         plan_id (gl_expires_at g)) Plan_Ready
       (ri_clock i 0) (ri_ids i 0) (ri_clock i 1) (ri_ids i 1) (qs_ledger st) = (Inr rec, qs_ledger st')"
    "ae_snapshot A live (cp_engine (pin_profile pin)) h = (gl_health g, qs_log st')"
    "gl_sql g = aq_sql q" "gl_plan_id g = plan_id" "gl_expires_at g = ri_clock i 2 + query_plan_ttl"
  using assms unfolding plan_agent_read_scoped_def Let_def
  by (auto split: sum.splits prod.splits)


section \<open>A read of an agent on the reference environment\<close>

text \<open>The protocol server plans a read of the pinned connection, prepares it and runs it.\<close>

definition agent_parser :: "dialect \<Rightarrow> string \<Rightarrow> string + statement list" where
  "agent_parser dialect sql = Inr [Stmt_Query (Query [] Set_Other 0)]"

definition demo_health :: health_snapshot where
  "demo_health = \<lparr>hs_level = ''normal'', hs_coverage = ''basic'', hs_total_connections = None,
     hs_max_connections = None, hs_connection_usage_percent = None, hs_active_queries = None,
     hs_long_running_queries = None, hs_lock_waits = None, hs_replication_lag_seconds = None,
     hs_reasons = [''local''], hs_captured_at = ''t''\<rparr>"

definition demo_agent_env :: "nat agent_env" where
  "demo_agent_env = \<lparr>ae_query = demo_query_env\<lparr>qe_parse := agent_parser\<rparr>, ae_pin = (\<lambda>_ _. Inr demo_pin),
     ae_snapshot = (\<lambda>_ _ h. (demo_health, h))\<rparr>"

definition demo_agent_inputs :: "int \<Rightarrow> uuid \<Rightarrow> run_inputs" where
  "demo_agent_inputs now ev = \<lparr>ri_cancelled = False, ri_rx = 0,
     ri_polls = [\<lparr>sp_cancelled = False, sp_ready = True, sp_sent = 0, sp_elapsed = 0\<rparr>],
     ri_clock = (\<lambda>k. now + int k), ri_ids = (\<lambda>k. ev + of_nat k)\<rparr>"

definition demo_agent_request :: agent_plan_request where
  "demo_agent_request = \<lparr>aq_connection_id = 3, aq_sql = ''q'', aq_max_rows = None, aq_origin = Origin_Mcp\<rparr>"

definition demo_agent_payload :: agent_payload where
  "demo_agent_payload = \<lparr>gp_sql = ''q'', gp_max_rows = 1000, gp_decision = ''ready'', gp_origin = Origin_Mcp\<rparr>"

definition demo_agent_class :: classification where
  "demo_agent_class = classify_single (Stmt_Query (Query [] Set_Other 0))"

definition demo_agent_operation :: new_operation where
  "demo_agent_operation = agent_operation ref_env demo_pin None demo_agent_payload demo_agent_class
     (agent_preview_value (''ready'', [''local''], []) None demo_health) 1 (2 + query_plan_ttl)"

lemma demo_agent_env_simps [simp]:
  "qe_env (ae_query demo_agent_env) = ref_env" "qe_parse (ae_query demo_agent_env) = agent_parser"
  "qe_safety (ae_query demo_agent_env) cid = Inr demo_settings" "qe_driver (ae_query demo_agent_env) = demo_driver"
  "qe_connect (ae_query demo_agent_env) pin a = Inr ()" "ae_pin demo_agent_env cid a = Inr demo_pin"
  "qe_sql (ae_query demo_agent_env) pin = Inr \<lparr>lc_read_pool = Pool_Postgres, lc_write_pool = Pool_Postgres\<rparr>"
  "ae_snapshot demo_agent_env live eng h = (demo_health, h)"
  "qe_explain (ae_query demo_agent_env) = \<lparr>ed_fetch_one = (\<lambda>_. None), ed_fetch_all = (\<lambda>_. None)\<rparr>"
  by (simp_all add: demo_agent_env_def demo_query_env_def)

lemma demo_agent_classified:
  "classify agent_parser ''q'' (cp_engine (pin_profile demo_pin)) = Inr demo_agent_class"
  "cl_kind demo_agent_class = Read" "cl_statement_count demo_agent_class = 1" "\<not> is_document (cp_engine (pin_profile demo_pin))"
  by (simp_all add: demo_agent_class_def demo_pin_def demo_profile_def classify_def agent_parser_def classify_single_def)

lemma demo_agent_fields [simp]:
  "n_id demo_agent_operation = 1" "n_kind demo_agent_operation = ReadQuery"
  "n_expires_at demo_agent_operation = Some (2 + query_plan_ttl)"
  by (simp_all add: demo_agent_operation_def agent_operation_def Let_def)

lemma whole_demo_health: "whole_health demo_health"
  by (simp add: whole_health_def demo_health_def json_opt_f64_def)

lemma demo_agent_numbers: "is_i64 (pin_binding_revision demo_pin)" "is_i64 (pin_connection_revision demo_pin)"
  "is_i64 (sc_generation (pin_scope demo_pin))"
  using policy_numbers_demo by (simp_all add: policy_numbers_ok_def)

lemma demo_agent_plain: "plain_operation demo_agent_operation"
  using agent_preview_plain [OF whole_demo_health, of None "(''ready'', [''local''], [])"]
    agent_policy_plain [OF demo_agent_numbers] agent_payload_plain [of demo_agent_payload]
  by (simp add: plain_operation_def demo_agent_operation_def agent_operation_def Let_def
      capture_agent_read_policy_def version_ok_agent expiry_in_range_def rfc3339_range_def query_plan_ttl_def
      demo_agent_payload_def)

lemma hash_not_blank: "\<not> blank (canonical_hash ref_env v)" "length (canonical_hash ref_env v) = 64"
proof -
  have "set (sha256_hex ref_env m) \<subseteq> hex_chars" for m
    using lower_hex_chars by (simp add: sha256_hex_def)
  moreover have "sha256_hex ref_env m \<noteq> []" for m
    using length_sha256_hex [OF env_ok_ref_env, of m] by force
  ultimately show "\<not> blank (canonical_hash ref_env v)"
    by (simp add: canonical_hash_eq not_blank_hex)
  show "length (canonical_hash ref_env v) = 64" by (simp add: canonical_hash_eq env_ok_ref_env)
qed

lemma demo_agent_valid: "validate_new_operation demo_agent_operation = Inr ()"
proof -
  have "uuid_to_string ref_env 1 = [char_of (Suc 0)]" by (simp add: ref_env_def digits_le.simps)
  moreover have "\<not> blank [char_of (Suc 0)]" "\<not> blank ''personal''" "\<not> blank ''local-user''" "\<not> blank ''mcp''"
    by code_simp+
  ultimately show ?thesis
    using hash_not_blank
    by (simp add: validate_new_operation_def demo_agent_operation_def agent_operation_def Let_def
        agent_actor_def agent_actor_for_pin_def no_provenance_def capture_agent_read_policy_def
        demo_agent_payload_def demo_pin_def pin_account_scope_def)
qed

lemma demo_agent_prepare: "\<exists>p. prepare_operation ref_env 9 demo_agent_operation = Inr p"
proof -
  have "length (enc (n_payload demo_agent_operation)) \<le> 4000"
    using length_digits_le [of 1000]
    by (simp add: demo_agent_operation_def agent_operation_def Let_def agent_payload_value_def
        demo_agent_payload_def length_enc_obj)
  moreover have "length (enc (provenance_to_value (actor_provenance (n_actor demo_agent_operation)))) \<le> 2000"
    by (simp add: demo_agent_operation_def agent_operation_def Let_def agent_actor_def agent_actor_for_pin_def
        no_provenance_def demo_agent_payload_def demo_pin_def pin_account_scope_def
        provenance_to_value_def provenance_entries_def opt_field_def length_enc_obj)
  moreover have "length (enc (n_preview demo_agent_operation)) \<le> 2000"
    by (simp add: demo_agent_operation_def agent_operation_def Let_def agent_preview_value_def
        health_value_def demo_health_def json_opt_i64_def json_opt_f64_def length_enc_obj length_enc_arr)
  moreover have "length (enc (n_policy_snapshot demo_agent_operation)) \<le> 200000"
    using length_digits_le [of 1] length_ref_uuid [of 2]
    by (simp add: demo_agent_operation_def agent_operation_def Let_def capture_agent_read_policy_def
        agent_policy_snapshot_def length_enc_obj demo_pin_def demo_profile_def json_i64_def
        json_opt_string_def pin_workspace_id_def pin_account_scope_def split: option.split)
  moreover have "length (to_json_string ref_env (canonical_value v)) = length (enc v)" for v
    by (simp add: ref_env_def)
  ultimately show ?thesis
    by (simp add: prepare_operation_def demo_agent_valid canonical_from_value_def Let_def
        max_request_bytes_def max_response_bytes_def)
qed

definition demo_agent_prepared :: prepared_operation where
  "demo_agent_prepared = (case prepare_operation ref_env 9 demo_agent_operation of Inr p \<Rightarrow> p)"

lemma demo_agent_prepared_eq: "prepare_operation ref_env 9 demo_agent_operation = Inr demo_agent_prepared"
  using demo_agent_prepare by (auto simp: demo_agent_prepared_def)

abbreviation demo_agent_rec :: operation_record where
  "demo_agent_rec \<equiv> moved_record Ready 1 (planned_record ref_env 9 demo_agent_operation 0)"

definition demo_agent_planned :: ledger where
  "demo_agent_planned = planned_ledger ref_env demo_agent_prepared 0 101 empty_ledger"

definition demo_agent_ready :: ledger where
  "demo_agent_ready = moved_ledger ref_env (operation_row_of ref_env demo_agent_prepared 0)
     (planned_record ref_env 9 demo_agent_operation 0) Ready (disposition_details Plan_Ready) 1 102 demo_agent_planned"

lemma demo_agent_events:
  "map er_id (db_events demo_agent_planned) = [uuid_to_string ref_env 101]"
  "map er_id (db_events demo_agent_ready) = [uuid_to_string ref_env 101, uuid_to_string ref_env 102]"
  by (simp_all add: demo_agent_planned_def demo_agent_ready_def planned_ledger_def moved_ledger_def
      Let_def empty_ledger_def new_event_row_def)

lemma demo_agent_plans:
  "rt_plan ref_env \<lparr>rt_runtime_id = 9\<rparr> demo_agent_operation Plan_Ready 0 101 1 102 empty_ledger =
     (Inr demo_agent_rec, demo_agent_ready)"
  "get_operation ref_env 1 demo_agent_ready = Inr demo_agent_rec"
  "reachable ref_env demo_agent_ready"
proof -
  let ?rt = "\<lparr>rt_runtime_id = 9\<rparr>"
  note p = prepare_operation_Inr [OF demo_agent_prepared_eq]
  have fits1: "event_fits ref_env (n_id demo_agent_operation) (planned_details demo_agent_prepared) 101 empty_ledger"
  proof (rule demo_fits)
    have "length (risk_level_str r) \<le> 20" for r by (cases r) simp_all
    from this [of "n_risk_level demo_agent_operation"] show "length (enc (planned_details demo_agent_prepared)) \<le> 1000"
      by (simp add: planned_details_def length_enc_obj p canonical_from_value_def Let_def env_ok_ref_env)
  qed (simp_all add: empty_ledger_def)
  have fits2: "event_fits ref_env (n_id demo_agent_operation) (disposition_details Plan_Ready) 102
      (planned_ledger ref_env demo_agent_prepared 0 101 empty_ledger)"
  proof (rule demo_fits)
    have "set (map er_id (db_events demo_agent_planned)) = {uuid_to_string ref_env 101}"
      by (simp only: demo_agent_events) simp
    then show "uuid_to_string ref_env 102 \<notin>
        er_id ` set (db_events (planned_ledger ref_env demo_agent_prepared 0 101 empty_ledger))"
      by (simp add: demo_agent_planned_def env_ok_ref_env)
    show "length (db_events (planned_ledger ref_env demo_agent_prepared 0 101 empty_ledger)) < 100"
      using arg_cong [OF demo_agent_events(1), of length] by (simp add: demo_agent_planned_def)
  qed (simp_all, simp add: disposition_details_def length_enc_obj)
  have prep: "prepare_operation ref_env (rt_runtime_id ?rt) demo_agent_operation = Inr demo_agent_prepared"
    by (simp add: demo_agent_prepared_eq)
  have now: "rfc3339_range 0" "rfc3339_range 1" by (simp_all add: rfc3339_range_def)
  note run = rt_plan_succeeds [OF env_ok_ref_env reachable.init prep demo_agent_plain now _ _ fits1 fits2]
  show plan: "rt_plan ref_env ?rt demo_agent_operation Plan_Ready 0 101 1 102 empty_ledger
      = (Inr demo_agent_rec, demo_agent_ready)"
    using run(1) by (simp add: demo_agent_ready_def demo_agent_planned_def empty_ledger_def)
  show "get_operation ref_env 1 demo_agent_ready = Inr demo_agent_rec"
    using run(2) by (simp add: demo_agent_ready_def demo_agent_planned_def empty_ledger_def)
  show "reachable ref_env demo_agent_ready"
    using rt_plan_reachable [OF reachable.init now, of demo_agent_operation ref_env ?rt Plan_Ready 101 102]
      plan by (simp add: expiry_in_range_def rfc3339_range_def query_plan_ttl_def)
qed

definition demo_agent_state :: "ledger \<Rightarrow> query_state" where
  "demo_agent_state db = \<lparr>qs_ledger = db, qs_audit = [], qs_history = [], qs_schemas = [], qs_schemas_v2 = [], qs_log = []\<rparr>"

lemma demo_agent_receipt:
  obtains g st' where "plan_agent_read_scoped demo_agent_env \<lparr>rt_runtime_id = 9\<rparr> demo_agent_request None 1
      (demo_agent_inputs 0 101) (demo_agent_state empty_ledger) = (Inr g, st')"
    "gl_health g = demo_health" "gl_decision g = ''ready''"
proof -
  let ?live = "\<lparr>lc_read_pool = Pool_Postgres, lc_write_pool = Pool_Postgres\<rparr>"
  have checks: "agent_plan_checks demo_agent_env demo_agent_request None = Inr (demo_pin, demo_agent_class, demo_settings, ?live)"
    using demo_agent_classified
    by (simp add: agent_plan_checks_def demo_agent_request_def plan_result_def check_terminal_def Let_def)
  have guidance: "planning_guidance (pin_profile demo_pin) demo_health None n = (''ready'', [''local''], [])" for n
    by (simp add: planning_guidance_def prod_advice_def health_advice_def estimate_advice_def is_prod_def
        demo_pin_def demo_profile_def demo_health_def)
  have "bounded_max_rows None (ss_max_rows demo_settings) = 1000"
    by (simp add: bounded_max_rows_def demo_settings_def default_safety_def max_agent_rows_def)
  then have op: "agent_operation ref_env demo_pin None
      \<lparr>gp_sql = ''q'', gp_max_rows = bounded_max_rows None (ss_max_rows demo_settings), gp_decision = ''ready'',
       gp_origin = Origin_Mcp\<rparr> demo_agent_class (agent_preview_value (''ready'', [''local''], []) None demo_health)
      1 (2 + query_plan_ttl) = demo_agent_operation"
    by (simp add: demo_agent_operation_def demo_agent_payload_def)
  show thesis
    using checks guidance demo_agent_classified demo_agent_plans(1) op
    by (intro that)
      (auto simp: plan_agent_read_scoped_def demo_agent_request_def demo_agent_inputs_def demo_agent_state_def
        preview_def explain_def send_def Let_def)
qed


lemma demo_agent_rec_fields [simp]:
  "o_id demo_agent_rec = 1" "o_state demo_agent_rec = Ready" "o_kind demo_agent_rec = ReadQuery"
  "o_runtime_id demo_agent_rec = 9" "o_expires_at demo_agent_rec = Some (2 + query_plan_ttl)"
  "o_terminal_session_id demo_agent_rec = None" "o_connection_id demo_agent_rec = pin_connection_id demo_pin"
  "ensure_operation_scope demo_agent_rec demo_pin = Inr ()"
  "stored_plan demo_agent_rec = Some demo_agent_payload"
  "o_policy_revision demo_agent_rec = po_revision (capture_agent_read_policy ref_env demo_pin)"
  by (simp_all add: moved_record_def planned_record_def demo_agent_operation_def agent_operation_def Let_def
      ensure_operation_scope_def stored_plan_def read_canonical_payload)

lemma demo_agent_planned_fields [simp]:
  "o_id (planned_record ref_env 9 demo_agent_operation 0) = 1"
  "o_runtime_id (planned_record ref_env 9 demo_agent_operation 0) = 9"
  by (simp_all add: planned_record_def)

lemma demo_agent_at:
  obtains row where "row \<in> set (db_operations demo_agent_ready)" "row_to_operation ref_env row = Inr demo_agent_rec"
proof -
  have ok: "rows_ok ref_env demo_agent_ready" by (rule reachable_rows [OF demo_agent_plans(3) env_ok_ref_env])
  have "fetch_operation_tx ref_env 1 demo_agent_ready = Inr demo_agent_rec"
    using demo_agent_plans(2)
    by (auto simp: get_operation_def find_operation_def fetch_operation_tx_def transpose_opt_def
        rbind_eq_Inr ok_or_def split: option.splits sum.splits)
  then show thesis using fetch_row [OF ok] that by metis
qed

lemma demo_agent_prepares:
  obtains p st1 where "prepare_agent_run_scoped demo_agent_env \<lparr>rt_runtime_id = 9\<rparr> 1 None
      (demo_agent_inputs 3 104) (demo_agent_state demo_agent_ready) = (Inr p, st1)"
    "pq_pin p = demo_pin" "re_sql (pq_event p) = ''q''" "pq_max_rows p = 1000" "o_id (co_record (pq_claimed p)) = 1"
    "qs_log st1 = []" "reachable ref_env (qs_ledger st1)"
    "get_operation ref_env 1 (qs_ledger st1) = Inr (co_record (pq_claimed p))"
proof -
  obtain row where row: "row \<in> set (db_operations demo_agent_ready)" "row_to_operation ref_env row = Inr demo_agent_rec"
    by (rule demo_agent_at)
  have ok: "ledger_ok ref_env demo_agent_ready" by (rule reachable_ok [OF demo_agent_plans(3) env_ok_ref_env])
  have claimable: "claimable ref_env demo_agent_rec 3 demo_agent_ready"
    by (simp add: claimable_def expired_at_def query_plan_ttl_def del: moved_record_simps)
  have fits: "event_fits ref_env 1 (claim_details demo_agent_rec) 104 demo_agent_ready"
  proof (rule demo_fits)
    show "length (enc (claim_details demo_agent_rec)) \<le> 1000"
      by (simp add: claim_details_def length_enc_obj planned_record_def hash_not_blank)
    have "set (map er_id (db_events demo_agent_ready)) = {uuid_to_string ref_env 101, uuid_to_string ref_env 102}"
      by (simp only: demo_agent_events) simp
    then show "uuid_to_string ref_env 104 \<notin> er_id ` set (db_events demo_agent_ready)"
      by (simp add: env_ok_ref_env)
    show "length (db_events demo_agent_ready) < 100"
      using arg_cong [OF demo_agent_events(2), of length] by simp
  qed (simp add: claim_details_def json_plain_def)
  have "claim_execution ref_env 1 9 3 104 demo_agent_ready = (Inr (moved_record Executing 3 demo_agent_rec),
      moved_ledger ref_env row demo_agent_rec Executing (claim_details demo_agent_rec) 3 104 demo_agent_ready)"
    using claim_succeeds [OF env_ok_ref_env ok row(1,2) _ claimable, of 9 104] fits
    by (simp add: rfc3339_range_def)
  then obtain co db where claim: "rt_claim ref_env \<lparr>rt_runtime_id = 9\<rparr> 1 3 104 demo_agent_ready = (Inr co, db)"
    "o_id (co_record co) = 1"
    by (auto simp: rt_claim_def issue_grant_def)
  have now: "rfc3339_range 3" by (simp add: rfc3339_range_def)
  have after: "get_operation ref_env 1 db = Inr (co_record co)" "reachable ref_env db"
    by (rule claimed_reads [OF env_ok_ref_env demo_agent_plans(3) now claim(1)]; simp)+
  have unclaimed: "unclaimed_checks demo_agent_env 1 None demo_agent_ready = Inr (demo_agent_rec, demo_agent_payload)"
    using demo_agent_plans(2)
    by (simp add: unclaimed_checks_def rt_get_def expected_origin_def demo_agent_payload_def del: moved_record_simps)
  have claimed: "claimed_checks demo_agent_env None demo_agent_rec demo_agent_payload = Inr (demo_pin, demo_settings)"
    using demo_agent_classified
    by (simp add: claimed_checks_def failing_def check_terminal_def Let_def demo_agent_payload_def del: moved_record_simps)
  have limits: "gp_max_rows demo_agent_payload = 1000" "ss_max_rows demo_settings = 1000" "gp_sql demo_agent_payload = ''q''"
    by (simp_all add: demo_agent_payload_def demo_settings_def default_safety_def)
  show thesis
    using unclaimed claimed claim after
    by (intro that)
      (auto simp: prepare_agent_run_scoped_def demo_agent_state_def demo_agent_inputs_def Let_def limits max_agent_rows_def
        simp del: moved_record_simps)
qed

lemma demo_agent_runs:
  assumes "pq_pin p = demo_pin" "re_sql (pq_event p) = ''q''" "pq_max_rows p = 1000" "qs_log st = []"
  obtains r st' where "execute_agent_run (ae_query demo_agent_env) \<lparr>rt_runtime_id = 9\<rparr> p (demo_agent_inputs 6 120) st
      = Some (r, st')"
    "(Read_pool, Fetch ''q'') \<in> set (qs_log st')"
proof -
  have "\<exists>q h. run_read_only_inner demo_driver Pool_Postgres ''q'' (Suc (Suc k)) [] = (Inr q, h) \<and>
      (Read_pool, Fetch ''q'') \<in> set h" for k
    by (simp add: run_read_only_inner_def session_simps demo_driver_def stream_capped_def with_headers_def Let_def)
  from this [of 998] obtain q h where inner: "run_read_only_inner demo_driver Pool_Postgres ''q'' 1000 [] = (Inr q, h)"
    "(Read_pool, Fetch ''q'') \<in> set h"
    by auto
  obtain r st' where settled: "settle_read (ae_query demo_agent_env) \<lparr>rt_runtime_id = 9\<rparr> p (demo_agent_inputs 6 120) q
      (st\<lparr>qs_log := h\<rparr>) = (r, st')"
    by (metis surj_pair)
  show thesis
  proof (rule that)
    show "execute_agent_run (ae_query demo_agent_env) \<lparr>rt_runtime_id = 9\<rparr> p (demo_agent_inputs 6 120) st = Some (r, st')"
      using inner(1) settled assms
      by (simp add: execute_agent_run_def run_read_only_cancellable_def demo_agent_inputs_def
          guard_poll_result_def poll_of_def)
    show "(Read_pool, Fetch ''q'') \<in> set (qs_log st')"
      using settle_read_cases(1) [OF settled] inner(2) by simp
  qed
qed



lemma foreign_plan_refused_witness:
  "o_terminal_session_id demo_agent_rec = None \<and>
   prepare_agent_run_scoped demo_agent_env \<lparr>rt_runtime_id = 9\<rparr> 1
     (Some \<lparr>ta_terminal_session_id = 4, ta_workspace_id = 2, ta_account_scope = ''personal'', ta_connection_id = 3,
        ta_connection_revision = 1, ta_client_protocol_version = 1\<rparr>)
     (demo_agent_inputs 3 104) (demo_agent_state demo_agent_ready) = (Inl SessionMismatch, demo_agent_state demo_agent_ready)"
  using foreign_plan_refused [of demo_agent_env 1 "demo_agent_state demo_agent_ready" demo_agent_rec
      "Some \<lparr>ta_terminal_session_id = 4, ta_workspace_id = 2, ta_account_scope = ''personal'', ta_connection_id = 3,
        ta_connection_revision = 1, ta_client_protocol_version = 1\<rparr>"] demo_agent_plans(2)
  by (simp add: demo_agent_state_def del: moved_record_simps)

end
