(* ===== verification/Spec2Isabelle.thy ===== *)
theory Spec2Isabelle
  imports Operation_State Ledger_Contracts Ledger_Chain Audit_Log Frame Broker_Session Operation_Service
    Sql_Script Query_Run Script_Run Mongo_Query Connection_Contracts Dashboard_Service Agent_Contracts
begin

text \<open>
  A verification development for DopeDB, a desktop database client whose Rust core lives under
  \<^verbatim>\<open>src/src-tauri/src\<close> with its broker protocol under \<^verbatim>\<open>src/dopedb-protocol/src\<close>. The
  core lets a person, or an agent that acts for one, read and change databases. What makes it
  correct is mostly authority: which text may be sent to which database, under whose approval, and
  what is left on record. The definitions follow the Rust code and its names; every type that the
  code takes from a library, and every answer of a database, is an argument.

  \<^bold>\<open>Shared vocabulary.\<close> \<open>Prelude\<close> has the errors of \<^verbatim>\<open>error.rs\<close> (\<open>app_error\<close>, the
  result type \<open>app_result\<close>), identifiers, clock values and lists by key. \<open>Json\<close> has
  \<^verbatim>\<open>serde_json::Value\<close> and the canonical form of \<^verbatim>\<open>operations/canonicalize.rs\<close>. The record
  \<open>env\<close> holds what the code calls outside the repository: the JSON text codec, SHA-256, the
  texts of identifiers and times; \<open>env_ok\<close> states their documented behaviour (a text parses
  back, a digest has 32 bytes, times print in order), and \<open>Reference_Env\<close> gives an
  environment that has it. Collisions of SHA-256 are never assumed away: where one could defeat a
  property the statement exhibits it. \<open>Database_Model\<close> and \<open>Pinned_Connection\<close> hold the
  domain types of \<^verbatim>\<open>model.rs\<close>, the pins and \<^verbatim>\<open>services/terminal_authority.rs\<close>.

  \<^bold>\<open>The operation ledger.\<close> \<open>Operation_State\<close> (\<^verbatim>\<open>operation.rs\<close>,
  \<^verbatim>\<open>operations/state_machine.rs\<close>) is the lifecycle, an interpretation of the locale
  \<open>lifecycle\<close>, and the text codecs, interpretations of \<open>text_codec\<close>.
  \<open>Operation_Model\<close> and \<open>Operation_Repository\<close> (\<^verbatim>\<open>operations/model.rs\<close>,
  \<^verbatim>\<open>operations/repository.rs\<close>, the triggers and CHECK constraints of
  \<^verbatim>\<open>store/migrations.rs\<close>) model each repository call as a function from a ledger (three
  tables) to a result and a ledger; a transaction commits whole or leaves the ledger alone.
  \<open>Ledger_Steps\<close> abstracts the calls to four kinds of step, a refinement; on these
  \<open>Ledger_Invariant\<close> proves that every event log is a numbered, hash-linked history,
  \<open>Ledger_Evolution\<close> that rows only move along the transition table, \<open>Ledger_Progress\<close>
  when calls succeed and \<open>Ledger_Recovery\<close> what a restart settles. \<open>Ledger_Properties\<close>
  and \<open>Ledger_Contracts\<close> state the results over every reachable ledger; \<open>Ledger_Demo\<close> is
  the run their witnesses use. \<open>Hash_Chain\<close> is the interface that \<open>Ledger_Chain\<close> and
  \<open>Audit_Log\<close> (\<^verbatim>\<open>audit/chain.rs\<close>, \<^verbatim>\<open>audit/mod.rs\<close>) provide: two chains that verify
  and end in one hash record the same, or a collision is exhibited.
  \<open>Operation_Runtime\<close> (\<^verbatim>\<open>operations/runtime.rs\<close>, \<^verbatim>\<open>execute.rs\<close>) issues the grants of
  claimed operations, and \<open>Operation_Service\<close> (\<^verbatim>\<open>services/operation_service.rs\<close>) the
  local decisions, the captured policy and the Terminal's views and waiting.

  \<^bold>\<open>The safety layers and the sessions.\<close> \<open>Sql_Classify\<close> (\<^verbatim>\<open>safety/l1_parse.rs\<close>)
  classifies the syntax trees of the parser, a parameter; \<open>Safety_Gate\<close>
  (\<^verbatim>\<open>l4_gate.rs\<close>) decides; \<open>Impact_Preview\<close> (\<^verbatim>\<open>l3_preview.rs\<close>) explains;
  \<open>Db_Session\<close> (\<^verbatim>\<open>l2_enforce.rs\<close>, \<^verbatim>\<open>executor/read.rs\<close>, \<^verbatim>\<open>executor/write.rs\<close>)
  is the read-only session of each engine and the write transaction, steps that append to a log of
  the commands sent and take the database's answers from the parameter \<open>driver\<close>.
  \<open>Cancel_Registry\<close> (\<^verbatim>\<open>executor/cancel.rs\<close>) is the registry of cancellation handles;
  the guard around a session is a function of the list of polls it makes, and gives \<open>None\<close>
  while no poll has ended it; a dropped session has sent a prefix of its commands. \<open>Executor\<close>
  (\<^verbatim>\<open>executor/mod.rs\<close>) demands the grant for a write. \<open>Sql_Script\<close>
  (\<^verbatim>\<open>sql_script/mod.rs\<close>) splits scripts, shown equal to a reference lexer, and
  \<open>Mongo_Query\<close> (\<^verbatim>\<open>mongo/query.rs\<close>) classifies and pages document queries.

  \<^bold>\<open>The store.\<close> \<open>Store_Model\<close>, \<open>Scope_Store\<close>, \<open>Connection_Store\<close> and
  \<open>Connection_Sync\<close> (\<^verbatim>\<open>store/mod.rs\<close>) are the tables of workspaces, members, accounts,
  connections, bindings, safety settings, history and schema caches, and the transactions on them;
  \<open>Store_Run\<close> makes each a call, so a history of the store is a list of calls.
  \<open>Connection_Pins\<close> has the invariant of the connection tables, \<open>Store_Contracts\<close> the
  properties over every history: the active scope never dangles, a generation names one scope, and
  a pin that is current is exact. \<open>Dashboard_Store\<close> (\<^verbatim>\<open>dashboard.rs\<close>) adds the
  dashboards and their validation.

  \<^bold>\<open>The connection manager.\<close> \<open>Connection_Manager\<close> (\<^verbatim>\<open>connection/runtime.rs\<close>) is
  a machine of interleaved tasks: one label per stretch of code between two awaits, carrying what
  the environment answers, and one for the cancellation of a task at any await.
  \<open>Connection_Invariant\<close> and \<open>Connection_Safety\<close> show that every step keeps the
  invariant; \<open>Connection_Contracts\<close> has the properties, among them that an acquisition can
  always end.

  \<^bold>\<open>The services.\<close> \<open>Query_Plan\<close>, \<open>Query_Run\<close>,
  \<open>Agent_Query\<close> and \<open>Agent_Contracts\<close>
  (\<^verbatim>\<open>services/query_service.rs\<close>), \<open>Script_Run\<close> (\<^verbatim>\<open>services/script_service.rs\<close>)
  and \<open>Dashboard_Service\<close> (\<^verbatim>\<open>services/dashboard_service.rs\<close>) compose the parts the way
  the code does: pin, settings, classification, policy, claim, audit pre-record, session and
  recorded outcome. Their properties say what may be sent to a database and what is then on record.
  The record \<open>query_env\<close> holds what they ask of the store and of the connection manager, and
  \<open>query_state\<close> what they change. \<open>Frame\<close> and \<open>Broker_Session\<close>
  (\<^verbatim>\<open>frame.rs\<close>, \<^verbatim>\<open>broker/session.rs\<close>) are the framing and the session capabilities of
  the broker.

  \<^bold>\<open>Bounds and fuel.\<close> The recursions follow the data, or a measure with a termination proof.
  No fuel is used. The loop of \<^verbatim>\<open>wait_terminal\<close> is a \<open>partial_function\<close> that is shown to
  end while the clock advances; a guarded session reads the list of polls the environment makes, and
  a theorem about a run has as hypothesis that its list ends it.
  Integers keep their width where the code's arithmetic can wrap,
  saturate or fail (row counts, sequence numbers, the scope generation, frame lengths). Revisions
  are unbounded integers where SQLite holds 64 bits: the code only adds one to them. Times the
  store keeps are the texts it compares.

  \<^bold>\<open>What is simplified.\<close> SQLite transactions are atomic steps on tables, as the write lock makes
  them. A call of the store reads the clock once where the code may read it several times within one
  transaction. The connection manager joins the second authorisation, the pin check and the
  publication of a pool into one step, since the slot's mutex is held from one to the next and the
  scope guard keeps mutations out. The \<^verbatim>\<open>Debug\<close> text of a column in an error is a parameter.
  Logging is left out.

  \<^bold>\<open>Not modelled.\<close> Parsers, drivers and codecs of other crates; reading system catalogs
  (\<^verbatim>\<open>introspect/\<close>) and health snapshots (\<^verbatim>\<open>monitoring/\<close>), which are queries and the
  decoding of their answers; the operating system's key chain, connection strings and the editing of
  profiles (\<^verbatim>\<open>connection/pool.rs\<close>, \<^verbatim>\<open>services/connection_service.rs\<close>); the hosted
  control plane (\<^verbatim>\<open>workspace_auth.rs\<close>); chat threads and the catalog cache of the store; the
  adapters (Tauri commands, MCP, the broker's sockets and dispatch, the command line client), which
  decode, call a modelled service and print; the service around document queries
  (\<^verbatim>\<open>services/document_service.rs\<close>), which repeats the order of the SQL service; child
  processes of agents; and the code in other languages (\<^verbatim>\<open>src/src\<close>, \<^verbatim>\<open>workspace-cloud\<close>,
  \<^verbatim>\<open>workspace-service\<close>, \<^verbatim>\<open>site\<close>).
\<close>

end
